(* ===== verification/Prelude.thy ===== *)
theory Prelude
  imports Complex_Main "HOL-Library.AList"
begin

text \<open>
  Shared base of the development: the hint collections, the exceptions of the modelled
  Python code as values, Python dictionaries as association lists in insertion order, and
  the generic lemmas on them that the component theories use.

  A Python \<open>dict\<close> keeps insertion order and overwrites in place. That is the behaviour of
  \<open>AList.update\<close>, so a dictionary whose order the code can observe is an association list
  built by \<open>AList.update\<close> and \<open>AList.delete\<close>; reading it is \<open>map_of\<close>.
\<close>

section \<open>Hint collections\<close>

named_theorems py_defs \<open>definitions of operations, unfolded when a component is verified\<close>
named_theorems py_inv \<open>an operation keeps an invariant\<close>
named_theorems py_eval \<open>evaluation of closed float terms\<close>

section \<open>Exceptions as values\<close>

text \<open>The exception classes the modelled code raises or lets escape; message texts are left out.\<close>

datatype exc =
    ValueError
  | TypeError
  | OverflowError
  | KeyError
  | AttributeError
  | ZeroDivisionError
  | NotImplementedError

type_synonym 'a result = "exc + 'a"

text \<open>Sequencing: a raised exception skips the rest.\<close>

fun bindR :: "'a result \<Rightarrow> ('a \<Rightarrow> 'b result) \<Rightarrow> 'b result" where
  "bindR (Inl e) f = Inl e"
| "bindR (Inr x) f = f x"

lemma bindR_Inr_iff: "bindR r f = Inr y \<longleftrightarrow> (\<exists>x. r = Inr x \<and> f x = Inr y)"
  by (cases r) auto

lemma bindR_Inl_iff: "bindR r f = Inl e \<longleftrightarrow> r = Inl e \<or> (\<exists>x. r = Inr x \<and> f x = Inl e)"
  by (cases r) auto

lemma bindR_assoc: "bindR (bindR r f) g = bindR r (\<lambda>x. bindR (f x) g)"
  by (cases r) auto

section \<open>Dictionaries\<close>

type_synonym ('k, 'v) pydict = "('k \<times> 'v) list"

definition dict_ok :: "('k, 'v) pydict \<Rightarrow> bool" where
  "dict_ok d \<longleftrightarrow> distinct (map fst d)"

lemma dict_ok_Nil [simp]: "dict_ok []"
  by (simp add: dict_ok_def)

lemma dict_ok_update [simp, py_inv]: "dict_ok d \<Longrightarrow> dict_ok (AList.update k v d)"
  by (simp add: dict_ok_def distinct_update)

lemma dict_ok_delete [simp, py_inv]: "dict_ok d \<Longrightarrow> dict_ok (AList.delete k d)"
  by (simp add: dict_ok_def distinct_delete)

lemma dict_ok_filter [simp, py_inv]: "dict_ok d \<Longrightarrow> dict_ok (filter P d)"
  by (induction d) (auto simp: dict_ok_def)

lemma dict_lookup: "dict_ok d \<Longrightarrow> (k, v) \<in> set d \<longleftrightarrow> map_of d k = Some v"
  by (auto simp: dict_ok_def dest: map_of_SomeD)

lemma map_of_update [simp]: "map_of (AList.update k v d) = (map_of d)(k \<mapsto> v)"
  by (simp add: update_conv' fun_eq_iff)

lemma map_of_delete [simp]: "map_of (AList.delete k d) = (map_of d)(k := None)"
  by (simp add: delete_conv' fun_eq_iff)

text \<open>Filtering on values: a key survives exactly when its value passes the test.\<close>

lemma map_of_filter_value:
  "dict_ok d \<Longrightarrow> map_of (filter (\<lambda>(k, v). P v) d) k =
     (case map_of d k of None \<Rightarrow> None | Some v \<Rightarrow> if P v then Some v else None)"
proof (induction d)
  case (Cons kv d)
  obtain a b where kv: "kv = (a, b)" by (cases kv)
  from Cons.prems have "dict_ok d" and "map_of d a = None"
    by (auto simp: dict_ok_def kv map_of_eq_None_iff)
  then show ?case using Cons.IH by (auto simp: kv split: option.splits)
qed simp

lemma length_update_le: "length (AList.update k v d) \<le> Suc (length d)"
  by (induction d) (auto split: if_splits)

section \<open>Lists\<close>

lemma find_Some_iff_mem: "(\<exists>x. find P xs = Some x) \<longleftrightarrow> (\<exists>x \<in> set xs. P x)"
  by (induction xs) auto

lemma find_SomeD: "find P xs = Some x \<Longrightarrow> x \<in> set xs \<and> P x"
  by (induction xs) (auto split: if_splits)

section \<open>Decimal numerals\<close>

text \<open>The decimal digits of \<open>str(n)\<close>, and the zero padding of the format \<open>:03d\<close>.\<close>

definition digit_char :: "nat \<Rightarrow> char" where
  "digit_char d = char_of (48 + d)"

fun decimal :: "nat \<Rightarrow> string" where
  "decimal n = (if n < 10 then [digit_char n] else decimal (n div 10) @ [digit_char (n mod 10)])"

declare decimal.simps [simp del]

definition pad3 :: "nat \<Rightarrow> string" where
  "pad3 n = replicate (3 - length (decimal n)) (digit_char 0) @ decimal n"

text \<open>Reading the digits back; leading zeros do not matter, so padding keeps numbers apart.\<close>

definition undecimal :: "string \<Rightarrow> nat" where
  "undecimal = foldl (\<lambda>acc c. 10 * acc + (of_char c - 48)) 0"

lemma of_char_digit: "d < 10 \<Longrightarrow> of_char (digit_char d) = 48 + d"
  by (simp add: digit_char_def)

lemma undecimal_snoc: "undecimal (s @ [c]) = 10 * undecimal s + (of_char c - 48)"
  by (simp add: undecimal_def)

lemma undecimal_decimal: "undecimal (decimal n) = n"
proof (induction n rule: decimal.induct)
  case (1 n)
  show ?case
  proof (cases "n < 10")
    case True
    then show ?thesis by (simp add: decimal.simps [of n] undecimal_def of_char_digit)
  next
    case False
    with 1 show ?thesis
      by (subst decimal.simps) (simp add: undecimal_snoc of_char_digit)
  qed
qed

lemma undecimal_zeros: "undecimal (replicate k (digit_char 0) @ s) = undecimal s"
  by (induction k) (simp_all add: undecimal_def of_char_digit)

lemma pad3_inject [simp]: "pad3 m = pad3 n \<longleftrightarrow> m = n"
  by (metis pad3_def undecimal_zeros undecimal_decimal)

end
