(* ===== verification/PyFloat.thy ===== *)
theory PyFloat
  imports Prelude "HOL-Library.Log_Nat"
begin

text \<open>
  Python's \<open>float\<close> (IEEE 754 binary64): finite values are rationals, next to the two infinities
  and NaN; arithmetic is the exact result rounded to nearest, ties to even, with gradual
  underflow and overflow to infinity; every comparison with NaN is False.

  Not represented: the sign of zero (no modelled operation reads it) and NaN payloads. A finite
  value is any rational, so a statement about all \<open>Fin x\<close> covers the binary64 values and more;
  \<open>is_double\<close> singles out the binary64 values where a lemma needs it.
\<close>

section \<open>Rounding rationals to 53 significant bits\<close>

text \<open>\<open>rne\<close> is Python's \<open>round(x)\<close> on one argument: nearest integer, ties to even.\<close>

definition rne :: "rat \<Rightarrow> int" where
  "rne x =
     (let f = \<lfloor>x\<rfloor>; d = x - of_int f in
      if d < 1/2 then f else if 1/2 < d then f + 1 else if even f then f else f + 1)"

definition ilog2 :: "rat \<Rightarrow> int" where
  "ilog2 x =
     (let (n, d) = quotient_of x; e = bitlen n - bitlen d
      in if x < 2 powi e then e - 1 else e)"

definition fexp :: "rat \<Rightarrow> int" where
  "fexp x = max (ilog2 \<bar>x\<bar> - 52) (- 1074)"

definition round53 :: "rat \<Rightarrow> rat" where
  "round53 x = (if x = 0 then 0 else of_int (rne (x / 2 powi fexp x)) * 2 powi fexp x)"

lemma rne_near: "\<bar>of_int (rne x) - x\<bar> \<le> 1/2"
  unfolding rne_def Let_def by (auto simp: abs_if) linarith+

lemma rne_of_int [simp]: "rne (of_int n) = n"
  by (simp add: rne_def)

lemma rne_mono: "x \<le> y \<Longrightarrow> rne x \<le> rne y"
proof -
  assume le: "x \<le> y"
  then have f: "\<lfloor>x\<rfloor> \<le> \<lfloor>y\<rfloor>" by (rule floor_mono)
  show ?thesis
  proof (cases "\<lfloor>x\<rfloor> = \<lfloor>y\<rfloor>")
    case True
    with le show ?thesis by (auto simp: rne_def Let_def)
  next
    case False
    with f have "\<lfloor>x\<rfloor> + 1 \<le> \<lfloor>y\<rfloor>" by linarith
    moreover have "rne x \<le> \<lfloor>x\<rfloor> + 1" by (auto simp: rne_def Let_def)
    moreover have "\<lfloor>y\<rfloor> \<le> rne y" by (auto simp: rne_def Let_def)
    ultimately show ?thesis by linarith
  qed
qed

lemma rne_minus: "rne (- x) = - rne x"
proof (cases "x = of_int \<lfloor>x\<rfloor>")
  case True
  then show ?thesis by (metis of_int_minus rne_of_int)
next
  case False
  then have c: "\<lceil>x\<rceil> = \<lfloor>x\<rfloor> + 1" by (metis ceiling_altdef)
  then have "\<lfloor>- x\<rfloor> = - \<lfloor>x\<rfloor> - 1" by (simp add: floor_minus)
  then show ?thesis by (auto simp: rne_def Let_def)
qed

lemma ilog2_bounds:
  assumes "0 < x"
  shows "2 powi ilog2 x \<le> x" and "x < 2 powi (ilog2 x + 1)"
proof -
  obtain n d where q: "quotient_of x = (n, d)" by (cases "quotient_of x")
  have d: "0 < d" using q by (rule quotient_of_denom_pos)
  have x: "x = of_int n / of_int d" using q by (rule quotient_of_div)
  with assms d have n: "0 < n" by (simp add: zero_less_divide_iff)
  define a where "a = nat (bitlen n - 1)"
  define b where "b = nat (bitlen d - 1)"
  have bl: "bitlen n = int a + 1" "bitlen d = int b + 1"
    using n d bitlen_eq_zero_iff [of n] bitlen_eq_zero_iff [of d] bitlen_nonneg [of n] bitlen_nonneg [of d]
    unfolding a_def b_def by auto
  from bitlen_bounds [OF n] have n2: "2 ^ a \<le> n" "n < 2 ^ Suc a" by (auto simp: bl nat_add_distrib)
  from bitlen_bounds [OF d] have d2: "2 ^ b \<le> d" "d < 2 ^ Suc b" by (auto simp: bl nat_add_distrib)
  have N: "(2::rat) ^ a \<le> of_int n" "of_int n < (2::rat) ^ Suc a"
    using n2 by (metis of_int_le_iff of_int_numeral of_int_power, metis of_int_less_iff of_int_numeral of_int_power)
  have D: "(2::rat) ^ b \<le> of_int d" "of_int d < (2::rat) ^ Suc b"
    using d2 by (metis of_int_le_iff of_int_numeral of_int_power, metis of_int_less_iff of_int_numeral of_int_power)
  have p: "(2::rat) powi (int a - int b) = 2 ^ a / 2 ^ b"
    by (simp add: power_int_diff)
  have hi: "x < 2 powi (int a - int b + 1)"
  proof -
    have "x < 2 ^ Suc a / of_int d" unfolding x using N(2) d by (simp add: divide_strict_right_mono)
    also have "\<dots> \<le> 2 ^ Suc a / 2 ^ b" using D(1) by (simp add: frac_le)
    also have "\<dots> = 2 powi (int a - int b + 1)" by (simp add: power_int_add p)
    finally show ?thesis .
  qed
  have lo: "2 powi (int a - int b - 1) \<le> x"
  proof -
    have "2 powi (int a - int b - 1) = (2::rat) ^ a / 2 ^ Suc b" by (simp add: power_int_diff)
    also have "\<dots> \<le> 2 ^ a / of_int d" using D(2) d by (simp add: frac_le)
    also have "\<dots> \<le> x" unfolding x using N(1) d by (simp add: divide_right_mono)
    finally show ?thesis .
  qed
  have e: "ilog2 x = (if x < 2 powi (int a - int b) then int a - int b - 1 else int a - int b)"
    by (simp add: ilog2_def q bl)
  show "2 powi ilog2 x \<le> x" using lo by (auto simp: e not_less)
  show "x < 2 powi (ilog2 x + 1)" using hi by (auto simp: e)
qed

lemma two_powi_less_iff: "(2::rat) powi m < 2 powi n \<longleftrightarrow> m < n"
  by (metis linorder_neqE_linordered_idom not_less_iff_gr_or_eq one_less_numeral_iff
      power_int_strict_increasing semiring_norm(76))

lemma two_powi_le_iff: "(2::rat) powi m \<le> 2 powi n \<longleftrightarrow> m \<le> n"
  using two_powi_less_iff [of n m] by linarith

lemma two_powi_pos [simp]: "0 < (2::rat) powi n"
  by (simp add: zero_less_power_int)

lemma ilog2_mono: "0 < x \<Longrightarrow> x \<le> y \<Longrightarrow> ilog2 x \<le> ilog2 y"
proof -
  assume xy: "0 < x" "x \<le> y"
  then have "(2::rat) powi ilog2 x < 2 powi (ilog2 y + 1)"
    using ilog2_bounds [of x] ilog2_bounds [of y] by linarith
  then have "ilog2 x < ilog2 y + 1" by (simp add: two_powi_less_iff)
  then show ?thesis by simp
qed

lemma fexp_minus [simp]: "fexp (- x) = fexp x"
  by (simp add: fexp_def)

lemma round53_zero [simp]: "round53 0 = 0"
  by (simp add: round53_def)

lemma round53_minus: "round53 (- x) = - round53 x"
  by (simp add: round53_def rne_minus)

lemma scaled_upper:
  assumes "0 < x" shows "x / 2 powi fexp x < 2 ^ 53"
proof -
  have "x < 2 powi (ilog2 x + 1)" using assms by (rule ilog2_bounds)
  also have "\<dots> \<le> 2 powi (fexp x + 53)" using assms by (simp add: two_powi_le_iff fexp_def)
  also have "\<dots> = 2 ^ 53 * 2 powi fexp x" by (simp add: power_int_add)
  finally show ?thesis by (simp add: pos_divide_less_eq)
qed

lemma scaled_lower:
  assumes "0 < x" and "- 1074 < fexp x" shows "2 ^ 52 \<le> x / 2 powi fexp x"
proof -
  have "ilog2 x = fexp x + 52" using assms by (auto simp: fexp_def)
  then have "2 powi (fexp x + 52) \<le> x" using ilog2_bounds(1) [OF assms(1)] by simp
  moreover have "(2::rat) powi (fexp x + 52) = 2 ^ 52 * 2 powi fexp x" by (simp add: power_int_add)
  ultimately show ?thesis by (simp add: pos_le_divide_eq)
qed

lemma rne_nonneg: "0 \<le> x \<Longrightarrow> 0 \<le> rne x"
  using rne_mono [of 0 x] rne_of_int [of 0] by simp

lemma round53_nonneg: "0 \<le> x \<Longrightarrow> 0 \<le> round53 x"
  by (simp add: round53_def rne_nonneg)

lemma round53_mono_pos:
  assumes x: "0 < x" and xy: "x \<le> y"
  shows "round53 x \<le> round53 y"
proof (cases "fexp x = fexp y")
  case True
  with xy have "rne (x / 2 powi fexp x) \<le> rne (y / 2 powi fexp y)"
    by (intro rne_mono) (simp add: divide_right_mono)
  with True x xy show ?thesis by (simp add: round53_def mult_right_mono)
next
  case False
  have "fexp x \<le> fexp y" using x xy ilog2_mono [OF x xy] by (auto simp: fexp_def)
  with False have lt: "fexp x + 1 \<le> fexp y" by simp
  then have sub: "- 1074 < fexp y" by (simp add: fexp_def)
  have y: "0 < y" using x xy by simp
  have "rne (x / 2 powi fexp x) \<le> rne (of_int (2 ^ 53))"
    using scaled_upper [OF x] by (intro rne_mono) simp
  then have "rne (x / 2 powi fexp x) \<le> 2 ^ 53" by (simp only: rne_of_int)
  then have "round53 x \<le> 2 ^ 53 * 2 powi fexp x"
    using x by (simp add: round53_def mult_right_mono del: of_int_power)
  also have "\<dots> = 2 ^ 52 * 2 powi (fexp x + 1)" by (simp add: power_int_add)
  also have "\<dots> \<le> 2 ^ 52 * 2 powi fexp y"
    using lt by (intro mult_left_mono) (simp_all add: two_powi_le_iff)
  also have "\<dots> \<le> of_int (rne (y / 2 powi fexp y)) * 2 powi fexp y"
  proof (rule mult_right_mono)
    have "rne (of_int (2 ^ 52)) \<le> rne (y / 2 powi fexp y)"
      using scaled_lower [OF y sub] by (intro rne_mono) simp
    then have "2 ^ 52 \<le> rne (y / 2 powi fexp y)" by (simp only: rne_of_int)
    then show "(2::rat) ^ 52 \<le> of_int (rne (y / 2 powi fexp y))"
      by (metis of_int_le_iff of_int_numeral of_int_power)
  qed simp
  also have "\<dots> = round53 y" using y by (simp add: round53_def)
  finally show ?thesis .
qed

lemma round53_mono: "x \<le> y \<Longrightarrow> round53 x \<le> round53 y"
proof -
  assume xy: "x \<le> y"
  consider "0 < x" | "x \<le> 0" "0 \<le> y" | "y < 0" using xy by linarith
  then show ?thesis
  proof cases
    case 1
    then show ?thesis using xy by (rule round53_mono_pos)
  next
    case 2
    then have "0 \<le> round53 (- x)" "0 \<le> round53 y" by (simp_all add: round53_nonneg)
    then show ?thesis by (simp add: round53_minus)
  next
    case 3
    then have "round53 (- y) \<le> round53 (- x)" using xy by (intro round53_mono_pos) simp_all
    then show ?thesis by (simp add: round53_minus)
  qed
qed

lemma round53_error: "\<bar>round53 x - x\<bar> \<le> 2 powi (fexp x - 1)"
proof (cases "x = 0")
  case False
  let ?e = "(2::rat) powi fexp x"
  have "round53 x - x = (of_int (rne (x / ?e)) - x / ?e) * ?e"
    using False by (simp add: round53_def left_diff_distrib)
  then have "\<bar>round53 x - x\<bar> = \<bar>of_int (rne (x / ?e)) - x / ?e\<bar> * ?e" by (simp add: abs_mult)
  also have "\<dots> \<le> 1/2 * ?e" using rne_near by (rule mult_right_mono) simp
  also have "\<dots> = 2 powi (fexp x - 1)" by (simp add: power_int_diff)
  finally show ?thesis .
qed simp

text \<open>\<open>m * 2 powi e\<close> with at most 53 significant bits is a fixed point of rounding.\<close>

lemma round53_exact:
  assumes "\<bar>m\<bar> \<le> 2 ^ 53" and "- 1074 \<le> e"
  shows "round53 (of_int m * 2 powi e) = of_int m * 2 powi e"
proof (cases "m = 0")
  case False
  let ?x = "of_int m * (2::rat) powi e"
  have ax: "\<bar>?x\<bar> = of_int \<bar>m\<bar> * 2 powi e" by (simp add: abs_mult)
  have pos: "0 < \<bar>?x\<bar>" using False by simp
  show ?thesis
  proof (cases "fexp ?x \<le> e")
    case True
    then obtain k where e: "e = fexp ?x + int k" using zle_iff_zadd by auto
    have "?x / 2 powi fexp ?x = of_int (m * 2 ^ k)" by (subst (1) e) (simp add: power_int_add)
    then have "rne (?x / 2 powi fexp ?x) = m * 2 ^ k" by (metis rne_of_int)
    moreover have "?x = of_int (m * 2 ^ k) * 2 powi fexp ?x" by (subst (1) e) (simp add: power_int_add)
    ultimately show ?thesis using False by (simp add: round53_def del: of_int_mult)
  next
    case False
    then have lt: "e < fexp ?x" and f: "fexp ?x = ilog2 \<bar>?x\<bar> - 52" using assms(2) by (auto simp: fexp_def)
    have "2 powi (fexp ?x + 52) \<le> \<bar>?x\<bar>" using ilog2_bounds(1) [OF pos] f by simp
    also have "\<dots> \<le> 2 ^ 53 * 2 powi e"
      unfolding ax using assms(1) by (intro mult_right_mono) (metis of_int_le_iff of_int_numeral of_int_power, simp)
    also have "\<dots> = 2 powi (e + 53)" by (simp add: power_int_add)
    finally have "fexp ?x + 52 \<le> e + 53" by (simp only: two_powi_le_iff)
    with lt have fe: "fexp ?x = e + 1" by simp
    have "\<bar>m\<bar> = 2 ^ 53"
    proof (rule antisym [OF assms(1)])
      have "2 powi (e + 53) \<le> \<bar>?x\<bar>" using ilog2_bounds(1) [OF pos] f fe by (simp add: add.commute)
      then have "(2::rat) ^ 53 * 2 powi e \<le> of_int \<bar>m\<bar> * 2 powi e" by (simp add: ax power_int_add)
      then have "(2::rat) ^ 53 \<le> of_int \<bar>m\<bar>" by (simp only: mult_le_cancel_right_pos two_powi_pos)
      then show "2 ^ 53 \<le> \<bar>m\<bar>" by (metis of_int_le_iff of_int_numeral of_int_power)
    qed
    then have "m = 2 * (2 ^ 52 * sgn m)" by (simp add: abs_if sgn_if split: if_splits)
    then obtain k where m: "m = 2 * k" by blast
    have x: "?x = of_int k * 2 powi fexp ?x" unfolding fe by (simp add: m power_int_add)
    then have "?x / 2 powi fexp ?x = of_int k" by (metis nonzero_mult_div_cancel_right two_powi_pos less_irrefl)
    then have "rne (?x / 2 powi fexp ?x) = k" by (metis rne_of_int)
    then show ?thesis using x \<open>m \<noteq> 0\<close> by (simp add: round53_def)
  qed
qed simp

lemma round53_of_int_small: "\<bar>m\<bar> \<le> 2 ^ 53 \<Longrightarrow> round53 (of_int m) = of_int m"
  using round53_exact [of m 0] by simp


section \<open>The values and their arithmetic\<close>

datatype pyfloat = Fin rat | PInf | NInf | NaN

definition fround :: "rat \<Rightarrow> pyfloat" where
  "fround x =
     (if x = 0 then Fin 0
      else let e = fexp x; m = rne (x / 2 powi e) in
        if 971 < e \<or> e = 971 \<and> 2 ^ 53 \<le> \<bar>m\<bar> then (if 0 < x then PInf else NInf)
        else Fin (of_int m * 2 powi e))"

fun isfinite :: "pyfloat \<Rightarrow> bool" where
  "isfinite (Fin _) = True"
| "isfinite _ = False"

fun isnan :: "pyfloat \<Rightarrow> bool" where
  "isnan NaN = True"
| "isnan _ = False"

instantiation pyfloat :: "{ord, zero, one, plus, minus, uminus, times, abs}"
begin

fun less_eq_pyfloat :: "pyfloat \<Rightarrow> pyfloat \<Rightarrow> bool" where
  "less_eq_pyfloat NaN _ = False"
| "less_eq_pyfloat _ NaN = False"
| "less_eq_pyfloat (Fin x) (Fin y) = (x \<le> y)"
| "less_eq_pyfloat NInf _ = True"
| "less_eq_pyfloat _ PInf = True"
| "less_eq_pyfloat PInf _ = False"
| "less_eq_pyfloat _ NInf = False"

fun less_pyfloat :: "pyfloat \<Rightarrow> pyfloat \<Rightarrow> bool" where
  "less_pyfloat NaN _ = False"
| "less_pyfloat _ NaN = False"
| "less_pyfloat (Fin x) (Fin y) = (x < y)"
| "less_pyfloat PInf _ = False"
| "less_pyfloat _ NInf = False"
| "less_pyfloat _ _ = True"

definition zero_pyfloat :: pyfloat where "zero_pyfloat = Fin 0"

definition one_pyfloat :: pyfloat where "one_pyfloat = Fin 1"

fun uminus_pyfloat :: "pyfloat \<Rightarrow> pyfloat" where
  "uminus_pyfloat (Fin x) = Fin (- x)"
| "uminus_pyfloat PInf = NInf"
| "uminus_pyfloat NInf = PInf"
| "uminus_pyfloat NaN = NaN"

fun abs_pyfloat :: "pyfloat \<Rightarrow> pyfloat" where
  "abs_pyfloat (Fin x) = Fin \<bar>x\<bar>"
| "abs_pyfloat PInf = PInf"
| "abs_pyfloat NInf = PInf"
| "abs_pyfloat NaN = NaN"

fun plus_pyfloat :: "pyfloat \<Rightarrow> pyfloat \<Rightarrow> pyfloat" where
  "plus_pyfloat NaN _ = NaN"
| "plus_pyfloat _ NaN = NaN"
| "plus_pyfloat (Fin x) (Fin y) = fround (x + y)"
| "plus_pyfloat (Fin _) b = b"
| "plus_pyfloat a (Fin _) = a"
| "plus_pyfloat PInf PInf = PInf"
| "plus_pyfloat NInf NInf = NInf"
| "plus_pyfloat _ _ = NaN"

definition minus_pyfloat :: "pyfloat \<Rightarrow> pyfloat \<Rightarrow> pyfloat" where
  "minus_pyfloat a b = a + (- b)"

fun times_pyfloat :: "pyfloat \<Rightarrow> pyfloat \<Rightarrow> pyfloat" where
  "times_pyfloat NaN _ = NaN"
| "times_pyfloat _ NaN = NaN"
| "times_pyfloat (Fin x) (Fin y) = fround (x * y)"
| "times_pyfloat (Fin x) PInf = (if x = 0 then NaN else if 0 < x then PInf else NInf)"
| "times_pyfloat (Fin x) NInf = (if x = 0 then NaN else if 0 < x then NInf else PInf)"
| "times_pyfloat PInf (Fin x) = (if x = 0 then NaN else if 0 < x then PInf else NInf)"
| "times_pyfloat NInf (Fin x) = (if x = 0 then NaN else if 0 < x then NInf else PInf)"
| "times_pyfloat PInf PInf = PInf"
| "times_pyfloat NInf NInf = PInf"
| "times_pyfloat _ _ = NInf"

instance ..

end

text \<open>Division raises on a zero divisor, before anything else is looked at.\<close>

fun fdiv :: "pyfloat \<Rightarrow> pyfloat \<Rightarrow> pyfloat result" where
  "fdiv a (Fin y) =
     (if y = 0 then Inl ZeroDivisionError
      else Inr (case a of
          Fin x \<Rightarrow> fround (x / y)
        | NaN \<Rightarrow> NaN
        | PInf \<Rightarrow> if 0 < y then PInf else NInf
        | NInf \<Rightarrow> if 0 < y then NInf else PInf))"
| "fdiv a NaN = Inr NaN"
| "fdiv a _ = Inr (case a of Fin _ \<Rightarrow> Fin 0 | _ \<Rightarrow> NaN)"

text \<open>Python's two-argument \<open>min\<close> and \<open>max\<close> keep the first argument unless the second is strictly better.\<close>

definition py_min :: "pyfloat \<Rightarrow> pyfloat \<Rightarrow> pyfloat" where
  "py_min a b = (if b < a then b else a)"

definition py_max :: "pyfloat \<Rightarrow> pyfloat \<Rightarrow> pyfloat" where
  "py_max a b = (if a < b then b else a)"

text \<open>\<open>float(n)\<close> of an unbounded integer raises when the rounded value is not finite.\<close>

definition float_of_int :: "int \<Rightarrow> pyfloat result" where
  "float_of_int n =
     (case fround (of_int n) of Fin x \<Rightarrow> Inr (Fin x) | _ \<Rightarrow> Inl OverflowError)"

definition is_double :: "pyfloat \<Rightarrow> bool" where
  "is_double a \<longleftrightarrow> (case a of Fin x \<Rightarrow> fround x = Fin x | _ \<Rightarrow> True)"

section \<open>Rounding is monotone and exact on representable values\<close>

lemma scaled_lower_rne:
  assumes "0 < x" and "- 1074 < fexp x" shows "2 ^ 52 \<le> rne (x / 2 powi fexp x)"
proof -
  have "rne (of_int (2 ^ 52)) \<le> rne (x / 2 powi fexp x)"
    using scaled_lower [OF assms] by (intro rne_mono) simp
  then show ?thesis by (simp only: rne_of_int)
qed

lemma scaled_upper_rne:
  assumes "0 < x" shows "rne (x / 2 powi fexp x) \<le> 2 ^ 53"
proof -
  have "rne (x / 2 powi fexp x) \<le> rne (of_int (2 ^ 53))"
    using scaled_upper [OF assms] by (intro rne_mono) simp
  then show ?thesis by (simp only: rne_of_int)
qed

lemma rat_of_pow2_le: "(2::rat) ^ k \<le> of_int m \<longleftrightarrow> 2 ^ k \<le> m"
  by (metis of_int_le_iff of_int_numeral of_int_power)

lemma of_int_le_pow2: "of_int m \<le> (2::rat) ^ k \<longleftrightarrow> m \<le> 2 ^ k"
  by (metis of_int_le_iff of_int_numeral of_int_power)

text \<open>The first magnitude that overflows.\<close>

definition overflow_bound :: rat where
  "overflow_bound = 2 ^ 1024"

lemma overflow_bound_pos [simp]: "0 < overflow_bound"
  unfolding overflow_bound_def by (rule zero_less_power) simp

lemma overflow_bound_gt: "2 ^ 33 < overflow_bound"
  unfolding overflow_bound_def by (rule power_strict_increasing) simp_all

lemma overflow_iff:
  assumes x: "0 < x"
  shows "971 < fexp x \<or> fexp x = 971 \<and> 2 ^ 53 \<le> rne (x / 2 powi fexp x) \<longleftrightarrow>
    overflow_bound \<le> round53 x"
proof -
  define m where "m = rne (x / 2 powi fexp x)"
  define e where "e = fexp x"
  have r: "round53 x = of_int m * 2 powi e" using x by (simp add: round53_def m_def e_def)
  have up: "m \<le> 2 ^ 53" using scaled_upper_rne [OF x] by (simp add: m_def)
  have m0: "0 \<le> m" using x by (simp add: m_def rne_nonneg)
  have P: "overflow_bound = 2 ^ 53 * 2 powi 971"
    unfolding overflow_bound_def by (simp add: power_int_def flip: power_add)
  consider "971 < e" | "e = 971" | "e < 971" by linarith
  then show ?thesis
  proof cases
    case 1
    have "2 ^ 52 \<le> m" using scaled_lower_rne [OF x] 1 by (simp add: m_def e_def)
    have "overflow_bound = 2 ^ 52 * 2 powi 972"
      unfolding overflow_bound_def by (simp add: power_int_def flip: power_add)
    also have "\<dots> \<le> of_int m * 2 powi e"
    proof (rule mult_mono)
      show "(2::rat) powi 972 \<le> 2 powi e" using 1 by (simp only: two_powi_le_iff)
      show "(2::rat) ^ 52 \<le> of_int m" using \<open>2 ^ 52 \<le> m\<close> by (simp only: rat_of_pow2_le)
      then show "0 \<le> rat_of_int m" by (rule order.trans [rotated]) simp
    qed (simp only: less_imp_le [OF two_powi_pos])
    finally show ?thesis using 1 by (simp add: r e_def)
  next
    case 2
    have "(2::rat) ^ 53 * 2 powi 971 \<le> of_int m * 2 powi 971 \<longleftrightarrow> (2::rat) ^ 53 \<le> of_int m"
      by (simp only: mult_le_cancel_right_pos two_powi_pos)
    then have "overflow_bound \<le> round53 x \<longleftrightarrow> 2 ^ 53 \<le> m" by (simp only: P r 2 rat_of_pow2_le)
    then show ?thesis using 2 by (simp add: e_def m_def)
  next
    case 3
    have "of_int m * 2 powi e \<le> (2::rat) ^ 53 * 2 powi 970"
    proof (rule mult_mono)
      show "(2::rat) powi e \<le> 2 powi 970" using 3 by (simp only: two_powi_le_iff)
      show "of_int m \<le> (2::rat) ^ 53" using up by (simp only: of_int_le_pow2)
    qed (simp_all only: less_imp_le [OF two_powi_pos] zero_le_power zero_le_numeral)
    also have "\<dots> = 2 ^ 1023" by (simp add: power_int_def flip: power_add)
    also have "\<dots> < overflow_bound" unfolding overflow_bound_def
      by (rule power_strict_increasing) simp_all
    finally show ?thesis using 3 by (simp add: r e_def)
  qed
qed

lemma uminus_uminus_float [simp]: "- (- a) = (a :: pyfloat)"
  by (cases a) auto

lemma fround_minus: "fround (- x) = - fround x"
  by (auto simp: fround_def rne_minus Let_def)

lemma fround_alt:
  "fround x =
     (if overflow_bound \<le> round53 x then PInf
      else if round53 x \<le> - overflow_bound then NInf else Fin (round53 x))"
proof -
  have pos: "fround y = (if overflow_bound \<le> round53 y then PInf else Fin (round53 y))" if y: "0 < y" for y
    unfolding fround_def Let_def using y overflow_iff [OF y] scaled_upper_rne [OF y]
    by (auto simp: round53_def abs_of_nonneg rne_nonneg)
  consider "0 < x" | "x = 0" | "x < 0" by linarith
  then show ?thesis
  proof cases
    case 1
    then have "0 \<le> round53 x" by (simp add: round53_nonneg)
    then have "\<not> round53 x \<le> - overflow_bound"
      using overflow_bound_pos by linarith
    with 1 show ?thesis by (simp add: pos)
  next
    case 2
    then show ?thesis using overflow_bound_pos by (simp add: fround_def not_le)
  next
    case 3
    then have neg: "0 < - x" by simp
    have "0 \<le> round53 (- x)" using neg by (simp add: round53_nonneg)
    then have "round53 x \<le> 0" by (simp add: round53_minus)
    then have "\<not> overflow_bound \<le> round53 x" using overflow_bound_pos by linarith
    moreover have "fround x = - fround (- x)" by (simp add: fround_minus)
    ultimately show ?thesis by (auto simp: pos [OF neg] round53_minus)
  qed
qed

lemma fround_mono: "x \<le> y \<Longrightarrow> fround x \<le> fround y"
  using round53_mono [of x y] by (auto simp: fround_alt)

lemma fround_big: "overflow_bound \<le> x \<Longrightarrow> fround x = PInf"
proof -
  assume "overflow_bound \<le> x"
  moreover have "round53 overflow_bound = overflow_bound"
    using round53_exact [of 1 1024] by (simp add: overflow_bound_def power_int_def)
  ultimately have "overflow_bound \<le> round53 x" by (metis round53_mono)
  then show ?thesis by (simp add: fround_alt)
qed

lemma fround_0 [simp, py_eval]: "fround 0 = Fin 0"
  by (simp add: fround_def)

lemma fround_not_nan [simp]: "\<not> isnan (fround x)"
  by (simp add: fround_alt)

lemma fround_exact: "round53 x = x \<Longrightarrow> \<bar>x\<bar> < overflow_bound \<Longrightarrow> fround x = Fin x"
  by (auto simp: fround_alt abs_less_iff)

text \<open>
  The rule that evaluates arithmetic on short dyadic values (multiples of \<open>1/2^20\<close> below
  \<open>2^33\<close>) in closed terms: the side conditions are decided by \<open>simp\<close>.
\<close>

lemma fround_dyadic [py_eval]:
  assumes "\<bar>x\<bar> \<le> 2 ^ 33" and "of_int \<lfloor>x * 1048576\<rfloor> = x * 1048576"
  shows "fround x = Fin x"
proof (rule fround_exact)
  let ?m = "\<lfloor>x * 1048576\<rfloor>"
  have p: "(2::rat) powi (- 20) = 1 / 1048576" by (simp add: power_int_def power_one_over)
  have x: "x = of_int ?m * 2 powi (- 20)" unfolding p assms(2) by simp
  have "\<bar>of_int ?m\<bar> = \<bar>x\<bar> * 1048576" unfolding assms(2) by (simp add: abs_mult)
  also have "\<dots> \<le> 2 ^ 53" using assms(1) by simp
  finally have "\<bar>?m\<bar> \<le> 2 ^ 53" by (simp flip: of_int_abs add: of_int_le_pow2)
  then have "round53 (of_int ?m * 2 powi (- 20)) = of_int ?m * 2 powi (- 20)"
    by (rule round53_exact) simp
  then show "round53 x = x" by (simp only: x [symmetric])
  show "\<bar>x\<bar> < overflow_bound" using assms(1) overflow_bound_gt by linarith
qed

section \<open>Order\<close>

lemma isfinite_iff: "isfinite a \<longleftrightarrow> (\<exists>x. a = Fin x)"
  by (cases a) auto

lemma isfiniteE [elim]: "isfinite a \<Longrightarrow> (\<And>x. a = Fin x \<Longrightarrow> P) \<Longrightarrow> P"
  by (cases a) auto

lemma isfinite_not_nan [simp]: "isfinite a \<Longrightarrow> \<not> isnan a"
  by (cases a) auto

lemma isnan_iff: "isnan a \<longleftrightarrow> a = NaN"
  by (cases a) auto

lemma zero_pyfloat_Fin [simp]: "0 = Fin x \<longleftrightarrow> x = 0" "Fin x = 0 \<longleftrightarrow> x = 0"
  by (auto simp: zero_pyfloat_def)

lemma zero_cmp [simp]:
  "0 < Fin x \<longleftrightarrow> 0 < x" "0 \<le> Fin x \<longleftrightarrow> 0 \<le> x" "Fin x < 0 \<longleftrightarrow> x < 0" "Fin x \<le> 0 \<longleftrightarrow> x \<le> 0"
  by (auto simp: zero_pyfloat_def)

lemma zero_finite [simp]: "isfinite (0 :: pyfloat)" "isfinite (1 :: pyfloat)"
  by (simp_all add: zero_pyfloat_def one_pyfloat_def)

lemma abs_zero_float [simp]: "\<bar>0 :: pyfloat\<bar> = 0" "- (0 :: pyfloat) = 0"
  by (simp_all add: zero_pyfloat_def)

lemma cmp_nan [simp]:
  "\<not> NaN < a" "\<not> a < NaN" "\<not> NaN \<le> a" "\<not> a \<le> NaN" for a :: pyfloat
  by (cases a; simp)+

lemma flt_le: "a < b \<Longrightarrow> a \<le> b" for a b :: pyfloat
  by (cases a; cases b) auto

lemma fle_refl: "\<not> isnan a \<Longrightarrow> a \<le> a"
  by (cases a) auto

lemma flt_irrefl [simp]: "\<not> a < (a :: pyfloat)"
  by (cases a) auto

lemma fle_trans: "a \<le> b \<Longrightarrow> b \<le> c \<Longrightarrow> a \<le> c" for a b c :: pyfloat
  by (cases a; cases b; cases c) auto

lemma flt_fle_trans: "a < b \<Longrightarrow> b \<le> c \<Longrightarrow> a < c" for a b c :: pyfloat
  by (cases a; cases b; cases c) auto

lemma fle_flt_trans: "a \<le> b \<Longrightarrow> b < c \<Longrightarrow> a < c" for a b c :: pyfloat
  by (cases a; cases b; cases c) auto

lemma flt_asym: "a < b \<Longrightarrow> \<not> b < a" for a b :: pyfloat
  by (cases a; cases b) auto

lemma fle_antisym: "a \<le> b \<Longrightarrow> b \<le> a \<Longrightarrow> a = b" for a b :: pyfloat
  by (cases a; cases b) auto

lemma not_flt: "\<not> isnan a \<Longrightarrow> \<not> isnan b \<Longrightarrow> \<not> a < b \<longleftrightarrow> b \<le> a"
  by (cases a; cases b) auto

lemma not_fle: "\<not> isnan a \<Longrightarrow> \<not> isnan b \<Longrightarrow> \<not> a \<le> b \<longleftrightarrow> b < a"
  by (cases a; cases b) auto

lemma flt_not_nan: "a < b \<Longrightarrow> \<not> isnan a \<and> \<not> isnan b"
  by (cases a; cases b) auto

lemma fle_not_nan: "a \<le> b \<Longrightarrow> \<not> isnan a \<and> \<not> isnan b"
  by (cases a; cases b) auto

lemma fle_not_flt: "a \<le> b \<Longrightarrow> \<not> b < a" for a b :: pyfloat
  by (cases a; cases b) auto

lemma finite_between: "Fin x \<le> a \<Longrightarrow> a \<le> Fin y \<Longrightarrow> isfinite a"
  by (cases a) auto

lemma fabs_nonneg: "\<not> isnan a \<Longrightarrow> 0 \<le> \<bar>a\<bar>"
  by (cases a) (auto simp: zero_pyfloat_def)

lemma isfinite_abs [simp]: "isfinite \<bar>a\<bar> = isfinite a"
  by (cases a) auto

lemma fabs_le_iff: "isfinite b \<Longrightarrow> \<bar>a\<bar> \<le> b \<longleftrightarrow> - b \<le> a \<and> a \<le> b"
  by (cases a; cases b) auto

section \<open>Binary64 values\<close>

text \<open>A rounded value rounds to itself.\<close>

lemma abs_rne_le: "\<bar>x\<bar> \<le> of_int n \<Longrightarrow> \<bar>rne x\<bar> \<le> n"
  using rne_mono [of x "of_int n"] rne_mono [of "of_int (- n)" x]
  by (simp add: abs_le_iff flip: of_int_minus)

lemma round53_idem [simp]: "round53 (round53 x) = round53 x"
proof (cases "x = 0")
  case False
  have "\<bar>x / 2 powi fexp x\<bar> = \<bar>x\<bar> / 2 powi fexp \<bar>x\<bar>" by (simp add: abs_divide fexp_def)
  also have "\<dots> \<le> of_int (2 ^ 53)" using scaled_upper [of "\<bar>x\<bar>"] False by simp
  finally have "\<bar>rne (x / 2 powi fexp x)\<bar> \<le> 2 ^ 53" by (rule abs_rne_le)
  then show ?thesis using False round53_exact [of _ "fexp x"] by (simp add: round53_def fexp_def)
qed simp

lemma round53_abs_le: "\<bar>x\<bar> \<le> y \<Longrightarrow> round53 y = y \<Longrightarrow> \<bar>round53 x\<bar> \<le> y"
  using round53_mono [of x y] round53_mono [of "- x" y] by (auto simp: round53_minus abs_le_iff)

lemma is_double_fround [simp]: "is_double (fround x)"
  by (auto simp: is_double_def fround_alt)

lemma is_double_simps [simp]:
  "is_double PInf" "is_double NInf" "is_double NaN"
  "is_double (Fin x) \<longleftrightarrow> fround x = Fin x"
  by (simp_all add: is_double_def)

lemma uminus_eq_Fin [simp]: "- a = Fin y \<longleftrightarrow> a = Fin (- y)"
  by (cases a) auto

lemma is_double_uminus [simp]: "is_double (- a) = is_double a"
  by (cases a) (auto simp: fround_minus)

lemma is_double_plus [simp]: "is_double a \<Longrightarrow> is_double b \<Longrightarrow> is_double (a + b)"
  by (cases a; cases b) (auto simp: is_double_fround simp del: is_double_simps(4))

lemma is_double_minus [simp]: "is_double a \<Longrightarrow> is_double b \<Longrightarrow> is_double (a - b)"
  by (simp add: minus_pyfloat_def)

lemma is_double_times [simp]: "is_double (a * b)"
  by (cases a; cases b) (auto simp: is_double_fround simp del: is_double_simps(4))

lemma double_fixed: "is_double (Fin x) \<Longrightarrow> round53 x = x"
  by (auto simp: fround_alt split: if_splits)

section \<open>Facts about sums and differences\<close>

lemma minus_Fin [simp]: "Fin x - Fin y = fround (x - y)"
  by (simp add: minus_pyfloat_def)

lemma minus_nonneg: "y \<le> x \<Longrightarrow> 0 \<le> Fin x - Fin y"
  using fround_mono [of 0 "x - y"] by (simp add: zero_pyfloat_def)

lemma minus_nonpos: "x \<le> y \<Longrightarrow> Fin x - Fin y \<le> 0"
  using fround_mono [of "x - y" 0] by (simp add: zero_pyfloat_def)

lemma minus_self [simp]: "Fin x - Fin x = 0"
  by (simp add: zero_pyfloat_def)

lemma diff_mono_left: "x \<le> y \<Longrightarrow> Fin x - Fin z \<le> Fin y - Fin z"
  by (simp add: fround_mono)

text \<open>Adding something non-negative to a binary64 value never makes it smaller.\<close>

lemma plus_nonneg_ge:
  assumes "is_double a" and "isfinite a" and "0 \<le> b"
  shows "a \<le> a + b"
proof -
  from assms(2) obtain x where a: "a = Fin x" by (auto simp: isfinite_iff)
  show ?thesis
  proof (cases b)
    case (Fin y)
    with assms have "fround x \<le> fround (x + y)" by (intro fround_mono) (simp add: zero_pyfloat_def)
    then show ?thesis using assms(1) by (simp add: a Fin)
  qed (use assms a in \<open>auto simp: zero_pyfloat_def\<close>)
qed

lemma plus_nonneg: "0 \<le> a \<Longrightarrow> 0 \<le> b \<Longrightarrow> 0 \<le> a + b" for a b :: pyfloat
  using fround_mono [of 0] by (cases a; cases b) (auto simp: zero_pyfloat_def)

lemma round53_unit: "round53 (2 powi (- 1074)) = 2 powi (- 1074)"
  using round53_exact [of 1 "- 1074"] by simp

text \<open>Gradual underflow: two different binary64 values have a difference of the right sign.\<close>

lemma round53_multiple: "\<exists>k. round53 x = of_int k * 2 powi (- 1074)"
proof (cases "x = 0")
  case False
  obtain j where j: "fexp x = - 1074 + int j"
    using zle_iff_zadd [of "- 1074" "fexp x"] by (auto simp: fexp_def)
  have "(2::rat) powi fexp x = 2 powi (- 1074) * 2 powi int j"
    unfolding j by (rule power_int_add) simp
  then have "(2::rat) powi fexp x = 2 ^ j * 2 powi (- 1074)" by simp
  then have "round53 x = of_int (rne (x / 2 powi fexp x) * 2 ^ j) * 2 powi (- 1074)"
    unfolding round53_def using False by (simp only: if_False of_int_mult of_int_power of_int_numeral mult.assoc)
  then show ?thesis by blast
qed (auto intro: exI [of _ 0])

lemma round53_diff_pos:
  assumes "round53 x = x" and "round53 y = y" and "x < y"
  shows "0 < round53 (y - x)"
proof -
  let ?u = "(2::rat) powi (- 1074)"
  obtain k l where k: "x = of_int k * ?u" and l: "y = of_int l * ?u"
    using round53_multiple [of x] round53_multiple [of y] assms by metis
  have "(of_int k :: rat) < of_int l" using assms(3) by (simp only: k l mult_less_cancel_right_pos two_powi_pos)
  then have "(1::rat) \<le> of_int (l - k)" by simp
  then have "?u \<le> of_int (l - k) * ?u" using two_powi_pos [of "- 1074"] by (metis mult_1 mult_le_cancel_right_pos)
  then have "?u \<le> y - x" by (simp add: k l left_diff_distrib)
  then have "?u \<le> round53 (y - x)" using round53_mono round53_unit by metis
  then show ?thesis using two_powi_pos [of "- 1074"] by linarith
qed

lemma minus_pos:
  assumes "is_double (Fin x)" and "is_double (Fin y)" and "x < y"
  shows "0 < Fin y - Fin x"
proof -
  have "0 < round53 (y - x)"
    using assms double_fixed [of x] double_fixed [of y] by (intro round53_diff_pos) auto
  then show ?thesis using overflow_bound_pos by (auto simp: fround_alt zero_pyfloat_def)
qed

lemma minus_neg_iff:
  assumes "is_double (Fin x)" and "is_double (Fin y)"
  shows "Fin x - Fin y < 0 \<longleftrightarrow> x < y"
proof
  assume "x < y"
  then have "0 < - (Fin x - Fin y)"
    using minus_pos [of x y] assms by (simp flip: fround_minus)
  then show "Fin x - Fin y < 0" by (cases "Fin x - Fin y") (auto simp: zero_pyfloat_def)
next
  assume "Fin x - Fin y < 0"
  then show "x < y" using minus_nonneg [of y x] fle_not_flt by force
qed

end
