(* ===== verification/PyValue.thy ===== *)
theory PyValue
  imports PyFloat
begin

text \<open>
  The dynamically typed values that cross the modelled code's boundaries: parsed JSON, YAML
  configuration and message fields. \<open>bool\<close> is a subclass of \<open>int\<close> in Python, which is why the
  code tests for it first; here they are different constructors and \<open>is_number\<close> is the code's
  guard \<open>not isinstance(v, bool) and isinstance(v, (int, float))\<close>.
\<close>

datatype pyval =
    PNone
  | PBool bool
  | PInt int
  | PFloat pyfloat
  | PStr string
  | PList "pyval list"
  | PDict "(string \<times> pyval) list"

fun is_number :: "pyval \<Rightarrow> bool" where
  "is_number (PInt _) = True"
| "is_number (PFloat _) = True"
| "is_number _ = False"

text \<open>
  The exact numeric value used in comparisons. Python compares an \<open>int\<close> with a \<open>float\<close> without
  rounding the \<open>int\<close>; \<open>Fin\<close> of any rational represents that. A boolean counts as 0 or 1, every
  other operand raises \<open>TypeError\<close> in an ordering comparison.
\<close>

fun num_val :: "pyval \<Rightarrow> pyfloat result" where
  "num_val (PInt n) = Inr (Fin (of_int n))"
| "num_val (PFloat a) = Inr a"
| "num_val (PBool b) = Inr (Fin (if b then 1 else 0))"
| "num_val _ = Inl TypeError"

text \<open>\<open>float(v)\<close> and \<open>math.isfinite(v)\<close> of a number: both convert, so both can overflow.\<close>

fun to_float :: "pyval \<Rightarrow> pyfloat result" where
  "to_float (PInt n) = float_of_int n"
| "to_float (PFloat a) = Inr a"
| "to_float (PBool b) = Inr (Fin (if b then 1 else 0))"
| "to_float _ = Inl TypeError"

definition isfinite_val :: "pyval \<Rightarrow> bool result" where
  "isfinite_val v = bindR (to_float v) (\<lambda>a. Inr (isfinite a))"

text \<open>\<open>round(x)\<close> of a float to an \<open>int\<close>: ties to even; NaN and the infinities raise.\<close>

fun py_round :: "pyfloat \<Rightarrow> int result" where
  "py_round (Fin x) = Inr (rne x)"
| "py_round NaN = Inl ValueError"
| "py_round _ = Inl OverflowError"

text \<open>\<open>d.get(k)\<close> on a dictionary value, with \<open>PNone\<close> for an absent key.\<close>

definition dget :: "(string \<times> pyval) list \<Rightarrow> string \<Rightarrow> pyval" where
  "dget d k = (case map_of d k of None \<Rightarrow> PNone | Some v \<Rightarrow> v)"

fun truthy :: "pyval \<Rightarrow> bool" where
  "truthy PNone = False"
| "truthy (PBool b) = b"
| "truthy (PInt n) = (n \<noteq> 0)"
| "truthy (PFloat a) = (a \<noteq> Fin 0)"
| "truthy (PStr s) = (s \<noteq> [])"
| "truthy (PList xs) = (xs \<noteq> [])"
| "truthy (PDict d) = (d \<noteq> [])"

lemma is_number_num_val: "is_number v \<Longrightarrow> \<exists>a. num_val v = Inr a"
  by (cases v) auto

lemma isfinite_val_number:
  "is_number v \<Longrightarrow> num_val v = Inr a \<Longrightarrow> isfinite_val v = Inr True \<Longrightarrow> isfinite a"
  by (cases v) (auto simp: isfinite_val_def)

lemma isfinite_val_float [simp]: "isfinite_val (PFloat a) = Inr (isfinite a)"
  by (simp add: isfinite_val_def)

lemma float_of_int_finite: "float_of_int n = Inr a \<Longrightarrow> isfinite a"
  by (cases "fround (of_int n)") (auto simp: float_of_int_def)

lemma to_float_num_val: "is_number v \<Longrightarrow> to_float v = Inr a \<Longrightarrow> num_val v = Inr b \<Longrightarrow> isfinite a = isfinite b"
  by (cases v) (auto dest: float_of_int_finite)

text \<open>The smallest power of ten beyond the float range, the standard oversized JSON integer.\<close>

lemma float_of_int_huge: "float_of_int (10 ^ 400) = Inl OverflowError"
proof -
  have "fround (of_int (10 ^ 400)) = PInf"
  proof -
    have "round53 overflow_bound = overflow_bound"
      using round53_exact [of 1 1024] by (simp add: overflow_bound_def power_int_def)
    moreover have "overflow_bound \<le> of_int (10 ^ 400)" by (simp add: overflow_bound_def)
    ultimately have "overflow_bound \<le> round53 (of_int (10 ^ 400))" by (metis round53_mono)
    then show ?thesis by (simp add: fround_alt)
  qed
  then show ?thesis by (simp add: float_of_int_def)
qed

lemma float_of_int_small: "\<bar>n\<bar> \<le> 2 ^ 33 \<Longrightarrow> float_of_int n = Inr (Fin (of_int n))"
proof -
  assume n: "\<bar>n\<bar> \<le> 2 ^ 33"
  then have "\<bar>of_int n :: rat\<bar> \<le> 2 ^ 33" by (simp flip: of_int_abs add: of_int_le_pow2)
  moreover have "round53 (of_int n) = of_int n" using n by (intro round53_of_int_small) simp
  ultimately have "fround (of_int n) = Fin (of_int n)"
    using overflow_bound_gt by (intro fround_exact) simp_all
  then show ?thesis by (simp add: float_of_int_def)
qed

end
