(* ===== verification/Safety.thy ===== *)
theory Safety
  imports PyValue
begin

text \<open>
  The shared contract constants and pure checks of \<open>warehouse_interfaces\<close>: \<open>safety.py\<close> (speed cap,
  battery thresholds and battery scale), \<open>locations.py\<close> (the known location keys) and the layering
  and validation of the configuration in \<open>config.py\<close>. Every lane imports these, so the lemmas here
  are what the gate, the guardian and the driver rely on.
\<close>

section \<open>Constants\<close>

definition MAX_LINEAR_VELOCITY :: pyfloat where
  "MAX_LINEAR_VELOCITY = fround (3/10)"

definition BATTERY_CRITICAL_PCT :: int where
  "BATTERY_CRITICAL_PCT = 10"

definition BATTERY_LOW_PCT :: int where
  "BATTERY_LOW_PCT = 20"

lemma max_velocity_eq: "MAX_LINEAR_VELOCITY = Fin (5404319552844595 / 18014398509481984)"
  unfolding MAX_LINEAR_VELOCITY_def by code_simp

lemma max_velocity_finite [simp]: "isfinite MAX_LINEAR_VELOCITY" "\<not> isnan MAX_LINEAR_VELOCITY"
  by (simp_all add: max_velocity_eq)

lemma max_velocity_pos [simp]: "0 < MAX_LINEAR_VELOCITY" "0 \<le> MAX_LINEAR_VELOCITY"
  by (simp_all add: max_velocity_eq)

section \<open>Speed and battery checks\<close>

definition clamp_velocity :: "pyfloat \<Rightarrow> pyfloat \<Rightarrow> pyfloat" where
  "clamp_velocity v max_speed =
     (if \<not> isfinite v then Fin 0
      else py_max (- max_speed) (py_min v max_speed))"

definition battery_allows_new_task :: "pyfloat \<Rightarrow> bool" where
  "battery_allows_new_task pct \<longleftrightarrow> Fin (of_int BATTERY_LOW_PCT) < pct"

definition battery_is_critical :: "pyfloat \<Rightarrow> bool" where
  "battery_is_critical pct \<longleftrightarrow> pct \<le> Fin (of_int BATTERY_CRITICAL_PCT)"

definition BATTERY_SCALE_PERCENT :: string where
  "BATTERY_SCALE_PERCENT = ''percent''"

definition BATTERY_SCALE_FRACTION :: string where
  "BATTERY_SCALE_FRACTION = ''fraction''"

definition BATTERY_PERCENTAGE_SCALES :: "string list" where
  "BATTERY_PERCENTAGE_SCALES = [BATTERY_SCALE_PERCENT, BATTERY_SCALE_FRACTION]"

definition normalize_battery_percent :: "pyfloat \<Rightarrow> string \<Rightarrow> int result" where
  "normalize_battery_percent raw scale =
     (if \<not> isfinite raw then Inl ValueError
      else bindR
        (if scale = BATTERY_SCALE_FRACTION then Inr (raw * Fin 100)
         else if scale = BATTERY_SCALE_PERCENT then Inr raw
         else Inl ValueError)
        (\<lambda>scaled. bindR (py_round scaled) (\<lambda>n. Inr (max 0 (min 100 n)))))"

definition validate_battery_scale :: "string \<Rightarrow> string result" where
  "validate_battery_scale scale =
     (if scale \<notin> set BATTERY_PERCENTAGE_SCALES then Inl ValueError else Inr scale)"

definition IDLE_SPEED_EPS :: pyfloat where
  "IDLE_SPEED_EPS = fround (1/100)"

section \<open>Locations\<close>

definition LOCATION_NAMES :: "string list" where
  "LOCATION_NAMES =
     [''shelf_1'', ''shelf_2'', ''shelf_3'', ''berth_A'', ''berth_B'', ''shipping_station'',
      ''charging_station'', ''retreat_A'', ''retreat_B'']"

definition is_known_location :: "string \<Rightarrow> bool" where
  "is_known_location name \<longleftrightarrow> name \<in> set LOCATION_NAMES"

section \<open>Configuration layers\<close>

text \<open>\<open>_deep_merge\<close>: the overlay wins, two dictionaries under the same key are merged in turn.\<close>

function deep_merge :: "(string \<times> pyval) list \<Rightarrow> (string \<times> pyval) list \<Rightarrow> (string \<times> pyval) list" where
  "deep_merge out [] = out"
| "deep_merge out ((key, value) # rest) =
     deep_merge
       (case (value, map_of out key) of
          (PDict v, Some (PDict o')) \<Rightarrow> AList.update key (PDict (deep_merge o' v)) out
        | _ \<Rightarrow> AList.update key value out)
       rest"
  by pat_completeness auto
termination
  by (relation "measure (\<lambda>(_, d). size_list (size_prod (\<lambda>_. 0) size) d)") auto

text \<open>\<open>_nest\<close>: the key path becomes nested one-entry dictionaries.\<close>

fun nest :: "string list \<Rightarrow> pyval \<Rightarrow> pyval" where
  "nest [] value = value"
| "nest (k # ks) value = PDict [(k, nest ks value)]"

text \<open>
  \<open>_validate_safety\<close>. The membership test of the scale compares a string with strings, so any
  other value is not a member.
\<close>

definition validate_cap :: "pyval \<Rightarrow> unit result" where
  "validate_cap cap =
     (if cap = PNone then Inr ()
      else if \<not> is_number cap then Inl ValueError
      else bindR (isfinite_val cap) (\<lambda>fin. bindR (num_val cap) (\<lambda>c.
        if \<not> fin \<or> c \<le> Fin 0 then Inl ValueError
        else if MAX_LINEAR_VELOCITY < c then Inl ValueError
        else Inr ())))"

definition validate_scale_entry :: "pyval \<Rightarrow> unit result" where
  "validate_scale_entry scale =
     (case scale of
        PNone \<Rightarrow> Inr ()
      | PStr s \<Rightarrow> if s \<in> set BATTERY_PERCENTAGE_SCALES then Inr () else Inl ValueError
      | _ \<Rightarrow> Inl ValueError)"

definition validate_safety :: "(string \<times> pyval) list \<Rightarrow> unit result" where
  "validate_safety cfg =
     (case dget cfg ''safety'' of
        PDict safety \<Rightarrow>
          bindR (validate_cap (dget safety ''max_linear_velocity'')) (\<lambda>_.
            validate_scale_entry (dget safety ''battery_percentage_scale''))
      | _ \<Rightarrow> Inr ())"

text \<open>
  \<open>load_config\<close> after the files are read and the environment values are parsed: the layers are
  merged in order onto the empty configuration and the result is validated.
\<close>

definition load_config :: "(string \<times> pyval) list list \<Rightarrow> (string \<times> pyval) list result" where
  "load_config layers =
     (let merged = fold (\<lambda>layer acc. deep_merge acc layer) layers []
      in bindR (validate_safety merged) (\<lambda>_. Inr merged))"

section \<open>What the checks guarantee\<close>

text \<open>
  The speed clamp is a hard cap: for every finite non-negative cap and every request, NaN and
  the infinities included, the result is finite and lies within the cap; a request already within
  the cap is unchanged, a finite one outside is moved to the nearer end, and a non-finite one stops.
\<close>

theorem clamp_velocity_spec:
  assumes "isfinite m" and "0 \<le> m"
  shows "isfinite (clamp_velocity v m) \<and> \<bar>clamp_velocity v m\<bar> \<le> m
    \<and> (\<not> isfinite v \<longrightarrow> clamp_velocity v m = 0)
    \<and> (\<bar>v\<bar> \<le> m \<longrightarrow> clamp_velocity v m = v)
    \<and> (isfinite v \<longrightarrow> m < v \<longrightarrow> clamp_velocity v m = m)
    \<and> (isfinite v \<longrightarrow> v < - m \<longrightarrow> clamp_velocity v m = - m)"
  using assms
  by (cases m; cases v)
    (auto simp: clamp_velocity_def py_max_def py_min_def zero_pyfloat_def abs_if)

theorem clamp_velocity_spec_witness:
  "isfinite MAX_LINEAR_VELOCITY \<and> 0 \<le> MAX_LINEAR_VELOCITY \<and>
   \<bar>clamp_velocity (Fin 7) MAX_LINEAR_VELOCITY\<bar> \<le> MAX_LINEAR_VELOCITY \<and>
   clamp_velocity (Fin 7) MAX_LINEAR_VELOCITY = MAX_LINEAR_VELOCITY"
  using clamp_velocity_spec [of MAX_LINEAR_VELOCITY "Fin 7"] by (simp add: max_velocity_eq)

text \<open>A negative cap is not sanitised here: the request is moved to the far side of it.\<close>

lemma clamp_velocity_negative_cap:
  "isfinite v \<Longrightarrow> m < 0 \<Longrightarrow> isfinite m \<Longrightarrow> clamp_velocity v m = - m"
  by (cases m; cases v)
    (auto simp: clamp_velocity_def py_max_def py_min_def)

lemma clamp_velocity_idem:
  "isfinite m \<Longrightarrow> 0 \<le> m \<Longrightarrow> clamp_velocity (clamp_velocity v m) m = clamp_velocity v m"
  by (cases m; cases v)
    (auto simp: clamp_velocity_def py_max_def py_min_def)

lemma critical_blocks_task: "battery_is_critical p \<Longrightarrow> \<not> battery_allows_new_task p"
  by (cases p)
    (auto simp: battery_is_critical_def battery_allows_new_task_def BATTERY_LOW_PCT_def
      BATTERY_CRITICAL_PCT_def)

lemma scales_distinct [simp]:
  "BATTERY_SCALE_PERCENT \<noteq> BATTERY_SCALE_FRACTION" "BATTERY_SCALE_FRACTION \<noteq> BATTERY_SCALE_PERCENT"
  by (simp_all add: BATTERY_SCALE_PERCENT_def BATTERY_SCALE_FRACTION_def)

lemma normalize_cases:
  "normalize_battery_percent (Fin x) scale =
     (if scale = BATTERY_SCALE_FRACTION
      then bindR (py_round (fround (x * 100))) (\<lambda>n. Inr (max 0 (min 100 n)))
      else if scale = BATTERY_SCALE_PERCENT then Inr (max 0 (min 100 (rne x)))
      else Inl ValueError)"
  by (simp add: normalize_battery_percent_def)

lemma py_round_mono:
  "a \<le> b \<Longrightarrow> py_round a = Inr m \<Longrightarrow> py_round b = Inr n \<Longrightarrow> m \<le> n"
  by (cases a; cases b) (auto intro: rne_mono)

lemma normalize_ok_range:
  "normalize_battery_percent r s = Inr n \<Longrightarrow> 0 \<le> n \<and> n \<le> 100"
  by (auto simp: normalize_battery_percent_def bindR_Inr_iff split: if_splits)

lemma normalize_value_error:
  "normalize_battery_percent r s = Inl ValueError \<longleftrightarrow>
     \<not> isfinite r \<or> s \<notin> set BATTERY_PERCENTAGE_SCALES"
proof (cases r)
  case (Fin x)
  have "py_round (fround y) \<noteq> Inl ValueError" for y
    by (cases "fround y") (use fround_not_nan [of y] in auto)
  then show ?thesis
    by (auto simp: Fin normalize_cases BATTERY_PERCENTAGE_SCALES_def bindR_Inl_iff)
qed (simp_all add: normalize_battery_percent_def)

text \<open>
  Battery normalisation: exactly a non-finite reading or an unknown scale is a \<open>ValueError\<close>;
  every result is a percentage in 0..100; and under one scale a larger reading never gives a
  smaller percentage.
\<close>

theorem normalize_battery_spec:
  "(normalize_battery_percent r s = Inl ValueError \<longleftrightarrow> \<not> isfinite r \<or> s \<notin> set BATTERY_PERCENTAGE_SCALES)
   \<and> (\<forall>n. normalize_battery_percent r s = Inr n \<longrightarrow> 0 \<le> n \<and> n \<le> 100)
   \<and> (\<forall>r' n n'. r \<le> r' \<longrightarrow> normalize_battery_percent r s = Inr n \<longrightarrow>
        normalize_battery_percent r' s = Inr n' \<longrightarrow> n \<le> n')"
proof (intro conjI allI impI)
  fix r' n n'
  assume le: "r \<le> r'" and n: "normalize_battery_percent r s = Inr n"
    and n': "normalize_battery_percent r' s = Inr n'"
  from n n' have "isfinite r" "isfinite r'" by (auto simp: normalize_battery_percent_def split: if_splits)
  then obtain x y where xy: "r = Fin x" "r' = Fin y" by (auto simp: isfinite_iff)
  with le have "x \<le> y" by simp
  then have "fround (x * 100) \<le> fround (y * 100)" "rne x \<le> rne y"
    by (simp_all add: fround_mono rne_mono)
  then show "n \<le> n'" using n n' unfolding xy normalize_cases
    by (auto simp: bindR_Inr_iff split: if_splits dest: py_round_mono)
qed (use normalize_value_error [of r s] normalize_ok_range [of r s] in auto)

theorem normalize_battery_spec_witness:
  "normalize_battery_percent (Fin (1/2)) BATTERY_SCALE_FRACTION = Inr 50 \<and>
   normalize_battery_percent (Fin (3/4)) BATTERY_SCALE_FRACTION = Inr 75 \<and>
   (50::int) \<le> 75 \<and> normalize_battery_percent NaN BATTERY_SCALE_FRACTION = Inl ValueError"
proof -
  have e: "normalize_battery_percent (Fin (1/2)) BATTERY_SCALE_FRACTION = Inr 50"
    "normalize_battery_percent (Fin (3/4)) BATTERY_SCALE_FRACTION = Inr 75"
    by (simp_all add: normalize_cases py_eval rne_def)
  have "Fin (1/2) \<le> Fin (3/4)" by simp
  then show ?thesis
    using e normalize_battery_spec [of "Fin (1/2)" BATTERY_SCALE_FRACTION]
      normalize_battery_spec [of NaN BATTERY_SCALE_FRACTION] by auto
qed

text \<open>A finite reading can still escape the documented \<open>ValueError\<close> contract: the product overflows.\<close>

lemma normalize_overflow:
  "normalize_battery_percent (Fin (2 ^ 1020)) BATTERY_SCALE_FRACTION = Inl OverflowError"
proof -
  have "round53 overflow_bound = overflow_bound"
    using round53_exact [of 1 1024] by (simp add: overflow_bound_def power_int_def)
  moreover have "overflow_bound \<le> 2 ^ 1020 * 100" by (simp add: overflow_bound_def)
  ultimately have "overflow_bound \<le> round53 (2 ^ 1020 * 100)" by (metis round53_mono)
  then have "fround (2 ^ 1020 * 100) = PInf" by (simp add: fround_alt)
  then show ?thesis by (simp only: normalize_cases refl if_True py_round.simps bindR.simps)
qed

section \<open>Configuration\<close>

text \<open>Merging: keys the overlay does not name are untouched, and a plain overlay value wins.\<close>

lemma deep_merge_other: "key \<notin> fst ` set d \<Longrightarrow> map_of (deep_merge out d) key = map_of out key"
proof (induction d arbitrary: out)
  case (Cons kv rest)
  obtain k v where kv: "kv = (k, v)" by (cases kv)
  with Cons show ?case
    by (auto simp: kv split: pyval.splits option.splits)
qed simp

lemma deep_merge_plain:
  "dict_ok d \<Longrightarrow> map_of d key = Some v \<Longrightarrow> (\<forall>v'. v \<noteq> PDict v') \<Longrightarrow>
    map_of (deep_merge out d) key = Some v"
proof (induction d arbitrary: out)
  case (Cons kv rest)
  obtain k w where kv: "kv = (k, w)" by (cases kv)
  show ?case
  proof (cases "k = key")
    case True
    with Cons.prems have "w = v" "key \<notin> fst ` set rest" by (auto simp: kv dict_ok_def)
    then show ?thesis using Cons.prems(3) True
      by (cases v) (auto simp: kv deep_merge_other split: option.splits)
  next
    case False
    with Cons show ?thesis by (auto simp: kv dict_ok_def)
  qed
qed simp

definition cap_ok :: "pyval \<Rightarrow> bool" where
  "cap_ok v \<longleftrightarrow> v = PNone \<or>
     (is_number v \<and> (\<exists>c. num_val v = Inr c \<and> isfinite c \<and> 0 < c \<and> c \<le> MAX_LINEAR_VELOCITY))"

lemma validate_cap_ok: "validate_cap v = Inr () \<Longrightarrow> cap_ok v"
proof (cases "v = PNone")
  case False
  assume ok: "validate_cap v = Inr ()"
  with False have num: "is_number v" by (auto simp: validate_cap_def split: if_splits)
  then obtain c where c: "num_val v = Inr c" using is_number_num_val by blast
  from ok False num c have fin: "isfinite_val v = Inr True"
    and r: "\<not> c \<le> Fin 0" "\<not> MAX_LINEAR_VELOCITY < c"
    by (auto simp: validate_cap_def bindR_Inr_iff split: if_splits)
  from num c fin have "isfinite c" by (rule isfinite_val_number)
  then have "0 < c" "c \<le> MAX_LINEAR_VELOCITY"
    using r not_flt [of MAX_LINEAR_VELOCITY c] not_fle [of c "Fin 0"]
    by (auto simp: zero_pyfloat_def)
  then show ?thesis using num c \<open>isfinite c\<close> by (auto simp: cap_ok_def)
qed (simp add: cap_ok_def)

text \<open>
  No configuration that loads can raise the speed limit or mistype the battery scale: whatever
  the layers (base, overlay, environment), if the merged result is accepted then its speed cap is
  absent or a finite number in (0, 0.3], and its battery scale is absent or one of the known ones.
\<close>

theorem load_config_safe:
  assumes "load_config layers = Inr cfg" and "dget cfg ''safety'' = PDict safety"
  shows "cap_ok (dget safety ''max_linear_velocity'') \<and>
    (dget safety ''battery_percentage_scale'' = PNone \<or>
     (\<exists>s \<in> set BATTERY_PERCENTAGE_SCALES. dget safety ''battery_percentage_scale'' = PStr s))"
proof -
  from assms have "validate_safety cfg = Inr ()"
    by (auto simp: load_config_def Let_def bindR_Inr_iff)
  with assms(2) have "validate_cap (dget safety ''max_linear_velocity'') = Inr ()"
    and s: "validate_scale_entry (dget safety ''battery_percentage_scale'') = Inr ()"
    by (auto simp: validate_safety_def bindR_Inr_iff)
  then show ?thesis using validate_cap_ok s
    by (auto simp: validate_scale_entry_def split: pyval.splits if_splits)
qed

definition sample_base :: "(string \<times> pyval) list" where
  "sample_base = [(''safety'', PDict [(''max_linear_velocity'', PFloat (Fin (1/4)))])]"

definition sample_overlay :: "(string \<times> pyval) list" where
  "sample_overlay = [(''safety'', PDict [(''battery_percentage_scale'', PStr ''fraction'')])]"

lemma sample_load:
  "load_config [sample_base, sample_overlay] =
     Inr [(''safety'', PDict [(''max_linear_velocity'', PFloat (Fin (1/4))),
        (''battery_percentage_scale'', PStr ''fraction'')])]"
  by (simp add: load_config_def sample_base_def sample_overlay_def validate_safety_def dget_def
      validate_cap_def validate_scale_entry_def max_velocity_eq BATTERY_PERCENTAGE_SCALES_def
      BATTERY_SCALE_FRACTION_def Let_def)

theorem load_config_safe_witness:
  "load_config [sample_base, sample_overlay] =
     Inr [(''safety'', PDict [(''max_linear_velocity'', PFloat (Fin (1/4))),
        (''battery_percentage_scale'', PStr ''fraction'')])]
   \<and> cap_ok (PFloat (Fin (1/4)))"
  using sample_load load_config_safe [OF sample_load] by (simp add: dget_def)

end
