(* ===== verification/PyText.thy ===== *)
theory PyText
  imports PyValue "HOL-Library.Sublist"
begin

text \<open>
  What the modelled code uses of Python's \<open>str\<close>: \<open>lower\<close>, \<open>strip\<close>, \<open>splitlines\<close>, \<open>startswith\<close> (which
  is \<open>prefix\<close>), substring tests (\<open>sublist\<close>) and \<open>join\<close>. A character is one of the 256 of Latin-1, so the
  white space and line separators beyond it (U+2028 and others) are not represented.
\<close>

section \<open>Characters\<close>

definition lower_char :: "char \<Rightarrow> char" where
  "lower_char c =
     (let n = of_char c :: nat in
      if 65 \<le> n \<and> n \<le> 90 \<or> 192 \<le> n \<and> n \<le> 222 \<and> n \<noteq> 215 then char_of (n + 32) else c)"

definition py_lower :: "string \<Rightarrow> string" where
  "py_lower s = map lower_char s"

definition LF :: char where "LF = CHR 0x0A"
definition CR :: char where "CR = CHR 0x0D"

definition line_break :: "char \<Rightarrow> bool" where
  "line_break c \<longleftrightarrow> c \<in> {CHR 0x0A, CHR 0x0B, CHR 0x0C, CHR 0x0D, CHR 0x1C, CHR 0x1D, CHR 0x1E, CHR 0x85}"

definition white :: "char \<Rightarrow> bool" where
  "white c \<longleftrightarrow>
     c \<in> {CHR 0x09, CHR 0x0A, CHR 0x0B, CHR 0x0C, CHR 0x0D, CHR 0x1C, CHR 0x1D, CHR 0x1E, CHR 0x1F, CHR 0x20,
          CHR 0x85, CHR 0xA0}"

lemma line_break_LF [simp]: "line_break LF"
  by (simp add: line_break_def LF_def)

lemma CR_not_LF [simp]: "CR \<noteq> LF" "LF \<noteq> CR"
  by (simp_all add: CR_def LF_def)

lemma line_break_white: "line_break c \<Longrightarrow> white c"
  by (auto simp: line_break_def white_def)

section \<open>Stripping\<close>

definition py_lstrip :: "string \<Rightarrow> string" where
  "py_lstrip s = dropWhile white s"

definition py_rstrip :: "string \<Rightarrow> string" where
  "py_rstrip s = rev (dropWhile white (rev s))"

definition py_strip :: "string \<Rightarrow> string" where
  "py_strip s = py_rstrip (py_lstrip s)"

lemma rstrip_white: "\<forall>c \<in> set s. white c \<Longrightarrow> py_rstrip s = []"
  by (simp add: py_rstrip_def dropWhile_eq_Nil_conv)

lemma rstrip_append_white: "\<forall>c \<in> set t. white c \<Longrightarrow> py_rstrip (s @ t) = py_rstrip s"
  by (simp add: py_rstrip_def dropWhile_append)

lemma rstrip_append_nonwhite: "\<not> white c \<Longrightarrow> py_rstrip (s @ c # t) = s @ c # py_rstrip t"
  by (induction t rule: rev_induct) (auto simp: py_rstrip_def)

lemma rstrip_snoc: "\<not> white c \<Longrightarrow> py_rstrip (s @ [c]) = s @ [c]"
  by (simp add: py_rstrip_def)

lemma strip_fix: "s \<noteq> [] \<Longrightarrow> \<not> white (hd s) \<Longrightarrow> \<not> white (last s) \<Longrightarrow> py_strip s = s"
proof -
  assume s: "s \<noteq> []" "\<not> white (hd s)" "\<not> white (last s)"
  then have "py_lstrip s = s" by (cases s) (simp_all add: py_lstrip_def)
  then show ?thesis using s rstrip_snoc [of "last s" "butlast s"] by (simp add: py_strip_def)
qed

section \<open>Lines\<close>

definition drop_lf :: "string \<Rightarrow> string" where
  "drop_lf s = (case s of c # cs \<Rightarrow> (if c = LF then cs else s) | [] \<Rightarrow> [])"

lemma length_drop_lf [termination_simp]: "length (drop_lf s) \<le> length s"
  by (simp add: drop_lf_def split: list.splits)

lemma length_drop_lf_Suc [termination_simp]: "length (drop_lf s) < Suc (length s)"
  using length_drop_lf [of s] by simp

text \<open>The second argument is the line read so far; \<open>"\r\n"\<close> is one break and a final break opens no line.\<close>

fun split_from :: "string \<Rightarrow> string \<Rightarrow> string list" where
  "split_from line [] = (if line = [] then [] else [line])"
| "split_from line (c # cs) =
     (if c = CR then line # split_from [] (drop_lf cs)
      else if line_break c then line # split_from [] cs
      else split_from (line @ [c]) cs)"

definition splitlines :: "string \<Rightarrow> string list" where
  "splitlines s = split_from [] s"

definition join_lines :: "string list \<Rightarrow> string" where
  "join_lines ls = concat (case ls of [] \<Rightarrow> [] | l # rest \<Rightarrow> l # map (\<lambda>x. LF # x) rest)"

definition py_join :: "string \<Rightarrow> string list \<Rightarrow> string" where
  "py_join sep xs = concat (case xs of [] \<Rightarrow> [] | x # rest \<Rightarrow> x # map (\<lambda>y. sep @ y) rest)"

lemma join_lines_Nil [simp]: "join_lines [] = []"
  by (simp add: join_lines_def)

lemma join_lines_Cons: "join_lines (l # ls) = l @ concat (map (\<lambda>x. LF # x) ls)"
  by (simp add: join_lines_def)

lemma split_plain: "\<forall>c \<in> set s. \<not> line_break c \<Longrightarrow> split_from line s = (if line @ s = [] then [] else [line @ s])"
proof (induction s arbitrary: line)
  case (Cons c s)
  then have "c \<noteq> CR" by (auto simp: line_break_def CR_def)
  then show ?case using Cons by simp
qed simp

lemma split_line: "\<forall>c \<in> set s. \<not> line_break c \<Longrightarrow> split_from line (s @ LF # t) = (line @ s) # split_from [] t"
proof (induction s arbitrary: line)
  case (Cons c s)
  then have "c \<noteq> CR" by (auto simp: line_break_def CR_def)
  then show ?case using Cons by simp
qed simp

text \<open>Of a text whose only line break is \<open>"\n"\<close>, the lines joined again are the text up to a final break.\<close>

definition lf_text :: "string \<Rightarrow> bool" where
  "lf_text s \<longleftrightarrow> (\<forall>c \<in> set s. line_break c \<longrightarrow> c = LF)"

lemma lf_text_split:
  assumes "lf_text s"
  shows "(\<forall>c \<in> set s. \<not> line_break c) \<or> (\<exists>a b. s = a @ LF # b \<and> (\<forall>c \<in> set a. \<not> line_break c) \<and> lf_text b)"
proof (cases "\<exists>c \<in> set s. line_break c")
  case True
  then obtain a c b where "s = a @ c # b" "line_break c" "\<forall>x \<in> set a. \<not> line_break x"
    using split_list_first_propE by (metis (no_types, lifting))
  then show ?thesis using assms by (auto simp: lf_text_def)
qed auto

end
