(* ===== verification/SiteProfile.thy ===== *)
theory SiteProfile
  imports Safety PyText "HOL-Library.List_Lexorder" "HOL-Library.Char_ord"
begin

text \<open>
  The site profile bundle of \<open>robotics/composition/profile.py\<close>: loading the artifacts, merging them, the two
  content hashes, the approval pin and the comparison of a loaded bundle with it. The parsers of JSON and
  YAML, \<open>str\<close>, the canonical JSON text and SHA-256 are library code, the fields of \<^theory_text>\<open>artifact_lib\<close>; a parse
  error is the \<open>SiteProfileError\<close> (a \<open>ValueError\<close>) that \<open>_parse_artifact\<close> makes of it. The directory is the list
  of its files in the order of \<open>sorted(root.rglob("*"))\<close>.
\<close>

record artifact_lib =
  al_json :: "string \<Rightarrow> pyval result"
  al_yaml :: "string \<Rightarrow> pyval result"
  al_str :: "pyval \<Rightarrow> string"
  al_dumps :: "pyval \<Rightarrow> string result"
  al_sha256 :: "string \<Rightarrow> string"

section \<open>The bundle\<close>

definition PROFILE_MANIFEST_FILENAME :: string where "PROFILE_MANIFEST_FILENAME = ''profile.yaml''"
definition APPROVED_RECORD_FILENAME :: string where "APPROVED_RECORD_FILENAME = ''APPROVED.yaml''"
definition SAFETY_CRITICAL_ARTIFACTS :: "string list" where
  "SAFETY_CRITICAL_ARTIFACTS = [''safety.yaml'', ''calibration.json'']"
definition ARTIFACT_SUFFIXES :: "string list" where "ARTIFACT_SUFFIXES = [''.yaml'', ''.yml'', ''.json'']"
definition HASH_ALGORITHM :: string where "HASH_ALGORITHM = ''sha256''"

record site_profile =
  sp_customer :: string
  sp_site :: string
  sp_version :: "string option"
  sp_files :: "(string, string) pydict"

definition profile_key :: "site_profile \<Rightarrow> string" where
  "profile_key p = sp_customer p @ ''/'' @ sp_site p"

definition ends_with :: "string \<Rightarrow> string \<Rightarrow> bool" where
  "ends_with s ending \<longleftrightarrow> drop (length s - length ending) s = ending"

definition parse_artifact :: "artifact_lib \<Rightarrow> string \<Rightarrow> string \<Rightarrow> pyval result" where
  "parse_artifact lib rel_path raw =
     (if ends_with (py_lower rel_path) ''.json''
      then if py_strip raw \<noteq> [] then al_json lib raw else Inr PNone
      else al_yaml lib raw)"

definition read_version :: "artifact_lib \<Rightarrow> (string, string) pydict \<Rightarrow> string option result" where
  "read_version lib files =
     (case map_of files PROFILE_MANIFEST_FILENAME of
        None \<Rightarrow> Inr None
      | Some raw \<Rightarrow> bindR (parse_artifact lib PROFILE_MANIFEST_FILENAME raw) (\<lambda>parsed.
          case parsed of
            PDict d \<Rightarrow> Inr (if dget d ''version'' = PNone then None else Some (al_str lib (dget d ''version'')))
          | _ \<Rightarrow> Inr None))"

text \<open>\<open>PurePath.suffix\<close> of a file name: from the last dot, which neither opens nor ends the name.\<close>

definition path_suffix :: "string \<Rightarrow> string" where
  "path_suffix name =
     (let tail = takeWhile (\<lambda>c. c \<noteq> CHR ''.'') (rev name); stem = length name - length tail - 1 in
      if CHR ''.'' \<in> set name \<and> 0 < stem \<and> tail \<noteq> [] then drop stem name else [])"

type_synonym file_entry = "string list \<times> bool \<times> string"

definition rel_of :: "string list \<Rightarrow> string" where
  "rel_of parts = py_join ''/'' parts"

definition artifact_entry :: "file_entry \<Rightarrow> bool" where
  "artifact_entry e = (case e of (parts, is_file, text) \<Rightarrow>
     is_file \<and> py_lower (path_suffix (last parts)) \<in> set ARTIFACT_SUFFIXES \<and> rel_of parts \<noteq> APPROVED_RECORD_FILENAME)"

definition collect_files :: "file_entry list \<Rightarrow> (string, string) pydict" where
  "collect_files listing =
     fold (\<lambda>(parts, is_file, text). AList.update (rel_of parts) text) (filter artifact_entry listing) []"

text \<open>The bundle directory is absent when the listing is \<open>None\<close>.\<close>

definition load_site_profile ::
    "artifact_lib \<Rightarrow> file_entry list option \<Rightarrow> string \<Rightarrow> string \<Rightarrow> site_profile result" where
  "load_site_profile lib listing customer site =
     (case listing of
        None \<Rightarrow> Inl ValueError
      | Some entries \<Rightarrow>
          let files = collect_files entries in
          bindR (read_version lib files) (\<lambda>version.
            Inr \<lparr>sp_customer = customer, sp_site = site, sp_version = version, sp_files = files\<rparr>))"

section \<open>The content hashes\<close>

definition canonical_json :: "artifact_lib \<Rightarrow> pyval \<Rightarrow> string result" where
  "canonical_json lib data = al_dumps lib data"

definition profile_merge :: "(string \<times> pyval) list \<Rightarrow> (string \<times> pyval) list \<Rightarrow> (string \<times> pyval) list" where
  "profile_merge base overlay = deep_merge base overlay"

text \<open>The explicit entries first, each once, then the other files in order.\<close>

fun explicit_order :: "(string, string) pydict \<Rightarrow> string list \<Rightarrow> string list \<Rightarrow> string list result" where
  "explicit_order files order [] = Inr order"
| "explicit_order files order (rel # rest) =
     (if rel \<notin> fst ` set files then Inl ValueError
      else explicit_order files (if rel \<in> set order then order else order @ [rel]) rest)"

definition sorted_files :: "site_profile \<Rightarrow> string list" where
  "sorted_files p = sorted_list_of_set (fst ` set (sp_files p))"

definition resolve_merge_order :: "site_profile \<Rightarrow> string list option \<Rightarrow> string list result" where
  "resolve_merge_order p merge_order =
     (case merge_order of
        None \<Rightarrow> Inr (sorted_files p)
      | Some entries \<Rightarrow> bindR (explicit_order (sp_files p) [] entries) (\<lambda>order.
          Inr (order @ filter (\<lambda>rel. rel \<notin> set order) (sorted_files p))))"

definition merge_document :: "(string \<times> pyval) list \<Rightarrow> string \<Rightarrow> pyval \<Rightarrow> (string \<times> pyval) list" where
  "merge_document merged rel parsed =
     (case parsed of
        PNone \<Rightarrow> merged
      | PDict d \<Rightarrow> profile_merge merged d
      | _ \<Rightarrow> profile_merge merged [(''__documents__'', PDict [(rel, parsed)])])"

fun merge_files ::
    "artifact_lib \<Rightarrow> (string, string) pydict \<Rightarrow> (string \<times> pyval) list \<Rightarrow> string list \<Rightarrow> (string \<times> pyval) list result" where
  "merge_files lib files merged [] = Inr merged"
| "merge_files lib files merged (rel # order) =
     (case map_of files rel of
        None \<Rightarrow> Inl KeyError
      | Some text \<Rightarrow> bindR (parse_artifact lib rel text) (\<lambda>parsed.
          merge_files lib files (merge_document merged rel parsed) order))"

definition merged_profile_view ::
    "artifact_lib \<Rightarrow> site_profile \<Rightarrow> string list option \<Rightarrow> (string \<times> pyval) list result" where
  "merged_profile_view lib p merge_order =
     bindR (resolve_merge_order p merge_order) (\<lambda>order. merge_files lib (sp_files p) [] order)"

record content_hash =
  ch_algorithm :: string
  ch_merged_canonical :: string
  ch_files :: "(string, string) pydict"
  ch_merge_order :: "string list"

definition compute_content_hash ::
    "artifact_lib \<Rightarrow> site_profile \<Rightarrow> string list option \<Rightarrow> content_hash result" where
  "compute_content_hash lib p merge_order =
     bindR (resolve_merge_order p merge_order) (\<lambda>order.
     bindR (merged_profile_view lib p (Some order)) (\<lambda>merged.
     bindR (canonical_json lib (PDict merged)) (\<lambda>text.
       Inr \<lparr>ch_algorithm = HASH_ALGORITHM, ch_merged_canonical = al_sha256 lib text,
         ch_files = map (\<lambda>(rel, raw). (rel, al_sha256 lib raw)) (sp_files p), ch_merge_order = order\<rparr>)))"

section \<open>Approval and verification\<close>

record approved_record =
  ar_customer :: string
  ar_site :: string
  ar_version :: "string option"
  ar_content_hash :: content_hash
  ar_approved_by :: "string option"
  ar_approved_at :: "string option"

definition approve :: "site_profile \<Rightarrow> content_hash \<Rightarrow> string \<Rightarrow> string \<Rightarrow> approved_record" where
  "approve p h approved_by approved_at =
     \<lparr>ar_customer = sp_customer p, ar_site = sp_site p, ar_version = sp_version p, ar_content_hash = h,
      ar_approved_by = Some approved_by, ar_approved_at = Some approved_at\<rparr>"

datatype verification_status = VERIFIED | MISMATCH | UNAPPROVED | IDENTITY_MISMATCH

record profile_verification =
  pv_status :: verification_status
  pv_merged_match :: bool
  pv_changed_files :: "string list"
  pv_added_files :: "string list"
  pv_removed_files :: "string list"
  pv_safety_critical_mismatch :: bool

definition no_verdict :: "verification_status \<Rightarrow> profile_verification" where
  "no_verdict s = \<lparr>pv_status = s, pv_merged_match = False, pv_changed_files = [], pv_added_files = [],
     pv_removed_files = [], pv_safety_critical_mismatch = False\<rparr>"

definition permits_run :: "profile_verification \<Rightarrow> bool" where
  "permits_run v \<longleftrightarrow> pv_status v = VERIFIED"

definition assert_verified :: "profile_verification \<Rightarrow> unit result" where
  "assert_verified v = (if permits_run v then Inr () else Inl ValueError)"

abbreviation dict_keys :: "('k, 'v) pydict \<Rightarrow> 'k set" where "dict_keys d \<equiv> fst ` set d"

definition changed_files :: "(string, string) pydict \<Rightarrow> (string, string) pydict \<Rightarrow> string list" where
  "changed_files old new =
     sorted_list_of_set (Set.filter (\<lambda>rel. map_of old rel \<noteq> map_of new rel) (dict_keys old \<inter> dict_keys new))"

definition new_keys :: "(string, string) pydict \<Rightarrow> (string, string) pydict \<Rightarrow> string list" where
  "new_keys old new = sorted_list_of_set (dict_keys new - dict_keys old)"

definition compare_hashes :: "content_hash \<Rightarrow> content_hash \<Rightarrow> profile_verification" where
  "compare_hashes approved current =
     (let merged_match = (ch_merged_canonical approved = ch_merged_canonical current);
          changed = changed_files (ch_files approved) (ch_files current);
          added = new_keys (ch_files approved) (ch_files current);
          removed = new_keys (ch_files current) (ch_files approved);
          clean = (merged_match \<and> changed = [] \<and> added = [] \<and> removed = []) in
      \<lparr>pv_status = (if clean then VERIFIED else MISMATCH), pv_merged_match = merged_match,
       pv_changed_files = changed, pv_added_files = added, pv_removed_files = removed,
       pv_safety_critical_mismatch =
         (\<exists>rel \<in> set (changed @ added @ removed). rel \<in> set SAFETY_CRITICAL_ARTIFACTS)\<rparr>)"

definition verify_against_approved ::
    "site_profile \<Rightarrow> content_hash \<Rightarrow> approved_record option \<Rightarrow> profile_verification" where
  "verify_against_approved p h approved =
     (case approved of
        None \<Rightarrow> no_verdict UNAPPROVED
      | Some a \<Rightarrow>
          if ar_customer a \<noteq> sp_customer p \<or> ar_site a \<noteq> sp_site p \<or> ar_version a \<noteq> sp_version p
          then no_verdict IDENTITY_MISMATCH
          else compare_hashes (ar_content_hash a) h)"


section \<open>What a verified bundle is\<close>

lemma compute_hash_files:
  assumes "compute_content_hash lib p order = Inr h"
  shows "ch_files h = map (\<lambda>(rel, raw). (rel, al_sha256 lib raw)) (sp_files p)"
  using assms by (auto simp: compute_content_hash_def bindR_Inr_iff)

lemma keys_of_hashes [simp]: "dict_keys (map (\<lambda>(rel, raw). (rel, f raw)) d) = dict_keys d"
  by force

lemma lookup_hash: "map_of (map (\<lambda>(rel, raw). (rel, f raw)) d) rel = map_option f (map_of d rel)"
  by (induction d) auto

lemma dict_keys_lookup: "rel \<in> dict_keys d \<longleftrightarrow> map_of d rel \<noteq> None"
  by (simp add: map_of_eq_None_iff)

text \<open>The three lists together are the files whose hashes differ.\<close>

lemma touched_iff:
  "rel \<in> set (changed_files old new @ new_keys old new @ new_keys new old) \<longleftrightarrow> map_of old rel \<noteq> map_of new rel"
  using dict_keys_lookup [of rel old] dict_keys_lookup [of rel new]
  by (auto simp: changed_files_def new_keys_def)

lemma untouched_iff:
  "changed_files old new = [] \<and> new_keys old new = [] \<and> new_keys new old = [] \<longleftrightarrow> map_of old = map_of new"
proof -
  have "changed_files old new = [] \<and> new_keys old new = [] \<and> new_keys new old = [] \<longleftrightarrow>
      set (changed_files old new @ new_keys old new @ new_keys new old) = {}" by auto
  also have "\<dots> \<longleftrightarrow> map_of old = map_of new" by (auto simp only: set_eq_iff touched_iff fun_eq_iff)
  finally show ?thesis .
qed

lemma safety_flag_iff:
  "pv_safety_critical_mismatch (compare_hashes a b) \<longleftrightarrow>
     (\<exists>rel \<in> set SAFETY_CRITICAL_ARTIFACTS. map_of (ch_files a) rel \<noteq> map_of (ch_files b) rel)"
  using touched_iff [of _ "ch_files a" "ch_files b"]
  unfolding compare_hashes_def Let_def profile_verification.simps by blast

lemma same_hash_same_text:
  assumes "inj_on f (snd ` set d \<union> snd ` set e)"
  shows "map_option f (map_of d rel) = map_option f (map_of e rel) \<longleftrightarrow> map_of d rel = map_of e rel"
proof (cases "map_of d rel"; cases "map_of e rel")
  fix x y
  assume x: "map_of d rel = Some x" and y: "map_of e rel = Some y"
  then have "x \<in> snd ` set d" "y \<in> snd ` set e" by (auto dest!: map_of_SomeD simp: rev_image_eqI)
  then show ?thesis using inj_onD [OF assms] by (auto simp: x y)
qed simp_all

text \<open>The text of the merged view, which the first hash method pins.\<close>

definition merged_text :: "artifact_lib \<Rightarrow> site_profile \<Rightarrow> string list option \<Rightarrow> string result" where
  "merged_text lib p order = bindR (merged_profile_view lib p order) (\<lambda>m. canonical_json lib (PDict m))"

definition texts_of :: "artifact_lib \<Rightarrow> site_profile \<Rightarrow> string list option \<Rightarrow> string set" where
  "texts_of lib p order = snd ` set (sp_files p) \<union> {t. merged_text lib p order = Inr t}"

definition same_identity :: "site_profile \<Rightarrow> site_profile \<Rightarrow> bool" where
  "same_identity p q \<longleftrightarrow> sp_customer p = sp_customer q \<and> sp_site p = sp_site q \<and> sp_version p = sp_version q"

text \<open>The order is resolved once for the hash and again for the view; the second resolution changes nothing.\<close>

lemma explicit_order_spec:
  "explicit_order files order rels = Inr order' \<Longrightarrow> distinct order \<Longrightarrow> set order \<subseteq> dict_keys files \<Longrightarrow>
     distinct order' \<and> set order' \<subseteq> dict_keys files"
  by (induction rels arbitrary: order) (auto split: if_splits)

lemma explicit_order_distinct:
  "distinct (order @ rels) \<Longrightarrow> set rels \<subseteq> dict_keys files \<Longrightarrow> explicit_order files order rels = Inr (order @ rels)"
  by (induction rels arbitrary: order) auto

lemma merge_order_complete:
  assumes "resolve_merge_order p order = Inr order'"
  shows "distinct order' \<and> set order' = dict_keys (sp_files p)"
proof (cases order)
  case None
  with assms have "order' = sorted_list_of_set (dict_keys (sp_files p))"
    by (simp add: resolve_merge_order_def sorted_files_def)
  then show ?thesis by (simp only: distinct_sorted_list_of_set set_sorted_list_of_set finite_imageI finite_set)
next
  case (Some rels)
  with assms obtain given where given: "explicit_order (sp_files p) [] rels = Inr given"
    and order': "order' = given @ filter (\<lambda>rel. rel \<notin> set given) (sorted_files p)"
    by (auto simp: resolve_merge_order_def bindR_Inr_iff)
  from explicit_order_spec [OF given] have "distinct given" "set given \<subseteq> dict_keys (sp_files p)" by simp_all
  then show ?thesis by (auto simp: order' sorted_files_def)
qed

lemma merge_order_stable:
  assumes "resolve_merge_order p order = Inr order'"
  shows "resolve_merge_order p (Some order') = Inr order'"
  using merge_order_complete [OF assms] explicit_order_distinct [of "[]" order' "sp_files p"]
  by (simp add: resolve_merge_order_def sorted_files_def)

lemma compute_hash_merged:
  assumes "compute_content_hash lib p order = Inr h"
  shows "\<exists>t. merged_text lib p order = Inr t \<and> ch_merged_canonical h = al_sha256 lib t"
proof -
  from assms obtain order' m t where order: "resolve_merge_order p order = Inr order'"
    and m: "merged_profile_view lib p (Some order') = Inr m" and t: "canonical_json lib (PDict m) = Inr t"
    and h: "ch_merged_canonical h = al_sha256 lib t"
    by (auto simp: compute_content_hash_def bindR_Inr_iff)
  from m have "merged_profile_view lib p order = Inr m"
    by (simp add: merged_profile_view_def order merge_order_stable [OF order])
  then show ?thesis using t h by (simp add: merged_text_def)
qed

lemma verified_iff_same_content:
  assumes "compute_content_hash lib p order = Inr h" and "compute_content_hash lib p0 order0 = Inr h0"
    and no_collision: "inj_on (al_sha256 lib) (texts_of lib p order \<union> texts_of lib p0 order0)"
  shows "permits_run (verify_against_approved p h (Some (approve p0 h0 who at_time))) \<longleftrightarrow>
           same_identity p p0 \<and> map_of (sp_files p) = map_of (sp_files p0) \<and> merged_text lib p order = merged_text lib p0 order0"
    and "pv_safety_critical_mismatch (verify_against_approved p h (Some (approve p0 h0 who at_time))) \<longleftrightarrow>
           same_identity p p0 \<and> (\<exists>rel \<in> set SAFETY_CRITICAL_ARTIFACTS. map_of (sp_files p) rel \<noteq> map_of (sp_files p0) rel)"
proof -
  obtain t t0 where t: "merged_text lib p order = Inr t" "ch_merged_canonical h = al_sha256 lib t"
    and t0: "merged_text lib p0 order0 = Inr t0" "ch_merged_canonical h0 = al_sha256 lib t0"
    using compute_hash_merged [OF assms(1)] compute_hash_merged [OF assms(2)] by blast
  have "t \<in> texts_of lib p order" "t0 \<in> texts_of lib p0 order0" using t t0 by (simp_all add: texts_of_def)
  then have "al_sha256 lib t0 = al_sha256 lib t \<longleftrightarrow> t0 = t" by (intro inj_on_eq_iff [OF no_collision]) simp_all
  then have "ch_merged_canonical h0 = ch_merged_canonical h \<longleftrightarrow> t0 = t" by (simp add: t t0)
  then have merged: "ch_merged_canonical h0 = ch_merged_canonical h \<longleftrightarrow> merged_text lib p order = merged_text lib p0 order0"
    using t t0 by auto
  have inj: "inj_on (al_sha256 lib) (snd ` set (sp_files p0) \<union> snd ` set (sp_files p))"
    by (rule inj_on_subset [OF no_collision]) (auto simp: texts_of_def)
  have same: "map_of (ch_files h0) rel = map_of (ch_files h) rel \<longleftrightarrow> map_of (sp_files p0) rel = map_of (sp_files p) rel" for rel
    using same_hash_same_text [OF inj] by (simp add: compute_hash_files [OF assms(1)] compute_hash_files [OF assms(2)] lookup_hash)
  then have files: "map_of (ch_files h0) = map_of (ch_files h) \<longleftrightarrow> map_of (sp_files p) = map_of (sp_files p0)"
    by (auto simp: fun_eq_iff)
  show "permits_run (verify_against_approved p h (Some (approve p0 h0 who at_time))) \<longleftrightarrow>
      same_identity p p0 \<and> map_of (sp_files p) = map_of (sp_files p0) \<and> merged_text lib p order = merged_text lib p0 order0"
    using untouched_iff [of "ch_files h0" "ch_files h"] merged files
    by (auto simp: permits_run_def verify_against_approved_def approve_def compare_hashes_def no_verdict_def
        same_identity_def Let_def)
  show "pv_safety_critical_mismatch (verify_against_approved p h (Some (approve p0 h0 who at_time))) \<longleftrightarrow>
      same_identity p p0 \<and> (\<exists>rel \<in> set SAFETY_CRITICAL_ARTIFACTS. map_of (sp_files p) rel \<noteq> map_of (sp_files p0) rel)"
    by (simp add: verify_against_approved_def approve_def no_verdict_def same_identity_def safety_flag_iff same)
      (metis (full_types))
qed

section \<open>A document that the merged view loses\<close>

text \<open>
  A list document is kept under the reserved key, so that no artifact drops out of the merged hash; a later
  artifact that binds the reserved key itself to a scalar removes it.
\<close>

lemma document_drops_out_of_merge:
  assumes "al_json lib ''[1]'' = Inr (PList [PInt 1])" "al_yaml lib ''__documents__: 0'' = Inr (PDict [(''__documents__'', PInt 0)])"
  shows "merge_files lib [(''a.json'', ''[1]''), (''b.yaml'', ''__documents__: 0'')] [] [''a.json'', ''b.yaml'']
       = merge_files lib [(''b.yaml'', ''__documents__: 0'')] [] [''b.yaml'']"
  using assms by (simp add: parse_artifact_def ends_with_def py_lower_def lower_char_def py_strip_def py_lstrip_def
      py_rstrip_def white_def line_break_def merge_document_def profile_merge_def)

end
