(* ===== verification/TaskGraph.thy ===== *)
theory TaskGraph
  imports PyValue
begin

text \<open>
  The task-graph executor of the L3 planning core, \<open>task_graph_executor/states.py\<close> and
  \<open>executor.py\<close>: the life cycle of the tasks of a validated plan, which tasks are emitted as ready,
  and the opaque dictionary the state is stored as. \<open>TaskGraphExecutorError\<close> is a \<open>ValueError\<close>.
\<close>

section \<open>Statuses and the runtime state\<close>

datatype task_status = PENDING | READY | RUNNING | SUCCEEDED | FAILED | CANCELLED

fun status_value :: "task_status \<Rightarrow> string" where
  "status_value PENDING = ''pending''"
| "status_value READY = ''ready''"
| "status_value RUNNING = ''running''"
| "status_value SUCCEEDED = ''succeeded''"
| "status_value FAILED = ''failed''"
| "status_value CANCELLED = ''cancelled''"

definition all_statuses :: "task_status list" where
  "all_statuses = [PENDING, READY, RUNNING, SUCCEEDED, FAILED, CANCELLED]"

definition COMPLETED_STATUS :: task_status where
  "COMPLETED_STATUS = SUCCEEDED"

definition TERMINAL_STATUSES :: "task_status list" where
  "TERMINAL_STATUSES = [SUCCEEDED, FAILED, CANCELLED]"

definition NON_EMITTABLE :: "task_status list" where
  "NON_EMITTABLE = TERMINAL_STATUSES @ [RUNNING]"

type_synonym runtime = "(string, task_status) pydict"

definition status_of :: "runtime \<Rightarrow> string \<Rightarrow> task_status" where
  "status_of r tid = (case map_of r tid of None \<Rightarrow> PENDING | Some s \<Rightarrow> s)"

definition set_status :: "runtime \<Rightarrow> string \<Rightarrow> task_status \<Rightarrow> runtime" where
  "set_status r tid s = AList.update tid s r"

text \<open>\<open>TaskStatus(value)\<close> raises on an unknown value.\<close>

definition parse_status :: "pyval \<Rightarrow> task_status result" where
  "parse_status v =
     (case v of
        PStr s \<Rightarrow> (case find (\<lambda>st. status_value st = s) all_statuses of None \<Rightarrow> Inl ValueError | Some st \<Rightarrow> Inr st)
      | _ \<Rightarrow> Inl ValueError)"

definition to_store_dict :: "runtime \<Rightarrow> pyval" where
  "to_store_dict r = PDict [(''statuses'', PDict (map (\<lambda>(tid, s). (tid, PStr (status_value s))) r))]"

fun parse_statuses :: "(string \<times> pyval) list \<Rightarrow> runtime \<Rightarrow> runtime result" where
  "parse_statuses [] acc = Inr acc"
| "parse_statuses ((tid, v) # rest) acc =
     bindR (parse_status v) (\<lambda>s. parse_statuses rest (AList.update tid s acc))"

definition from_store_dict :: "pyval \<Rightarrow> runtime result" where
  "from_store_dict data =
     (if \<not> truthy data then Inr []
      else case data of
          PDict d \<Rightarrow> (case dget d ''statuses'' of PDict raw \<Rightarrow> parse_statuses raw [] | _ \<Rightarrow> Inr [])
        | _ \<Rightarrow> Inl AttributeError)"

section \<open>The executor\<close>

record task_node =
  node_id :: string
  node_robot :: string
  node_action :: string
  node_target :: "string option"
  node_after :: "string option"

record ready_task =
  rt_id :: string
  rt_action :: string
  rt_robot :: string
  rt_target :: "string option"
  rt_after :: "string option"

definition from_node :: "task_node \<Rightarrow> ready_task" where
  "from_node n = \<lparr>rt_id = node_id n, rt_action = node_action n, rt_robot = node_robot n,
     rt_target = node_target n, rt_after = node_after n\<rparr>"

text \<open>\<open>InMemoryTaskGraphStore\<close>; \<open>get\<close> of an unknown plan is \<open>None\<close>.\<close>

type_synonym graph_store = "(string, pyval) pydict"

record exec_state =
  graph :: runtime
  store :: graph_store

text \<open>\<open>after.split(".", 1)[0]\<close>.\<close>

definition ref_id :: "string \<Rightarrow> string" where
  "ref_id after = takeWhile (\<lambda>c. c \<noteq> CHR ''.'') after"

definition dependencies_met :: "task_node \<Rightarrow> runtime \<Rightarrow> bool" where
  "dependencies_met n r \<longleftrightarrow>
     (case node_after n of None \<Rightarrow> True | Some a \<Rightarrow> status_of r (ref_id a) = COMPLETED_STATUS)"

definition persist :: "string \<Rightarrow> runtime \<Rightarrow> graph_store \<Rightarrow> graph_store" where
  "persist plan_id r st = AList.update plan_id (to_store_dict r) st"

fun ready_loop :: "task_node list \<Rightarrow> string list \<Rightarrow> runtime \<Rightarrow> ready_task list \<times> runtime" where
  "ready_loop [] emitted r = ([], r)"
| "ready_loop (n # ns) emitted r =
     (let st = status_of r (node_id n) in
      if st \<in> set NON_EMITTABLE then ready_loop ns emitted r
      else if node_id n \<in> set emitted then ready_loop ns emitted r
      else if dependencies_met n r then
        let (ready, r') = ready_loop ns (node_id n # emitted) (set_status r (node_id n) READY)
        in (from_node n # ready, r')
      else if st \<noteq> READY then ready_loop ns emitted (set_status r (node_id n) PENDING)
      else ready_loop ns emitted r)"

definition ready_tasks :: "string \<Rightarrow> task_node list \<Rightarrow> exec_state \<Rightarrow> ready_task list \<times> exec_state" where
  "ready_tasks plan_id nodes s =
     (let (ready, r) = ready_loop nodes [] (graph s)
      in (ready, s\<lparr>graph := r, store := persist plan_id r (store s)\<rparr>))"

definition commit :: "string \<Rightarrow> string \<Rightarrow> task_status \<Rightarrow> exec_state \<Rightarrow> exec_state" where
  "commit plan_id tid st s =
     (let r = set_status (graph s) tid st in s\<lparr>graph := r, store := persist plan_id r (store s)\<rparr>)"

definition mark_running :: "string \<Rightarrow> string \<Rightarrow> exec_state \<Rightarrow> exec_state result" where
  "mark_running plan_id tid s =
     (if status_of (graph s) tid \<noteq> READY then Inl ValueError else Inr (commit plan_id tid RUNNING s))"

definition mark_terminal :: "string \<Rightarrow> string \<Rightarrow> task_status \<Rightarrow> exec_state \<Rightarrow> exec_state result" where
  "mark_terminal plan_id tid st s =
     (if status_of (graph s) tid \<noteq> RUNNING then Inl ValueError else Inr (commit plan_id tid st s))"

definition mark_succeeded :: "string \<Rightarrow> string \<Rightarrow> exec_state \<Rightarrow> exec_state result" where
  "mark_succeeded plan_id tid = mark_terminal plan_id tid SUCCEEDED"

definition mark_failed :: "string \<Rightarrow> string \<Rightarrow> exec_state \<Rightarrow> exec_state result" where
  "mark_failed plan_id tid = mark_terminal plan_id tid FAILED"

definition mark_cancelled :: "string \<Rightarrow> string \<Rightarrow> exec_state \<Rightarrow> exec_state result" where
  "mark_cancelled plan_id tid s =
     (if status_of (graph s) tid \<in> set TERMINAL_STATUSES then Inl ValueError
      else Inr (commit plan_id tid CANCELLED s))"

definition load_state :: "string \<Rightarrow> graph_store \<Rightarrow> exec_state result" where
  "load_state plan_id st = bindR (from_store_dict (dget st plan_id)) (\<lambda>r. Inr \<lparr>graph = r, store = st\<rparr>)"

section \<open>Histories\<close>

text \<open>
  One successful call of the executor on a plan; a refused transition changes nothing. \<open>Reload\<close>
  drops the handle and loads the plan's state from the store again.
\<close>

inductive exec_step :: "string \<Rightarrow> task_node list \<Rightarrow> exec_state \<Rightarrow> exec_state \<Rightarrow> bool" for plan_id nodes where
  emit: "ready_tasks plan_id nodes s = (ready, s') \<Longrightarrow> exec_step plan_id nodes s s'"
| run: "mark_running plan_id tid s = Inr s' \<Longrightarrow> exec_step plan_id nodes s s'"
| succeed: "mark_succeeded plan_id tid s = Inr s' \<Longrightarrow> exec_step plan_id nodes s s'"
| fail: "mark_failed plan_id tid s = Inr s' \<Longrightarrow> exec_step plan_id nodes s s'"
| cancel: "mark_cancelled plan_id tid s = Inr s' \<Longrightarrow> exec_step plan_id nodes s s'"
| reload: "load_state plan_id (store s) = Inr s' \<Longrightarrow> exec_step plan_id nodes s s'"

definition exec_reach :: "string \<Rightarrow> task_node list \<Rightarrow> exec_state \<Rightarrow> exec_state \<Rightarrow> bool" where
  "exec_reach plan_id nodes = (exec_step plan_id nodes)\<^sup>*\<^sup>*"

definition fresh_exec :: exec_state where
  "fresh_exec = \<lparr>graph = [], store = []\<rparr>"

section \<open>Storing and loading\<close>

lemma parse_status_value [simp]: "parse_status (PStr (status_value s)) = Inr s"
  by (cases s) (simp_all add: parse_status_def all_statuses_def)

lemma parse_statuses_roundtrip:
  "dict_ok (acc @ r) \<Longrightarrow> parse_statuses (map (\<lambda>(tid, s). (tid, PStr (status_value s))) r) acc = Inr (acc @ r)"
proof (induction r arbitrary: acc)
  case (Cons p r)
  obtain tid s where p: "p = (tid, s)" by (cases p)
  have "tid \<notin> fst ` set acc" using Cons.prems by (auto simp: dict_ok_def p)
  then have "AList.update tid s acc = acc @ [(tid, s)]" by (induction acc) auto
  then show ?case using Cons.IH [of "acc @ [(tid, s)]"] Cons.prems by (simp add: p)
qed simp

lemma dget_update [simp]: "dget (AList.update k v d) k = v"
  by (simp add: dget_def update_conv')

lemma store_roundtrip: "dict_ok r \<Longrightarrow> from_store_dict (to_store_dict r) = Inr r"
  using parse_statuses_roundtrip [of "[]" r] by (simp add: from_store_dict_def to_store_dict_def dget_def)

text \<open>A non-empty stored value that is not a dictionary raises, it does not start a fresh state.\<close>

lemma stored_non_dict_raises: "from_store_dict (PStr ''x'') = Inl AttributeError"
  by (simp add: from_store_dict_def)

section \<open>The life cycle\<close>

lemma status_of_set [simp]: "status_of (set_status r t s) t' = (if t = t' then s else status_of r t')"
  by (simp add: status_of_def set_status_def)

lemma dict_ok_set [simp]: "dict_ok r \<Longrightarrow> dict_ok (set_status r t s)"
  by (simp add: set_status_def)

text \<open>The progress of a task: a terminal status is final, and a started task is not ready again.\<close>

definition advances :: "task_status \<Rightarrow> task_status \<Rightarrow> bool" where
  "advances a b \<longleftrightarrow> (a \<in> set TERMINAL_STATUSES \<longrightarrow> b = a) \<and> (a = RUNNING \<longrightarrow> b \<in> set NON_EMITTABLE)"

lemma advances_refl [simp]: "advances a a"
  by (simp add: advances_def NON_EMITTABLE_def)

lemma advances_trans: "advances a b \<Longrightarrow> advances b c \<Longrightarrow> advances a c"
  by (cases a; cases b) (auto simp: advances_def NON_EMITTABLE_def TERMINAL_STATUSES_def)

text \<open>A status that only a released task can have is justified by a node whose dependency succeeded.\<close>

definition released :: "task_node list \<Rightarrow> runtime \<Rightarrow> string \<Rightarrow> bool" where
  "released nodes r t \<longleftrightarrow> (\<exists>n \<in> set nodes. node_id n = t \<and> dependencies_met n r)"

definition justified :: "task_node list \<Rightarrow> runtime \<Rightarrow> bool" where
  "justified nodes r \<longleftrightarrow> (\<forall>t. status_of r t \<in> {READY, RUNNING, SUCCEEDED, FAILED} \<longrightarrow> released nodes r t)"

lemma released_mono:
  assumes "released nodes r t" and "\<And>u. advances (status_of r u) (status_of r' u)"
  shows "released nodes r' t"
proof -
  have "dependencies_met n r'" if "dependencies_met n r" for n
    using that assms(2) by (auto simp: dependencies_met_def COMPLETED_STATUS_def advances_def TERMINAL_STATUSES_def
        split: option.splits)
  then show ?thesis using assms(1) by (auto simp: released_def)
qed

lemma justified_set:
  assumes "justified nodes r" and "advances (status_of r t) st"
    and "st \<in> {READY, RUNNING, SUCCEEDED, FAILED} \<Longrightarrow> released nodes r t"
  shows "justified nodes (set_status r t st)"
proof -
  have "advances (status_of r u) (status_of (set_status r t st) u)" for u using assms(2) by auto
  then have "released nodes r u \<Longrightarrow> released nodes (set_status r t st) u" for u
    using released_mono by blast
  then show ?thesis using assms(1,3) by (auto simp: justified_def split: if_splits)
qed

lemma ready_loop_all:
  "ready_loop ns emitted r = (ready, r') \<Longrightarrow>
    (\<forall>u. advances (status_of r u) (status_of r' u)) \<and> (dict_ok r \<longrightarrow> dict_ok r')
    \<and> (set ns \<subseteq> set nodes \<longrightarrow> justified nodes r \<longrightarrow> justified nodes r')
    \<and> distinct (map rt_id ready)
    \<and> (\<forall>x \<in> set ready. rt_id x \<notin> set emitted \<and> status_of r (rt_id x) \<notin> set NON_EMITTABLE)"
proof (induction ns emitted r arbitrary: ready r' rule: ready_loop.induct)
  case (2 n ns emitted r)
  let ?t = "node_id n" and ?st = "status_of r (node_id n)"
  let ?r1 = "set_status r ?t READY" and ?r2 = "set_status r ?t PENDING"
  have ne: "?st = PENDING \<or> ?st = READY" if "?st \<notin> set NON_EMITTABLE"
    using that by (cases ?st) (auto simp: NON_EMITTABLE_def TERMINAL_STATUSES_def)
  consider (skip) "?st \<in> set NON_EMITTABLE \<or> ?t \<in> set emitted"
    | (emit) "?st \<notin> set NON_EMITTABLE" "?t \<notin> set emitted" "dependencies_met n r"
    | (wait) "?st = PENDING" "?t \<notin> set emitted" "\<not> dependencies_met n r"
    | (keep) "?st = READY" "?t \<notin> set emitted" "\<not> dependencies_met n r"
    using ne by blast
  then show ?case
  proof cases
    case skip
    then have "ready_loop ns emitted r = (ready, r')" using "2.prems" by (auto simp: Let_def split: if_splits)
    then show ?thesis using "2.IH"(1,2) skip by (cases "?st \<in> set NON_EMITTABLE") auto
  next
    case emit
    then obtain rest where l: "ready_loop ns (?t # emitted) ?r1 = (rest, r')" "ready = from_node n # rest"
      using "2.prems" by (auto simp: Let_def split: prod.splits)
    have a: "advances ?st READY" using ne [OF emit(1)] by (auto simp: advances_def TERMINAL_STATUSES_def)
    have j: "justified nodes ?r1" if "set (n # ns) \<subseteq> set nodes" "justified nodes r"
      using that emit(3) by (intro justified_set a) (auto simp: released_def)
    note IH = "2.IH"(3) [OF refl emit(1,2,3) l(1)]
    have adv: "advances (status_of r u) (status_of r' u)" for u
    proof -
      have "advances (status_of r u) (status_of ?r1 u)" using a by auto
      then show ?thesis using IH advances_trans by blast
    qed
    have fresh: "rt_id x \<noteq> ?t \<and> rt_id x \<notin> set emitted \<and> status_of r (rt_id x) \<notin> set NON_EMITTABLE"
      if "x \<in> set rest" for x
      using IH that by (auto split: if_splits)
    have ok: "dict_ok r \<Longrightarrow> dict_ok r'" using IH dict_ok_set by blast
    have just: "justified nodes r'" if "set (n # ns) \<subseteq> set nodes" "justified nodes r"
      using IH j [OF that] that(1) by simp
    have "distinct (map rt_id ready)" using IH fresh l(2) by (force simp: from_node_def)
    moreover have "\<forall>x \<in> set ready. rt_id x \<notin> set emitted \<and> status_of r (rt_id x) \<notin> set NON_EMITTABLE"
      using fresh emit(1,2) l(2) by (auto simp: from_node_def)
    ultimately show ?thesis using adv ok just by blast
  next
    case wait
    then have l: "ready_loop ns emitted ?r2 = (ready, r')"
      using "2.prems" by (simp add: NON_EMITTABLE_def TERMINAL_STATUSES_def)
    have a: "advances ?st PENDING" using wait(1) by simp
    have nn: "?st \<notin> set NON_EMITTABLE" "?st \<noteq> READY" using wait(1) by (simp_all add: NON_EMITTABLE_def TERMINAL_STATUSES_def)
    note IH = "2.IH"(4) [OF refl nn(1) wait(2,3) nn(2) l]
    have eq: "status_of ?r2 u = status_of r u" for u using wait(1) by auto
    have "justified nodes ?r2" if "justified nodes r" using that by (intro justified_set a) simp_all
    moreover have "set ns \<subseteq> set nodes" if "set (n # ns) \<subseteq> set nodes" using that by simp
    ultimately show ?thesis using IH [unfolded eq] dict_ok_set by blast
  next
    case keep
    then have l: "ready_loop ns emitted r = (ready, r')"
      using "2.prems" by (simp add: NON_EMITTABLE_def TERMINAL_STATUSES_def)
    have nn: "?st \<notin> set NON_EMITTABLE" "\<not> ?st \<noteq> READY" using keep(1) by (simp_all add: NON_EMITTABLE_def TERMINAL_STATUSES_def)
    note IH = "2.IH"(5) [OF refl nn(1) keep(2,3) nn(2) l]
    then show ?thesis by auto
  qed
qed simp_all


section \<open>The invariant of a plan\<close>

text \<open>
  The handle is well formed, the store holds it under the plan's id, and every released task has a
  node whose dependency has succeeded.
\<close>

definition exec_inv :: "string \<Rightarrow> task_node list \<Rightarrow> exec_state \<Rightarrow> bool" where
  "exec_inv plan_id nodes s \<longleftrightarrow>
     dict_ok (graph s) \<and> from_store_dict (dget (store s) plan_id) = Inr (graph s) \<and> justified nodes (graph s)"

lemma exec_inv_fresh: "exec_inv p nodes fresh_exec"
  by (simp add: exec_inv_def fresh_exec_def dict_ok_def justified_def status_of_def from_store_dict_def dget_def)

lemma commit_inv:
  assumes "exec_inv p nodes s" and "advances (status_of (graph s) t) st"
    and "st \<in> {READY, RUNNING, SUCCEEDED, FAILED} \<Longrightarrow> status_of (graph s) t \<in> {READY, RUNNING}"
  shows "exec_inv p nodes (commit p t st s) \<and> (\<forall>u. advances (status_of (graph s) u) (status_of (graph (commit p t st s)) u))"
proof -
  have "justified nodes (set_status (graph s) t st)"
    using assms by (intro justified_set) (auto simp: exec_inv_def justified_def)
  then show ?thesis using assms(1,2)
    by (auto simp: exec_inv_def commit_def persist_def Let_def store_roundtrip)
qed

lemma exec_step_inv:
  assumes "exec_step p nodes s s'" and "exec_inv p nodes s"
  shows "exec_inv p nodes s' \<and> (\<forall>u. advances (status_of (graph s) u) (status_of (graph s') u))"
  using assms(1)
proof cases
  case (emit ready)
  then obtain r where l: "ready_loop nodes [] (graph s) = (ready, r)"
      and s': "s' = s\<lparr>graph := r, store := persist p r (store s)\<rparr>"
    by (auto simp: ready_tasks_def split: prod.splits)
  show ?thesis using ready_loop_all [OF l, of nodes] assms(2)
    by (simp add: exec_inv_def s' persist_def store_roundtrip)
next
  case (run tid)
  then show ?thesis using commit_inv [OF assms(2), of tid RUNNING]
    by (auto simp: mark_running_def advances_def TERMINAL_STATUSES_def split: if_splits)
next
  case (succeed tid)
  then show ?thesis using commit_inv [OF assms(2), of tid SUCCEEDED]
    by (auto simp: mark_succeeded_def mark_terminal_def advances_def NON_EMITTABLE_def TERMINAL_STATUSES_def
        split: if_splits)
next
  case (fail tid)
  then show ?thesis using commit_inv [OF assms(2), of tid FAILED]
    by (auto simp: mark_failed_def mark_terminal_def advances_def NON_EMITTABLE_def TERMINAL_STATUSES_def
        split: if_splits)
next
  case (cancel tid)
  then show ?thesis using commit_inv [OF assms(2), of tid CANCELLED]
    by (auto simp: mark_cancelled_def advances_def NON_EMITTABLE_def TERMINAL_STATUSES_def split: if_splits)
next
  case reload
  then have "s' = s" using assms(2) by (cases s) (simp add: load_state_def exec_inv_def)
  then show ?thesis using assms(2) by simp
qed

lemma exec_reach_inv:
  assumes "exec_reach p nodes s s'" and "exec_inv p nodes s"
  shows "exec_inv p nodes s' \<and> (\<forall>u. advances (status_of (graph s) u) (status_of (graph s') u))"
  using assms unfolding exec_reach_def
proof (induction rule: rtranclp_induct)
  case (step a b)
  then show ?case using exec_step_inv [OF step.hyps(2)] advances_trans by blast
qed simp

section \<open>What the executor promises\<close>

definition started :: "task_status \<Rightarrow> bool" where
  "started st \<longleftrightarrow> st \<in> {READY, RUNNING, SUCCEEDED, FAILED}"

text \<open>However the executor of a plan is driven from a fresh start (emitting ready tasks, starting, finishing,
  failing, cancelling, reloading from the store), a task that was offered, started, completed or
  failed belongs to a node of the plan whose dependency, if it names one, has SUCCEEDED: a task
  never runs ahead of its predecessor, and one whose predecessor failed or was cancelled never runs.\<close>
theorem dependencies_respected:
  assumes "exec_reach p nodes fresh_exec s" and "started (status_of (graph s) t)"
  shows "\<exists>n \<in> set nodes. node_id n = t
           \<and> (\<forall>a. node_after n = Some a \<longrightarrow> status_of (graph s) (ref_id a) = SUCCEEDED)"
proof -
  have "released nodes (graph s) t"
    using exec_reach_inv [OF assms(1) exec_inv_fresh] assms(2) unfolding exec_inv_def justified_def started_def by blast
  then show ?thesis by (fastforce simp: released_def dependencies_met_def COMPLETED_STATUS_def)
qed

definition pick :: task_node where
  "pick = \<lparr>node_id = ''pick'', node_robot = ''bot1'', node_action = ''navigate'', node_target = Some ''shelf_1'',
     node_after = None\<rparr>"

definition drop_off :: task_node where
  "drop_off = \<lparr>node_id = ''drop'', node_robot = ''bot1'', node_action = ''navigate'',
     node_target = Some ''dropoff_1'', node_after = Some ''pick.completed''\<rparr>"

text \<open>A concrete history: the first task is offered, started and completed, which offers the second.\<close>

definition ex_plan :: "task_node list" where
  "ex_plan = [pick, drop_off]"

definition ex1 :: exec_state where
  "ex1 = snd (ready_tasks ''p1'' ex_plan fresh_exec)"

definition ex2 :: exec_state where
  "ex2 = commit ''p1'' ''pick'' RUNNING ex1"

definition ex3 :: exec_state where
  "ex3 = commit ''p1'' ''pick'' SUCCEEDED ex2"

definition ex4 :: exec_state where
  "ex4 = snd (ready_tasks ''p1'' ex_plan ex3)"


text \<open>The empty history and the steps of the example.\<close>

lemma ex_steps:
  "exec_step ''p1'' ex_plan fresh_exec ex1" "exec_step ''p1'' ex_plan ex1 ex2"
  "exec_step ''p1'' ex_plan ex2 ex3" "exec_step ''p1'' ex_plan ex3 ex4"
proof -
  show "exec_step ''p1'' ex_plan fresh_exec ex1" by (rule exec_step.emit [of _ _ _ "fst (ready_tasks ''p1'' ex_plan fresh_exec)"]) (simp add: ex1_def)
  show "exec_step ''p1'' ex_plan ex1 ex2" by (rule exec_step.run [of _ "''pick''"]) code_simp
  show "exec_step ''p1'' ex_plan ex2 ex3" by (rule exec_step.succeed [of _ "''pick''"]) code_simp
  show "exec_step ''p1'' ex_plan ex3 ex4" by (rule exec_step.emit [of _ _ _ "fst (ready_tasks ''p1'' ex_plan ex3)"]) (simp add: ex4_def)
qed

lemma exec_reach_step: "exec_reach p nodes s s' \<Longrightarrow> exec_step p nodes s' s'' \<Longrightarrow> exec_reach p nodes s s''"
  by (simp add: exec_reach_def)

lemma exec_reach_refl: "exec_reach p nodes s s"
  by (simp add: exec_reach_def)

lemmas ex_reach1 = exec_reach_step [OF exec_reach_refl ex_steps(1)]
lemmas ex_reach4 = exec_reach_step [OF exec_reach_step [OF exec_reach_step [OF ex_reach1 ex_steps(2)] ex_steps(3)] ex_steps(4)]
lemmas ex_reach24 = exec_reach_step [OF exec_reach_step [OF exec_reach_refl ex_steps(3)] ex_steps(4)]

theorem dependencies_respected_witness:
  "status_of (graph ex4) ''pick'' = SUCCEEDED"
proof -
  have "started (status_of (graph ex4) ''drop'')" by code_simp
  from dependencies_respected [OF ex_reach4 this] show ?thesis
    by (simp add: ex_plan_def pick_def drop_off_def ref_id_def)
qed

text \<open>A task is started at most once: after a successful mark_running, whatever happens next (the task
  finishing, failing, being cancelled, the state being reloaded from the store), a second
  mark_running of it raises and no later cycle offers it again.\<close>
theorem no_double_start:
  assumes "exec_reach p nodes fresh_exec s" and "mark_running p t s = Inr s1" and "exec_reach p nodes s1 s2"
  shows "mark_running p t s2 = Inl ValueError \<and> t \<notin> rt_id ` set (fst (ready_tasks p nodes s2))"
proof -
  have "exec_inv p nodes s1" "status_of (graph s1) t = RUNNING"
    using exec_step_inv [OF exec_step.run [OF assms(2)]] exec_reach_inv [OF assms(1) exec_inv_fresh] assms(2)
    by (auto simp: mark_running_def commit_def Let_def split: if_splits)
  then have ne: "status_of (graph s2) t \<in> set NON_EMITTABLE"
    using exec_reach_inv [OF assms(3)] by (auto simp: advances_def)
  obtain ready r' where l: "ready_loop nodes [] (graph s2) = (ready, r')" by fastforce
  then have "t \<notin> rt_id ` set ready" using ready_loop_all [OF l, of nodes] ne by auto
  then show ?thesis using l ne by (auto simp: mark_running_def ready_tasks_def NON_EMITTABLE_def TERMINAL_STATUSES_def)
qed

theorem no_double_start_witness:
  "mark_running ''p1'' ''pick'' ex4 = Inl ValueError \<and> ''pick'' \<notin> rt_id ` set (fst (ready_tasks ''p1'' ex_plan ex4))"
proof (rule no_double_start [where s = ex1 and ?s1.0 = ex2, OF ex_reach1 _ ex_reach24])
  show "mark_running ''p1'' ''pick'' ex1 = Inr ex2" by code_simp
qed

text \<open>C39. A restart loses nothing: at every point of a plan's execution, loading the plan from the store gives
  back exactly the state held in memory.\<close>
theorem restart_transparent:
  assumes "exec_reach p nodes fresh_exec s"
  shows "load_state p (store s) = Inr s"
  using exec_reach_inv [OF assms exec_inv_fresh] by (cases s) (simp add: exec_inv_def load_state_def)

theorem restart_transparent_witness: "load_state ''p1'' (store ex4) = Inr ex4"
  by (rule restart_transparent [OF ex_reach4])

end
