(* ===== verification/PlanValidator.thy ===== *)
theory PlanValidator
  imports TaskGraph
begin

text \<open>
  The plan validator of the L3 planning core, \<open>robotics_planning_core/validator/\<close>: the report and
  its aggregation (\<open>report.py\<close>), the policy (\<open>policy.py\<close>), the semantic checks and Kahn's cycle test
  (\<open>validator.py\<close>). Parsing the raw plan is pydantic's, so a plan is its parsed record. Operator
  messages and debug texts are left out; every rule the validator emits has severity error.
\<close>

section \<open>The report\<close>

datatype dispatch_effect = BLOCK | NEEDS_CLARIFICATION | EMERGENCY_STOP | NO_EFFECT

datatype validation_status = ACCEPTED | REJECTED | CLARIFICATION_STATUS | EMERGENCY_STATUS

datatype validation_code =
    UNKNOWN_ROBOT | UNKNOWN_ACTION | UNKNOWN_TARGET | LOW_CONFIDENCE_TARGET | INVALID_AFTER_REFERENCE
  | TASK_GRAPH_CYCLE | CYCLE_STATE_STALE | EMERGENCY_ACTIVE | OPERATOR_CLARIFICATION_REQUESTED

record rule_result =
  code :: validation_code
  field_path :: string
  dispatch_effect :: dispatch_effect

fun effect_to_status :: "dispatch_effect \<Rightarrow> validation_status option" where
  "effect_to_status EMERGENCY_STOP = Some EMERGENCY_STATUS"
| "effect_to_status BLOCK = Some REJECTED"
| "effect_to_status NEEDS_CLARIFICATION = Some CLARIFICATION_STATUS"
| "effect_to_status NO_EFFECT = None"

fun status_priority :: "validation_status \<Rightarrow> nat" where
  "status_priority ACCEPTED = 0"
| "status_priority CLARIFICATION_STATUS = 1"
| "status_priority REJECTED = 2"
| "status_priority EMERGENCY_STATUS = 3"

fun aggregate_from :: "validation_status \<Rightarrow> rule_result list \<Rightarrow> validation_status" where
  "aggregate_from st [] = st"
| "aggregate_from st (r # rs) =
     (case effect_to_status (dispatch_effect r) of
        None \<Rightarrow> aggregate_from st rs
      | Some forced \<Rightarrow> aggregate_from (if status_priority forced > status_priority st then forced else st) rs)"

definition aggregate_status :: "rule_result list \<Rightarrow> validation_status" where
  "aggregate_status = aggregate_from ACCEPTED"

section \<open>Plans, policies and contexts\<close>

record detection =
  det_id :: string
  det_color :: "string option"
  det_pixel :: "int list"
  confidence :: "pyfloat option"

record plan_draft =
  plan_id :: string
  detections :: "detection list"
  task_graph :: "task_node list"
  operator_clarification_required :: bool

record plan_policy =
  known_robots :: "string list"
  known_locations :: "string list"
  allowed_actions :: "string list"
  emergency_stop_allowlist :: "string list"
  min_detection_confidence :: "pyfloat option"
  low_confidence_effect :: dispatch_effect
  max_state_age_s :: "pyfloat option"
  profile_id :: string
  policy_version :: string

text \<open>The field validator of \<open>low_confidence_effect\<close>.\<close>

definition make_policy :: "plan_policy \<Rightarrow> plan_policy result" where
  "make_policy p =
     (if low_confidence_effect p \<notin> {BLOCK, NEEDS_CLARIFICATION} then Inl ValueError else Inr p)"

record planning_context =
  policy :: plan_policy
  emergency_active :: bool
  state_age_s :: "pyfloat option"

record validation_report =
  status :: validation_status
  errors :: "rule_result list"
  warnings :: "rule_result list"
  normalized_plan :: "plan_draft option"

definition permits_dispatch :: "validation_report \<Rightarrow> bool" where
  "permits_dispatch rep \<longleftrightarrow> status rep = ACCEPTED"

definition command_candidates :: "validation_report \<Rightarrow> task_node list" where
  "command_candidates rep =
     (if \<not> permits_dispatch rep then []
      else case normalized_plan rep of None \<Rightarrow> [] | Some p \<Rightarrow> task_graph p)"

definition from_rules :: "rule_result list \<Rightarrow> plan_draft \<Rightarrow> validation_report" where
  "from_rules rules plan =
     (let st = aggregate_status rules in
      \<lparr>status = st, errors = filter (\<lambda>r. dispatch_effect r \<noteq> NO_EFFECT) rules,
        warnings = filter (\<lambda>r. dispatch_effect r = NO_EFFECT) rules,
        normalized_plan = (if st = ACCEPTED then Some plan else None)\<rparr>)"

section \<open>Kahn's cycle test\<close>

text \<open>
  \<open>deps\<close> maps a task to the set of tasks it waits for, here a list without duplicates. The
  stack \<open>ready\<close> is popped and appended at its end, as in the code; a lookup of an absent key raises.
\<close>

type_synonym deps = "(string, string list) pydict"
type_synonym degrees = "(string, int) pydict"

definition in_degrees :: "deps \<Rightarrow> degrees" where
  "in_degrees ds = map (\<lambda>(n, refs). (n, int (length refs))) ds"

definition add_dependent :: "string \<Rightarrow> deps \<Rightarrow> string \<Rightarrow> deps" where
  "add_dependent n out ref = AList.map_entry ref (\<lambda>xs. xs @ [n]) out"

definition dependents :: "deps \<Rightarrow> deps" where
  "dependents ds =
     foldl (\<lambda>out (n, refs). foldl (add_dependent n) out refs) (map (\<lambda>(n, _). (n, [])) ds) ds"

fun release :: "string list \<Rightarrow> degrees \<Rightarrow> string list \<Rightarrow> (degrees \<times> string list) result" where
  "release [] d ready = Inr (d, ready)"
| "release (x # xs) d ready =
     (case map_of d x of
        None \<Rightarrow> Inl KeyError
      | Some k \<Rightarrow>
          let k' = k - 1 in
          release xs (AList.update x k' d) (if k' = 0 then ready @ [x] else ready))"

text \<open>Every round takes a task off the stack or turns a positive degree into zero.\<close>

definition open_degrees :: "degrees \<Rightarrow> nat" where
  "open_degrees d = length (filter (\<lambda>(_, k). 0 < k) d)"

lemma open_degrees_update:
  "map_of d x = Some k \<Longrightarrow>
     open_degrees (AList.update x (k - 1) d) + (if k = 1 then 1 else 0) \<le> open_degrees d"
  by (induction d) (auto simp: open_degrees_def split: if_splits)

lemma release_measure:
  "release xs d ready = Inr (d', ready') \<Longrightarrow> length ready' + open_degrees d' \<le> length ready + open_degrees d"
proof (induction xs d ready rule: release.induct)
  case (2 x xs d ready)
  then obtain k where k: "map_of d x = Some k" by (auto split: option.splits)
  let ?d = "AList.update x (k - 1) d" and ?ready = "if k - 1 = 0 then ready @ [x] else ready"
  have "length ready' + open_degrees d' \<le> length ?ready + open_degrees ?d"
    using "2.IH" [OF k refl] "2.prems" k by simp
  then show ?case using open_degrees_update [OF k] by (auto split: if_splits)
qed simp

lemma bindR_cong [fundef_cong]:
  "r = r' \<Longrightarrow> (\<And>x. r' = Inr x \<Longrightarrow> f x = g x) \<Longrightarrow> bindR r f = bindR r' g"
  by (cases r') auto

function kahn_loop :: "deps \<Rightarrow> degrees \<Rightarrow> string list \<Rightarrow> nat \<Rightarrow> nat result" where
  "kahn_loop deps d ready processed =
     (if ready = [] then Inr processed
      else case map_of deps (last ready) of
          None \<Rightarrow> Inl KeyError
        | Some ds \<Rightarrow>
            bindR (release ds d (butlast ready)) (\<lambda>(d', ready'). kahn_loop deps d' ready' (processed + 1)))"
  by pat_completeness auto
termination
  by (relation "measure (\<lambda>(_, d, ready, _). length ready + open_degrees d)")
    (auto dest!: release_measure simp: length_greater_0_conv [symmetric] simp del: length_greater_0_conv)

declare kahn_loop.simps [simp del]

definition has_cycle :: "deps \<Rightarrow> bool result" where
  "has_cycle ds =
     (let d = in_degrees ds; ready = map fst (filter (\<lambda>(_, k). k = 0) d) in
      bindR (kahn_loop (dependents ds) d ready 0) (\<lambda>processed. Inr (processed < length ds)))"

section \<open>The semantic checks\<close>

text \<open>A rule of a task names its place in the plan, as in \<open>task_graph[0].robot\<close>.\<close>

definition base_path :: "nat \<Rightarrow> string" where
  "base_path i = ''task_graph['' @ decimal i @ '']''"

definition check_emergency_active :: "planning_context \<Rightarrow> rule_result list" where
  "check_emergency_active ctx =
     (if \<not> emergency_active ctx then []
      else [\<lparr>code = EMERGENCY_ACTIVE, field_path = ''context.runtime.emergency_active'', dispatch_effect = EMERGENCY_STOP\<rparr>])"

definition check_state_freshness :: "planning_context \<Rightarrow> rule_result list" where
  "check_state_freshness ctx =
     (case max_state_age_s (policy ctx) of
        None \<Rightarrow> []
      | Some max_age \<Rightarrow>
          if (case state_age_s ctx of None \<Rightarrow> False | Some age \<Rightarrow> age \<le> max_age) then []
          else [\<lparr>code = CYCLE_STATE_STALE, field_path = ''context.runtime.state_age_s'', dispatch_effect = BLOCK\<rparr>])"

definition check_clarification :: "plan_draft \<Rightarrow> rule_result list" where
  "check_clarification draft =
     (if \<not> operator_clarification_required draft then []
      else [\<lparr>code = OPERATOR_CLARIFICATION_REQUESTED, field_path = ''operator_clarification_required'',
             dispatch_effect = NEEDS_CLARIFICATION\<rparr>])"

definition check_robot :: "task_node \<Rightarrow> plan_policy \<Rightarrow> string \<Rightarrow> rule_result list" where
  "check_robot n pol base =
     (if node_robot n \<in> set (known_robots pol) then []
      else [\<lparr>code = UNKNOWN_ROBOT, field_path = base @ ''.robot'', dispatch_effect = BLOCK\<rparr>])"

definition check_action :: "task_node \<Rightarrow> plan_policy \<Rightarrow> string \<Rightarrow> rule_result list" where
  "check_action n pol base =
     (if node_action n \<in> set (allowed_actions pol) then []
      else [\<lparr>code = UNKNOWN_ACTION, field_path = base @ ''.action'', dispatch_effect = BLOCK\<rparr>])"

definition check_target :: "task_node \<Rightarrow> string list \<Rightarrow> plan_policy \<Rightarrow> string \<Rightarrow> rule_result list" where
  "check_target n detection_ids pol base =
     (case node_target n of
        None \<Rightarrow> []
      | Some target \<Rightarrow>
          if target \<in> set detection_ids \<or> target \<in> set (known_locations pol) then []
          else [\<lparr>code = UNKNOWN_TARGET, field_path = base @ ''.target'', dispatch_effect = BLOCK\<rparr>])"

definition check_confidence ::
  "task_node \<Rightarrow> (string, detection) pydict \<Rightarrow> plan_policy \<Rightarrow> string \<Rightarrow> rule_result list" where
  "check_confidence n by_id pol base =
     (case (min_detection_confidence pol, node_target n) of
        (Some threshold, Some target) \<Rightarrow>
          (case map_of by_id target of
             None \<Rightarrow> []
           | Some det \<Rightarrow>
               if (case confidence det of None \<Rightarrow> False | Some c \<Rightarrow> threshold \<le> c) then []
               else [\<lparr>code = LOW_CONFIDENCE_TARGET, field_path = base @ ''.target'',
                      dispatch_effect = low_confidence_effect pol\<rparr>])
      | _ \<Rightarrow> [])"

definition check_after_reference :: "task_node \<Rightarrow> string list \<Rightarrow> string \<Rightarrow> rule_result list" where
  "check_after_reference n task_ids base =
     (case node_after n of
        None \<Rightarrow> []
      | Some after \<Rightarrow>
          if ref_id after \<noteq> [] \<and> ref_id after \<in> set task_ids \<and> ref_id after \<noteq> node_id n then []
          else [\<lparr>code = INVALID_AFTER_REFERENCE, field_path = base @ ''.after'', dispatch_effect = BLOCK\<rparr>])"

text \<open>The resolvable references of the plan; a set keeps one copy of an element.\<close>

definition set_add :: "'a \<Rightarrow> 'a list \<Rightarrow> 'a list" where
  "set_add x xs = (if x \<in> set xs then xs else xs @ [x])"

definition init_dep :: "deps \<Rightarrow> task_node \<Rightarrow> deps" where
  "init_dep d n = AList.update (node_id n) [] d"

definition add_ref :: "string list \<Rightarrow> deps \<Rightarrow> task_node \<Rightarrow> deps" where
  "add_ref task_ids ds n =
     (case node_after n of
        None \<Rightarrow> ds
      | Some after \<Rightarrow>
          if ref_id after \<in> set task_ids \<and> ref_id after \<noteq> node_id n
          then AList.map_entry (node_id n) (set_add (ref_id after)) ds
          else ds)"

definition build_deps :: "task_node list \<Rightarrow> string list \<Rightarrow> deps" where
  "build_deps nodes task_ids =
     foldl (add_ref task_ids) (foldl init_dep [] nodes) nodes"

definition check_cycle :: "plan_draft \<Rightarrow> string list \<Rightarrow> rule_result list result" where
  "check_cycle draft task_ids =
     bindR (has_cycle (build_deps (task_graph draft) task_ids)) (\<lambda>cyclic.
       Inr (if \<not> cyclic then []
            else [\<lparr>code = TASK_GRAPH_CYCLE, field_path = ''task_graph'', dispatch_effect = BLOCK\<rparr>]))"

definition detections_by_id :: "plan_draft \<Rightarrow> (string, detection) pydict" where
  "detections_by_id draft = foldl (\<lambda>d x. AList.update (det_id x) x d) [] (detections draft)"

definition check_node :: "plan_draft \<Rightarrow> plan_policy \<Rightarrow> nat \<Rightarrow> task_node \<Rightarrow> rule_result list" where
  "check_node draft pol i n =
     (let base = base_path i; detection_ids = map det_id (detections draft);
          task_ids = map node_id (task_graph draft) in
      check_robot n pol base @ check_action n pol base @ check_target n detection_ids pol base
      @ check_confidence n (detections_by_id draft) pol base @ check_after_reference n task_ids base)"

definition check_task_graph :: "plan_draft \<Rightarrow> plan_policy \<Rightarrow> rule_result list result" where
  "check_task_graph draft pol =
     bindR (check_cycle draft (map node_id (task_graph draft))) (\<lambda>cycle.
       Inr (concat (map (\<lambda>(i, n). check_node draft pol i n) (enumerate 0 (task_graph draft))) @ cycle))"

definition validate :: "plan_draft \<Rightarrow> planning_context \<Rightarrow> validation_report result" where
  "validate draft ctx =
     bindR (check_task_graph draft (policy ctx)) (\<lambda>graph_rules.
       Inr (from_rules (check_emergency_active ctx @ check_state_freshness ctx @ check_clarification draft @ graph_rules) draft))"

section \<open>Kahn's test is correct\<close>

definition refs_of :: "deps \<Rightarrow> string \<Rightarrow> string set" where
  "refs_of ds n = (case map_of ds n of None \<Rightarrow> {} | Some refs \<Rightarrow> set refs)"

definition task_keys :: "deps \<Rightarrow> string set" where
  "task_keys ds = fst ` set ds"

definition deps_ok :: "deps \<Rightarrow> bool" where
  "deps_ok ds \<longleftrightarrow> dict_ok ds \<and> (\<forall>(n, refs) \<in> set ds. distinct refs \<and> set refs \<subseteq> task_keys ds)"

definition edges :: "deps \<Rightarrow> (string \<times> string) set" where
  "edges ds = {(r, n). r \<in> refs_of ds n}"

definition waiters :: "deps \<Rightarrow> string \<Rightarrow> string list" where
  "waiters ds m = map fst (filter (\<lambda>(n, refs). m \<in> set refs) ds)"

lemma map_of_add_dependents:
  "distinct refs \<Longrightarrow> map_of (foldl (add_dependent n) out refs) m =
     map_option (\<lambda>xs. xs @ (if m \<in> set refs then [n] else [])) (map_of out m)"
proof (induction refs arbitrary: out)
  case (Cons r refs)
  then show ?case
    by (auto simp: add_dependent_def map_of_map_entry option.map_comp comp_def split: option.splits)
qed (simp add: option.map_ident)

lemma map_of_dependents_fold:
  "\<forall>(n, refs) \<in> set ds. distinct refs \<Longrightarrow>
   map_of (foldl (\<lambda>out (n, refs). foldl (add_dependent n) out refs) out ds) m =
     map_option (\<lambda>xs. xs @ waiters ds m) (map_of out m)"
proof (induction ds arbitrary: out)
  case (Cons p ds)
  then show ?case
    by (cases p) (auto simp: waiters_def map_of_add_dependents option.map_comp comp_def)
qed (simp add: waiters_def option.map_ident)

lemma map_of_dependents:
  assumes "deps_ok ds"
  shows "map_of (dependents ds) m = (if m \<in> task_keys ds then Some (waiters ds m) else None)"
proof -
  have d: "\<forall>(n, refs) \<in> set ds. distinct refs" using assms by (auto simp: deps_ok_def)
  have "map_of (map (\<lambda>(n, _). (n, [] :: string list)) ds) m = (if m \<in> fst ` set ds then Some [] else None)"
    by (induction ds) auto
  then show ?thesis by (simp add: task_keys_def dependents_def map_of_dependents_fold [OF d])
qed

lemma waiters_props:
  assumes "deps_ok ds"
  shows "distinct (waiters ds m)" and "set (waiters ds m) = {n. m \<in> refs_of ds n}"
proof -
  have ok: "dict_ok ds" using assms by (simp add: deps_ok_def)
  show "distinct (waiters ds m)"
    using dict_ok_filter [OF ok, of "\<lambda>(n, refs). m \<in> set refs"] by (simp add: waiters_def dict_ok_def)
  show "set (waiters ds m) = {n. m \<in> refs_of ds n}"
  proof (intro set_eqI)
    fix n
    have "n \<in> set (waiters ds m) \<longleftrightarrow> (\<exists>refs. (n, refs) \<in> set ds \<and> m \<in> set refs)"
      by (force simp: waiters_def)
    then show "n \<in> set (waiters ds m) \<longleftrightarrow> n \<in> {n. m \<in> refs_of ds n}"
      by (auto simp: refs_of_def dict_lookup [OF ok] split: option.splits)
  qed
qed

lemma release_spec:
  "distinct xs \<Longrightarrow> set xs \<subseteq> dom (map_of d) \<Longrightarrow>
   \<exists>d'. release xs d ready = Inr (d', ready @ filter (\<lambda>x. map_of d x = Some 1) xs)
        \<and> (\<forall>n. map_of d' n = (if n \<in> set xs then map_option (\<lambda>k. k - 1) (map_of d n) else map_of d n))"
proof (induction xs arbitrary: d ready)
  case (Cons x xs)
  then obtain k where k: "map_of d x = Some k" by auto
  let ?d = "AList.update x (k - 1) d" and ?ready = "if k - 1 = 0 then ready @ [x] else ready"
  have "distinct xs" "set xs \<subseteq> dom (map_of ?d)" using Cons.prems by auto
  from Cons.IH [OF this, of ?ready] obtain d' where
    "release xs ?d ?ready = Inr (d', ?ready @ filter (\<lambda>x. map_of ?d x = Some 1) xs)"
    and m: "\<And>n. map_of d' n = (if n \<in> set xs then map_option (\<lambda>k. k - 1) (map_of ?d n) else map_of ?d n)"
    by blast
  moreover have "filter (\<lambda>y. map_of ?d y = Some 1) xs = filter (\<lambda>y. map_of d y = Some 1) xs"
    using Cons.prems by (intro filter_cong) auto
  ultimately show ?case using k Cons.prems(1) by (auto simp: Let_def)
qed simp

text \<open>
  \<open>D\<close> lists the tasks already processed. A task's degree counts the tasks it still waits for, it is on the
  stack or processed exactly when it waits only for processed ones, and \<open>rank\<close> orders the
  processed ones.
\<close>

definition kahn_inv :: "deps \<Rightarrow> string list \<Rightarrow> degrees \<Rightarrow> string list \<Rightarrow> bool" where
  "kahn_inv ds D d ready \<longleftrightarrow>
     distinct (D @ ready) \<and> set (D @ ready) \<subseteq> task_keys ds
     \<and> (\<forall>n \<in> task_keys ds. map_of d n = Some (int (card (refs_of ds n - set D))))
     \<and> (\<forall>n \<in> task_keys ds. n \<in> set (D @ ready) \<longleftrightarrow> refs_of ds n \<subseteq> set D)
     \<and> (\<exists>rank :: string \<Rightarrow> nat. (\<forall>x \<in> set D. rank x < length D)
          \<and> (\<forall>(a, b) \<in> edges ds. b \<in> set D \<longrightarrow> rank a < rank b))"

lemma finite_refs [simp]: "finite (refs_of ds n)"
  by (simp add: refs_of_def split: option.splits)

lemma refs_keys:
  assumes "deps_ok ds"
  shows "refs_of ds n \<subseteq> task_keys ds" and "m \<in> refs_of ds n \<Longrightarrow> n \<in> task_keys ds"
proof -
  have "(n, refs) \<in> set ds \<Longrightarrow> set refs \<subseteq> task_keys ds" for refs using assms by (auto simp: deps_ok_def)
  then show "refs_of ds n \<subseteq> task_keys ds" by (auto simp: refs_of_def dest!: map_of_SomeD split: option.splits)
  show "m \<in> refs_of ds n \<Longrightarrow> n \<in> task_keys ds"
    by (force simp: refs_of_def task_keys_def dest: map_of_SomeD split: option.splits)
qed

lemma card_1_mem: "c \<in> S \<Longrightarrow> card S = 1 \<longleftrightarrow> S = {c}"
  by (auto simp: card_1_singleton_iff)

lemma kahn_step:
  assumes ok: "deps_ok ds" and inv: "kahn_inv ds D d (rs @ [c])"
    and d': "\<And>n. map_of d' n = (if n \<in> set (waiters ds c) then map_option (\<lambda>k. k - 1) (map_of d n) else map_of d n)"
  shows "kahn_inv ds (D @ [c]) d' (rs @ filter (\<lambda>x. map_of d x = Some 1) (waiters ds c))"
proof -
  let ?new = "filter (\<lambda>x. map_of d x = Some 1) (waiters ds c)"
  note w = waiters_props [OF ok, of c]
  have c: "c \<notin> set D" "c \<notin> set rs" "c \<in> task_keys ds" and dist: "distinct (D @ rs)"
    and keys: "set (D @ rs) \<subseteq> task_keys ds"
    using inv by (auto simp: kahn_inv_def)
  have deg: "map_of d n = Some (int (card (refs_of ds n - set D)))" if "n \<in> task_keys ds" for n
    using inv that unfolding kahn_inv_def by blast
  have mem: "n \<in> set D \<or> n \<in> set rs \<or> n = c \<longleftrightarrow> refs_of ds n \<subseteq> set D" if "n \<in> task_keys ds" for n
  proof -
    have "n \<in> set (D @ rs @ [c]) \<longleftrightarrow> refs_of ds n \<subseteq> set D" using inv that unfolding kahn_inv_def by blast
    then show ?thesis by auto
  qed
  have wk: "set (waiters ds c) \<subseteq> task_keys ds" using w(2) refs_keys(2) [OF ok] by auto
  have new: "n \<in> set ?new \<longleftrightarrow> c \<in> refs_of ds n \<and> refs_of ds n \<subseteq> insert c (set D)" if n: "n \<in> task_keys ds" for n
  proof -
    have "card (refs_of ds n - set D) = 1 \<longleftrightarrow> refs_of ds n - set D = {c}" if "c \<in> refs_of ds n"
      using that c(1) by (intro card_1_mem) simp
    moreover have "refs_of ds n - set D = {c} \<longleftrightarrow> refs_of ds n \<subseteq> insert c (set D)" if "c \<in> refs_of ds n"
      using that c(1) by blast
    moreover have "map_of d n = Some 1 \<longleftrightarrow> card (refs_of ds n - set D) = 1" using deg [OF n] by simp
    ultimately show ?thesis using w(2) by (simp only: set_filter mem_Collect_eq) blast
  qed
  have "map_of d' n = Some (int (card (refs_of ds n - set (D @ [c]))))" if n: "n \<in> task_keys ds" for n
  proof (cases "c \<in> refs_of ds n")
    case True
    have "card (insert c (refs_of ds n - set (D @ [c]))) = Suc (card (refs_of ds n - set (D @ [c])))"
      by (rule card_insert_disjoint) simp_all
    moreover have "insert c (refs_of ds n - set (D @ [c])) = refs_of ds n - set D" using True c(1) by auto
    ultimately have "card (refs_of ds n - set D) = Suc (card (refs_of ds n - set (D @ [c])))" by argo
    moreover have "map_of d' n = map_option (\<lambda>k. k - 1) (map_of d n)" using d' [of n] w(2) True by simp
    ultimately show ?thesis using deg [OF n] by (simp del: set_append)
  next
    case False
    then have "refs_of ds n - set (D @ [c]) = refs_of ds n - set D" by auto
    moreover have "map_of d' n = map_of d n" using d' [of n] w(2) False by simp
    ultimately show ?thesis using deg [OF n] by (simp del: set_append)
  qed
  moreover have "n \<in> set ((D @ [c]) @ rs @ ?new) \<longleftrightarrow> refs_of ds n \<subseteq> set (D @ [c])" if n: "n \<in> task_keys ds" for n
  proof -
    have "n \<in> set ((D @ [c]) @ rs @ ?new) \<longleftrightarrow> (n \<in> set D \<or> n \<in> set rs \<or> n = c) \<or> n \<in> set ?new"
      unfolding set_append by auto
    also have "\<dots> \<longleftrightarrow> refs_of ds n \<subseteq> insert c (set D)" unfolding mem [OF n] new [OF n] by blast
    finally show ?thesis by simp
  qed
  moreover have "distinct ((D @ [c]) @ rs @ ?new)"
  proof -
    have "x \<notin> set D \<and> x \<notin> set rs \<and> x \<noteq> c" if x: "x \<in> set ?new" for x
    proof -
      have k: "x \<in> task_keys ds" using x wk by auto
      then have "c \<in> refs_of ds x" using x new by blast
      then show ?thesis using mem [OF k] c(1) by blast
    qed
    then have "set (D @ rs @ [c]) \<inter> set ?new = {}" by auto
    then show ?thesis using dist c w(1) unfolding distinct_append by auto
  qed
  moreover have "set ((D @ [c]) @ rs @ ?new) \<subseteq> task_keys ds" using keys c(3) wk by auto
  moreover have "\<exists>rank :: string \<Rightarrow> nat. (\<forall>x \<in> set (D @ [c]). rank x < length (D @ [c]))
      \<and> (\<forall>(a, b) \<in> edges ds. b \<in> set (D @ [c]) \<longrightarrow> rank a < rank b)"
  proof -
    obtain rank :: "string \<Rightarrow> nat" where r: "\<forall>x \<in> set D. rank x < length D"
        "\<forall>(a, b) \<in> edges ds. b \<in> set D \<longrightarrow> rank a < rank b"
      using inv by (auto simp: kahn_inv_def)
    have "a \<in> set D" if "(a, b) \<in> edges ds" "b \<in> set (D @ [c])" for a b
      using that mem [of b] c(3) keys by (auto simp: edges_def)
    with r c(1) show ?thesis by (intro exI [of _ "rank(c := length D)"]) (fastforce simp: less_Suc_eq)
  qed
  ultimately show ?thesis unfolding kahn_inv_def by blast
qed

lemma kahn_round:
  assumes ok: "deps_ok ds" and inv: "kahn_inv ds D d (rs @ [c])"
  shows "\<exists>d' ready'. kahn_inv ds (D @ [c]) d' ready' \<and> length D < length ds
    \<and> kahn_loop (dependents ds) d (rs @ [c]) k = kahn_loop (dependents ds) d' ready' (k + 1)"
proof -
  note w = waiters_props [OF ok, of c]
  have "set (waiters ds c) \<subseteq> task_keys ds" using w(2) refs_keys(2) [OF ok] by auto
  then have "set (waiters ds c) \<subseteq> dom (map_of d)" using inv unfolding kahn_inv_def by blast
  from release_spec [OF w(1) this, of rs] obtain d' where
    r: "release (waiters ds c) d rs = Inr (d', rs @ filter (\<lambda>x. map_of d x = Some 1) (waiters ds c))"
    and d': "\<And>n. map_of d' n = (if n \<in> set (waiters ds c) then map_option (\<lambda>k. k - 1) (map_of d n) else map_of d n)"
    by blast
  have c: "c \<in> task_keys ds" and D: "distinct (D @ [c])" "set (D @ [c]) \<subseteq> task_keys ds"
    using inv by (auto simp: kahn_inv_def)
  have "card (set (D @ [c])) \<le> card (task_keys ds)" using D(2) by (rule card_mono [rotated]) (simp add: task_keys_def)
  moreover have "card (task_keys ds) \<le> length ds"
    unfolding task_keys_def using card_length [of "map fst ds"] by simp
  ultimately have "length D < length ds" using distinct_card [OF D(1)] by simp
  moreover have "kahn_loop (dependents ds) d (rs @ [c]) k
      = kahn_loop (dependents ds) d' (rs @ filter (\<lambda>x. map_of d x = Some 1) (waiters ds c)) (k + 1)"
    by (subst kahn_loop.simps) (simp add: map_of_dependents [OF ok] c r)
  ultimately show ?thesis using kahn_step [OF ok inv d'] by blast
qed

lemma kahn_loop_ends:
  assumes "deps_ok ds"
  shows "kahn_inv ds D d ready \<Longrightarrow>
    \<exists>D' d'. kahn_loop (dependents ds) d ready (length D) = Inr (length D') \<and> kahn_inv ds D' d' []"
proof (induction "length ds - length D" arbitrary: D d ready rule: less_induct)
  case less
  show ?case
  proof (cases ready rule: rev_cases)
    case Nil
    then show ?thesis using less.prems by (subst kahn_loop.simps) auto
  next
    case (snoc rs c)
    from kahn_round [OF assms less.prems [unfolded snoc], of "length D"] obtain d' ready' where
      r: "kahn_inv ds (D @ [c]) d' ready'" "length D < length ds"
        "kahn_loop (dependents ds) d (rs @ [c]) (length D) = kahn_loop (dependents ds) d' ready' (length (D @ [c]))"
      by auto
    from less.hyps [OF _ r(1)] r(2) show ?thesis by (simp add: snoc r(3) diff_less_mono2)
  qed
qed

lemma kahn_start:
  assumes "deps_ok ds"
  shows "kahn_inv ds [] (in_degrees ds) (map fst (filter (\<lambda>(_, k). k = 0) (in_degrees ds)))"
proof -
  have ok: "dict_ok ds" using assms by (simp add: deps_ok_def)
  have dk: "dict_ok (in_degrees ds)" using ok by (simp add: dict_ok_def in_degrees_def comp_def split_def)
  have m: "map_of (in_degrees ds) n = map_option (\<lambda>refs. int (length refs)) (map_of ds n)" for n
    unfolding in_degrees_def by (induction ds) auto
  have key: "\<exists>refs. map_of ds n = Some refs" if "n \<in> task_keys ds" for n
    using that unfolding task_keys_def by (metis map_of_eq_None_iff not_None_eq)
  have "map_of (in_degrees ds) n = Some (int (card (refs_of ds n - set [])))" if n: "n \<in> task_keys ds" for n
  proof -
    obtain refs where r: "map_of ds n = Some refs" using key [OF n] by blast
    then have "distinct refs" using assms map_of_SomeD [OF r] by (auto simp: deps_ok_def)
    then show ?thesis using m [of n] r by (simp add: refs_of_def distinct_card)
  qed
  moreover have "n \<in> set (map fst (filter (\<lambda>(_, k). k = 0) (in_degrees ds))) \<longleftrightarrow> refs_of ds n \<subseteq> set []" if n: "n \<in> task_keys ds" for n
  proof -
    have "n \<in> set (map fst (filter (\<lambda>(_, k). k = 0) (in_degrees ds))) \<longleftrightarrow> map_of (in_degrees ds) n = Some 0"
      by (force simp: dict_lookup [OF dk, symmetric])
    moreover obtain refs where "map_of ds n = Some refs" using key [OF n] by blast
    ultimately show ?thesis using m [of n] by (simp add: refs_of_def)
  qed
  moreover have "distinct (map fst (filter (\<lambda>(_, k). k = 0) (in_degrees ds)))"
    using dict_ok_filter [OF dk] by (simp add: dict_ok_def)
  moreover have "set (map fst (filter (\<lambda>(_, k). k = 0) (in_degrees ds))) \<subseteq> task_keys ds"
    by (force simp: in_degrees_def task_keys_def)
  moreover have "\<exists>rank :: string \<Rightarrow> nat. (\<forall>x \<in> set []. rank x < length []) \<and> (\<forall>(a, b) \<in> edges ds. b \<in> set [] \<longrightarrow> rank a < rank b)"
    by simp
  ultimately show ?thesis unfolding kahn_inv_def append_Nil by blast
qed

lemma kahn_end_complete:
  assumes ok: "deps_ok ds" and inv: "kahn_inv ds D d []" and ac: "acyclic (edges ds)"
  shows "set D = task_keys ds"
proof (rule ccontr)
  have sub: "set D \<subseteq> task_keys ds" using inv by (simp add: kahn_inv_def)
  assume "set D \<noteq> task_keys ds"
  then obtain x where x: "x \<in> task_keys ds - set D" using sub by blast
  have "edges ds \<subseteq> task_keys ds \<times> task_keys ds" using refs_keys [OF ok] by (auto simp: edges_def)
  then have "finite (edges ds)" by (rule finite_subset) (simp add: task_keys_def)
  then have "wf (edges ds)" using ac by (rule finite_acyclic_wf)
  then obtain m where m: "m \<in> task_keys ds - set D" "\<And>y. (y, m) \<in> edges ds \<Longrightarrow> y \<notin> task_keys ds - set D"
    using x by (rule wfE_min) blast
  then have "refs_of ds m \<subseteq> set D" using refs_keys(1) [OF ok] by (auto simp: edges_def)
  moreover have "m \<in> set (D @ []) \<longleftrightarrow> refs_of ds m \<subseteq> set D" using inv m(1) unfolding kahn_inv_def by blast
  ultimately show False using m(1) by simp
qed

lemma kahn_end_acyclic:
  assumes ok: "deps_ok ds" and inv: "kahn_inv ds D d []" and all: "set D = task_keys ds"
  shows "acyclic (edges ds)"
proof -
  obtain rank :: "string \<Rightarrow> nat" where "\<forall>(a, b) \<in> edges ds. b \<in> set D \<longrightarrow> rank a < rank b"
    using inv by (auto simp: kahn_inv_def)
  then have "edges ds \<subseteq> measure rank" using refs_keys(2) [OF ok] all by (auto simp: edges_def)
  then show ?thesis using wf_subset [OF wf_measure] wf_acyclic by blast
qed

text \<open>The test ends, raises nothing and reports exactly the cyclic graphs.\<close>

lemma has_cycle_iff:
  assumes "deps_ok ds"
  shows "has_cycle ds = Inr (\<not> acyclic (edges ds))"
proof -
  obtain D d where run: "kahn_loop (dependents ds) (in_degrees ds)
        (map fst (filter (\<lambda>(_, k). k = 0) (in_degrees ds))) 0 = Inr (length D)" and inv: "kahn_inv ds D d []"
    using kahn_loop_ends [OF assms kahn_start [OF assms]] by auto
  have D: "distinct D" "set D \<subseteq> task_keys ds" using inv by (simp_all add: kahn_inv_def)
  have "card (task_keys ds) = length ds"
    using assms distinct_card [of "map fst ds"] by (simp add: deps_ok_def dict_ok_def task_keys_def)
  then have "length D < length ds \<longleftrightarrow> set D \<noteq> task_keys ds"
    using D distinct_card [OF D(1)] psubset_card_mono [of "task_keys ds" "set D"]
    by (fastforce simp: task_keys_def psubset_eq)
  also have "\<dots> \<longleftrightarrow> \<not> acyclic (edges ds)"
    using kahn_end_complete [OF assms inv] kahn_end_acyclic [OF assms inv] by blast
  finally show ?thesis by (simp add: has_cycle_def Let_def run)
qed

text \<open>On every dependency graph whose references are resolved, Kahn's test terminates without a lookup
  error and answers True exactly when the graph has a dependency cycle.\<close>
theorem has_cycle_correct: "deps_ok ds \<Longrightarrow> has_cycle ds = Inr (\<not> acyclic (edges ds))"
  by (rule has_cycle_iff)

theorem has_cycle_correct_witness:
  "has_cycle [(''a'', []), (''b'', [''a'']), (''c'', [''a'', ''b''])]
     = Inr (\<not> acyclic (edges [(''a'', []), (''b'', [''a'']), (''c'', [''a'', ''b''])]))"
  by (rule has_cycle_correct) (simp add: deps_ok_def dict_ok_def task_keys_def)

section \<open>The graph of a plan\<close>

definition plan_edges :: "task_node list \<Rightarrow> (string \<times> string) set" where
  "plan_edges nodes =
     {(ref_id a, node_id n) | n a. n \<in> set nodes \<and> node_after n = Some a
        \<and> ref_id a \<in> node_id ` set nodes \<and> ref_id a \<noteq> node_id n}"

text \<open>The invariant of filling in the references: all keys are there, the added nodes' edges are in.\<close>

definition deps_inv :: "string list \<Rightarrow> deps \<Rightarrow> bool" where
  "deps_inv ids ds \<longleftrightarrow> dict_ok ds \<and> task_keys ds = set ids \<and> (\<forall>(n, refs) \<in> set ds. distinct refs \<and> set refs \<subseteq> set ids)"

lemma deps_inv_ok: "deps_inv ids ds \<Longrightarrow> deps_ok ds"
  by (auto simp: deps_inv_def deps_ok_def)

lemma map_entry_keys: "map fst (AList.map_entry k f d) = map fst d"
  by (induction d) auto

lemma map_entry_mem: "(n, v) \<in> set (AList.map_entry k f d) \<Longrightarrow> (n, v) \<in> set d \<or> (\<exists>w. (n, w) \<in> set d \<and> v = f w)"
  by (induction d) (auto split: if_splits)

lemma set_add_simps [simp]: "distinct (set_add x xs) = distinct xs" "set (set_add x xs) = insert x (set xs)"
  by (auto simp: set_add_def)

lemma add_ref_inv: "deps_inv ids ds \<Longrightarrow> deps_inv ids (add_ref ids ds n)"
proof -
  assume inv: "deps_inv ids ds"
  have "deps_inv ids (AList.map_entry k (set_add r) ds)" if "r \<in> set ids" for k r
  proof -
    have "distinct refs \<and> set refs \<subseteq> set ids"
      if "(n, refs) \<in> set (AList.map_entry k (set_add r) ds)" for n refs
      using map_entry_mem [OF that] inv \<open>r \<in> set ids\<close> by (fastforce simp: deps_inv_def)
    moreover have "task_keys (AList.map_entry k f ds) = task_keys ds" for f
      unfolding task_keys_def using arg_cong [OF map_entry_keys, of set] by (metis list.set_map)
    ultimately show ?thesis using inv by (auto simp: deps_inv_def dict_ok_def map_entry_keys)
  qed
  then show ?thesis using inv by (simp add: add_ref_def split: option.splits)
qed

lemma refs_of_add_ref:
  assumes "deps_inv ids ds" and "node_id n \<in> set ids"
  shows "edges (add_ref ids ds n) = edges ds \<union>
    {(ref_id a, node_id n) | a. node_after n = Some a \<and> ref_id a \<in> set ids \<and> ref_id a \<noteq> node_id n}"
proof -
  have "refs_of (AList.map_entry (node_id n) (set_add r) ds) m
      = refs_of ds m \<union> (if m = node_id n then {r} else {})" for r m
  proof -
    obtain refs where "map_of ds (node_id n) = Some refs"
      using assms unfolding deps_inv_def task_keys_def by (metis map_of_eq_None_iff not_None_eq)
    then show ?thesis by (auto simp: refs_of_def map_of_map_entry)
  qed
  then show ?thesis by (auto simp: edges_def add_ref_def split: option.splits if_splits)
qed

lemma add_refs_spec:
  assumes "deps_inv ids ds" and "node_id ` set ns \<subseteq> set ids"
  shows "deps_inv ids (foldl (add_ref ids) ds ns) \<and> edges (foldl (add_ref ids) ds ns) = edges ds \<union>
    {(ref_id a, node_id n) | n a. n \<in> set ns \<and> node_after n = Some a \<and> ref_id a \<in> set ids \<and> ref_id a \<noteq> node_id n}"
  using assms
proof (induction ns arbitrary: ds)
  case (Cons n ns)
  have "deps_inv ids (add_ref ids ds n)" by (rule add_ref_inv [OF Cons.prems(1)])
  with Cons.IH [OF this] Cons.prems refs_of_add_ref [OF Cons.prems(1), of n] show ?case by auto
qed simp

lemma init_deps_spec:
  "dict_ok d \<Longrightarrow> (\<And>m refs. (m, refs) \<in> set d \<Longrightarrow> refs = []) \<Longrightarrow>
   dict_ok (foldl init_dep d ns)
   \<and> (\<forall>m refs. (m, refs) \<in> set (foldl init_dep d ns) \<longrightarrow> refs = [])
   \<and> task_keys (foldl init_dep d ns) = task_keys d \<union> node_id ` set ns"
proof (induction ns arbitrary: d)
  case (Cons n ns)
  let ?d = "init_dep d n"
  have k: "task_keys ?d = insert (node_id n) (task_keys d)"
    by (simp add: init_dep_def task_keys_def dom_update dom_map_of_conv_image_fst [symmetric])
  have v: "(m, refs) \<in> set ?d \<Longrightarrow> refs = []" for m refs
    using Cons.prems(2) unfolding init_dep_def by (induction d) (auto split: if_splits)
  have "dict_ok ?d" using Cons.prems(1) by (simp add: init_dep_def)
  from this Cons.IH [of ?d] Cons.prems(1) v k show ?case by simp
qed simp

lemma build_deps_spec:
  "deps_ok (build_deps nodes (map node_id nodes)) \<and> edges (build_deps nodes (map node_id nodes)) = plan_edges nodes"
proof -
  let ?d = "foldl init_dep [] nodes"
  have d: "dict_ok ?d" "\<And>m refs. (m, refs) \<in> set ?d \<Longrightarrow> refs = []" "task_keys ?d = node_id ` set nodes"
    using init_deps_spec [of "[]" nodes] by (auto simp: task_keys_def)
  then have i: "deps_inv (map node_id nodes) ?d" unfolding deps_inv_def by force
  have "refs_of ?d n = {}" for n using d(2) by (fastforce simp: refs_of_def dest: map_of_SomeD split: option.splits)
  then have "edges ?d = {}" by (simp add: edges_def)
  then have "edges (build_deps nodes (map node_id nodes)) = plan_edges nodes"
    using add_refs_spec [OF i, of nodes] by (simp add: build_deps_def plan_edges_def)
  moreover have "deps_inv (map node_id nodes) (build_deps nodes (map node_id nodes))"
    using add_refs_spec [OF i, of nodes] by (simp add: build_deps_def)
  ultimately show ?thesis using deps_inv_ok by simp
qed

lemma check_cycle_spec:
  "\<exists>rules. check_cycle draft (map node_id (task_graph draft)) = Inr rules
     \<and> (\<forall>r \<in> set rules. dispatch_effect r = BLOCK) \<and> (rules = [] \<longleftrightarrow> acyclic (plan_edges (task_graph draft)))"
  using build_deps_spec [of "task_graph draft"]
  by (auto simp: check_cycle_def has_cycle_iff)

section \<open>What the validator promises\<close>

text \<open>The report's status from the effects that occur among its rules.\<close>

lemma aggregate_cases:
  "aggregate_status rs =
     (if \<exists>r \<in> set rs. dispatch_effect r = EMERGENCY_STOP then EMERGENCY_STATUS
      else if \<exists>r \<in> set rs. dispatch_effect r = BLOCK then REJECTED
      else if \<exists>r \<in> set rs. dispatch_effect r = NEEDS_CLARIFICATION then CLARIFICATION_STATUS
      else ACCEPTED)"
proof -
  have "aggregate_from st rs =
     (if st = EMERGENCY_STATUS \<or> (\<exists>r \<in> set rs. dispatch_effect r = EMERGENCY_STOP) then EMERGENCY_STATUS
      else if st = REJECTED \<or> (\<exists>r \<in> set rs. dispatch_effect r = BLOCK) then REJECTED
      else if st = CLARIFICATION_STATUS \<or> (\<exists>r \<in> set rs. dispatch_effect r = NEEDS_CLARIFICATION) then CLARIFICATION_STATUS
      else ACCEPTED)" for st
  proof (induction rs arbitrary: st)
    case Nil
    then show ?case by (cases st) simp_all
  next
    case (Cons r rs)
    show ?case by (cases "dispatch_effect r"; cases st) (simp_all add: Cons.IH)
  qed
  then show ?thesis by (simp add: aggregate_status_def)
qed

text \<open>The contract of an accepted plan.\<close>

definition node_admissible :: "plan_draft \<Rightarrow> plan_policy \<Rightarrow> task_node \<Rightarrow> bool" where
  "node_admissible draft pol n \<longleftrightarrow>
     node_robot n \<in> set (known_robots pol) \<and> node_action n \<in> set (allowed_actions pol)
     \<and> (\<forall>t. node_target n = Some t \<longrightarrow> t \<in> det_id ` set (detections draft) \<or> t \<in> set (known_locations pol))
     \<and> (\<forall>t threshold det. node_target n = Some t \<and> min_detection_confidence pol = Some threshold
          \<and> map_of (detections_by_id draft) t = Some det \<longrightarrow> (\<exists>c. confidence det = Some c \<and> threshold \<le> c))
     \<and> (\<forall>a. node_after n = Some a \<longrightarrow>
          ref_id a \<noteq> [] \<and> ref_id a \<in> node_id ` set (task_graph draft) \<and> ref_id a \<noteq> node_id n)"

definition plan_admissible :: "plan_draft \<Rightarrow> planning_context \<Rightarrow> bool" where
  "plan_admissible draft ctx \<longleftrightarrow>
     \<not> emergency_active ctx
     \<and> (\<forall>m. max_state_age_s (policy ctx) = Some m \<longrightarrow> (\<exists>age. state_age_s ctx = Some age \<and> age \<le> m))
     \<and> \<not> operator_clarification_required draft
     \<and> (\<forall>n \<in> set (task_graph draft). node_admissible draft (policy ctx) n)
     \<and> acyclic (plan_edges (task_graph draft))"

lemma check_node_empty: "check_node draft pol i n = [] \<longleftrightarrow> node_admissible draft pol n"
  by (auto simp: check_node_def Let_def check_robot_def check_action_def check_target_def check_confidence_def
      check_after_reference_def node_admissible_def split: option.splits)

lemma check_node_effects:
  "r \<in> set (check_node draft pol i n) \<Longrightarrow> dispatch_effect r \<in> {BLOCK, low_confidence_effect pol}"
  by (auto simp: check_node_def Let_def check_robot_def check_action_def check_target_def check_confidence_def
      check_after_reference_def split: option.splits if_splits)

definition node_rules :: "plan_draft \<Rightarrow> plan_policy \<Rightarrow> rule_result list" where
  "node_rules draft pol = concat (map (\<lambda>(i, n). check_node draft pol i n) (enumerate 0 (task_graph draft)))"

lemma node_rules_empty: "node_rules draft pol = [] \<longleftrightarrow> (\<forall>n \<in> set (task_graph draft). node_admissible draft pol n)"
proof -
  have "n \<in> set (task_graph draft) \<longleftrightarrow> (\<exists>i. (i, n) \<in> set (enumerate 0 (task_graph draft)))" for n
  proof -
    have "set (task_graph draft) = snd ` set (enumerate 0 (task_graph draft))"
      by (metis list.set_map map_snd_enumerate)
    then show ?thesis by (simp add: image_iff) (metis snd_conv surj_pair)
  qed
  then show ?thesis by (auto simp: node_rules_def check_node_empty split: prod.splits)
qed

lemma context_rules:
  "check_emergency_active ctx = [] \<longleftrightarrow> \<not> emergency_active ctx"
  "(\<exists>r \<in> set (check_emergency_active ctx). dispatch_effect r = EMERGENCY_STOP) \<longleftrightarrow> emergency_active ctx"
  "check_state_freshness ctx = [] \<longleftrightarrow>
     (\<forall>m. max_state_age_s (policy ctx) = Some m \<longrightarrow> (\<exists>age. state_age_s ctx = Some age \<and> age \<le> m))"
  "check_clarification draft = [] \<longleftrightarrow> \<not> operator_clarification_required draft"
  "r \<in> set (check_state_freshness ctx @ check_clarification draft) \<Longrightarrow> dispatch_effect r \<in> {BLOCK, NEEDS_CLARIFICATION}"
  by (auto simp: check_emergency_active_def check_state_freshness_def check_clarification_def split: option.splits if_splits)

text \<open>Validation answers, and the answer is determined by the contract.\<close>

lemma validate_spec:
  assumes "low_confidence_effect (policy ctx) \<in> {BLOCK, NEEDS_CLARIFICATION}"
  shows "\<exists>rep. validate draft ctx = Inr rep
    \<and> (status rep = ACCEPTED \<longleftrightarrow> plan_admissible draft ctx)
    \<and> (status rep = EMERGENCY_STATUS \<longleftrightarrow> emergency_active ctx)
    \<and> command_candidates rep = (if plan_admissible draft ctx then task_graph draft else [])
    \<and> warnings rep = [] \<and> (errors rep = [] \<longleftrightarrow> status rep = ACCEPTED)"
proof -
  obtain cycle where c: "check_cycle draft (map node_id (task_graph draft)) = Inr cycle"
      "\<And>r. r \<in> set cycle \<Longrightarrow> dispatch_effect r = BLOCK" "cycle = [] \<longleftrightarrow> acyclic (plan_edges (task_graph draft))"
    using check_cycle_spec by blast
  let ?other = "check_state_freshness ctx @ check_clarification draft @ node_rules draft (policy ctx) @ cycle"
  let ?rules = "check_emergency_active ctx @ ?other"
  have run: "validate draft ctx = Inr (from_rules ?rules draft)"
    by (simp add: validate_def check_task_graph_def c(1) node_rules_def)
  have eff: "dispatch_effect r \<in> {BLOCK, NEEDS_CLARIFICATION}" if "r \<in> set ?other" for r
    using that context_rules(5) c(2) assms check_node_effects [of r draft "policy ctx"]
    by (fastforce simp: node_rules_def)
  have em: "dispatch_effect r = EMERGENCY_STOP" if "r \<in> set (check_emergency_active ctx)" for r
    using that by (simp add: check_emergency_active_def split: if_splits)
  have none: "\<forall>r \<in> set ?rules. dispatch_effect r \<noteq> NO_EFFECT" using eff em by fastforce
  have acc: "aggregate_status ?rules = ACCEPTED \<longleftrightarrow> ?rules = []"
  proof
    assume "aggregate_status ?rules = ACCEPTED"
    then have "\<forall>r \<in> set ?rules. dispatch_effect r = NO_EFFECT"
      by (simp add: aggregate_cases split: if_splits) (metis dispatch_effect.exhaust)
    with none show "?rules = []" by (metis list.set_intros(1) neq_Nil_conv)
  qed (simp add: aggregate_cases)
  have "?rules = [] \<longleftrightarrow> plan_admissible draft ctx"
    by (simp add: plan_admissible_def context_rules node_rules_empty c(3))
  moreover have "aggregate_status ?rules = EMERGENCY_STATUS \<longleftrightarrow> emergency_active ctx"
  proof -
    have "\<not> (\<exists>r \<in> set ?other. dispatch_effect r = EMERGENCY_STOP)" using eff by fastforce
    then have "(\<exists>r \<in> set ?rules. dispatch_effect r = EMERGENCY_STOP) \<longleftrightarrow> emergency_active ctx"
      using context_rules(2) [of ctx] unfolding set_append [of "check_emergency_active ctx" ?other] bex_Un by blast
    then show ?thesis by (simp add: aggregate_cases)
  qed
  moreover have "filter (\<lambda>r. dispatch_effect r = NO_EFFECT) ?rules = []" "filter (\<lambda>r. dispatch_effect r \<noteq> NO_EFFECT) ?rules = ?rules"
    using none by (simp_all only: filter_empty_conv filter_id_conv)
  ultimately show ?thesis using acc unfolding run
    by (simp only: from_rules_def Let_def command_candidates_def permits_dispatch_def) simp
qed

section \<open>Accepted plans make progress\<close>

text \<open>A node that may still start and whose dependency has succeeded is offered in the cycle.\<close>

lemma ready_loop_offers:
  assumes "n \<in> set ns" and "status_of r (node_id n) \<notin> set NON_EMITTABLE" and "dependencies_met n r"
  shows "node_id n \<in> set emitted \<union> rt_id ` set (fst (ready_loop ns emitted r))"
  using assms
proof (induction ns emitted r rule: ready_loop.induct)
  case (2 m ns emitted r)
  have met: "dependencies_met n (set_status r t st)" if "st \<in> {READY, PENDING}" "status_of r t \<notin> set NON_EMITTABLE" for t st
    using "2.prems"(3) that by (auto simp: dependencies_met_def NON_EMITTABLE_def TERMINAL_STATUSES_def COMPLETED_STATUS_def split: option.splits)
  have st: "status_of (set_status r t st) (node_id n) \<notin> set NON_EMITTABLE" if "st \<in> {READY, PENDING}" for t st
    using "2.prems"(2) that by (auto simp: NON_EMITTABLE_def TERMINAL_STATUSES_def)
  show ?case
  proof (cases "status_of r (node_id m) \<in> set NON_EMITTABLE \<or> node_id m \<in> set emitted")
    case True
    then have "ready_loop (m # ns) emitted r = ready_loop ns emitted r" by (auto simp: Let_def)
    moreover have "m \<noteq> n \<or> node_id n \<in> set emitted" using True "2.prems"(2) by auto
    ultimately show ?thesis using True "2.IH"(1,2) "2.prems" by auto
  next
    case free: False
    show ?thesis
    proof (cases "dependencies_met m r")
      case True
      then show ?thesis using free "2.IH"(3) "2.prems" met [of READY "node_id m"] st [of READY "node_id m"]
        by (auto simp: Let_def from_node_def split: prod.splits)
    next
      case False
      then have "m \<noteq> n" using "2.prems"(3) by auto
      then show ?thesis using free False "2.IH"(4,5) "2.prems" met [of PENDING "node_id m"] st [of PENDING "node_id m"]
        by (cases "status_of r (node_id m) = READY") (auto simp: Let_def)
    qed
  qed
qed simp

lemma admissible_progress:
  assumes adm: "plan_admissible draft ctx" and n: "n \<in> set (task_graph draft)"
    and pend: "status_of (graph s) (node_id n) \<noteq> SUCCEEDED"
    and quiet: "\<forall>m \<in> set (task_graph draft). status_of (graph s) (node_id m) \<notin> {RUNNING, FAILED, CANCELLED}"
  shows "fst (ready_tasks p (task_graph draft) s) \<noteq> []"
proof -
  let ?nodes = "task_graph draft" and ?r = "graph s"
  let ?open = "{node_id m | m. m \<in> set ?nodes \<and> status_of ?r (node_id m) \<noteq> SUCCEEDED}"
  have "plan_edges ?nodes \<subseteq> (node_id ` set ?nodes) \<times> (node_id ` set ?nodes)" by (auto simp: plan_edges_def)
  then have "finite (plan_edges ?nodes)" by (rule finite_subset) simp
  then have "wf (plan_edges ?nodes)" using adm by (simp add: plan_admissible_def finite_acyclic_wf)
  moreover have "node_id n \<in> ?open" using n pend by blast
  ultimately obtain t where t: "t \<in> ?open" "\<And>y. (y, t) \<in> plan_edges ?nodes \<Longrightarrow> y \<notin> ?open"
    by (rule wfE_min) blast
  then obtain m where m: "m \<in> set ?nodes" "t = node_id m" "status_of ?r (node_id m) \<noteq> SUCCEEDED" by blast
  have "dependencies_met m ?r"
  proof (cases "node_after m")
    case (Some a)
    then have ref: "ref_id a \<in> node_id ` set ?nodes" "ref_id a \<noteq> node_id m"
      using adm m(1) by (auto simp: plan_admissible_def node_admissible_def)
    then have "(ref_id a, t) \<in> plan_edges ?nodes" using m Some by (auto simp: plan_edges_def)
    from t(2) [OF this] have "status_of ?r (ref_id a) = SUCCEEDED" using ref(1) by auto
    then show ?thesis using Some by (simp add: dependencies_met_def COMPLETED_STATUS_def)
  qed (simp add: dependencies_met_def)
  moreover have "status_of ?r (node_id m) \<notin> set NON_EMITTABLE"
    using quiet m by (auto simp: NON_EMITTABLE_def TERMINAL_STATUSES_def)
  ultimately have "node_id m \<in> rt_id ` set (fst (ready_loop ?nodes [] ?r))"
    using ready_loop_offers [OF m(1), of ?r "[]"] by simp
  then show ?thesis by (auto simp: ready_tasks_def split: prod.splits)
qed

definition ex_draft :: plan_draft where
  "ex_draft = \<lparr>plan_id = ''p1'', detections = [\<lparr>det_id = ''shelf_1'', det_color = None, det_pixel = [512, 310], confidence = Some (Fin (9/10))\<rparr>],
     task_graph = ex_plan, operator_clarification_required = False\<rparr>"

definition ex_policy :: plan_policy where
  "ex_policy = \<lparr>known_robots = [''bot1'', ''bot2''], known_locations = [''dropoff_1''], allowed_actions = [''navigate''], emergency_stop_allowlist = [],
     min_detection_confidence = Some (Fin (1/2)), low_confidence_effect = NEEDS_CLARIFICATION, max_state_age_s = Some (Fin 2),
     profile_id = ''default'', policy_version = ''0''\<rparr>"

definition ex_context :: planning_context where
  "ex_context = \<lparr>policy = ex_policy, emergency_active = False, state_age_s = Some (Fin 1)\<rparr>"

text \<open>C31. Under a policy that passes its own validation, the validator always answers; it lets a plan through
  exactly when there is no emergency, the state is fresh enough, no clarification is asked for, every
  task names a known robot, an allowed action, a resolvable and confidently detected target and an
  existing other task to wait for, and the dependencies have no cycle; it reports an emergency stop
  exactly when one is active, and only an accepted plan yields tasks to dispatch.\<close>
theorem plan_accepted_iff_admissible:
  assumes "make_policy (policy ctx) = Inr (policy ctx)"
  shows "\<exists>rep. validate draft ctx = Inr rep
    \<and> (permits_dispatch rep \<longleftrightarrow> plan_admissible draft ctx)
    \<and> (status rep = EMERGENCY_STATUS \<longleftrightarrow> emergency_active ctx)
    \<and> command_candidates rep = (if plan_admissible draft ctx then task_graph draft else [])"
  using validate_spec [of ctx draft] assms by (auto simp: make_policy_def permits_dispatch_def split: if_splits)

theorem plan_accepted_iff_admissible_witness:
  "\<exists>rep. validate ex_draft ex_context = Inr rep
    \<and> (permits_dispatch rep \<longleftrightarrow> plan_admissible ex_draft ex_context)
    \<and> (status rep = EMERGENCY_STATUS \<longleftrightarrow> emergency_active ex_context)
    \<and> command_candidates rep = (if plan_admissible ex_draft ex_context then task_graph ex_draft else [])"
  by (rule plan_accepted_iff_admissible) (simp add: make_policy_def ex_context_def ex_policy_def)

text \<open>A plan the validator let through never gets stuck in the executor: as long as no task is running and
  none has failed or been cancelled, an unfinished plan has a task that the next cycle offers.\<close>
theorem accepted_plan_progresses:
  assumes "make_policy (policy ctx) = Inr (policy ctx)" and "validate draft ctx = Inr rep" and "permits_dispatch rep"
    and "n \<in> set (command_candidates rep)" and "status_of (graph s) (node_id n) \<noteq> SUCCEEDED"
    and "\<forall>m \<in> set (command_candidates rep). status_of (graph s) (node_id m) \<notin> {RUNNING, FAILED, CANCELLED}"
  shows "fst (ready_tasks p (command_candidates rep) s) \<noteq> []"
proof -
  have "plan_admissible draft ctx" "command_candidates rep = task_graph draft"
    using validate_spec [of ctx draft] assms(1-3)
    by (auto simp: make_policy_def permits_dispatch_def split: if_splits)
  then show ?thesis using admissible_progress assms(4-6) by simp
qed

theorem accepted_plan_progresses_witness:
  "fst (ready_tasks ''p1'' (command_candidates (from_rules [] ex_draft)) fresh_exec) \<noteq> []"
proof (rule accepted_plan_progresses [where draft = ex_draft and ctx = ex_context and n = drop_off])
  show "make_policy (policy ex_context) = Inr (policy ex_context)"
    by (simp add: make_policy_def ex_context_def ex_policy_def)
  show "validate ex_draft ex_context = Inr (from_rules [] ex_draft)" by code_simp
  show "permits_dispatch (from_rules [] ex_draft)" by code_simp
  show "drop_off \<in> set (command_candidates (from_rules [] ex_draft))" by code_simp
qed code_simp+

end
