(* ===== verification/GuardLogic.thy ===== *)
theory GuardLogic
  imports Safety
begin

text \<open>
  The Emergency Guardian's decision logic, \<open>warehouse_safety/guard_logic.py\<close>: the seven reflex
  rules of \<open>evaluate\<close>, the displacement gate of the pose-freshness rule with its odometry
  accumulator, the blocked-time tracker, the rising-edge latch and the operator stop latch. The C
  library functions \<open>hypot\<close>, \<open>sin\<close>, \<open>cos\<close> and \<open>atan2\<close> are parameters (\<open>libm\<close>); a lemma that needs
  one of their laws names it.
\<close>

record libm =
  m_hypot :: "pyfloat \<Rightarrow> pyfloat \<Rightarrow> pyfloat"
  m_sin :: "pyfloat \<Rightarrow> pyfloat"
  m_cos :: "pyfloat \<Rightarrow> pyfloat"
  m_atan2 :: "pyfloat \<Rightarrow> pyfloat \<Rightarrow> pyfloat"

section \<open>One robot's snapshot and the decisions\<close>

record bot_state =
  bot :: string
  pos_x :: "pyfloat option"
  pos_y :: "pyfloat option"
  battery_pct :: "pyfloat option"
  blocked_duration :: pyfloat
  pose_age :: "pyfloat option"
  odom_disp_since_pose :: "pyfloat option"
  odom_dyaw_since_pose :: "pyfloat option"
  operator_stop_requested :: bool
  scan_age :: "pyfloat option"
  odom_seen :: bool
  terrain_source :: "string option"
  terrain_verdict :: "string option"
  terrain_health_epoch :: "nat option"

record decision =
  d_bot :: string
  d_action :: string
  d_reason :: string
  d_detail :: "(string \<times> pyval) list option"

record guard_config =
  distance_threshold :: pyfloat
  blocked_timeout :: pyfloat
  pose_freshness_timeout :: pyfloat
  scan_freshness_timeout :: pyfloat
  motion_epsilon :: "pyfloat option"
  angular_epsilon :: "pyfloat option"

definition estop :: "string \<Rightarrow> string \<Rightarrow> (string \<times> pyval) list option \<Rightarrow> decision" where
  "estop b why detail = \<lparr>d_bot = b, d_action = ''estop'', d_reason = why, d_detail = detail\<rparr>"

definition distance :: "libm \<Rightarrow> pyfloat \<Rightarrow> pyfloat \<Rightarrow> pyfloat \<Rightarrow> pyfloat \<Rightarrow> pyfloat" where
  "distance lib ax ay bx by' = m_hypot lib (ax - bx) (ay - by')"

text \<open>Only \<open>ValueError\<close> is caught.\<close>

definition marshal_battery :: "int option \<Rightarrow> pyfloat \<Rightarrow> string \<Rightarrow> int option result" where
  "marshal_battery prev raw scale =
     (case normalize_battery_percent raw scale of
        Inr p \<Rightarrow> Inr (Some p)
      | Inl e \<Rightarrow> if e = ValueError then Inr prev else Inl e)"

definition has_pose :: "bot_state \<Rightarrow> bool" where
  "has_pose b \<longleftrightarrow> (case (pos_x b, pos_y b) of
     (Some x, Some y) \<Rightarrow> isfinite x \<and> isfinite y | _ \<Rightarrow> False)"

definition yaw_from_quaternion :: "libm \<Rightarrow> pyfloat \<Rightarrow> pyfloat \<Rightarrow> pyfloat \<Rightarrow> pyfloat \<Rightarrow> pyfloat" where
  "yaw_from_quaternion lib x y z w =
     (let siny_cosp = Fin 2 * (w * z + x * y); cosy_cosp = Fin 1 - Fin 2 * (y * y + z * z)
      in m_atan2 lib siny_cosp cosy_cosp)"

text \<open>\<open>math.sin\<close> and \<open>math.cos\<close> raise \<open>ValueError\<close> on an infinite argument.\<close>

definition wrap_angle :: "libm \<Rightarrow> pyfloat \<Rightarrow> pyfloat result" where
  "wrap_angle lib a =
     (if a = PInf \<or> a = NInf then Inl ValueError
      else Inr (m_atan2 lib (m_sin lib a) (m_cos lib a)))"

definition pose_gate_open :: "bot_state \<Rightarrow> pyfloat option \<Rightarrow> pyfloat option \<Rightarrow> bool" where
  "pose_gate_open b motion_eps angular_eps \<longleftrightarrow>
     (case (motion_eps, angular_eps) of
        (Some me, Some ae) \<Rightarrow>
          if \<not> (isfinite me \<and> isfinite ae) then True
          else (case (odom_disp_since_pose b, odom_dyaw_since_pose b) of
              (Some disp, Some dyaw) \<Rightarrow>
                if \<not> (isfinite disp \<and> isfinite dyaw) then True
                else me < disp \<or> ae < \<bar>dyaw\<bar>
            | _ \<Rightarrow> True)
      | _ \<Rightarrow> True)"

definition age_is_unknown :: "pyfloat option \<Rightarrow> bool" where
  "age_is_unknown age \<longleftrightarrow> (case age of None \<Rightarrow> True | Some a \<Rightarrow> isnan a \<or> a < Fin 0)"

definition reportable_age :: "pyfloat option \<Rightarrow> pyval" where
  "reportable_age age =
     (case age of None \<Rightarrow> PNone
      | Some a \<Rightarrow> if age_is_unknown age \<or> \<not> isfinite a then PNone else PFloat a)"

definition validate_scan_freshness_timeout :: "pyval \<Rightarrow> pyfloat result" where
  "validate_scan_freshness_timeout value =
     (if \<not> is_number value then Inl ValueError
      else bindR (isfinite_val value) (\<lambda>fin. bindR (num_val value) (\<lambda>v.
        if \<not> fin \<or> v \<le> Fin 0 then Inl ValueError else to_float value)))"

section \<open>The rules\<close>

text \<open>A dictionary display with computed keys, and merging one dictionary into another.\<close>

definition dict_merge :: "(string \<times> pyval) list \<Rightarrow> (string \<times> pyval) list \<Rightarrow> (string \<times> pyval) list" where
  "dict_merge d e = foldl (\<lambda>d (k, v). AList.update k v d) d e"

definition proximity_rule :: "libm \<Rightarrow> guard_config \<Rightarrow> bot_state \<Rightarrow> bot_state \<Rightarrow> decision list" where
  "proximity_rule lib cfg a b =
     (case (has_pose a \<and> has_pose b, pos_x a, pos_y a, pos_x b, pos_y b) of
        (True, Some ax, Some ay, Some bx, Some by') \<Rightarrow>
          let d = distance lib ax ay bx by' in
          if d < distance_threshold cfg then
            let positions = dict_merge []
                  [(bot a @ ''_position'', PDict [(''x'', PFloat ax), (''y'', PFloat ay)]),
                   (bot b @ ''_position'', PDict [(''x'', PFloat bx), (''y'', PFloat by')])]
            in [estop (bot a) ''near_collision''
                  (Some (dict_merge [(''distance'', PFloat d), (''other_robot'', PStr (bot b))] positions)),
                estop (bot b) ''near_collision''
                  (Some (dict_merge [(''distance'', PFloat d), (''other_robot'', PStr (bot a))] positions))]
          else []
      | _ \<Rightarrow> [])"

definition battery_rule :: "bot_state \<Rightarrow> decision list" where
  "battery_rule b =
     (case battery_pct b of None \<Rightarrow> []
      | Some p \<Rightarrow> if isfinite p \<and> battery_is_critical p then [estop (bot b) ''battery_critical'' None] else [])"

definition blocked_rule :: "guard_config \<Rightarrow> bot_state \<Rightarrow> decision list" where
  "blocked_rule cfg b =
     (if blocked_timeout cfg < blocked_duration b
      then [\<lparr>d_bot = bot b, d_action = ''recovery'', d_reason = ''blocked_timeout'', d_detail = None\<rparr>]
      else [])"

definition pose_rule :: "guard_config \<Rightarrow> bot_state \<Rightarrow> decision list" where
  "pose_rule cfg b =
     (case pose_age b of None \<Rightarrow> []
      | Some age \<Rightarrow>
          if \<not> (age_is_unknown (Some age) \<or> pose_freshness_timeout cfg < age) then []
          else if \<not> pose_gate_open b (motion_epsilon cfg) (angular_epsilon cfg) then []
          else [estop (bot b) ''pose_stale''
                 (Some [(''pose_age'', reportable_age (Some age)),
                        (''freshness_timeout'', PFloat (pose_freshness_timeout cfg))])])"

definition operator_rule :: "bot_state \<Rightarrow> decision list" where
  "operator_rule b =
     (if operator_stop_requested b then [estop (bot b) ''operator_stop_request'' None] else [])"

definition scan_is_stale :: "guard_config \<Rightarrow> bot_state \<Rightarrow> bool" where
  "scan_is_stale cfg b \<longleftrightarrow>
     (if age_is_unknown (scan_age b) then odom_seen b
      else case scan_age b of None \<Rightarrow> False | Some age \<Rightarrow> scan_freshness_timeout cfg < age)"

definition scan_rule :: "guard_config \<Rightarrow> bot_state \<Rightarrow> decision list" where
  "scan_rule cfg b =
     (if scan_is_stale cfg b
      then [estop (bot b) ''scan_stale''
             (Some [(''scan_age'', reportable_age (scan_age b)),
                    (''freshness_timeout'', PFloat (scan_freshness_timeout cfg))])]
      else [])"

definition terrain_rule :: "bot_state \<Rightarrow> decision list" where
  "terrain_rule b =
     (case terrain_verdict b of None \<Rightarrow> []
      | Some v \<Rightarrow>
          if v = ''OK'' then []
          else if v = ''ABSENT'' \<and> \<not> odom_seen b then []
          else [estop (bot b) ''terrain_health''
                 (Some [(''source'', case terrain_source b of None \<Rightarrow> PNone | Some s \<Rightarrow> PStr s),
                        (''verdict'', PStr v),
                        (''health_epoch'', case terrain_health_epoch b of None \<Rightarrow> PNone | Some n \<Rightarrow> PInt (int n))])])"

definition evaluate :: "libm \<Rightarrow> guard_config \<Rightarrow> bot_state \<Rightarrow> bot_state \<Rightarrow> decision list" where
  "evaluate lib cfg a b =
     proximity_rule lib cfg a b
     @ concat (map battery_rule [a, b])
     @ concat (map (blocked_rule cfg) [a, b])
     @ concat (map (pose_rule cfg) [a, b])
     @ concat (map operator_rule [a, b])
     @ concat (map (scan_rule cfg) [a, b])
     @ concat (map terrain_rule [a, b])"

definition stop_requested_for :: "decision list \<Rightarrow> string \<Rightarrow> bool" where
  "stop_requested_for decisions b \<longleftrightarrow> (\<exists>d \<in> set decisions. d_bot d = b \<and> d_action d = ''estop'')"

section \<open>Events\<close>

definition build_event ::
    "string \<Rightarrow> string \<Rightarrow> string \<Rightarrow> pyfloat \<Rightarrow> string list option \<Rightarrow> (string \<times> pyval) list option \<Rightarrow>
     (string \<times> pyval) list" where
  "build_event event_id robot why timestamp action_taken detail =
     [(''event_id'', PStr event_id), (''robot'', PStr robot), (''type'', PStr why), (''severity'', PStr ''critical''),
      (''action_taken'', PList (map PStr (case action_taken of
          None \<Rightarrow> [''nav2_goal_cancel'', ''cmd_vel_stop''] | Some xs \<Rightarrow> xs))),
      (''timestamp'', PFloat timestamp), (''requires_llm_review'', PBool True)]
     @ (case detail of None \<Rightarrow> [] | Some d \<Rightarrow> [(''detail'', PDict d)])"

definition build_abort :: "string \<Rightarrow> string \<Rightarrow> string \<Rightarrow> (string \<times> pyval) list" where
  "build_abort why robot event_id =
     [(''reason'', PStr why), (''bot'', PStr robot), (''event_id'', PStr event_id)]"

section \<open>Trackers\<close>

record block_tracker =
  bt_epsilon :: pyfloat
  last_xy :: "string \<Rightarrow> (pyfloat \<times> pyfloat) option"
  last_moved_t :: "string \<Rightarrow> pyfloat option"

definition block_update ::
    "libm \<Rightarrow> block_tracker \<Rightarrow> string \<Rightarrow> pyfloat \<Rightarrow> pyfloat \<Rightarrow> pyfloat \<Rightarrow> pyfloat \<times> block_tracker" where
  "block_update lib t b x y now =
     (let moved = (case last_xy t b of None \<Rightarrow> True
            | Some (px, py) \<Rightarrow> bt_epsilon t \<le> distance lib px py x y)
      in if moved then (Fin 0, t\<lparr>last_xy := (last_xy t)(b \<mapsto> (x, y)), last_moved_t := (last_moved_t t)(b \<mapsto> now)\<rparr>)
         else (now - (case last_moved_t t b of None \<Rightarrow> now | Some u \<Rightarrow> u), t))"

record pose_gate =
  pg_disp :: "string \<Rightarrow> pyfloat option"
  pg_dyaw :: "string \<Rightarrow> pyfloat option"
  pg_last :: "string \<Rightarrow> (pyfloat \<times> pyfloat \<times> pyfloat) option"
  pg_odom_t :: "string \<Rightarrow> pyfloat option"

definition empty_pose_gate :: pose_gate where
  "empty_pose_gate = \<lparr>pg_disp = (\<lambda>_. None), pg_dyaw = (\<lambda>_. None), pg_last = (\<lambda>_. None), pg_odom_t = (\<lambda>_. None)\<rparr>"

definition forget :: "pose_gate \<Rightarrow> string \<Rightarrow> pose_gate" where
  "forget g b = g\<lparr>pg_disp := (pg_disp g)(b := None), pg_dyaw := (pg_dyaw g)(b := None),
     pg_last := (pg_last g)(b := None), pg_odom_t := (pg_odom_t g)(b := None)\<rparr>"

definition dflt :: "'a \<Rightarrow> 'a option \<Rightarrow> 'a" where
  "dflt d x = (case x of None \<Rightarrow> d | Some v \<Rightarrow> v)"

definition on_odom ::
    "libm \<Rightarrow> pose_gate \<Rightarrow> string \<Rightarrow> pyfloat \<Rightarrow> pyfloat \<Rightarrow> pyfloat \<Rightarrow> pyfloat \<Rightarrow> unit result \<times> pose_gate" where
  "on_odom lib g b x y yaw now =
     (if \<not> (isfinite x \<and> isfinite y \<and> isfinite yaw \<and> isfinite now) then (Inr (), forget g b)
      else
        let store = (\<lambda>g. g\<lparr>pg_last := (pg_last g)(b \<mapsto> (x, y, yaw)), pg_odom_t := (pg_odom_t g)(b \<mapsto> now)\<rparr>) in
        case pg_last g b of
          None \<Rightarrow>
            (Inr (), store (g\<lparr>pg_disp := (pg_disp g)(b \<mapsto> dflt (Fin 0) (pg_disp g b)),
                              pg_dyaw := (pg_dyaw g)(b \<mapsto> dflt (Fin 0) (pg_dyaw g b))\<rparr>))
        | Some (px, py, pyaw) \<Rightarrow>
            let g1 = g\<lparr>pg_disp := (pg_disp g)(b \<mapsto> dflt (Fin 0) (pg_disp g b) + distance lib px py x y)\<rparr> in
            case wrap_angle lib (yaw - pyaw) of
              Inl e \<Rightarrow> (Inl e, g1)
            | Inr a \<Rightarrow>
                (Inr (), store (g1\<lparr>pg_dyaw := (pg_dyaw g)(b \<mapsto> dflt (Fin 0) (pg_dyaw g b) + \<bar>a\<bar>)\<rparr>)))"

definition on_pose :: "pose_gate \<Rightarrow> string \<Rightarrow> pose_gate" where
  "on_pose g b = g\<lparr>pg_disp := (pg_disp g)(b \<mapsto> Fin 0), pg_dyaw := (pg_dyaw g)(b \<mapsto> Fin 0)\<rparr>"

definition gate_snapshot ::
    "pose_gate \<Rightarrow> string \<Rightarrow> pyfloat \<Rightarrow> pyfloat \<Rightarrow> pyfloat option \<times> pyfloat option" where
  "gate_snapshot g b now stale_after =
     (case pg_odom_t g b of
        None \<Rightarrow> (None, None)
      | Some t \<Rightarrow>
          if \<not> isfinite stale_after \<or> \<not> (Fin 0 \<le> now - t \<and> now - t \<le> stale_after) then (None, None)
          else (pg_disp g b, pg_dyaw g b))"

text \<open>The rising-edge latch over the active alarms.\<close>

definition alarm_keys :: "decision list \<Rightarrow> (string \<times> string) set" where
  "alarm_keys ds = (\<lambda>d. (d_bot d, d_reason d)) ` set ds"

definition rising :: "(string \<times> string) set \<Rightarrow> decision list \<Rightarrow> (string \<times> string) set \<times> (string \<times> string) set" where
  "rising active ds = (alarm_keys ds - active, alarm_keys ds)"

section \<open>The operator stop latch\<close>

text \<open>A payload as \<open>json.loads\<close> sees it: an error, or a value.\<close>

type_synonym json_text = "pyval option"

definition OPERATOR_STOP_ACTIONS :: "string list" where
  "OPERATOR_STOP_ACTIONS = [''engage'', ''clear'']"

definition parse_operator_stop_action :: "json_text \<Rightarrow> string option" where
  "parse_operator_stop_action raw =
     (case raw of
        Some (PDict payload) \<Rightarrow>
          (case dget payload ''action'' of
             PStr a \<Rightarrow> if a \<in> set OPERATOR_STOP_ACTIONS then Some a else None
           | _ \<Rightarrow> None)
      | _ \<Rightarrow> None)"

definition op_feed :: "bool \<Rightarrow> json_text \<Rightarrow> string option \<times> bool" where
  "op_feed engaged raw =
     (let action = parse_operator_stop_action raw in
      (action, if action = Some ''engage'' then True else if action = Some ''clear'' then False else engaged))"

end
