(* ===== verification/VisualResolver.thy ===== *)
theory VisualResolver
  imports PlanValidator GuardLogic
begin

text \<open>
  The visual resolver of the L3 planning core, \<open>visual_resolver/\<close> (\<open>resolver.py\<close>, \<open>policy.py\<close>,
  \<open>models.py\<close>) with the \<open>Calibration\<close> of \<open>validator/seams.py\<close>: a detection's pixel is mapped through the
  site's homography, tested against the calibrated polygon and snapped to the nearest known location.
  \<open>hypot\<close> is the library parameter of \<^theory_text>\<open>GuardLogic\<close>; the confidence combiner is a field of the policy.
\<close>

section \<open>Calibration and policy\<close>

record calibration =
  cal_camera_id :: string
  cal_map_frame :: string
  cal_homography :: "pyfloat list list"
  cal_reprojection_error :: "pyfloat option"
  cal_valid_polygon :: "pyfloat list list"
  cal_pixel_space :: string
  cal_image_size :: "int list option"

record visual_policy =
  vp_location_coords :: "(string \<times> pyfloat \<times> pyfloat) list"
  vp_snap_radius_m :: pyfloat
  vp_max_reprojection_error :: pyfloat
  vp_compose_confidence :: "pyfloat \<Rightarrow> pyfloat \<Rightarrow> pyfloat"
  vp_location_classes :: "(string, string) pydict"

definition default_compose_confidence :: "pyfloat \<Rightarrow> pyfloat \<Rightarrow> pyfloat" where
  "default_compose_confidence detection_confidence snap_quality =
     (let det = py_max (Fin 0) (py_min (Fin 1) detection_confidence);
          snap = py_max (Fin 0) (py_min (Fin 1) snap_quality) in det * snap)"

section \<open>Targets\<close>

datatype resolution_kind = KNOWN_LOCATION | UNRESOLVED

datatype unresolved_reason =
    OFF_MAP | OUTSIDE_VALID_POLYGON | BEYOND_SNAP_RADIUS | REPROJECTION_ERROR_TOO_LARGE | NO_CALIBRATION
  | OBJECT_CLASS_MISMATCH

fun reason_value :: "unresolved_reason \<Rightarrow> string" where
  "reason_value OFF_MAP = ''off_map''"
| "reason_value OUTSIDE_VALID_POLYGON = ''outside_valid_polygon''"
| "reason_value BEYOND_SNAP_RADIUS = ''beyond_snap_radius''"
| "reason_value REPROJECTION_ERROR_TOO_LARGE = ''reprojection_error_too_large''"
| "reason_value NO_CALIBRATION = ''no_calibration''"
| "reason_value OBJECT_CLASS_MISMATCH = ''object_class_mismatch''"

record resolved_target =
  rs_target :: string
  rs_kind :: resolution_kind
  rs_destination :: "string option"
  rs_confidence :: pyfloat
  rs_reason :: string

text \<open>The model's validator.\<close>

definition make_target :: "resolved_target \<Rightarrow> resolved_target result" where
  "make_target t = (if rs_kind t = UNRESOLVED \<and> rs_destination t \<noteq> None then Inl ValueError else Inr t)"

definition unresolved :: "string \<Rightarrow> unresolved_reason \<Rightarrow> resolved_target result" where
  "unresolved target_id reason =
     make_target \<lparr>rs_target = target_id, rs_kind = UNRESOLVED, rs_destination = None, rs_confidence = Fin 0,
       rs_reason = reason_value reason\<rparr>"

section \<open>From the pixel to the map\<close>

definition DEGENERATE :: pyfloat where "DEGENERATE = fround (1 / 10 ^ 12)"

fun det3 :: "pyfloat list list \<Rightarrow> pyfloat option" where
  "det3 [[a, b, c], [d, e, f], [g, h, i]] = Some (a * (e * i - f * h) - b * (d * i - f * g) + c * (d * h - e * g))"
| "det3 _ = None"

definition is_valid_homography :: "pyfloat list list \<Rightarrow> bool" where
  "is_valid_homography m = (case det3 m of None \<Rightarrow> False | Some det \<Rightarrow> DEGENERATE < \<bar>det\<bar>)"

definition PIXEL_SPACE_RAW :: string where "PIXEL_SPACE_RAW = ''raw''"
definition PIXEL_SPACE_NORMALIZED :: string where "PIXEL_SPACE_NORMALIZED = ''normalized_0_1000''"
definition NORMALIZED_MAX :: pyfloat where "NORMALIZED_MAX = Fin 1000"

definition pixel_scale :: "calibration \<Rightarrow> (pyfloat \<times> pyfloat) option result" where
  "pixel_scale cal =
     (if cal_pixel_space cal = PIXEL_SPACE_RAW then Inr (Some (Fin 1, Fin 1))
      else if cal_pixel_space cal \<noteq> PIXEL_SPACE_NORMALIZED then Inr None
      else case cal_image_size cal of
          Some [w, h] \<Rightarrow>
            if w \<le> 0 \<or> h \<le> 0 then Inr None
            else bindR (float_of_int w) (\<lambda>w. bindR (fdiv w NORMALIZED_MAX) (\<lambda>sx.
                 bindR (float_of_int h) (\<lambda>h. bindR (fdiv h NORMALIZED_MAX) (\<lambda>sy. Inr (Some (sx, sy))))))
        | _ \<Rightarrow> Inr None)"

text \<open>The matrix is 3 by 3 here: the caller has asked \<open>is_valid_homography\<close>.\<close>

fun apply_homography :: "pyfloat list list \<Rightarrow> pyfloat \<Rightarrow> pyfloat \<Rightarrow> (pyfloat \<times> pyfloat) result" where
  "apply_homography [[a, b, c], [d, e, f], [g, h, i]] u v =
     (let xp = a * u + b * v + c; yp = d * u + e * v + f; w = g * u + h * v + i in
      if w \<le> DEGENERATE then Inr (PInf, PInf)
      else bindR (fdiv xp w) (\<lambda>x. bindR (fdiv yp w) (\<lambda>y. Inr (x, y))))"
| "apply_homography _ u v = Inl ValueError"

text \<open>The edge from \<open>j\<close> to \<open>i\<close> against the ray from the point to the right.\<close>

definition crosses :: "pyfloat \<Rightarrow> pyfloat \<Rightarrow> pyfloat list \<Rightarrow> pyfloat list \<Rightarrow> bool result" where
  "crosses x y i j =
     (let xi = i ! 0; yi = i ! 1; xj = j ! 0; yj = j ! 1 in
      if (y < yi) \<noteq> (y < yj)
      then bindR (fdiv ((xj - xi) * (y - yi)) (yj - yi)) (\<lambda>q. Inr (x < q + xi))
      else Inr False)"

fun ray_loop :: "pyfloat \<Rightarrow> pyfloat \<Rightarrow> pyfloat list \<Rightarrow> pyfloat list list \<Rightarrow> bool \<Rightarrow> bool result" where
  "ray_loop x y j [] inside = Inr inside"
| "ray_loop x y j (i # rest) inside =
     bindR (crosses x y i j) (\<lambda>c. ray_loop x y i rest (if c then \<not> inside else inside))"

definition point_in_polygon :: "pyfloat \<Rightarrow> pyfloat \<Rightarrow> pyfloat list list \<Rightarrow> bool result" where
  "point_in_polygon x y polygon =
     (if length polygon < 3 then Inr False
      else if \<exists>row \<in> set polygon. length row < 2 then Inr False
      else ray_loop x y (last polygon) polygon False)"

text \<open>Gates 1 to 3: the map point of a detection, or the reason why it has none.\<close>

definition locate :: "visual_policy \<Rightarrow> calibration \<Rightarrow> detection \<Rightarrow> (unresolved_reason + pyfloat \<times> pyfloat) result" where
  "locate pol cal d =
     (if \<not> is_valid_homography (cal_homography cal) then Inr (Inl NO_CALIBRATION)
      else if (case cal_reprojection_error cal of
                 None \<Rightarrow> False | Some e \<Rightarrow> \<not> isfinite e \<or> vp_max_reprojection_error pol < e)
      then Inr (Inl REPROJECTION_ERROR_TOO_LARGE)
      else case det_pixel d of
          pu # pv # _ \<Rightarrow>
            bindR (float_of_int pu) (\<lambda>u. bindR (float_of_int pv) (\<lambda>v. bindR (pixel_scale cal) (\<lambda>scale.
              case scale of
                None \<Rightarrow> Inr (Inl NO_CALIBRATION)
              | Some (sx, sy) \<Rightarrow>
                  let scaled = ((sx, sy) \<noteq> (Fin 1, Fin 1) \<or> cal_pixel_space cal = PIXEL_SPACE_NORMALIZED) in
                  if scaled \<and> \<not> (Fin 0 \<le> u \<and> u \<le> NORMALIZED_MAX \<and> Fin 0 \<le> v \<and> v \<le> NORMALIZED_MAX)
                  then Inr (Inl OFF_MAP)
                  else
                    bindR (if scaled then apply_homography (cal_homography cal) (u * sx) (v * sy)
                           else apply_homography (cal_homography cal) u v) (\<lambda>(x, y).
                    if \<not> (isfinite x \<and> isfinite y) then Inr (Inl OFF_MAP)
                    else bindR (point_in_polygon x y (cal_valid_polygon cal)) (\<lambda>inside.
                      if \<not> inside then Inr (Inl OUTSIDE_VALID_POLYGON) else Inr (Inr (x, y)))))))
        | _ \<Rightarrow> Inr (Inl OFF_MAP))"

section \<open>Snapping\<close>

fun nearest_from ::
    "libm \<Rightarrow> pyfloat \<Rightarrow> pyfloat \<Rightarrow> string \<times> pyfloat \<Rightarrow> (string \<times> pyfloat \<times> pyfloat) list \<Rightarrow> string \<times> pyfloat" where
  "nearest_from lib x y best [] = best"
| "nearest_from lib x y best ((name, lx, ly) # rest) =
     (if \<not> is_known_location name then nearest_from lib x y best rest
      else let dist = m_hypot lib (x - lx) (y - ly) in
        if dist < snd best then nearest_from lib x y (name, dist) rest else nearest_from lib x y best rest)"

definition nearest_known_location ::
    "libm \<Rightarrow> pyfloat \<Rightarrow> pyfloat \<Rightarrow> (string \<times> pyfloat \<times> pyfloat) list \<Rightarrow> string \<times> pyfloat" where
  "nearest_known_location lib x y coords = nearest_from lib x y ('''', PInf) coords"

definition snap :: "libm \<Rightarrow> visual_policy \<Rightarrow> detection \<Rightarrow> pyfloat \<Rightarrow> pyfloat \<Rightarrow> resolved_target result" where
  "snap lib pol d x y =
     (let det_conf = (case confidence d of None \<Rightarrow> Fin 0 | Some c \<Rightarrow> c);
          (name, dist) = nearest_known_location lib x y (vp_location_coords pol) in
      if name = [] \<or> \<not> isfinite (vp_snap_radius_m pol) \<or> vp_snap_radius_m pol < dist
      then unresolved (det_id d) BEYOND_SNAP_RADIUS
      else if (case (det_color d, map_of (vp_location_classes pol) name) of
                 (Some c, Some expected) \<Rightarrow> c \<noteq> expected | _ \<Rightarrow> False)
      then unresolved (det_id d) OBJECT_CLASS_MISMATCH
      else
        bindR (if Fin 0 < vp_snap_radius_m pol
               then bindR (fdiv dist (vp_snap_radius_m pol)) (\<lambda>q. Inr (Fin 1 - q)) else Inr (Fin 1)) (\<lambda>snap_quality.
        make_target \<lparr>rs_target = det_id d, rs_kind = KNOWN_LOCATION, rs_destination = Some name,
          rs_confidence = vp_compose_confidence pol det_conf snap_quality, rs_reason = ''snapped_to_'' @ name\<rparr>))"

definition resolve_one :: "libm \<Rightarrow> visual_policy \<Rightarrow> calibration \<Rightarrow> detection \<Rightarrow> resolved_target result" where
  "resolve_one lib pol cal d =
     bindR (locate pol cal d) (\<lambda>r. case r of
       Inl reason \<Rightarrow> unresolved (det_id d) reason
     | Inr (x, y) \<Rightarrow> snap lib pol d x y)"

fun resolve_each :: "libm \<Rightarrow> visual_policy \<Rightarrow> calibration \<Rightarrow> detection list \<Rightarrow> resolved_target list result" where
  "resolve_each lib pol cal [] = Inr []"
| "resolve_each lib pol cal (d # ds) =
     bindR (resolve_one lib pol cal d) (\<lambda>t. bindR (resolve_each lib pol cal ds) (\<lambda>ts. Inr (t # ts)))"

definition resolve :: "libm \<Rightarrow> visual_policy \<Rightarrow> plan_draft \<Rightarrow> calibration \<Rightarrow> resolved_target list result" where
  "resolve lib pol draft cal = resolve_each lib pol cal (detections draft)"

end
