(* ===== verification/SensorHealth.thy ===== *)
theory SensorHealth
  imports PyValue
begin

text \<open>
  \<open>SensorHealthMonitor\<close> of \<open>warehouse_safety/sensor_health.py\<close>: freshness, frozen frames and
  quality of a fixed set of sensor sources, judged on the receiver's monotonic clock, and the
  adapter \<open>terrain_health.py\<close> that turns a coverage payload into an observation. The order on
  verdicts is the documented precedence, so a verdict is the most severe rule that fires.
\<close>

section \<open>Verdicts\<close>

datatype source_verdict = ABSENT | STALE | FROZEN | INVALID | OK

fun severity :: "source_verdict \<Rightarrow> nat" where
  "severity OK = 0"
| "severity INVALID = 1"
| "severity FROZEN = 2"
| "severity STALE = 3"
| "severity ABSENT = 4"

instantiation source_verdict :: linorder
begin

definition less_eq_source_verdict :: "source_verdict \<Rightarrow> source_verdict \<Rightarrow> bool" where
  "less_eq_source_verdict a b \<longleftrightarrow> severity a \<le> severity b"

definition less_source_verdict :: "source_verdict \<Rightarrow> source_verdict \<Rightarrow> bool" where
  "less_source_verdict a b \<longleftrightarrow> severity a < severity b"

instance
proof
  fix a b :: source_verdict
  show "a \<le> b \<Longrightarrow> b \<le> a \<Longrightarrow> a = b"
    by (cases a; cases b) (simp_all add: less_eq_source_verdict_def)
qed (auto simp: less_eq_source_verdict_def less_source_verdict_def)

end

section \<open>Thresholds and observations\<close>

definition finite_number :: "pyval \<Rightarrow> pyfloat result" where
  "finite_number value =
     (if \<not> is_number value then Inl ValueError
      else bindR (to_float value) (\<lambda>number. if isfinite number then Inr number else Inl ValueError))"

record source_thresholds =
  stale_after :: pyfloat
  min_valid :: pyfloat
  frozen_repeats :: int

text \<open>The fields keep the configured value, whose exact numeric value the comparisons use.\<close>

definition make_thresholds :: "pyval \<Rightarrow> pyval \<Rightarrow> pyval \<Rightarrow> source_thresholds result" where
  "make_thresholds stale min_v repeats =
     bindR (finite_number stale) (\<lambda>s.
       if s \<le> Fin 0 then Inl ValueError
       else bindR (finite_number min_v) (\<lambda>m.
         if \<not> (Fin 0 < m \<and> m \<le> Fin 1) then Inl ValueError
         else case repeats of
             PInt n \<Rightarrow>
               if n < 2 then Inl ValueError
               else bindR (num_val stale) (\<lambda>s'. bindR (num_val min_v) (\<lambda>m'.
                      Inr \<lparr>stale_after = s', min_valid = m', frozen_repeats = n\<rparr>))
           | _ \<Rightarrow> Inl ValueError))"

record observation =
  stamp_s :: pyfloat
  received_s :: pyfloat
  valid_fraction :: pyfloat
  digest :: "string option"

fun readable :: "pyval \<Rightarrow> pyfloat result" where
  "readable (PBool _) = Inl ValueError"
| "readable (PInt n) = float_of_int n"
| "readable (PFloat a) = Inr a"
| "readable _ = Inr NaN"

fun digest_field :: "pyval \<Rightarrow> string option result" where
  "digest_field PNone = Inr None"
| "digest_field (PStr s) = Inr (Some s)"
| "digest_field _ = Inl ValueError"

definition make_observation :: "pyval \<Rightarrow> pyval \<Rightarrow> pyval \<Rightarrow> pyval \<Rightarrow> observation result" where
  "make_observation stamp received valid dig =
     bindR (readable stamp) (\<lambda>s. bindR (readable received) (\<lambda>r. bindR (readable valid) (\<lambda>v.
       bindR (digest_field dig) (\<lambda>d.
         Inr \<lparr>stamp_s = s, received_s = r, valid_fraction = v, digest = d\<rparr>))))"

text \<open>
  \<open>terrain_health.py\<close>: the pydantic parse of the payload is the input, \<open>None\<close> when it is refused.
\<close>

record coverage =
  source_stamp_s :: pyfloat
  cov_valid_fraction :: pyfloat
  frame_digest :: "string option"

definition coverage_observation :: "coverage option \<Rightarrow> pyval \<Rightarrow> observation result" where
  "coverage_observation parsed received =
     (case parsed of
        None \<Rightarrow> make_observation (PFloat NaN) received (PFloat NaN) PNone
      | Some c \<Rightarrow>
          make_observation (PFloat (source_stamp_s c)) received (PFloat (cov_valid_fraction c))
            (case frame_digest c of None \<Rightarrow> PNone | Some d \<Rightarrow> PStr d))"

section \<open>The monitor\<close>

record health_monitor =
  limits :: "(string, source_thresholds) pydict"
  last_obs :: "string \<Rightarrow> observation option"
  runs :: "string \<Rightarrow> (string option \<times> int) option"
  epoch :: nat
  previous :: "(string \<times> source_verdict) list option"

definition make_monitor :: "(string, source_thresholds) pydict \<Rightarrow> health_monitor result" where
  "make_monitor thr =
     (if thr = [] then Inl ValueError
      else if \<exists>(name, l) \<in> set thr. name = [] then Inl ValueError
      else Inr \<lparr>limits = thr, last_obs = (\<lambda>_. None), runs = (\<lambda>_. None), epoch = 0, previous = None\<rparr>)"

definition required_sources :: "health_monitor \<Rightarrow> string set" where
  "required_sources m = fst ` set (limits m)"

definition run_of :: "health_monitor \<Rightarrow> string \<Rightarrow> string option \<times> int" where
  "run_of m source = (case runs m source of None \<Rightarrow> (None, 0) | Some r \<Rightarrow> r)"

definition advance_run :: "health_monitor \<Rightarrow> string \<Rightarrow> observation \<Rightarrow> string option \<times> int" where
  "advance_run m source obs =
     (let (previous_digest, run) = run_of m source in
      if digest obs = None then (previous_digest, run)
      else if previous_digest \<noteq> digest obs then (digest obs, 1)
      else
        let advanced = (case last_obs m source of
               None \<Rightarrow> False
             | Some p \<Rightarrow> isfinite (stamp_s p) \<and> isfinite (stamp_s obs) \<and> stamp_s p < stamp_s obs)
        in (digest obs, if advanced then run + 1 else run))"

definition health_observe :: "health_monitor \<Rightarrow> string \<Rightarrow> observation \<Rightarrow> health_monitor result" where
  "health_observe m source obs =
     (if source \<notin> required_sources m then Inl KeyError
      else Inr (m\<lparr>runs := (runs m)(source \<mapsto> advance_run m source obs),
                  last_obs := (last_obs m)(source \<mapsto> obs)\<rparr>))"

definition verdict :: "health_monitor \<Rightarrow> string \<Rightarrow> source_thresholds \<Rightarrow> pyfloat \<Rightarrow> source_verdict" where
  "verdict m source lm now =
     (case last_obs m source of
        None \<Rightarrow> ABSENT
      | Some obs \<Rightarrow>
          if \<not> isfinite now \<or> \<not> isfinite (received_s obs) then STALE
          else
            let age = now - received_s obs in
            if age < Fin 0 \<or> stale_after lm < age then STALE
            else
              let (dig, run) = run_of m source in
              if dig \<noteq> None \<and> frozen_repeats lm \<le> run then FROZEN
              else if \<not> isfinite (stamp_s obs) then INVALID
              else if \<not> (Fin 0 \<le> valid_fraction obs \<and> valid_fraction obs \<le> Fin 1) then INVALID
              else if valid_fraction obs < min_valid lm then INVALID
              else OK)"

record health_report =
  verdicts :: "(string \<times> source_verdict) list"
  healthy :: bool
  health_epoch :: nat

definition health_evaluate :: "health_monitor \<Rightarrow> pyfloat \<Rightarrow> health_report \<times> health_monitor" where
  "health_evaluate m now =
     (let vs = map (\<lambda>(source, lm). (source, verdict m source lm now)) (limits m);
          ep = (if previous m \<noteq> None \<and> previous m \<noteq> Some vs then epoch m + 1 else epoch m)
      in (\<lparr>verdicts = vs, healthy = list_all (\<lambda>(_, v). v = OK) vs, health_epoch = ep\<rparr>,
          m\<lparr>epoch := ep, previous := Some vs\<rparr>))"

section \<open>The judgement\<close>

text \<open>Each rule on its own, as the verdict it gives when it fires.\<close>

definition absent_rule :: "health_monitor \<Rightarrow> string \<Rightarrow> bool" where
  "absent_rule m s \<longleftrightarrow> last_obs m s = None"

definition stale_rule :: "health_monitor \<Rightarrow> string \<Rightarrow> source_thresholds \<Rightarrow> pyfloat \<Rightarrow> bool" where
  "stale_rule m s lm now \<longleftrightarrow>
     (\<exists>obs. last_obs m s = Some obs
        \<and> \<not> (isfinite now \<and> isfinite (received_s obs)
             \<and> Fin 0 \<le> now - received_s obs \<and> now - received_s obs \<le> stale_after lm))"

definition frozen_rule :: "health_monitor \<Rightarrow> string \<Rightarrow> source_thresholds \<Rightarrow> bool" where
  "frozen_rule m s lm \<longleftrightarrow> (\<exists>d run. runs m s = Some (Some d, run) \<and> frozen_repeats lm \<le> run)"

definition invalid_rule :: "health_monitor \<Rightarrow> string \<Rightarrow> source_thresholds \<Rightarrow> bool" where
  "invalid_rule m s lm \<longleftrightarrow>
     (\<exists>obs. last_obs m s = Some obs
        \<and> \<not> (isfinite (stamp_s obs) \<and> min_valid lm \<le> valid_fraction obs
             \<and> Fin 0 \<le> valid_fraction obs \<and> valid_fraction obs \<le> Fin 1))"

definition fired :: "health_monitor \<Rightarrow> string \<Rightarrow> source_thresholds \<Rightarrow> pyfloat \<Rightarrow> source_verdict set" where
  "fired m s lm now =
     {OK} \<union> (if absent_rule m s then {ABSENT} else {}) \<union> (if stale_rule m s lm now then {STALE} else {})
      \<union> (if frozen_rule m s lm then {FROZEN} else {}) \<union> (if invalid_rule m s lm then {INVALID} else {})"

definition lim_ok :: "source_thresholds \<Rightarrow> bool" where
  "lim_ok lm \<longleftrightarrow> isfinite (stale_after lm) \<and> Fin 0 < stale_after lm
     \<and> Fin 0 < min_valid lm \<and> min_valid lm \<le> Fin 1 \<and> 2 \<le> frozen_repeats lm"

lemma not_less_iff: "\<not> isnan a \<Longrightarrow> \<not> isnan b \<Longrightarrow> \<not> a < b \<longleftrightarrow> b \<le> (a :: pyfloat)"
  by (cases a; cases b) auto

lemma minus_not_nan: "isfinite a \<Longrightarrow> isfinite b \<Longrightarrow> \<not> isnan (a - b)"
  by (cases a; cases b) (auto simp: minus_Fin fround_def Let_def split: if_splits)

lemma stale_rule_code:
  assumes "lim_ok lm" and "last_obs m s = Some obs" and "isfinite now" and "isfinite (received_s obs)"
  shows "stale_rule m s lm now \<longleftrightarrow>
    now - received_s obs < Fin 0 \<or> stale_after lm < now - received_s obs"
  using assms not_less_iff [of "now - received_s obs" "Fin 0"] not_less_iff [of "stale_after lm" "now - received_s obs"]
  by (auto simp: stale_rule_def lim_ok_def minus_not_nan isfinite_not_nan)

lemma invalid_rule_code:
  assumes "lim_ok lm" and "last_obs m s = Some obs"
  shows "invalid_rule m s lm \<longleftrightarrow> \<not> isfinite (stamp_s obs)
    \<or> \<not> (Fin 0 \<le> valid_fraction obs \<and> valid_fraction obs \<le> Fin 1) \<or> valid_fraction obs < min_valid lm"
  using assms by (cases "valid_fraction obs"; cases "min_valid lm") (auto simp: invalid_rule_def lim_ok_def)

lemma frozen_rule_code:
  "frozen_rule m s lm \<longleftrightarrow> fst (run_of m s) \<noteq> None \<and> frozen_repeats lm \<le> snd (run_of m s)"
  by (auto simp: frozen_rule_def run_of_def split: option.splits)

lemma severity_simps [simp]:
  "v \<le> ABSENT" "OK \<le> v" "INVALID \<le> FROZEN" "INVALID \<le> STALE" "FROZEN \<le> STALE" "v \<le> (v :: source_verdict)"
  by (cases v; simp add: less_eq_source_verdict_def)+

lemma verdict_rules:
  assumes "lim_ok lm"
  shows "verdict m s lm now =
    (if absent_rule m s then ABSENT else if stale_rule m s lm now then STALE
     else if frozen_rule m s lm then FROZEN else if invalid_rule m s lm then INVALID else OK)"
proof (cases "last_obs m s")
  case (Some obs)
  show ?thesis
  proof (cases "isfinite now \<and> isfinite (received_s obs)")
    case True
    then have "stale_rule m s lm now \<longleftrightarrow> now - received_s obs < Fin 0 \<or> stale_after lm < now - received_s obs"
      by (intro stale_rule_code [OF assms Some]) simp_all
    then show ?thesis using True
      by (simp add: verdict_def Some absent_rule_def invalid_rule_code [OF assms Some] frozen_rule_code
          Let_def case_prod_beta)
  next
    case False
    then show ?thesis by (auto simp: verdict_def Some absent_rule_def stale_rule_def)
  qed
qed (simp add: verdict_def absent_rule_def)

text \<open>
  The verdict of a source is the most severe of the documented rules that fire: never observed,
  too old or not on this clock, the same content under advancing stamps, quality not established;
  and \<open>OK\<close> when none does.
\<close>

theorem verdict_is_most_severe:
  assumes "lim_ok lm"
  shows "verdict m s lm now = Max (fired m s lm now)"
  by (rule sym, rule Max_eqI) (auto simp: verdict_rules [OF assms] fired_def)

definition sample_limits :: source_thresholds where
  "sample_limits = \<lparr>stale_after = Fin 1, min_valid = Fin (1/2), frozen_repeats = 3\<rparr>"

definition sample_monitor :: health_monitor where
  "sample_monitor = \<lparr>limits = [(''cliff_scan'', sample_limits)], last_obs = (\<lambda>_. None), runs = (\<lambda>_. None),
     epoch = 0, previous = None\<rparr>"

lemma sample_limits_ok: "lim_ok sample_limits"
  by (simp add: lim_ok_def sample_limits_def)

theorem verdict_is_most_severe_witness:
  "lim_ok sample_limits \<and> Max (fired sample_monitor ''cliff_scan'' sample_limits (Fin 5)) = ABSENT"
  using verdict_is_most_severe [OF sample_limits_ok, of sample_monitor "''cliff_scan''" "Fin 5"] sample_limits_ok
  by (simp add: verdict_def sample_monitor_def)

lemma verdict_OK:
  "lim_ok lm \<Longrightarrow> verdict m s lm now = OK \<longleftrightarrow>
    \<not> absent_rule m s \<and> \<not> stale_rule m s lm now \<and> \<not> frozen_rule m s lm \<and> \<not> invalid_rule m s lm"
  by (simp add: verdict_rules)

section \<open>The epoch\<close>

text \<open>A history of observations and judgements, with the reports it produces.\<close>

datatype health_op = Observe string observation | Judge pyfloat

fun health_step :: "health_monitor \<Rightarrow> health_op \<Rightarrow> health_report list \<times> health_monitor" where
  "health_step m (Observe s obs) = ([], case health_observe m s obs of Inl _ \<Rightarrow> m | Inr m' \<Rightarrow> m')"
| "health_step m (Judge now) = (let (r, m') = health_evaluate m now in ([r], m'))"

fun health_run :: "health_monitor \<Rightarrow> health_op list \<Rightarrow> health_report list" where
  "health_run m [] = []"
| "health_run m (x # xs) = fst (health_step m x) @ health_run (snd (health_step m x)) xs"

text \<open>The reports of a history number the versions of the verdict map.\<close>

fun versioned :: "nat \<Rightarrow> (string \<times> source_verdict) list option \<Rightarrow> health_report list \<Rightarrow> bool" where
  "versioned n prev [] = True"
| "versioned n prev (r # rs) \<longleftrightarrow>
     health_epoch r = (if prev \<noteq> None \<and> prev \<noteq> Some (verdicts r) then n + 1 else n)
     \<and> versioned (health_epoch r) (Some (verdicts r)) rs"

lemma observe_frame:
  "health_observe m s obs = Inr m' \<Longrightarrow> epoch m' = epoch m \<and> previous m' = previous m \<and> limits m' = limits m"
  by (auto simp: health_observe_def split: if_splits)

lemma health_run_versioned: "versioned (epoch m) (previous m) (health_run m ops)"
proof (induction ops arbitrary: m)
  case (Cons x ops)
  show ?case
  proof (cases x)
    case (Observe s obs)
    then show ?thesis using Cons [of "snd (health_step m x)"]
      by (cases "health_observe m s obs") (auto simp: observe_frame)
  next
    case (Judge now)
    then show ?thesis using Cons [of "snd (health_step m x)"]
      by (simp add: health_evaluate_def Let_def)
  qed
qed simp

lemma versioned_head: "versioned n prev (r # rs) \<Longrightarrow> n \<le> health_epoch r"
  by (simp split: if_splits)

lemma versioned_tail: "versioned n prev (r # rs) \<Longrightarrow> versioned (health_epoch r) (Some (verdicts r)) rs"
  unfolding versioned.simps by blast

lemma versioned_same: "versioned n (Some vs) (r # rs) \<Longrightarrow> health_epoch r = n \<Longrightarrow> verdicts r = vs"
  by (simp split: if_splits)

lemmas [simp del] = versioned.simps(2)

lemma versioned_mono: "versioned n prev rs \<Longrightarrow> r \<in> set rs \<Longrightarrow> n \<le> health_epoch r"
proof (induction rs arbitrary: n prev)
  case (Cons a rs)
  then show ?case using versioned_head versioned_tail by (metis le_trans set_ConsD)
qed simp

lemma versioned_first:
  "versioned n (Some vs) rs \<Longrightarrow> r \<in> set rs \<Longrightarrow> health_epoch r = n \<Longrightarrow> verdicts r = vs"
proof (induction rs arbitrary: n vs)
  case (Cons a rs)
  note v = versioned_tail [OF Cons.prems(1)] and h = versioned_head [OF Cons.prems(1)]
  show ?case
  proof (cases "r = a")
    case True
    then show ?thesis using versioned_same [OF Cons.prems(1)] Cons.prems(3) by simp
  next
    case False
    then have r: "r \<in> set rs" using Cons.prems by simp
    then have "health_epoch a = n" using versioned_mono [OF v r] h Cons.prems(3) by simp
    then show ?thesis using Cons.IH [OF v r] versioned_same [OF Cons.prems(1)] Cons.prems(3) by simp
  qed
qed simp

lemma versioned_append: "versioned n prev (xs @ r # rs) \<Longrightarrow> versioned (health_epoch r) (Some (verdicts r)) rs"
  by (induction xs arbitrary: n prev) (auto dest: versioned_tail)

text \<open>
  The health epoch is a version: along any history of observations and judgements it never
  decreases, and two reports with the same epoch carry the same verdicts, so a consumer that
  refuses an older epoch never acts on a superseded judgement.
\<close>

theorem epoch_is_version:
  assumes "health_run m ops = xs @ r1 # ys @ r2 # zs"
  shows "health_epoch r1 \<le> health_epoch r2
    \<and> (health_epoch r1 = health_epoch r2 \<longrightarrow> verdicts r1 = verdicts r2)"
proof -
  have v: "versioned (health_epoch r1) (Some (verdicts r1)) (ys @ r2 # zs)"
    using versioned_append health_run_versioned [of m ops] assms by metis
  then show ?thesis using versioned_mono [OF v, of r2] versioned_first [OF v, of r2] by simp
qed

theorem epoch_is_version_witness:
  "\<exists>r1 r2. health_run sample_monitor [Judge (Fin 1), Judge (Fin 2)] = [r1, r2] \<and> health_epoch r1 \<le> health_epoch r2"
proof -
  obtain r1 r2 where r: "health_run sample_monitor [Judge (Fin 1), Judge (Fin 2)] = [] @ r1 # [] @ r2 # []"
    by (simp add: health_evaluate_def Let_def)
  from epoch_is_version [OF this] r show ?thesis by auto
qed

section \<open>Frozen senders\<close>

fun feed :: "health_monitor \<Rightarrow> string \<Rightarrow> observation list \<Rightarrow> health_monitor" where
  "feed m s [] = m"
| "feed m s (x # xs) = feed (case health_observe m s x of Inr m' \<Rightarrow> m' | Inl _ \<Rightarrow> m) s xs"

lemma feed_append: "feed m s (xs @ ys) = feed (feed m s xs) s ys"
  by (induction xs arbitrary: m) simp_all

definition runs_ok :: "health_monitor \<Rightarrow> bool" where
  "runs_ok m \<longleftrightarrow> (\<forall>s d n. runs m s = Some (Some d, n) \<longrightarrow> 1 \<le> n)"

lemma observe_req:
  "s \<in> required_sources m \<Longrightarrow> health_observe m s x =
    Inr (m\<lparr>runs := (runs m)(s \<mapsto> advance_run m s x), last_obs := (last_obs m)(s \<mapsto> x)\<rparr>)"
  by (simp add: health_observe_def)

lemma advance_runs_ok: "runs_ok m \<Longrightarrow> advance_run m s x = (Some d, n) \<Longrightarrow> 1 \<le> n"
  by (auto simp: advance_run_def run_of_def runs_ok_def Let_def split: option.splits if_splits) fastforce+

lemma observe_runs_ok [py_inv]: "runs_ok m \<Longrightarrow> health_observe m s x = Inr m' \<Longrightarrow> runs_ok m'"
  using advance_runs_ok [of m s x]
  by (auto simp: health_observe_def runs_ok_def split: if_splits)

text \<open>Identical content under strictly advancing stamps.\<close>

fun stuck :: "string \<Rightarrow> pyfloat \<Rightarrow> observation list \<Rightarrow> bool" where
  "stuck d t [] = True"
| "stuck d t (x # xs) \<longleftrightarrow> digest x = Some d \<and> isfinite (stamp_s x) \<and> t < stamp_s x \<and> stuck d (stamp_s x) xs"

lemma stuck_run:
  assumes "s \<in> required_sources m" and "last_obs m s = Some p" and "runs m s = Some (Some d, n)"
    and "isfinite (stamp_s p)" and "stuck d (stamp_s p) xs"
  shows "runs (feed m s xs) s = Some (Some d, n + int (length xs))
    \<and> last_obs (feed m s xs) s = Some (last (p # xs))"
  using assms
proof (induction xs arbitrary: m p n)
  case (Cons x xs)
  let ?m = "m\<lparr>runs := (runs m)(s \<mapsto> (Some d, n + 1)), last_obs := (last_obs m)(s \<mapsto> x)\<rparr>"
  have "health_observe m s x = Inr ?m"
    using Cons.prems by (simp add: observe_req advance_run_def run_of_def)
  moreover have "s \<in> required_sources ?m" using Cons.prems by (simp add: required_sources_def)
  ultimately show ?case using Cons.IH [of ?m x "n + 1"] Cons.prems by (simp add: algebra_simps)
qed simp

text \<open>
  A frozen sender is reported: when a source delivers the same content at least
  \<open>frozen_repeats\<close> times in a row under advancing stamps, whatever it sent before, the verdict at
  any moment at which the last message is fresh is \<open>FROZEN\<close>, even with full quality.
\<close>

theorem frozen_sender_detected:
  assumes "lim_ok lm" and "runs_ok m" and "s \<in> required_sources m"
    and "digest x = Some d" and "isfinite (stamp_s x)" and "stuck d (stamp_s x) xs"
    and "frozen_repeats lm \<le> int (length (x # xs))"
    and "let r = received_s (last (x # xs)) in isfinite now \<and> isfinite r \<and> Fin 0 \<le> now - r \<and> now - r \<le> stale_after lm"
  shows "verdict (feed m s (x # xs)) s lm now = FROZEN"
proof -
  have "fst (advance_run m s x) = Some d"
    using assms(4) by (simp add: advance_run_def case_prod_beta Let_def)
  then obtain n where n: "advance_run m s x = (Some d, n)" by (cases "advance_run m s x") simp
  have n1: "1 \<le> n" using advance_runs_ok [OF assms(2) n] .
  let ?m = "m\<lparr>runs := (runs m)(s \<mapsto> (Some d, n)), last_obs := (last_obs m)(s \<mapsto> x)\<rparr>"
  have "feed m s (x # xs) = feed ?m s xs" using assms(3) n by (simp add: observe_req)
  moreover have "s \<in> required_sources ?m" using assms(3) by (simp add: required_sources_def)
  ultimately have f: "runs (feed m s (x # xs)) s = Some (Some d, n + int (length xs))"
    "last_obs (feed m s (x # xs)) s = Some (last (x # xs))"
    using stuck_run [of s ?m x d n xs] assms(5,6) by simp_all
  have "frozen_rule (feed m s (x # xs)) s lm"
    using f(1) n1 assms(7) by (simp add: frozen_rule_def)
  moreover have "\<not> stale_rule (feed m s (x # xs)) s lm now" "\<not> absent_rule (feed m s (x # xs)) s"
    using f(2) assms(8) by (auto simp: stale_rule_def absent_rule_def Let_def)
  ultimately show ?thesis using assms(1) by (simp add: verdict_rules)
qed

definition stuck_frame :: "string \<Rightarrow> pyfloat \<Rightarrow> pyfloat \<Rightarrow> observation" where
  "stuck_frame d t r = \<lparr>stamp_s = t, received_s = r, valid_fraction = Fin 1, digest = Some d\<rparr>"

theorem frozen_sender_detected_witness:
  "verdict (feed sample_monitor ''cliff_scan''
      [stuck_frame ''a'' (Fin 1) (Fin 1), stuck_frame ''a'' (Fin 2) (Fin 1), stuck_frame ''a'' (Fin 3) (Fin 1)])
     ''cliff_scan'' sample_limits (Fin 1) = FROZEN"
  using frozen_sender_detected [OF sample_limits_ok, of sample_monitor "''cliff_scan''" "stuck_frame ''a'' (Fin 1) (Fin 1)" "''a''"
      "[stuck_frame ''a'' (Fin 2) (Fin 1), stuck_frame ''a'' (Fin 3) (Fin 1)]" "Fin 1"]
  by (simp add: sample_monitor_def runs_ok_def required_sources_def stuck_frame_def sample_limits_def minus_self)

text \<open>The observation an unreadable coverage payload becomes.\<close>

definition garbage :: "pyfloat \<Rightarrow> observation" where
  "garbage r = \<lparr>stamp_s = NaN, received_s = r, valid_fraction = NaN, digest = None\<rparr>"

lemma coverage_garbage: "coverage_observation None (PFloat r) = Inr (garbage r)"
  by (simp add: coverage_observation_def make_observation_def garbage_def)

lemma garbage_exists [simp]: "\<exists>r'. garbage r = garbage r'"
  by blast

lemma garbage_run:
  assumes "s \<in> required_sources m" and "runs m s = None \<and> last_obs m s = None
      \<or> runs m s = Some (Some d, 1) \<and> (\<exists>r. last_obs m s = Some (garbage r))"
  shows "let m' = feed m s (concat (map (\<lambda>t. [stuck_frame d t r0, garbage r0]) ts)) in
    s \<in> required_sources m' \<and> limits m' = limits m
    \<and> (runs m' s = None \<and> last_obs m' s = None
       \<or> runs m' s = Some (Some d, 1) \<and> (\<exists>r. last_obs m' s = Some (garbage r)))"
  using assms
proof (induction ts arbitrary: m)
  case (Cons t ts)
  let ?m = "m\<lparr>runs := (runs m)(s \<mapsto> (Some d, 1)), last_obs := (last_obs m)(s \<mapsto> garbage r0)\<rparr>"
  have "feed m s [stuck_frame d t r0, garbage r0] = ?m"
    using Cons.prems
    by (auto simp: observe_req required_sources_def advance_run_def run_of_def stuck_frame_def garbage_def)
  moreover have "s \<in> required_sources ?m" using Cons.prems by (simp add: required_sources_def)
  ultimately show ?case using Cons.IH [of ?m]
    by (simp add: feed_append [of m s "[stuck_frame d t r0, garbage r0]", simplified])
qed simp

text \<open>
  Unreadable frames hide a freeze: a sender that alternates a frozen frame (the same content
  with an ever advancing stamp) with a corrupt payload is never reported frozen. After any number of
  such pairs the run still counts one, and the next frozen frame is judged \<open>OK\<close>.
\<close>

theorem garbage_hides_freeze:
  assumes "lim_ok lm" and "s \<in> required_sources m" and "runs m s = None" and "last_obs m s = None"
    and "isfinite t" and "isfinite now" and "isfinite r" and "Fin 0 \<le> now - r" and "now - r \<le> stale_after lm"
  shows "verdict (feed m s (concat (map (\<lambda>t. [stuck_frame d t r0, garbage r0]) ts) @ [stuck_frame d t r])) s lm now = OK"
proof -
  let ?m = "feed m s (concat (map (\<lambda>t. [stuck_frame d t r0, garbage r0]) ts))"
  have g: "s \<in> required_sources ?m \<and> (runs ?m s = None \<and> last_obs ?m s = None
      \<or> runs ?m s = Some (Some d, 1) \<and> (\<exists>r. last_obs ?m s = Some (garbage r)))"
    using garbage_run [OF assms(2), of d r0 ts] assms(3,4) by (simp add: Let_def)
  then have "advance_run ?m s (stuck_frame d t r) = (Some d, 1)"
    by (auto simp: advance_run_def run_of_def stuck_frame_def garbage_def)
  then show ?thesis using g assms
    by (simp add: feed_append observe_req verdict_OK absent_rule_def stale_rule_def frozen_rule_def
        invalid_rule_def stuck_frame_def lim_ok_def)
qed

theorem garbage_hides_freeze_witness:
  "verdict (feed sample_monitor ''cliff_scan''
      (concat (map (\<lambda>t. [stuck_frame ''a'' t (Fin 1), garbage (Fin 1)]) [Fin 1, Fin 2, Fin 3, Fin 4])
        @ [stuck_frame ''a'' (Fin 5) (Fin 1)])) ''cliff_scan'' sample_limits (Fin 1) = OK"
  using garbage_hides_freeze [OF sample_limits_ok, of "''cliff_scan''" sample_monitor "Fin 5" "Fin 1" "Fin 1"
      "''a''" "Fin 1" "[Fin 1, Fin 2, Fin 3, Fin 4]"]
  by (simp add: sample_monitor_def required_sources_def sample_limits_def minus_self)

end
