(* ===== verification/GuardLogicProps.thy ===== *)
theory GuardLogicProps
  imports GuardLogic SensorHealth
begin

text \<open>
  What the guard logic guarantees: a robot is stopped exactly when one of the six stop hazards
  holds, unknown inputs count as hazards, the displacement gate cannot close by driving, and the
  operator stop is held until an explicit clear.
\<close>

section \<open>Hazards\<close>

definition known_pose :: "bot_state \<Rightarrow> (pyfloat \<times> pyfloat) option" where
  "known_pose b = (case (pos_x b, pos_y b) of
     (Some x, Some y) \<Rightarrow> if isfinite x \<and> isfinite y then Some (x, y) else None | _ \<Rightarrow> None)"

definition near_collision :: "libm \<Rightarrow> guard_config \<Rightarrow> bot_state \<Rightarrow> bot_state \<Rightarrow> bool" where
  "near_collision lib cfg a b \<longleftrightarrow> (\<exists>p q. known_pose a = Some p \<and> known_pose b = Some q
     \<and> distance lib (fst p) (snd p) (fst q) (snd q) < distance_threshold cfg)"

definition battery_hazard :: "bot_state \<Rightarrow> bool" where
  "battery_hazard b \<longleftrightarrow> (\<exists>p. battery_pct b = Some p \<and> isfinite p \<and> battery_is_critical p)"

text \<open>An age is fresh when it is a reading of the clock within the window.\<close>

definition fresh :: "pyfloat option \<Rightarrow> pyfloat \<Rightarrow> bool" where
  "fresh age window \<longleftrightarrow> (\<exists>a. age = Some a \<and> Fin 0 \<le> a \<and> a \<le> window)"

definition parked :: "guard_config \<Rightarrow> bot_state \<Rightarrow> bool" where
  "parked cfg b \<longleftrightarrow> (\<exists>me ae d w. motion_epsilon cfg = Some me \<and> angular_epsilon cfg = Some ae
     \<and> odom_disp_since_pose b = Some d \<and> odom_dyaw_since_pose b = Some w
     \<and> isfinite me \<and> isfinite ae \<and> isfinite d \<and> isfinite w \<and> d \<le> me \<and> \<bar>w\<bar> \<le> ae)"

definition pose_hazard :: "guard_config \<Rightarrow> bot_state \<Rightarrow> bool" where
  "pose_hazard cfg b \<longleftrightarrow> pose_age b \<noteq> None \<and> \<not> fresh (pose_age b) (pose_freshness_timeout cfg) \<and> \<not> parked cfg b"

definition scan_hazard :: "guard_config \<Rightarrow> bot_state \<Rightarrow> bool" where
  "scan_hazard cfg b \<longleftrightarrow> \<not> fresh (scan_age b) (scan_freshness_timeout cfg)
     \<and> (odom_seen b \<or> (\<exists>a. scan_age b = Some a \<and> scan_freshness_timeout cfg < a))"

definition terrain_hazard :: "bot_state \<Rightarrow> bool" where
  "terrain_hazard b \<longleftrightarrow> (\<exists>v. terrain_verdict b = Some v \<and> v \<noteq> ''OK'' \<and> (v = ''ABSENT'' \<longrightarrow> odom_seen b))"

definition hazard :: "libm \<Rightarrow> guard_config \<Rightarrow> bot_state \<Rightarrow> bot_state \<Rightarrow> bot_state \<Rightarrow> bool" where
  "hazard lib cfg a b x \<longleftrightarrow> near_collision lib cfg a b \<or> battery_hazard x \<or> pose_hazard cfg x
     \<or> operator_stop_requested x \<or> scan_hazard cfg x \<or> terrain_hazard x"

text \<open>The windows are configured numbers; the scan window is validated at startup.\<close>

definition cfg_ok :: "guard_config \<Rightarrow> bool" where
  "cfg_ok cfg \<longleftrightarrow> \<not> isnan (pose_freshness_timeout cfg) \<and> Fin 0 < scan_freshness_timeout cfg
     \<and> isfinite (scan_freshness_timeout cfg)"

section \<open>The rules one by one\<close>

lemma estop_simps [simp]:
  "d_bot (estop b w d) = b" "d_action (estop b w d) = ''estop''" "d_reason (estop b w d) = w"
  "d_detail (estop b w d) = d"
  by (simp_all add: estop_def)

lemma stop_append [simp]:
  "stop_requested_for (xs @ ys) r \<longleftrightarrow> stop_requested_for xs r \<or> stop_requested_for ys r"
  "\<not> stop_requested_for [] r"
  by (auto simp: stop_requested_for_def)

lemma stop_cons [simp]:
  "stop_requested_for (d # ds) r \<longleftrightarrow> d_bot d = r \<and> d_action d = ''estop'' \<or> stop_requested_for ds r"
  by (auto simp: stop_requested_for_def)

lemma proximity_stop:
  "stop_requested_for (proximity_rule lib cfg a b) r \<longleftrightarrow>
     near_collision lib cfg a b \<and> (r = bot a \<or> r = bot b)"
  by (auto simp: proximity_rule_def near_collision_def known_pose_def has_pose_def Let_def
      split: option.splits if_splits)

lemma battery_stop: "stop_requested_for (battery_rule b) r \<longleftrightarrow> battery_hazard b \<and> r = bot b"
  by (auto simp: battery_rule_def battery_hazard_def split: option.splits)

lemma blocked_stop: "\<not> stop_requested_for (blocked_rule cfg b) r"
  by (simp add: blocked_rule_def)

lemma unknown_iff: "age_is_unknown (Some a) \<longleftrightarrow> \<not> Fin 0 \<le> a"
  by (cases a) (auto simp: age_is_unknown_def)

lemma fresh_iff:
  "\<not> isnan w \<Longrightarrow> fresh (Some a) w \<longleftrightarrow> \<not> age_is_unknown (Some a) \<and> \<not> w < a"
  by (cases a; cases w) (auto simp: fresh_def age_is_unknown_def)

lemma gate_open_iff: "pose_gate_open b (motion_epsilon cfg) (angular_epsilon cfg) \<longleftrightarrow> \<not> parked cfg b"
proof -
  have "isfinite x \<Longrightarrow> isfinite y \<Longrightarrow> \<not> x < y \<longleftrightarrow> y \<le> x" for x y :: pyfloat
    by (cases x; cases y) auto
  moreover have "isfinite x \<Longrightarrow> isfinite \<bar>x\<bar>" for x :: pyfloat by (cases x) auto
  ultimately show ?thesis
    by (fastforce simp: pose_gate_open_def parked_def split: option.splits)
qed

lemma pose_stop:
  "cfg_ok cfg \<Longrightarrow> stop_requested_for (pose_rule cfg b) r \<longleftrightarrow> pose_hazard cfg b \<and> r = bot b"
  by (auto simp: pose_rule_def pose_hazard_def gate_open_iff fresh_iff cfg_ok_def split: option.splits)

lemma operator_stop: "stop_requested_for (operator_rule b) r \<longleftrightarrow> operator_stop_requested b \<and> r = bot b"
  by (auto simp: operator_rule_def)

lemma scan_stale_iff: "cfg_ok cfg \<Longrightarrow> scan_is_stale cfg b \<longleftrightarrow> scan_hazard cfg b"
proof (cases "scan_age b")
  case None
  then show ?thesis by (auto simp: scan_is_stale_def scan_hazard_def age_is_unknown_def fresh_def)
next
  case (Some a)
  assume c: "cfg_ok cfg"
  then have "\<not> isnan (scan_freshness_timeout cfg)"
    by (cases "scan_freshness_timeout cfg") (auto simp: cfg_ok_def)
  moreover have "age_is_unknown (Some a) \<Longrightarrow> \<not> scan_freshness_timeout cfg < a"
    using c by (cases a; cases "scan_freshness_timeout cfg") (auto simp: cfg_ok_def age_is_unknown_def)
  ultimately show ?thesis by (auto simp: Some scan_is_stale_def scan_hazard_def fresh_iff)
qed

lemma scan_stop:
  "cfg_ok cfg \<Longrightarrow> stop_requested_for (scan_rule cfg b) r \<longleftrightarrow> scan_hazard cfg b \<and> r = bot b"
  by (auto simp: scan_rule_def scan_stale_iff)

lemma terrain_stop: "stop_requested_for (terrain_rule b) r \<longleftrightarrow> terrain_hazard b \<and> r = bot b"
  by (auto simp: terrain_rule_def terrain_hazard_def split: option.splits)

lemma stop_hazard_iff:
  assumes "cfg_ok cfg"
  shows "stop_requested_for (evaluate lib cfg a b) r \<longleftrightarrow>
    (\<exists>x \<in> {a, b}. bot x = r \<and> hazard lib cfg a b x)"
  using assms
  by (auto simp: evaluate_def proximity_stop battery_stop blocked_stop pose_stop operator_stop
      scan_stop terrain_stop hazard_def)

text \<open>
  C9. The reflex is complete and precise: a robot is stopped in a tick exactly when it is too close
  to the other, its battery is critical, its pose is stale while it may be moving, the operator
  stop is held, its lidar is silent although it is alive, or its terrain observation is not
  established; every unknown, negative or NaN age counts as not fresh, a blocked robot alone is
  never stopped, and no other robot is stopped on its account.
\<close>

theorem stop_iff_hazard:
  assumes "cfg_ok cfg"
  shows "stop_requested_for (evaluate lib cfg a b) r \<longleftrightarrow>
    (\<exists>x \<in> {a, b}. bot x = r \<and> hazard lib cfg a b x)"
  using assms by (rule stop_hazard_iff)

definition plain_libm :: libm where
  "plain_libm = \<lparr>m_hypot = (\<lambda>a b. \<bar>a\<bar> + \<bar>b\<bar>), m_sin = (\<lambda>a. a), m_cos = (\<lambda>a. Fin 1), m_atan2 = (\<lambda>a b. a)\<rparr>"

definition sample_config :: guard_config where
  "sample_config = \<lparr>distance_threshold = Fin (3/10), blocked_timeout = Fin 10, pose_freshness_timeout = Fin 2,
     scan_freshness_timeout = Fin 1, motion_epsilon = Some (Fin (1/2)), angular_epsilon = Some (Fin (1/2))\<rparr>"

definition quiet_bot :: "string \<Rightarrow> bot_state" where
  "quiet_bot b = \<lparr>bot = b, pos_x = None, pos_y = None, battery_pct = None, blocked_duration = Fin 0,
     pose_age = None, odom_disp_since_pose = None, odom_dyaw_since_pose = None, operator_stop_requested = False,
     scan_age = None, odom_seen = False, terrain_source = None, terrain_verdict = None, terrain_health_epoch = None\<rparr>"

theorem stop_iff_hazard_witness:
  "\<not> stop_requested_for (evaluate plain_libm sample_config (quiet_bot ''bot1'') (quiet_bot ''bot2'')) ''bot1''
   \<and> stop_requested_for (evaluate plain_libm sample_config ((quiet_bot ''bot1'')\<lparr>odom_seen := True\<rparr>) (quiet_bot ''bot2'')) ''bot1''"
proof -
  have c: "cfg_ok sample_config" by (simp add: cfg_ok_def sample_config_def)
  show ?thesis
    by (simp add: stop_iff_hazard [OF c])
      (simp add: hazard_def near_collision_def known_pose_def battery_hazard_def pose_hazard_def scan_hazard_def
        terrain_hazard_def fresh_def quiet_bot_def)
qed

section \<open>The displacement gate over time\<close>

datatype gate_event = Odom string pyfloat pyfloat pyfloat pyfloat | Pose string

fun gate_event_step :: "libm \<Rightarrow> pose_gate \<Rightarrow> gate_event \<Rightarrow> pose_gate" where
  "gate_event_step lib g (Odom b x y yaw t) = snd (on_odom lib g b x y yaw t)"
| "gate_event_step lib g (Pose b) = on_pose g b"

definition gate_events :: "libm \<Rightarrow> pose_gate \<Rightarrow> gate_event list \<Rightarrow> pose_gate" where
  "gate_events lib = foldl (gate_event_step lib)"

text \<open>\<open>hypot\<close> returns a binary64 value, and a length unless an argument is NaN.\<close>

definition hypot_law :: "libm \<Rightarrow> bool" where
  "hypot_law lib \<longleftrightarrow> (\<forall>a b. is_double (m_hypot lib a b) \<and> (isnan a \<or> isnan b \<or> 0 \<le> m_hypot lib a b))"

lemma distance_law:
  assumes "hypot_law lib" and "isfinite px" "isfinite py" "isfinite x" "isfinite y"
  shows "is_double (distance lib px py x y) \<and> 0 \<le> distance lib px py x y"
  using assms minus_not_nan [of px x] minus_not_nan [of py y] unfolding hypot_law_def distance_def by blast

lemma plus_length_ge: "is_double a \<Longrightarrow> 0 \<le> a \<Longrightarrow> 0 \<le> b \<Longrightarrow> a \<le> a + b"
proof (cases "isfinite a")
  case False
  then show "0 \<le> a \<Longrightarrow> 0 \<le> b \<Longrightarrow> ?thesis" by (cases a; cases b) (auto simp: zero_pyfloat_def)
qed (rule plus_nonneg_ge)

fun clean_for :: "string \<Rightarrow> gate_event \<Rightarrow> bool" where
  "clean_for r (Odom b x y yaw t) = (b = r \<longrightarrow> isfinite x \<and> isfinite y \<and> isfinite yaw \<and> isfinite t)"
| "clean_for r (Pose b) = (b \<noteq> r)"

definition gate_finite :: "pose_gate \<Rightarrow> bool" where
  "gate_finite g \<longleftrightarrow> (\<forall>b x y w. pg_last g b = Some (x, y, w) \<longrightarrow> isfinite x \<and> isfinite y \<and> isfinite w)"

lemma gate_finite_step [py_inv]: "gate_finite g \<Longrightarrow> gate_finite (gate_event_step lib g ev)"
  by (cases ev) (auto simp: gate_finite_def on_odom_def forget_def on_pose_def Let_def
      split: option.splits sum.splits if_splits)

lemma odom_frame:
  "b \<noteq> r \<Longrightarrow> pg_disp (snd (on_odom lib g b x y yaw t)) r = pg_disp g r"
  by (auto simp: on_odom_def forget_def Let_def split: option.split sum.split prod.split)

lemma odom_travel:
  assumes "isfinite x" "isfinite y" "isfinite yaw" "isfinite t" and "pg_disp g r = Some d"
  shows "pg_disp (snd (on_odom lib g r x y yaw t)) r =
    Some (case pg_last g r of None \<Rightarrow> d | Some (px, py, w) \<Rightarrow> d + distance lib px py x y)"
  using assms by (simp add: on_odom_def dflt_def Let_def split: option.split sum.split prod.split)

definition travel_ge :: "pose_gate \<Rightarrow> string \<Rightarrow> pyfloat \<Rightarrow> bool" where
  "travel_ge g r d \<longleftrightarrow> (\<exists>d'. pg_disp g r = Some d' \<and> is_double d' \<and> 0 \<le> d' \<and> d \<le> d')"

lemma travel_step:
  assumes "hypot_law lib" and "gate_finite g" and "clean_for r ev" and "travel_ge g r d"
  shows "travel_ge (gate_event_step lib g ev) r d"
proof (cases ev)
  case (Odom b x y yaw t)
  obtain d' where d': "pg_disp g r = Some d'" "is_double d'" "0 \<le> d'" "d \<le> d'"
    using assms(4) by (auto simp: travel_ge_def)
  show ?thesis
  proof (cases "b = r")
    case True
    then have fin: "isfinite x" "isfinite y" "isfinite yaw" "isfinite t" using assms(3) by (simp_all add: Odom)
    show ?thesis
    proof (cases "pg_last g r")
      case None
      then show ?thesis using odom_travel [OF fin d'(1)] d' by (auto simp: Odom True travel_ge_def)
    next
      case (Some l)
      obtain px py w where l: "l = (px, py, w)" by (cases l)
      have "isfinite px" "isfinite py" using assms(2) Some by (auto simp: gate_finite_def l)
      then have s: "is_double (distance lib px py x y)" "0 \<le> distance lib px py x y"
        using distance_law [OF assms(1) _ _ fin(1,2)] by auto
      have "d \<le> d' + distance lib px py x y"
        using plus_length_ge [OF d'(2,3) s(2)] d'(4) fle_trans by blast
      moreover have "is_double (d' + distance lib px py x y)" "0 \<le> d' + distance lib px py x y"
        using is_double_plus [OF d'(2) s(1)] plus_nonneg [OF d'(3) s(2)] by simp_all
      ultimately show ?thesis using odom_travel [OF fin d'(1)] Some
        by (simp add: Odom True travel_ge_def l)
    qed
  qed (use d' odom_frame in \<open>auto simp: Odom travel_ge_def\<close>)
next
  case (Pose b)
  then show ?thesis using assms by (auto simp: on_pose_def travel_ge_def)
qed

lemma travel_run:
  "hypot_law lib \<Longrightarrow> gate_finite g \<Longrightarrow> list_all (clean_for r) evs \<Longrightarrow> travel_ge g r d \<Longrightarrow>
    travel_ge (gate_events lib g evs) r d"
proof (induction evs arbitrary: g)
  case (Cons ev evs)
  then show ?case using Cons.IH [of "gate_event_step lib g ev"]
    by (simp add: gate_events_def travel_step gate_finite_step)
qed (simp add: gate_events_def)

text \<open>
  Driving cannot close the displacement gate: once the travel since the last pose exceeds the
  epsilon, the gate is open at every later tick until a pose of that robot arrives, through any
  further readable odometry of this and any samples or poses of other robots, and also when the
  odometry goes silent or runs on another clock.
\<close>

theorem gate_latched_by_travel:
  assumes "hypot_law lib" and "gate_finite g" and "list_all (clean_for r) evs"
    and "pg_disp g r = Some d" and "is_double d" and "0 \<le> d" and "me < d"
  shows "case gate_snapshot (gate_events lib g evs) r now stale of (disp, dyaw) \<Rightarrow>
    pose_gate_open (bs\<lparr>odom_disp_since_pose := disp, odom_dyaw_since_pose := dyaw\<rparr>) (Some me) ae"
proof -
  have "d \<le> d" using assms(6) by (cases d) auto
  then have "travel_ge (gate_events lib g evs) r d"
    using assms by (intro travel_run) (auto simp: travel_ge_def)
  then obtain d' where d': "pg_disp (gate_events lib g evs) r = Some d'" "d \<le> d'"
    by (auto simp: travel_ge_def)
  have "me < d'" using assms(7) d'(2) flt_fle_trans by blast
  then show ?thesis using d'(1)
    by (auto simp: gate_snapshot_def pose_gate_open_def split: option.splits)
qed

definition travelled :: pose_gate where
  "travelled = empty_pose_gate\<lparr>pg_disp := [''bot1'' \<mapsto> Fin 1], pg_dyaw := [''bot1'' \<mapsto> Fin 0],
     pg_last := [''bot1'' \<mapsto> (Fin 0, Fin 0, Fin 0)], pg_odom_t := [''bot1'' \<mapsto> Fin 5]\<rparr>"

definition unit_libm :: libm where
  "unit_libm = \<lparr>m_hypot = (\<lambda>a b. 0), m_sin = (\<lambda>a. a), m_cos = (\<lambda>a. Fin 1), m_atan2 = (\<lambda>a b. a)\<rparr>"

lemma unit_hypot: "hypot_law unit_libm"
  by (simp add: hypot_law_def unit_libm_def zero_pyfloat_def)

theorem gate_latched_by_travel_witness:
  "case gate_snapshot (gate_events unit_libm travelled [Pose ''bot2'', Odom ''bot1'' (Fin 0) (Fin 0) (Fin 0) (Fin 6)])
     ''bot1'' (Fin 6) (Fin 1) of (disp, dyaw) \<Rightarrow>
    pose_gate_open ((quiet_bot ''bot1'')\<lparr>odom_disp_since_pose := disp, odom_dyaw_since_pose := dyaw\<rparr>)
      (Some (Fin (1/2))) (Some (Fin (1/2)))"
  by (rule gate_latched_by_travel [OF unit_hypot, where d = "Fin 1"])
    (simp_all add: gate_finite_def travelled_def empty_pose_gate_def zero_pyfloat_def py_eval)

text \<open>
  Unreadable odometry closes the gate: whatever was travelled since the last pose, one
  non-finite sample followed by one readable sample leaves the gate closed with zero travel, without
  any pose having arrived.
\<close>

theorem bad_odometry_closes_gate:
  assumes "isfinite x" and "isfinite y" and "isfinite w" and "isfinite t" and "isfinite stale" and "Fin 0 \<le> stale"
    and "isfinite me" and "Fin 0 \<le> me" and "isfinite ae" and "Fin 0 \<le> ae"
  shows "case gate_snapshot (gate_events lib g [Odom r NaN y' w' t', Odom r x y w t]) r t stale of (disp, dyaw) \<Rightarrow>
    \<not> pose_gate_open (bs\<lparr>odom_disp_since_pose := disp, odom_dyaw_since_pose := dyaw\<rparr>) (Some me) (Some ae)"
proof -
  have "t - t = Fin 0" using assms(4) minus_self by (cases t) auto
  moreover have "\<not> me < Fin 0" "\<not> ae < Fin 0" using assms(8,10) fle_not_flt by blast+
  ultimately show ?thesis using assms
    by (auto simp: gate_events_def on_odom_def forget_def dflt_def gate_snapshot_def pose_gate_open_def)
qed

theorem bad_odometry_closes_gate_witness:
  "case gate_snapshot (gate_events plain_libm travelled
      [Odom ''bot1'' NaN (Fin 0) (Fin 0) (Fin 6), Odom ''bot1'' (Fin 1) (Fin 0) (Fin 0) (Fin 7)]) ''bot1'' (Fin 7) (Fin 1)
    of (disp, dyaw) \<Rightarrow> \<not> pose_gate_open ((quiet_bot ''bot1'')\<lparr>odom_disp_since_pose := disp, odom_dyaw_since_pose := dyaw\<rparr>)
      (Some (Fin (1/2))) (Some (Fin (1/2)))"
  by (rule bad_odometry_closes_gate) simp_all

end
