(* ===== verification/VisualResolverProps.thy ===== *)
theory VisualResolverProps
  imports VisualResolver GuardLogicProps
begin

text \<open>
  What the visual resolver guarantees: a destination is the nearest known location, within the snap radius,
  of a map point inside the calibrated polygon; every other detection is answered without a destination;
  and on a double polygon nothing raises but the conversion of a huge integer.
\<close>

section \<open>The nearest location\<close>

definition location_distance :: "libm \<Rightarrow> pyfloat \<Rightarrow> pyfloat \<Rightarrow> pyfloat \<times> pyfloat \<Rightarrow> pyfloat" where
  "location_distance lib x y c = m_hypot lib (x - fst c) (y - snd c)"

lemma nearest_from_spec:
  "nearest_from lib x y best coords = (n, d) \<Longrightarrow>
     ((n, d) = best \<or> (\<exists>c. (n, c) \<in> set coords \<and> is_known_location n \<and> d = location_distance lib x y c \<and> d < snd best))
     \<and> (\<forall>n' c. (n', c) \<in> set coords \<longrightarrow> is_known_location n' \<longrightarrow> \<not> location_distance lib x y c < d)"
proof (induction coords arbitrary: best)
  case (Cons p coords)
  obtain name c where p: "p = (name, c)" by (cases p)
  let ?dist = "location_distance lib x y c"
  define b where "b = (if is_known_location name \<and> ?dist < snd best then (name, ?dist) else best)"
  have "nearest_from lib x y b coords = (n, d)"
    using Cons.prems by (cases c) (auto simp: p b_def location_distance_def split: if_splits)
  note r = conjunct1 [OF Cons.IH [OF this]] and near = conjunct2 [OF Cons.IH [OF this], rule_format]
  have le: "d = snd b \<or> d \<le> snd b" using r
  proof
    assume "(n, d) = b"
    then show ?thesis by (simp flip: \<open>(n, d) = b\<close>)
  qed (use flt_le in blast)
  have "\<not> ?dist < d" if "is_known_location name"
  proof (cases "?dist < snd best")
    case True
    then have "snd b = ?dist" using that by (simp add: b_def)
    then show ?thesis using le fle_not_flt [of d ?dist] by auto
  next
    case False
    then have "snd b = snd best" by (simp add: b_def)
    then show ?thesis using le False flt_fle_trans [of ?dist d "snd best"] by auto
  qed
  then have "\<forall>n' c'. (n', c') \<in> set (p # coords) \<longrightarrow> is_known_location n' \<longrightarrow> \<not> location_distance lib x y c' < d"
    using near by (auto simp: p)
  moreover have "(n, d) = best \<or>
      (\<exists>c. (n, c) \<in> set (p # coords) \<and> is_known_location n \<and> d = location_distance lib x y c \<and> d < snd best)"
  proof (cases "is_known_location name \<and> ?dist < snd best")
    case True
    then have b: "b = (name, ?dist)" by (simp add: b_def)
    have in_set: "(name, c) \<in> set (p # coords)" by (simp add: p)
    from r show ?thesis
    proof
      assume "(n, d) = b"
      then show ?thesis using True in_set by (metis b Pair_inject)
    next
      assume "\<exists>c. (n, c) \<in> set coords \<and> is_known_location n \<and> d = location_distance lib x y c \<and> d < snd b"
      then obtain c' where "(n, c') \<in> set coords" "is_known_location n" "d = location_distance lib x y c'" "d < ?dist"
        by (auto simp: b)
      moreover have "d < snd best" using \<open>d < ?dist\<close> True flt_le flt_fle_trans by blast
      ultimately show ?thesis by (metis list.set_intros(2))
    qed
  next
    case False
    then have "b = best" unfolding b_def by (rule if_not_P)
    then show ?thesis using r by (metis list.set_intros(2))
  qed
  ultimately show ?case by blast
qed simp

lemma nearest_spec:
  assumes "nearest_known_location lib x y coords = (n, d)" and "n \<noteq> []"
  obtains c where "(n, c) \<in> set coords" "is_known_location n" "d = location_distance lib x y c" "d < PInf"
    "\<And>n' c'. (n', c') \<in> set coords \<Longrightarrow> is_known_location n' \<Longrightarrow> \<not> location_distance lib x y c' < d"
  using nearest_from_spec [OF assms(1) [unfolded nearest_known_location_def]] assms(2) by auto

section \<open>What a resolved target means\<close>

definition class_agrees :: "visual_policy \<Rightarrow> detection \<Rightarrow> string \<Rightarrow> bool" where
  "class_agrees pol d name \<longleftrightarrow>
     (\<forall>c e. det_color d = Some c \<longrightarrow> map_of (vp_location_classes pol) name = Some e \<longrightarrow> c = e)"

definition snapped :: "libm \<Rightarrow> visual_policy \<Rightarrow> pyfloat \<Rightarrow> pyfloat \<Rightarrow> string \<Rightarrow> bool" where
  "snapped lib pol x y name \<longleftrightarrow> is_known_location name \<and> isfinite (vp_snap_radius_m pol) \<and>
     (\<exists>c. (name, c) \<in> set (vp_location_coords pol) \<and> location_distance lib x y c \<le> vp_snap_radius_m pol
        \<and> (\<forall>n' c'. (n', c') \<in> set (vp_location_coords pol) \<longrightarrow> is_known_location n' \<longrightarrow>
              \<not> location_distance lib x y c' < location_distance lib x y c))"

lemma unresolved_target [simp]:
  "unresolved i r = Inr \<lparr>rs_target = i, rs_kind = UNRESOLVED, rs_destination = None, rs_confidence = Fin 0,
     rs_reason = reason_value r\<rparr>"
  by (simp add: unresolved_def make_target_def)

lemma snap_spec:
  assumes "snap lib pol d x y = Inr t"
  shows "rs_target t = det_id d"
    and "(rs_kind t = UNRESOLVED \<and> rs_destination t = None) \<or>
      (rs_kind t = KNOWN_LOCATION \<and> (\<exists>name. rs_destination t = Some name \<and> snapped lib pol x y name \<and> class_agrees pol d name))"
proof -
  obtain n dist where n: "nearest_known_location lib x y (vp_location_coords pol) = (n, dist)" by (metis surj_pair)
  show "rs_target t = det_id d"
    using assms by (auto simp: snap_def n bindR_Inr_iff make_target_def split: if_splits)
  have "snapped lib pol x y n" if ok: "n \<noteq> []" "isfinite (vp_snap_radius_m pol)" "\<not> vp_snap_radius_m pol < dist"
  proof -
    obtain c where c: "(n, c) \<in> set (vp_location_coords pol)" "is_known_location n"
      "dist = location_distance lib x y c" "dist < PInf"
      "\<And>n' c'. (n', c') \<in> set (vp_location_coords pol) \<Longrightarrow> is_known_location n' \<Longrightarrow> \<not> location_distance lib x y c' < dist"
      using nearest_spec [OF n ok(1)] by blast
    then have "dist \<le> vp_snap_radius_m pol" using ok(2,3) not_flt [of "vp_snap_radius_m pol" dist] flt_not_nan by simp
    then show ?thesis unfolding snapped_def using c ok(2) by blast
  qed
  then show "(rs_kind t = UNRESOLVED \<and> rs_destination t = None) \<or>
      (rs_kind t = KNOWN_LOCATION \<and> (\<exists>name. rs_destination t = Some name \<and> snapped lib pol x y name \<and> class_agrees pol d name))"
    using assms by (auto simp: snap_def n bindR_Inr_iff make_target_def class_agrees_def split: if_splits option.splits)
qed

definition on_map :: "visual_policy \<Rightarrow> calibration \<Rightarrow> detection \<Rightarrow> pyfloat \<Rightarrow> pyfloat \<Rightarrow> bool" where
  "on_map pol cal d x y \<longleftrightarrow> locate pol cal d = Inr (Inr (x, y))"

lemma on_map_spec:
  assumes "on_map pol cal d x y"
  shows "isfinite x \<and> isfinite y \<and> point_in_polygon x y (cal_valid_polygon cal) = Inr True
    \<and> is_valid_homography (cal_homography cal)
    \<and> (\<forall>e. cal_reprojection_error cal = Some e \<longrightarrow> isfinite e \<and> \<not> vp_max_reprojection_error pol < e)"
  using assms unfolding on_map_def locate_def
  by (auto simp: bindR_Inr_iff Let_def split: if_splits list.splits option.splits)

lemma resolve_one_spec:
  assumes "resolve_one lib pol cal d = Inr t"
  shows "rs_target t = det_id d"
    and "(rs_kind t = UNRESOLVED \<and> rs_destination t = None) \<or>
      (rs_kind t = KNOWN_LOCATION \<and> (\<exists>name x y. rs_destination t = Some name \<and> on_map pol cal d x y
         \<and> snapped lib pol x y name \<and> class_agrees pol d name))"
proof -
  from assms obtain r where r: "locate pol cal d = Inr r" by (auto simp: resolve_one_def bindR_Inr_iff)
  show "rs_target t = det_id d"
    using assms snap_spec(1) by (auto simp: resolve_one_def r split: sum.splits prod.splits)
  show "(rs_kind t = UNRESOLVED \<and> rs_destination t = None) \<or>
      (rs_kind t = KNOWN_LOCATION \<and> (\<exists>name x y. rs_destination t = Some name \<and> on_map pol cal d x y
         \<and> snapped lib pol x y name \<and> class_agrees pol d name))"
  proof (cases r)
    case (Inl e)
    then show ?thesis using assms by (auto simp: resolve_one_def r)
  next
    case (Inr p)
    obtain x y where p: "p = (x, y)" by (cases p)
    have "snap lib pol d x y = Inr t" using assms by (simp add: resolve_one_def r Inr p)
    from snap_spec(2) [OF this] show ?thesis using r by (auto simp: Inr p on_map_def)
  qed
qed

lemma resolve_each_spec:
  "resolve_each lib pol cal ds = Inr ts \<longleftrightarrow> list_all2 (\<lambda>d t. resolve_one lib pol cal d = Inr t) ds ts"
proof (induction ds arbitrary: ts)
  case (Cons d ds)
  then show ?case by (cases ts) (auto simp: bindR_Inr_iff)
qed auto

lemma resolve_spec:
  assumes "resolve lib pol draft cal = Inr ts"
  shows "map rs_target ts = map det_id (detections draft)"
    and "t \<in> set ts \<Longrightarrow> \<exists>d \<in> set (detections draft). resolve_one lib pol cal d = Inr t"
proof -
  have l: "list_all2 (\<lambda>d t. resolve_one lib pol cal d = Inr t) (detections draft) ts"
    using assms by (simp add: resolve_def resolve_each_spec)
  then show "map rs_target ts = map det_id (detections draft)"
    by (induction rule: list_all2_induct) (simp_all add: resolve_one_spec(1))
  show "t \<in> set ts \<Longrightarrow> \<exists>d \<in> set (detections draft). resolve_one lib pol cal d = Inr t"
    using l by (induction rule: list_all2_induct) auto
qed

section \<open>Nothing raises but a huge integer\<close>

definition double_polygon :: "pyfloat list list \<Rightarrow> bool" where
  "double_polygon poly \<longleftrightarrow> (\<forall>row \<in> set poly. \<forall>a \<in> set row. is_double a)"

lemma distinct_doubles_apart:
  "is_double a \<Longrightarrow> is_double b \<Longrightarrow> (y < a) \<noteq> (y < b) \<Longrightarrow> b - a \<noteq> Fin 0"
proof -
  assume d: "is_double a" "is_double b" and y: "(y < a) \<noteq> (y < b)"
  have "Fin u - Fin v \<noteq> Fin 0" if "is_double (Fin u)" "is_double (Fin v)" "u \<noteq> v" for u v
  proof (cases "u < v")
    case True
    then have "Fin u - Fin v < 0" using minus_neg_iff that by blast
    then show ?thesis by (metis flt_irrefl zero_pyfloat_def)
  next
    case False
    then have "0 < Fin u - Fin v" using minus_pos [of v u] that by simp
    then show ?thesis by (metis flt_irrefl zero_pyfloat_def)
  qed
  then show ?thesis using d y by (cases a; cases b) (auto simp del: minus_Fin simp: minus_pyfloat_def)
qed

lemma fdiv_total: "b \<noteq> Fin 0 \<Longrightarrow> \<exists>q. fdiv a b = Inr q"
  by (cases b) auto

lemma crosses_total:
  assumes "double_polygon poly" "i \<in> set poly" "j \<in> set poly" "2 \<le> length i" "2 \<le> length j"
  shows "\<exists>c. crosses x y i j = Inr c"
proof -
  have "is_double (i ! 1)" "is_double (j ! 1)"
    using assms by (simp_all add: double_polygon_def Suc_le_eq)
  then show ?thesis
    using fdiv_total distinct_doubles_apart unfolding crosses_def Let_def by (metis bindR.simps(2))
qed

lemma ray_loop_total:
  assumes "double_polygon poly" "\<forall>row \<in> set poly. 2 \<le> length row" "j \<in> set poly" "set rows \<subseteq> set poly"
  shows "\<exists>c. ray_loop x y j rows inside = Inr c"
  using assms(3,4)
proof (induction rows arbitrary: j inside)
  case (Cons i rows)
  obtain c where "crosses x y i j = Inr c" using crosses_total [OF assms(1), of i j x y] assms(2) Cons.prems by auto
  then show ?case using Cons by auto
qed simp

lemma polygon_total: "double_polygon poly \<Longrightarrow> \<exists>b. point_in_polygon x y poly = Inr b"
  unfolding point_in_polygon_def by (auto intro!: ray_loop_total last_in_set simp: not_less)

lemma homography_total: "is_valid_homography m \<Longrightarrow> \<exists>p. apply_homography m u v = Inr p"
proof -
  assume "is_valid_homography m"
  then obtain det where "det3 m = Some det" by (auto simp: is_valid_homography_def split: option.splits)
  then obtain a b c d e f g h i where m: "m = [[a, b, c], [d, e, f], [g, h, i]]"
    by (cases m rule: det3.cases) auto
  let ?w = "g * u + h * v + i"
  have "Fin 0 \<le> DEGENERATE" using fround_mono [of 0 "1 / 10 ^ 12"] by (simp add: DEGENERATE_def)
  then have "\<not> ?w \<le> DEGENERATE \<Longrightarrow> ?w \<noteq> Fin 0" by auto
  then show ?thesis using fdiv_total unfolding m apply_homography.simps Let_def by (metis bindR.simps(2))
qed

text \<open>An integer that \<open>float\<close> accepts.\<close>

definition float_range :: "int \<Rightarrow> bool" where
  "float_range n \<longleftrightarrow> float_of_int n \<noteq> Inl OverflowError"

lemma float_rangeE: "float_range n \<Longrightarrow> \<exists>a. float_of_int n = Inr a"
  by (auto simp: float_range_def float_of_int_def split: pyfloat.splits)

definition calibration_in_range :: "calibration \<Rightarrow> bool" where
  "calibration_in_range cal \<longleftrightarrow> double_polygon (cal_valid_polygon cal) \<and> list_all float_range (case cal_image_size cal of None \<Rightarrow> [] | Some s \<Rightarrow> s)"

lemma scale_total: "calibration_in_range cal \<Longrightarrow> \<exists>r. pixel_scale cal = Inr r"
proof -
  assume r: "calibration_in_range cal"
  have "\<exists>r. bindR (float_of_int w) (\<lambda>w. bindR (fdiv w NORMALIZED_MAX) (\<lambda>sx.
        bindR (float_of_int h) (\<lambda>h. bindR (fdiv h NORMALIZED_MAX) (\<lambda>sy. Inr (Some (sx, sy)))))) = Inr r"
    if size: "cal_image_size cal = Some [w, h]" for w h
  proof -
    obtain w' h' where "float_of_int w = Inr w'" "float_of_int h = Inr h'"
      using r size float_rangeE [of w] float_rangeE [of h] by (auto simp: calibration_in_range_def)
    then show ?thesis using fdiv_total [of NORMALIZED_MAX] by (auto simp: NORMALIZED_MAX_def)
  qed
  then show ?thesis by (auto simp: pixel_scale_def split: option.splits list.splits)
qed

lemma locate_total:
  assumes "calibration_in_range cal" and "list_all float_range (det_pixel d)"
  shows "\<exists>r. locate pol cal d = Inr r"
proof (cases "is_valid_homography (cal_homography cal) \<and> length (det_pixel d) \<ge> 2")
  case True
  then obtain pu pv ps where px: "det_pixel d = pu # pv # ps" by (cases "det_pixel d"; cases "tl (det_pixel d)") auto
  obtain u v scale where uv: "float_of_int pu = Inr u" "float_of_int pv = Inr v" "pixel_scale cal = Inr scale"
    using assms(2) float_rangeE [of pu] float_rangeE [of pv] scale_total [OF assms(1)] by (auto simp: px)
  have hom: "\<exists>p. apply_homography (cal_homography cal) a b = Inr p" for a b using homography_total True by blast
  have poly: "\<exists>b. point_in_polygon x y (cal_valid_polygon cal) = Inr b" for x y
    using polygon_total assms(1) by (simp add: calibration_in_range_def)
  have last: "\<exists>r. bindR (apply_homography (cal_homography cal) a b) (\<lambda>(x, y).
      if \<not> (isfinite x \<and> isfinite y) then Inr (Inl OFF_MAP)
      else bindR (point_in_polygon x y (cal_valid_polygon cal)) (\<lambda>inside.
        if \<not> inside then Inr (Inl OUTSIDE_VALID_POLYGON) else Inr (Inr (x, y)))) = Inr r" for a b
  proof -
    obtain x y where xy: "apply_homography (cal_homography cal) a b = Inr (x, y)" using hom by fast
    show ?thesis using poly [of x y] by (auto simp: xy)
  qed
  show ?thesis using last by (cases scale) (auto simp: locate_def px uv Let_def split: prod.splits)
next
  case False
  then show ?thesis by (cases "det_pixel d"; cases "tl (det_pixel d)") (auto simp: locate_def)
qed

lemma snap_total: "\<exists>t. snap lib pol d x y = Inr t"
proof -
  have "\<exists>q. fdiv dist r = Inr q" if "Fin 0 < r" for dist r using that by (intro fdiv_total) auto
  then show ?thesis
    by (cases "nearest_known_location lib x y (vp_location_coords pol)")
      (force simp: snap_def Let_def make_target_def split: option.splits)
qed

lemma resolve_one_total:
  assumes "calibration_in_range cal" and "list_all float_range (det_pixel d)"
  shows "\<exists>t. resolve_one lib pol cal d = Inr t"
  using locate_total [OF assms, of pol] snap_total by (auto simp: resolve_one_def split: sum.splits)

lemma resolve_total:
  assumes "calibration_in_range cal" and "\<forall>d \<in> set (detections draft). list_all float_range (det_pixel d)"
  shows "\<exists>ts. resolve lib pol draft cal = Inr ts"
proof -
  have "\<forall>d \<in> set ds. list_all float_range (det_pixel d) \<Longrightarrow> \<exists>ts. resolve_each lib pol cal ds = Inr ts" for ds
  proof (induction ds)
    case (Cons d ds)
    then show ?case using resolve_one_total [OF assms(1), of d lib pol] by auto
  qed simp
  then show ?thesis using assms(2) by (simp add: resolve_def)
qed

lemma destination_grounded:
  assumes "resolve lib pol draft cal = Inr ts" and "t \<in> set ts" and "rs_destination t = Some name"
  shows "rs_kind t = KNOWN_LOCATION \<and> (\<exists>d \<in> set (detections draft). det_id d = rs_target t \<and>
     (\<exists>x y. on_map pol cal d x y \<and> snapped lib pol x y name \<and> class_agrees pol d name))"
proof -
  obtain d where d: "d \<in> set (detections draft)" "resolve_one lib pol cal d = Inr t"
    using resolve_spec(2) [OF assms(1,2)] by blast
  then show ?thesis using resolve_one_spec [OF d(2)] assms(3) by auto
qed

text \<open>
  With a polygon of doubles and pixels and an image size that fit a float, the resolver never raises: it
  answers every detection of the plan, in order, and what it does not snap has no destination.
\<close>

theorem resolver_answers_all:
  assumes "calibration_in_range cal" and "\<forall>d \<in> set (detections draft). list_all float_range (det_pixel d)"
  shows "\<exists>ts. resolve lib pol draft cal = Inr ts \<and> map rs_target ts = map det_id (detections draft)
     \<and> (\<forall>t \<in> set ts. rs_kind t = UNRESOLVED \<longleftrightarrow> rs_destination t = None)"
proof -
  obtain ts where ts: "resolve lib pol draft cal = Inr ts" using resolve_total [OF assms] by blast
  have "rs_kind t = UNRESOLVED \<longleftrightarrow> rs_destination t = None" if "t \<in> set ts" for t
    using resolve_spec(2) [OF ts that] resolve_one_spec(2) by (metis option.distinct(1) resolution_kind.distinct(1))
  then show ?thesis using ts resolve_spec(1) [OF ts] by blast
qed

text \<open>A site whose pixels are the map's centimetres, and a detection on a shelf.\<close>

definition sample_calibration :: calibration where
  "sample_calibration = \<lparr>cal_camera_id = ''overhead'', cal_map_frame = ''map'',
     cal_homography = [[Fin 1, Fin 0, Fin 0], [Fin 0, Fin 1, Fin 0], [Fin 0, Fin 0, Fin 1]],
     cal_reprojection_error = Some (Fin 1),
     cal_valid_polygon = [[Fin 0, Fin 0], [Fin 1000, Fin 0], [Fin 1000, Fin 1000], [Fin 0, Fin 1000]],
     cal_pixel_space = PIXEL_SPACE_RAW, cal_image_size = None\<rparr>"

definition sample_visual_policy :: visual_policy where
  "sample_visual_policy = \<lparr>vp_location_coords = [(''dock'', Fin 512, Fin 310), (''shelf_1'', Fin 512, Fin 300)],
     vp_snap_radius_m = Fin 20, vp_max_reprojection_error = Fin 5,
     vp_compose_confidence = default_compose_confidence, vp_location_classes = []\<rparr>"

theorem resolver_answers_all_witness:
  "\<exists>ts. resolve unit_libm sample_visual_policy ex_draft sample_calibration = Inr ts
     \<and> map rs_target ts = map det_id (detections ex_draft)
     \<and> (\<forall>t \<in> set ts. rs_kind t = UNRESOLVED \<longleftrightarrow> rs_destination t = None)"
proof (rule resolver_answers_all)
  show "calibration_in_range sample_calibration"
    by (auto simp: calibration_in_range_def sample_calibration_def double_polygon_def) code_simp+
  show "\<forall>d \<in> set (detections ex_draft). list_all float_range (det_pixel d)"
    by (simp add: ex_draft_def) code_simp
qed

lemma sample_snap:
  "resolve_one unit_libm sample_visual_policy sample_calibration (hd (detections ex_draft)) =
     Inr \<lparr>rs_target = ''shelf_1'', rs_kind = KNOWN_LOCATION, rs_destination = Some ''shelf_1'',
       rs_confidence = fround (9/10), rs_reason = ''snapped_to_shelf_1''\<rparr>"
  unfolding ex_draft_def by code_simp

section \<open>Two divergences\<close>

text \<open>A pixel of hundreds of digits, which the schema admits, makes the resolver raise instead of answering.\<close>

lemma huge_pixel_overflows:
  "resolve_one unit_libm sample_visual_policy sample_calibration
     \<lparr>det_id = ''a'', det_color = None, det_pixel = [10 ^ 400, 0], confidence = None\<rparr> = Inl OverflowError"
proof -
  have "is_valid_homography (cal_homography sample_calibration)" by code_simp
  moreover have "\<not> vp_max_reprojection_error sample_visual_policy < Fin 1" by code_simp
  ultimately show ?thesis
    using float_of_int_huge by (simp add: resolve_one_def locate_def sample_calibration_def del: power_numeral)
qed

text \<open>A confidence that is not a number is composed to full confidence, and a negative one is raised to zero.\<close>

lemma nan_confidence_is_certain: "default_compose_confidence NaN (Fin 1) = Fin 1"
  by code_simp

lemma default_confidence_bounds:
  assumes "isfinite det" and "isfinite q" and "0 \<le> det"
  shows "0 \<le> default_compose_confidence det q \<and> default_compose_confidence det q \<le> Fin 1"
proof -
  have c: "\<exists>a. py_max (Fin 0) (py_min (Fin 1) x) = Fin a \<and> 0 \<le> a \<and> a \<le> 1" if "isfinite x" for x
    using that by (cases x) (auto simp: py_max_def py_min_def)
  obtain a b where "default_compose_confidence det q = fround (a * b)" "0 \<le> a" "a \<le> 1" "0 \<le> b" "b \<le> 1"
    using c [OF assms(1)] c [OF assms(2)] by (auto simp: default_compose_confidence_def)
  moreover have "0 \<le> a * b" "a * b \<le> 1" using calculation by (simp_all add: mult_le_one)
  moreover have "fround 1 = Fin 1" by code_simp
  ultimately show ?thesis using fround_mono [of 0 "a * b"] fround_mono [of "a * b" 1] by (simp add: zero_pyfloat_def)
qed

end
