(* ===== verification/CalibrationGate.thy ===== *)
theory CalibrationGate
  imports SiteProfile VisualResolverProps
begin

text \<open>
  The calibration governance of \<open>robotics/composition/calibration_gate.py\<close> and \<open>calibration_source.py\<close>: the site
  policy, the gate on one calibration, the loader that keeps the verdicts, the reading of policy and
  calibrations from the bundle of \<^theory_text>\<open>SiteProfile\<close> and the fail-closed source. What it guarantees to the visual
  resolver of \<^theory_text>\<open>VisualResolver\<close>, whose second gate is skipped when a calibration declares no error, is proved
  at the end. The two pydantic readings are the fields of \<^theory_text>\<open>governance_lib\<close>; a value they refuse is a
  \<open>ValidationError\<close>, which is a \<open>ValueError\<close>.
\<close>

section \<open>Policy and verdict\<close>

definition CALIBRATION_ARTIFACT :: string where "CALIBRATION_ARTIFACT = ''calibration.json''"
definition SAFETY_ARTIFACT :: string where "SAFETY_ARTIFACT = ''safety.yaml''"
definition POLICY_KEY :: string where "POLICY_KEY = ''calibration''"

record calibration_waiver =
  cw_camera_id :: string
  cw_reason :: string
  cw_approved_by :: string
  cw_granted_at :: string

record governance_policy =
  gp_max_reprojection_error :: "pyfloat option"
  gp_waivers :: "calibration_waiver list"

definition EMPTY_POLICY :: governance_policy where
  "EMPTY_POLICY = \<lparr>gp_max_reprojection_error = None, gp_waivers = []\<rparr>"

definition waiver_for :: "governance_policy \<Rightarrow> string \<Rightarrow> calibration_waiver option" where
  "waiver_for pol camera_id = find (\<lambda>w. cw_camera_id w = camera_id) (gp_waivers pol)"

datatype calibration_decision = ACCEPTED | WAIVED | REJECTED

record gate_entry =
  ge_camera_id :: string
  ge_decision :: calibration_decision
  ge_reprojection_error :: "pyfloat option"
  ge_reasons :: "string list"
  ge_waiver :: "calibration_waiver option"

definition gate_reasons :: "pyfloat option \<Rightarrow> pyfloat option \<Rightarrow> string list" where
  "gate_reasons err limit =
     (case err of
        None \<Rightarrow> [''reprojection_error_missing_self_cert'']
      | Some e \<Rightarrow>
          if \<not> isfinite e then [''reprojection_error_not_finite'']
          else case limit of
            None \<Rightarrow> [''no_reprojection_ceiling_configured'']
          | Some c \<Rightarrow>
              if \<not> isfinite c then [''no_reprojection_ceiling_configured'']
              else if c < e then [''reprojection_error_above_ceiling''] else [])"

definition gate_calibration :: "calibration \<Rightarrow> governance_policy \<Rightarrow> gate_entry" where
  "gate_calibration cal pol =
     (let err = cal_reprojection_error cal;
          reasons = gate_reasons err (gp_max_reprojection_error pol);
          entry = \<lparr>ge_camera_id = cal_camera_id cal, ge_decision = ACCEPTED, ge_reprojection_error = err,
                   ge_reasons = [], ge_waiver = None\<rparr> in
      if reasons = [] then entry
      else case waiver_for pol (cal_camera_id cal) of
          Some w \<Rightarrow> entry\<lparr>ge_decision := WAIVED, ge_reasons := reasons, ge_waiver := Some w\<rparr>
        | None \<Rightarrow> entry\<lparr>ge_decision := REJECTED, ge_reasons := reasons\<rparr>)"

section \<open>The loader\<close>

text \<open>The inner loader's answer at the time of a call is an argument of the operation.\<close>

record governed_loader =
  gl_policy :: governance_policy
  gl_decisions :: "(string, gate_entry) pydict"

definition make_loader :: "governance_policy \<Rightarrow> governed_loader" where
  "make_loader pol = \<lparr>gl_policy = pol, gl_decisions = []\<rparr>"

definition load_calibration ::
    "governed_loader \<Rightarrow> string \<Rightarrow> calibration option \<Rightarrow> calibration option \<times> governed_loader" where
  "load_calibration l calibration_id inner =
     (case inner of
        None \<Rightarrow> (None, l)
      | Some cal \<Rightarrow>
          let (entry, l) =
            (case map_of (gl_decisions l) calibration_id of
               Some entry \<Rightarrow> (entry, l)
             | None \<Rightarrow>
                 let entry = gate_calibration cal (gl_policy l) in
                 (entry, l\<lparr>gl_decisions := AList.update calibration_id entry (gl_decisions l)\<rparr>)) in
          (if ge_decision entry = REJECTED then None else Some cal, l))"

record gate_report =
  gr_max_reprojection_error :: "pyfloat option"
  gr_entries :: "gate_entry list"

definition loader_report :: "governed_loader \<Rightarrow> gate_report" where
  "loader_report l = \<lparr>gr_max_reprojection_error = gp_max_reprojection_error (gl_policy l),
     gr_entries = map snd (gl_decisions l)\<rparr>"

definition entry_for :: "gate_report \<Rightarrow> string \<Rightarrow> gate_entry option" where
  "entry_for r camera_id = find (\<lambda>e. ge_camera_id e = camera_id) (gr_entries r)"

definition admitted_camera_ids :: "gate_report \<Rightarrow> string set" where
  "admitted_camera_ids r = set (map ge_camera_id (filter (\<lambda>e. ge_decision e \<noteq> REJECTED) (gr_entries r)))"

section \<open>Policy and calibrations of a bundle\<close>

record governance_lib =
  gv_policy :: "(string \<times> pyval) list \<Rightarrow> governance_policy result"
  gv_calibration :: "pyval \<Rightarrow> calibration result"

definition governance_policy_from_profile ::
    "artifact_lib \<Rightarrow> governance_lib \<Rightarrow> site_profile \<Rightarrow> governance_policy result" where
  "governance_policy_from_profile lib gv p =
     (case map_of (sp_files p) SAFETY_ARTIFACT of
        None \<Rightarrow> Inr EMPTY_POLICY
      | Some raw \<Rightarrow> bindR (parse_artifact lib SAFETY_ARTIFACT raw) (\<lambda>parsed.
          case parsed of
            PDict d \<Rightarrow> (case dget d POLICY_KEY of PDict section \<Rightarrow> gv_policy gv section | _ \<Rightarrow> Inr EMPTY_POLICY)
          | _ \<Rightarrow> Inr EMPTY_POLICY))"

text \<open>The items of a mapping from camera names; the embedded name must agree with the key.\<close>

fun keyed_items :: "(string \<times> pyval) list \<Rightarrow> pyval list result" where
  "keyed_items [] = Inr []"
| "keyed_items ((key, value) # rest) =
     (case value of
        PDict d \<Rightarrow>
          (case map_of d ''camera_id'' of
             Some c \<Rightarrow> if c \<noteq> PStr key then Inl ValueError
                       else bindR (keyed_items rest) (\<lambda>items. Inr (PDict (AList.update ''camera_id'' c d) # items))
           | None \<Rightarrow> bindR (keyed_items rest) (\<lambda>items. Inr (PDict (AList.update ''camera_id'' (PStr key) d) # items)))
      | _ \<Rightarrow> Inl ValueError)"

definition calibration_items :: "pyval \<Rightarrow> pyval list result" where
  "calibration_items parsed =
     (case parsed of
        PNone \<Rightarrow> Inr []
      | PDict d \<Rightarrow> if map_of d ''camera_id'' \<noteq> None then Inr [parsed] else keyed_items d
      | PList items \<Rightarrow> Inr items
      | _ \<Rightarrow> Inl ValueError)"

fun index_calibrations ::
    "governance_lib \<Rightarrow> (string, calibration) pydict \<Rightarrow> pyval list \<Rightarrow> (string, calibration) pydict result" where
  "index_calibrations gv cals [] = Inr cals"
| "index_calibrations gv cals (item # items) =
     bindR (gv_calibration gv item) (\<lambda>cal.
       if map_of cals (cal_camera_id cal) \<noteq> None then Inl ValueError
       else index_calibrations gv (AList.update (cal_camera_id cal) cal cals) items)"

definition parse_calibrations ::
    "artifact_lib \<Rightarrow> governance_lib \<Rightarrow> site_profile \<Rightarrow> (string, calibration) pydict result" where
  "parse_calibrations lib gv p =
     (case map_of (sp_files p) CALIBRATION_ARTIFACT of
        None \<Rightarrow> Inr []
      | Some raw \<Rightarrow> bindR (parse_artifact lib CALIBRATION_ARTIFACT raw) (\<lambda>parsed.
          bindR (calibration_items parsed) (index_calibrations gv [])))"

text \<open>The in-memory inner loader reads the dictionary; every camera is judged when the loader is built.\<close>

definition build_calibration_loader ::
    "artifact_lib \<Rightarrow> governance_lib \<Rightarrow> site_profile \<Rightarrow> governance_policy option
       \<Rightarrow> ((string, calibration) pydict \<times> governed_loader) result" where
  "build_calibration_loader lib gv p pol =
     bindR (case pol of Some pol \<Rightarrow> Inr pol | None \<Rightarrow> governance_policy_from_profile lib gv p) (\<lambda>pol.
     bindR (parse_calibrations lib gv p) (\<lambda>cals.
       Inr (cals, fold (\<lambda>(camera_id, _) l. snd (load_calibration l camera_id (map_of cals camera_id)))
                   cals (make_loader pol))))"

text \<open>The exception carries the camera and the entry, which tells an absent camera from a rejected one.\<close>

datatype source_error = Unavailable "gate_entry option" | BundleError exc

definition resolve_governed_with_loader ::
    "artifact_lib \<Rightarrow> governance_lib \<Rightarrow> site_profile \<Rightarrow> string \<Rightarrow> governance_policy option
       \<Rightarrow> source_error + calibration \<times> governed_loader" where
  "resolve_governed_with_loader lib gv p camera_id pol =
     (case build_calibration_loader lib gv p pol of
        Inl e \<Rightarrow> Inl (BundleError e)
      | Inr (cals, l) \<Rightarrow>
          (case load_calibration l camera_id (map_of cals camera_id) of
             (None, l) \<Rightarrow> Inl (Unavailable (entry_for (loader_report l) camera_id))
           | (Some cal, l) \<Rightarrow> Inr (cal, l)))"

definition resolve_governed_calibration ::
    "artifact_lib \<Rightarrow> governance_lib \<Rightarrow> site_profile \<Rightarrow> string \<Rightarrow> governance_policy option
       \<Rightarrow> source_error + calibration" where
  "resolve_governed_calibration lib gv p camera_id pol =
     (case build_calibration_loader lib gv p pol of
        Inl e \<Rightarrow> Inl (BundleError e)
      | Inr (cals, l) \<Rightarrow>
          (case load_calibration l camera_id (map_of cals camera_id) of
             (None, l) \<Rightarrow> Inl (Unavailable (entry_for (loader_report l) camera_id))
           | (Some cal, _) \<Rightarrow> Inr cal))"


section \<open>What the gate admits\<close>

definition certified :: "governance_policy \<Rightarrow> calibration \<Rightarrow> bool" where
  "certified pol cal \<longleftrightarrow> (\<exists>e c. cal_reprojection_error cal = Some e \<and> gp_max_reprojection_error pol = Some c
     \<and> isfinite e \<and> isfinite c \<and> e \<le> c)"

definition waived :: "governance_policy \<Rightarrow> calibration \<Rightarrow> bool" where
  "waived pol cal \<longleftrightarrow> (\<exists>w \<in> set (gp_waivers pol). cw_camera_id w = cal_camera_id cal)"

lemma gate_reasons_iff: "gate_reasons (cal_reprojection_error cal) (gp_max_reprojection_error pol) = [] \<longleftrightarrow> certified pol cal"
  by (auto simp: gate_reasons_def certified_def not_flt isfinite_iff split: option.splits)

lemma waiver_for_iff: "waiver_for pol (cal_camera_id cal) \<noteq> None \<longleftrightarrow> waived pol cal"
  using find_Some_iff_mem [of "\<lambda>w. cw_camera_id w = cal_camera_id cal" "gp_waivers pol"]
  by (simp add: waiver_for_def waived_def)

lemma gate_admits_iff: "ge_decision (gate_calibration cal pol) \<noteq> REJECTED \<longleftrightarrow> certified pol cal \<or> waived pol cal"
proof (cases "certified pol cal")
  case True
  then show ?thesis using gate_reasons_iff by (simp add: gate_calibration_def Let_def)
next
  case False
  then have "gate_reasons (cal_reprojection_error cal) (gp_max_reprojection_error pol) \<noteq> []" using gate_reasons_iff by simp
  then show ?thesis using False waiver_for_iff [of pol cal]
    by (cases "waiver_for pol (cal_camera_id cal)") (simp_all add: gate_calibration_def Let_def)
qed

section \<open>What the source hands out\<close>

lemma index_calibrations_keys:
  "index_calibrations gv cals items = Inr cals' \<Longrightarrow> (\<And>k c. map_of cals k = Some c \<Longrightarrow> cal_camera_id c = k) \<Longrightarrow>
     map_of cals' k = Some c \<Longrightarrow> cal_camera_id c = k"
proof (induction items arbitrary: cals)
  case (Cons item items)
  then obtain cal where "index_calibrations gv (AList.update (cal_camera_id cal) cal cals) items = Inr cals'"
    by (auto simp: bindR_Inr_iff split: if_splits)
  then show ?case using Cons.prems(2,3) by (intro Cons.IH) (auto split: if_splits)
qed simp

lemma parse_calibrations_keys:
  "parse_calibrations lib gv p = Inr cals \<Longrightarrow> map_of cals k = Some c \<Longrightarrow> cal_camera_id c = k"
  using index_calibrations_keys [of gv "[]" _ cals k c]
  by (auto simp: parse_calibrations_def bindR_Inr_iff split: option.splits)

text \<open>Every kept verdict is the gate's verdict on the calibration of that name, as long as the inner loader does not change.\<close>

definition verdicts_true :: "(string, calibration) pydict \<Rightarrow> governance_policy \<Rightarrow> governed_loader \<Rightarrow> bool" where
  "verdicts_true cals pol l \<longleftrightarrow> gl_policy l = pol \<and>
     (\<forall>k e. map_of (gl_decisions l) k = Some e \<longrightarrow> (\<exists>c. map_of cals k = Some c \<and> e = gate_calibration c pol))"

lemma load_verdict:
  assumes "verdicts_true cals pol l"
  shows "verdicts_true cals pol (snd (load_calibration l k (map_of cals k)))"
    and "fst (load_calibration l k (map_of cals k)) =
      (case map_of cals k of Some c \<Rightarrow> if certified pol c \<or> waived pol c then Some c else None | None \<Rightarrow> None)"
proof -
  have "verdicts_true cals pol (snd (load_calibration l k (map_of cals k))) \<and>
    fst (load_calibration l k (map_of cals k)) =
      (case map_of cals k of Some c \<Rightarrow> if certified pol c \<or> waived pol c then Some c else None | None \<Rightarrow> None)"
  proof (cases "map_of cals k")
    case (Some c)
    show ?thesis
    proof (cases "map_of (gl_decisions l) k")
      case None
      then show ?thesis using assms gate_admits_iff [of c pol]
        by (auto simp: load_calibration_def verdicts_true_def Let_def Some)
    next
      case (Some e)
      then have "e = gate_calibration c pol" using assms \<open>map_of cals k = Some c\<close> by (fastforce simp: verdicts_true_def)
      then show ?thesis using assms gate_admits_iff [of c pol]
        by (auto simp: load_calibration_def Let_def Some \<open>map_of cals k = Some c\<close>)
    qed
  qed (simp add: load_calibration_def assms)
  then show "verdicts_true cals pol (snd (load_calibration l k (map_of cals k)))"
    and "fst (load_calibration l k (map_of cals k)) =
      (case map_of cals k of Some c \<Rightarrow> if certified pol c \<or> waived pol c then Some c else None | None \<Rightarrow> None)" by blast+
qed

lemma build_loader_verdicts:
  assumes "build_calibration_loader lib gv p given = Inr (cals, l)"
  obtains pol where "(case given of Some pol \<Rightarrow> Inr pol | None \<Rightarrow> governance_policy_from_profile lib gv p) = Inr pol"
    and "parse_calibrations lib gv p = Inr cals" and "verdicts_true cals pol l"
proof -
  obtain pol where pol: "(case given of Some pol \<Rightarrow> Inr pol | None \<Rightarrow> governance_policy_from_profile lib gv p) = Inr pol"
    "parse_calibrations lib gv p = Inr cals"
    and l: "l = fold (\<lambda>(camera_id, _) l. snd (load_calibration l camera_id (map_of cals camera_id))) cals (make_loader pol)"
    using assms by (auto simp: build_calibration_loader_def bindR_Inr_iff)
  have "verdicts_true cals pol (fold (\<lambda>(k, _) l. snd (load_calibration l k (map_of cals k))) xs l')"
    if "verdicts_true cals pol l'" for xs :: "(string \<times> calibration) list" and l'
    using that by (induction xs arbitrary: l') (auto simp: load_verdict(1))
  moreover have "verdicts_true cals pol (make_loader pol)" by (simp add: verdicts_true_def make_loader_def)
  ultimately show ?thesis using that pol l by blast
qed

lemma governed_source:
  assumes "resolve_governed_calibration lib gv p camera_id given = Inr cal"
  obtains pol where "(case given of Some pol \<Rightarrow> Inr pol | None \<Rightarrow> governance_policy_from_profile lib gv p) = Inr pol"
    and "cal_camera_id cal = camera_id" and "certified pol cal \<or> waived pol cal"
proof -
  from assms obtain cals l where b: "build_calibration_loader lib gv p given = Inr (cals, l)"
    and cal: "fst (load_calibration l camera_id (map_of cals camera_id)) = Some cal"
    by (auto simp: resolve_governed_calibration_def split: sum.splits prod.splits option.splits)
  from b obtain pol where pol: "(case given of Some pol \<Rightarrow> Inr pol | None \<Rightarrow> governance_policy_from_profile lib gv p) = Inr pol"
    and cals: "parse_calibrations lib gv p = Inr cals" and l: "verdicts_true cals pol l" by (rule build_loader_verdicts)
  have "map_of cals camera_id = Some cal" and ok: "certified pol cal \<or> waived pol cal"
    using cal by (simp_all add: load_verdict(2) [OF l] split: option.splits if_splits)
  from parse_calibrations_keys [OF cals this(1)] show ?thesis using that pol ok by blast
qed

text \<open>The source reads the bundle through its files alone.\<close>

lemma governed_source_cong:
  assumes "map_of (sp_files p) = map_of (sp_files q)"
  shows "resolve_governed_calibration lib gv p = resolve_governed_calibration lib gv q"
    and "governance_policy_from_profile lib gv p = governance_policy_from_profile lib gv q"
proof -
  show pol: "governance_policy_from_profile lib gv p = governance_policy_from_profile lib gv q"
    by (simp add: governance_policy_from_profile_def assms)
  have "parse_calibrations lib gv p = parse_calibrations lib gv q" by (simp add: parse_calibrations_def assms)
  then have "build_calibration_loader lib gv p given = build_calibration_loader lib gv q given" for given
    by (cases given) (simp_all add: build_calibration_loader_def pol)
  then show "resolve_governed_calibration lib gv p = resolve_governed_calibration lib gv q"
    by (simp add: fun_eq_iff resolve_governed_calibration_def)
qed

text \<open>
  C11. A destination that is snapped in a run whose bundle passed the verification rests on what was
  reviewed. The calibration is the one that the reviewed bundle yields for the camera, and either its
  declared error is a finite number within both the reviewed ceiling and the ceiling of the resolver, or the
  reviewed policy holds a waiver for the camera. The hypothesis on SHA-256 is that it does not collide on the
  texts of the two bundles.
\<close>

theorem destination_rests_on_review:
  assumes "compute_content_hash lib p order = Inr h" and "compute_content_hash lib p0 order0 = Inr h0"
    and "inj_on (al_sha256 lib) (texts_of lib p order \<union> texts_of lib p0 order0)"
    and "assert_verified (verify_against_approved p h (Some (approve p0 h0 who at_time))) = Inr ()"
    and "resolve_governed_calibration lib gv p camera_id None = Inr cal"
    and "resolve vlib vpol draft cal = Inr ts" and "t \<in> set ts" and "rs_destination t = Some name"
  shows "resolve_governed_calibration lib gv p0 camera_id None = Inr cal \<and> cal_camera_id cal = camera_id \<and>
    (\<exists>pol. governance_policy_from_profile lib gv p0 = Inr pol \<and>
      (waived pol cal \<or> (\<exists>e c. cal_reprojection_error cal = Some e \<and> gp_max_reprojection_error pol = Some c
         \<and> isfinite e \<and> e \<le> c \<and> \<not> vp_max_reprojection_error vpol < e)))"
proof -
  have "map_of (sp_files p) = map_of (sp_files p0)"
    using assms(4) verified_iff_same_content(1) [OF assms(1-3)] by (simp add: assert_verified_def split: if_splits)
  note same = governed_source_cong [OF this]
  obtain pol where pol: "governance_policy_from_profile lib gv p = Inr pol" "cal_camera_id cal = camera_id"
    "certified pol cal \<or> waived pol cal"
    by (rule governed_source [OF assms(5)]) simp
  have "\<forall>e. cal_reprojection_error cal = Some e \<longrightarrow> isfinite e \<and> \<not> vp_max_reprojection_error vpol < e"
    using destination_grounded [OF assms(6-8)] on_map_spec by blast
  then show ?thesis using pol assms(5) by (auto simp: same certified_def)
qed

text \<open>A bundle of one camera and a ceiling, with library functions that are constant on its two texts.\<close>

definition sample_bundle :: site_profile where
  "sample_bundle = \<lparr>sp_customer = ''acme'', sp_site = ''north'', sp_version = None,
     sp_files = [(CALIBRATION_ARTIFACT, ''[]''), (SAFETY_ARTIFACT, ''{}'')]\<rparr>"

definition sample_artifact_lib :: artifact_lib where
  "sample_artifact_lib = \<lparr>al_json = (\<lambda>_. Inr (PList [PInt 0])), al_yaml = (\<lambda>_. Inr (PDict [(''calibration'', PDict [])])),
     al_str = (\<lambda>_. []), al_dumps = (\<lambda>_. Inr ''merged''), al_sha256 = id\<rparr>"

definition sample_governance_lib :: governance_lib where
  "sample_governance_lib = \<lparr>gv_policy = (\<lambda>_. Inr \<lparr>gp_max_reprojection_error = Some (Fin 2), gp_waivers = []\<rparr>),
     gv_calibration = (\<lambda>_. Inr sample_calibration)\<rparr>"

lemma sample_hash: "\<exists>h. compute_content_hash sample_artifact_lib sample_bundle None = Inr h"
  by (rule exI, code_simp)

lemma sample_source:
  "resolve_governed_calibration sample_artifact_lib sample_governance_lib sample_bundle ''overhead'' None = Inr sample_calibration"
  by code_simp

theorem destination_rests_on_review_witness:
  "\<exists>h. compute_content_hash sample_artifact_lib sample_bundle None = Inr h \<and>
     (\<exists>ts t. resolve unit_libm sample_visual_policy ex_draft sample_calibration = Inr ts \<and> t \<in> set ts \<and>
       rs_destination t = Some ''shelf_1'') \<and>
     resolve_governed_calibration sample_artifact_lib sample_governance_lib sample_bundle ''overhead'' None = Inr sample_calibration"
proof -
  obtain h where h: "compute_content_hash sample_artifact_lib sample_bundle None = Inr h" using sample_hash by blast
  have inj: "inj_on (al_sha256 sample_artifact_lib) (texts_of sample_artifact_lib sample_bundle None
      \<union> texts_of sample_artifact_lib sample_bundle None)" by (simp add: sample_artifact_lib_def)
  have verified: "assert_verified (verify_against_approved sample_bundle h (Some (approve sample_bundle h ''a'' ''t''))) = Inr ()"
    using verified_iff_same_content(1) [OF h h inj] by (simp add: assert_verified_def same_identity_def)
  obtain ts where ts: "resolve unit_libm sample_visual_policy ex_draft sample_calibration = Inr ts"
    "\<exists>t \<in> set ts. rs_destination t = Some ''shelf_1''"
    using sample_snap by (auto simp: resolve_def ex_draft_def)
  then obtain t where t: "t \<in> set ts" "rs_destination t = Some ''shelf_1''" by blast
  show ?thesis
    using h ts(1) t destination_rests_on_review [OF h h inj verified sample_source ts(1) t] by blast
qed

section \<open>A verdict that outlives its calibration\<close>

text \<open>
  The loader documents that it returns nothing for a calibration the gate rejects. The verdict is kept under the
  name, so when a file-backed inner loader returns a new artifact under a judged name, the new one is not
  judged: without a declared error, it is handed out, and the second gate of the resolver is skipped.
\<close>

lemma verdict_outlives_calibration:
  assumes "certified pol good" and "bad = good\<lparr>cal_reprojection_error := None\<rparr>" and "\<not> waived pol bad"
  shows "ge_decision (gate_calibration bad pol) = REJECTED \<and>
    fst (load_calibration (snd (load_calibration (make_loader pol) name (Some good))) name (Some bad)) = Some bad"
proof -
  have "\<not> certified pol bad" by (simp add: certified_def assms(2))
  moreover have "ge_decision (gate_calibration good pol) \<noteq> REJECTED" using gate_admits_iff assms(1) by blast
  ultimately show ?thesis using assms(3) gate_admits_iff [of bad pol]
    by (simp add: load_calibration_def make_loader_def Let_def)
qed

text \<open>A negative number is no reprojection error, but it is below every ceiling.\<close>

lemma negative_error_accepted:
  assumes "gp_max_reprojection_error pol = Some (Fin 2)" and "cal_reprojection_error cal = Some (Fin (- 1))"
  shows "ge_decision (gate_calibration cal pol) = ACCEPTED"
  using assms by (simp add: gate_calibration_def gate_reasons_def)

end
