(* ===== verification/RunManifest.thy ===== *)
theory RunManifest
  imports PyValue "HOL-Library.List_Lexorder" "HOL-Library.Char_ord"
begin

text \<open>
  The run composition of \<open>robotics/composition/\<close>: the run manifest with its validators (\<open>manifest.py\<close>), the
  start-up preflight against the registered plugins (\<open>preflight.py\<close>) and the effective-composition record
  built from the constructed objects (\<open>record.py\<close>). An object is the pair of its class and module names, as
  \<open>type(...)\<close> reads them. Writing the record to disk is not modelled.
\<close>

section \<open>The manifest\<close>

definition RUN_MANIFEST_SCHEMA_VERSION :: string where "RUN_MANIFEST_SCHEMA_VERSION = ''run_manifest.v1''"

record plugin_spec =
  pl_id :: string
  pl_version :: string
  pl_profile :: "string option"
  pl_profile_version :: "string option"
  pl_profile_content_hash :: "string option"

record box_spec =
  bx_enabled :: bool
  bx_profile :: "string option"
  bx_profile_version :: "string option"
  bx_profile_content_hash :: "string option"
  bx_plugins :: "plugin_spec list"

text \<open>The field constraints \<open>min_length=1\<close>, and the validator of a box: no plugin twice.\<close>

definition plugin_fields_ok :: "plugin_spec \<Rightarrow> bool" where
  "plugin_fields_ok p \<longleftrightarrow> pl_id p \<noteq> [] \<and> pl_version p \<noteq> []"

fun no_duplicate_plugins :: "string set \<Rightarrow> plugin_spec list \<Rightarrow> unit result" where
  "no_duplicate_plugins seen [] = Inr ()"
| "no_duplicate_plugins seen (p # ps) =
     (if pl_id p \<in> seen then Inl ValueError else no_duplicate_plugins (insert (pl_id p) seen) ps)"

definition make_box :: "box_spec \<Rightarrow> box_spec result" where
  "make_box b =
     (if \<exists>p \<in> set (bx_plugins b). \<not> plugin_fields_ok p then Inl ValueError
      else bindR (no_duplicate_plugins {} (bx_plugins b)) (\<lambda>_. Inr b))"

record run_manifest =
  rm_schema_version :: string
  rm_run_id :: string
  rm_boxes :: "(string, box_spec) pydict"
  rm_expected_emitters :: "string list"
  rm_score_specs :: "string list"

definition alnum :: "char \<Rightarrow> bool" where
  "alnum c \<longleftrightarrow> (let n = of_char c :: nat in (48 \<le> n \<and> n \<le> 57) \<or> (65 \<le> n \<and> n \<le> 90) \<or> (97 \<le> n \<and> n \<le> 122))"

definition run_id_ok :: "string \<Rightarrow> bool" where
  "run_id_ok s = (case s of [] \<Rightarrow> False
     | c # rest \<Rightarrow> alnum c \<and> list_all (\<lambda>c. alnum c \<or> c \<in> set ''._-'') rest)"

text \<open>A plugin belongs to one box; the owner is the box of its first declaration.\<close>

fun claim_plugins :: "string \<Rightarrow> (string, string) pydict \<Rightarrow> plugin_spec list \<Rightarrow> (string, string) pydict result" where
  "claim_plugins box owners [] = Inr owners"
| "claim_plugins box owners (p # ps) =
     (if map_of owners (pl_id p) \<noteq> None then Inl ValueError
      else claim_plugins box (AList.update (pl_id p) box owners) ps)"

fun claim_boxes :: "(string, string) pydict \<Rightarrow> (string \<times> box_spec) list \<Rightarrow> (string, string) pydict result" where
  "claim_boxes owners [] = Inr owners"
| "claim_boxes owners ((box_id, b) # rest) =
     bindR (claim_plugins box_id owners (bx_plugins b)) (\<lambda>owners. claim_boxes owners rest)"

fun check_emitters :: "(string, box_spec) pydict \<Rightarrow> string set \<Rightarrow> string list \<Rightarrow> unit result" where
  "check_emitters boxes seen [] = Inr ()"
| "check_emitters boxes seen (e # es) =
     (if e \<in> seen then Inl ValueError
      else case map_of boxes e of
          None \<Rightarrow> Inl ValueError
        | Some b \<Rightarrow> if \<not> bx_enabled b then Inl ValueError else check_emitters boxes (insert e seen) es)"

text \<open>The field constraints, the validators of the two fields and the validator across fields.\<close>

definition make_manifest :: "run_manifest \<Rightarrow> run_manifest result" where
  "make_manifest m =
     (if rm_schema_version m \<noteq> RUN_MANIFEST_SCHEMA_VERSION then Inl ValueError
      else if \<not> run_id_ok (rm_run_id m) \<or> rm_run_id m \<in> {''.'', ''..''} then Inl ValueError
      else if rm_boxes m = [] \<or> rm_expected_emitters m = [] then Inl ValueError
      else if \<exists>(_, b) \<in> set (rm_boxes m). make_box b \<noteq> Inr b then Inl ValueError
      else bindR (claim_boxes [] (rm_boxes m)) (\<lambda>_.
           bindR (check_emitters (rm_boxes m) {} (rm_expected_emitters m)) (\<lambda>_. Inr m)))"

definition enabled_boxes :: "run_manifest \<Rightarrow> string list" where
  "enabled_boxes m = map fst (filter (\<lambda>(_, b). bx_enabled b) (rm_boxes m))"

definition enabled_plugin_owners :: "run_manifest \<Rightarrow> (string, string) pydict" where
  "enabled_plugin_owners m =
     fold (\<lambda>(box_id, b). fold (\<lambda>p. AList.update (pl_id p) box_id) (bx_plugins b))
       (filter (\<lambda>(_, b). bx_enabled b) (rm_boxes m)) []"

definition enabled_boxes_not_expected :: "run_manifest \<Rightarrow> string list" where
  "enabled_boxes_not_expected m = filter (\<lambda>box. box \<notin> set (rm_expected_emitters m)) (enabled_boxes m)"

section \<open>The preflight\<close>

text \<open>\<open>CompositionError\<close> is the only exception; the constructors are the messages that tell its cases apart.\<close>

datatype composition_error =
    DuplicatePlugin | NothingRegistered | NotRegistered | Unlisted
  | UndeclaredBox | DisabledBuilt | NeverBuilt | PluginSetDiffers

record preflight_report =
  pf_declared :: "string set"
  pf_registered :: "string set"
  pf_unlisted :: "string set"

fun own_plugins ::
    "string \<Rightarrow> (string, string) pydict \<Rightarrow> plugin_spec list \<Rightarrow> composition_error + (string, string) pydict" where
  "own_plugins box owners [] = Inr owners"
| "own_plugins box owners (p # ps) =
     (if pl_id p \<in> fst ` set owners then Inl DuplicatePlugin
      else own_plugins box (AList.update (pl_id p) box owners) ps)"

fun own_boxes ::
    "(string, string) pydict \<Rightarrow> (string \<times> box_spec) list \<Rightarrow> composition_error + (string, string) pydict" where
  "own_boxes owners [] = Inr owners"
| "own_boxes owners ((box_id, b) # rest) =
     (if \<not> bx_enabled b then own_boxes owners rest
      else case own_plugins box_id owners (bx_plugins b) of Inl e \<Rightarrow> Inl e | Inr owners \<Rightarrow> own_boxes owners rest)"

definition declared_owners_checked :: "run_manifest \<Rightarrow> composition_error + (string, string) pydict" where
  "declared_owners_checked m = own_boxes [] (rm_boxes m)"

definition preflight_composition :: "run_manifest \<Rightarrow> string set \<Rightarrow> bool \<Rightarrow> composition_error + preflight_report" where
  "preflight_composition m registered allow_unlisted =
     (case declared_owners_checked m of
        Inl e \<Rightarrow> Inl e
      | Inr owners \<Rightarrow>
          let declared = fst ` set owners in
          if declared - registered \<noteq> {} then Inl (if registered = {} then NothingRegistered else NotRegistered)
          else if registered - declared \<noteq> {} \<and> \<not> allow_unlisted then Inl Unlisted
          else Inr \<lparr>pf_declared = declared, pf_registered = registered, pf_unlisted = registered - declared\<rparr>)"

section \<open>The effective composition\<close>

type_synonym py_class = "string \<times> string"

record constructed_box =
  cb_stage :: "py_class option"
  cb_plugins :: "(string, py_class) pydict"
  cb_policy_dump :: "(string \<times> pyval) list option"

record effective_plugin =
  ep_spec :: plugin_spec
  ep_class :: py_class

record effective_box =
  eb_box_id :: string
  eb_enabled :: bool
  eb_profile :: "string option"
  eb_profile_version :: "string option"
  eb_profile_content_hash :: "string option"
  eb_class :: "py_class option"
  eb_policy :: "(string \<times> pyval) list option"
  eb_plugins :: "effective_plugin list"

record effective_composition =
  ec_run_id :: string
  ec_manifest_schema_version :: string
  ec_declared :: "string list"
  ec_registered :: "string list"
  ec_unlisted :: "string list"
  ec_boxes :: "effective_box list"
  ec_site_profile :: "pyval option"
  ec_calibration_governance :: "pyval option"

text \<open>
  The class is looked up under the plugin's name; the two sets of names agree when this is reached. The manifest
  has passed its validators, so a box names a plugin once.
\<close>

definition effective_plugins :: "(string, py_class) pydict \<Rightarrow> plugin_spec list \<Rightarrow> effective_plugin list" where
  "effective_plugins built ps =
     concat (map (\<lambda>p. case map_of built (pl_id p) of None \<Rightarrow> [] | Some c \<Rightarrow> [\<lparr>ep_spec = p, ep_class = c\<rparr>]) ps)"

fun effective_boxes ::
    "(string, constructed_box) pydict \<Rightarrow> (string \<times> box_spec) list \<Rightarrow> composition_error + effective_box list" where
  "effective_boxes constructed [] = Inr []"
| "effective_boxes constructed ((box_id, spec) # rest) =
     (if \<not> bx_enabled spec
      then map_sum id (\<lambda>bs. \<lparr>eb_box_id = box_id, eb_enabled = False, eb_profile = bx_profile spec, eb_profile_version = None,
             eb_profile_content_hash = None, eb_class = None, eb_policy = None, eb_plugins = []\<rparr> # bs)
             (effective_boxes constructed rest)
      else case map_of constructed box_id of
          None \<Rightarrow> Inl NeverBuilt
        | Some built \<Rightarrow>
            if fst ` set (cb_plugins built) \<noteq> pl_id ` set (bx_plugins spec) then Inl PluginSetDiffers
            else map_sum id (\<lambda>bs. \<lparr>eb_box_id = box_id, eb_enabled = True, eb_profile = bx_profile spec,
                   eb_profile_version = bx_profile_version spec, eb_profile_content_hash = bx_profile_content_hash spec,
                   eb_class = cb_stage built, eb_policy = cb_policy_dump built,
                   eb_plugins = effective_plugins (cb_plugins built) (bx_plugins spec)\<rparr> # bs)
                   (effective_boxes constructed rest))"

definition build_effective_composition ::
    "run_manifest \<Rightarrow> preflight_report \<Rightarrow> (string, constructed_box) pydict \<Rightarrow> pyval option \<Rightarrow> pyval option
       \<Rightarrow> composition_error + effective_composition" where
  "build_effective_composition m pf constructed site governance =
     (let declared = fst ` set (rm_boxes m); enabled = set (enabled_boxes m); built = fst ` set constructed in
      if built - declared \<noteq> {} then Inl UndeclaredBox
      else if built \<inter> (declared - enabled) \<noteq> {} then Inl DisabledBuilt
      else if enabled - built \<noteq> {} then Inl NeverBuilt
      else map_sum id (\<lambda>bs. \<lparr>ec_run_id = rm_run_id m, ec_manifest_schema_version = rm_schema_version m,
             ec_declared = sorted_list_of_set (pf_declared pf), ec_registered = sorted_list_of_set (pf_registered pf),
             ec_unlisted = sorted_list_of_set (pf_unlisted pf), ec_boxes = bs, ec_site_profile = site,
             ec_calibration_governance = governance\<rparr>)
             (effective_boxes constructed (rm_boxes m)))"


section \<open>What a started run is\<close>

lemma map_sum_Inr_iff: "map_sum id f r = Inr y \<longleftrightarrow> (\<exists>x. r = Inr x \<and> y = f x)"
  by (cases r) auto

definition plugin_ids :: "(string \<times> box_spec) list \<Rightarrow> string set" where
  "plugin_ids boxes = {pl_id p | p. \<exists>(_, b) \<in> set boxes. bx_enabled b \<and> p \<in> set (bx_plugins b)}"

lemma plugin_ids_Cons:
  "plugin_ids ((k, b) # rest) = (if bx_enabled b then pl_id ` set (bx_plugins b) else {}) \<union> plugin_ids rest"
  by (auto simp: plugin_ids_def)

lemma own_plugins_keys:
  "own_plugins box owners ps = Inr owners' \<Longrightarrow> fst ` set owners' = fst ` set owners \<union> pl_id ` set ps"
  by (induction ps arbitrary: owners) (auto simp: dom_update split: if_splits)

lemma own_boxes_keys:
  "own_boxes owners boxes = Inr owners' \<Longrightarrow> fst ` set owners' = fst ` set owners \<union> plugin_ids boxes"
proof (induction boxes arbitrary: owners)
  case (Cons kb boxes)
  then show ?case by (cases kb) (auto simp: plugin_ids_Cons own_plugins_keys split: if_splits sum.splits)
qed (simp add: plugin_ids_def)

lemma preflight_spec:
  assumes "preflight_composition m registered allow = Inr pf"
  shows "pf_declared pf = plugin_ids (rm_boxes m) \<and> pf_registered pf = registered \<and> plugin_ids (rm_boxes m) \<subseteq> registered
    \<and> (allow \<or> registered = plugin_ids (rm_boxes m))"
proof -
  from assms obtain owners where o: "declared_owners_checked m = Inr owners"
    by (auto simp: preflight_composition_def split: sum.splits)
  then have "fst ` set owners = plugin_ids (rm_boxes m)" using own_boxes_keys by (force simp: declared_owners_checked_def)
  then show ?thesis using assms by (auto simp: preflight_composition_def o Let_def split: if_splits)
qed

text \<open>The plugins of the record, with their box and class, and those of the constructed objects.\<close>

definition recorded :: "effective_box list \<Rightarrow> (string \<times> string \<times> py_class) set" where
  "recorded ebs = {(eb_box_id b, pl_id (ep_spec p), ep_class p) | b p. b \<in> set ebs \<and> p \<in> set (eb_plugins b)}"

definition running :: "(string, constructed_box) pydict \<Rightarrow> (string \<times> string \<times> py_class) set" where
  "running constructed = {(k, id, c). \<exists>cb. map_of constructed k = Some cb \<and> map_of (cb_plugins cb) id = Some c}"

lemma recorded_Cons:
  "recorded (b # ebs) = {(eb_box_id b, pl_id (ep_spec p), ep_class p) | p. p \<in> set (eb_plugins b)} \<union> recorded ebs"
  by (auto simp: recorded_def)

lemma effective_plugins_classes:
  assumes "fst ` set built = pl_id ` set ps"
  shows "{(k, pl_id (ep_spec p), ep_class p) | p. p \<in> set (effective_plugins built ps)}
       = {(k, id, c) | id c. map_of built id = Some c}" (is "?rec = ?run")
proof
  show "?rec \<subseteq> ?run" by (auto simp: effective_plugins_def split: option.splits)
  show "?run \<subseteq> ?rec"
  proof clarify
    fix id c
    assume c: "map_of built id = Some c"
    then have "id \<in> pl_id ` set ps" using assms by (metis map_of_SomeD image_eqI fst_conv)
    then obtain p where p: "p \<in> set ps" "id = pl_id p" by blast
    then have "\<exists>p \<in> set ps. \<lparr>ep_spec = p', ep_class = c\<rparr> \<in> set (case map_of built (pl_id p) of
        None \<Rightarrow> [] | Some c \<Rightarrow> [\<lparr>ep_spec = p, ep_class = c\<rparr>])" if "p' = p" for p'
      using c that by (intro bexI [of _ p]) simp_all
    then have "\<lparr>ep_spec = p, ep_class = c\<rparr> \<in> set (effective_plugins built ps)"
      by (simp add: effective_plugins_def)
    then show "\<exists>q. (k, id, c) = (k, pl_id (ep_spec q), ep_class q) \<and> q \<in> set (effective_plugins built ps)"
      using p by (intro exI [of _ "\<lparr>ep_spec = p, ep_class = c\<rparr>"]) simp
  qed
qed

lemma effective_boxes_recorded:
  "effective_boxes constructed boxes = Inr ebs \<Longrightarrow>
     recorded ebs = {(k, id, c) \<in> running constructed. \<exists>b. (k, b) \<in> set boxes \<and> bx_enabled b}"
proof (induction boxes arbitrary: ebs)
  case (Cons kb boxes)
  obtain k b where kb: "kb = (k, b)" by (cases kb)
  show ?case
  proof (cases "bx_enabled b")
    case False
    then obtain bs where "effective_boxes constructed boxes = Inr bs" "recorded ebs = recorded bs"
      using Cons.prems by (auto simp: kb recorded_Cons map_sum_Inr_iff)
    then show ?thesis using Cons.IH False by (auto simp: kb)
  next
    case True
    then obtain built bs where built: "map_of constructed k = Some built" "fst ` set (cb_plugins built) = pl_id ` set (bx_plugins b)"
      and bs: "effective_boxes constructed boxes = Inr bs"
      and rec: "recorded ebs = {(k, pl_id (ep_spec p), ep_class p) | p. p \<in> set (effective_plugins (cb_plugins built) (bx_plugins b))}
        \<union> recorded bs"
      using Cons.prems True by (auto simp: kb recorded_Cons map_sum_Inr_iff split: option.splits if_splits)
    show ?thesis using True Cons.IH [OF bs] built(1)
      by (auto simp: rec effective_plugins_classes [OF built(2)] kb running_def)
  qed
qed (simp add: recorded_def)

lemma effective_boxes_built:
  "effective_boxes constructed boxes = Inr ebs \<Longrightarrow> (k, b) \<in> set boxes \<Longrightarrow> bx_enabled b \<Longrightarrow>
     \<exists>built. map_of constructed k = Some built \<and> fst ` set (cb_plugins built) = pl_id ` set (bx_plugins b)"
  by (induction boxes arbitrary: ebs) (auto simp: map_sum_Inr_iff split: option.splits if_splits)

text \<open>
  C12. A run that passed the strict preflight and whose record was built is as the manifest declares it: the
  plugins of the record are exactly those of the constructed objects, box by box and with their classes, and
  their names are exactly the registered ones and the ones the manifest declares in its enabled boxes.
\<close>

theorem record_witnesses_run:
  assumes "preflight_composition m registered False = Inr pf"
    and "build_effective_composition m pf constructed site governance = Inr ec"
  shows "recorded (ec_boxes ec) = running constructed
    \<and> registered = plugin_ids (rm_boxes m)
    \<and> {id. \<exists>k c. (k, id, c) \<in> recorded (ec_boxes ec)} = registered
    \<and> set (enabled_boxes m) = fst ` set constructed"
proof -
  from assms(2) have built: "fst ` set constructed \<subseteq> fst ` set (rm_boxes m)"
    "fst ` set constructed \<inter> (fst ` set (rm_boxes m) - set (enabled_boxes m)) = {}"
    "set (enabled_boxes m) \<subseteq> fst ` set constructed"
    and bs: "effective_boxes constructed (rm_boxes m) = Inr (ec_boxes ec)"
    by (auto simp: build_effective_composition_def Let_def map_sum_Inr_iff split: if_splits)
  have keys: "set (enabled_boxes m) = fst ` set constructed" using built by blast
  have reg: "registered = plugin_ids (rm_boxes m)" using preflight_spec [OF assms(1)] by simp
  have "\<exists>b. (k, b) \<in> set (rm_boxes m) \<and> bx_enabled b" if "map_of constructed k = Some cb" for k cb
    using that keys by (force simp: enabled_boxes_def dest!: map_of_SomeD)
  then have rec: "recorded (ec_boxes ec) = running constructed"
    by (auto simp: effective_boxes_recorded [OF bs] running_def)
  have "{id. \<exists>k c. (k, id, c) \<in> running constructed} = plugin_ids (rm_boxes m)"
  proof (intro equalityI subsetI)
    fix id assume "id \<in> {id. \<exists>k c. (k, id, c) \<in> running constructed}"
    then obtain k cb c where c: "map_of constructed k = Some cb" "map_of (cb_plugins cb) id = Some c"
      by (auto simp: running_def)
    from c(1) obtain b where b: "(k, b) \<in> set (rm_boxes m)" "bx_enabled b"
      using \<open>\<And>k cb. map_of constructed k = Some cb \<Longrightarrow> \<exists>b. (k, b) \<in> set (rm_boxes m) \<and> bx_enabled b\<close> by blast
    from effective_boxes_built [OF bs this] c(1) have "fst ` set (cb_plugins cb) = pl_id ` set (bx_plugins b)" by simp
    moreover have "id \<in> fst ` set (cb_plugins cb)" using c(2) by (metis map_of_SomeD image_eqI fst_conv)
    ultimately obtain p where "p \<in> set (bx_plugins b)" "id = pl_id p" by blast
    then show "id \<in> plugin_ids (rm_boxes m)" using b by (auto simp: plugin_ids_def)
  next
    fix id assume "id \<in> plugin_ids (rm_boxes m)"
    then obtain k b p where b: "(k, b) \<in> set (rm_boxes m)" "bx_enabled b" "p \<in> set (bx_plugins b)" "id = pl_id p"
      by (auto simp: plugin_ids_def)
    from effective_boxes_built [OF bs b(1,2)] obtain cb where cb: "map_of constructed k = Some cb" "id \<in> fst ` set (cb_plugins cb)"
      using b(3,4) by auto
    then have "map_of (cb_plugins cb) id \<noteq> None" by (simp add: map_of_eq_None_iff)
    then show "id \<in> {id. \<exists>k c. (k, id, c) \<in> running constructed}" using cb(1) by (auto simp: running_def)
  qed
  then show ?thesis using keys reg rec by simp
qed


text \<open>A run of one box with one plugin; a second box is switched off.\<close>

definition sample_plugin :: plugin_spec where
  "sample_plugin = \<lparr>pl_id = ''zone'', pl_version = ''1'', pl_profile = None, pl_profile_version = None,
     pl_profile_content_hash = None\<rparr>"

definition sample_manifest :: run_manifest where
  "sample_manifest = \<lparr>rm_schema_version = RUN_MANIFEST_SCHEMA_VERSION, rm_run_id = ''run-1'',
     rm_boxes = [(''l3_validator'', \<lparr>bx_enabled = True, bx_profile = None, bx_profile_version = None,
                    bx_profile_content_hash = None, bx_plugins = [sample_plugin]\<rparr>),
                 (''traffic'', \<lparr>bx_enabled = False, bx_profile = None, bx_profile_version = None,
                    bx_profile_content_hash = None, bx_plugins = []\<rparr>)],
     rm_expected_emitters = [''l3_validator''], rm_score_specs = []\<rparr>"

definition sample_constructed :: "(string, constructed_box) pydict" where
  "sample_constructed = [(''l3_validator'', \<lparr>cb_stage = Some (''PlanValidator'', ''validator''),
     cb_plugins = [(''zone'', (''ZonePolicy'', ''l3_zone_policy''))], cb_policy_dump = None\<rparr>)]"

lemma sample_manifest_valid: "make_manifest sample_manifest = Inr sample_manifest"
  by code_simp

lemma sample_boxes: "\<exists>bs. effective_boxes sample_constructed (rm_boxes sample_manifest) = Inr bs"
  by (rule exI, code_simp)

theorem record_witnesses_run_witness:
  "\<exists>pf ec. preflight_composition sample_manifest {''zone''} False = Inr pf \<and>
     build_effective_composition sample_manifest pf sample_constructed None None = Inr ec \<and>
     {id. \<exists>k c. (k, id, c) \<in> recorded (ec_boxes ec)} = {''zone''}"
proof -
  obtain pf where pf: "preflight_composition sample_manifest {''zone''} False = Inr pf"
    by (simp add: preflight_composition_def declared_owners_checked_def sample_manifest_def sample_plugin_def Let_def)
  obtain bs where bs: "effective_boxes sample_constructed (rm_boxes sample_manifest) = Inr bs"
    using sample_boxes by blast
  have "set (enabled_boxes sample_manifest) = {''l3_validator''}" "fst ` set sample_constructed = {''l3_validator''}"
    "fst ` set (rm_boxes sample_manifest) = {''l3_validator'', ''traffic''}"
    by (simp_all add: enabled_boxes_def sample_manifest_def sample_constructed_def)
  then have "\<exists>ec. build_effective_composition sample_manifest pf sample_constructed None None = Inr ec"
    by (simp add: build_effective_composition_def Let_def bs)
  then obtain ec where ec: "build_effective_composition sample_manifest pf sample_constructed None None = Inr ec" by blast
  from record_witnesses_run [OF pf ec] have "{id. \<exists>k c. (k, id, c) \<in> recorded (ec_boxes ec)} = {''zone''}"
    by (elim conjE)
  with pf ec show ?thesis by (intro exI conjI)
qed

section \<open>Startup is refused\<close>

text \<open>A manifest that declares a plugin never starts on an empty registry, whatever is allowed.\<close>

lemma empty_registry_refused:
  "plugin_ids (rm_boxes m) \<noteq> {} \<Longrightarrow> \<nexists>pf. preflight_composition m {} allow = Inr pf"
  using preflight_spec by blast

text \<open>
  Only an explicit opt-in tolerates an undeclared plugin, and the report names it. The record that follows does
  not: nothing compares the constructed plugins with the registered ones, so a tolerated plugin runs without a class
  in the record.
\<close>

lemma unlisted_plugin_reported:
  assumes "preflight_composition m registered allow = Inr pf"
  shows "pf_unlisted pf = registered - plugin_ids (rm_boxes m)"
proof -
  from assms have "pf_unlisted pf = pf_registered pf - pf_declared pf"
    by (auto simp: preflight_composition_def Let_def split: sum.splits if_splits)
  then show ?thesis using preflight_spec [OF assms] by simp
qed

end
