(* ===== verification/SignalTemporal.thy ===== *)
theory SignalTemporal
  imports PyValue
begin

text \<open>
  The two-rate traffic-signal judgement of \<open>warehouse_perception/signal_temporal_core.py\<close> and the
  payload it fills (\<open>TrafficSignalObservation\<close> and \<open>ObservationQuality\<close> of
  \<open>warehouse_interfaces/perception.py\<close>, with their validators). Rate A is the luminance of the lamp,
  rate B the per-frame class. Building a parameter set or a sample may raise; \<open>SignalTemporalConfigError\<close>
  is a \<open>ValueError\<close>. \<open>sum\<close> adds floats from the left, as up to Python 3.11. Strings are 8-bit.
\<close>

section \<open>Marshalling\<close>

definition NOMINAL_FLASH_PERIOD_S :: pyfloat where
  "NOMINAL_FLASH_PERIOD_S = Fin (1/2)"

definition readable_num :: "pyval \<Rightarrow> pyfloat result" where
  "readable_num v = (if is_number v then to_float v else Inr NaN)"

definition require_bound :: "pyval \<Rightarrow> pyfloat result" where
  "require_bound v =
     (if \<not> is_number v then Inl ValueError
      else bindR (to_float v) (\<lambda>x. if \<not> isfinite x then Inl ValueError else Inr x))"

fun require_count :: "pyval \<Rightarrow> int \<Rightarrow> int result" where
  "require_count (PInt n) minimum = (if n < minimum then Inl ValueError else Inr n)"
| "require_count _ _ = Inl ValueError"

fun is_integer :: "pyfloat \<Rightarrow> bool" where
  "is_integer (Fin x) = (x = of_int \<lfloor>x\<rfloor>)"
| "is_integer _ = False"

section \<open>Parameters\<close>

record raw_params =
  w_window_span_s :: pyval
  w_min_samples :: pyval
  w_majority_fraction :: pyval
  w_classifier_rate_hz :: pyval
  w_period_tolerance_s :: pyval
  w_on_threshold :: pyval
  w_off_threshold :: pyval
  w_exposure_tolerance :: pyval
  w_red_sync_delta :: pyval
  w_min_rising_edges :: pyval
  w_min_luminance_samples :: pyval
  w_max_sample_gap_s :: pyval

record signal_params =
  window_span_s :: pyfloat
  min_samples :: int
  majority_fraction :: pyfloat
  classifier_rate_hz :: pyfloat
  period_tolerance_s :: pyfloat
  on_threshold :: pyfloat
  off_threshold :: pyfloat
  exposure_tolerance :: pyfloat
  red_sync_delta :: pyfloat
  min_rising_edges :: int
  min_luminance_samples :: int
  max_sample_gap_s :: pyfloat

definition guardR :: "bool \<Rightarrow> 'a result \<Rightarrow> 'a result" where
  "guardR bad r = (if bad then Inl ValueError else r)"

definition make_signal_params :: "raw_params \<Rightarrow> signal_params result" where
  "make_signal_params w =
     bindR (require_bound (w_window_span_s w)) (\<lambda>span.
     guardR (span \<le> Fin 0) (
     bindR (require_count (w_min_samples w) 1) (\<lambda>samples.
     bindR (require_count (w_min_rising_edges w) 2) (\<lambda>edges.
     bindR (require_count (w_min_luminance_samples w) 2) (\<lambda>lums.
     bindR (require_bound (w_majority_fraction w)) (\<lambda>fraction.
     guardR (\<not> (Fin (1/2) < fraction \<and> fraction \<le> Fin 1)) (
     bindR (require_bound (w_classifier_rate_hz w)) (\<lambda>rate.
     guardR (rate \<le> Fin 0) (
     guardR (is_integer (rate * NOMINAL_FLASH_PERIOD_S)) (
     bindR (require_bound (w_period_tolerance_s w)) (\<lambda>tolerance.
     guardR (\<not> (Fin 0 < tolerance \<and> tolerance < NOMINAL_FLASH_PERIOD_S)) (
     bindR (require_bound (w_on_threshold w)) (\<lambda>on_level.
     bindR (require_bound (w_off_threshold w)) (\<lambda>off_level.
     guardR (\<not> (Fin 0 \<le> off_level \<and> off_level < on_level \<and> on_level \<le> Fin 1)) (
     bindR (require_bound (w_exposure_tolerance w)) (\<lambda>exposure.
     guardR (exposure < Fin 0) (
     bindR (require_bound (w_red_sync_delta w)) (\<lambda>red_delta.
     guardR (red_delta < Fin 0) (
     bindR (require_bound (w_max_sample_gap_s w)) (\<lambda>max_gap.
     guardR (max_gap \<le> Fin 0) (
       Inr \<lparr>window_span_s = span, min_samples = samples, majority_fraction = fraction,
            classifier_rate_hz = rate, period_tolerance_s = tolerance, on_threshold = on_level,
            off_threshold = off_level, exposure_tolerance = exposure, red_sync_delta = red_delta,
            min_rising_edges = edges, min_luminance_samples = lums, max_sample_gap_s = max_gap\<rparr>)))))))))))))))))))))"

section \<open>Samples\<close>

datatype lamp_evidence = LampRed | LampGreen | LampGreenFlashing | LampOffOrUnlit | LampNotVisible
datatype signal_state = SignalGreen | SignalGreenFlashing | SignalRed | SignalUnknown

record luminance_sample =
  l_stamp :: pyfloat
  l_green :: pyfloat
  l_red :: pyfloat
  l_exposure :: pyfloat

record evidence_sample =
  e_stamp :: pyfloat
  e_evidence :: lamp_evidence
  e_roi :: bool

fun no_bool :: "pyval \<Rightarrow> pyfloat result" where
  "no_bool (PBool _) = Inl ValueError"
| "no_bool v = readable_num v"

definition make_luminance :: "pyval \<Rightarrow> pyval \<Rightarrow> pyval \<Rightarrow> pyval \<Rightarrow> luminance_sample result" where
  "make_luminance stamp green red exposure =
     bindR (no_bool stamp) (\<lambda>s. bindR (no_bool green) (\<lambda>g. bindR (no_bool red) (\<lambda>r. bindR (no_bool exposure) (\<lambda>e.
       Inr \<lparr>l_stamp = s, l_green = g, l_red = r, l_exposure = e\<rparr>))))"

text \<open>The class and the consistency flag come as their types; another value raises in the constructor.\<close>

definition make_evidence :: "pyval \<Rightarrow> lamp_evidence option \<Rightarrow> pyval \<Rightarrow> evidence_sample result" where
  "make_evidence stamp evidence roi =
     bindR (no_bool stamp) (\<lambda>s.
       case (evidence, roi) of
         (Some ev, PBool b) \<Rightarrow> Inr \<lparr>e_stamp = s, e_evidence = ev, e_roi = b\<rparr>
       | _ \<Rightarrow> Inl ValueError)"

section \<open>Library functions\<close>

text \<open>\<open>sorted\<close> with a key: stable, comparing with \<open><\<close> only. Without NaN keys this is the only such order.\<close>

fun insert_by :: "('a \<Rightarrow> pyfloat) \<Rightarrow> 'a \<Rightarrow> 'a list \<Rightarrow> 'a list" where
  "insert_by key x [] = [x]"
| "insert_by key x (y # ys) = (if key y < key x then y # insert_by key x ys else x # y # ys)"

definition py_sorted :: "('a \<Rightarrow> pyfloat) \<Rightarrow> 'a list \<Rightarrow> 'a list" where
  "py_sorted key xs = foldr (insert_by key) xs []"

fun py_max_list :: "pyfloat list \<Rightarrow> pyfloat" where
  "py_max_list [] = NaN"
| "py_max_list (x # xs) = foldl (\<lambda>m y. if m < y then y else m) x xs"

fun py_min_list :: "pyfloat list \<Rightarrow> pyfloat" where
  "py_min_list [] = NaN"
| "py_min_list (x # xs) = foldl (\<lambda>m y. if y < m then y else m) x xs"

fun pairwise :: "'a list \<Rightarrow> ('a \<times> 'a) list" where
  "pairwise (x # y # ys) = (x, y) # pairwise (y # ys)"
| "pairwise _ = []"

definition median :: "pyfloat list \<Rightarrow> pyfloat result" where
  "median xs =
     (let d = py_sorted id xs; n = length d; i = n div 2 in
      if n = 0 then Inl ValueError
      else if n mod 2 = 1 then Inr (d ! i)
      else fdiv (d ! (i - 1) + d ! i) (Fin 2))"

definition mean :: "pyfloat list \<Rightarrow> pyfloat result" where
  "mean xs = fdiv (foldl (+) (Fin 0) xs) (Fin (of_nat (length xs)))"

section \<open>Rate A\<close>

datatype phase = On | Off

record flash_verdict =
  is_flashing :: "bool option"
  measured_period_s :: "pyfloat option"

definition undetermined :: flash_verdict where
  "undetermined = \<lparr>is_flashing = None, measured_period_s = None\<rparr>"

type_synonym resolved = "pyfloat \<times> phase \<times> pyfloat"

fun binarise :: "signal_params \<Rightarrow> phase option \<Rightarrow> luminance_sample list \<Rightarrow> resolved list" where
  "binarise p ph [] = []"
| "binarise p ph (s # ss) =
     (let ph = (if on_threshold p \<le> l_green s then Some On
                else if l_green s \<le> off_threshold p then Some Off else ph)
      in (case ph of None \<Rightarrow> [] | Some x \<Rightarrow> [(l_stamp s, x, l_red s)]) @ binarise p ph ss)"

definition covers_window :: "signal_params \<Rightarrow> resolved list \<Rightarrow> pyfloat \<Rightarrow> pyfloat \<Rightarrow> bool" where
  "covers_window p phases start end_s =
     (if \<not> isfinite start \<or> \<not> isfinite end_s then False
      else
        let gap = max_sample_gap_s p; stamps = map fst phases in
        if gap < hd stamps - start \<or> gap < end_s - last stamps then False
        else list_all (\<lambda>(earlier, later). later - earlier \<le> gap) (pairwise stamps))"

definition red_rises_with_green :: "signal_params \<Rightarrow> resolved list \<Rightarrow> bool result" where
  "red_rises_with_green p phases =
     (let lit = map (snd \<circ> snd) (filter (\<lambda>x. fst (snd x) = On) phases);
          dark = map (snd \<circ> snd) (filter (\<lambda>x. fst (snd x) = Off) phases)
      in if lit = [] \<or> dark = [] then Inr False
         else bindR (mean lit) (\<lambda>a. bindR (mean dark) (\<lambda>b. Inr (red_sync_delta p < a - b))))"

definition rising_edges :: "resolved list \<Rightarrow> pyfloat list" where
  "rising_edges phases =
     map (\<lambda>((_, previous, _), (stamp, current, _)). stamp)
       (filter (\<lambda>((_, previous, _), (stamp, current, _)). previous = Off \<and> current = On) (pairwise phases))"

definition sample_finite :: "luminance_sample \<Rightarrow> bool" where
  "sample_finite s \<longleftrightarrow> isfinite (l_stamp s) \<and> isfinite (l_green s) \<and> isfinite (l_red s) \<and> isfinite (l_exposure s)"

definition flash_judgement ::
    "signal_params \<Rightarrow> luminance_sample list \<Rightarrow> pyfloat \<Rightarrow> pyfloat \<Rightarrow> flash_verdict result" where
  "flash_judgement p samples start end_s =
     (let ordered = py_sorted l_stamp samples in
      if int (length ordered) < min_luminance_samples p then Inr undetermined
      else if \<not> list_all sample_finite ordered then Inr undetermined
      else
        let exposures = map l_exposure ordered in
        if exposure_tolerance p < py_max_list exposures - py_min_list exposures then Inr undetermined
        else
          let phases = binarise p None ordered; labels = map (fst \<circ> snd) phases in
          if phases = [] then Inr undetermined
          else if list_all ((=) On) labels then
            (if \<not> covers_window p phases start end_s then Inr undetermined
             else Inr \<lparr>is_flashing = Some False, measured_period_s = None\<rparr>)
          else if On \<notin> set labels then Inr undetermined
          else
            let edges = rising_edges phases in
            if int (length edges) < min_rising_edges p then Inr undetermined
            else bindR (median (map (\<lambda>(start, stop). stop - start) (pairwise edges))) (\<lambda>period.
              if \<not> isfinite period \<or> period \<le> Fin 0 then Inr undetermined
              else if period_tolerance_s p < \<bar>period - NOMINAL_FLASH_PERIOD_S\<bar>
              then Inr \<lparr>is_flashing = None, measured_period_s = Some period\<rparr>
              else bindR (red_rises_with_green p phases) (\<lambda>red.
                if red then Inr \<lparr>is_flashing = None, measured_period_s = Some period\<rparr>
                else Inr \<lparr>is_flashing = Some True, measured_period_s = Some period\<rparr>)))"

section \<open>The payload\<close>

record quality =
  valid_fraction :: pyfloat
  frame_digest :: "string option"
  device_frame_seq :: "int option"
  processing_latency_s :: "pyfloat option"

record signal_observation =
  o_crossing_id :: string
  o_source_stamp_s :: pyfloat
  o_window_span_s :: pyfloat
  o_sample_count :: int
  o_state :: signal_state
  o_is_flashing :: "bool option"
  o_measured_period_s :: "pyfloat option"
  o_off_phase_count :: int
  o_roi_consistent :: bool
  o_quality :: quality

definition is_space :: "char \<Rightarrow> bool" where
  "is_space c \<longleftrightarrow> (let n = of_char c :: nat in 9 \<le> n \<and> n \<le> 13 \<or> 28 \<le> n \<and> n \<le> 32 \<or> n = 133 \<or> n = 160)"

definition blank :: "string \<Rightarrow> bool" where
  "blank s \<longleftrightarrow> list_all is_space s"

text \<open>The field validators and \<open>allow_inf_nan=False\<close>.\<close>

definition quality_valid :: "quality \<Rightarrow> bool" where
  "quality_valid q \<longleftrightarrow>
     isfinite (valid_fraction q) \<and> Fin 0 \<le> valid_fraction q \<and> valid_fraction q \<le> Fin 1
     \<and> (case device_frame_seq q of None \<Rightarrow> True | Some n \<Rightarrow> 0 \<le> n)
     \<and> (case processing_latency_s q of None \<Rightarrow> True | Some x \<Rightarrow> isfinite x \<and> \<not> x < Fin 0)"

definition observation_valid :: "signal_observation \<Rightarrow> bool" where
  "observation_valid ob \<longleftrightarrow>
     \<not> blank (o_crossing_id ob) \<and> isfinite (o_source_stamp_s ob)
     \<and> isfinite (o_window_span_s ob) \<and> \<not> o_window_span_s ob \<le> Fin 0
     \<and> (case o_measured_period_s ob of None \<Rightarrow> True | Some x \<Rightarrow> isfinite x \<and> \<not> x \<le> Fin 0)
     \<and> 0 \<le> o_sample_count ob \<and> 0 \<le> o_off_phase_count ob \<and> quality_valid (o_quality ob)"

section \<open>The window\<close>

record signal_window =
  sw_params :: signal_params
  sw_crossing_id :: string

definition make_window :: "signal_params \<Rightarrow> pyval \<Rightarrow> signal_window result" where
  "make_window p crossing =
     (case crossing of
        PStr s \<Rightarrow> if blank s then Inl ValueError else Inr \<lparr>sw_params = p, sw_crossing_id = s\<rparr>
      | _ \<Rightarrow> Inl ValueError)"

definition ratio_of :: "nat \<Rightarrow> nat \<Rightarrow> pyfloat" where
  "ratio_of a b = fround (of_nat a / of_nat b)"

definition holds_majority :: "signal_params \<Rightarrow> evidence_sample list \<Rightarrow> lamp_evidence \<Rightarrow> bool" where
  "holds_majority p win wanted =
     (if win = [] then False
      else majority_fraction p \<le> ratio_of (length (filter (\<lambda>s. e_evidence s = wanted) win)) (length win))"

definition valid_share :: "evidence_sample list \<Rightarrow> pyfloat" where
  "valid_share win =
     (if win = [] then Fin 0
      else ratio_of (length (filter (\<lambda>s. e_evidence s \<noteq> LampNotVisible) win)) (length win))"

fun sanitised_seq :: "pyval \<Rightarrow> int option" where
  "sanitised_seq (PInt n) = (if 0 \<le> n then Some n else None)"
| "sanitised_seq _ = None"

definition sanitised_latency :: "pyval \<Rightarrow> pyfloat option result" where
  "sanitised_latency v =
     bindR (readable_num v) (\<lambda>x. Inr (if \<not> isfinite x \<or> x < Fin 0 then None else Some x))"

definition in_span :: "pyfloat \<Rightarrow> pyfloat \<Rightarrow> pyfloat \<Rightarrow> bool" where
  "in_span start end_s t \<longleftrightarrow> isfinite t \<and> start < t \<and> t \<le> end_s"

definition signal_of ::
    "signal_params \<Rightarrow> flash_verdict \<Rightarrow> bool \<Rightarrow> evidence_sample list \<Rightarrow> signal_state" where
  "signal_of p flash evidence_readable win =
     (let off_phase_count = length (filter (\<lambda>s. e_evidence s = LampOffOrUnlit) win) in
      if is_flashing flash = Some True then SignalGreenFlashing
      else if \<not> evidence_readable then SignalUnknown
      else if holds_majority p win LampRed then SignalRed
      else if holds_majority p win LampGreen \<and> is_flashing flash = Some False \<and> off_phase_count = 0
           \<and> (win \<noteq> [] \<and> e_roi (last win)) \<and> min_samples p \<le> int (length win)
           \<and> win \<noteq> [] \<and> e_evidence (last win) = LampGreen
      then SignalGreen else SignalUnknown)"

definition evaluate_window ::
    "signal_window \<Rightarrow> pyval \<Rightarrow> luminance_sample list \<Rightarrow> evidence_sample list \<Rightarrow> pyval \<Rightarrow> pyval \<Rightarrow> pyval \<Rightarrow>
     signal_observation option result" where
  "evaluate_window w window_end luminance evidence digest seq latency =
     (let p = sw_params w in
      bindR (readable_num window_end) (\<lambda>end_s.
      if \<not> isfinite end_s then Inr None
      else
        let start = end_s - window_span_s p;
            luminance_readable = list_all (\<lambda>s. isfinite (l_stamp s)) luminance;
            evidence_readable = list_all (\<lambda>s. isfinite (e_stamp s)) evidence;
            lit_window = filter (\<lambda>s. in_span start end_s (l_stamp s)) luminance;
            ev_window = py_sorted e_stamp (filter (\<lambda>s. in_span start end_s (e_stamp s)) evidence)
        in if ev_window = [] \<and> lit_window = [] then Inr None
           else bindR (if luminance_readable then flash_judgement p lit_window start end_s else Inr undetermined) (\<lambda>flash.
             bindR (sanitised_latency latency) (\<lambda>lat.
             let ob = \<lparr>o_crossing_id = sw_crossing_id w,
                   o_source_stamp_s = (if ev_window \<noteq> [] then e_stamp (last ev_window) else py_max_list (map l_stamp lit_window)),
                   o_window_span_s = window_span_s p, o_sample_count = int (length ev_window),
                   o_state = signal_of p flash evidence_readable ev_window,
                   o_is_flashing = is_flashing flash, o_measured_period_s = measured_period_s flash,
                   o_off_phase_count = int (length (filter (\<lambda>s. e_evidence s = LampOffOrUnlit) ev_window)),
                   o_roi_consistent = (if ev_window \<noteq> [] then e_roi (last ev_window) else False),
                   o_quality = \<lparr>valid_fraction = valid_share ev_window,
                     frame_digest = (case digest of PStr d \<Rightarrow> Some d | _ \<Rightarrow> None),
                     device_frame_seq = sanitised_seq seq, processing_latency_s = lat\<rparr>\<rparr>
             in if observation_valid ob then Inr (Some ob) else Inl ValueError))))"

end
