(* ===== verification/TerrainCore.thy ===== *)
theory TerrainCore
  imports GuardLogic SignalTemporal
begin

text \<open>
  The terrain observer \<open>warehouse_perception/terrain_core.py\<close>: a depth image becomes points in the body frame, a
  ground plane, a classified grid, the coverage payload of \<open>warehouse_interfaces/perception.py\<close> and a virtual scan
  of the cliffs. The mathematical library is \<open>lib\<close>, the draws of \<open>random.Random(seed).sample\<close> are the argument
  \<open>draw\<close>, the hash is \<open>sha\<close> and the texts of the samples are \<open>txt\<close>.
\<close>

record terrain_libm = libm +
  m_atan :: "pyfloat \<Rightarrow> pyfloat"

section \<open>Numbers\<close>

definition INDEX_EPS :: pyfloat where "INDEX_EPS = fround (1/1000000000)"
definition DEGENERATE_DET :: pyfloat where "DEGENERATE_DET = fround (1/1000000000000)"
definition HALF_PI :: pyfloat where "HALF_PI = Fin (884279719003555/562949953421312)"

text \<open>\<open>int(math.floor(x))\<close> and \<open>int(math.ceil(x))\<close>; an integer as a float operand.\<close>

fun floor_int :: "pyfloat \<Rightarrow> int result" where
  "floor_int (Fin x) = Inr \<lfloor>x\<rfloor>"
| "floor_int NaN = Inl ValueError"
| "floor_int _ = Inl OverflowError"

fun ceil_int :: "pyfloat \<Rightarrow> int result" where
  "ceil_int (Fin x) = Inr \<lceil>x\<rceil>"
| "ceil_int NaN = Inl ValueError"
| "ceil_int _ = Inl OverflowError"

definition fint :: "int \<Rightarrow> pyfloat" where
  "fint n = fround (of_int n)"

definition least :: "pyfloat \<Rightarrow> pyfloat list \<Rightarrow> pyfloat" where
  "least x xs = foldl (\<lambda>m y. if y < m then y else m) x xs"

section \<open>Parameters\<close>

definition finite_param :: "pyval \<Rightarrow> pyfloat result" where
  "finite_param v =
     (if \<not> is_number v then Inl ValueError
      else bindR (to_float v) (\<lambda>x. if \<not> isfinite x then Inl ValueError else Inr x))"

definition positive_param :: "pyval \<Rightarrow> pyfloat result" where
  "positive_param v = bindR (finite_param v) (\<lambda>x. if x \<le> Fin 0 then Inl ValueError else Inr x)"

definition non_negative_param :: "pyval \<Rightarrow> pyfloat result" where
  "non_negative_param v = bindR (finite_param v) (\<lambda>x. if x < Fin 0 then Inl ValueError else Inr x)"

fun int_param :: "pyval \<Rightarrow> int \<Rightarrow> int result" where
  "int_param (PInt n) minimum = (if n < minimum then Inl ValueError else Inr n)"
| "int_param _ _ = Inl ValueError"

record intrinsics =
  ci_fx :: pyfloat
  ci_fy :: pyfloat
  ci_cx :: pyfloat
  ci_cy :: pyfloat

definition make_intrinsics :: "pyval \<Rightarrow> pyval \<Rightarrow> pyval \<Rightarrow> pyval \<Rightarrow> intrinsics result" where
  "make_intrinsics fx fy cx cy =
     bindR (positive_param fx) (\<lambda>a. bindR (positive_param fy) (\<lambda>b.
     bindR (non_negative_param cx) (\<lambda>c. bindR (non_negative_param cy) (\<lambda>d.
       Inr \<lparr>ci_fx = a, ci_fy = b, ci_cx = c, ci_cy = d\<rparr>))))"

record mounting =
  mg_height :: pyfloat
  mg_pitch :: pyfloat
  mg_offset :: pyfloat

definition make_mounting :: "pyval \<Rightarrow> pyval \<Rightarrow> pyval \<Rightarrow> mounting result" where
  "make_mounting height pitch offset =
     bindR (positive_param height) (\<lambda>h. bindR (finite_param pitch) (\<lambda>p.
     guardR (\<not> (Fin 0 < p \<and> p < HALF_PI)) (
     bindR (finite_param offset) (\<lambda>off. Inr \<lparr>mg_height = h, mg_pitch = p, mg_offset = off\<rparr>))))"

record grid_params =
  gp_cell :: pyfloat
  gp_half_width :: pyfloat
  gp_range :: pyfloat
  gp_min_points :: int
  gp_drop :: pyfloat
  gp_min_valid :: pyfloat

definition make_grid_params :: "pyval \<Rightarrow> pyval \<Rightarrow> pyval \<Rightarrow> pyval \<Rightarrow> pyval \<Rightarrow> pyval \<Rightarrow> grid_params result" where
  "make_grid_params cell half forward points drop_by valid =
     bindR (positive_param cell) (\<lambda>c.
     bindR (positive_param half) (\<lambda>w.
     bindR (fdiv c (Fin 2)) (\<lambda>c2.
     guardR (w + INDEX_EPS < c2) (
     bindR (positive_param forward) (\<lambda>r.
     guardR (r + INDEX_EPS < c) (
     bindR (int_param points 1) (\<lambda>n.
     bindR (positive_param drop_by) (\<lambda>d.
     bindR (positive_param valid) (\<lambda>v.
     guardR (Fin 1 < v) (
       Inr \<lparr>gp_cell = c, gp_half_width = w, gp_range = r, gp_min_points = n, gp_drop = d, gp_min_valid = v\<rparr>))))))))))"

definition forward_cell_count :: "grid_params \<Rightarrow> int result" where
  "forward_cell_count g = bindR (fdiv (gp_range g) (gp_cell g)) (\<lambda>q. floor_int (q + INDEX_EPS))"

record fit_params =
  gf_tolerance :: pyfloat
  gf_iterations :: int
  gf_seed :: int
  gf_max_tilt :: pyfloat
  gf_max_offset :: pyfloat

definition make_fit_params :: "pyval \<Rightarrow> pyval \<Rightarrow> pyval \<Rightarrow> pyval \<Rightarrow> pyval \<Rightarrow> fit_params result" where
  "make_fit_params tol its seed tilt offset =
     bindR (positive_param tol) (\<lambda>t.
     bindR (int_param its 1) (\<lambda>n.
     case seed of
       PInt s \<Rightarrow> bindR (positive_param tilt) (\<lambda>a. bindR (positive_param offset) (\<lambda>b.
         Inr \<lparr>gf_tolerance = t, gf_iterations = n, gf_seed = s, gf_max_tilt = a, gf_max_offset = b\<rparr>))
     | _ \<Rightarrow> Inl ValueError))"

record terrain_params =
  tp_intrinsics :: intrinsics
  tp_mounting :: mounting
  tp_grid :: grid_params
  tp_fit :: fit_params

definition make_terrain_params :: "intrinsics \<Rightarrow> mounting \<Rightarrow> grid_params \<Rightarrow> fit_params \<Rightarrow> terrain_params result" where
  "make_terrain_params i m g f =
     guardR (gp_drop g \<le> gf_tolerance f) (Inr \<lparr>tp_intrinsics = i, tp_mounting = m, tp_grid = g, tp_fit = f\<rparr>)"

record scan_params =
  cs_angle_min :: pyfloat
  cs_angle_max :: pyfloat
  cs_rays :: int
  cs_range_min :: pyfloat
  cs_range_max :: pyfloat

definition make_scan_params :: "pyval \<Rightarrow> pyval \<Rightarrow> pyval \<Rightarrow> pyval \<Rightarrow> pyval \<Rightarrow> scan_params result" where
  "make_scan_params amin amax rays rmin rmax =
     bindR (finite_param amin) (\<lambda>lo. bindR (finite_param amax) (\<lambda>hi.
     guardR (hi \<le> lo) (
     bindR (int_param rays 1) (\<lambda>n. bindR (positive_param rmin) (\<lambda>near. bindR (positive_param rmax) (\<lambda>far.
     guardR (far \<le> near) (
       Inr \<lparr>cs_angle_min = lo, cs_angle_max = hi, cs_rays = n, cs_range_min = near, cs_range_max = far\<rparr>)))))))"

definition angle_increment :: "scan_params \<Rightarrow> pyfloat result" where
  "angle_increment s = bindR (float_of_int (cs_rays s)) (\<lambda>n. fdiv (cs_angle_max s - cs_angle_min s) n)"

section \<open>Depth\<close>

definition readable_depth :: "pyval \<Rightarrow> pyfloat option result" where
  "readable_depth v =
     (if \<not> is_number v then Inr None
      else bindR (to_float v) (\<lambda>x. Inr (if \<not> isfinite x \<or> x \<le> Fin 0 then None else Some x)))"

record sample_texts =
  st_hex :: "pyfloat \<Rightarrow> string"
  st_repr :: "pyval \<Rightarrow> string"

definition payload_token :: "sample_texts \<Rightarrow> pyval \<Rightarrow> string result" where
  "payload_token txt v =
     (case v of
        PBool _ \<Rightarrow> Inr (''b'' @ st_repr txt v)
      | _ \<Rightarrow> if is_number v then bindR (to_float v) (\<lambda>x. Inr (st_hex txt x)) else Inr (''r'' @ st_repr txt v))"

record depth_validity =
  dv_pixels :: "(nat \<times> nat \<times> pyfloat) list"
  dv_total :: nat
  dv_count :: nat
  dv_fraction :: pyfloat
  dv_digest :: string

text \<open>One row: its tokens and its valid pixels.\<close>

fun depth_row :: "sample_texts \<Rightarrow> nat \<Rightarrow> nat \<Rightarrow> pyval list \<Rightarrow> (string list \<times> (nat \<times> nat \<times> pyfloat) list) result" where
  "depth_row txt v u [] = Inr ([], [])"
| "depth_row txt v u (s # samples) =
     bindR (payload_token txt s) (\<lambda>t. bindR (readable_depth s) (\<lambda>z.
     bindR (depth_row txt v (Suc u) samples) (\<lambda>(ts, ps).
       Inr (t # ts, (case z of None \<Rightarrow> ps | Some z \<Rightarrow> (u, v, z) # ps)))))"

fun depth_rows :: "sample_texts \<Rightarrow> nat \<Rightarrow> pyval list list \<Rightarrow> (string list \<times> (nat \<times> nat \<times> pyfloat) list) result" where
  "depth_rows txt v [] = Inr ([], [])"
| "depth_rows txt v (row # rows) =
     bindR (depth_row txt v 0 row) (\<lambda>(ts, ps). bindR (depth_rows txt (Suc v) rows) (\<lambda>(ts', ps').
       Inr (decimal (length row) # ts @ ts', ps @ ps')))"

text \<open>\<open>'|'.join(parts)\<close> and the ratio of two counts, which Python rounds once.\<close>

fun join_bar :: "string list \<Rightarrow> string" where
  "join_bar [] = []"
| "join_bar [s] = s"
| "join_bar (s # t # ss) = s @ ''|'' @ join_bar (t # ss)"

definition ratio :: "nat \<Rightarrow> nat \<Rightarrow> pyfloat" where
  "ratio n m = (if m = 0 then Fin 0 else fround (of_nat n / of_nat m))"

definition depth_validity_of :: "sample_texts \<Rightarrow> (string \<Rightarrow> string) \<Rightarrow> pyval list list \<Rightarrow> depth_validity result" where
  "depth_validity_of txt sha rows =
     bindR (depth_rows txt 0 rows) (\<lambda>(ts, ps).
       (let total = sum_list (map length rows)
        in Inr \<lparr>dv_pixels = ps, dv_total = total, dv_count = length ps, dv_fraction = ratio (length ps) total,
                dv_digest = sha (join_bar (decimal (length rows) # ts))\<rparr>))"

section \<open>Points and the ground plane\<close>

type_synonym point3 = "pyfloat \<times> pyfloat \<times> pyfloat"

definition project_pixel :: "terrain_libm \<Rightarrow> intrinsics \<Rightarrow> mounting \<Rightarrow> nat \<times> nat \<times> pyfloat \<Rightarrow> point3 result" where
  "project_pixel lib ci mg = (\<lambda>(u, v, depth).
     bindR (fdiv ((fint (int u) - ci_cx ci) * depth) (ci_fx ci)) (\<lambda>x_optical.
     bindR (fdiv ((fint (int v) - ci_cy ci) * depth) (ci_fy ci)) (\<lambda>y_optical.
       (let c = m_cos lib (mg_pitch mg); s = m_sin lib (mg_pitch mg)
        in Inr (depth * c - y_optical * s, - x_optical, mg_height mg - depth * s - y_optical * c)))))"

fun mapR :: "('a \<Rightarrow> 'b result) \<Rightarrow> 'a list \<Rightarrow> 'b list result" where
  "mapR f [] = Inr []"
| "mapR f (x # xs) = bindR (f x) (\<lambda>y. bindR (mapR f xs) (\<lambda>ys. Inr (y # ys)))"

definition back_project :: "terrain_libm \<Rightarrow> intrinsics \<Rightarrow> mounting \<Rightarrow> (nat \<times> nat \<times> pyfloat) list \<Rightarrow> point3 list result" where
  "back_project lib ci mg ps = mapR (project_pixel lib ci mg) ps"

record ground_plane =
  pl_a :: pyfloat
  pl_b :: pyfloat
  pl_c :: pyfloat
  pl_inliers :: nat
  pl_points :: nat
  pl_from_prior :: bool
  pl_rejected :: nat

definition height_at :: "ground_plane \<Rightarrow> pyfloat \<Rightarrow> pyfloat \<Rightarrow> pyfloat" where
  "height_at g x y = pl_a g * x + pl_b g * y + pl_c g"

definition inlier_fraction :: "ground_plane \<Rightarrow> pyfloat" where
  "inlier_fraction g = ratio (pl_inliers g) (pl_points g)"

definition tilt_of :: "terrain_libm \<Rightarrow> pyfloat \<Rightarrow> pyfloat \<Rightarrow> pyfloat" where
  "tilt_of lib a b = m_atan lib (m_hypot lib a b)"

definition plane_from_triple :: "point3 \<Rightarrow> point3 \<Rightarrow> point3 \<Rightarrow> point3 option result" where
  "plane_from_triple p0 p1 p2 =
     (case (p0, p1, p2) of ((x0, y0, z0), (x1, y1, z1), (x2, y2, z2)) \<Rightarrow>
        (let det = x0 * (y1 - y2) - y0 * (x1 - x2) + (x1 * y2 - x2 * y1)
         in if \<bar>det\<bar> < DEGENERATE_DET then Inr None
            else bindR (fdiv (z0 * (y1 - y2) - y0 * (z1 - z2) + (z1 * y2 - z2 * y1)) det) (\<lambda>a.
              bindR (fdiv (x0 * (z1 - z2) - z0 * (x1 - x2) + (x1 * z2 - x2 * z1)) det) (\<lambda>b.
              bindR (fdiv (x0 * (y1 * z2 - y2 * z1) - y0 * (x1 * z2 - x2 * z1) + z0 * (x1 * y2 - x2 * y1)) det) (\<lambda>c.
                Inr (Some (a, b, c)))))))"

definition plane_residual :: "point3 \<Rightarrow> point3 \<Rightarrow> pyfloat" where
  "plane_residual m p = (case (m, p) of ((a, b, c), (x, y, z)) \<Rightarrow> \<bar>z - (a * x + b * y + c)\<bar>)"

text \<open>The division is by the count, which is positive there.\<close>

definition score_of :: "pyfloat \<Rightarrow> point3 list \<Rightarrow> point3 \<Rightarrow> nat \<times> pyfloat" where
  "score_of tol pts m =
     (case foldl (\<lambda>(n, t) p. let r = plane_residual m p in if r \<le> tol then (Suc n, t + r) else (n, t)) (0, Fin 0) pts of
        (n, t) \<Rightarrow> (n, if n = 0 then PInf else (case fdiv t (fint (int n)) of Inr q \<Rightarrow> q | Inl _ \<Rightarrow> NaN)))"

definition within_prior_cone :: "terrain_libm \<Rightarrow> fit_params \<Rightarrow> point3 \<Rightarrow> bool" where
  "within_prior_cone lib gf m =
     (case m of (a, b, c) \<Rightarrow>
        if \<not> (isfinite a \<and> isfinite b \<and> isfinite c) then False
        else if gf_max_tilt gf < tilt_of lib a b then False
        else \<bar>c\<bar> \<le> gf_max_offset gf)"

record fit_state =
  fs_best :: point3
  fs_score :: "nat \<times> pyfloat"
  fs_prior :: bool
  fs_rejected :: nat

definition better :: "nat \<times> pyfloat \<Rightarrow> nat \<times> pyfloat \<Rightarrow> bool" where
  "better s t \<longleftrightarrow> fst t < fst s \<or> fst s = fst t \<and> snd s < snd t"

definition fit_step :: "terrain_libm \<Rightarrow> fit_params \<Rightarrow> point3 list \<Rightarrow> nat \<times> nat \<times> nat \<Rightarrow> fit_state \<Rightarrow> fit_state result" where
  "fit_step lib gf pts ijk f =
     (case ijk of (i, j, k) \<Rightarrow>
        bindR (plane_from_triple (pts ! i) (pts ! j) (pts ! k)) (\<lambda>cand.
          Inr (case cand of
             None \<Rightarrow> f
           | Some m \<Rightarrow>
               if \<not> within_prior_cone lib gf m then f\<lparr>fs_rejected := Suc (fs_rejected f)\<rparr>
               else let s = score_of (gf_tolerance gf) pts m
                 in if better s (fs_score f) then f\<lparr>fs_best := m, fs_score := s, fs_prior := False\<rparr> else f)))"

fun fit_loop :: "terrain_libm \<Rightarrow> fit_params \<Rightarrow> point3 list \<Rightarrow> (nat \<times> nat \<times> nat) list \<Rightarrow> fit_state \<Rightarrow> fit_state result" where
  "fit_loop lib gf pts [] f = Inr f"
| "fit_loop lib gf pts (t # ts) f = bindR (fit_step lib gf pts t f) (fit_loop lib gf pts ts)"

text \<open>\<open>draw seed n i\<close> is the \<open>i\<close>-th triple of positions below \<open>n\<close>.\<close>

definition draws_of :: "(int \<Rightarrow> nat \<Rightarrow> nat \<Rightarrow> nat \<times> nat \<times> nat) \<Rightarrow> fit_params \<Rightarrow> nat \<Rightarrow> (nat \<times> nat \<times> nat) list" where
  "draws_of draw gf n = (if 3 \<le> n then map (draw (gf_seed gf) n) [0..<nat (gf_iterations gf)] else [])"

definition PRIOR :: point3 where "PRIOR = (Fin 0, Fin 0, Fin 0)"

definition ground_estimator ::
    "terrain_libm \<Rightarrow> (int \<Rightarrow> nat \<Rightarrow> nat \<Rightarrow> nat \<times> nat \<times> nat) \<Rightarrow> fit_params \<Rightarrow> point3 list \<Rightarrow> ground_plane result" where
  "ground_estimator lib draw gf pts =
     bindR (fit_loop lib gf pts (draws_of draw gf (length pts))
         \<lparr>fs_best = PRIOR, fs_score = score_of (gf_tolerance gf) pts PRIOR, fs_prior = True, fs_rejected = 0\<rparr>) (\<lambda>f.
       (case fs_best f of (a, b, c) \<Rightarrow>
         Inr \<lparr>pl_a = a, pl_b = b, pl_c = c, pl_inliers = fst (fs_score f), pl_points = length pts,
              pl_from_prior = fs_prior f, pl_rejected = fs_rejected f\<rparr>))"

section \<open>The grid\<close>

datatype terrain_state = FLOOR_CONFIRMED | DROP_DETECTED | TERRAIN_UNKNOWN

record cell_obs =
  tc_ix :: int
  tc_iy :: int
  tc_state :: terrain_state
  tc_points :: nat
  tc_floor_points :: nat
  tc_drop_points :: nat
  tc_min_residual :: pyfloat

record terrain_grid =
  tg_cells :: "(int \<times> int, cell_obs) pydict"
  tg_forward :: int
  tg_corridor :: "int list"
  tg_cell_size :: pyfloat

definition state_at :: "terrain_grid \<Rightarrow> int \<Rightarrow> int \<Rightarrow> terrain_state" where
  "state_at g ix iy = (case map_of (tg_cells g) (ix, iy) of None \<Rightarrow> TERRAIN_UNKNOWN | Some c \<Rightarrow> tc_state c)"

definition row_state :: "terrain_grid \<Rightarrow> int \<Rightarrow> terrain_state" where
  "row_state g ix =
     (let states = map (state_at g ix) (tg_corridor g)
      in if DROP_DETECTED \<in> set states then DROP_DETECTED
         else if states \<noteq> [] \<and> list_all (\<lambda>s. s = FLOOR_CONFIRMED) states then FLOOR_CONFIRMED
         else TERRAIN_UNKNOWN)"

definition row_states :: "terrain_grid \<Rightarrow> terrain_state list" where
  "row_states g = map (row_state g) [0..tg_forward g - 1]"

definition corridor_lateral_indices :: "grid_params \<Rightarrow> int list result" where
  "corridor_lateral_indices g =
     bindR (fdiv (gp_half_width g) (gp_cell g)) (\<lambda>q.
     bindR (ceil_int (- q - Fin (1/2) - INDEX_EPS)) (\<lambda>low.
     bindR (floor_int (q - Fin (1/2) + INDEX_EPS)) (\<lambda>high. Inr [low..high])))"

text \<open>The cell of a point, if it is in the range ahead, and its signed height over the plane.\<close>

definition cell_of :: "grid_params \<Rightarrow> pyfloat \<Rightarrow> int \<Rightarrow> point3 \<Rightarrow> (int \<times> int) option result" where
  "cell_of g offset forward p =
     (case p of (x, y, z) \<Rightarrow>
        bindR (bindR (fdiv (x - offset) (gp_cell g)) (\<lambda>q. floor_int (q + INDEX_EPS))) (\<lambda>ix.
          if ix < 0 \<or> forward \<le> ix then Inr None
          else bindR (bindR (fdiv y (gp_cell g)) (\<lambda>q. floor_int (q + INDEX_EPS))) (\<lambda>iy. Inr (Some (ix, iy)))))"

definition residual_of :: "ground_plane \<Rightarrow> point3 \<Rightarrow> pyfloat" where
  "residual_of pl p = (case p of (x, y, z) \<Rightarrow> z - height_at pl x y)"

text \<open>\<open>buckets.setdefault(key, []).append(r)\<close>.\<close>

definition bucket_add :: "'k \<Rightarrow> 'v \<Rightarrow> ('k, 'v list) pydict \<Rightarrow> ('k, 'v list) pydict" where
  "bucket_add k v d = AList.update k ((case map_of d k of None \<Rightarrow> [] | Some vs \<Rightarrow> vs) @ [v]) d"

fun fill_buckets ::
    "grid_params \<Rightarrow> pyfloat \<Rightarrow> int \<Rightarrow> ground_plane \<Rightarrow> point3 list \<Rightarrow> (int \<times> int, pyfloat list) pydict \<Rightarrow>
     (int \<times> int, pyfloat list) pydict result" where
  "fill_buckets g offset forward pl [] d = Inr d"
| "fill_buckets g offset forward pl (p # ps) d =
     bindR (cell_of g offset forward p) (\<lambda>key.
       fill_buckets g offset forward pl ps
         (case key of None \<Rightarrow> d | Some k \<Rightarrow> bucket_add k (residual_of pl p) d))"

definition judge_cell :: "grid_params \<Rightarrow> pyfloat \<Rightarrow> (int \<times> int) \<times> pyfloat list \<Rightarrow> (int \<times> int) \<times> cell_obs" where
  "judge_cell g tol = (\<lambda>((ix, iy), rs).
     (let floors = length (filter (\<lambda>r. \<bar>r\<bar> \<le> tol) rs); drops = length (filter (\<lambda>r. r \<le> - gp_drop g) rs)
      in ((ix, iy), \<lparr>tc_ix = ix, tc_iy = iy,
           tc_state = (if int (length rs) < gp_min_points g then TERRAIN_UNKNOWN
                       else if 0 < drops then DROP_DETECTED
                       else if gp_min_points g \<le> int floors then FLOOR_CONFIRMED
                       else TERRAIN_UNKNOWN),
           tc_points = length rs, tc_floor_points = floors, tc_drop_points = drops,
           tc_min_residual = least (hd rs) (tl rs)\<rparr>)))"

definition classify_cells :: "terrain_params \<Rightarrow> ground_plane \<Rightarrow> point3 list \<Rightarrow> terrain_grid result" where
  "classify_cells tp pl pts =
     (let g = tp_grid tp in
      bindR (forward_cell_count g) (\<lambda>forward.
      bindR (fill_buckets g (mg_offset (tp_mounting tp)) forward pl pts []) (\<lambda>buckets.
      bindR (corridor_lateral_indices g) (\<lambda>corridor.
        Inr \<lparr>tg_cells = map (judge_cell g (gf_tolerance (tp_fit tp))) buckets, tg_forward = forward,
             tg_corridor = corridor, tg_cell_size = gp_cell g\<rparr>))))"

section \<open>The coverage payload\<close>

record coverage_quality = quality +
  cq_tilt :: pyfloat
  cq_offset :: pyfloat
  cq_inlier_fraction :: pyfloat
  cq_from_prior :: bool
  cq_rejected :: int

record coverage_payload =
  cv_source_stamp_s :: pyfloat
  cv_reference :: string
  cv_state :: terrain_state
  cv_confirmed :: "pyfloat option"
  cv_nearest_drop :: "pyfloat option"
  cv_step_height :: "pyfloat option"
  cv_quality :: coverage_quality

text \<open>The field validators and \<open>allow_inf_nan=False\<close>; the fields that stay \<open>None\<close> are left out.\<close>

definition coverage_valid :: "coverage_payload \<Rightarrow> bool" where
  "coverage_valid cv \<longleftrightarrow>
     (let q = cv_quality cv in
      isfinite (cv_source_stamp_s cv) \<and> \<not> blank (cv_reference cv)
      \<and> (case cv_confirmed cv of None \<Rightarrow> True | Some x \<Rightarrow> isfinite x \<and> \<not> x < Fin 0)
      \<and> (case cv_nearest_drop cv of None \<Rightarrow> True | Some x \<Rightarrow> isfinite x \<and> \<not> x < Fin 0)
      \<and> (case cv_step_height cv of None \<Rightarrow> True | Some x \<Rightarrow> isfinite x)
      \<and> quality_valid (quality.truncate q)
      \<and> isfinite (cq_tilt q) \<and> \<not> cq_tilt q < Fin 0 \<and> isfinite (cq_offset q)
      \<and> isfinite (cq_inlier_fraction q) \<and> Fin 0 \<le> cq_inlier_fraction q \<and> cq_inlier_fraction q \<le> Fin 1
      \<and> 0 \<le> cq_rejected q)"

fun confirmed_run :: "terrain_state list \<Rightarrow> nat" where
  "confirmed_run [] = 0"
| "confirmed_run (s # ss) = (if s \<noteq> FLOOR_CONFIRMED then 0 else Suc (confirmed_run ss))"

text \<open>The first drop row from index \<open>ix\<close> on, and the residuals of its drop cells in the corridor.\<close>

fun first_drop :: "nat \<Rightarrow> terrain_state list \<Rightarrow> nat option" where
  "first_drop ix [] = None"
| "first_drop ix (s # ss) = (if s \<noteq> DROP_DETECTED then first_drop (Suc ix) ss else Some ix)"

definition drop_residuals :: "terrain_grid \<Rightarrow> int \<Rightarrow> pyfloat list" where
  "drop_residuals g ix =
     List.map_filter (\<lambda>iy. case map_of (tg_cells g) (ix, iy) of
         None \<Rightarrow> None
       | Some c \<Rightarrow> if tc_state c = DROP_DETECTED then Some (tc_min_residual c) else None) (tg_corridor g)"

record frame_meta =
  fm_source_stamp_s :: pyfloat
  fm_reference :: string
  fm_device_seq :: "int option"
  fm_latency :: "pyfloat option"

definition terrain_coverage ::
    "terrain_libm \<Rightarrow> terrain_params \<Rightarrow> terrain_grid \<Rightarrow> ground_plane \<Rightarrow> pyfloat \<Rightarrow> string \<Rightarrow> frame_meta \<Rightarrow> coverage_payload result" where
  "terrain_coverage lib tp g pl fraction digest m =
     (let rows = row_states g;
          n = confirmed_run rows;
          confirmed = (if gp_min_valid (tp_grid tp) \<le> fraction \<and> 0 < n then Some (fint (int n) * tg_cell_size g) else None);
          drop_row = first_drop 0 rows;
          nearest = map_option (\<lambda>ix. fint (int ix) * tg_cell_size g) drop_row;
          step = map_option (\<lambda>ix. let rs = drop_residuals g (int ix) in least (hd rs) (tl rs)) drop_row;
          cv = \<lparr>cv_source_stamp_s = fm_source_stamp_s m, cv_reference = fm_reference m,
                cv_state = (if nearest \<noteq> None then DROP_DETECTED
                            else case confirmed of
                                Some d \<Rightarrow> if Fin 0 < d then FLOOR_CONFIRMED else TERRAIN_UNKNOWN
                              | None \<Rightarrow> TERRAIN_UNKNOWN),
                cv_confirmed = confirmed, cv_nearest_drop = nearest, cv_step_height = step,
                cv_quality = \<lparr>valid_fraction = fraction, frame_digest = Some digest, device_frame_seq = fm_device_seq m,
                  processing_latency_s = fm_latency m, cq_tilt = tilt_of lib (pl_a pl) (pl_b pl), cq_offset = pl_c pl,
                  cq_inlier_fraction = inlier_fraction pl, cq_from_prior = pl_from_prior pl,
                  cq_rejected = int (pl_rejected pl)\<rparr>\<rparr>
      in if coverage_valid cv then Inr cv else Inl ValueError)"

section \<open>The cliff scan\<close>

record cliff_scan =
  sc_ranges :: "pyfloat list"
  sc_params :: scan_params
  sc_increment :: pyfloat
  sc_stamp :: pyfloat
  sc_drops :: nat
  sc_omitted :: nat

text \<open>Where a drop cell is shown: the ray and the distance of its near edge, if the scan can express it.\<close>

definition cell_distance :: "terrain_libm \<Rightarrow> pyfloat \<Rightarrow> cell_obs \<Rightarrow> pyfloat" where
  "cell_distance lib sz c = m_hypot lib (fint (tc_ix c) * sz) ((fint (tc_iy c) + Fin (1/2)) * sz)"

definition ray_of :: "terrain_libm \<Rightarrow> pyfloat \<Rightarrow> scan_params \<Rightarrow> pyfloat \<Rightarrow> cell_obs \<Rightarrow> int result" where
  "ray_of lib sz s inc c =
     (let bearing = m_atan2 lib ((fint (tc_iy c) + Fin (1/2)) * sz) ((fint (tc_ix c) + Fin (1/2)) * sz)
      in bindR (fdiv (bearing - cs_angle_min s) inc) (\<lambda>q. floor_int (q + INDEX_EPS)))"

definition shown_at :: "terrain_libm \<Rightarrow> pyfloat \<Rightarrow> scan_params \<Rightarrow> pyfloat \<Rightarrow> cell_obs \<Rightarrow> nat option result" where
  "shown_at lib sz s inc c =
     bindR (ray_of lib sz s inc c) (\<lambda>i.
       (let d = cell_distance lib sz c in
        Inr (if i < 0 \<or> cs_rays s \<le> i then None
             else if d < cs_range_min s \<or> cs_range_max s < d then None
             else Some (nat i))))"

record scan_state =
  ss_ranges :: "pyfloat list"
  ss_drops :: nat
  ss_omitted :: nat

definition cliff_step :: "terrain_libm \<Rightarrow> pyfloat \<Rightarrow> scan_params \<Rightarrow> pyfloat \<Rightarrow> cell_obs \<Rightarrow> scan_state \<Rightarrow> scan_state result" where
  "cliff_step lib sz s inc c st =
     (if tc_state c \<noteq> DROP_DETECTED then Inr st
      else bindR (shown_at lib sz s inc c) (\<lambda>slot.
        Inr (case slot of
            None \<Rightarrow> st\<lparr>ss_drops := Suc (ss_drops st), ss_omitted := Suc (ss_omitted st)\<rparr>
          | Some i \<Rightarrow> st\<lparr>ss_drops := Suc (ss_drops st),
              ss_ranges := (let d = cell_distance lib sz c
                in if d < ss_ranges st ! i then (ss_ranges st)[i := d] else ss_ranges st)\<rparr>)))"

fun cliff_loop :: "terrain_libm \<Rightarrow> pyfloat \<Rightarrow> scan_params \<Rightarrow> pyfloat \<Rightarrow> cell_obs list \<Rightarrow> scan_state \<Rightarrow> scan_state result" where
  "cliff_loop lib sz s inc [] st = Inr st"
| "cliff_loop lib sz s inc (c # cs) st = bindR (cliff_step lib sz s inc c st) (cliff_loop lib sz s inc cs)"

definition cliff_ranges :: "terrain_libm \<Rightarrow> terrain_grid \<Rightarrow> scan_params \<Rightarrow> pyfloat \<Rightarrow> cliff_scan result" where
  "cliff_ranges lib g s stamp =
     bindR (angle_increment s) (\<lambda>inc.
     bindR (cliff_loop lib (tg_cell_size g) s inc (map snd (tg_cells g))
         \<lparr>ss_ranges = replicate (nat (cs_rays s)) PInf, ss_drops = 0, ss_omitted = 0\<rparr>) (\<lambda>st.
       Inr \<lparr>sc_ranges = ss_ranges st, sc_params = s, sc_increment = inc, sc_stamp = stamp, sc_drops = ss_drops st,
            sc_omitted = ss_omitted st\<rparr>))"

section \<open>One frame\<close>

record terrain_observation =
  ob_validity :: depth_validity
  ob_plane :: ground_plane
  ob_grid :: terrain_grid
  ob_coverage :: coverage_payload
  ob_cliff :: cliff_scan

record frame_env =
  fe_lib :: terrain_libm
  fe_draw :: "int \<Rightarrow> nat \<Rightarrow> nat \<Rightarrow> nat \<times> nat \<times> nat"
  fe_txt :: sample_texts
  fe_sha :: "string \<Rightarrow> string"

definition analyze_depth_frame ::
    "frame_env \<Rightarrow> terrain_params \<Rightarrow> scan_params \<Rightarrow> frame_meta \<Rightarrow> pyval list list \<Rightarrow> terrain_observation result" where
  "analyze_depth_frame e tp s m rows =
     bindR (depth_validity_of (fe_txt e) (fe_sha e) rows) (\<lambda>dv.
     bindR (back_project (fe_lib e) (tp_intrinsics tp) (tp_mounting tp) (dv_pixels dv)) (\<lambda>pts.
     bindR (ground_estimator (fe_lib e) (fe_draw e) (tp_fit tp) pts) (\<lambda>pl.
     bindR (classify_cells tp pl pts) (\<lambda>g.
     bindR (terrain_coverage (fe_lib e) tp g pl (dv_fraction dv) (dv_digest dv) m) (\<lambda>cv.
     bindR (cliff_ranges (fe_lib e) g s (fm_source_stamp_s m)) (\<lambda>sc.
       Inr \<lparr>ob_validity = dv, ob_plane = pl, ob_grid = g, ob_coverage = cv, ob_cliff = sc\<rparr>))))))"

end
