(* ===== verification/TerrainNode.thy ===== *)
theory TerrainNode
  imports TerrainCore "HOL-Library.Word"
begin

text \<open>
  The terrain node around \<^theory_text>\<open>TerrainCore\<close>: \<open>terrain_node_core.py\<close> (start-up parameters, camera intrinsics, the
  bytes of a depth image, the stamps) and \<open>terrain_node.py\<close> (start-up and the two callbacks, with what they publish).
  A buffer is a list of 8-bit words; the format of a single-precision sample is written out from its bits.
\<close>

section \<open>Parameters\<close>

definition require_param :: "(string, pyval) pydict \<Rightarrow> string \<Rightarrow> pyval result" where
  "require_param values key = (case map_of values key of None \<Rightarrow> Inl ValueError | Some v \<Rightarrow> Inr v)"

definition require_str :: "(string, pyval) pydict \<Rightarrow> string \<Rightarrow> string result" where
  "require_str values key = bindR (require_param values key) (\<lambda>v. case v of
     PStr s \<Rightarrow> if blank s then Inl ValueError else Inr s | _ \<Rightarrow> Inl ValueError)"

definition require_number :: "(string, pyval) pydict \<Rightarrow> string \<Rightarrow> pyval result" where
  "require_number values key = bindR (require_param values key) (\<lambda>v.
     if \<not> is_number v then Inl ValueError else bindR (to_float v) (\<lambda>x. Inr (PFloat x)))"

definition require_int :: "(string, pyval) pydict \<Rightarrow> string \<Rightarrow> int result" where
  "require_int values key = bindR (require_param values key) (\<lambda>v. case v of PInt n \<Rightarrow> Inr n | _ \<Rightarrow> Inl ValueError)"

definition MOUNTING_KEYS :: "string list" where
  "MOUNTING_KEYS = [''camera_height_m'', ''pitch_down_rad'', ''reference_offset_m'']"

definition GRID_KEYS :: "string list" where
  "GRID_KEYS = [''cell_size_m'', ''corridor_half_width_m'', ''forward_range_m'', ''min_points_per_cell'',
     ''drop_threshold_m'', ''min_valid_fraction'']"

definition GROUND_FIT_KEYS :: "string list" where
  "GROUND_FIT_KEYS = [''plane_tolerance_m'', ''ransac_iterations'', ''ransac_seed'', ''max_plane_tilt_rad'',
     ''max_plane_offset_m'']"

definition SCAN_KEYS :: "string list" where
  "SCAN_KEYS = [''angle_min_rad'', ''angle_max_rad'', ''ray_count'', ''range_min_m'', ''range_max_m'']"

definition PARAM_KEYS :: "string list" where
  "PARAM_KEYS = MOUNTING_KEYS @ GRID_KEYS @ GROUND_FIT_KEYS @ SCAN_KEYS @ [''reference'', ''pixel_stride'']"

record node_params =
  np_mounting :: mounting
  np_grid :: grid_params
  np_fit :: fit_params
  np_scan :: scan_params
  np_reference :: string
  np_stride :: int

definition node_terrain_params :: "node_params \<Rightarrow> intrinsics \<Rightarrow> terrain_params result" where
  "node_terrain_params np ci = make_terrain_params ci (np_mounting np) (np_grid np) (np_fit np)"

definition mounting_from :: "(string, pyval) pydict \<Rightarrow> mounting result" where
  "mounting_from vs =
     bindR (require_number vs ''camera_height_m'') (\<lambda>h. bindR (require_number vs ''pitch_down_rad'') (\<lambda>p.
     bindR (require_number vs ''reference_offset_m'') (\<lambda>r. make_mounting h p r)))"

definition grid_from :: "(string, pyval) pydict \<Rightarrow> grid_params result" where
  "grid_from vs =
     bindR (require_number vs ''cell_size_m'') (\<lambda>c. bindR (require_number vs ''corridor_half_width_m'') (\<lambda>w.
     bindR (require_number vs ''forward_range_m'') (\<lambda>r. bindR (require_int vs ''min_points_per_cell'') (\<lambda>n.
     bindR (require_number vs ''drop_threshold_m'') (\<lambda>d. bindR (require_number vs ''min_valid_fraction'') (\<lambda>v.
       make_grid_params c w r (PInt n) d v))))))"

definition fit_from :: "(string, pyval) pydict \<Rightarrow> fit_params result" where
  "fit_from vs =
     bindR (require_number vs ''plane_tolerance_m'') (\<lambda>t. bindR (require_int vs ''ransac_iterations'') (\<lambda>n.
     bindR (require_int vs ''ransac_seed'') (\<lambda>s. bindR (require_number vs ''max_plane_tilt_rad'') (\<lambda>a.
     bindR (require_number vs ''max_plane_offset_m'') (\<lambda>b. make_fit_params t (PInt n) (PInt s) a b)))))"

definition scan_from :: "(string, pyval) pydict \<Rightarrow> scan_params result" where
  "scan_from vs =
     bindR (require_number vs ''angle_min_rad'') (\<lambda>lo. bindR (require_number vs ''angle_max_rad'') (\<lambda>hi.
     bindR (require_int vs ''ray_count'') (\<lambda>n. bindR (require_number vs ''range_min_m'') (\<lambda>near.
     bindR (require_number vs ''range_max_m'') (\<lambda>far. make_scan_params lo hi (PInt n) near far)))))"

definition params_from_mapping :: "(string, pyval) pydict \<Rightarrow> node_params result" where
  "params_from_mapping vs =
     bindR (mounting_from vs) (\<lambda>m. bindR (grid_from vs) (\<lambda>g. bindR (fit_from vs) (\<lambda>f. bindR (scan_from vs) (\<lambda>s.
     bindR (require_int vs ''pixel_stride'') (\<lambda>stride.
       if stride < 1 then Inl ValueError
       else bindR (require_str vs ''reference'') (\<lambda>ref.
         Inr \<lparr>np_mounting = m, np_grid = g, np_fit = f, np_scan = s, np_reference = ref, np_stride = stride\<rparr>))))))"

section \<open>The camera\<close>

fun pick_entries :: "pyval list \<Rightarrow> int \<Rightarrow> nat list \<Rightarrow> pyfloat list option result" where
  "pick_entries k stride [] = Inr (Some [])"
| "pick_entries k stride (i # is) =
     (if \<not> is_number (k ! i) then Inr None
      else bindR (to_float (k ! i)) (\<lambda>number.
        if \<not> isfinite number then Inr None
        else bindR (float_of_int stride) (\<lambda>s. bindR (fdiv number s) (\<lambda>q.
          bindR (pick_entries k stride is) (\<lambda>rest. Inr (map_option (\<lambda>qs. q # qs) rest))))))"

definition intrinsics_from_camera_info :: "pyval list \<Rightarrow> int \<Rightarrow> intrinsics option result" where
  "intrinsics_from_camera_info k stride =
     (if stride < 1 \<or> length k \<noteq> 9 then Inr None
      else bindR (pick_entries k stride [0, 4, 2, 5]) (\<lambda>picked. case picked of
          Some [fx, fy, cx, cy] \<Rightarrow>
            if fx \<le> Fin 0 \<or> fy \<le> Fin 0 \<or> cx < Fin 0 \<or> cy < Fin 0 then Inr None
            else bindR (make_intrinsics (PFloat fx) (PFloat fy) (PFloat cx) (PFloat cy)) (\<lambda>ci. Inr (Some ci))
        | _ \<Rightarrow> Inr None))"

section \<open>The bytes of a depth image\<close>

text \<open>Bytes to a number in the given order; the value of the bits of a single-precision sample.\<close>

definition bytes_value :: "bool \<Rightarrow> 8 word list \<Rightarrow> nat" where
  "bytes_value big bs = foldl (\<lambda>n b. 256 * n + unat b) 0 (if big then bs else rev bs)"

definition single_value :: "nat \<Rightarrow> pyfloat" where
  "single_value n =
     (let neg = odd (n div 2 ^ 31); e = (n div 2 ^ 23) mod 256; f = n mod 2 ^ 23;
          x = (if e = 255 then if f = 0 then PInf else NaN
               else if e = 0 then Fin (of_nat f / 2 ^ 149)
               else Fin (of_nat (2 ^ 23 + f) * 2 powi (int e - 150))) in
      if neg then - x else x)"

datatype depth_format = UC16 | FC32

text \<open>\<open>DEPTH_ENCODINGS\<close>: the bytes per sample and the reading of one.\<close>

definition depth_encoding :: "string \<Rightarrow> depth_format option" where
  "depth_encoding s = map_of [(''16UC1'', UC16), (''32FC1'', FC32)] s"

fun sample_size :: "depth_format \<Rightarrow> nat" where
  "sample_size UC16 = 2"
| "sample_size FC32 = 4"

definition MILLIMETRES_PER_METRE :: pyfloat where "MILLIMETRES_PER_METRE = Fin 1000"

fun scaled_sample :: "depth_format \<Rightarrow> bool \<Rightarrow> 8 word list \<Rightarrow> pyfloat result" where
  "scaled_sample UC16 big bs = fdiv (fint (int (bytes_value big bs))) MILLIMETRES_PER_METRE"
| "scaled_sample FC32 big bs = fdiv (single_value (bytes_value big bs)) (Fin 1)"

text \<open>\<open>unpack_from(data, offset)\<close> needs all the bytes of the sample.\<close>

definition unpack_sample :: "depth_format \<Rightarrow> bool \<Rightarrow> 8 word list \<Rightarrow> nat \<Rightarrow> pyfloat result" where
  "unpack_sample fmt big buf offset =
     (let bs = take (sample_size fmt) (drop offset buf) in
      if length bs < sample_size fmt then Inl ValueError else scaled_sample fmt big bs)"

text \<open>\<open>range(0, n, stride)\<close>.\<close>

definition strided :: "nat \<Rightarrow> nat \<Rightarrow> nat list" where
  "strided n stride = map (\<lambda>i. i * stride) [0..<(n + stride - 1) div stride]"

record depth_image =
  di_encoding :: string
  di_width :: int
  di_height :: int
  di_step :: int
  di_bigendian :: bool
  di_data :: "8 word list"

definition decode_row :: "depth_format \<Rightarrow> depth_image \<Rightarrow> nat \<Rightarrow> nat \<Rightarrow> pyfloat list result" where
  "decode_row fmt im stride v =
     mapR (\<lambda>u. unpack_sample fmt (di_bigendian im) (di_data im) (v * nat (di_step im) + u * sample_size fmt))
       (strided (nat (di_width im)) stride)"

definition decode_depth_image :: "depth_image \<Rightarrow> int \<Rightarrow> pyfloat list list result" where
  "decode_depth_image im stride =
     (if stride < 1 \<or> di_width im \<le> 0 \<or> di_height im \<le> 0 \<or> di_step im \<le> 0 then Inr []
      else case depth_encoding (di_encoding im) of
          None \<Rightarrow> Inr []
        | Some fmt \<Rightarrow>
            if di_step im < di_width im * int (sample_size fmt) then Inr []
            else if int (length (di_data im)) < di_height im * di_step im then Inr []
            else mapR (decode_row fmt im (nat stride)) (strided (nat (di_height im)) (nat stride)))"

section \<open>Stamps and names\<close>

definition NANOSECONDS :: pyfloat where "NANOSECONDS = Fin (10 ^ 9)"

definition stamp_to_seconds :: "int \<Rightarrow> int \<Rightarrow> pyfloat result" where
  "stamp_to_seconds sec nanosec =
     bindR (float_of_int sec) (\<lambda>s. bindR (float_of_int nanosec) (\<lambda>n. bindR (fdiv n NANOSECONDS) (\<lambda>q. Inr (s + q))))"

definition latency_s :: "pyfloat \<Rightarrow> pyfloat \<Rightarrow> pyfloat option" where
  "latency_s now_s source_stamp_s =
     (if \<not> isfinite now_s \<or> \<not> isfinite source_stamp_s then None
      else let latency = now_s - source_stamp_s in if latency < Fin 0 then None else Some latency)"

definition BASE_FRAME :: string where "BASE_FRAME = ''base_link''"

definition strip_slashes :: "string \<Rightarrow> string" where
  "strip_slashes s = rev (dropWhile (\<lambda>c. c = CHR ''/'') (rev (dropWhile (\<lambda>c. c = CHR ''/'') s)))"

definition resolve_frame_id :: "string \<Rightarrow> string \<Rightarrow> string result" where
  "resolve_frame_id namespace base_frame =
     (let robot = strip_slashes namespace in if robot = [] then Inl ValueError else Inr (robot @ ''/'' @ base_frame))"

section \<open>The node\<close>

definition SENTINELS :: "(string, pyval) pydict" where
  "SENTINELS =
     [(''camera_height_m'', PFloat (Fin 0)), (''pitch_down_rad'', PFloat (Fin 0)), (''reference_offset_m'', PFloat (Fin 0)),
      (''cell_size_m'', PFloat (Fin 0)), (''corridor_half_width_m'', PFloat (Fin 0)), (''forward_range_m'', PFloat (Fin 0)),
      (''min_points_per_cell'', PInt 0), (''drop_threshold_m'', PFloat (Fin 0)), (''min_valid_fraction'', PFloat (Fin 0)),
      (''plane_tolerance_m'', PFloat (Fin 0)), (''ransac_iterations'', PInt 0), (''ransac_seed'', PInt 0),
      (''max_plane_tilt_rad'', PFloat (Fin 0)), (''max_plane_offset_m'', PFloat (Fin 0)), (''angle_min_rad'', PFloat (Fin 0)),
      (''angle_max_rad'', PFloat (Fin 0)), (''ray_count'', PInt 0), (''range_min_m'', PFloat (Fin 0)),
      (''range_max_m'', PFloat (Fin 0)), (''reference'', PStr []), (''pixel_stride'', PInt 0)]"

record node_setup =
  ns_enabled :: bool
  ns_depth_topic :: string
  ns_camera_info_topic :: string
  ns_namespace :: string
  ns_injected :: "(string, pyval) pydict"

text \<open>A declared parameter has the injected value, or its sentinel.\<close>

definition declared_values :: "node_setup \<Rightarrow> (string, pyval) pydict" where
  "declared_values su =
     map (\<lambda>key. (key, case map_of (ns_injected su) key of Some v \<Rightarrow> v | None \<Rightarrow> dget SENTINELS key)) PARAM_KEYS"

record terrain_node =
  tn_params :: node_params
  tn_frame_id :: string
  tn_intrinsics :: "intrinsics option"

text \<open>A disabled node subscribes nothing: it is \<open>None\<close>.\<close>

definition start_terrain_node :: "node_setup \<Rightarrow> terrain_node option result" where
  "start_terrain_node su =
     (if \<not> ns_enabled su then Inr None
      else if ns_depth_topic su = [] \<or> ns_camera_info_topic su = [] then Inl ValueError
      else bindR (params_from_mapping (declared_values su)) (\<lambda>np.
           bindR (resolve_frame_id (ns_namespace su) BASE_FRAME) (\<lambda>frame.
             Inr (Some \<lparr>tn_params = np, tn_frame_id = frame, tn_intrinsics = None\<rparr>))))"

definition on_camera_info :: "pyval list \<Rightarrow> terrain_node \<Rightarrow> terrain_node result" where
  "on_camera_info k node =
     bindR (intrinsics_from_camera_info k (np_stride (tn_params node))) (\<lambda>ci.
       Inr (case ci of None \<Rightarrow> node | Some _ \<Rightarrow> node\<lparr>tn_intrinsics := ci\<rparr>))"

type_synonym stamp = "int \<times> int"

record terrain_output =
  to_stamp :: stamp
  to_frame_id :: string
  to_scan :: cliff_scan
  to_coverage :: coverage_payload

definition publish_terrain :: "terrain_node \<Rightarrow> stamp \<Rightarrow> terrain_observation \<Rightarrow> terrain_output" where
  "publish_terrain node st ob =
     \<lparr>to_stamp = st, to_frame_id = tn_frame_id node, to_scan = ob_cliff ob, to_coverage = ob_coverage ob\<rparr>"

definition on_depth :: "frame_env \<Rightarrow> pyfloat \<Rightarrow> stamp \<Rightarrow> depth_image \<Rightarrow> terrain_node \<Rightarrow> terrain_output option result" where
  "on_depth e now st im node =
     (case tn_intrinsics node of
        None \<Rightarrow> Inr None
      | Some ci \<Rightarrow>
          bindR (stamp_to_seconds (fst st) (snd st)) (\<lambda>stamp_s.
          bindR (decode_depth_image im (np_stride (tn_params node))) (\<lambda>rows.
          bindR (node_terrain_params (tn_params node) ci) (\<lambda>tp.
          bindR (analyze_depth_frame e tp (np_scan (tn_params node))
              \<lparr>fm_source_stamp_s = stamp_s, fm_reference = np_reference (tn_params node), fm_device_seq = None,
               fm_latency = latency_s now stamp_s\<rparr> (map (map PFloat) rows)) (\<lambda>ob.
            Inr (Some (publish_terrain node st ob)))))))"


section \<open>The image a driver wrote\<close>

text \<open>Reference: the bytes of the bits of a sample, the buffer of an image with padded rows, the metres of the bits.\<close>

fun little_bytes :: "nat \<Rightarrow> nat \<Rightarrow> 8 word list" where
  "little_bytes 0 n = []"
| "little_bytes (Suc k) n = word_of_nat n # little_bytes k (n div 256)"

definition sample_bytes :: "depth_format \<Rightarrow> bool \<Rightarrow> nat \<Rightarrow> 8 word list" where
  "sample_bytes fmt big n = (if big then rev (little_bytes (sample_size fmt) n) else little_bytes (sample_size fmt) n)"

definition row_bytes :: "depth_format \<Rightarrow> bool \<Rightarrow> 8 word list \<Rightarrow> nat list \<Rightarrow> 8 word list" where
  "row_bytes fmt big padding row = concat (map (sample_bytes fmt big) row) @ padding"

fun metres :: "depth_format \<Rightarrow> nat \<Rightarrow> pyfloat" where
  "metres UC16 n = fround (of_nat n / 1000)"
| "metres FC32 n = single_value n"

lemma length_little_bytes [simp]: "length (little_bytes k n) = k"
  by (induction k arbitrary: n) auto

lemma length_sample_bytes [simp]: "length (sample_bytes fmt big n) = sample_size fmt"
  by (simp add: sample_bytes_def)

lemma little_bytes_value: "foldl (\<lambda>n b. 256 * n + unat b) 0 (rev (little_bytes k n)) = n mod 256 ^ k"
proof (induction k arbitrary: n)
  case (Suc k)
  have "256 * (n div 256 mod 256 ^ k) + n mod 256 = n mod (256 * 256 ^ k)" by (simp add: mod_mult2_eq)
  then show ?case by (simp add: Suc.IH unat_of_nat)
qed simp

lemma sample_bytes_value: "n < 256 ^ sample_size fmt \<Longrightarrow> bytes_value big (sample_bytes fmt big n) = n"
  using little_bytes_value [of "sample_size fmt" n] by (simp add: bytes_value_def sample_bytes_def)

text \<open>A single-precision number is a double, so nothing is lost when Python reads it.\<close>

lemma single_finite_double:
  assumes "m < 2 ^ 24" and "- 149 \<le> e" and "e \<le> 105"
  shows "is_double (Fin (of_nat m * 2 powi e))"
proof -
  have r: "round53 (of_int (int m) * 2 powi e) = of_int (int m) * 2 powi e"
    using assms(1,2) by (intro round53_exact) simp_all
  have "(of_nat m :: rat) < 2 ^ 24" using assms(1) by (metis of_nat_less_iff of_nat_numeral of_nat_power)
  moreover have "(2 :: rat) powi e \<le> 2 powi 105" by (simp only: two_powi_le_iff assms(3))
  ultimately have "of_nat m * (2 :: rat) powi e \<le> 2 ^ 24 * 2 powi 105" by (intro mult_mono) auto
  also have "\<dots> < overflow_bound" by (simp add: overflow_bound_def power_int_def)
  finally show ?thesis using r fround_exact [of "of_nat m * 2 powi e"] by (simp add: is_double_def)
qed

lemma single_is_double: "is_double (single_value n)"
proof -
  define e f where "e = (n div 2 ^ 23) mod 256" and "f = n mod 2 ^ 23"
  have f: "f < 2 ^ 23" and e: "e < 256" by (simp_all add: e_def f_def)
  have "is_double (Fin (of_nat f * 2 powi (- 149)))" using f by (intro single_finite_double) simp_all
  moreover have "is_double (Fin (of_nat (2 ^ 23 + f) * 2 powi (int e - 150)))" if "e \<noteq> 0" "e \<noteq> 255"
    using f e that by (intro single_finite_double) simp_all
  moreover have "of_nat f / 2 ^ 149 = (of_nat f * 2 powi (- 149) :: rat)" by (simp only: power_int_minus divide_inverse power_int_numeral)
  ultimately have "is_double (if e = 255 then if f = 0 then PInf else NaN else if e = 0 then Fin (of_nat f / 2 ^ 149)
      else Fin (of_nat (2 ^ 23 + f) * 2 powi (int e - 150)))" (is "is_double ?x")
    by (cases "e = 255"; cases "e = 0") (simp_all only: if_True if_False, simp_all)
  moreover have "single_value n = (if odd (n div 2 ^ 31) then - ?x else ?x)"
    by (simp only: single_value_def Let_def e_def f_def)
  ultimately show ?thesis by simp
qed

lemma scaled_sample_metres:
  assumes "n < 256 ^ sample_size fmt"
  shows "scaled_sample fmt big (sample_bytes fmt big n) = Inr (metres fmt n)"
proof (cases fmt)
  case UC16
  have "fint (int n) = Fin (of_nat n)"
    using assms float_of_int_small [of "int n"] by (auto simp: UC16 fint_def float_of_int_def split: pyfloat.splits)
  then show ?thesis using assms sample_bytes_value [OF assms] by (simp add: UC16 MILLIMETRES_PER_METRE_def)
next
  case FC32
  have "fdiv a (Fin 1) = Inr a" if "is_double a" for a using that by (cases a) (auto simp: is_double_def)
  then show ?thesis using sample_bytes_value [OF assms] single_is_double by (simp add: FC32)
qed


text \<open>Blocks of equal length are found at the multiples of that length.\<close>

lemma drop_blocks:
  assumes "\<forall>b \<in> set bs. length b = m" and "i \<le> length bs"
  shows "drop (i * m) (concat bs @ ys) = concat (drop i bs) @ ys"
  using assms
proof (induction i arbitrary: bs)
  case (Suc i)
  then obtain b bs' where bs: "bs = b # bs'" by (cases bs) auto
  with Suc.prems have "length b = m" "\<forall>b \<in> set bs'. length b = m" "i \<le> length bs'" by auto
  then show ?case using Suc.IH [of bs'] by (simp add: bs flip: drop_drop)
qed simp

lemma take_block:
  assumes "\<forall>b \<in> set bs. length b = m" and "i < length bs"
  shows "take m (drop (i * m) (concat bs @ ys)) = bs ! i"
proof -
  have "drop i bs = bs ! i # drop (Suc i) bs" using assms(2) by (simp add: Cons_nth_drop_Suc)
  then show ?thesis using assms drop_blocks [OF assms(1), of i ys] by simp
qed

lemma mapR_all: "(\<And>x. x \<in> set xs \<Longrightarrow> f x = Inr (g x)) \<Longrightarrow> mapR f xs = Inr (map g xs)"
  by (induction xs) simp_all

lemma strided_bound:
  assumes "u \<in> set (strided n stride)"
  shows "u < n"
proof -
  obtain i where i: "u = i * stride" "i < (n + stride - 1) div stride" 
    using assms unfolding strided_def set_map by (metis imageE atLeastLessThan_iff set_upt)
  have "0 < stride" using i(2) by (cases stride) auto
  then have "Suc i * stride \<le> n + stride - 1" using i(2) by (metis Suc_leI less_eq_div_iff_mult_less_eq)
  then show ?thesis using \<open>0 < stride\<close> i(1) by simp
qed

definition image_bytes :: "depth_format \<Rightarrow> bool \<Rightarrow> 8 word list \<Rightarrow> nat list list \<Rightarrow> 8 word list" where
  "image_bytes fmt big padding rows = concat (map (row_bytes fmt big padding) rows)"

definition encoding_name :: "depth_format \<Rightarrow> string" where
  "encoding_name fmt = (case fmt of UC16 \<Rightarrow> ''16UC1'' | FC32 \<Rightarrow> ''32FC1'')"

definition written_image :: "depth_format \<Rightarrow> bool \<Rightarrow> 8 word list \<Rightarrow> nat \<Rightarrow> nat list list \<Rightarrow> 8 word list \<Rightarrow> depth_image" where
  "written_image fmt big padding w rows extra =
     \<lparr>di_encoding = encoding_name fmt, di_width = int w, di_height = int (length rows),
      di_step = int (w * sample_size fmt + length padding), di_bigendian = big,
      di_data = image_bytes fmt big padding rows @ extra\<rparr>"

text \<open>
  C13. The decoder recovers the depth image: for a buffer in either encoding and byte order, with any padding of the
  rows and any bytes after the last one, it returns the depth in metres of every sample that the stride keeps, and
  never fails. A single-precision sample is recovered exactly, a sample in millimetres is rounded once.
\<close>

theorem depth_image_recovered:
  assumes "\<forall>row \<in> set rows. length row = w \<and> (\<forall>n \<in> set row. n < 256 ^ sample_size fmt)"
    and "0 < w" and "rows \<noteq> []" and "0 < stride"
  shows "decode_depth_image (written_image fmt big padding w rows extra) (int stride) =
     Inr (map (\<lambda>v. map (\<lambda>u. metres fmt (rows ! v ! u)) (strided w stride)) (strided (length rows) stride))"
proof -
  let ?im = "written_image fmt big padding w rows extra"
  let ?step = "w * sample_size fmt + length padding"
  have blocks: "\<forall>b \<in> set (map (row_bytes fmt big padding) rows). length b = ?step"
    using assms(1) by (auto simp: row_bytes_def length_concat comp_def sum_list_triv)
  have unpack: "unpack_sample fmt big (di_data ?im) (v * ?step + u * sample_size fmt) = Inr (metres fmt (rows ! v ! u))"
    if v: "v < length rows" and u: "u < w" for u v
  proof -
    have row: "rows ! v \<in> set rows" and w: "length (rows ! v) = w" using v assms(1) by auto
    have "take ?step (drop (v * ?step) (di_data ?im)) = row_bytes fmt big padding (rows ! v)"
      using take_block [OF blocks] v by (simp add: written_image_def image_bytes_def)
    then have "drop (v * ?step) (di_data ?im) = row_bytes fmt big padding (rows ! v) @ drop ?step (drop (v * ?step) (di_data ?im))"
      by (metis append_take_drop_id)
    then obtain ys where ys: "drop (v * ?step) (di_data ?im) = concat (map (sample_bytes fmt big) (rows ! v)) @ ys"
      by (auto simp: row_bytes_def)
    have "drop (v * ?step + u * sample_size fmt) (di_data ?im) = drop (u * sample_size fmt) (drop (v * ?step) (di_data ?im))"
      by (simp add: add.commute)
    then have "take (sample_size fmt) (drop (v * ?step + u * sample_size fmt) (di_data ?im)) = sample_bytes fmt big (rows ! v ! u)"
      using take_block [of "map (sample_bytes fmt big) (rows ! v)" "sample_size fmt" u ys] u w by (simp add: ys)
    moreover have "rows ! v ! u < 256 ^ sample_size fmt" using assms(1) row u w by (meson nth_mem)
    ultimately show ?thesis by (simp add: unpack_sample_def Let_def scaled_sample_metres)
  qed
  have "decode_row fmt ?im stride v = Inr (map (\<lambda>u. metres fmt (rows ! v ! u)) (strided w stride))" if "v < length rows" for v
  proof -
    have dims: "nat (di_width ?im) = w" "nat (di_step ?im) = ?step" "di_bigendian ?im = big"
      by (simp_all add: written_image_def del: of_nat_add of_nat_mult)
    show ?thesis unfolding decode_row_def dims by (intro mapR_all unpack that strided_bound)
  qed
  then have rows: "mapR (decode_row fmt ?im stride) (strided (length rows) stride) =
      Inr (map (\<lambda>v. map (\<lambda>u. metres fmt (rows ! v ! u)) (strided w stride)) (strided (length rows) stride))"
    using strided_bound by (intro mapR_all) simp
  have enc: "depth_encoding (encoding_name fmt) = Some fmt" by (cases fmt) (simp_all add: depth_encoding_def encoding_name_def)
  have len: "length (di_data ?im) \<ge> length rows * ?step"
    using blocks by (simp add: written_image_def image_bytes_def length_concat comp_def sum_list_triv cong: map_cong)
  have "0 < sample_size fmt" by (cases fmt) simp_all
  then have step: "0 < ?step" using assms(2) by simp
  have dims: "di_width ?im = int w" "di_height ?im = int (length rows)" "di_step ?im = int ?step"
    "di_encoding ?im = encoding_name fmt"
    by (simp_all only: written_image_def depth_image.simps)
  have "\<not> (int stride < 1 \<or> di_width ?im \<le> 0 \<or> di_height ?im \<le> 0 \<or> di_step ?im \<le> 0)"
    using assms(2-4) step unfolding dims by (simp del: of_nat_add of_nat_mult)
  moreover have "\<not> di_step ?im < di_width ?im * int (sample_size fmt)"
    unfolding dims of_nat_mult [symmetric] of_nat_less_iff by simp
  moreover have "\<not> int (length (di_data ?im)) < di_height ?im * di_step ?im"
    using len unfolding dims of_nat_mult [symmetric] of_nat_less_iff by simp
  ultimately show ?thesis
    unfolding decode_depth_image_def by (simp only: if_False dims enc option.case nat_int rows)
qed


text \<open>Two rows of two 16-bit samples, big endian, with one byte of padding; every column of every second row is kept.\<close>

theorem depth_image_recovered_witness:
  "decode_depth_image (written_image UC16 True [255] 2 [[1000, 500], [250, 65535]] [7]) (int 1) =
     Inr (map (\<lambda>v. map (\<lambda>u. metres UC16 ([[1000, 500], [250, 65535]] ! v ! u)) (strided 2 1))
       (strided (length [[1000, 500], [250, 65535 :: nat]]) 1))"
  by (rule depth_image_recovered) simp_all

lemma sample_depths: "metres UC16 500 = Fin (1/2)" "single_value 1069547520 = Fin (3/2)" "single_value 2139095040 = PInf"
  by (simp_all add: single_value_def Let_def py_eval)

section \<open>Start-up\<close>

lemma require_number_lookup:
  "require_number vs key = Inr x \<Longrightarrow> \<exists>v f. map_of vs key = Some v \<and> to_float v = Inr f \<and> x = PFloat f"
  by (auto simp: require_number_def require_param_def bindR_Inr_iff split: option.splits if_splits)

lemma require_int_lookup: "require_int vs key = Inr n \<Longrightarrow> map_of vs key = Some (PInt n)"
  by (auto simp: require_int_def require_param_def bindR_Inr_iff split: option.splits pyval.splits)

lemma require_str_lookup: "require_str vs key = Inr r \<Longrightarrow> map_of vs key = Some (PStr r) \<and> \<not> blank r"
  by (auto simp: require_str_def require_param_def bindR_Inr_iff split: option.splits pyval.splits if_splits)

lemma positive_param_nonzero: "positive_param (PFloat f) = Inr y \<Longrightarrow> f \<noteq> Fin 0"
  by (auto simp: positive_param_def finite_param_def bindR_Inr_iff split: if_splits)

lemma required_positive:
  "require_number vs key = Inr x \<Longrightarrow> positive_param x = Inr y \<Longrightarrow> map_of vs key \<noteq> Some (PFloat (Fin 0))"
  using require_number_lookup [of vs key x] positive_param_nonzero [of "Fin 0" y] by auto

lemma require_at_least_one:
  "require_int vs key = Inr n \<Longrightarrow> int_param (PInt n) 1 = Inr m \<Longrightarrow> map_of vs key \<noteq> Some (PInt 0)"
  using require_int_lookup [of vs key n] by auto

lemma mounting_from_set:
  assumes "mounting_from vs = Inr m"
  shows "map_of vs ''camera_height_m'' \<noteq> Some (PFloat (Fin 0)) \<and> map_of vs ''pitch_down_rad'' \<noteq> Some (PFloat (Fin 0))"
proof -
  from assms obtain h p r where "require_number vs ''camera_height_m'' = Inr h" "require_number vs ''pitch_down_rad'' = Inr p"
    and m: "make_mounting h p r = Inr m" by (auto simp: mounting_from_def bindR_Inr_iff)
  moreover have "\<exists>y. positive_param h = Inr y" and "p \<noteq> PFloat (Fin 0)"
    using m by (auto simp: make_mounting_def guardR_def finite_param_def bindR_Inr_iff split: if_splits)
  ultimately show ?thesis using required_positive require_number_lookup [of vs "''pitch_down_rad''" p] by auto
qed

lemma grid_from_set:
  assumes "grid_from vs = Inr g"
  shows "map_of vs ''cell_size_m'' \<noteq> Some (PFloat (Fin 0)) \<and> map_of vs ''corridor_half_width_m'' \<noteq> Some (PFloat (Fin 0))
    \<and> map_of vs ''forward_range_m'' \<noteq> Some (PFloat (Fin 0)) \<and> map_of vs ''min_points_per_cell'' \<noteq> Some (PInt 0)
    \<and> map_of vs ''drop_threshold_m'' \<noteq> Some (PFloat (Fin 0)) \<and> map_of vs ''min_valid_fraction'' \<noteq> Some (PFloat (Fin 0))"
proof -
  from assms obtain c w r n d v where r: "require_number vs ''cell_size_m'' = Inr c"
    "require_number vs ''corridor_half_width_m'' = Inr w" "require_number vs ''forward_range_m'' = Inr r"
    "require_int vs ''min_points_per_cell'' = Inr n" "require_number vs ''drop_threshold_m'' = Inr d"
    "require_number vs ''min_valid_fraction'' = Inr v"
    and g: "make_grid_params c w r (PInt n) d v = Inr g" by (auto simp: grid_from_def bindR_Inr_iff)
  have "\<exists>y. positive_param c = Inr y" "\<exists>y. positive_param w = Inr y" "\<exists>y. positive_param r = Inr y"
    "\<exists>y. int_param (PInt n) 1 = Inr y" "\<exists>y. positive_param d = Inr y" "\<exists>y. positive_param v = Inr y"
    using g by (auto simp: make_grid_params_def guardR_def bindR_Inr_iff simp del: int_param.simps split: if_splits)
  then show ?thesis using required_positive require_at_least_one r by meson
qed

lemma fit_from_set:
  assumes "fit_from vs = Inr f"
  shows "map_of vs ''plane_tolerance_m'' \<noteq> Some (PFloat (Fin 0)) \<and> map_of vs ''ransac_iterations'' \<noteq> Some (PInt 0)
    \<and> map_of vs ''max_plane_tilt_rad'' \<noteq> Some (PFloat (Fin 0)) \<and> map_of vs ''max_plane_offset_m'' \<noteq> Some (PFloat (Fin 0))"
proof -
  from assms obtain t n s a b where r: "require_number vs ''plane_tolerance_m'' = Inr t"
    "require_int vs ''ransac_iterations'' = Inr n" "require_number vs ''max_plane_tilt_rad'' = Inr a"
    "require_number vs ''max_plane_offset_m'' = Inr b"
    and f: "make_fit_params t (PInt n) (PInt s) a b = Inr f" by (auto simp: fit_from_def bindR_Inr_iff)
  have "\<exists>y. positive_param t = Inr y" "\<exists>y. int_param (PInt n) 1 = Inr y" "\<exists>y. positive_param a = Inr y"
    "\<exists>y. positive_param b = Inr y"
    using f by (auto simp: make_fit_params_def bindR_Inr_iff simp del: int_param.simps)
  then show ?thesis using required_positive require_at_least_one r by meson
qed

lemma scan_from_set:
  assumes "scan_from vs = Inr sc"
  shows "map_of vs ''ray_count'' \<noteq> Some (PInt 0) \<and> map_of vs ''range_min_m'' \<noteq> Some (PFloat (Fin 0))
    \<and> map_of vs ''range_max_m'' \<noteq> Some (PFloat (Fin 0))"
proof -
  from assms obtain lo hi n near far where r: "require_int vs ''ray_count'' = Inr n"
    "require_number vs ''range_min_m'' = Inr near" "require_number vs ''range_max_m'' = Inr far"
    and s: "make_scan_params lo hi (PInt n) near far = Inr sc" by (auto simp: scan_from_def bindR_Inr_iff)
  have "\<exists>y. int_param (PInt n) 1 = Inr y" "\<exists>y. positive_param near = Inr y" "\<exists>y. positive_param far = Inr y"
    using s by (auto simp: make_scan_params_def guardR_def bindR_Inr_iff simp del: int_param.simps split: if_splits)
  then show ?thesis using required_positive require_at_least_one r by meson
qed

text \<open>The parameters whose declared default alone stops the node.\<close>

definition DEFAULT_REFUSED :: "string list" where
  "DEFAULT_REFUSED = [''camera_height_m'', ''pitch_down_rad'', ''cell_size_m'', ''corridor_half_width_m'', ''forward_range_m'',
     ''min_points_per_cell'', ''drop_threshold_m'', ''min_valid_fraction'', ''plane_tolerance_m'', ''ransac_iterations'',
     ''max_plane_tilt_rad'', ''max_plane_offset_m'', ''ray_count'', ''range_min_m'', ''range_max_m'', ''reference'', ''pixel_stride'']"

lemma sentinel_values:
  "dget SENTINELS ''camera_height_m'' = PFloat (Fin 0)" "dget SENTINELS ''pitch_down_rad'' = PFloat (Fin 0)"
  "dget SENTINELS ''cell_size_m'' = PFloat (Fin 0)" "dget SENTINELS ''corridor_half_width_m'' = PFloat (Fin 0)"
  "dget SENTINELS ''forward_range_m'' = PFloat (Fin 0)" "dget SENTINELS ''min_points_per_cell'' = PInt 0"
  "dget SENTINELS ''drop_threshold_m'' = PFloat (Fin 0)" "dget SENTINELS ''min_valid_fraction'' = PFloat (Fin 0)"
  "dget SENTINELS ''plane_tolerance_m'' = PFloat (Fin 0)" "dget SENTINELS ''ransac_iterations'' = PInt 0"
  "dget SENTINELS ''max_plane_tilt_rad'' = PFloat (Fin 0)" "dget SENTINELS ''max_plane_offset_m'' = PFloat (Fin 0)"
  "dget SENTINELS ''ray_count'' = PInt 0" "dget SENTINELS ''range_min_m'' = PFloat (Fin 0)"
  "dget SENTINELS ''range_max_m'' = PFloat (Fin 0)" "dget SENTINELS ''reference'' = PStr []"
  "dget SENTINELS ''pixel_stride'' = PInt 0"
  by (simp_all add: SENTINELS_def dget_def)

lemma params_from_set:
  assumes "params_from_mapping vs = Inr np" and "key \<in> set DEFAULT_REFUSED"
  shows "map_of vs key \<noteq> Some (dget SENTINELS key)"
proof -
  from assms obtain m g f sc stride ref where s: "mounting_from vs = Inr m" "grid_from vs = Inr g" "fit_from vs = Inr f"
    "scan_from vs = Inr sc" "require_int vs ''pixel_stride'' = Inr stride" "\<not> stride < 1"
    "require_str vs ''reference'' = Inr ref"
    by (auto simp: params_from_mapping_def bindR_Inr_iff split: if_splits)
  note facts = mounting_from_set [OF s(1)] grid_from_set [OF s(2)] fit_from_set [OF s(3)] scan_from_set [OF s(4)]
  have "map_of vs ''pixel_stride'' \<noteq> Some (PInt 0)" using require_int_lookup [OF s(5)] s(6) by auto
  moreover have "map_of vs ''reference'' \<noteq> Some (PStr [])" using require_str_lookup [OF s(7)] by (auto simp: blank_def)
  ultimately have "\<forall>key \<in> set DEFAULT_REFUSED. map_of vs key \<noteq> Some (dget SENTINELS key)"
    by (simp add: DEFAULT_REFUSED_def sentinel_values facts)
  then show ?thesis using assms(2) by blast
qed

text \<open>A node whose parameters are all injected, and nodes in which one or two are not.\<close>

definition sample_setup :: node_setup where
  "sample_setup = \<lparr>ns_enabled = True, ns_depth_topic = ''depth'', ns_camera_info_topic = ''info'', ns_namespace = ''/bot1'',
     ns_injected =
      [(''camera_height_m'', PFloat (Fin 1)), (''pitch_down_rad'', PFloat (Fin (1/2))), (''reference_offset_m'', PFloat (Fin 0)),
       (''cell_size_m'', PFloat (Fin (1/4))), (''corridor_half_width_m'', PFloat (Fin (1/2))),
       (''forward_range_m'', PFloat (Fin 2)), (''min_points_per_cell'', PInt 3), (''drop_threshold_m'', PFloat (Fin (1/8))),
       (''min_valid_fraction'', PFloat (Fin (1/2))), (''plane_tolerance_m'', PFloat (Fin (1/4))),
       (''ransac_iterations'', PInt 10), (''ransac_seed'', PInt 0), (''max_plane_tilt_rad'', PFloat (Fin (1/4))),
       (''max_plane_offset_m'', PFloat (Fin (1/4))), (''angle_min_rad'', PFloat (Fin (-1))), (''angle_max_rad'', PFloat (Fin 1)),
       (''ray_count'', PInt 4), (''range_min_m'', PFloat (Fin (1/4))), (''range_max_m'', PFloat (Fin 4)),
       (''reference'', PStr ''wheel''), (''pixel_stride'', PInt 2)]\<rparr>"

definition without :: "string list \<Rightarrow> node_setup" where
  "without ks = sample_setup\<lparr>ns_injected := filter (\<lambda>(k, v). k \<notin> set ks) (ns_injected sample_setup)\<rparr>"

definition DEFAULT_LEGAL :: "string list" where
  "DEFAULT_LEGAL = [''reference_offset_m'', ''angle_min_rad'', ''angle_max_rad'', ''ransac_seed'']"

definition starts :: "node_setup \<Rightarrow> bool" where
  "starts su \<longleftrightarrow> (case start_terrain_node su of Inr (Some node) \<Rightarrow> True | _ \<Rightarrow> False)"

lemma all_injected_starts: "starts sample_setup"
  by code_simp

lemma four_defaults_start:
  "starts (without [''reference_offset_m''])" "starts (without [''angle_min_rad''])" "starts (without [''angle_max_rad''])"
  "starts (without [''ransac_seed''])"
  by code_simp+

lemma sample_keys: "set (map fst (ns_injected sample_setup)) = set (DEFAULT_REFUSED @ DEFAULT_LEGAL)"
  by code_simp

lemma without_unset: "map_of (ns_injected (without [key])) key = None"
  by (auto simp: without_def map_of_eq_None_iff)

lemma without_starts:
  assumes "key \<notin> set DEFAULT_REFUSED"
  shows "starts (without [key])"
proof (cases "key \<in> set DEFAULT_LEGAL")
  case True
  then show ?thesis using four_defaults_start by (auto simp: DEFAULT_LEGAL_def)
next
  case False
  then have "key \<notin> fst ` set (ns_injected sample_setup)" using assms sample_keys by auto
  then have "filter (\<lambda>(k, v). k \<notin> set [key]) (ns_injected sample_setup) = ns_injected sample_setup" by (intro filter_True) force
  then show ?thesis using all_injected_starts by (simp only: without_def) simp
qed

lemma angle_pair_refused: "map_of vs ''angle_min_rad'' = map_of vs ''angle_max_rad'' \<Longrightarrow> scan_from vs \<noteq> Inr sc"
proof
  assume same: "map_of vs ''angle_min_rad'' = map_of vs ''angle_max_rad''" and "scan_from vs = Inr sc"
  then obtain lo hi n near far where r: "require_number vs ''angle_min_rad'' = Inr lo" "require_number vs ''angle_max_rad'' = Inr hi"
    and s: "make_scan_params lo hi (PInt n) near far = Inr sc" by (auto simp: scan_from_def bindR_Inr_iff)
  have "lo = hi" using require_number_lookup [OF r(1)] require_number_lookup [OF r(2)] same by auto
  then obtain f where f: "finite_param lo = Inr f" "\<not> f \<le> f" using s by (auto simp: make_scan_params_def bindR_Inr_iff guardR_def split: if_splits)
  then have "isfinite f" by (auto simp: finite_param_def bindR_Inr_iff split: if_splits)
  then show False using f(2) by (cases f) simp_all
qed

lemma declared_default: "key \<in> set PARAM_KEYS \<Longrightarrow> map_of (ns_injected (su :: node_setup)) key = None \<Longrightarrow> map_of (declared_values su) key = Some (dget SENTINELS key)"
  by (simp add: declared_values_def map_of_map_restrict restrict_map_def)

lemma refused_at_start: "ns_enabled su \<Longrightarrow> (\<And>np. params_from_mapping (declared_values su) \<noteq> Inr np) \<Longrightarrow> \<exists>e. start_terrain_node su = Inl e"
  by (cases "params_from_mapping (declared_values su)") (auto simp: start_terrain_node_def)

text \<open>
  C28. The parameters whose omission alone stops every enabled node at its start, whatever the others are, are exactly
  the seventeen whose declared default is not a legal value. The defaults of the other four are legal: a node that
  omits only one of them starts, except that the two angle bounds cannot both be left out.
\<close>

theorem unset_parameter_aborts:
  "((\<forall>su. ns_enabled su \<and> map_of (ns_injected su) key = None \<longrightarrow> (\<exists>e. start_terrain_node su = Inl e)) \<longleftrightarrow> key \<in> set DEFAULT_REFUSED)
   \<and> (\<forall>su. ns_enabled su \<and> map_of (ns_injected su) ''angle_min_rad'' = None \<and> map_of (ns_injected su) ''angle_max_rad'' = None
        \<longrightarrow> (\<exists>e. start_terrain_node su = Inl e))"
proof (intro conjI iffI allI impI)
  fix su :: node_setup
  assume "key \<in> set DEFAULT_REFUSED" and su: "ns_enabled su \<and> map_of (ns_injected su) key = None"
  moreover from this(1) have "key \<in> set PARAM_KEYS"
    by (auto simp: DEFAULT_REFUSED_def PARAM_KEYS_def MOUNTING_KEYS_def GRID_KEYS_def GROUND_FIT_KEYS_def SCAN_KEYS_def)
  ultimately have "params_from_mapping (declared_values su) \<noteq> Inr np" for np
    using params_from_set declared_default by blast
  then show "\<exists>e. start_terrain_node su = Inl e" using refused_at_start su by blast
next
  assume all: "\<forall>su. ns_enabled su \<and> map_of (ns_injected su) key = None \<longrightarrow> (\<exists>e. start_terrain_node su = Inl e)"
  show "key \<in> set DEFAULT_REFUSED"
  proof (rule ccontr)
    assume "key \<notin> set DEFAULT_REFUSED"
    then have "starts (without [key])" by (rule without_starts)
    moreover have "ns_enabled (without [key])" by (simp add: without_def sample_setup_def)
    ultimately show False using all without_unset by (fastforce simp: starts_def)
  qed
next
  fix su :: node_setup
  assume su: "ns_enabled su \<and> map_of (ns_injected su) ''angle_min_rad'' = None \<and> map_of (ns_injected su) ''angle_max_rad'' = None"
  have "dget SENTINELS ''angle_min_rad'' = dget SENTINELS ''angle_max_rad''" by (simp add: SENTINELS_def dget_def)
  moreover have "''angle_min_rad'' \<in> set PARAM_KEYS" "''angle_max_rad'' \<in> set PARAM_KEYS" by (simp_all add: PARAM_KEYS_def SCAN_KEYS_def)
  ultimately have "map_of (declared_values su) ''angle_min_rad'' = map_of (declared_values su) ''angle_max_rad''"
    using su declared_default by metis
  then have "params_from_mapping (declared_values su) \<noteq> Inr np" for np
    using angle_pair_refused by (auto simp: params_from_mapping_def bindR_Inr_iff)
  then show "\<exists>e. start_terrain_node su = Inl e" using refused_at_start su by blast
qed

theorem unset_parameter_aborts_witness:
  "(\<exists>e. start_terrain_node (without [''camera_height_m'']) = Inl e)
   \<and> (\<exists>e. start_terrain_node (without [''angle_min_rad'', ''angle_max_rad'']) = Inl e)"
proof
  have enabled: "ns_enabled (without ks)" for ks by (simp add: without_def sample_setup_def)
  have "''camera_height_m'' \<in> set DEFAULT_REFUSED" by (simp add: DEFAULT_REFUSED_def)
  then show "\<exists>e. start_terrain_node (without [''camera_height_m'']) = Inl e"
    using conjunct1 [OF unset_parameter_aborts] enabled without_unset by blast
  have "map_of (ns_injected (without [''angle_min_rad'', ''angle_max_rad''])) key = None" if "key \<in> {''angle_min_rad'', ''angle_max_rad''}" for key
    using that by (auto simp: without_def map_of_eq_None_iff)
  then show "\<exists>e. start_terrain_node (without [''angle_min_rad'', ''angle_max_rad'']) = Inl e"
    using conjunct2 [OF unset_parameter_aborts] enabled by blast
qed

section \<open>A configuration refused at the first frame\<close>

text \<open>
  Every choice is documented to be validated when the parameters are built, at start-up. That the floor band and the
  drop band are disjoint is only checked with the intrinsics: this node starts, and then raises at every depth frame.
\<close>

lemma overlapping_bands_start:
  "\<exists>node. start_terrain_node sample_setup = Inr (Some node) \<and>
     gp_drop (np_grid (tn_params node)) \<le> gf_tolerance (np_fit (tn_params node))"
proof -
  have "start_terrain_node sample_setup = Inr (Some \<lparr>tn_params =
      \<lparr>np_mounting = \<lparr>mg_height = Fin 1, mg_pitch = Fin (1/2), mg_offset = Fin 0\<rparr>,
       np_grid = \<lparr>gp_cell = Fin (1/4), gp_half_width = Fin (1/2), gp_range = Fin 2, gp_min_points = 3, gp_drop = Fin (1/8),
         gp_min_valid = Fin (1/2)\<rparr>,
       np_fit = \<lparr>gf_tolerance = Fin (1/4), gf_iterations = 10, gf_seed = 0, gf_max_tilt = Fin (1/4), gf_max_offset = Fin (1/4)\<rparr>,
       np_scan = \<lparr>cs_angle_min = Fin (-1), cs_angle_max = Fin 1, cs_rays = 4, cs_range_min = Fin (1/4), cs_range_max = Fin 4\<rparr>,
       np_reference = ''wheel'', np_stride = 2\<rparr>, tn_frame_id = ''bot1/base_link'', tn_intrinsics = None\<rparr>)"
    by code_simp
  then show ?thesis by simp
qed

lemma overlapping_bands_refused:
  assumes "tn_intrinsics node = Some ci" and "gp_drop (np_grid (tn_params node)) \<le> gf_tolerance (np_fit (tn_params node))"
    and "stamp_to_seconds (fst st) (snd st) = Inr t" and "decode_depth_image im (np_stride (tn_params node)) = Inr rows"
  shows "on_depth e now st im node = Inl ValueError"
  using assms by (simp add: on_depth_def node_terrain_params_def make_terrain_params_def guardR_def)

end
