(* ===== verification/Handoff.thy ===== *)
theory Handoff
  imports PyText PlanValidator
begin

text \<open>
  The handoff at the head of the L3 planning core, \<open>robotics_planning_core/handoff.py\<close> and
  \<open>models/boundary.py\<close>: unwrapping the transport envelope of a model's answer, the version gate and the
  gate on forbidden keys. \<open>json.loads\<close> of a text is the argument \<open>loads\<close> (\<open>None\<close> where it raises), the
  pydantic parse of a plan dictionary the argument \<open>parse\<close>. The message texts are left out.
\<close>

section \<open>The boundary\<close>

record raw_output =
  raw_transport :: "string option"
  raw_provider :: "string option"
  raw_source_model :: "string option"
  raw_payload :: "(string \<times> pyval) list"

definition ROBOTICS_PLAN_DRAFT_VERSION :: string where
  "ROBOTICS_PLAN_DRAFT_VERSION = ''robotics_plan_draft.v0''"

definition SUPPORTED_PLAN_VERSIONS :: "string list" where
  "SUPPORTED_PLAN_VERSIONS = [ROBOTICS_PLAN_DRAFT_VERSION]"

section \<open>Envelopes\<close>

text \<open>A subscript that raises \<open>KeyError\<close>, \<open>IndexError\<close> or \<open>TypeError\<close> is \<open>None\<close>: the code catches the three.\<close>

definition get_key :: "string \<Rightarrow> pyval \<Rightarrow> pyval option" where
  "get_key k v = (case v of PDict d \<Rightarrow> map_of d k | _ \<Rightarrow> None)"

definition get_first :: "pyval \<Rightarrow> pyval option" where
  "get_first v = (case v of PList (x # _) \<Rightarrow> Some x | PStr (c # _) \<Rightarrow> Some (PStr [c]) | _ \<Rightarrow> None)"

definition first_choice_content :: "(string \<times> pyval) list \<Rightarrow> pyval result" where
  "first_choice_content payload =
     (case Option.bind (Option.bind (Option.bind (map_of payload ''choices'') get_first) (get_key ''message''))
             (get_key ''content'') of
        None \<Rightarrow> Inl ValueError | Some v \<Rightarrow> Inr v)"

text \<open>Iterating over something that is not iterable raises, and so does joining what is not a string.\<close>

fun iter_items :: "pyval \<Rightarrow> pyval list result" where
  "iter_items (PList xs) = Inr xs"
| "iter_items (PStr s) = Inr (map (\<lambda>c. PStr [c]) s)"
| "iter_items (PDict d) = Inr (map (\<lambda>(k, _). PStr k) d)"
| "iter_items _ = Inl TypeError"

fun text_part :: "pyval \<Rightarrow> pyval option" where
  "text_part (PDict d) = map_of d ''text''"
| "text_part _ = None"

fun join_texts :: "pyval list \<Rightarrow> string result" where
  "join_texts [] = Inr []"
| "join_texts (PStr s # xs) = bindR (join_texts xs) (\<lambda>t. Inr (s @ t))"
| "join_texts (_ # xs) = Inl TypeError"

definition first_candidate_text :: "(string \<times> pyval) list \<Rightarrow> string result" where
  "first_candidate_text payload =
     (case Option.bind (Option.bind (Option.bind (map_of payload ''candidates'') get_first) (get_key ''content''))
             (get_key ''parts'') of
        None \<Rightarrow> Inl ValueError
      | Some parts \<Rightarrow>
          bindR (iter_items parts) (\<lambda>items.
            let texts = List.map_filter text_part items in
            if texts = [] then Inl ValueError else join_texts texts))"

definition looks_like_plan :: "(string \<times> pyval) list \<Rightarrow> bool" where
  "looks_like_plan payload \<longleftrightarrow> map_of payload ''schema_version'' \<noteq> None \<or> map_of payload ''task_graph'' \<noteq> None"

definition FENCE :: string where "FENCE = ''```''"

definition strip_code_fence :: "string \<Rightarrow> string" where
  "strip_code_fence text =
     (let t = py_strip text in
      if \<not> prefix FENCE t then t
      else
        let ls = splitlines t;
            ls = (if ls \<noteq> [] \<and> prefix FENCE (hd ls) then tl ls else ls);
            ls = (if ls \<noteq> [] \<and> py_strip (last ls) = FENCE then butlast ls else ls)
        in py_strip (join_lines ls))"

definition coerce_plan_dict :: "(string \<Rightarrow> pyval option) \<Rightarrow> pyval \<Rightarrow> (string \<times> pyval) list result" where
  "coerce_plan_dict loads content =
     (case content of
        PDict d \<Rightarrow> Inr d
      | PStr s \<Rightarrow> (case loads (strip_code_fence s) of Some (PDict d) \<Rightarrow> Inr d | _ \<Rightarrow> Inl ValueError)
      | _ \<Rightarrow> Inl ValueError)"

definition extract_plan_content ::
    "(string \<Rightarrow> pyval option) \<Rightarrow> (string \<times> pyval) list \<Rightarrow> (string \<times> pyval) list result" where
  "extract_plan_content loads payload =
     (if map_of payload ''choices'' \<noteq> None then bindR (first_choice_content payload) (coerce_plan_dict loads)
      else if map_of payload ''candidates'' \<noteq> None
      then bindR (first_candidate_text payload) (\<lambda>s. coerce_plan_dict loads (PStr s))
      else if looks_like_plan payload then Inr payload
      else Inl ValueError)"

section \<open>The gates\<close>

text \<open>A list or a dictionary is not hashable, so asking whether a set contains it raises \<open>TypeError\<close>.\<close>

definition reject_unknown_schema_version :: "(string \<times> pyval) list \<Rightarrow> unit result" where
  "reject_unknown_schema_version plan =
     (case map_of plan ''schema_version'' of
        None \<Rightarrow> Inl ValueError
      | Some (PStr v) \<Rightarrow> (if v \<in> set SUPPORTED_PLAN_VERSIONS then Inr () else Inl ValueError)
      | Some (PList _) \<Rightarrow> Inl TypeError
      | Some (PDict _) \<Rightarrow> Inl TypeError
      | Some _ \<Rightarrow> Inl ValueError)"

definition FORBIDDEN_KEY_RULES :: "(string \<times> string list) list" where
  "FORBIDDEN_KEY_RULES =
     [(''forbidden_endpoint'',
        [''endpoint'', ''url'', ''nav2'', ''ros_topic'', ''topic'', ''mcp_tool'', ''jetson'', ''service'']),
      (''low_level_action_present'',
        [''velocity'', ''cmd_vel'', ''motor'', ''pwm'', ''duty'', ''joint'', ''torque'', ''wheel'', ''linear'',
         ''angular'', ''twist'']),
      (''coordinate_goal_unfrozen'', [''goal'', ''waypoint'', ''coordinate''])]"

definition FORBIDDEN_TOKENS :: "string list" where
  "FORBIDDEN_TOKENS = concat (map snd FORBIDDEN_KEY_RULES)"

definition forbidden_reason :: "string \<Rightarrow> string option" where
  "forbidden_reason key =
     (let lowered = py_lower key in
      map_option fst (find (\<lambda>(_, subs). \<exists>sub \<in> set subs. sublist sub lowered) FORBIDDEN_KEY_RULES))"

text \<open>Depth first, the reason of a key before those inside its value, as the code collects them.\<close>

fun scan_forbidden :: "pyval \<Rightarrow> (string \<times> string) list"
  and scan_items :: "(string \<times> pyval) list \<Rightarrow> (string \<times> string) list"
  and scan_list :: "pyval list \<Rightarrow> (string \<times> string) list" where
  "scan_forbidden (PDict d) = scan_items d"
| "scan_forbidden (PList xs) = scan_list xs"
| "scan_forbidden _ = []"
| "scan_items [] = []"
| "scan_items ((key, v) # rest) =
     (case forbidden_reason key of None \<Rightarrow> [] | Some reason \<Rightarrow> [(reason, key)]) @ scan_forbidden v @ scan_items rest"
| "scan_list [] = []"
| "scan_list (v # rest) = scan_forbidden v @ scan_list rest"

definition reject_forbidden_fields :: "(string \<times> pyval) list \<Rightarrow> unit result" where
  "reject_forbidden_fields plan = (if scan_forbidden (PDict plan) \<noteq> [] then Inl ValueError else Inr ())"

definition to_robotics_plan_draft ::
    "(string \<Rightarrow> pyval option) \<Rightarrow> ((string \<times> pyval) list \<Rightarrow> plan_draft result) \<Rightarrow> raw_output \<Rightarrow> plan_draft result" where
  "to_robotics_plan_draft loads parse raw =
     bindR (extract_plan_content loads (raw_payload raw)) (\<lambda>plan.
     bindR (reject_unknown_schema_version plan) (\<lambda>_.
     bindR (reject_forbidden_fields plan) (\<lambda>_. parse plan)))"

section \<open>What a draft has passed\<close>

text \<open>All keys of a value, at any depth.\<close>

fun keys_in :: "pyval \<Rightarrow> string set"
  and keys_items :: "(string \<times> pyval) list \<Rightarrow> string set"
  and keys_list :: "pyval list \<Rightarrow> string set" where
  "keys_in (PDict d) = keys_items d"
| "keys_in (PList xs) = keys_list xs"
| "keys_in _ = {}"
| "keys_items [] = {}"
| "keys_items ((key, v) # rest) = insert key (keys_in v \<union> keys_items rest)"
| "keys_list [] = {}"
| "keys_list (v # rest) = keys_in v \<union> keys_list rest"

definition key_clean :: "string \<Rightarrow> bool" where
  "key_clean k \<longleftrightarrow> \<not> (\<exists>tok \<in> set FORBIDDEN_TOKENS. sublist tok (py_lower k))"

lemma forbidden_reason_None: "forbidden_reason k = None \<longleftrightarrow> key_clean k"
  by (auto simp: forbidden_reason_def key_clean_def FORBIDDEN_TOKENS_def find_None_iff Let_def)

lemma scan_clean:
  "scan_forbidden v = [] \<longleftrightarrow> (\<forall>k \<in> keys_in v. key_clean k)"
  "scan_items d = [] \<longleftrightarrow> (\<forall>k \<in> keys_items d. key_clean k)"
  "scan_list xs = [] \<longleftrightarrow> (\<forall>k \<in> keys_list xs. key_clean k)"
  by (induction v and d and xs rule: scan_forbidden_scan_items_scan_list.induct)
    (auto simp: forbidden_reason_None [symmetric] split: option.splits)

lemma version_ok: "reject_unknown_schema_version plan = Inr u \<longleftrightarrow>
   (\<exists>v. map_of plan ''schema_version'' = Some (PStr v) \<and> v \<in> set SUPPORTED_PLAN_VERSIONS)"
  by (auto simp: reject_unknown_schema_version_def split: option.splits pyval.splits if_splits)

text \<open>
  C26. The handoff passes a plan to the parser exactly when the envelope opens, the plan names a
  supported version and no key of it, at any depth and in any letter case, contains a token of an
  endpoint, of a low-level command or of a coordinate goal.
\<close>

theorem draft_iff_clean:
  "to_robotics_plan_draft loads parse raw = Inr d \<longleftrightarrow>
     (\<exists>plan v. extract_plan_content loads (raw_payload raw) = Inr plan
        \<and> map_of plan ''schema_version'' = Some (PStr v) \<and> v \<in> set SUPPORTED_PLAN_VERSIONS
        \<and> keys_in (PDict plan) \<subseteq> {k. key_clean k} \<and> parse plan = Inr d)"
  unfolding to_robotics_plan_draft_def bindR_Inr_iff
  by (auto simp: version_ok reject_forbidden_fields_def scan_clean split: if_splits)

lemma nested_velocity_rejected:
  "to_robotics_plan_draft loads parse
     \<lparr>raw_transport = None, raw_provider = None, raw_source_model = None,
      raw_payload = [(''schema_version'', PStr ROBOTICS_PLAN_DRAFT_VERSION),
        (''task_graph'', PList [PDict [(''meta'', PList [PDict [(''Cmd_Vel'', PInt 1)]])]])]\<rparr> = Inl ValueError"
  by (simp add: to_robotics_plan_draft_def extract_plan_content_def looks_like_plan_def
      reject_unknown_schema_version_def SUPPORTED_PLAN_VERSIONS_def ROBOTICS_PLAN_DRAFT_VERSION_def
      reject_forbidden_fields_def) code_simp

section \<open>Fences and transports\<close>

lemma split_fenced:
  "lf_text s \<Longrightarrow> u \<noteq> [] \<Longrightarrow> \<forall>c \<in> set u. \<not> line_break c \<Longrightarrow>
     \<exists>ls. split_from [] (s @ LF # u) = ls @ [u] \<and> ls \<noteq> [] \<and> join_lines ls = s"
proof (induction "length s" arbitrary: s rule: less_induct)
  case less
  from lf_text_split [OF less.prems(1)] show ?case
  proof (elim disjE exE conjE)
    assume "\<forall>c \<in> set s. \<not> line_break c"
    then have "split_from [] (s @ LF # u) = [s] @ [u]" using less.prems by (simp add: split_line split_plain)
    then show ?thesis by (force simp: join_lines_Cons)
  next
    fix a b assume s: "s = a @ LF # b" and a: "\<forall>c \<in> set a. \<not> line_break c" and b: "lf_text b"
    obtain ls where ls: "split_from [] (b @ LF # u) = ls @ [u]" "ls \<noteq> []" "join_lines ls = b"
      using less.hyps [of b] b less.prems s by auto
    have "split_from [] (s @ LF # u) = (a # ls) @ [u]" using s a ls(1) by (simp add: split_line)
    moreover have "join_lines (a # ls) = s" using ls(2,3) s by (cases ls) (simp_all add: join_lines_Cons)
    ultimately show ?thesis by (metis list.distinct(1))
  qed
qed

definition fenced :: "string \<Rightarrow> string \<Rightarrow> string" where
  "fenced tag s = FENCE @ tag @ [LF] @ s @ [LF] @ FENCE"

lemma fence_chars: "\<not> white (hd FENCE)" "\<not> white (last FENCE)" "\<forall>c \<in> set FENCE. \<not> line_break c" "FENCE \<noteq> []"
  by (simp_all add: FENCE_def white_def line_break_def)

lemma strip_FENCE [simp]: "py_strip FENCE = FENCE"
  by (rule strip_fix) (simp_all add: fence_chars)

lemma strip_fenced:
  assumes "lf_text s" and tag: "\<forall>c \<in> set tag. \<not> line_break c"
  shows "strip_code_fence (fenced tag s) = py_strip s"
proof -
  have st: "py_strip (fenced tag s) = fenced tag s"
    by (rule strip_fix) (use fence_chars in \<open>simp_all add: fenced_def\<close>)
  obtain ls where ls: "split_from [] (s @ LF # FENCE) = ls @ [FENCE]" "ls \<noteq> []" "join_lines ls = s"
    using split_fenced [OF assms(1) fence_chars(4,3)] by blast
  have "splitlines (fenced tag s) = (FENCE @ tag) # ls @ [FENCE]"
    using ls(1) split_line [of "FENCE @ tag" "[]" "s @ LF # FENCE"] tag fence_chars(3)
    by (auto simp: splitlines_def fenced_def)
  moreover have "prefix FENCE (fenced tag s)" by (simp add: fenced_def)
  ultimately show ?thesis using ls(2,3) by (simp add: strip_code_fence_def st Let_def)
qed

text \<open>The two envelopes.\<close>

definition gemini_payload :: "string list \<Rightarrow> (string \<times> pyval) list" where
  "gemini_payload ts =
     [(''candidates'', PList [PDict [(''content'', PDict [(''parts'', PList (map (\<lambda>t. PDict [(''text'', PStr t)]) ts))])]])]"

definition chat_payload :: "string \<Rightarrow> (string \<times> pyval) list" where
  "chat_payload text = [(''choices'', PList [PDict [(''message'', PDict [(''content'', PStr text)])]])]"

lemma join_parts: "join_texts (List.map_filter text_part (map (\<lambda>t. PDict [(''text'', PStr t)]) ts)) = Inr (concat ts)"
  by (induction ts) (simp_all add: List.map_filter_simps)

lemma gemini_text: "ts \<noteq> [] \<Longrightarrow> first_candidate_text (gemini_payload ts) = Inr (concat ts)"
  using join_parts [of ts]
  by (cases ts) (simp_all add: first_candidate_text_def gemini_payload_def get_first_def get_key_def List.map_filter_simps)

lemma extract_chat: "extract_plan_content loads (chat_payload s) = coerce_plan_dict loads (PStr s)"
  by (simp add: extract_plan_content_def chat_payload_def first_choice_content_def get_first_def get_key_def)

lemma extract_gemini: "ts \<noteq> [] \<Longrightarrow> extract_plan_content loads (gemini_payload ts) = coerce_plan_dict loads (PStr (concat ts))"
  using gemini_text [of ts] by (simp add: extract_plan_content_def gemini_payload_def)

text \<open>
  The transport leaves no trace: a plan text sent as a chat completion, bare or inside a Markdown
  fence, or as the text parts of a Gemini answer gives the same draft, whatever the observation tags.
\<close>

theorem transport_agnostic:
  assumes "lf_text s" and "\<not> prefix FENCE (py_strip s)" and "\<forall>c \<in> set tag. \<not> line_break c"
    and "concat ts = fenced tag s" and "raw_payload raw = chat_payload s"
    and "raw_payload raw' \<in> {chat_payload (fenced tag s), gemini_payload ts}"
  shows "to_robotics_plan_draft loads parse raw' = to_robotics_plan_draft loads parse raw"
proof -
  have ts: "ts \<noteq> []" using assms(4) by (auto simp: fenced_def)
  have "strip_code_fence s = py_strip s" using assms(2) by (simp add: strip_code_fence_def)
  then have "coerce_plan_dict loads (PStr (fenced tag s)) = coerce_plan_dict loads (PStr s)"
    using strip_fenced [OF assms(1,3)] by (simp add: coerce_plan_dict_def)
  then have "extract_plan_content loads (raw_payload raw') = extract_plan_content loads (raw_payload raw)"
    using assms(4,5,6) extract_gemini [OF ts] by (auto simp: extract_chat)
  then show ?thesis by (simp add: to_robotics_plan_draft_def)
qed

definition sample_text :: string where
  "sample_text = ''{'' @ [LF] @ ''}''"

definition sample_output :: "(string \<times> pyval) list \<Rightarrow> raw_output" where
  "sample_output p = \<lparr>raw_transport = Some ''direct'', raw_provider = None, raw_source_model = None, raw_payload = p\<rparr>"

definition sample_loads :: "string \<Rightarrow> pyval option" where
  "sample_loads t = (if t = sample_text then Some (PDict [(''schema_version'', PStr ROBOTICS_PLAN_DRAFT_VERSION)]) else None)"

theorem transport_agnostic_witness:
  "to_robotics_plan_draft sample_loads (\<lambda>_. Inr ex_draft) (sample_output (gemini_payload [fenced ''json'' sample_text]))
   = to_robotics_plan_draft sample_loads (\<lambda>_. Inr ex_draft) (sample_output (chat_payload sample_text))"
proof (rule transport_agnostic [where s = sample_text and tag = "''json''" and ts = "[fenced ''json'' sample_text]"])
  show "lf_text sample_text" by (auto simp: lf_text_def sample_text_def line_break_def LF_def)
  show "\<not> prefix FENCE (py_strip sample_text)" unfolding FENCE_def sample_text_def LF_def by code_simp
  show "\<forall>c \<in> set ''json''. \<not> line_break c" by (simp add: line_break_def)
qed (simp_all add: sample_output_def)

section \<open>What escapes the gate's exception\<close>

text \<open>
  The handoff documents \<open>ValueError\<close> as its only exception. A Gemini answer whose \<open>parts\<close> is null, or
  whose text is not a string, and a plan whose version is a list raise \<open>TypeError\<close> instead.
\<close>

lemma null_parts_raise_type_error:
  "to_robotics_plan_draft loads parse
     (sample_output [(''candidates'', PList [PDict [(''content'', PDict [(''parts'', PNone)])]])]) = Inl TypeError"
  by (simp add: to_robotics_plan_draft_def sample_output_def extract_plan_content_def first_candidate_text_def
      get_first_def get_key_def)

lemma list_version_raises_type_error:
  "to_robotics_plan_draft loads parse (sample_output [(''schema_version'', PList [])]) = Inl TypeError"
  by (simp add: to_robotics_plan_draft_def sample_output_def extract_plan_content_def looks_like_plan_def
      reject_unknown_schema_version_def)

end
