(* ===== verification/PolicyGate.thy ===== *)
theory PolicyGate
  imports Safety
begin

text \<open>
  \<open>warehouse_mcp_server/policy_gate.py\<close>: the safety valve every MCP command passes. The pure
  checks return a reject reason or none; the stateful gate validates and registers a command in
  one step (the code holds one \<open>asyncio.Lock\<close> over both phases, so a step of the gate is atomic).
  The state snapshot is the parsed \<open>state.json\<close>, as loosely typed as the code reads it. The parse of
  its timestamp, \<open>datetime.fromisoformat(ts).timestamp()\<close>, is an argument \<open>parse_ts\<close>: invalid text, a
  date that has no POSIX timestamp (\<open>timestamp()\<close> raises \<open>ValueError\<close>), or the epoch seconds.
\<close>

section \<open>Freshness thresholds\<close>

definition STALE_AFTER_S :: pyfloat where
  "STALE_AFTER_S = Fin (1/2)"

definition UNAVAILABLE_AFTER_S :: pyfloat where
  "UNAVAILABLE_AFTER_S = Fin 2"

record freshness_thresholds =
  stale_after_s :: pyfloat
  unavailable_after_s :: pyfloat

text \<open>\<open>FreshnessThresholds.__post_init__\<close>: one window against its ceiling, then the pair.\<close>

definition check_window :: "pyval \<Rightarrow> pyfloat \<Rightarrow> pyfloat result" where
  "check_window value ceil =
     (if \<not> is_number value then Inl ValueError
      else bindR (isfinite_val value) (\<lambda>fin. bindR (num_val value) (\<lambda>v.
        if \<not> fin then Inl ValueError
        else if v \<le> Fin 0 then Inl ValueError
        else if ceil < v then Inl ValueError
        else Inr v)))"

definition make_freshness :: "pyval \<Rightarrow> pyval \<Rightarrow> freshness_thresholds result" where
  "make_freshness stale unavailable =
     bindR (check_window stale STALE_AFTER_S) (\<lambda>s.
     bindR (check_window unavailable UNAVAILABLE_AFTER_S) (\<lambda>u.
       if u < s then Inl ValueError
       else Inr \<lparr>stale_after_s = s, unavailable_after_s = u\<rparr>))"

definition freshness_from_config :: "(string \<times> pyval) list option \<Rightarrow> freshness_thresholds result" where
  "freshness_from_config config =
     (let block = dget (case config of None \<Rightarrow> [] | Some c \<Rightarrow> c) ''policy_gate'' in
      case block of
        PNone \<Rightarrow> make_freshness (PFloat STALE_AFTER_S) (PFloat UNAVAILABLE_AFTER_S)
      | PDict b \<Rightarrow> make_freshness
          (case map_of b ''stale_after_s'' of None \<Rightarrow> PFloat STALE_AFTER_S | Some v \<Rightarrow> v)
          (case map_of b ''unavailable_after_s'' of None \<Rightarrow> PFloat UNAVAILABLE_AFTER_S | Some v \<Rightarrow> v)
      | _ \<Rightarrow> Inl ValueError)"

definition RATE_LIMIT_S :: pyfloat where
  "RATE_LIMIT_S = Fin (1/2)"

definition CHARGING_NOT_NEEDED_ABOVE :: int where
  "CHARGING_NOT_NEEDED_ABOVE = 80"

section \<open>Pure checks\<close>

definition check_location_known :: "string option \<Rightarrow> string option" where
  "check_location_known name =
     (case name of None \<Rightarrow> Some ''missing_location''
      | Some n \<Rightarrow> if \<not> is_known_location n then Some ''unknown_location'' else None)"

definition check_same_location :: "string option \<Rightarrow> string option \<Rightarrow> string option" where
  "check_same_location pickup dropoff =
     (case (pickup, dropoff) of
        (Some p, Some d) \<Rightarrow> if p = d then Some ''same_location'' else None
      | _ \<Rightarrow> None)"

definition check_battery :: "pyval \<Rightarrow> string option result" where
  "check_battery battery =
     (if battery = PNone then Inr None
      else bindR (num_val battery) (\<lambda>b.
        if battery_is_critical b then Inr (Some ''battery_critical'')
        else if \<not> battery_allows_new_task b then Inr (Some ''battery_low'')
        else Inr None))"

definition check_robot_state ::
    "pyval \<Rightarrow> pyfloat \<Rightarrow> pyfloat option \<Rightarrow> pyfloat \<Rightarrow> pyfloat \<Rightarrow> string option" where
  "check_robot_state robot_snapshot now snapshot_ts stale unavailable =
     (if robot_snapshot = PNone then Some ''unknown_robot''
      else case snapshot_ts of
          None \<Rightarrow> None
        | Some ts \<Rightarrow>
            let age = now - ts in
            if unavailable < age then Some ''robot_unavailable''
            else if stale < age then Some ''robot_stale''
            else None)"

definition check_emergency :: "string option \<Rightarrow> string set \<Rightarrow> string option" where
  "check_emergency robot emergency_set =
     (case robot of None \<Rightarrow> None
      | Some r \<Rightarrow> if r \<in> emergency_set then Some ''robot_in_emergency'' else None)"

definition check_rate_limit ::
    "string option \<Rightarrow> (string \<Rightarrow> pyfloat option) \<Rightarrow> pyfloat \<Rightarrow> pyfloat \<Rightarrow> string option" where
  "check_rate_limit robot last_cmd now min_gap =
     (case robot of None \<Rightarrow> None
      | Some r \<Rightarrow>
          (case last_cmd r of None \<Rightarrow> None
           | Some prev \<Rightarrow> if now - prev < min_gap then Some ''rate_limited'' else None))"

definition check_duplicate_destination ::
    "string option \<Rightarrow> (string, string) pydict \<Rightarrow> string option \<Rightarrow> string option" where
  "check_duplicate_destination dropoff dropoffs_by_robot robot =
     (case dropoff of None \<Rightarrow> None
      | Some d \<Rightarrow>
          if \<exists>(other_robot, other_dropoff) \<in> set dropoffs_by_robot.
               other_dropoff = d \<and> Some other_robot \<noteq> robot
          then Some ''duplicate_destination'' else None)"

section \<open>The gate\<close>

record dispatch_result =
  accepted :: bool
  reject_reason :: "string option"
  task_id :: "string option"

definition reject :: "string \<Rightarrow> dispatch_result" where
  "reject r = \<lparr>accepted = False, reject_reason = Some r, task_id = None\<rparr>"

definition accept :: "string \<Rightarrow> dispatch_result" where
  "accept t = \<lparr>accepted = True, reject_reason = None, task_id = Some t\<rparr>"

record gate =
  active_tasks :: "(string, string) pydict"
  dropoffs :: "(string, string) pydict"
  emergency :: "string set"
  last_cmd :: "string \<Rightarrow> pyfloat option"
  task_seq :: nat
  freshness :: freshness_thresholds

definition init_gate :: "string set \<Rightarrow> freshness_thresholds \<Rightarrow> gate" where
  "init_gate em fr =
     \<lparr>active_tasks = [], dropoffs = [], emergency = em, last_cmd = (\<lambda>_. None),
      task_seq = 0, freshness = fr\<rparr>"

definition set_emergency :: "gate \<Rightarrow> string \<Rightarrow> bool \<Rightarrow> gate" where
  "set_emergency g robot active =
     (if active then g\<lparr>emergency := insert robot (emergency g)\<rparr>
      else g\<lparr>emergency := emergency g - {robot}\<rparr>)"

definition is_in_emergency :: "gate \<Rightarrow> string \<Rightarrow> bool" where
  "is_in_emergency g robot \<longleftrightarrow> robot \<in> emergency g"

definition emergency_holds :: "gate \<Rightarrow> string set" where
  "emergency_holds g = emergency g"

text \<open>Reading the snapshot.\<close>

type_synonym snapshot = "(string \<times> pyval) list"

datatype iso_time = IsoInvalid | IsoNoTimestamp | IsoSeconds pyfloat

definition read_state :: "snapshot option \<Rightarrow> snapshot" where
  "read_state stored = (case stored of None \<Rightarrow> [] | Some s \<Rightarrow> s)"

definition snapshot_ts :: "(string \<Rightarrow> iso_time) \<Rightarrow> snapshot \<Rightarrow> pyfloat option" where
  "snapshot_ts parse_ts state =
     (case dget state ''timestamp'' of
        PStr ts \<Rightarrow> (case parse_ts ts of IsoSeconds t \<Rightarrow> Some t | _ \<Rightarrow> None)
      | _ \<Rightarrow> None)"

definition timestamp_is_corrupt :: "(string \<Rightarrow> iso_time) \<Rightarrow> snapshot \<Rightarrow> bool" where
  "timestamp_is_corrupt parse_ts state \<longleftrightarrow>
     (case dget state ''timestamp'' of PStr ts \<Rightarrow> ts \<noteq> [] \<and> parse_ts ts = IsoInvalid | _ \<Rightarrow> False)"

text \<open>\<open>robots = state.get("robots") or {}\<close> and \<open>robots.get(robot)\<close>.\<close>

definition robot_snapshot :: "snapshot \<Rightarrow> string \<Rightarrow> pyval result" where
  "robot_snapshot state robot =
     (let robots = dget state ''robots'' in
      if \<not> truthy robots then Inr PNone
      else case robots of PDict d \<Rightarrow> Inr (dget d robot) | _ \<Rightarrow> Inl AttributeError)"

definition snapshot_battery :: "pyval \<Rightarrow> pyval" where
  "snapshot_battery snapshot = (case snapshot of PDict d \<Rightarrow> dget d ''battery'' | _ \<Rightarrow> PNone)"

text \<open>\<open>reason or next check\<close>: the first reject reason wins.\<close>

definition orElse :: "string option result \<Rightarrow> string option result \<Rightarrow> string option result" where
  "orElse r rest = bindR r (\<lambda>x. case x of None \<Rightarrow> rest | Some reason \<Rightarrow> Inr (Some reason))"

definition location_stage ::
    "string option \<Rightarrow> string option \<Rightarrow> string option \<Rightarrow> string \<Rightarrow> string option" where
  "location_stage robot pickup dropoff action =
     (if action \<noteq> ''wait'' then
        case (if pickup \<noteq> None then check_location_known pickup else None) of
          Some r \<Rightarrow> Some r
        | None \<Rightarrow>
            (case check_location_known dropoff of
               Some r \<Rightarrow> Some r
             | None \<Rightarrow> check_same_location pickup dropoff)
      else if robot = None then Some ''wait_requires_robot'' else None)"

definition robot_stage ::
    "(string \<Rightarrow> iso_time) \<Rightarrow> gate \<Rightarrow> snapshot option \<Rightarrow> string option \<Rightarrow> pyfloat \<Rightarrow> string option result" where
  "robot_stage parse_ts g stored robot now =
     (case robot of None \<Rightarrow> Inr None
      | Some r \<Rightarrow>
          let state = read_state stored in
          if timestamp_is_corrupt parse_ts state then Inr (Some ''state_timestamp_corrupt'')
          else bindR (robot_snapshot state r) (\<lambda>snapshot.
            orElse (Inr (check_robot_state snapshot now (snapshot_ts parse_ts state)
                (stale_after_s (freshness g)) (unavailable_after_s (freshness g))))
           (orElse (check_battery (snapshot_battery snapshot))
           (orElse (Inr (check_emergency robot (emergency g)))
             (Inr (check_rate_limit robot (last_cmd g) now RATE_LIMIT_S))))))"

definition validate_dispatch_inner ::
    "(string \<Rightarrow> iso_time) \<Rightarrow> gate \<Rightarrow> snapshot option \<Rightarrow> string option \<Rightarrow> string option \<Rightarrow>
     string option \<Rightarrow> string \<Rightarrow> pyfloat \<Rightarrow> string option result" where
  "validate_dispatch_inner parse_ts g stored robot pickup dropoff action now =
     orElse (Inr (location_stage robot pickup dropoff action))
    (orElse (robot_stage parse_ts g stored robot now)
      (if action = ''deliver''
       then Inr (check_duplicate_destination dropoff (dropoffs g) robot)
       else Inr None))"

definition register_task_inner ::
    "gate \<Rightarrow> string option \<Rightarrow> string option \<Rightarrow> pyfloat \<Rightarrow> string \<times> gate" where
  "register_task_inner g robot dropoff now =
     (let seq = task_seq g + 1; tid = ''nav_'' @ pad3 seq; g1 = g\<lparr>task_seq := seq\<rparr> in
      (tid,
       case robot of None \<Rightarrow> g1
       | Some r \<Rightarrow>
           let g2 = g1\<lparr>active_tasks := AList.update r tid (active_tasks g1),
                       last_cmd := (last_cmd g1)(r \<mapsto> now)\<rparr>
           in case dropoff of None \<Rightarrow> g2
              | Some d \<Rightarrow> g2\<lparr>dropoffs := AList.update r d (dropoffs g2)\<rparr>))"

definition validate_and_register_dispatch ::
    "(string \<Rightarrow> iso_time) \<Rightarrow> gate \<Rightarrow> snapshot option \<Rightarrow> string option \<Rightarrow> string option \<Rightarrow>
     string option \<Rightarrow> string \<Rightarrow> pyfloat \<Rightarrow> dispatch_result result \<times> gate" where
  "validate_and_register_dispatch parse_ts g stored robot pickup dropoff action now =
     (case validate_dispatch_inner parse_ts g stored robot pickup dropoff action now of
        Inl e \<Rightarrow> (Inl e, g)
      | Inr (Some r) \<Rightarrow> (Inr (reject r), g)
      | Inr None \<Rightarrow>
          let (tid, g') = register_task_inner g robot dropoff now in (Inr (accept tid), g'))"

definition resolve_and_clear_active :: "gate \<Rightarrow> string \<Rightarrow> string option \<times> gate" where
  "resolve_and_clear_active g robot =
     (map_of (active_tasks g) robot,
      g\<lparr>active_tasks := AList.delete robot (active_tasks g),
        dropoffs := AList.delete robot (dropoffs g)\<rparr>)"

definition resolve_and_clear_by_task_id :: "gate \<Rightarrow> string \<Rightarrow> string option \<times> gate" where
  "resolve_and_clear_by_task_id g tid =
     (case find (\<lambda>(r, t). t = tid) (active_tasks g) of
        None \<Rightarrow> (None, g)
      | Some (owner, _) \<Rightarrow>
          (Some owner,
           g\<lparr>active_tasks := AList.delete owner (active_tasks g),
             dropoffs := AList.delete owner (dropoffs g)\<rparr>))"

definition validate_charging ::
    "(string \<Rightarrow> iso_time) \<Rightarrow> gate \<Rightarrow> snapshot option \<Rightarrow> string \<Rightarrow> pyfloat \<Rightarrow> string option result" where
  "validate_charging parse_ts g stored robot now =
     (let state = read_state stored in
      if timestamp_is_corrupt parse_ts state then Inr (Some ''state_timestamp_corrupt'')
      else bindR (robot_snapshot state robot) (\<lambda>snapshot.
        orElse (Inr (check_robot_state snapshot now (snapshot_ts parse_ts state)
            (stale_after_s (freshness g)) (unavailable_after_s (freshness g))))
       (orElse (Inr (check_emergency (Some robot) (emergency g)))
         (let battery = snapshot_battery snapshot in
          if battery = PNone then Inr None
          else bindR (num_val battery) (\<lambda>b.
            Inr (if Fin (of_int CHARGING_NOT_NEEDED_ABOVE) < b then Some ''charging_not_needed''
                 else None))))))"

definition validate_and_register_charging ::
    "(string \<Rightarrow> iso_time) \<Rightarrow> gate \<Rightarrow> snapshot option \<Rightarrow> string \<Rightarrow> pyfloat \<Rightarrow>
     dispatch_result result \<times> gate" where
  "validate_and_register_charging parse_ts g stored robot now =
     (case validate_charging parse_ts g stored robot now of
        Inl e \<Rightarrow> (Inl e, g)
      | Inr (Some r) \<Rightarrow> (Inr (reject r), g)
      | Inr None \<Rightarrow>
          let (tid, g') = register_task_inner g (Some robot) (Some ''charging_station'') now
          in (Inr (accept tid), g'))"

section \<open>Histories of the gate\<close>

datatype gate_op =
    Dispatch "snapshot option" "string option" "string option" "string option" string pyfloat
  | Charge "snapshot option" string pyfloat
  | CancelActive string
  | CancelTask string
  | SetEmergency string bool

fun gate_step :: "(string \<Rightarrow> iso_time) \<Rightarrow> gate \<Rightarrow> gate_op \<Rightarrow> gate" where
  "gate_step parse_ts g (Dispatch st r p d a now) = snd (validate_and_register_dispatch parse_ts g st r p d a now)"
| "gate_step parse_ts g (Charge st r now) = snd (validate_and_register_charging parse_ts g st r now)"
| "gate_step parse_ts g (CancelActive r) = snd (resolve_and_clear_active g r)"
| "gate_step parse_ts g (CancelTask t) = snd (resolve_and_clear_by_task_id g t)"
| "gate_step parse_ts g (SetEmergency r b) = set_emergency g r b"

definition gate_run :: "(string \<Rightarrow> iso_time) \<Rightarrow> gate \<Rightarrow> gate_op list \<Rightarrow> gate" where
  "gate_run parse_ts = foldl (gate_step parse_ts)"

end
