(* ===== verification/PolicyGateProps.thy ===== *)
theory PolicyGateProps
  imports PolicyGate
begin

text \<open>
  What the policy gate guarantees: the freshness windows a configuration can give, the exact
  condition under which a dispatch is accepted, that a refusal changes nothing, the bookkeeping
  invariant, and the properties of whole histories of commands.
\<close>

section \<open>Chains of checks\<close>

lemma orElse_None [simp]: "orElse r rest = Inr None \<longleftrightarrow> r = Inr None \<and> rest = Inr None"
  by (auto simp: orElse_def bindR_Inr_iff split: option.splits)

lemma check_location_known_None [simp]:
  "check_location_known l = None \<longleftrightarrow> (\<exists>n. l = Some n \<and> is_known_location n)"
  by (auto simp: check_location_known_def split: option.splits)

lemma check_same_location_None [simp]:
  "check_same_location p d = None \<longleftrightarrow> (\<forall>x. p = Some x \<longrightarrow> d \<noteq> Some x)"
  by (auto simp: check_same_location_def split: option.splits)

definition battery_admits :: "pyval \<Rightarrow> bool" where
  "battery_admits b \<longleftrightarrow> b = PNone \<or> (\<exists>x. num_val b = Inr x \<and> battery_allows_new_task x)"

lemma check_battery_None [simp]: "check_battery b = Inr None \<longleftrightarrow> battery_admits b"
  using critical_blocks_task
  by (auto simp: check_battery_def battery_admits_def bindR_Inr_iff split: if_splits)

definition fresh_snapshot ::
    "(string \<Rightarrow> iso_time) \<Rightarrow> gate \<Rightarrow> snapshot \<Rightarrow> string \<Rightarrow> pyfloat \<Rightarrow> pyval \<Rightarrow> bool" where
  "fresh_snapshot parse_ts g state r now snap \<longleftrightarrow>
     \<not> timestamp_is_corrupt parse_ts state \<and> robot_snapshot state r = Inr snap \<and> snap \<noteq> PNone
     \<and> (\<forall>ts. snapshot_ts parse_ts state = Some ts \<longrightarrow>
          \<not> unavailable_after_s (freshness g) < now - ts \<and> \<not> stale_after_s (freshness g) < now - ts)"

lemma check_robot_state_None [simp]:
  "check_robot_state snap now ts stale unav = None \<longleftrightarrow>
     snap \<noteq> PNone \<and> (\<forall>t. ts = Some t \<longrightarrow> \<not> unav < now - t \<and> \<not> stale < now - t)"
  by (auto simp: check_robot_state_def Let_def split: option.splits)

lemma check_emergency_None [simp]: "check_emergency (Some r) em = None \<longleftrightarrow> r \<notin> em"
  by (simp add: check_emergency_def)

definition rate_limited :: "gate \<Rightarrow> string \<Rightarrow> pyfloat \<Rightarrow> bool" where
  "rate_limited g r now \<longleftrightarrow> (\<exists>t. last_cmd g r = Some t \<and> now - t < RATE_LIMIT_S)"

lemma check_rate_limit_None [simp]:
  "check_rate_limit (Some r) (last_cmd g) now RATE_LIMIT_S = None \<longleftrightarrow> \<not> rate_limited g r now"
  by (auto simp: check_rate_limit_def rate_limited_def split: option.splits)

lemma check_duplicate_None [simp]:
  "dict_ok d \<Longrightarrow> check_duplicate_destination (Some x) d (Some r) = None \<longleftrightarrow>
     (\<forall>o'. map_of d o' = Some x \<longrightarrow> o' = r)"
  by (auto simp: check_duplicate_destination_def dict_lookup split: if_splits)

lemma robot_stage_None:
  "robot_stage parse_ts g stored (Some r) now = Inr None \<longleftrightarrow>
     (\<exists>snap. fresh_snapshot parse_ts g (read_state stored) r now snap
        \<and> battery_admits (snapshot_battery snap) \<and> r \<notin> emergency g \<and> \<not> rate_limited g r now)"
  by (auto simp: robot_stage_def Let_def bindR_Inr_iff fresh_snapshot_def)

lemma charging_None:
  "validate_charging parse_ts g stored r now = Inr None \<longleftrightarrow>
     (\<exists>snap. fresh_snapshot parse_ts g (read_state stored) r now snap \<and> r \<notin> emergency g
        \<and> (snapshot_battery snap = PNone
           \<or> (\<exists>x. num_val (snapshot_battery snap) = Inr x \<and> \<not> Fin (of_int CHARGING_NOT_NEEDED_ABOVE) < x)))"
  by (auto simp: validate_charging_def Let_def bindR_Inr_iff fresh_snapshot_def split: if_splits)

section \<open>Registration\<close>

definition new_id :: "gate \<Rightarrow> string" where
  "new_id g = ''nav_'' @ pad3 (task_seq g + 1)"

lemma register_simps [simp]:
  "fst (register_task_inner g robot d now) = new_id g"
  "task_seq (snd (register_task_inner g robot d now)) = task_seq g + 1"
  "emergency (snd (register_task_inner g robot d now)) = emergency g"
  "freshness (snd (register_task_inner g robot d now)) = freshness g"
  "active_tasks (snd (register_task_inner g (Some r) d now)) = AList.update r (new_id g) (active_tasks g)"
  "dropoffs (snd (register_task_inner g (Some r) None now)) = dropoffs g"
  "dropoffs (snd (register_task_inner g (Some r) (Some x) now)) = AList.update r x (dropoffs g)"
  "last_cmd (snd (register_task_inner g (Some r) d now)) = (last_cmd g)(r \<mapsto> now)"
  "snd (register_task_inner g None d now) = g\<lparr>task_seq := task_seq g + 1\<rparr>"
  by (auto simp: register_task_inner_def new_id_def Let_def split: option.splits)

definition is_accept :: "dispatch_result result \<Rightarrow> bool" where
  "is_accept r \<longleftrightarrow> (case r of Inl _ \<Rightarrow> False | Inr x \<Rightarrow> accepted x)"

lemma is_accept_simps [simp]:
  "is_accept (Inr (accept t))" "\<not> is_accept (Inr (reject s))" "\<not> is_accept (Inl e)"
  by (simp_all add: is_accept_def accept_def reject_def)

lemma dispatch_cases:
  "validate_and_register_dispatch parse_ts g st r p d a now =
     (if validate_dispatch_inner parse_ts g st r p d a now = Inr None
      then (Inr (accept (new_id g)), snd (register_task_inner g r d now))
      else (map_sum id (\<lambda>x. reject (the x)) (validate_dispatch_inner parse_ts g st r p d a now), g))"
  by (auto simp: validate_and_register_dispatch_def case_prod_beta Let_def split: sum.splits option.splits)

lemma charge_cases:
  "validate_and_register_charging parse_ts g st r now =
     (if validate_charging parse_ts g st r now = Inr None
      then (Inr (accept (new_id g)), snd (register_task_inner g (Some r) (Some ''charging_station'') now))
      else (map_sum id (\<lambda>x. reject (the x)) (validate_charging parse_ts g st r now), g))"
  by (auto simp: validate_and_register_charging_def case_prod_beta Let_def split: sum.splits option.splits)

lemma not_accept_map_sum [simp]: "\<not> is_accept (map_sum id (\<lambda>x. reject (the x)) v)"
  by (cases v) simp_all

lemma is_accept_dispatch:
  "is_accept (fst (validate_and_register_dispatch parse_ts g st r p d a now)) \<longleftrightarrow>
     validate_dispatch_inner parse_ts g st r p d a now = Inr None"
  by (simp add: dispatch_cases)

lemma is_accept_charge:
  "is_accept (fst (validate_and_register_charging parse_ts g st r now)) \<longleftrightarrow>
     validate_charging parse_ts g st r now = Inr None"
  by (simp add: charge_cases)

section \<open>The abstract admission condition\<close>

definition location_ok :: "string option \<Rightarrow> string option \<Rightarrow> string \<Rightarrow> bool" where
  "location_ok pickup dropoff action \<longleftrightarrow>
     (action = ''wait'' \<or>
      (\<exists>d. dropoff = Some d \<and> is_known_location d
         \<and> (\<forall>p. pickup = Some p \<longrightarrow> is_known_location p \<and> p \<noteq> d)))"

definition admissible ::
    "(string \<Rightarrow> iso_time) \<Rightarrow> gate \<Rightarrow> snapshot option \<Rightarrow> string \<Rightarrow> string option \<Rightarrow> string option \<Rightarrow>
     string \<Rightarrow> pyfloat \<Rightarrow> bool" where
  "admissible parse_ts g stored r pickup dropoff action now \<longleftrightarrow>
     location_ok pickup dropoff action
     \<and> (\<exists>snap. fresh_snapshot parse_ts g (read_state stored) r now snap \<and> battery_admits (snapshot_battery snap))
     \<and> r \<notin> emergency g \<and> \<not> rate_limited g r now
     \<and> (action = ''deliver'' \<longrightarrow> (\<forall>r' d. dropoff = Some d \<longrightarrow> map_of (dropoffs g) r' = Some d \<longrightarrow> r' = r))"

lemma location_stage_None:
  "location_stage (Some r) pickup dropoff action = None \<longleftrightarrow> location_ok pickup dropoff action"
  by (cases dropoff; cases pickup)
    (auto simp: location_stage_def location_ok_def check_location_known_def check_same_location_def
      simp del: check_location_known_None check_same_location_None)

lemma dispatch_inner_None:
  assumes "dict_ok (dropoffs g)"
  shows "validate_dispatch_inner parse_ts g stored (Some r) pickup dropoff action now = Inr None \<longleftrightarrow>
     admissible parse_ts g stored r pickup dropoff action now"
proof (cases dropoff)
  case None
  then show ?thesis
    by (auto simp: validate_dispatch_inner_def admissible_def location_stage_None robot_stage_None
        check_duplicate_destination_def)
next
  case (Some d)
  with assms show ?thesis
    by (auto simp: validate_dispatch_inner_def admissible_def location_stage_None robot_stage_None)
qed

text \<open>
  C17. The gate implements its specification: a dispatch that names a robot is accepted exactly when
  it is admissible, that is, the destination (and pickup) are known and different, the robot's
  snapshot is uncorrupted, present and within both freshness windows, its battery allows a task, it
  is not in emergency, it is not rate limited, and for a delivery no other robot holds the
  destination. Acceptance mints the next task id and registers exactly this task; in every other
  case, exceptions included, the gate is unchanged.
\<close>

theorem dispatch_refines_admissible:
  assumes "dict_ok (dropoffs g)"
  shows "case validate_and_register_dispatch parse_ts g stored (Some r) pickup dropoff action now of (res, g') \<Rightarrow>
    (is_accept res \<longleftrightarrow> admissible parse_ts g stored r pickup dropoff action now)
    \<and> (is_accept res \<longrightarrow> res = Inr (accept (new_id g))
         \<and> map_of (active_tasks g') = (map_of (active_tasks g))(r \<mapsto> new_id g)
         \<and> map_of (dropoffs g') = (case dropoff of None \<Rightarrow> map_of (dropoffs g) | Some d \<Rightarrow> (map_of (dropoffs g))(r \<mapsto> d))
         \<and> last_cmd g' = (last_cmd g)(r \<mapsto> now) \<and> task_seq g' = task_seq g + 1
         \<and> emergency g' = emergency g \<and> freshness g' = freshness g)
    \<and> (\<not> is_accept res \<longrightarrow> g' = g)"
  using dispatch_inner_None [OF assms, of parse_ts stored r pickup dropoff action now]
  by (simp add: dispatch_cases split: option.splits)

definition default_freshness :: freshness_thresholds where
  "default_freshness = \<lparr>stale_after_s = STALE_AFTER_S, unavailable_after_s = UNAVAILABLE_AFTER_S\<rparr>"

definition sample_state :: snapshot where
  "sample_state = [(''robots'', PDict [(''bot1'', PDict [(''battery'', PInt 55)]),
     (''bot2'', PDict [(''battery'', PInt 15)])])]"

definition sample_gate :: gate where
  "sample_gate = init_gate {} default_freshness"

lemma sample_dispatch:
  "validate_and_register_dispatch (\<lambda>_. IsoInvalid) sample_gate (Some sample_state) (Some ''bot1'') None
     (Some ''shelf_1'') ''deliver'' (Fin 10)
   = (Inr (accept (new_id sample_gate)),
      snd (register_task_inner sample_gate (Some ''bot1'') (Some ''shelf_1'') (Fin 10)))"
proof -
  have "fresh_snapshot (\<lambda>_. IsoInvalid) sample_gate sample_state ''bot1'' (Fin 10) (PDict [(''battery'', PInt 55)])"
    by (simp add: fresh_snapshot_def timestamp_is_corrupt_def snapshot_ts_def robot_snapshot_def
        sample_state_def dget_def Let_def)
  moreover have "battery_admits (PInt 55)"
    by (simp add: battery_admits_def battery_allows_new_task_def BATTERY_LOW_PCT_def)
  ultimately have "admissible (\<lambda>_. IsoInvalid) sample_gate (Some sample_state) ''bot1'' None
     (Some ''shelf_1'') ''deliver'' (Fin 10)"
    unfolding admissible_def
    by (auto simp: location_ok_def is_known_location_def LOCATION_NAMES_def read_state_def
        sample_gate_def init_gate_def rate_limited_def snapshot_battery_def dget_def
        intro!: exI [of _ "PDict [(''battery'', PInt 55)]"])
  then show ?thesis
    using dispatch_inner_None [of sample_gate "\<lambda>_. IsoInvalid" "Some sample_state" "''bot1''" None
        "Some ''shelf_1''" "''deliver''" "Fin 10"]
    by (simp add: dispatch_cases sample_gate_def init_gate_def)
qed

theorem dispatch_refines_admissible_witness:
  "dict_ok (dropoffs sample_gate) \<and>
   admissible (\<lambda>_. IsoInvalid) sample_gate (Some sample_state) ''bot1'' None (Some ''shelf_1'') ''deliver'' (Fin 10)"
proof -
  have d: "dict_ok (dropoffs sample_gate)" by (simp add: sample_gate_def init_gate_def)
  show ?thesis
    using d dispatch_refines_admissible [OF d, of "\<lambda>_. IsoInvalid" "Some sample_state" "''bot1''" None
        "Some ''shelf_1''" "''deliver''" "Fin 10"]
    by (simp add: sample_dispatch)
qed

text \<open>
  Charging is admitted for a flat battery but never around the emergency flag or a stale state:
  it is accepted exactly for a fresh snapshot of a robot that is not in emergency and whose battery,
  where known, is at most 80; a critical battery is no obstacle; and a refusal changes nothing.
\<close>

theorem charging_spec:
  "case validate_and_register_charging parse_ts g stored r now of (res, g') \<Rightarrow>
    (is_accept res \<longleftrightarrow>
      (\<exists>snap. fresh_snapshot parse_ts g (read_state stored) r now snap \<and> r \<notin> emergency g
        \<and> (snapshot_battery snap = PNone
           \<or> (\<exists>x. num_val (snapshot_battery snap) = Inr x \<and> \<not> Fin 80 < x))))
    \<and> (is_accept res \<longrightarrow> res = Inr (accept (new_id g))
         \<and> map_of (dropoffs g') = (map_of (dropoffs g))(r \<mapsto> ''charging_station'')
         \<and> map_of (active_tasks g') = (map_of (active_tasks g))(r \<mapsto> new_id g))
    \<and> (\<not> is_accept res \<longrightarrow> g' = g)"
  using charging_None [of parse_ts g stored r now]
  by (simp add: charge_cases CHARGING_NOT_NEEDED_ABOVE_def)

theorem charging_spec_witness:
  "is_accept (fst (validate_and_register_charging (\<lambda>_. IsoInvalid) sample_gate (Some sample_state) ''bot2'' (Fin 10)))"
proof -
  have f: "fresh_snapshot (\<lambda>_. IsoInvalid) sample_gate sample_state ''bot2'' (Fin 10) (PDict [(''battery'', PInt 15)])"
    by (simp add: fresh_snapshot_def timestamp_is_corrupt_def snapshot_ts_def robot_snapshot_def
        sample_state_def dget_def Let_def)
  then show ?thesis
    using charging_spec [of "\<lambda>_. IsoInvalid" sample_gate "Some sample_state" "''bot2''" "Fin 10"]
    by (auto simp: read_state_def case_prod_beta sample_gate_def init_gate_def snapshot_battery_def
        dget_def intro!: exI [of _ "PDict [(''battery'', PInt 15)]"])
qed

section \<open>The bookkeeping invariant\<close>

definition gate_inv :: "gate \<Rightarrow> bool" where
  "gate_inv g \<longleftrightarrow>
     dict_ok (active_tasks g) \<and> dict_ok (dropoffs g)
     \<and> dom (map_of (dropoffs g)) \<subseteq> dom (map_of (active_tasks g))
     \<and> (\<forall>r t. map_of (active_tasks g) r = Some t \<longrightarrow>
          (\<exists>k. 0 < k \<and> k \<le> task_seq g \<and> t = ''nav_'' @ pad3 k))
     \<and> (\<forall>r r' t. map_of (active_tasks g) r = Some t \<longrightarrow> map_of (active_tasks g) r' = Some t \<longrightarrow> r = r')"

lemma init_gate_inv [py_inv]: "gate_inv (init_gate em fr)"
  by (simp add: gate_inv_def init_gate_def)

lemma new_id_fresh: "gate_inv g \<Longrightarrow> map_of (active_tasks g) r \<noteq> Some (new_id g)"
  by (fastforce simp: gate_inv_def new_id_def)

lemma register_inv [py_inv]:
  assumes "gate_inv g" shows "gate_inv (snd (register_task_inner g robot d now))"
proof -
  have le: "\<exists>k. 0 < k \<and> k \<le> Suc (task_seq g) \<and> t = ''nav_'' @ pad3 k"
    if "map_of (active_tasks g) r = Some t" for r t
    using assms that unfolding gate_inv_def by (meson le_SucI)
  show ?thesis
  proof (cases robot)
    case None
    then show ?thesis using assms le by (simp add: gate_inv_def)
  next
    case (Some r)
    have dd: "dropoffs (snd (register_task_inner g (Some r) d now)) =
        (case d of None \<Rightarrow> dropoffs g | Some x \<Rightarrow> AList.update r x (dropoffs g))"
      by (simp split: option.splits)
    have id: "new_id g = ''nav_'' @ pad3 (Suc (task_seq g))" by (simp add: new_id_def)
    show ?thesis
      using assms le new_id_fresh [OF assms]
      unfolding Some gate_inv_def dd
      by (auto simp: id split: option.splits if_splits)
  qed
qed

lemma clear_inv [py_inv]:
  "gate_inv g \<Longrightarrow>
    gate_inv (g\<lparr>active_tasks := AList.delete r (active_tasks g), dropoffs := AList.delete r (dropoffs g)\<rparr>)"
  unfolding gate_inv_def by (auto split: if_splits)

lemma set_emergency_inv [py_inv]: "gate_inv g \<Longrightarrow> gate_inv (set_emergency g r b)"
  by (simp add: gate_inv_def set_emergency_def)

lemma gate_step_inv [py_inv]: "gate_inv g \<Longrightarrow> gate_inv (gate_step parse_ts g op)"
  by (cases op)
    (auto simp: dispatch_cases charge_cases resolve_and_clear_active_def
      resolve_and_clear_by_task_id_def intro!: py_inv split: option.splits)

lemma gate_run_Nil [simp]: "gate_run parse_ts g [] = g"
  and gate_run_Cons [simp]: "gate_run parse_ts g (x # xs) = gate_run parse_ts (gate_step parse_ts g x) xs"
  and gate_run_append: "gate_run parse_ts g (xs @ ys) = gate_run parse_ts (gate_run parse_ts g xs) ys"
  by (simp_all add: gate_run_def)

lemma gate_run_inv_from: "gate_inv g \<Longrightarrow> gate_inv (gate_run parse_ts g ops)"
  by (induction ops arbitrary: g) (simp_all add: gate_step_inv)

text \<open>
  The bookkeeping stays consistent in every reachable state: after any history of dispatches,
  charging requests, cancels and emergency changes, each robot has at most one task, a reserved
  destination always belongs to a robot with an active task, task ids were minted by this gate and
  no two robots hold the same id.
\<close>

theorem gate_run_invariant: "gate_inv (gate_run parse_ts (init_gate em fr) ops)"
  by (rule gate_run_inv_from) (rule init_gate_inv)

section \<open>Cancelling\<close>

lemma find_task:
  assumes "gate_inv g"
  shows "map_option fst (find (\<lambda>(r, t). t = tid) (active_tasks g)) = Some r \<longleftrightarrow>
    map_of (active_tasks g) r = Some tid"
proof
  assume "map_option fst (find (\<lambda>(r, t). t = tid) (active_tasks g)) = Some r"
  then obtain t where "find (\<lambda>(r, t). t = tid) (active_tasks g) = Some (r, t)" by auto
  then have "(r, tid) \<in> set (active_tasks g)" by (auto dest: find_SomeD)
  then show "map_of (active_tasks g) r = Some tid" using assms by (simp add: gate_inv_def dict_lookup)
next
  assume r: "map_of (active_tasks g) r = Some tid"
  then have "(r, tid) \<in> set (active_tasks g)" by (rule map_of_SomeD)
  then obtain p where p: "find (\<lambda>(r, t). t = tid) (active_tasks g) = Some p"
    using find_Some_iff_mem [of "\<lambda>(r, t). t = tid" "active_tasks g"] by auto
  then obtain r' where r': "p = (r', tid)" "(r', tid) \<in> set (active_tasks g)"
    by (cases p) (auto dest: find_SomeD)
  then have "map_of (active_tasks g) r' = Some tid" using assms by (simp add: gate_inv_def dict_lookup)
  with r assms have "r' = r" unfolding gate_inv_def by blast
  with p r' show "map_option fst (find (\<lambda>(r, t). t = tid) (active_tasks g)) = Some r" by simp
qed

text \<open>
  A cancel by task id finds exactly the robot that holds the id, frees its task and its
  destination, leaves every other robot alone, and finds nothing the second time.
\<close>

theorem cancel_by_task_id:
  assumes "gate_inv g"
  shows "case resolve_and_clear_by_task_id g tid of (owner, g') \<Rightarrow>
    (\<forall>r. owner = Some r \<longleftrightarrow> map_of (active_tasks g) r = Some tid)
    \<and> (\<forall>r. map_of (active_tasks g') r = (if owner = Some r then None else map_of (active_tasks g) r))
    \<and> (\<forall>r. map_of (dropoffs g') r = (if owner = Some r then None else map_of (dropoffs g) r))
    \<and> fst (resolve_and_clear_by_task_id g' tid) = None"
proof -
  obtain owner g' where res: "resolve_and_clear_by_task_id g tid = (owner, g')" by force
  have o1: "owner = map_option fst (find (\<lambda>(r, t). t = tid) (active_tasks g))"
    using res by (auto simp: resolve_and_clear_by_task_id_def split: option.splits)
  have own: "owner = Some r \<longleftrightarrow> map_of (active_tasks g) r = Some tid" for r
    unfolding o1 by (rule find_task [OF assms])
  have upd: "map_of (active_tasks g') r = (if owner = Some r then None else map_of (active_tasks g) r)"
    "map_of (dropoffs g') r = (if owner = Some r then None else map_of (dropoffs g) r)" for r
    using res by (auto simp: resolve_and_clear_by_task_id_def split: option.splits if_splits)
  have inv': "gate_inv g'" using gate_step_inv [OF assms, of undefined "CancelTask tid"] res by simp
  have "map_of (active_tasks g') r \<noteq> Some tid" for r
    using upd(1) [of r] own [of r] by (auto split: if_splits)
  then have "find (\<lambda>(r, t). t = tid) (active_tasks g') = None"
    using find_task [OF inv', of tid] by (cases "find (\<lambda>(r, t). t = tid) (active_tasks g')") auto
  then have "fst (resolve_and_clear_by_task_id g' tid) = None"
    by (simp add: resolve_and_clear_by_task_id_def)
  then show ?thesis using res own upd by simp
qed

definition busy_gate :: gate where
  "busy_gate = sample_gate\<lparr>active_tasks := [(''bot1'', ''nav_001'')], dropoffs := [(''bot1'', ''shelf_1'')],
     task_seq := 1\<rparr>"

lemma pad3_1: "pad3 1 = ''001''"
  by code_simp

lemma busy_gate_inv: "gate_inv busy_gate"
  by (auto simp: gate_inv_def busy_gate_def dict_ok_def pad3_1 [simplified] intro!: exI [of _ "1::nat"])

theorem cancel_by_task_id_witness:
  "gate_inv busy_gate \<and> fst (resolve_and_clear_by_task_id busy_gate ''nav_001'') = Some ''bot1''"
  using busy_gate_inv cancel_by_task_id [OF busy_gate_inv, of "''nav_001''"]
  by (auto simp: busy_gate_def case_prod_beta)

section \<open>Histories\<close>

text \<open>A flag in the emergency set is only ever cleared by an explicit clear of that robot.\<close>

lemma emergency_frame [simp]:
  "emergency (snd (validate_and_register_dispatch parse_ts g st r p d a now)) = emergency g"
  "emergency (snd (validate_and_register_charging parse_ts g st rb now)) = emergency g"
  "emergency (snd (resolve_and_clear_active g rb)) = emergency g"
  "emergency (snd (resolve_and_clear_by_task_id g t)) = emergency g"
  by (simp_all add: dispatch_cases charge_cases resolve_and_clear_active_def
      resolve_and_clear_by_task_id_def split: option.split)

lemma emergency_step:
  "r \<in> emergency g \<Longrightarrow> op \<noteq> SetEmergency r False \<Longrightarrow> r \<in> emergency (gate_step parse_ts g op)"
  by (cases op) (auto simp: set_emergency_def)

lemma emergency_run:
  "r \<in> emergency g \<Longrightarrow> SetEmergency r False \<notin> set ops \<Longrightarrow> r \<in> emergency (gate_run parse_ts g ops)"
proof (induction ops arbitrary: g)
  case (Cons x ops)
  then have "r \<in> emergency (gate_step parse_ts g x)" by (intro emergency_step) auto
  with Cons show ?case by simp
qed simp

lemma dispatch_none_emergency:
  "r \<in> emergency g \<Longrightarrow> validate_dispatch_inner parse_ts g st (Some r) p d a now \<noteq> Inr None"
  by (auto simp: validate_dispatch_inner_def robot_stage_None)

text \<open>
  Emergency lock-out: once a robot is flagged, no dispatch and no charging request for it is
  accepted after any further history, until that robot itself is explicitly cleared.
\<close>

theorem emergency_lockout:
  assumes "SetEmergency r False \<notin> set ops"
  shows "let g' = gate_run parse_ts (set_emergency g r True) ops in
    \<not> is_accept (fst (validate_and_register_dispatch parse_ts g' st (Some r) p d a now))
    \<and> \<not> is_accept (fst (validate_and_register_charging parse_ts g' st r now))"
proof -
  have "r \<in> emergency (gate_run parse_ts (set_emergency g r True) ops)"
    using assms by (auto simp: set_emergency_def intro: emergency_run)
  then show ?thesis
    by (simp add: Let_def is_accept_dispatch is_accept_charge dispatch_none_emergency charging_None)
qed

theorem emergency_lockout_witness:
  "\<not> is_accept (fst (validate_and_register_charging (\<lambda>_. IsoInvalid)
      (gate_run (\<lambda>_. IsoInvalid) (set_emergency sample_gate ''bot2'' True) [SetEmergency ''bot1'' False])
      (Some sample_state) ''bot2'' (Fin 10)))"
  using emergency_lockout [of "''bot2''" "[SetEmergency ''bot1'' False]" "\<lambda>_. IsoInvalid" sample_gate
      "Some sample_state" None None "''wait''" "Fin 10"] by (simp add: Let_def)

text \<open>Destinations. Only charging may share one; a dispatch reserves one exclusively when it is a delivery.\<close>

definition exclusive :: "gate \<Rightarrow> bool" where
  "exclusive g \<longleftrightarrow> dict_ok (dropoffs g) \<and>
     (\<forall>r r' d. map_of (dropoffs g) r = Some d \<longrightarrow> map_of (dropoffs g) r' = Some d \<longrightarrow>
        r = r' \<or> d = ''charging_station'')"

text \<open>Dispatches that reserve a destination are deliveries.\<close>

fun reserves_by_delivery :: "gate_op \<Rightarrow> bool" where
  "reserves_by_delivery (Dispatch _ _ _ d a _) = (a = ''deliver'' \<or> d = None)"
| "reserves_by_delivery _ = True"

lemma exclusive_delete:
  "exclusive g \<Longrightarrow> exclusive (g\<lparr>active_tasks := ts, dropoffs := AList.delete r (dropoffs g)\<rparr>)"
  unfolding exclusive_def by (auto split: if_splits)

lemma exclusive_emergency: "exclusive g \<Longrightarrow> exclusive (set_emergency g r b)"
  by (simp add: exclusive_def set_emergency_def)

lemma exclusive_register:
  assumes "exclusive g"
    and "d = ''charging_station'' \<or> (\<forall>r'. map_of (dropoffs g) r' = Some d \<longrightarrow> r' = r)"
  shows "exclusive (snd (register_task_inner g (Some r) (Some d) now))"
  using assms unfolding exclusive_def by (auto split: if_splits)

lemma exclusive_dispatch:
  assumes "exclusive g" and "a = ''deliver'' \<or> d = None"
  shows "exclusive (snd (validate_and_register_dispatch parse_ts g st rb p d a now))"
proof (cases "validate_dispatch_inner parse_ts g st rb p d a now = Inr None")
  case False
  with assms show ?thesis by (simp add: dispatch_cases)
next
  case True
  show ?thesis
  proof (cases rb)
    case None
    with True assms show ?thesis by (simp add: dispatch_cases exclusive_def)
  next
    case (Some r)
    show ?thesis
    proof (cases d)
      case None
      with True Some assms show ?thesis by (simp add: dispatch_cases exclusive_def)
    next
      case d: (Some x)
      with assms True Some have "\<forall>r'. map_of (dropoffs g) r' = Some x \<longrightarrow> r' = r"
        by (auto simp: dispatch_inner_None exclusive_def admissible_def)
      with assms True Some d show ?thesis by (simp add: dispatch_cases exclusive_register)
    qed
  qed
qed

lemma exclusive_step: "exclusive g \<Longrightarrow> reserves_by_delivery op \<Longrightarrow> exclusive (gate_step parse_ts g op)"
  by (cases op)
    (auto simp: exclusive_dispatch charge_cases exclusive_register exclusive_emergency exclusive_delete
      resolve_and_clear_active_def resolve_and_clear_by_task_id_def split: option.splits)

lemma exclusive_run:
  "exclusive g \<Longrightarrow> list_all reserves_by_delivery ops \<Longrightarrow> exclusive (gate_run parse_ts g ops)"
  by (induction ops arbitrary: g) (simp_all add: exclusive_step)

text \<open>
  No two robots converge on one destination: in every history in which destinations are
  reserved by deliveries (waits carry none), two different robots never hold the same destination,
  the shared charging station excepted.
\<close>

theorem destinations_exclusive:
  assumes "list_all reserves_by_delivery ops"
    and "map_of (dropoffs (gate_run parse_ts (init_gate em fr) ops)) r = Some d"
    and "map_of (dropoffs (gate_run parse_ts (init_gate em fr) ops)) r' = Some d"
    and "d \<noteq> ''charging_station''"
  shows "r = r'"
proof -
  have "exclusive (init_gate em fr)" by (simp add: exclusive_def init_gate_def)
  then have "exclusive (gate_run parse_ts (init_gate em fr) ops)" using assms(1) by (rule exclusive_run)
  with assms(2-4) show ?thesis unfolding exclusive_def by blast
qed

definition sample_history :: "gate_op list" where
  "sample_history = [Dispatch (Some sample_state) (Some ''bot1'') None (Some ''shelf_1'') ''deliver'' (Fin 10)]"

lemma sample_history_dropoffs:
  "map_of (dropoffs (gate_run (\<lambda>_. IsoInvalid) (init_gate {} default_freshness) sample_history)) ''bot1''
     = Some ''shelf_1''"
  using sample_dispatch by (simp add: sample_history_def sample_gate_def)

theorem destinations_exclusive_witness:
  "map_of (dropoffs (gate_run (\<lambda>_. IsoInvalid) (init_gate {} default_freshness) sample_history)) ''bot1''
     = Some ''shelf_1'' \<and> ''bot1'' = ''bot1''"
  using sample_history_dropoffs
    destinations_exclusive [OF _ sample_history_dropoffs sample_history_dropoffs]
  by (simp add: sample_history_def)

section \<open>Spacing of commands\<close>

fun op_time :: "gate_op \<Rightarrow> pyfloat option" where
  "op_time (Dispatch _ _ _ _ _ now) = Some now"
| "op_time (Charge _ _ now) = Some now"
| "op_time _ = None"

text \<open>Clock readings along a history do not go back.\<close>

fun times_from :: "pyfloat \<Rightarrow> gate_op list \<Rightarrow> bool" where
  "times_from t [] = True"
| "times_from t (op # ops) =
     (case op_time op of None \<Rightarrow> times_from t ops | Some u \<Rightarrow> t \<le> u \<and> times_from u ops)"

lemma last_cmd_dispatch:
  "last_cmd (snd (validate_and_register_dispatch parse_ts g st rb p d a now)) r =
     (if validate_dispatch_inner parse_ts g st rb p d a now = Inr None \<and> rb = Some r then Some now
      else last_cmd g r)"
  by (cases rb) (auto simp: dispatch_cases)

lemma last_cmd_charge:
  "last_cmd (snd (validate_and_register_charging parse_ts g st rb now)) r =
     (if validate_charging parse_ts g st rb now = Inr None \<and> rb = r then Some now else last_cmd g r)"
  by (auto simp: charge_cases)

lemma last_cmd_other [simp]:
  "last_cmd (snd (resolve_and_clear_active g rb)) = last_cmd g"
  "last_cmd (snd (resolve_and_clear_by_task_id g t)) = last_cmd g"
  "last_cmd (set_emergency g rb b) = last_cmd g"
  by (simp_all add: resolve_and_clear_active_def resolve_and_clear_by_task_id_def set_emergency_def
      split: option.split)

lemma last_cmd_step:
  assumes "last_cmd g r = Some u" and "u \<le> t"
    and "case op_time op of None \<Rightarrow> t' = t | Some v \<Rightarrow> t \<le> v \<and> t' = v"
  shows "\<exists>u'. last_cmd (gate_step parse_ts g op) r = Some u' \<and> u \<le> u' \<and> u' \<le> t'"
proof -
  have r: "u \<le> u" using assms(2) by (cases u; cases t) auto
  have tt: "u \<le> t'" "t \<le> t'"
    using assms fle_trans [of u t t'] by (auto split: option.splits intro: fle_refl dest: fle_not_nan)
  have rt: "t' \<le> t'" using tt by (cases t'; cases t) auto
  show ?thesis
    using assms r tt rt by (cases op) (auto simp: last_cmd_dispatch last_cmd_charge)
qed

lemma last_cmd_run:
  "last_cmd g r = Some u \<Longrightarrow> u \<le> t \<Longrightarrow> times_from t (ops @ [Dispatch st rb p d a now]) \<Longrightarrow>
    \<exists>u'. last_cmd (gate_run parse_ts g ops) r = Some u' \<and> u \<le> u' \<and> u' \<le> now"
proof (induction ops arbitrary: g u t)
  case Nil
  then have "u \<le> now" using fle_trans [of u t now] by simp
  then show ?case using Nil fle_refl fle_not_nan by auto
next
  case (Cons x ops)
  obtain t' where t': "case op_time x of None \<Rightarrow> t' = t | Some v \<Rightarrow> t \<le> v \<and> t' = v"
    "times_from t' (ops @ [Dispatch st rb p d a now])"
    using Cons.prems(3) by (auto split: option.splits)
  obtain u' where u': "last_cmd (gate_step parse_ts g x) r = Some u'" "u \<le> u'" "u' \<le> t'"
    using last_cmd_step [OF Cons.prems(1,2) t'(1)] by blast
  obtain u'' where "last_cmd (gate_run parse_ts (gate_step parse_ts g x) ops) r = Some u''" "u' \<le> u''" "u'' \<le> now"
    using Cons.IH [OF u'(1,3) t'(2)] by blast
  then show ?case using u' fle_trans [of u u' u''] by auto
qed

text \<open>
  Commands to one robot are spaced: after a command for a robot was registered at time
  \<open>t\<close>, along any history whose clock does not go back, a dispatch for that robot is accepted only
  when at least half a second (as the code computes the difference) has passed since \<open>t\<close>, whatever
  was cancelled or charged in between.
\<close>

theorem dispatch_spacing:
  assumes "last_cmd g r = Some t" and "isfinite t" and "isfinite now"
    and "times_from t (ops @ [Dispatch st (Some r) p d a now])"
    and "is_accept (fst (validate_and_register_dispatch parse_ts (gate_run parse_ts g ops) st (Some r) p d a now))"
  shows "RATE_LIMIT_S \<le> now - t"
proof -
  obtain u where u: "last_cmd (gate_run parse_ts g ops) r = Some u" "t \<le> u" "u \<le> now"
    using last_cmd_run [OF assms(1) _ assms(4)] fle_refl assms(2) by auto
  obtain x y z where fin: "t = Fin x" "now = Fin y" "u = Fin z"
    using assms(2,3) u by (cases u) (auto simp: isfinite_iff)
  have "\<not> now - u < RATE_LIMIT_S"
    using assms(5) u(1) by (auto simp: is_accept_dispatch validate_dispatch_inner_def robot_stage_None rate_limited_def)
  then have "RATE_LIMIT_S \<le> now - u"
    using not_flt [of "now - u" RATE_LIMIT_S] by (simp add: fin RATE_LIMIT_S_def)
  also have "now - u \<le> now - t" using u fin by (simp add: fround_mono)
  finally (fle_trans) show ?thesis .
qed

theorem dispatch_spacing_witness:
  "is_accept (fst (validate_and_register_dispatch (\<lambda>_. IsoInvalid)
      (gate_run (\<lambda>_. IsoInvalid) (sample_gate\<lparr>last_cmd := (\<lambda>_. None)(''bot1'' \<mapsto> Fin 9)\<rparr>) [])
      (Some sample_state) (Some ''bot1'') None (Some ''shelf_1'') ''deliver'' (Fin 10)))
   \<and> RATE_LIMIT_S \<le> Fin 10 - Fin 9"
proof -
  let ?g = "sample_gate\<lparr>last_cmd := (\<lambda>_. None)(''bot1'' \<mapsto> Fin 9)\<rparr>"
  have "fresh_snapshot (\<lambda>_. IsoInvalid) ?g sample_state ''bot1'' (Fin 10) (PDict [(''battery'', PInt 55)])"
    by (simp add: fresh_snapshot_def timestamp_is_corrupt_def snapshot_ts_def robot_snapshot_def
        sample_state_def dget_def Let_def)
  moreover have "battery_admits (PInt 55)"
    by (simp add: battery_admits_def battery_allows_new_task_def BATTERY_LOW_PCT_def)
  ultimately have "admissible (\<lambda>_. IsoInvalid) ?g (Some sample_state) ''bot1'' None (Some ''shelf_1'') ''deliver'' (Fin 10)"
    unfolding admissible_def
    by (auto simp: location_ok_def is_known_location_def LOCATION_NAMES_def read_state_def
        sample_gate_def init_gate_def rate_limited_def snapshot_battery_def dget_def RATE_LIMIT_S_def py_eval
        intro!: exI [of _ "PDict [(''battery'', PInt 55)]"])
  then have acc: "is_accept (fst (validate_and_register_dispatch (\<lambda>_. IsoInvalid) (gate_run (\<lambda>_. IsoInvalid) ?g [])
      (Some sample_state) (Some ''bot1'') None (Some ''shelf_1'') ''deliver'' (Fin 10)))"
    using dispatch_inner_None [of ?g "\<lambda>_. IsoInvalid" "Some sample_state" "''bot1''" None "Some ''shelf_1''" "''deliver''" "Fin 10"]
    by (simp add: is_accept_dispatch sample_gate_def init_gate_def)
  show ?thesis using acc dispatch_spacing [OF _ _ _ _ acc, of "Fin 9"] by simp
qed

section \<open>Freshness windows from a configuration\<close>

lemma check_window_ok:
  assumes "check_window v ceil = Inr w" and "\<not> isnan ceil"
  shows "isfinite w \<and> 0 < w \<and> w \<le> ceil"
proof -
  from assms(1) have num: "is_number v" by (auto simp: check_window_def split: if_splits)
  with assms(1) have w: "num_val v = Inr w" "isfinite_val v = Inr True" "\<not> w \<le> Fin 0" "\<not> ceil < w"
    by (auto simp: check_window_def bindR_Inr_iff split: if_splits)
  have "isfinite w" using num w(1,2) by (rule isfinite_val_number)
  then show ?thesis using w(3,4) assms(2) not_flt [of ceil w] not_fle [of w "Fin 0"]
    by (auto simp: zero_pyfloat_def)
qed

lemma check_window_loose:
  "isfinite ceil \<Longrightarrow> ceil < a \<Longrightarrow> check_window (PFloat a) ceil = Inl ValueError"
  by (cases a; cases ceil) (auto simp: check_window_def)

text \<open>
  Tighten-only freshness: whatever the configuration holds, the windows it yields are finite,
  positive, ordered and no wider than the frozen 0.5 s and 2.0 s; anything else is refused, and a
  missing block gives exactly the frozen defaults.
\<close>

theorem freshness_tighten_only:
  "(\<forall>fr. freshness_from_config config = Inr fr \<longrightarrow>
      0 < stale_after_s fr \<and> stale_after_s fr \<le> unavailable_after_s fr
      \<and> stale_after_s fr \<le> Fin (1/2) \<and> unavailable_after_s fr \<le> Fin 2)
   \<and> freshness_from_config None = Inr default_freshness"
proof (intro conjI allI impI)
  fix fr assume "freshness_from_config config = Inr fr"
  then obtain s u where "make_freshness s u = Inr fr"
    by (auto simp: freshness_from_config_def Let_def split: pyval.splits)
  then have s: "check_window s STALE_AFTER_S = Inr (stale_after_s fr)"
    and u: "check_window u UNAVAILABLE_AFTER_S = Inr (unavailable_after_s fr)"
    and ord: "\<not> unavailable_after_s fr < stale_after_s fr"
    by (auto simp: make_freshness_def bindR_Inr_iff split: if_splits)
  show "0 < stale_after_s fr" "stale_after_s fr \<le> Fin (1/2)" "unavailable_after_s fr \<le> Fin 2"
    using check_window_ok [OF s] check_window_ok [OF u] by (simp_all add: STALE_AFTER_S_def UNAVAILABLE_AFTER_S_def)
  show "stale_after_s fr \<le> unavailable_after_s fr"
    using ord check_window_ok [OF s] check_window_ok [OF u] not_flt [of "unavailable_after_s fr" "stale_after_s fr"]
    by (simp add: STALE_AFTER_S_def UNAVAILABLE_AFTER_S_def)
qed (simp add: freshness_from_config_def dget_def make_freshness_def check_window_def default_freshness_def
    STALE_AFTER_S_def UNAVAILABLE_AFTER_S_def)

theorem freshness_tighten_only_witness:
  "freshness_from_config (Some [(''policy_gate'', PDict [(''stale_after_s'', PFloat (Fin (1/4)))])])
     = Inr \<lparr>stale_after_s = Fin (1/4), unavailable_after_s = Fin 2\<rparr>
   \<and> Fin (1/4) \<le> Fin (1/2) \<and> Fin (1/4) \<le> Fin 2"
proof -
  have e: "freshness_from_config (Some [(''policy_gate'', PDict [(''stale_after_s'', PFloat (Fin (1/4)))])])
     = Inr \<lparr>stale_after_s = Fin (1/4), unavailable_after_s = Fin 2\<rparr>"
    by (simp add: freshness_from_config_def dget_def make_freshness_def check_window_def
        STALE_AFTER_S_def UNAVAILABLE_AFTER_S_def)
  show ?thesis
    using e freshness_tighten_only [of "Some [(''policy_gate'', PDict [(''stale_after_s'', PFloat (Fin (1/4)))])]"]
    by simp
qed

text \<open>
  An undocumented way past the corrupt-timestamp guard: a timestamp that parses but has no POSIX
  value counts as absent, so the snapshot it stamps is treated as fresh.
\<close>

lemma unconvertible_timestamp_is_fresh:
  assumes "dget state ''timestamp'' = PStr ts" and "parse_ts ts = IsoNoTimestamp"
    and "robot_snapshot state r = Inr snap" and "snap \<noteq> PNone"
  shows "fresh_snapshot parse_ts g state r now snap"
  using assms by (simp add: fresh_snapshot_def timestamp_is_corrupt_def snapshot_ts_def)

end
