(* ===== verification/EmergencySync.thy ===== *)
theory EmergencySync
  imports PolicyGateProps
begin

text \<open>
  \<open>warehouse_mcp_server/emergency_sync.py\<close>: the mirror that turns the guardian's level-held stop
  signal into the gate's emergency flag. A signal flags the robot; a sweep clears every robot that
  has been silent for longer than the window. The gate side is an interface, the locale
  \<open>emergency_sink\<close>; the mirror is verified against it once and then connected to the policy gate.
\<close>

section \<open>The clear window\<close>

definition EMERGENCY_CLEAR_AFTER_S :: pyfloat where
  "EMERGENCY_CLEAR_AFTER_S = Fin 1"

definition validate_clear_after :: "pyval \<Rightarrow> pyfloat result" where
  "validate_clear_after value =
     (if \<not> is_number value then Inl ValueError
      else bindR (isfinite_val value) (\<lambda>fin. bindR (num_val value) (\<lambda>v.
        if \<not> fin then Inl ValueError
        else if v \<le> Fin 0 then Inl ValueError
        else if v < EMERGENCY_CLEAR_AFTER_S then Inl ValueError
        else to_float value)))"

definition clear_after_from_config :: "(string \<times> pyval) list option \<Rightarrow> pyfloat result" where
  "clear_after_from_config config =
     (let block = dget (case config of None \<Rightarrow> [] | Some c \<Rightarrow> c) ''policy_gate'' in
      case block of
        PNone \<Rightarrow> Inr EMERGENCY_CLEAR_AFTER_S
      | PDict b \<Rightarrow>
          (case map_of b ''emergency_clear_after_s'' of
             None \<Rightarrow> Inr EMERGENCY_CLEAR_AFTER_S
           | Some v \<Rightarrow> validate_clear_after v)
      | _ \<Rightarrow> Inl ValueError)"

section \<open>The mirror\<close>

record mirror =
  clear_after_s :: pyfloat
  last_stop :: "(string, pyfloat) pydict"

definition make_mirror :: "pyval \<Rightarrow> mirror result" where
  "make_mirror clear =
     bindR (validate_clear_after clear) (\<lambda>c. Inr \<lparr>clear_after_s = c, last_stop = []\<rparr>)"

text \<open>The injected \<open>set_emergency\<close> acts on a client state of any type.\<close>

definition on_stop_signal ::
    "('g \<Rightarrow> string \<Rightarrow> bool \<Rightarrow> 'g) \<Rightarrow> mirror \<times> 'g \<Rightarrow> string \<Rightarrow> pyfloat \<Rightarrow> mirror \<times> 'g" where
  "on_stop_signal set_em s robot now =
     (let (m, g) = s in (m\<lparr>last_stop := AList.update robot now (last_stop m)\<rparr>, set_em g robot True))"

fun sweep_items ::
    "('g \<Rightarrow> string \<Rightarrow> bool \<Rightarrow> 'g) \<Rightarrow> pyfloat \<Rightarrow> (string \<times> pyfloat) list \<Rightarrow> mirror \<times> 'g \<Rightarrow> mirror \<times> 'g" where
  "sweep_items set_em now [] s = s"
| "sweep_items set_em now ((robot, seen) # rest) (m, g) =
     (if clear_after_s m < now - seen
      then sweep_items set_em now rest
             (m\<lparr>last_stop := AList.delete robot (last_stop m)\<rparr>, set_em g robot False)
      else sweep_items set_em now rest (m, g))"

definition sweep :: "('g \<Rightarrow> string \<Rightarrow> bool \<Rightarrow> 'g) \<Rightarrow> mirror \<times> 'g \<Rightarrow> pyfloat \<Rightarrow> mirror \<times> 'g" where
  "sweep set_em s now = sweep_items set_em now (last_stop (fst s)) s"

definition held_bots :: "mirror \<Rightarrow> string set" where
  "held_bots m = fst ` set (last_stop m)"

datatype mirror_op = Signal string pyfloat | Sweep pyfloat

fun mirror_step :: "('g \<Rightarrow> string \<Rightarrow> bool \<Rightarrow> 'g) \<Rightarrow> mirror \<times> 'g \<Rightarrow> mirror_op \<Rightarrow> mirror \<times> 'g" where
  "mirror_step set_em s (Signal b t) = on_stop_signal set_em s b t"
| "mirror_step set_em s (Sweep t) = sweep set_em s t"

definition mirror_run :: "('g \<Rightarrow> string \<Rightarrow> bool \<Rightarrow> 'g) \<Rightarrow> mirror \<times> 'g \<Rightarrow> mirror_op list \<Rightarrow> mirror \<times> 'g" where
  "mirror_run set_em = foldl (mirror_step set_em)"

lemma mirror_run_Nil [simp]: "mirror_run f s [] = s"
  and mirror_run_Cons [simp]: "mirror_run f s (x # xs) = mirror_run f (mirror_step f s x) xs"
  by (simp_all add: mirror_run_def)

text \<open>What a sweep at \<open>now\<close> keeps, as a predicate on the time last seen.\<close>

definition silent :: "mirror \<Rightarrow> pyfloat \<Rightarrow> pyfloat \<Rightarrow> bool" where
  "silent m now seen \<longleftrightarrow> clear_after_s m < now - seen"

section \<open>The mirror against any sink\<close>

locale emergency_sink =
  fixes set_em :: "'g \<Rightarrow> string \<Rightarrow> bool \<Rightarrow> 'g"
    and flagged :: "'g \<Rightarrow> string set"
  assumes flagged_set: "flagged (set_em g b True) = insert b (flagged g)"
    and flagged_clear: "flagged (set_em g b False) = flagged g - {b}"
begin

lemma sweep_items_spec:
  "dict_ok items \<Longrightarrow>
    last_stop (fst (sweep_items set_em now items (m, g))) =
      filter (\<lambda>(b, _). \<forall>seen. (b, seen) \<in> set items \<longrightarrow> \<not> silent m now seen) (last_stop m)
    \<and> clear_after_s (fst (sweep_items set_em now items (m, g))) = clear_after_s m
    \<and> flagged (snd (sweep_items set_em now items (m, g))) =
      flagged g - {b. \<exists>seen. (b, seen) \<in> set items \<and> silent m now seen}"
proof (induction items arbitrary: m g)
  case (Cons it rest)
  obtain b s where it: "it = (b, s)" by (cases it)
  have d: "dict_ok rest" and nb: "\<And>s'. (b, s') \<notin> set rest"
    using Cons.prems by (auto simp: dict_ok_def it image_iff)
  show ?case
  proof (cases "clear_after_s m < now - s")
    case False
    with Cons.IH [OF d, of m g] nb show ?thesis
      by (auto simp: it silent_def intro!: filter_cong)
  next
    case True
    let ?m = "m\<lparr>last_stop := AList.delete b (last_stop m)\<rparr>"
    have s: "silent ?m now = silent m now" by (rule ext) (simp add: silent_def)
    have del: "AList.delete b (last_stop m) = filter (\<lambda>(k, _). k \<noteq> b) (last_stop m)"
      by (auto simp: AList.delete_eq intro!: filter_cong)
    show ?thesis
      using Cons.IH [OF d, of ?m "set_em g b False"] True nb
      unfolding s
      by (auto simp: it silent_def flagged_clear del intro!: filter_cong)
  qed
qed (simp add: silent_def)

lemma sweep_spec:
  assumes "dict_ok (last_stop m)"
  shows "last_stop (fst (sweep set_em (m, g) now)) = filter (\<lambda>(b, seen). \<not> silent m now seen) (last_stop m)"
    and "clear_after_s (fst (sweep set_em (m, g) now)) = clear_after_s m"
    and "flagged (snd (sweep set_em (m, g) now)) =
      flagged g - {b. \<exists>seen. (b, seen) \<in> set (last_stop m) \<and> silent m now seen}"
proof -
  have "(b, s') \<in> set (last_stop m) \<Longrightarrow> (b, s) \<in> set (last_stop m) \<Longrightarrow> s = s'" for b s s'
    using assms by (simp add: dict_lookup)
  then have "filter (\<lambda>(b, _). \<forall>seen. (b, seen) \<in> set (last_stop m) \<longrightarrow> \<not> silent m now seen) (last_stop m)
    = filter (\<lambda>(b, seen). \<not> silent m now seen) (last_stop m)"
    by (intro filter_cong) auto
  then show "last_stop (fst (sweep set_em (m, g) now)) = filter (\<lambda>(b, seen). \<not> silent m now seen) (last_stop m)"
    using sweep_items_spec [OF assms, of now m g] by (simp add: sweep_def)
qed (use sweep_items_spec [OF assms, of now m g] in \<open>simp_all add: sweep_def\<close>)

text \<open>The sink's flags are exactly the mirror's holds.\<close>

definition agree :: "mirror \<times> 'g \<Rightarrow> bool" where
  "agree s \<longleftrightarrow> dict_ok (last_stop (fst s)) \<and> flagged (snd s) = held_bots (fst s)"

lemma agree_signal: "agree s \<Longrightarrow> agree (on_stop_signal set_em s b t)"
  by (cases s) (auto simp: agree_def on_stop_signal_def held_bots_def flagged_set dom_update)

lemma agree_sweep: "agree s \<Longrightarrow> agree (sweep set_em s t)"
proof (cases s)
  case (Pair m g)
  assume "agree s"
  then have ok: "dict_ok (last_stop m)" and f: "flagged g = fst ` set (last_stop m)"
    by (simp_all add: agree_def Pair held_bots_def)
  then show ?thesis unfolding Pair agree_def held_bots_def
    by (auto simp: sweep_spec dict_lookup image_iff)
qed

lemma agree_run: "agree s \<Longrightarrow> agree (mirror_run set_em s ops)"
proof (induction ops arbitrary: s)
  case (Cons x ops)
  then show ?case by (cases x) (simp_all add: agree_signal agree_sweep)
qed simp

end

interpretation gate_sink: emergency_sink set_emergency emergency
  by unfold_locales (simp_all add: set_emergency_def)

section \<open>The mirror and the gate\<close>

text \<open>
  Mirror and gate never disagree: starting from an empty mirror and a gate with no robot
  flagged, after any history of stop signals and sweeps the gate's emergency set is exactly the set
  of robots the mirror holds, and a sweep keeps exactly the robots whose last signal is not older
  than the window (at exactly the window the hold is kept).
\<close>

theorem mirror_gate_agree:
  assumes "last_stop m = []" and "emergency g = {}"
  shows "let s = mirror_run set_emergency (m, g) ops in
    emergency (snd s) = held_bots (fst s)
    \<and> emergency (snd (sweep set_emergency s now)) =
        {b. \<exists>seen. map_of (last_stop (fst s)) b = Some seen \<and> \<not> clear_after_s (fst s) < now - seen}"
proof -
  obtain m' g' where s: "mirror_run set_emergency (m, g) ops = (m', g')" by force
  have "gate_sink.agree (m, g)" using assms by (simp add: gate_sink.agree_def held_bots_def)
  then have a: "gate_sink.agree (m', g')" using gate_sink.agree_run s by metis
  then have ok: "dict_ok (last_stop m')" and f: "emergency g' = fst ` set (last_stop m')"
    by (simp_all add: gate_sink.agree_def held_bots_def)
  have "emergency (snd (sweep set_emergency (m', g') now)) =
      {b. \<exists>seen. map_of (last_stop m') b = Some seen \<and> \<not> clear_after_s m' < now - seen}"
    using ok by (auto simp: gate_sink.sweep_spec f silent_def dict_lookup simp flip: dom_map_of_conv_image_fst)
  then show ?thesis using f s by (simp add: Let_def held_bots_def)
qed

definition sample_mirror :: mirror where
  "sample_mirror = \<lparr>clear_after_s = EMERGENCY_CLEAR_AFTER_S, last_stop = []\<rparr>"

theorem mirror_gate_agree_witness:
  "emergency (snd (mirror_run set_emergency (sample_mirror, sample_gate) [Signal ''bot1'' (Fin 5), Sweep (Fin 6)]))
     = {''bot1''}"
  using mirror_gate_agree [of sample_mirror sample_gate "[Signal ''bot1'' (Fin 5), Sweep (Fin 6)]"]
  by (simp add: sample_mirror_def sample_gate_def init_gate_def Let_def on_stop_signal_def sweep_def
      held_bots_def EMERGENCY_CLEAR_AFTER_S_def py_eval)

text \<open>While sweeps come within the window of the first signal, the hold survives.\<close>

fun within_window :: "string \<Rightarrow> pyfloat \<Rightarrow> pyfloat \<Rightarrow> mirror_op \<Rightarrow> bool" where
  "within_window r t c (Sweep now) = (isfinite now \<and> now - t \<le> c)"
| "within_window r t c (Signal b t') = (b = r \<longrightarrow> isfinite t' \<and> t \<le> t')"

lemma hold_survives:
  assumes "dict_ok (last_stop (fst s))" and "map_of (last_stop (fst s)) r = Some u"
    and "t \<le> u" and "isfinite u" and "isfinite t" and "list_all (within_window r t (clear_after_s (fst s))) ops"
  shows "\<exists>u'. map_of (last_stop (fst (mirror_run set_emergency s ops))) r = Some u'"
  using assms
proof (induction ops arbitrary: s u)
  case (Cons x ops)
  obtain m g where s: "s = (m, g)" by (cases s)
  show ?case
  proof (cases x)
    case (Signal b t')
    have "\<exists>v. map_of (last_stop (fst (mirror_step set_emergency s x))) r = Some v \<and> t \<le> v \<and> isfinite v"
      using Cons.prems by (auto simp: s Signal on_stop_signal_def)
    then show ?thesis using Cons.prems Cons.IH [of "mirror_step set_emergency s x"]
      by (auto simp: s Signal on_stop_signal_def)
  next
    case (Sweep now)
    have "now - u \<le> now - t"
      using Cons.prems by (auto simp: s Sweep isfinite_iff fround_mono)
    then have "\<not> silent m now u"
      using Cons.prems fle_trans fle_not_flt by (auto simp: s Sweep silent_def)
    then have "map_of (last_stop (fst (sweep set_emergency s now))) r = Some u"
      using Cons.prems by (simp add: s gate_sink.sweep_spec map_of_filter_value)
    then show ?thesis using Cons.prems Cons.IH [of "mirror_step set_emergency s x" u]
      by (simp add: s Sweep gate_sink.sweep_spec)
  qed
qed simp

text \<open>
  C35. A guardian stop locks the gate: after a stop signal for a robot at time \<open>t\<close>, through any
  further signals and any sweeps at most one window later, neither a dispatch nor a charging request
  for that robot is accepted.
\<close>

theorem stop_signal_locks_gate:
  assumes "gate_sink.agree (m, g)" and "isfinite t"
    and "list_all (within_window r t (clear_after_s m)) ops"
  shows "let g' = snd (mirror_run set_emergency (on_stop_signal set_emergency (m, g) r t) ops) in
    \<not> is_accept (fst (validate_and_register_dispatch parse_ts g' st (Some r) p d a now))
    \<and> \<not> is_accept (fst (validate_and_register_charging parse_ts g' st r now))"
proof -
  let ?s = "on_stop_signal set_emergency (m, g) r t"
  let ?e = "mirror_run set_emergency ?s ops"
  have a: "gate_sink.agree ?s" using assms(1) by (rule gate_sink.agree_signal)
  have e: "gate_sink.agree ?e" using a by (rule gate_sink.agree_run)
  have "\<exists>u. map_of (last_stop (fst ?e)) r = Some u"
    using assms a fle_refl [of t]
    by (intro hold_survives [of ?s r t t ops]) (auto simp: on_stop_signal_def gate_sink.agree_def)
  then have "r \<in> held_bots (fst ?e)" by (force simp: held_bots_def dest: map_of_SomeD)
  then have "r \<in> emergency (snd ?e)" using e by (simp add: gate_sink.agree_def)
  then show ?thesis
    by (simp add: Let_def is_accept_dispatch is_accept_charge dispatch_none_emergency charging_None)
qed

theorem stop_signal_locks_gate_witness:
  "\<not> is_accept (fst (validate_and_register_charging (\<lambda>_. IsoInvalid)
      (snd (mirror_run set_emergency (on_stop_signal set_emergency (sample_mirror, sample_gate) ''bot2'' (Fin 5))
         [Sweep (Fin (11/2)), Sweep (Fin 6)])) (Some sample_state) ''bot2'' (Fin 6)))"
proof -
  have "gate_sink.agree (sample_mirror, sample_gate)"
    by (simp add: gate_sink.agree_def sample_mirror_def sample_gate_def init_gate_def held_bots_def)
  then show ?thesis
    using stop_signal_locks_gate [of sample_mirror sample_gate "Fin 5" "''bot2''"
        "[Sweep (Fin (11/2)), Sweep (Fin 6)]" "\<lambda>_. IsoInvalid" "Some sample_state" None None "''wait''" "Fin 6"]
    by (simp add: sample_mirror_def EMERGENCY_CLEAR_AFTER_S_def py_eval Let_def)
qed

text \<open>
  The clear window can only be lengthened: every configuration either is refused or yields a
  finite window of at least the frozen second, and a missing block or key yields exactly it.
\<close>

theorem clear_after_floor:
  assumes "clear_after_from_config config = Inr c"
  shows "isfinite c \<and> EMERGENCY_CLEAR_AFTER_S \<le> c"
proof -
  have floor: "isfinite c \<and> EMERGENCY_CLEAR_AFTER_S \<le> c" if "validate_clear_after v = Inr c" for v
  proof (cases v)
    case (PInt n)
    with that have "float_of_int n = Inr c" "\<not> Fin (of_int n) < Fin 1"
      by (auto simp: validate_clear_after_def bindR_Inr_iff EMERGENCY_CLEAR_AFTER_S_def split: if_splits)
    moreover have "fround 1 \<le> fround (of_int n)"
      using calculation(2) by (intro fround_mono) simp
    ultimately show ?thesis
      by (cases "fround (of_int n)") (auto simp: float_of_int_def EMERGENCY_CLEAR_AFTER_S_def py_eval)
  next
    case (PFloat a)
    with that show ?thesis
      by (cases a) (auto simp: validate_clear_after_def EMERGENCY_CLEAR_AFTER_S_def split: if_splits)
  qed (use that in \<open>auto simp: validate_clear_after_def\<close>)
  show ?thesis
    using assms floor
    by (auto simp: clear_after_from_config_def Let_def EMERGENCY_CLEAR_AFTER_S_def
        split: pyval.splits option.splits)
qed

theorem clear_after_floor_witness:
  "clear_after_from_config (Some [(''policy_gate'', PDict [(''emergency_clear_after_s'', PInt 2)])]) = Inr (Fin 2)
   \<and> EMERGENCY_CLEAR_AFTER_S \<le> Fin 2"
proof -
  have e: "clear_after_from_config (Some [(''policy_gate'', PDict [(''emergency_clear_after_s'', PInt 2)])]) = Inr (Fin 2)"
    by (simp add: clear_after_from_config_def dget_def validate_clear_after_def isfinite_val_def
        float_of_int_def EMERGENCY_CLEAR_AFTER_S_def py_eval)
  show ?thesis using e clear_after_floor [OF e] by simp
qed

end
