(* ===== verification/Stores.thy ===== *)
theory Stores
  imports Prelude
begin

text \<open>
  The generation store and the idempotency store of \<open>warehouse_interfaces/stores.py\<close>. A store is
  the content of its file; writes are atomic replacements, so a reader sees one of these values.
  The laws a client needs of an idempotency store are the locale \<open>idem_store\<close>, proved for the
  file-backed store.
\<close>

section \<open>The stores\<close>

text \<open>Content of the generation file: absent, a number, or text that \<open>int\<close> rejects.\<close>

datatype gen_file = GenMissing | GenText int | GenGarbage

fun gen_get :: "gen_file \<Rightarrow> int result" where
  "gen_get GenMissing = Inr 0"
| "gen_get (GenText n) = Inr n"
| "gen_get GenGarbage = Inl ValueError"

definition gen_set :: "gen_file \<Rightarrow> int \<Rightarrow> gen_file" where
  "gen_set _ gen = GenText gen"

text \<open>Content of the idempotency file: absent, not JSON, JSON but no object, or the map of keys.\<close>

datatype idem_file = IdemMissing | IdemCorrupt | IdemNotObject | IdemMap "(string, int) pydict"

definition IDEMPOTENCY_WINDOW_GENS :: int where
  "IDEMPOTENCY_WINDOW_GENS = 8"

fun idem_load :: "idem_file \<Rightarrow> (string, int) pydict" where
  "idem_load IdemMissing = []"
| "idem_load IdemCorrupt = []"
| "idem_load IdemNotObject = []"
| "idem_load (IdemMap d) = d"

definition check_and_add :: "int \<Rightarrow> idem_file \<Rightarrow> string \<Rightarrow> int \<Rightarrow> bool \<times> idem_file" where
  "check_and_add window st key gen =
     (let consumed = idem_load st in
      if key \<in> fst ` set consumed then (False, st)
      else
        let consumed = AList.update key gen consumed; cutoff = gen - window
        in (True, IdemMap (filter (\<lambda>(k, g). cutoff \<le> g) consumed)))"

definition idem_ok :: "idem_file \<Rightarrow> bool" where
  "idem_ok st \<longleftrightarrow> dict_ok (idem_load st)"

section \<open>The interface\<close>

text \<open>
  \<open>seen\<close> is the memory of consumed keys. A fresh key is accepted and remembered, a remembered key
  is refused without a change, and acceptance forgets only what is older than the window.
\<close>

locale idem_store =
  fixes caa :: "'s \<Rightarrow> string \<Rightarrow> int \<Rightarrow> bool \<times> 's"
    and seen :: "'s \<Rightarrow> string \<Rightarrow> int option"
    and invar :: "'s \<Rightarrow> bool"
    and window :: int
  assumes accept_iff: "invar s \<Longrightarrow> fst (caa s k g) \<longleftrightarrow> seen s k = None"
    and reject_unchanged: "invar s \<Longrightarrow> seen s k \<noteq> None \<Longrightarrow> snd (caa s k g) = s"
    and seen_accept: "invar s \<Longrightarrow> seen s k = None \<Longrightarrow> seen (snd (caa s k g)) j =
        (if j = k then Some g
         else case seen s j of None \<Rightarrow> None | Some h \<Rightarrow> if g - window \<le> h then Some h else None)"
    and invar_caa: "invar s \<Longrightarrow> invar (snd (caa s k g))"
begin

text \<open>A remembered key survives every call whose generation is at most a window ahead of it.\<close>

lemma seen_kept:
  assumes "invar s" and "seen s k = Some h" and "g \<le> h + window"
  shows "seen (snd (caa s j g)) k = Some h"
proof (cases "seen s j")
  case None
  with assms have "j \<noteq> k" by auto
  with None assms show ?thesis by (auto simp: seen_accept)
next
  case (Some g')
  with assms(1,2) show ?thesis by (simp add: reject_unchanged)
qed

lemma remembered_after_accept:
  "invar s \<Longrightarrow> fst (caa s k g) \<Longrightarrow> seen (snd (caa s k g)) k = Some g"
  by (simp add: accept_iff seen_accept)

lemma no_second_accept:
  "invar s \<Longrightarrow> seen s k = Some h \<Longrightarrow> \<not> fst (caa s k g)"
  by (simp add: accept_iff)

lemma never_forgets_newer:
  "invar s \<Longrightarrow> seen (snd (caa s k g)) j = Some h \<Longrightarrow> j \<noteq> k \<Longrightarrow> seen s j = Some h"
  by (cases "seen s k") (auto simp: seen_accept reject_unchanged split: option.splits if_splits)

end

definition idem_seen :: "idem_file \<Rightarrow> string \<Rightarrow> int option" where
  "idem_seen st = map_of (idem_load st)"

lemma idem_member: "k \<in> fst ` set (idem_load st) \<longleftrightarrow> idem_seen st k \<noteq> None"
  by (simp add: idem_seen_def map_of_eq_None_iff)

lemma idem_accept: "fst (check_and_add w st k g) \<longleftrightarrow> idem_seen st k = None"
  by (simp add: check_and_add_def Let_def idem_member)

lemma idem_reject: "idem_seen st k \<noteq> None \<Longrightarrow> check_and_add w st k g = (False, st)"
  by (simp add: check_and_add_def Let_def idem_member)

lemma idem_snd:
  "idem_seen st k = None \<Longrightarrow> snd (check_and_add w st k g) =
     IdemMap (filter (\<lambda>(k, h). g - w \<le> h) (AList.update k g (idem_load st)))"
  by (simp add: check_and_add_def Let_def idem_member)

lemma idem_ok_caa: "idem_ok st \<Longrightarrow> idem_ok (snd (check_and_add w st k g))"
proof (cases "idem_seen st k")
  case None
  then show "idem_ok st \<Longrightarrow> ?thesis" by (simp add: idem_snd idem_ok_def)
qed (simp add: idem_reject)

lemma idem_seen_accept:
  assumes "idem_ok st" and "idem_seen st k = None" and "0 \<le> w"
  shows "idem_seen (snd (check_and_add w st k g)) j =
    (if j = k then Some g
     else case idem_seen st j of None \<Rightarrow> None | Some h \<Rightarrow> if g - w \<le> h then Some h else None)"
  using assms map_of_filter_value [of "AList.update k g (idem_load st)" "\<lambda>h. g - w \<le> h" j]
  by (auto simp: idem_snd idem_ok_def idem_seen_def split: option.splits)

lemma window_nonneg: "0 \<le> IDEMPOTENCY_WINDOW_GENS"
  by (simp add: IDEMPOTENCY_WINDOW_GENS_def)

interpretation file_idem: idem_store "check_and_add IDEMPOTENCY_WINDOW_GENS" idem_seen idem_ok
    IDEMPOTENCY_WINDOW_GENS
  by unfold_locales
    (simp_all add: idem_accept idem_reject idem_seen_accept idem_ok_caa window_nonneg)

end
