(* ===== verification/GenCheck.thy ===== *)
theory GenCheck
  imports Stores
begin

text \<open>
  \<open>GenChecker\<close> of \<open>warehouse_mcp_server/gen_check.py\<close>, the first step of every tool call: a call of
  an older generation is refused, and a call whose idempotency key was consumed is refused. The
  bridge publishes generations between calls; a history is a list of publications and calls.
\<close>

record checker =
  gen_store :: gen_file
  idem_store :: idem_file

record gen_check_result =
  ok :: bool
  reason :: "string option"
  cur_gen :: int

definition is_stale :: "int \<Rightarrow> int \<Rightarrow> bool" where
  "is_stale gen_id cur \<longleftrightarrow> gen_id < cur"

definition check :: "checker \<Rightarrow> int \<Rightarrow> string option \<Rightarrow> gen_check_result result \<times> checker" where
  "check c gen_id idempotency_key =
     (case gen_get (gen_store c) of
        Inl e \<Rightarrow> (Inl e, c)
      | Inr cur \<Rightarrow>
          if is_stale gen_id cur
          then (Inr \<lparr>ok = False, reason = Some ''stale_generation'', cur_gen = cur\<rparr>, c)
          else case idempotency_key of
              None \<Rightarrow> (Inr \<lparr>ok = True, reason = None, cur_gen = cur\<rparr>, c)
            | Some key \<Rightarrow>
                let (fresh, ist) = check_and_add IDEMPOTENCY_WINDOW_GENS (idem_store c) key gen_id;
                    c' = c\<lparr>idem_store := ist\<rparr>
                in if \<not> fresh
                   then (Inr \<lparr>ok = False, reason = Some ''duplicate_command'', cur_gen = cur\<rparr>, c')
                   else (Inr \<lparr>ok = True, reason = None, cur_gen = cur\<rparr>, c'))"

definition check_passed :: "gen_check_result result \<Rightarrow> bool" where
  "check_passed r \<longleftrightarrow> (case r of Inl _ \<Rightarrow> False | Inr x \<Rightarrow> ok x)"

text \<open>Histories.\<close>

datatype checker_op = Publish int | Call int "string option"

fun checker_step :: "checker \<Rightarrow> checker_op \<Rightarrow> checker" where
  "checker_step c (Publish n) = c\<lparr>gen_store := gen_set (gen_store c) n\<rparr>"
| "checker_step c (Call g k) = snd (check c g k)"

definition checker_run :: "checker \<Rightarrow> checker_op list \<Rightarrow> checker" where
  "checker_run = foldl checker_step"

text \<open>
  The bridge's discipline: published generations do not go back, and no call is more than a
  window ahead of the published generation.
\<close>

fun disciplined :: "int \<Rightarrow> checker_op list \<Rightarrow> bool" where
  "disciplined cur [] = True"
| "disciplined cur (Publish n # ops) = (cur \<le> n \<and> disciplined n ops)"
| "disciplined cur (Call g k # ops) =
     (g \<le> cur + IDEMPOTENCY_WINDOW_GENS \<and> disciplined cur ops)"

section \<open>Single calls\<close>

lemma check_gen_store [simp]: "gen_store (snd (check c g k)) = gen_store c"
  by (simp add: check_def Let_def split: sum.splits option.splits prod.splits)

lemma check_idem_store:
  "gen_get (gen_store c) = Inr cur \<Longrightarrow>
    idem_store (snd (check c g k)) =
      (case k of
         Some key \<Rightarrow> if g < cur then idem_store c
           else snd (check_and_add IDEMPOTENCY_WINDOW_GENS (idem_store c) key g)
       | None \<Rightarrow> idem_store c)"
  by (auto simp: check_def is_stale_def case_prod_beta Let_def split: option.splits)

lemma check_accepted:
  "gen_get (gen_store c) = Inr cur \<Longrightarrow>
    check_passed (fst (check c g k)) \<longleftrightarrow>
      cur \<le> g \<and> (case k of None \<Rightarrow> True
        | Some key \<Rightarrow> fst (check_and_add IDEMPOTENCY_WINDOW_GENS (idem_store c) key g))"
  by (auto simp: check_def check_passed_def is_stale_def case_prod_beta Let_def split: option.splits)

lemma check_accepted_iff:
  assumes "gen_get (gen_store c) = Inr cur" and "idem_ok (idem_store c)"
  shows "check_passed (fst (check c g k)) \<longleftrightarrow>
    cur \<le> g \<and> (case k of None \<Rightarrow> True | Some key \<Rightarrow> idem_seen (idem_store c) key = None)"
  using assms(1) by (auto simp: check_accepted idem_accept split: option.splits)

lemma check_idem_ok [py_inv]:
  "idem_ok (idem_store c) \<Longrightarrow> idem_ok (idem_store (snd (check c g k)))"
proof (cases "gen_get (gen_store c)")
  case (Inr cur)
  then show "idem_ok (idem_store c) \<Longrightarrow> ?thesis"
    by (auto simp: check_idem_store idem_ok_caa split: option.splits)
qed (simp add: check_def)

lemma check_unreadable: "gen_store c = GenGarbage \<Longrightarrow> check c g k = (Inl ValueError, c)"
  by (simp add: check_def)

lemma check_stale_no_key: "gen_get (gen_store c) = Inr cur \<Longrightarrow> g < cur \<Longrightarrow> snd (check c g k) = c"
  by (simp add: check_def is_stale_def)

lemma check_remembers:
  assumes "gen_get (gen_store c) = Inr cur" and "idem_ok (idem_store c)"
    and "check_passed (fst (check c g (Some key)))"
  shows "idem_seen (idem_store (snd (check c g (Some key)))) key = Some g"
  using assms file_idem.remembered_after_accept [of "idem_store c" key g]
  by (simp add: check_accepted_iff check_idem_store idem_accept)

lemma check_keeps_seen:
  assumes "gen_get (gen_store c) = Inr cur" and "idem_ok (idem_store c)"
    and "idem_seen (idem_store c) key = Some h" and "g \<le> h + IDEMPOTENCY_WINDOW_GENS"
  shows "idem_seen (idem_store (snd (check c g k))) key = Some h"
  using assms file_idem.seen_kept by (auto simp: check_idem_store split: option.splits)

section \<open>Histories\<close>

lemma checker_run_Nil [simp]: "checker_run c [] = c"
  and checker_run_Cons [simp]: "checker_run c (x # xs) = checker_run (checker_step c x) xs"
  by (simp_all add: checker_run_def)

lemma checker_run_cur_mono:
  "gen_get (gen_store c) = Inr cur \<Longrightarrow> disciplined cur ops \<Longrightarrow>
    \<exists>cur'. gen_get (gen_store (checker_run c ops)) = Inr cur' \<and> cur \<le> cur'"
proof (induction ops arbitrary: c cur)
  case (Cons x ops)
  show ?case
  proof (cases x)
    case (Publish n)
    with Cons.prems Cons.IH [of "checker_step c x" n] show ?thesis
      by (auto simp: gen_set_def)
  next
    case (Call g k)
    with Cons.prems Cons.IH [of "checker_step c x" cur] show ?thesis by simp
  qed
qed auto

lemma checker_run_idem_ok: "idem_ok (idem_store c) \<Longrightarrow> idem_ok (idem_store (checker_run c ops))"
proof (induction ops arbitrary: c)
  case (Cons x ops)
  then show ?case by (cases x) (simp_all add: check_idem_ok)
qed simp

text \<open>While the published generation has not passed \<open>h\<close>, a key consumed under \<open>h\<close> is remembered.\<close>

lemma checker_run_keeps_seen:
  "gen_get (gen_store c) = Inr cur \<Longrightarrow> idem_ok (idem_store c) \<Longrightarrow> disciplined cur ops \<Longrightarrow>
    idem_seen (idem_store c) key = Some h \<Longrightarrow>
    gen_get (gen_store (checker_run c ops)) = Inr cur' \<Longrightarrow> cur' \<le> h \<Longrightarrow>
    idem_seen (idem_store (checker_run c ops)) key = Some h"
proof (induction ops arbitrary: c cur)
  case (Cons x ops)
  show ?case
  proof (cases x)
    case (Publish n)
    with Cons.prems show ?thesis
      by (auto simp: gen_set_def intro!: Cons.IH [of "checker_step c x" n, simplified Publish, simplified])
  next
    case (Call g k)
    with Cons.prems obtain c'' where c'': "gen_get (gen_store (checker_run c (x # ops))) = Inr c''" "cur \<le> c''"
      using checker_run_cur_mono [of c cur "x # ops"] by blast
    with Cons.prems Call have g: "g \<le> h + IDEMPOTENCY_WINDOW_GENS" by simp
    have "idem_seen (idem_store (checker_step c x)) key = Some h"
      using Call Cons.prems check_keeps_seen [OF Cons.prems(1,2,4) g] by simp
    then have "idem_seen (idem_store (checker_run (checker_step c x) ops)) key = Some h"
      using Cons.prems Call by (intro Cons.IH [of "checker_step c x" cur]) (simp_all add: check_idem_ok)
    then show ?thesis by simp
  qed
qed simp

text \<open>A key consumed under \<open>h\<close> is remembered until a call more than a window ahead of \<open>h\<close> is made.\<close>

definition in_key_window :: "int \<Rightarrow> checker_op \<Rightarrow> bool" where
  "in_key_window h op = (case op of Publish n \<Rightarrow> True | Call g k \<Rightarrow> g \<le> h + IDEMPOTENCY_WINDOW_GENS)"

lemma checker_run_window:
  "gen_get (gen_store c) = Inr cur \<Longrightarrow> idem_ok (idem_store c) \<Longrightarrow> idem_seen (idem_store c) key = Some h \<Longrightarrow>
    list_all (in_key_window h) ops \<Longrightarrow> idem_seen (idem_store (checker_run c ops)) key = Some h"
proof (induction ops arbitrary: c cur)
  case (Cons x ops)
  show ?case
  proof (cases x)
    case (Publish n)
    with Cons.prems show ?thesis by (auto simp: gen_set_def intro!: Cons.IH [of "checker_step c x" n, simplified Publish, simplified])
  next
    case (Call g k)
    have "idem_seen (idem_store (checker_step c x)) key = Some h"
      using check_keeps_seen [OF Cons.prems(1-3)] Cons.prems(4) by (simp add: Call in_key_window_def)
    then show ?thesis
      using Cons.prems Call by (auto simp: check_idem_ok intro!: Cons.IH [of "checker_step c x" cur, simplified Call, simplified])
  qed
qed simp

text \<open>
  C36. Replay protection: once a call with a key has been accepted under generation \<open>g\<close>, then after any disciplined
  history of publications and other calls a call with the same key is refused if its generation is at most \<open>g\<close>, and
  under every generation as long as no call more than a window ahead of \<open>g\<close> was made. After such a call the key is
  forgotten, as documented, and a call of a later generation may use it again (lemma
  \<open>forgotten_after_window\<close>).
\<close>

theorem no_replay:
  assumes acc: "check_passed (fst (check c g (Some key)))"
    and ok: "idem_ok (idem_store c)"
    and cur: "gen_get (gen_store c) = Inr cur"
    and disc: "disciplined cur ops"
    and replay: "g' \<le> g \<or> list_all (in_key_window g) ops"
  shows "\<not> check_passed (fst (check (checker_run (snd (check c g (Some key))) ops) g' (Some key)))"
proof
  let ?c = "snd (check c g (Some key))"
  let ?d = "checker_run ?c ops"
  assume again: "check_passed (fst (check ?d g' (Some key)))"
  have ok': "idem_ok (idem_store ?c)" using ok by (rule check_idem_ok)
  have cur': "gen_get (gen_store ?c) = Inr cur" using cur by simp
  have seen: "idem_seen (idem_store ?c) key = Some g" using cur ok acc by (rule check_remembers)
  obtain cd where cd: "gen_get (gen_store ?d) = Inr cd"
    using checker_run_cur_mono [OF cur' disc] by blast
  have okd: "idem_ok (idem_store ?d)" using ok' by (rule checker_run_idem_ok)
  from again have fresh: "cd \<le> g'" "idem_seen (idem_store ?d) key = None"
    by (simp_all add: check_accepted_iff [OF cd okd])
  show False
  proof (cases "g' \<le> g")
    case True
    then show ?thesis using checker_run_keeps_seen [OF cur' ok' disc seen cd] fresh by simp
  next
    case False
    then show ?thesis using checker_run_window [OF cur' ok' seen] replay fresh(2) by simp
  qed
qed

definition sample_checker :: checker where
  "sample_checker = \<lparr>gen_store = GenText 3, idem_store = IdemMissing\<rparr>"

theorem no_replay_witness:
  "let c = snd (check sample_checker 3 (Some ''k1'')) in
     check_passed (fst (check sample_checker 3 (Some ''k1'')))
     \<and> \<not> check_passed (fst (check (checker_run c [Call 3 (Some ''k2''), Publish 4]) 5 (Some ''k1'')))
     \<and> \<not> check_passed (fst (check (checker_run c [Publish 20, Call 20 (Some ''k2'')]) 3 (Some ''k1'')))"
proof -
  have a: "check_passed (fst (check sample_checker 3 (Some ''k1'')))" by code_simp
  have i: "idem_ok (idem_store sample_checker)" by (simp add: sample_checker_def idem_ok_def)
  have g: "gen_get (gen_store sample_checker) = Inr 3" by (simp add: sample_checker_def)
  have d: "disciplined 3 [Call 3 (Some ''k2''), Publish 4]" "disciplined 3 [Publish 20, Call 20 (Some ''k2'')]" by code_simp+
  have w: "list_all (in_key_window 3) [Call 3 (Some ''k2''), Publish 4]" by code_simp
  show ?thesis using a no_replay [OF a i g d(1), of 5] no_replay [OF a i g d(2), of 3] w by (simp add: Let_def)
qed

lemma forgotten_after_window:
  "check_passed (fst (check (checker_run (snd (check sample_checker 3 (Some ''k1''))) [Publish 20, Call 20 (Some ''k2'')])
     20 (Some ''k1'')))"
  by code_simp

text \<open>
  Without the discipline the window can be emptied: a call far ahead of the published generation
  evicts the key, and the replay is accepted.
\<close>

lemma undisciplined_replay:
  "check_passed (fst (check (checker_run (snd (check sample_checker 3 (Some ''k1'')))
     [Call 100 (Some ''k2'')]) 3 (Some ''k1'')))"
  by code_simp

end
