(* ===== verification/McpTools.thy ===== *)
theory McpTools
  imports EmergencySync GenCheck "HOL-Library.List_Lexorder" "HOL-Library.Char_ord"
begin

text \<open>
  \<open>WarehouseTools\<close> of \<open>warehouse_mcp_server/tools.py\<close> and \<open>plan_nav2_request\<close> of
  \<open>nav2_client.py\<close>: the seven tools, the wire entry \<open>dispatch\<close> and the forwarding of accepted motion
  commands. A payload is the returned dictionary. Every handler starts with the generation and
  idempotency check (\<open>gen_guard\<close>), and every outcome is written to the audit log. A wire call is
  either \<open>Bound\<close> to a tool's signature, with values of the documented types, or \<open>Named\<close> only, when
  its keywords do not bind and the call raises \<open>TypeError\<close>. The reads of the clock and of the state
  store are the environment of a call. What the HTTP client and the negotiation publisher are
  called with is recorded; their outcome is swallowed by the code and has no effect on the state.
\<close>

section \<open>The state\<close>

type_synonym payload = "(string \<times> pyval) list"

record audit_entry =
  au_tool :: string
  au_result :: string
  au_detail :: payload
  au_robot :: "string option"

record nav2_request =
  path :: string
  body :: payload

record server =
  chk :: checker
  pgate :: gate
  escalations :: "(string, bool) pydict"
  negotiation_seq :: nat
  has_forwarder :: bool
  has_starter :: bool
  audit_log :: "audit_entry list"
  forwarded :: "nav2_request list"
  published :: "payload list"

record env =
  clock :: pyfloat
  stored :: "snapshot option"

datatype tool_call =
    DispatchTask "string option" "string option" "string option" string "string option" string "pyfloat option"
  | CancelById string
  | GetFleetStatus
  | GetTaskQueue
  | SendToCharging string
  | EscalationResponse string string "string option" string
  | StartNegotiation string string string

datatype wire_call = Named string | Bound tool_call

definition EMERGENCY_HISTORY_LLM_MAX :: nat where
  "EMERGENCY_HISTORY_LLM_MAX = 10"

definition NEGOTIATION_STARTERS :: "string list" where
  "NEGOTIATION_STARTERS = [''bot1'', ''bot2'']"

definition ESCALATION_ACTIONS :: "string list" where
  "ESCALATION_ACTIONS = [''reassign'', ''cancel'', ''retry'']"

definition TOOL_NAMES :: "string list" where
  "TOOL_NAMES = [''dispatch_task'', ''cancel_task'', ''get_fleet_status'', ''get_task_queue'',
     ''send_to_charging'', ''escalation_response'', ''start_negotiation'']"

fun tool_name :: "tool_call \<Rightarrow> string" where
  "tool_name (DispatchTask _ _ _ _ _ _ _) = ''dispatch_task''"
| "tool_name (CancelById _) = ''cancel_task''"
| "tool_name GetFleetStatus = ''get_fleet_status''"
| "tool_name GetTaskQueue = ''get_task_queue''"
| "tool_name (SendToCharging _) = ''send_to_charging''"
| "tool_name (EscalationResponse _ _ _ _) = ''escalation_response''"
| "tool_name (StartNegotiation _ _ _) = ''start_negotiation''"

fun wire_name :: "wire_call \<Rightarrow> string" where
  "wire_name (Named n) = n"
| "wire_name (Bound c) = tool_name c"

lemma tool_name_known [simp]: "tool_name c \<in> set TOOL_NAMES"
  by (cases c) (simp_all add: TOOL_NAMES_def)

definition opt_str :: "string option \<Rightarrow> pyval" where
  "opt_str s = (case s of None \<Rightarrow> PNone | Some x \<Rightarrow> PStr x)"

definition opt_float :: "pyfloat option \<Rightarrow> pyval" where
  "opt_float s = (case s of None \<Rightarrow> PNone | Some x \<Rightarrow> PFloat x)"

lemma opt_str_eq [simp]: "opt_str s = PNone \<longleftrightarrow> s = None" "opt_str s = PStr x \<longleftrightarrow> s = Some x"
  by (auto simp: opt_str_def split: option.splits)

lemma opt_float_eq [simp]: "opt_float s = PNone \<longleftrightarrow> s = None"
  by (auto simp: opt_float_def split: option.splits)

section \<open>Audit and generation guard\<close>

definition record_row :: "server \<Rightarrow> string \<Rightarrow> string \<Rightarrow> payload \<Rightarrow> string option \<Rightarrow> int option \<Rightarrow> server" where
  "record_row s tool res detail robot gen =
     s\<lparr>audit_log := audit_log s @
        [\<lparr>au_tool = tool, au_result = res,
          au_detail = (case gen of None \<Rightarrow> detail
             | Some g \<Rightarrow> if map_of detail ''gen_id'' = None then detail @ [(''gen_id'', PInt g)] else detail),
          au_robot = robot\<rparr>]\<rparr>"

definition rejected :: "server \<Rightarrow> string \<Rightarrow> payload \<Rightarrow> string option \<Rightarrow> payload result \<times> server" where
  "rejected s tool p robot = (Inr p, record_row s tool ''rejected'' p robot None)"

definition executed :: "server \<Rightarrow> string \<Rightarrow> payload \<Rightarrow> string option \<Rightarrow> int option \<Rightarrow> payload result \<times> server" where
  "executed s tool p robot gen = (Inr p, record_row s tool ''executed'' p robot gen)"

definition reject_payload :: "string \<Rightarrow> payload" where
  "reject_payload why = [(''status'', PStr ''rejected''), (''reason'', PStr why)]"

definition gen_reject :: "gen_check_result \<Rightarrow> int \<Rightarrow> string option \<Rightarrow> payload" where
  "gen_reject res gen_id key =
     (if reason res = Some ''duplicate_command''
      then reject_payload ''duplicate_command'' @ [(''idempotency_key'', opt_str key)]
      else reject_payload ''stale_generation'' @ [(''received_gen'', PInt gen_id)])"

definition gen_guard ::
    "server \<Rightarrow> string \<Rightarrow> string option \<Rightarrow> int \<Rightarrow> string option \<Rightarrow>
     (server \<Rightarrow> payload result \<times> server) \<Rightarrow> payload result \<times> server" where
  "gen_guard s tool robot gen_id key handler =
     (case check (chk s) gen_id key of
        (Inl e, c) \<Rightarrow> (Inl e, s\<lparr>chk := c\<rparr>)
      | (Inr res, c) \<Rightarrow>
          if \<not> ok res then rejected (s\<lparr>chk := c\<rparr>) tool (gen_reject res gen_id key) robot
          else handler (s\<lparr>chk := c\<rparr>))"

section \<open>The tools\<close>

definition dispatch_task ::
    "(string \<Rightarrow> iso_time) \<Rightarrow> env \<Rightarrow> string option \<Rightarrow> string option \<Rightarrow> string option \<Rightarrow> string \<Rightarrow>
     string option \<Rightarrow> string \<Rightarrow> pyfloat option \<Rightarrow> int \<Rightarrow> server \<Rightarrow> payload result \<times> server" where
  "dispatch_task parse_ts e robot pickup dropoff priority via action duration gen_id s =
     (case validate_and_register_dispatch parse_ts (pgate s) (stored e) robot pickup dropoff action (clock e) of
        (Inl x, g) \<Rightarrow> (Inl x, s\<lparr>pgate := g\<rparr>)
      | (Inr res, g) \<Rightarrow>
          let s = s\<lparr>pgate := g\<rparr> in
          if \<not> accepted res
          then rejected s ''dispatch_task''
                 [(''status'', PStr ''rejected''), (''reason'', opt_str (reject_reason res))] robot
          else executed s ''dispatch_task''
                 [(''status'', PStr ''ok''), (''task_id'', opt_str (task_id res)), (''robot'', opt_str robot),
                  (''action'', PStr action), (''dropoff'', opt_str dropoff), (''via'', opt_str via),
                  (''priority'', PStr priority), (''duration'', opt_float duration)] robot (Some gen_id))"

definition CURRENT_PREFIX :: string where
  "CURRENT_PREFIX = ''current:''"

definition cancel_task :: "string \<Rightarrow> int \<Rightarrow> server \<Rightarrow> payload result \<times> server" where
  "cancel_task tid gen_id s =
     (if take 8 tid = CURRENT_PREFIX then
        let robot = drop 8 tid; (resolved, g) = resolve_and_clear_active (pgate s) robot;
            s = s\<lparr>pgate := g\<rparr>
        in case resolved of
             None \<Rightarrow> rejected s ''cancel_task''
                       (reject_payload ''no_active_task'' @ [(''robot'', PStr robot)]) (Some robot)
           | Some t \<Rightarrow> executed s ''cancel_task''
                       [(''status'', PStr ''ok''), (''task_id'', PStr t), (''robot'', PStr robot)]
                       (Some robot) (Some gen_id)
      else
        let (robot, g) = resolve_and_clear_by_task_id (pgate s) tid in
        executed (s\<lparr>pgate := g\<rparr>) ''cancel_task''
          [(''status'', PStr ''ok''), (''task_id'', PStr tid), (''robot'', opt_str robot)]
          robot (Some gen_id))"

text \<open>\<open>len(robots)\<close> in the audit line: a value without a length raises \<open>TypeError\<close>.\<close>

fun py_len :: "pyval \<Rightarrow> nat result" where
  "py_len (PStr s) = Inr (length s)"
| "py_len (PList xs) = Inr (length xs)"
| "py_len (PDict d) = Inr (length d)"
| "py_len _ = Inl TypeError"

definition fleet_payload :: "snapshot \<Rightarrow> gate \<Rightarrow> payload" where
  "fleet_payload state g =
     (let robots = (let r = dget state ''robots'' in if truthy r then r else PDict []);
          ring = (case dget state ''emergency'' of PDict d \<Rightarrow> d | _ \<Rightarrow> []);
          active = (case dget ring ''active'' of PList xs \<Rightarrow> xs | _ \<Rightarrow> []);
          hist = (case dget ring ''history'' of
                    PList xs \<Rightarrow> drop (length xs - EMERGENCY_HISTORY_LLM_MAX) xs | _ \<Rightarrow> [])
      in [(''status'', PStr ''ok''), (''timestamp'', dget state ''timestamp''), (''robots'', robots),
          (''emergency'', PDict [(''active'', PList active), (''history'', PList hist)]),
          (''l2_emergency_holds'', PList (map PStr (sorted_list_of_set (emergency_holds g))))])"

definition get_fleet_status :: "env \<Rightarrow> server \<Rightarrow> payload result \<times> server" where
  "get_fleet_status e s =
     (let p = fleet_payload (read_state (stored e)) (pgate s) in
      case py_len (dget p ''robots'') of
        Inl x \<Rightarrow> (Inl x, s)
      | Inr n \<Rightarrow>
          (Inr p, record_row s ''get_fleet_status'' ''executed''
             [(''robots'', PInt (int n)),
              (''l2_emergency_holds'', PInt (int (card (emergency_holds (pgate s)))))] None None))"

definition get_task_queue :: "server \<Rightarrow> payload result \<times> server" where
  "get_task_queue s =
     (let tasks = active_tasks (pgate s) in
      (Inr [(''status'', PStr ''ok''), (''active'', PDict (map (\<lambda>(r, t). (r, PStr t)) tasks)),
            (''pending'', PList []), (''recent'', PList [])],
       record_row s ''get_task_queue'' ''executed'' [(''active'', PInt (int (length tasks)))] None None))"

definition send_to_charging ::
    "(string \<Rightarrow> iso_time) \<Rightarrow> env \<Rightarrow> string \<Rightarrow> int \<Rightarrow> server \<Rightarrow> payload result \<times> server" where
  "send_to_charging parse_ts e robot gen_id s =
     (case validate_and_register_charging parse_ts (pgate s) (stored e) robot (clock e) of
        (Inl x, g) \<Rightarrow> (Inl x, s\<lparr>pgate := g\<rparr>)
      | (Inr res, g) \<Rightarrow>
          let s = s\<lparr>pgate := g\<rparr> in
          if \<not> accepted res
          then rejected s ''send_to_charging''
                 [(''status'', PStr ''rejected''), (''reason'', opt_str (reject_reason res)),
                  (''robot'', PStr robot)] (Some robot)
          else executed s ''send_to_charging''
                 [(''status'', PStr ''ok''), (''task_id'', opt_str (task_id res)), (''robot'', PStr robot),
                  (''dropoff'', PStr ''charging_station'')] (Some robot) (Some gen_id))"

definition escalation_response ::
    "string \<Rightarrow> string \<Rightarrow> string option \<Rightarrow> string \<Rightarrow> server \<Rightarrow> payload result \<times> server" where
  "escalation_response esc action new_robot why s =
     (if action \<notin> set ESCALATION_ACTIONS
      then rejected s ''escalation_response'' (reject_payload ''unknown_action'' @ [(''action'', PStr action)]) None
      else case map_of (escalations s) esc of
          None \<Rightarrow> rejected s ''escalation_response'' (reject_payload ''unknown_escalation_id'') None
        | Some resolved \<Rightarrow>
            if resolved
            then rejected s ''escalation_response''
                   (reject_payload ''already_resolved'' @ [(''escalation_id'', PStr esc)]) None
            else executed (s\<lparr>escalations := AList.update esc True (escalations s)\<rparr>) ''escalation_response''
                   [(''status'', PStr ''ok''), (''escalation_id'', PStr esc), (''action'', PStr action),
                    (''new_robot'', opt_str new_robot), (''reason'', PStr why)] new_robot None)"

definition publish_negotiation_start :: "server \<Rightarrow> int \<Rightarrow> payload \<Rightarrow> server" where
  "publish_negotiation_start s gen_id p =
     (if \<not> has_starter s then s
      else s\<lparr>published := published s @
        [[(''negotiation_id'', dget p ''negotiation_id''), (''gen_id'', PInt gen_id),
          (''starter'', dget p ''starter''),
          (''deadlock_or_escalation_id'', dget p ''deadlock_or_escalation_id''),
          (''context'', dget p ''context'')]]\<rparr>)"

definition start_negotiation ::
    "string \<Rightarrow> string \<Rightarrow> string \<Rightarrow> int \<Rightarrow> server \<Rightarrow> payload result \<times> server" where
  "start_negotiation esc starter ctxt gen_id s =
     (if starter \<notin> set NEGOTIATION_STARTERS
      then rejected s ''start_negotiation'' (reject_payload ''unknown_starter'' @ [(''starter'', PStr starter)]) None
      else
        let s = s\<lparr>negotiation_seq := negotiation_seq s + 1\<rparr>;
            p = [(''status'', PStr ''ok''), (''negotiation_id'', PStr (''nego_'' @ pad3 (negotiation_seq s))),
                 (''deadlock_or_escalation_id'', PStr esc), (''starter'', PStr starter), (''context'', PStr ctxt)];
            s = record_row s ''start_negotiation'' ''executed'' p None None
        in (Inr p, publish_negotiation_start s gen_id p))"

fun tool_robot :: "tool_call \<Rightarrow> string option" where
  "tool_robot (DispatchTask robot _ _ _ _ _ _) = robot"
| "tool_robot (SendToCharging robot) = Some robot"
| "tool_robot _ = None"

text \<open>One handler call, the guard first.\<close>

fun tool_body ::
    "(string \<Rightarrow> iso_time) \<Rightarrow> env \<Rightarrow> int \<Rightarrow> tool_call \<Rightarrow> server \<Rightarrow> payload result \<times> server" where
  "tool_body parse_ts e g (DispatchTask r p d pr v a du) s = dispatch_task parse_ts e r p d pr v a du g s"
| "tool_body parse_ts e g (CancelById t) s = cancel_task t g s"
| "tool_body parse_ts e g GetFleetStatus s = get_fleet_status e s"
| "tool_body parse_ts e g GetTaskQueue s = get_task_queue s"
| "tool_body parse_ts e g (SendToCharging r) s = send_to_charging parse_ts e r g s"
| "tool_body parse_ts e g (EscalationResponse i a n w) s = escalation_response i a n w s"
| "tool_body parse_ts e g (StartNegotiation i st c) s = start_negotiation i st c g s"

definition call_tool ::
    "(string \<Rightarrow> iso_time) \<Rightarrow> env \<Rightarrow> server \<Rightarrow> int \<Rightarrow> string option \<Rightarrow> tool_call \<Rightarrow> payload result \<times> server" where
  "call_tool parse_ts e s gen_id key c =
     gen_guard s (tool_name c) (tool_robot c) gen_id key (tool_body parse_ts e gen_id c)"

section \<open>Forwarding and the wire entry\<close>

definition plan_nav2_request :: "string \<Rightarrow> payload \<Rightarrow> nav2_request option" where
  "plan_nav2_request tool p =
     (if tool = ''dispatch_task'' then
        if dget p ''robot'' = PNone then None
        else if dget p ''action'' = PStr ''wait'' then
          if dget p ''duration'' = PNone then None
          else Some \<lparr>path = ''/api/v1/wait'',
                     body = [(''robot'', dget p ''robot''), (''duration'', dget p ''duration'')]\<rparr>
        else if dget p ''dropoff'' = PNone then None
        else Some \<lparr>path = ''/api/v1/navigate'',
                   body = [(''robot'', dget p ''robot''), (''destination'', dget p ''dropoff'')]
                     @ (if dget p ''via'' \<noteq> PNone then [(''via'', dget p ''via'')] else [])\<rparr>
      else if tool = ''send_to_charging'' then
        if dget p ''robot'' = PNone \<or> dget p ''dropoff'' = PNone then None
        else Some \<lparr>path = ''/api/v1/navigate'',
                   body = [(''robot'', dget p ''robot''), (''destination'', dget p ''dropoff'')]\<rparr>
      else if tool = ''cancel_task'' then
        if dget p ''robot'' = PNone then None
        else Some \<lparr>path = ''/api/v1/stop'', body = [(''robot'', dget p ''robot'')]\<rparr>
      else None)"

definition maybe_forward :: "server \<Rightarrow> string \<Rightarrow> payload \<Rightarrow> server" where
  "maybe_forward s tool p =
     (if \<not> has_forwarder s \<or> dget p ''status'' \<noteq> PStr ''ok'' then s
      else case plan_nav2_request tool p of
          None \<Rightarrow> s
        | Some rq \<Rightarrow> s\<lparr>forwarded := forwarded s @ [rq]\<rparr>)"

definition error_payload :: "string \<Rightarrow> payload" where
  "error_payload why = [(''status'', PStr ''error''), (''reason'', PStr why)]"

definition wire_dispatch ::
    "(string \<Rightarrow> iso_time) \<Rightarrow> env \<Rightarrow> server \<Rightarrow> wire_call \<Rightarrow> int option \<Rightarrow> string option \<Rightarrow> payload result \<times> server" where
  "wire_dispatch parse_ts e s w gen_id key =
     (let name = wire_name w in
      if name \<notin> set TOOL_NAMES then
        let p = error_payload (''unknown_tool:'' @ name) in (Inr p, record_row s name ''error'' p None None)
      else case gen_id of
          None \<Rightarrow> let p = reject_payload ''missing_gen_id''
                  in (Inr p, record_row s name ''rejected'' p None None)
        | Some g \<Rightarrow>
            (case (case w of Named _ \<Rightarrow> (Inl TypeError, s) | Bound c \<Rightarrow> call_tool parse_ts e s g key c) of
               (Inr p, s') \<Rightarrow> (Inr p, maybe_forward s' name p)
             | (Inl x, s') \<Rightarrow>
                 if x = TypeError
                 then let p = error_payload ''bad_arguments'' in (Inr p, record_row s' name ''error'' p None None)
                 else (Inl x, s')))"

end
