(* ===== verification/Situation.thy ===== *)
theory Situation
  imports GuardLogic
begin

text \<open>
  \<open>SituationBuilder\<close> of \<open>warehouse_llm_bridge/situation.py\<close> with the snapshot schemas it validates
  (\<open>warehouse_interfaces/schemas.py\<close>): the state cache's snapshot, enriched per robot, becomes the
  situation sent to the commander. The snapshot file is read as \<open>raw_state\<close>: \<open>raw_typed\<close> is what the
  schema library makes of it, absent when a field is missing or of another type; the validators of
  the schemas are written out. Sine, cosine and the other functions of \<open>math\<close> are the parameter
  \<open>lib\<close>; \<open>math.sin\<close> and \<open>math.cos\<close> raise on an infinity.
\<close>

section \<open>The snapshot\<close>

record snapshot_robot =
  rs_x :: pyfloat
  rs_y :: pyfloat
  rs_linear :: pyfloat
  rs_angular :: pyfloat
  rs_heading :: pyfloat
  rs_status :: string
  rs_battery :: int
  rs_obstacle :: "pyfloat option"

record raw_state =
  raw_typed :: "(string \<times> (string, snapshot_robot) pydict) option"
  raw_emergency :: "pyval option"

definition snapshot_robot_ok :: "snapshot_robot \<Rightarrow> bool" where
  "snapshot_robot_ok r \<longleftrightarrow> 0 \<le> rs_battery r \<and> rs_battery r \<le> 100
     \<and> (case rs_obstacle r of None \<Rightarrow> True | Some d \<Rightarrow> \<not> d < Fin 0)"

definition validate_snapshot :: "raw_state \<Rightarrow> (string \<times> (string, snapshot_robot) pydict) result" where
  "validate_snapshot raw =
     (case raw_typed raw of
        None \<Rightarrow> Inl ValueError
      | Some s \<Rightarrow> if list_all (\<lambda>x. snapshot_robot_ok (snd x)) (snd s) then Inr s else Inl ValueError)"

section \<open>The situation\<close>

definition PREDICTION_HORIZON_S :: pyfloat where
  "PREDICTION_HORIZON_S = Fin 3"

definition CV_ANGULAR_EPS :: pyfloat where
  "CV_ANGULAR_EPS = fround (1 / 1000)"

definition DEFAULT_EMERGENCY_MIN_DISTANCE :: pyfloat where
  "DEFAULT_EMERGENCY_MIN_DISTANCE = fround (3 / 10)"

definition HISTORY_LLM_MAX :: nat where
  "HISTORY_LLM_MAX = 10"

text \<open>A robot as the commander sees it: Mode C leaves the traffic fields unset.\<close>

datatype robot_view =
    Strategic (view_x: pyfloat) (view_y: pyfloat) (view_status: string) (view_battery: int) (view_task: "string option")
  | Full (view_x: pyfloat) (view_y: pyfloat) (view_status: string) (view_battery: int) (view_task: "string option")
      (view_linear: pyfloat) (view_angular: pyfloat) (view_heading: pyfloat)
      (view_obstacle: "pyfloat option") (view_predicted: "pyfloat \<times> pyfloat") (view_ahead: bool)

record builder =
  b_mode :: string
  b_layout :: string
  b_min_distance :: pyfloat
  b_horizon :: pyfloat

record pending_task =
  pt_id :: string
  pt_from :: string
  pt_to :: string

record history_entry =
  he_turn :: int
  he_action :: string
  he_result :: pyval

record situation =
  si_timestamp :: string
  si_turn :: int
  si_gen :: int
  si_layout :: string
  si_robots :: "(string, robot_view) pydict"
  si_pending :: "pending_task list"
  si_history :: "history_entry list"
  si_emergency :: "pyval option"
  si_proposal :: "string option"

definition trig :: "(pyfloat \<Rightarrow> pyfloat) \<Rightarrow> pyfloat \<Rightarrow> pyfloat result" where
  "trig f a = (if a = PInf \<or> a = NInf then Inl ValueError else Inr (f a))"

definition predict :: "libm \<Rightarrow> builder \<Rightarrow> snapshot_robot \<Rightarrow> (pyfloat \<times> pyfloat) result" where
  "predict lib b r =
     (let v = rs_linear r; omega = rs_angular r; theta = rs_heading r; t = b_horizon b in
      if \<bar>omega\<bar> < CV_ANGULAR_EPS then
        bindR (trig (m_cos lib) theta) (\<lambda>c. bindR (trig (m_sin lib) theta) (\<lambda>s.
          Inr (rs_x r + v * c * t, rs_y r + v * s * t)))
      else
        bindR (fdiv v omega) (\<lambda>q.
        bindR (trig (m_sin lib) (theta + omega * t)) (\<lambda>s1. bindR (trig (m_sin lib) theta) (\<lambda>s0.
        bindR (trig (m_cos lib) (theta + omega * t)) (\<lambda>c1. bindR (trig (m_cos lib) theta) (\<lambda>c0.
          Inr (rs_x r + q * (s1 - s0), rs_y r + q * (- c1 + c0))))))))"

definition obstacle_ahead :: "builder \<Rightarrow> pyfloat option \<Rightarrow> bool" where
  "obstacle_ahead b d = (case d of None \<Rightarrow> False | Some x \<Rightarrow> x < b_min_distance b)"

definition enrich :: "libm \<Rightarrow> builder \<Rightarrow> snapshot_robot \<Rightarrow> string option \<Rightarrow> robot_view result" where
  "enrich lib b r task =
     (if b_mode b = ''open-rmf'' then Inr (Strategic (rs_x r) (rs_y r) (rs_status r) (rs_battery r) task)
      else bindR (predict lib b r) (\<lambda>p.
        Inr (Full (rs_x r) (rs_y r) (rs_status r) (rs_battery r) task (rs_linear r) (rs_angular r) (rs_heading r)
               (rs_obstacle r) p (obstacle_ahead b (rs_obstacle r)))))"

fun enrich_all ::
    "libm \<Rightarrow> builder \<Rightarrow> (string, string) pydict \<Rightarrow> (string, snapshot_robot) pydict \<Rightarrow> (string, robot_view) pydict result" where
  "enrich_all lib b tasks [] = Inr []"
| "enrich_all lib b tasks ((rb, r) # rest) =
     bindR (enrich lib b r (map_of tasks rb)) (\<lambda>v. bindR (enrich_all lib b tasks rest) (\<lambda>vs. Inr ((rb, v) # vs)))"

text \<open>The forwarded emergency block: its history is cut to the most recent entries.\<close>

definition attach_emergency :: "pyval option \<Rightarrow> pyval option" where
  "attach_emergency e =
     (case e of
        None \<Rightarrow> None
      | Some PNone \<Rightarrow> None
      | Some (PDict d) \<Rightarrow>
          (case map_of d ''history'' of
             Some (PList xs) \<Rightarrow>
               if HISTORY_LLM_MAX < length xs
               then Some (PDict (AList.update ''history'' (PList (drop (length xs - HISTORY_LLM_MAX) xs)) d))
               else Some (PDict d)
           | _ \<Rightarrow> Some (PDict d))
      | Some v \<Rightarrow> Some v)"

definition build_situation ::
    "libm \<Rightarrow> builder \<Rightarrow> raw_state option \<Rightarrow> int \<Rightarrow> int \<Rightarrow> history_entry list \<Rightarrow> pending_task list \<Rightarrow>
     (string, string) pydict \<Rightarrow> situation option result" where
  "build_situation lib b raw turn gen_id history pending tasks =
     (case raw of
        None \<Rightarrow> Inr None
      | Some raw \<Rightarrow>
          bindR (validate_snapshot raw) (\<lambda>(timestamp, robots).
          bindR (enrich_all lib b tasks robots) (\<lambda>views.
            Inr (Some \<lparr>si_timestamp = timestamp, si_turn = turn, si_gen = gen_id, si_layout = b_layout b,
                       si_robots = views, si_pending = pending, si_history = history,
                       si_emergency = attach_emergency (raw_emergency raw), si_proposal = None\<rparr>))))"

section \<open>Lemmas\<close>

lemma attach_emergency_short:
  "attach_emergency e = Some (PDict d) \<Longrightarrow> map_of d ''history'' = Some (PList xs) \<Longrightarrow> length xs \<le> HISTORY_LLM_MAX"
  by (auto simp: attach_emergency_def split: option.splits pyval.splits if_splits)

lemma build_none_iff: "build_situation lib b raw turn gen h p ts = Inr None \<longleftrightarrow> raw = None"
  by (auto simp: build_situation_def bindR_Inr_iff split: option.splits)

lemma build_fields:
  "build_situation lib b raw turn gen h p ts = Inr (Some s) \<Longrightarrow>
     si_turn s = turn \<and> si_gen s = gen \<and> si_history s = h \<and> si_pending s = p \<and> si_proposal s = None"
  by (auto simp: build_situation_def bindR_Inr_iff split: option.splits)

lemma enrich_all_tasks:
  "enrich_all lib b tasks rs = Inr vs \<Longrightarrow> map fst vs = map fst rs \<and> (\<forall>(rb, v) \<in> set vs. view_task v = map_of tasks rb)"
  by (induction lib b tasks rs arbitrary: vs rule: enrich_all.induct)
    (auto simp: bindR_Inr_iff enrich_def split: if_splits)

text \<open>In Mode C, and when no robot reports an infinite pose, an accepted snapshot always gives a situation.\<close>

lemma trig_finite: "isfinite a \<Longrightarrow> trig f a = Inr (f a)"
  by (auto simp: trig_def)

lemma build_invalid: "validate_snapshot raw = Inl e \<Longrightarrow> build_situation lib b (Some raw) turn gen h p ts = Inl e"
  by (simp add: build_situation_def)

end
