(* ===== verification/Scheduler.thy ===== *)
theory Scheduler
  imports McpTools Situation
begin

text \<open>
  The commander cycle of \<open>warehouse_llm_bridge\<close>: the command schema (\<open>schemas.py\<close>), its mapping to
  tool calls (\<open>action_map.py\<close>), the executor seam (\<open>executor.py\<close>) and \<open>BridgeScheduler\<close>
  (\<open>scheduler.py\<close>). One cycle publishes a new generation, builds the situation, asks the model and
  dispatches the command it answers. The model's answer, the snapshot file and the fresh keys are
  inputs; the tool backend is the parameter \<open>exec\<close>, which the tool server provides. Tracing, sleeping
  and logging have no effect on the state. What is published is recorded.
\<close>

section \<open>Commands\<close>

datatype command_action = NAVIGATE | WAIT | STOP | YIELD | CHARGE

fun action_value :: "command_action \<Rightarrow> string" where
  "action_value NAVIGATE = ''navigate''"
| "action_value WAIT = ''wait''"
| "action_value STOP = ''stop''"
| "action_value YIELD = ''yield''"
| "action_value CHARGE = ''charge''"

record command_item =
  ci_bot :: string
  ci_action :: command_action
  ci_destination :: "string option"
  ci_via :: "string option"
  ci_duration :: "pyfloat option"
  ci_retreat_to :: "string option"
  ci_key :: "string option"

record negotiation_request =
  sn_starter :: string
  sn_id :: string
  sn_context :: string

record command =
  cm_reasoning :: string
  cm_commands :: "command_item list"
  cm_priority :: "string option"
  cm_start :: "negotiation_request option"

text \<open>
  The validators of the schema; which strings \<open>uuid.UUID\<close> accepts is the argument \<open>uuid_ok\<close>.
\<close>

definition item_valid :: "(string \<Rightarrow> bool) \<Rightarrow> command_item \<Rightarrow> bool" where
  "item_valid uuid_ok i \<longleftrightarrow>
     (case ci_destination i of None \<Rightarrow> True | Some d \<Rightarrow> is_known_location d)
     \<and> (case ci_retreat_to i of None \<Rightarrow> True | Some d \<Rightarrow> is_known_location d)
     \<and> (case ci_key i of None \<Rightarrow> True | Some k \<Rightarrow> uuid_ok k)"

definition command_valid :: "(string \<Rightarrow> bool) \<Rightarrow> command \<Rightarrow> bool" where
  "command_valid uuid_ok c \<longleftrightarrow> list_all (item_valid uuid_ok) (cm_commands c)"

section \<open>Tool calls\<close>

record tool_request =
  tr_tool :: string
  tr_args :: payload

definition command_item_to_tool_call :: "command_item \<Rightarrow> int \<Rightarrow> string \<Rightarrow> tool_request" where
  "command_item_to_tool_call item gen_id key =
     (let stamp = [(''gen_id'', PInt gen_id), (''idempotency_key'', PStr key)]; robot = PStr (ci_bot item) in
      case ci_action item of
        NAVIGATE \<Rightarrow>
          \<lparr>tr_tool = ''dispatch_task'',
           tr_args = [(''robot'', robot), (''dropoff'', opt_str (ci_destination item))] @ stamp
             @ (case ci_via item of None \<Rightarrow> [] | Some v \<Rightarrow> [(''via'', PStr v)])\<rparr>
      | WAIT \<Rightarrow>
          \<lparr>tr_tool = ''dispatch_task'',
           tr_args = [(''robot'', robot), (''action'', PStr ''wait''), (''duration'', opt_float (ci_duration item))] @ stamp\<rparr>
      | STOP \<Rightarrow>
          \<lparr>tr_tool = ''cancel_task'', tr_args = [(''task_id'', PStr (CURRENT_PREFIX @ ci_bot item))] @ stamp\<rparr>
      | YIELD \<Rightarrow>
          \<lparr>tr_tool = ''dispatch_task'',
           tr_args = [(''robot'', robot), (''action'', PStr ''yield''), (''dropoff'', opt_str (ci_retreat_to item))] @ stamp\<rparr>
      | CHARGE \<Rightarrow> \<lparr>tr_tool = ''send_to_charging'', tr_args = [(''robot'', robot)] @ stamp\<rparr>)"

text \<open>Each call gets the next fresh key; \<open>n\<close> counts the keys minted before.\<close>

fun command_to_tool_calls :: "(nat \<Rightarrow> string) \<Rightarrow> nat \<Rightarrow> command_item list \<Rightarrow> int \<Rightarrow> tool_request list" where
  "command_to_tool_calls mint n [] gen_id = []"
| "command_to_tool_calls mint n (i # is) gen_id =
     command_item_to_tool_call i gen_id (mint n) # command_to_tool_calls mint (Suc n) is gen_id"

lemma length_calls [simp]: "length (command_to_tool_calls mint n is g) = length is"
  by (induction mint n "is" g rule: command_to_tool_calls.induct) simp_all

definition start_negotiation_tool_call :: "negotiation_request \<Rightarrow> int \<Rightarrow> string \<Rightarrow> tool_request" where
  "start_negotiation_tool_call r gen_id key =
     \<lparr>tr_tool = ''start_negotiation'',
      tr_args = [(''starter'', PStr (sn_starter r)), (''deadlock_or_escalation_id'', PStr (sn_id r)),
                 (''context'', PStr (sn_context r)), (''gen_id'', PInt gen_id), (''idempotency_key'', PStr key)]\<rparr>"

text \<open>
  How the keywords of a call bind to the signatures of \<open>tools.py\<close>, for the four tools the mapping
  produces and values of the documented types; anything else is left unbound.
\<close>

fun str_arg :: "pyval \<Rightarrow> string option option" where
  "str_arg (PStr s) = Some (Some s)"
| "str_arg PNone = Some None"
| "str_arg _ = None"

fun float_arg :: "pyval \<Rightarrow> pyfloat option option" where
  "float_arg (PFloat a) = Some (Some a)"
| "float_arg PNone = Some None"
| "float_arg _ = None"

definition bind_keywords :: "string \<Rightarrow> payload \<Rightarrow> tool_call option" where
  "bind_keywords tool args =
     (let str = (\<lambda>k d. case map_of args k of None \<Rightarrow> Some d | Some v \<Rightarrow> str_arg v) in
      if tool = ''dispatch_task'' then
        (case (str ''robot'' None, str ''pickup'' None, str ''dropoff'' None, str ''priority'' (Some ''normal''),
               str ''via'' None, str ''action'' (Some ''deliver''), float_arg (dget args ''duration'')) of
           (Some r, Some p, Some d, Some (Some pr), Some v, Some (Some a), Some du) \<Rightarrow> Some (DispatchTask r p d pr v a du)
         | _ \<Rightarrow> None)
      else if tool = ''cancel_task'' then
        (case str ''task_id'' None of Some (Some t) \<Rightarrow> Some (CancelById t) | _ \<Rightarrow> None)
      else if tool = ''send_to_charging'' then
        (case str ''robot'' None of Some (Some r) \<Rightarrow> Some (SendToCharging r) | _ \<Rightarrow> None)
      else if tool = ''start_negotiation'' then
        (case (str ''deadlock_or_escalation_id'' None, str ''starter'' None, str ''context'' (Some '''')) of
           (Some (Some i), Some (Some st), Some (Some c)) \<Rightarrow> Some (StartNegotiation i st c)
         | _ \<Rightarrow> None)
      else None)"

definition wire_call_of :: "tool_request \<Rightarrow> wire_call" where
  "wire_call_of r = (case bind_keywords (tr_tool r) (tr_args r) of None \<Rightarrow> Named (tr_tool r) | Some c \<Rightarrow> Bound c)"

definition gen_arg :: "tool_request \<Rightarrow> int option" where
  "gen_arg r = (case dget (tr_args r) ''gen_id'' of PInt g \<Rightarrow> Some g | _ \<Rightarrow> None)"

definition key_arg :: "tool_request \<Rightarrow> string option" where
  "key_arg r = (case dget (tr_args r) ''idempotency_key'' of PStr k \<Rightarrow> Some k | _ \<Rightarrow> None)"

text \<open>
  \<open>DispatchToolExecutor\<close> over the tool server; \<open>env k\<close> is what the clock and the state store show at
  the \<open>k\<close>-th call of the process.
\<close>

definition dispatch_execute ::
    "(string \<Rightarrow> iso_time) \<Rightarrow> (nat \<Rightarrow> env) \<Rightarrow> nat \<Rightarrow> server \<Rightarrow> tool_request \<Rightarrow> payload result \<times> server" where
  "dispatch_execute parse_ts env k s r =
     wire_dispatch parse_ts (env k) s (wire_call_of r) (gen_arg r) (key_arg r)"

definition publish_gen :: "int \<Rightarrow> server \<Rightarrow> server" where
  "publish_gen n s = s\<lparr>chk := (chk s)\<lparr>gen_store := gen_set (gen_store (chk s)) n\<rparr>\<rparr>"

section \<open>Timing\<close>

definition CYCLE_WAIT_SEC :: "(string \<times> pyfloat) list" where
  "CYCLE_WAIT_SEC = [(''none'', Fin 1), (''simple'', Fin 1), (''open-rmf'', Fin 3)]"

definition DEFAULT_CYCLE_WAIT_SEC :: pyfloat where "DEFAULT_CYCLE_WAIT_SEC = Fin 1"
definition RETRY_WAIT_SEC :: pyfloat where "RETRY_WAIT_SEC = Fin 1"
definition CYCLE_TIMEOUT_SEC :: pyfloat where "CYCLE_TIMEOUT_SEC = Fin (5/2)"
definition EXPECTED_RESPONSE_SEC :: pyfloat where "EXPECTED_RESPONSE_SEC = Fin 2"
definition MIN_CYCLE_WAIT_SEC :: pyfloat where "MIN_CYCLE_WAIT_SEC = Fin 0"
definition OUTAGE_NO_RESPONSE_SEC :: pyfloat where "OUTAGE_NO_RESPONSE_SEC = Fin 5"
definition HISTORY_MAXLEN :: nat where "HISTORY_MAXLEN = 5"
definition CHARGING_TASK :: string where "CHARGING_TASK = ''charging_station''"
definition GEN_ACCEPT_WINDOW :: int where "GEN_ACCEPT_WINDOW = 2"
definition MODE_A_TRAFFIC_MODES :: "string list" where "MODE_A_TRAFFIC_MODES = [''none'', ''simple'']"

definition resolve_cycle_wait :: "pyval \<Rightarrow> string \<Rightarrow> pyfloat result" where
  "resolve_cycle_wait cfg mode =
     (let default_wait = (case map_of CYCLE_WAIT_SEC mode of None \<Rightarrow> DEFAULT_CYCLE_WAIT_SEC | Some w \<Rightarrow> w);
          block = (case cfg of PDict d \<Rightarrow> dget d ''cycle'' | _ \<Rightarrow> PNone)
      in case block of
           PDict d \<Rightarrow>
             let span = dget d (if mode \<in> set MODE_A_TRAFFIC_MODES then ''mode_a_seconds'' else ''mode_c_seconds'') in
             if \<not> is_number span then Inr default_wait
             else bindR (to_float span) (\<lambda>x.
               if \<not> isfinite x \<or> x \<le> Fin 0 then Inr default_wait
               else Inr (py_max MIN_CYCLE_WAIT_SEC (x - EXPECTED_RESPONSE_SEC)))
         | _ \<Rightarrow> Inr default_wait)"

fun py_ceil :: "pyfloat \<Rightarrow> int result" where
  "py_ceil (Fin x) = Inr \<lceil>x\<rceil>"
| "py_ceil NaN = Inl ValueError"
| "py_ceil _ = Inl OverflowError"

definition outage_threshold :: "pyfloat \<Rightarrow> pyfloat \<Rightarrow> int result" where
  "outage_threshold no_response cycle_timeout =
     (let timeout = (if Fin 0 < cycle_timeout then cycle_timeout else CYCLE_TIMEOUT_SEC) in
      bindR (fdiv no_response timeout) (\<lambda>q. bindR (py_ceil q) (\<lambda>n. Inr (max 1 n))))"

section \<open>The seeded queue\<close>

definition parse_pending_task :: "pyval \<Rightarrow> pending_task result" where
  "parse_pending_task v =
     (case v of
        PDict d \<Rightarrow>
          (case (dget d ''id'', (case map_of d ''from'' of None \<Rightarrow> dget d ''from_'' | Some x \<Rightarrow> x), dget d ''to'') of
             (PStr i, PStr f, PStr t) \<Rightarrow> Inr \<lparr>pt_id = i, pt_from = f, pt_to = t\<rparr>
           | _ \<Rightarrow> Inl ValueError)
      | _ \<Rightarrow> Inl ValueError)"

fun parse_each :: "pyval list \<Rightarrow> pending_task list result" where
  "parse_each [] = Inr []"
| "parse_each (v # vs) = bindR (parse_pending_task v) (\<lambda>t. bindR (parse_each vs) (\<lambda>ts. Inr (t # ts)))"

text \<open>The environment variable: absent or empty, no JSON, or a parsed document.\<close>

definition parse_seed_tasks :: "pyval option option \<Rightarrow> pending_task list result" where
  "parse_seed_tasks raw =
     (case raw of
        None \<Rightarrow> Inr []
      | Some None \<Rightarrow> Inl ValueError
      | Some (Some (PList vs)) \<Rightarrow> parse_each vs
      | Some (Some _) \<Rightarrow> Inl ValueError)"

section \<open>The scheduler\<close>

record proposal =
  pr_id :: string
  pr_gen :: int

definition accept_proposal :: "proposal \<Rightarrow> int \<Rightarrow> bool" where
  "accept_proposal p current \<longleftrightarrow> \<bar>current - pr_gen p\<bar> \<le> GEN_ACCEPT_WINDOW"

record lifecycle_row =
  lr_event :: string
  lr_task_id :: pyval
  lr_actor :: string
  lr_gen :: int
  lr_pending :: "pending_task option"

record scheduler =
  sc_gen :: int
  sc_turn :: int
  sc_nav2_only :: bool
  sc_last :: "command option"
  sc_failures :: nat
  sc_history :: "history_entry list"
  sc_current :: "(string, string) pydict"
  sc_pending :: "pending_task list"
  sc_proposal :: "proposal option"
  sc_outage_after :: int
  sc_minted :: nat
  sc_event_log :: bool
  sc_rows :: "lifecycle_row list"
  sc_reasoning :: "string list"
  sc_commands :: "command list"
  sc_asked :: "situation list"

definition init_scheduler :: "pending_task list \<Rightarrow> bool \<Rightarrow> pyfloat \<Rightarrow> pyfloat \<Rightarrow> scheduler result" where
  "init_scheduler pending event_log cycle_timeout no_response =
     bindR (outage_threshold no_response cycle_timeout) (\<lambda>n.
       Inr \<lparr>sc_gen = 0, sc_turn = 0, sc_nav2_only = False, sc_last = None, sc_failures = 0, sc_history = [],
            sc_current = [], sc_pending = pending, sc_proposal = None, sc_outage_after = n, sc_minted = 0,
            sc_event_log = event_log, sc_rows = [], sc_reasoning = [], sc_commands = [], sc_asked = []\<rparr>)"

definition is_ok :: "payload \<Rightarrow> bool" where
  "is_ok res \<longleftrightarrow> dget res ''status'' = PStr ''ok''"

definition describe_action :: "command_item \<Rightarrow> string" where
  "describe_action i =
     (let pick = (\<lambda>s. case s of Some t \<Rightarrow> if t \<noteq> [] then Some t else None | None \<Rightarrow> None);
          target = (case pick (ci_destination i) of None \<Rightarrow> pick (ci_retreat_to i) | Some t \<Rightarrow> Some t);
          label = ci_bot i @ '' '' @ action_value (ci_action i)
      in case target of None \<Rightarrow> label | Some t \<Rightarrow> label @ '' '' @ t)"

definition track_current_task :: "command_item \<Rightarrow> payload \<Rightarrow> scheduler \<Rightarrow> scheduler" where
  "track_current_task i res sc =
     (if \<not> is_ok res then sc
      else case (ci_action i, ci_destination i, ci_retreat_to i) of
          (NAVIGATE, Some d, _) \<Rightarrow> sc\<lparr>sc_current := AList.update (ci_bot i) d (sc_current sc)\<rparr>
        | (YIELD, _, Some d) \<Rightarrow> sc\<lparr>sc_current := AList.update (ci_bot i) d (sc_current sc)\<rparr>
        | (CHARGE, _, _) \<Rightarrow> sc\<lparr>sc_current := AList.update (ci_bot i) CHARGING_TASK (sc_current sc)\<rparr>
        | (STOP, _, _) \<Rightarrow> sc\<lparr>sc_current := AList.delete (ci_bot i) (sc_current sc)\<rparr>
        | _ \<Rightarrow> sc)"

text \<open>The first queued task that goes to \<open>d\<close>, and the queue without it.\<close>

fun pop_task :: "string \<Rightarrow> pending_task list \<Rightarrow> pending_task option \<times> pending_task list" where
  "pop_task d [] = (None, [])"
| "pop_task d (t # ts) =
     (if pt_to t = d then (Some t, ts) else let (c, ts') = pop_task d ts in (c, t # ts'))"

definition consume_pending_task :: "command_item \<Rightarrow> payload \<Rightarrow> scheduler \<Rightarrow> pending_task option \<times> scheduler" where
  "consume_pending_task i res sc =
     (if \<not> is_ok res \<or> ci_action i \<noteq> NAVIGATE then (None, sc)
      else case ci_destination i of
          None \<Rightarrow> (None, sc)
        | Some d \<Rightarrow> (let (c, ts) = pop_task d (sc_pending sc) in (c, sc\<lparr>sc_pending := ts\<rparr>)))"

definition record_task_lifecycle ::
    "command_item \<Rightarrow> payload \<Rightarrow> pending_task option \<Rightarrow> int \<Rightarrow> scheduler \<Rightarrow> scheduler" where
  "record_task_lifecycle i res consumed gen sc =
     (if \<not> sc_event_log sc \<or> \<not> is_ok res then sc
      else
        let assigned = (case consumed of None \<Rightarrow> []
              | Some t \<Rightarrow> [\<lparr>lr_event = ''task_assigned'', lr_task_id = PStr (pt_id t), lr_actor = ci_bot i,
                            lr_gen = gen, lr_pending = consumed\<rparr>]);
            tid = (case consumed of None \<Rightarrow> dget res ''task_id'' | Some t \<Rightarrow> PStr (pt_id t));
            event = (if ci_action i = NAVIGATE \<or> ci_action i = CHARGE then ''task_started'' else ''task_paused'')
        in sc\<lparr>sc_rows := sc_rows sc @ assigned @
              [\<lparr>lr_event = event, lr_task_id = tid, lr_actor = ci_bot i, lr_gen = gen, lr_pending = consumed\<rparr>]\<rparr>)"

definition push_history :: "history_entry \<Rightarrow> scheduler \<Rightarrow> scheduler" where
  "push_history e sc =
     (let h = sc_history sc @ [e] in sc\<lparr>sc_history := drop (length h - HISTORY_MAXLEN) h\<rparr>)"

definition after_result :: "int \<Rightarrow> command_item \<Rightarrow> payload \<Rightarrow> scheduler \<Rightarrow> scheduler" where
  "after_result gen i res sc =
     (let sc = track_current_task i res sc;
          (consumed, sc) = consume_pending_task i res sc;
          sc = record_task_lifecycle i res consumed gen sc
      in push_history \<lparr>he_turn = sc_turn sc, he_action = describe_action i,
           he_result = (case map_of res ''status'' of None \<Rightarrow> PStr ''unknown'' | Some v \<Rightarrow> v)\<rparr> sc)"

type_synonym 's exec = "nat \<Rightarrow> 's \<Rightarrow> tool_request \<Rightarrow> payload result \<times> 's"

fun dispatch_items ::
    "'s exec \<Rightarrow> int \<Rightarrow> nat \<Rightarrow> (command_item \<times> tool_request) list \<Rightarrow> scheduler \<Rightarrow> 's \<Rightarrow>
     payload list result \<times> scheduler \<times> 's" where
  "dispatch_items exec gen n [] sc s = (Inr [], sc, s)"
| "dispatch_items exec gen n ((i, r) # rest) sc s =
     (case exec n s r of
        (Inl e, s) \<Rightarrow> (Inl e, sc, s)
      | (Inr res, s) \<Rightarrow>
          (case dispatch_items exec gen (Suc n) rest (after_result gen i res sc) s of
             (Inl e, sc, s) \<Rightarrow> (Inl e, sc, s)
           | (Inr results, sc, s) \<Rightarrow> (Inr (res # results), sc, s)))"

definition maybe_start_negotiation ::
    "'s exec \<Rightarrow> (nat \<Rightarrow> string) \<Rightarrow> command \<Rightarrow> int \<Rightarrow> payload list \<Rightarrow> scheduler \<Rightarrow> 's \<Rightarrow>
     payload list result \<times> scheduler \<times> 's" where
  "maybe_start_negotiation exec mint c gen results sc s =
     (case cm_start c of
        None \<Rightarrow> (Inr results, sc, s)
      | Some rq \<Rightarrow>
          let n = sc_minted sc; sc = sc\<lparr>sc_minted := Suc n\<rparr> in
          (case exec n s (start_negotiation_tool_call rq gen (mint n)) of
             (Inl e, s) \<Rightarrow> (Inl e, sc, s)
           | (Inr res, s) \<Rightarrow> (Inr (results @ [res]), sc, s)))"

definition dispatch_command ::
    "'s exec \<Rightarrow> (nat \<Rightarrow> string) \<Rightarrow> command \<Rightarrow> int \<Rightarrow> scheduler \<Rightarrow> 's \<Rightarrow> payload list result \<times> scheduler \<times> 's" where
  "dispatch_command exec mint c gen sc s =
     (let n = sc_minted sc;
          calls = command_to_tool_calls mint n (cm_commands c) gen;
          sc = sc\<lparr>sc_reasoning := sc_reasoning sc @ [cm_reasoning c], sc_commands := sc_commands sc @ [c],
                  sc_minted := n + length calls\<rparr>
      in case dispatch_items exec gen n (zip (cm_commands c) calls) sc s of
           (Inl e, sc, s) \<Rightarrow> (Inl e, sc, s)
         | (Inr results, sc, s) \<Rightarrow> maybe_start_negotiation exec mint c gen results sc s)"

definition on_llm_timeout :: "scheduler \<Rightarrow> scheduler" where
  "on_llm_timeout sc =
     (let n = Suc (sc_failures sc) in
      sc\<lparr>sc_failures := n, sc_nav2_only := (if sc_outage_after sc \<le> int n then True else sc_nav2_only sc)\<rparr>)"

definition on_outage :: "scheduler \<Rightarrow> scheduler" where
  "on_outage sc = sc\<lparr>sc_failures := Suc (sc_failures sc), sc_nav2_only := True\<rparr>"

definition on_invalid_response :: "scheduler \<Rightarrow> scheduler" where
  "on_invalid_response sc = sc\<lparr>sc_failures := Suc (sc_failures sc)\<rparr>"

definition maybe_attach_proposal :: "situation \<Rightarrow> int \<Rightarrow> scheduler \<Rightarrow> situation \<times> scheduler" where
  "maybe_attach_proposal si gen sc =
     (case sc_proposal sc of
        None \<Rightarrow> (si, sc)
      | Some p \<Rightarrow>
          let sc = sc\<lparr>sc_proposal := None\<rparr> in
          if \<not> accept_proposal p gen then (si, sc) else (si\<lparr>si_proposal := Some (pr_id p)\<rparr>, sc))"

text \<open>
  What comes back from the model within a cycle: nothing in time, no service, an answer that is no
  document of the command's shape, or a document of that shape.
\<close>

datatype answer = TimedOut | Unavailable | Malformed | Answer command

definition run_cycle ::
    "'s exec \<Rightarrow> (int \<Rightarrow> 's \<Rightarrow> 's) \<Rightarrow> (string \<Rightarrow> bool) \<Rightarrow> (nat \<Rightarrow> string) \<Rightarrow> libm \<Rightarrow> builder \<Rightarrow>
     raw_state option \<Rightarrow> answer \<Rightarrow> scheduler \<Rightarrow> 's \<Rightarrow> bool result \<times> scheduler \<times> 's" where
  "run_cycle exec publish uuid_ok mint lib b raw ans sc s =
     (let gen = sc_gen sc + 1;
          sc = sc\<lparr>sc_gen := gen, sc_turn := sc_turn sc + 1\<rparr>;
          s = publish gen s
      in case build_situation lib b raw (sc_turn sc) gen (sc_history sc) (sc_pending sc) (sc_current sc) of
           Inl e \<Rightarrow> (Inl e, sc, s)
         | Inr None \<Rightarrow> (Inr False, sc, s)
         | Inr (Some si) \<Rightarrow>
             let (si, sc) = maybe_attach_proposal si gen sc;
                 sc = sc\<lparr>sc_asked := sc_asked sc @ [si]\<rparr>
             in case ans of
                  TimedOut \<Rightarrow> (Inr False, on_llm_timeout sc, s)
                | Unavailable \<Rightarrow> (Inr False, on_outage sc, s)
                | Malformed \<Rightarrow> (Inr False, on_invalid_response sc, s)
                | Answer c \<Rightarrow>
                    if \<not> command_valid uuid_ok c then (Inr False, on_invalid_response sc, s)
                    else case dispatch_command exec mint c gen sc s of
                        (Inl e, sc, s) \<Rightarrow> (Inl e, sc, s)
                      | (Inr _, sc, s) \<Rightarrow>
                          (Inr True, sc\<lparr>sc_last := Some c, sc_failures := 0, sc_nav2_only := False\<rparr>, s))"

definition set_negotiation_proposal :: "proposal option \<Rightarrow> scheduler \<Rightarrow> scheduler" where
  "set_negotiation_proposal p sc = sc\<lparr>sc_proposal := p\<rparr>"

text \<open>
  \<open>run_forever\<close> over the inputs that arrive: cycles, and proposals between them. An exception that
  leaves a cycle ends the loop, which then runs no further cycle.
\<close>

datatype bridge_event = Cycle "raw_state option" answer | Offer "proposal option"

fun run_events ::
    "'s exec \<Rightarrow> (int \<Rightarrow> 's \<Rightarrow> 's) \<Rightarrow> (string \<Rightarrow> bool) \<Rightarrow> (nat \<Rightarrow> string) \<Rightarrow> libm \<Rightarrow> builder \<Rightarrow>
     bridge_event list \<Rightarrow> scheduler \<Rightarrow> 's \<Rightarrow> bool list result \<times> scheduler \<times> 's" where
  "run_events exec publish uuid_ok mint lib b [] sc s = (Inr [], sc, s)"
| "run_events exec publish uuid_ok mint lib b (Offer p # es) sc s =
     run_events exec publish uuid_ok mint lib b es (set_negotiation_proposal p sc) s"
| "run_events exec publish uuid_ok mint lib b (Cycle raw ans # es) sc s =
     (case run_cycle exec publish uuid_ok mint lib b raw ans sc s of
        (Inl e, sc, s) \<Rightarrow> (Inl e, sc, s)
      | (Inr productive, sc, s) \<Rightarrow>
          (case run_events exec publish uuid_ok mint lib b es sc s of
             (Inl e, sc, s) \<Rightarrow> (Inl e, sc, s)
           | (Inr ps, sc, s) \<Rightarrow> (Inr (productive # ps), sc, s)))"

definition cycle_sleep :: "pyfloat \<Rightarrow> pyfloat \<Rightarrow> bool \<Rightarrow> pyfloat" where
  "cycle_sleep cycle_wait retry_wait productive = (if productive then cycle_wait else retry_wait)"

end
