(* ===== verification/PlanPipeline.thy ===== *)
theory PlanPipeline
  imports Handoff VisualResolverProps Scheduler
begin

text \<open>
  The end of the L3 planning core: the policy layers (\<open>validator/policy.py\<close>), the command compiler
  (\<open>command_compiler/compiler.py\<close>, \<open>models.py\<close>) and the chain of all stages (\<open>pipeline.py\<close>), from a model's
  raw answer to a command of the frozen schema.
\<close>

section \<open>Policy layers\<close>

text \<open>\<open>PlanPolicyOverlay\<close>: an absent field inherits. The emergency allowlist has no overlay field.\<close>

record policy_overlay =
  ov_known_robots :: "string list option"
  ov_known_locations :: "string list option"
  ov_allowed_actions :: "string list option"
  ov_min_detection_confidence :: "pyfloat option"
  ov_low_confidence_effect :: "dispatch_effect option"
  ov_max_state_age_s :: "pyfloat option"
  ov_profile_id :: "string option"
  ov_policy_version :: "string option"

fun or_else :: "'a option \<Rightarrow> 'a \<Rightarrow> 'a" where
  "or_else None x = x"
| "or_else (Some y) x = y"

definition apply_overlay :: "plan_policy \<Rightarrow> policy_overlay \<Rightarrow> plan_policy" where
  "apply_overlay p v = p
     \<lparr>known_robots := or_else (ov_known_robots v) (known_robots p),
      known_locations := or_else (ov_known_locations v) (known_locations p),
      allowed_actions := or_else (ov_allowed_actions v) (allowed_actions p),
      min_detection_confidence := (case ov_min_detection_confidence v of None \<Rightarrow> min_detection_confidence p | c \<Rightarrow> c),
      low_confidence_effect := or_else (ov_low_confidence_effect v) (low_confidence_effect p),
      max_state_age_s := (case ov_max_state_age_s v of None \<Rightarrow> max_state_age_s p | a \<Rightarrow> a),
      profile_id := or_else (ov_profile_id v) (profile_id p),
      policy_version := or_else (ov_policy_version v) (policy_version p)\<rparr>"

definition merge_policy :: "plan_policy \<Rightarrow> policy_overlay list \<Rightarrow> plan_policy result" where
  "merge_policy base overlays = make_policy (foldl apply_overlay base overlays)"

definition warehouse_reference_policy :: plan_policy where
  "warehouse_reference_policy =
     \<lparr>known_robots = [''bot1'', ''bot2''], known_locations = LOCATION_NAMES,
      allowed_actions = map action_value [NAVIGATE, WAIT, STOP, YIELD, CHARGE], emergency_stop_allowlist = [],
      min_detection_confidence = None, low_confidence_effect = BLOCK, max_state_age_s = None,
      profile_id = ''default'', policy_version = ''0''\<rparr>"

section \<open>The compiler\<close>

datatype execution_profile = X_LITE | X_RMF

datatype skip_reason =
    ActionNotCompiled string | NoRobot | NoVisualTarget | TargetAbsent string | TargetUnresolved string
  | UnknownDestination string

record compilation =
  cr_command :: command
  cr_compiled :: "string list"
  cr_skipped :: "(string \<times> skip_reason) list"

definition by_target :: "resolved_target list \<Rightarrow> (string, resolved_target) pydict" where
  "by_target ts = foldl (\<lambda>d t. AList.update (rs_target t) t d) [] ts"

definition navigate_item :: "string \<Rightarrow> string \<Rightarrow> command_item" where
  "navigate_item robot destination =
     \<lparr>ci_bot = robot, ci_action = NAVIGATE, ci_destination = Some destination, ci_via = None, ci_duration = None,
      ci_retreat_to = None, ci_key = None\<rparr>"

definition compile_one :: "(string, resolved_target) pydict \<Rightarrow> ready_task \<Rightarrow> skip_reason + command_item" where
  "compile_one targets t =
     (if rt_action t \<noteq> action_value NAVIGATE then Inl (ActionNotCompiled (rt_action t))
      else if rt_robot t = [] then Inl NoRobot
      else case rt_target t of
          None \<Rightarrow> Inl NoVisualTarget
        | Some target_id \<Rightarrow>
            if target_id = [] then Inl NoVisualTarget
            else case map_of targets target_id of
                None \<Rightarrow> Inl (TargetAbsent target_id)
              | Some resolved \<Rightarrow>
                  (case rs_destination resolved of
                     None \<Rightarrow> Inl (TargetUnresolved target_id)
                   | Some destination \<Rightarrow>
                       if rs_kind resolved \<noteq> KNOWN_LOCATION then Inl (TargetUnresolved target_id)
                       else if \<not> is_known_location destination then Inl (UnknownDestination destination)
                       else Inr (navigate_item (rt_robot t) destination)))"

fun compile_loop ::
    "(string, resolved_target) pydict \<Rightarrow> ready_task list \<Rightarrow>
       command_item list \<times> string list \<times> (string \<times> skip_reason) list" where
  "compile_loop targets [] = ([], [], [])"
| "compile_loop targets (t # ts) =
     (let (items, compiled, skipped) = compile_loop targets ts in
      case compile_one targets t of
        Inr item \<Rightarrow> (item # items, rt_id t # compiled, skipped)
      | Inl why \<Rightarrow> (items, compiled, (rt_id t, why) # skipped))"

definition compile_reasoning :: "string list \<Rightarrow> (string \<times> skip_reason) list \<Rightarrow> string" where
  "compile_reasoning compiled skipped =
     ''Mode X-ER x_lite compile: '' @ decimal (length compiled) @ '' navigate command(s)''
     @ (if compiled = [] then [] else '' from tasks ['' @ py_join '', '' compiled @ '']'')
     @ (if skipped = [] then [] else ''; skipped ['' @ py_join '', '' (map fst skipped) @ '']'')"

definition compile_with_audit ::
    "execution_profile \<Rightarrow> ready_task list \<Rightarrow> resolved_target list \<Rightarrow> compilation result" where
  "compile_with_audit profile tasks targets =
     (if profile \<noteq> X_LITE then Inl NotImplementedError
      else
        let (items, compiled, skipped) = compile_loop (by_target targets) tasks in
        Inr \<lparr>cr_command = \<lparr>cm_reasoning = compile_reasoning compiled skipped, cm_commands = items,
               cm_priority = (if compiled = [] then None else Some ''visual targets resolved to known locations''),
               cm_start = None\<rparr>,
             cr_compiled = compiled, cr_skipped = skipped\<rparr>)"

section \<open>The pipeline\<close>

fun validation_status_value :: "validation_status \<Rightarrow> string" where
  "validation_status_value ACCEPTED = ''accepted''"
| "validation_status_value REJECTED = ''rejected''"
| "validation_status_value CLARIFICATION_STATUS = ''needs_clarification''"
| "validation_status_value EMERGENCY_STATUS = ''emergency_stop''"

type_synonym plan_parser = "(string \<times> pyval) list \<Rightarrow> plan_draft result"
type_synonym json_reader = "string \<Rightarrow> pyval option"

definition validate_raw_output ::
    "json_reader \<Rightarrow> plan_parser \<Rightarrow> planning_context \<Rightarrow> raw_output \<Rightarrow> validation_report result" where
  "validate_raw_output loads parse ctx raw =
     bindR (to_robotics_plan_draft loads parse raw) (\<lambda>draft. validate draft ctx)"

definition clean_context :: planning_context where
  "clean_context = \<lparr>policy = warehouse_reference_policy, emergency_active = False, state_age_s = None\<rparr>"

definition empty_command :: "string \<Rightarrow> command" where
  "empty_command why = \<lparr>cm_reasoning = why, cm_commands = [], cm_priority = None, cm_start = None\<rparr>"

text \<open>
  What the caller injects: nothing (a fresh store that is dropped afterwards), an executor with its
  store, a store, or both, which is refused. The result carries the store as the call leaves it.
\<close>

datatype injection = NothingInjected | ExecutorInjected graph_store | StoreInjected graph_store
  | BothInjected graph_store graph_store

fun injected_store :: "injection \<Rightarrow> graph_store" where
  "injected_store NothingInjected = []"
| "injected_store (ExecutorInjected st) = st"
| "injected_store (StoreInjected st) = st"
| "injected_store (BothInjected st _) = st"

fun both_injected :: "injection \<Rightarrow> bool" where
  "both_injected (BothInjected _ _) = True"
| "both_injected _ = False"

definition compile_raw_output ::
    "libm \<Rightarrow> json_reader \<Rightarrow> plan_parser \<Rightarrow> visual_policy \<Rightarrow> calibration \<Rightarrow> planning_context \<Rightarrow>
     execution_profile \<Rightarrow> injection \<Rightarrow> raw_output \<Rightarrow> command result \<times> graph_store" where
  "compile_raw_output lib loads parse vpol cal ctx profile injected raw =
     (let st = injected_store injected in
      if both_injected injected then (Inl ValueError, st)
      else case to_robotics_plan_draft loads parse raw of
          Inl e \<Rightarrow> (Inl e, st)
        | Inr draft \<Rightarrow>
          (case validate draft ctx of
             Inl e \<Rightarrow> (Inl e, st)
           | Inr rep \<Rightarrow>
             if \<not> permits_dispatch rep
             then (Inr (empty_command (''Mode X-ER: plan not dispatched (validation status=''
                     @ validation_status_value (status rep) @ '')'')), st)
             else case resolve lib vpol draft cal of
                 Inl e \<Rightarrow> (Inl e, st)
               | Inr resolution \<Rightarrow>
                 (case load_state (plan_id draft) st of
                    Inl e \<Rightarrow> (Inl e, st)
                  | Inr s \<Rightarrow>
                    (let (ready, s) = ready_tasks (plan_id draft) (task_graph draft) s in
                     (bindR (compile_with_audit profile ready resolution) (\<lambda>r. Inr (cr_command r)), store s)))))"

end
