(* ===== verification/PlanPipelineProps.thy ===== *)
theory PlanPipelineProps
  imports PlanPipeline
begin

text \<open>
  What the planning core guarantees about a command it emits: the plan was admissible, every item is a
  navigation of a planned robot to a known location that a detection was snapped to, the audit of the
  compiler is complete, and a plan that is not accepted leaves no trace in the store.
\<close>

section \<open>The compiler\<close>

lemma list_all2_right: "list_all2 P xs ys \<Longrightarrow> y \<in> set ys \<Longrightarrow> \<exists>x \<in> set xs. P x y"
  by (induction rule: list_all2_induct) auto

lemma ready_from_nodes: "t \<in> set (fst (ready_loop ns emitted r)) \<Longrightarrow> \<exists>n \<in> set ns. t = from_node n"
  by (induction ns emitted r rule: ready_loop.induct) (auto simp: Let_def split: if_splits prod.splits)

lemma compile_one_Inr:
  "compile_one targets t = Inr i \<longleftrightarrow>
     rt_action t = action_value NAVIGATE \<and> rt_robot t \<noteq> [] \<and>
     (\<exists>target_id resolved name. rt_target t = Some target_id \<and> target_id \<noteq> [] \<and> map_of targets target_id = Some resolved
        \<and> rs_destination resolved = Some name \<and> rs_kind resolved = KNOWN_LOCATION \<and> is_known_location name
        \<and> i = navigate_item (rt_robot t) name)"
  by (auto simp: compile_one_def split: option.splits)

definition compiles :: "(string, resolved_target) pydict \<Rightarrow> ready_task \<Rightarrow> bool" where
  "compiles targets t \<longleftrightarrow> \<not> isl (compile_one targets t)"

lemma compile_loop_spec:
  "compile_loop targets ts = (items, compiled, skipped) \<Longrightarrow>
     compiled = map rt_id (filter (compiles targets) ts)
     \<and> list_all2 (\<lambda>t i. compile_one targets t = Inr i) (filter (compiles targets) ts) items
     \<and> skipped = map (\<lambda>t. (rt_id t, projl (compile_one targets t))) (filter (\<lambda>t. \<not> compiles targets t) ts)"
proof (induction ts arbitrary: items compiled skipped)
  case (Cons t ts)
  obtain js cs ss where r: "compile_loop targets ts = (js, cs, ss)" by (metis prod_cases3)
  show ?case
  proof (cases "compile_one targets t")
    case (Inl why)
    then show ?thesis using Cons.prems Cons.IH [OF r] by (auto simp: r compiles_def)
  next
    case (Inr i)
    then show ?thesis using Cons.prems Cons.IH [OF r] by (auto simp: r compiles_def)
  qed
qed simp

lemma by_target_mem: "map_of (by_target ts) k = Some t \<Longrightarrow> t \<in> set ts \<and> rs_target t = k"
proof -
  have "map_of (foldl (\<lambda>d t. AList.update (rs_target t) t d) d ts) k = Some t \<Longrightarrow>
      t \<in> set ts \<and> rs_target t = k \<or> map_of d k = Some t" for d
  proof (induction ts arbitrary: d)
    case (Cons u ts)
    then show ?case by (force simp: update_conv' split: if_splits)
  qed simp
  from this [of "[]"] show "map_of (by_target ts) k = Some t \<Longrightarrow> t \<in> set ts \<and> rs_target t = k"
    by (simp add: by_target_def)
qed

text \<open>Each ready task is compiled or skipped, never both, in order; each item passes the schema.\<close>

lemma audit_complete:
  assumes "compile_with_audit profile tasks targets = Inr r"
  shows "cr_compiled r = map rt_id (filter (compiles (by_target targets)) tasks)"
    and "map fst (cr_skipped r) = map rt_id (filter (\<lambda>t. \<not> compiles (by_target targets) t) tasks)"
    and "list_all2 (\<lambda>t i. compile_one (by_target targets) t = Inr i) (filter (compiles (by_target targets)) tasks)
           (cm_commands (cr_command r))"
    and "command_valid uuid_ok (cr_command r)"
proof -
  obtain js cs ss where l: "compile_loop (by_target targets) tasks = (js, cs, ss)" by (metis prod_cases3)
  have r: "cr_compiled r = cs" "cr_skipped r = ss" "cm_commands (cr_command r) = js"
    using assms by (auto simp: compile_with_audit_def l split: if_splits)
  note spec = compile_loop_spec [OF l]
  show "cr_compiled r = map rt_id (filter (compiles (by_target targets)) tasks)" using spec by (simp add: r)
  show "map fst (cr_skipped r) = map rt_id (filter (\<lambda>t. \<not> compiles (by_target targets) t) tasks)"
    using spec by (simp add: r comp_def)
  show "list_all2 (\<lambda>t i. compile_one (by_target targets) t = Inr i) (filter (compiles (by_target targets)) tasks)
           (cm_commands (cr_command r))" using spec by (simp add: r)
  then have "\<exists>t. compile_one (by_target targets) t = Inr i" if "i \<in> set (cm_commands (cr_command r))" for i
    using list_all2_right [OF _ that] by blast
  then have "item_valid uuid_ok i" if "i \<in> set (cm_commands (cr_command r))" for i
    using that by (fastforce simp: compile_one_Inr navigate_item_def item_valid_def)
  then show "command_valid uuid_ok (cr_command r)" by (simp add: command_valid_def list_all_iff)
qed

section \<open>The whole chain\<close>

definition grounded :: "libm \<Rightarrow> visual_policy \<Rightarrow> calibration \<Rightarrow> plan_draft \<Rightarrow> command_item \<Rightarrow> bool" where
  "grounded lib vpol cal draft i \<longleftrightarrow>
     ci_action i = NAVIGATE \<and>
     (\<exists>n \<in> set (task_graph draft). ci_bot i = node_robot n \<and> node_action n = action_value NAVIGATE \<and>
       (\<exists>d \<in> set (detections draft). node_target n = Some (det_id d) \<and>
         (\<exists>name x y. ci_destination i = Some name \<and> on_map vpol cal d x y \<and> snapped lib vpol x y name
            \<and> class_agrees vpol d name)))"

lemma compiled_grounded:
  assumes res: "resolve lib vpol draft cal = Inr targets"
    and c: "compile_with_audit profile (fst (ready_loop (task_graph draft) emitted r)) targets = Inr a"
    and i: "i \<in> set (cm_commands (cr_command a))"
  shows "grounded lib vpol cal draft i"
proof -
  obtain t where t: "t \<in> set (fst (ready_loop (task_graph draft) emitted r))" "compile_one (by_target targets) t = Inr i"
    using list_all2_right [OF audit_complete(3) [OF c] i] by auto
  obtain n where n: "n \<in> set (task_graph draft)" "t = from_node n" using ready_from_nodes [OF t(1)] by blast
  obtain target_id resolved name where u: "node_action n = action_value NAVIGATE" "node_target n = Some target_id"
      "map_of (by_target targets) target_id = Some resolved" "rs_destination resolved = Some name"
      "i = navigate_item (node_robot n) name"
    using t(2) by (auto simp: compile_one_Inr n from_node_def)
  have m: "resolved \<in> set targets" "rs_target resolved = target_id" using by_target_mem [OF u(3)] by simp_all
  from destination_grounded [OF res m(1) u(4)] obtain d where "d \<in> set (detections draft)" "det_id d = target_id"
      "\<exists>x y. on_map vpol cal d x y \<and> snapped lib vpol x y name \<and> class_agrees vpol d name"
    by (auto simp: m)
  then show ?thesis using n u by (auto simp: grounded_def navigate_item_def)
qed

lemma accepted_iff:
  assumes "make_policy (policy ctx) = Inr (policy ctx)" and "validate draft ctx = Inr rep"
  shows "permits_dispatch rep \<longleftrightarrow> plan_admissible draft ctx"
  using validate_spec [of ctx draft] assms by (auto simp: make_policy_def permits_dispatch_def split: if_splits)

lemma compile_raw_cases:
  assumes "compile_raw_output lib loads parse vpol cal ctx profile injected raw = (Inr cmd, st')"
  obtains (withheld) draft rep where "to_robotics_plan_draft loads parse raw = Inr draft" "validate draft ctx = Inr rep"
      "\<not> permits_dispatch rep" "cm_commands cmd = []" "st' = injected_store injected"
    | (compiled) draft rep targets s a where "to_robotics_plan_draft loads parse raw = Inr draft" "validate draft ctx = Inr rep"
      "permits_dispatch rep" "resolve lib vpol draft cal = Inr targets"
      "load_state (plan_id draft) (injected_store injected) = Inr s"
      "compile_with_audit profile (fst (ready_tasks (plan_id draft) (task_graph draft) s)) targets = Inr a"
      "cmd = cr_command a" "st' = store (snd (ready_tasks (plan_id draft) (task_graph draft) s))"
  using assms
  by (auto simp: compile_raw_output_def Let_def bindR_Inr_iff empty_command_def
      split: if_splits sum.splits prod.splits)

text \<open>
  C3. A command of the planning core is grounded: if the chain emits one with an item in it, the plan was
  admissible (no emergency, fresh state, known robots, allowed actions, resolvable targets, acyclic), and each
  item sends the robot of a plan task to the known location nearest to a detection of that task's target,
  within the snap radius, mapped inside the calibrated polygon and of an agreeing class.
\<close>

theorem compiled_commands_grounded:
  assumes "make_policy (policy ctx) = Inr (policy ctx)"
    and "compile_raw_output lib loads parse vpol cal ctx profile injected raw = (Inr cmd, st')"
    and "i \<in> set (cm_commands cmd)"
  shows "\<exists>draft. to_robotics_plan_draft loads parse raw = Inr draft \<and> plan_admissible draft ctx
     \<and> ci_bot i \<in> set (known_robots (policy ctx)) \<and> grounded lib vpol cal draft i"
  using assms(2)
proof (cases rule: compile_raw_cases)
  case (withheld draft rep)
  then show ?thesis using assms(3) by simp
next
  case (compiled draft rep targets s a)
  have adm: "plan_admissible draft ctx" using accepted_iff [OF assms(1) compiled(2)] compiled(3) by simp
  have "compile_with_audit profile (fst (ready_loop (task_graph draft) [] (graph s))) targets = Inr a"
    using compiled(6) by (simp add: ready_tasks_def split: prod.splits)
  from compiled_grounded [OF compiled(4) this] have g: "grounded lib vpol cal draft i" using assms(3) compiled(7) by simp
  then have "ci_bot i \<in> set (known_robots (policy ctx))"
    using adm by (auto simp: grounded_def plan_admissible_def node_admissible_def)
  then show ?thesis using compiled(1) adm g by blast
qed

definition pipeline_raw :: raw_output where
  "pipeline_raw = sample_output [(''schema_version'', PStr ROBOTICS_PLAN_DRAFT_VERSION)]"

definition pipeline_result :: "command result \<times> graph_store" where
  "pipeline_result = compile_raw_output unit_libm (\<lambda>_. None) (\<lambda>_. Inr ex_draft) sample_visual_policy sample_calibration
     ex_context X_LITE NothingInjected pipeline_raw"

definition pipeline_command :: command where
  "pipeline_command = (case fst pipeline_result of Inr c \<Rightarrow> c | Inl _ \<Rightarrow> empty_command [])"

lemma pipeline_command_eq: "cm_commands pipeline_command = [navigate_item ''bot1'' ''shelf_1'']"
  by code_simp

theorem compiled_commands_grounded_witness:
  "\<exists>draft. to_robotics_plan_draft (\<lambda>_. None) (\<lambda>_. Inr ex_draft) pipeline_raw = Inr draft \<and> plan_admissible draft ex_context
     \<and> ci_bot (navigate_item ''bot1'' ''shelf_1'') \<in> set (known_robots (policy ex_context))
     \<and> grounded unit_libm sample_visual_policy sample_calibration draft (navigate_item ''bot1'' ''shelf_1'')"
proof (rule compiled_commands_grounded)
  show "make_policy (policy ex_context) = Inr (policy ex_context)"
    by (simp add: make_policy_def ex_context_def ex_policy_def)
  show "navigate_item ''bot1'' ''shelf_1'' \<in> set (cm_commands pipeline_command)" by (simp add: pipeline_command_eq)
  have "fst pipeline_result = Inr pipeline_command"
    using pipeline_command_eq by (auto simp: pipeline_command_def empty_command_def split: sum.splits)
  then show "compile_raw_output unit_libm (\<lambda>_. None) (\<lambda>_. Inr ex_draft) sample_visual_policy sample_calibration
      ex_context X_LITE NothingInjected pipeline_raw = (Inr pipeline_command, snd pipeline_result)"
    by (simp add: prod_eq_iff pipeline_result_def)
qed

text \<open>
  A plan that is not admissible is withheld without a trace: the chain returns an empty command and the
  injected store as it was, whatever the calibration and the resolver's policy.
\<close>

theorem withheld_plan_leaves_no_trace:
  assumes "make_policy (policy ctx) = Inr (policy ctx)" and "\<not> both_injected injected"
    and "to_robotics_plan_draft loads parse raw = Inr draft" and "\<not> plan_admissible draft ctx"
  shows "\<exists>cmd. compile_raw_output lib loads parse vpol cal ctx profile injected raw = (Inr cmd, injected_store injected)
     \<and> cm_commands cmd = []"
proof -
  obtain rep where rep: "validate draft ctx = Inr rep"
    using validate_spec [of ctx draft] assms(1) by (auto simp: make_policy_def split: if_splits)
  then have "\<not> permits_dispatch rep" using accepted_iff [OF assms(1) rep] assms(4) by simp
  then show ?thesis using assms(2,3) rep by (simp add: compile_raw_output_def empty_command_def)
qed

definition emergency_context :: planning_context where
  "emergency_context = ex_context\<lparr>emergency_active := True\<rparr>"

theorem withheld_plan_leaves_no_trace_witness:
  "\<exists>cmd. compile_raw_output unit_libm (\<lambda>_. None) (\<lambda>_. Inr ex_draft) sample_visual_policy sample_calibration
       emergency_context X_LITE (StoreInjected [(''p0'', PNone)]) pipeline_raw = (Inr cmd, injected_store (StoreInjected [(''p0'', PNone)]))
     \<and> cm_commands cmd = []"
proof (rule withheld_plan_leaves_no_trace)
  show "make_policy (policy emergency_context) = Inr (policy emergency_context)"
    by (simp add: make_policy_def emergency_context_def ex_context_def ex_policy_def)
  show "to_robotics_plan_draft (\<lambda>_. None) (\<lambda>_. Inr ex_draft) pipeline_raw = Inr ex_draft" by code_simp
  show "\<not> plan_admissible ex_draft emergency_context" by (simp add: plan_admissible_def emergency_context_def)
qed simp

section \<open>Policy layers\<close>

text \<open>
  No stack of overlays adds a plugin to the emergency allowlist, and none switches a threshold off.
\<close>

lemma overlays_keep_ceiling:
  assumes "merge_policy base vs = Inr p"
  shows "emergency_stop_allowlist p = emergency_stop_allowlist base"
    and "min_detection_confidence base \<noteq> None \<Longrightarrow> min_detection_confidence p \<noteq> None"
    and "max_state_age_s base \<noteq> None \<Longrightarrow> max_state_age_s p \<noteq> None"
    and "make_policy p = Inr p"
proof -
  have p: "p = foldl apply_overlay base vs" "make_policy p = Inr p"
    using assms by (auto simp: merge_policy_def make_policy_def split: if_splits)
  show "make_policy p = Inr p" by (rule p(2))
  have "emergency_stop_allowlist (foldl apply_overlay b vs) = emergency_stop_allowlist b
      \<and> (min_detection_confidence b \<noteq> None \<longrightarrow> min_detection_confidence (foldl apply_overlay b vs) \<noteq> None)
      \<and> (max_state_age_s b \<noteq> None \<longrightarrow> max_state_age_s (foldl apply_overlay b vs) \<noteq> None)" for b
    by (induction vs arbitrary: b) (auto simp: apply_overlay_def split: option.splits)
  then show "emergency_stop_allowlist p = emergency_stop_allowlist base"
    "min_detection_confidence base \<noteq> None \<Longrightarrow> min_detection_confidence p \<noteq> None"
    "max_state_age_s base \<noteq> None \<Longrightarrow> max_state_age_s p \<noteq> None"
    by (simp_all add: p)
qed

lemma reference_policy_valid: "make_policy warehouse_reference_policy = Inr warehouse_reference_policy"
  by (simp add: make_policy_def warehouse_reference_policy_def)

end
