(* ===== verification/PluginGate.thy ===== *)
theory PluginGate
  imports PyText PlanValidator "HOL-Library.Multiset"
begin

text \<open>
  The plugin composition around the plan validator, \<open>robotics/composition/plugin_results.py\<close> and
  \<open>plugins.py\<close>: findings with namespaced codes, the policy that caps the effect a plugin asks for, the
  registry of declared codes, the fail-closed admission of results and the composed report. The plugin
  framework is pluggy's: the registered implementations, in its order, are an argument, as is the
  pydantic parse \<open>coerce\<close> of a dictionary into a finding. Operator messages are left out.
\<close>

section \<open>Codes\<close>

text \<open>
  The patterns are anchored with \<open>$\<close> and used with \<open>match\<close>, which also accepts one final line feed.
\<close>

definition lower_letter :: "char \<Rightarrow> bool" where
  "lower_letter c \<longleftrightarrow> 97 \<le> (of_char c :: nat) \<and> (of_char c :: nat) \<le> 122"

definition word_char :: "char \<Rightarrow> bool" where
  "word_char c \<longleftrightarrow> lower_letter c \<or> (48 \<le> (of_char c :: nat) \<and> (of_char c :: nat) \<le> 57) \<or> c = CHR ''_''"

definition segment :: "string \<Rightarrow> bool" where
  "segment s \<longleftrightarrow> (case s of [] \<Rightarrow> False | c # cs \<Rightarrow> lower_letter c \<and> list_all word_char cs)"

fun split_dots :: "string \<Rightarrow> string \<Rightarrow> string list" where
  "split_dots word [] = [word]"
| "split_dots word (c # cs) = (if c = CHR ''.'' then word # split_dots [] cs else split_dots (word @ [c]) cs)"

definition dollar :: "(string \<Rightarrow> bool) \<Rightarrow> string \<Rightarrow> bool" where
  "dollar P s \<longleftrightarrow> P s \<or> (s \<noteq> [] \<and> last s = LF \<and> P (butlast s))"

definition plugin_id_match :: "string \<Rightarrow> bool" where
  "plugin_id_match = dollar (\<lambda>s. list_all segment (split_dots [] s))"

definition reason_code_match :: "string \<Rightarrow> bool" where
  "reason_code_match = dollar segment"

definition UNDECLARED_REASON_CODE :: string where "UNDECLARED_REASON_CODE = ''undeclared_reason_code''"
definition SPOOFED_PLUGIN_ID_REASON_CODE :: string where "SPOOFED_PLUGIN_ID_REASON_CODE = ''spoofed_plugin_id''"
definition MALFORMED_FINDING_REASON_CODE :: string where "MALFORMED_FINDING_REASON_CODE = ''malformed_finding''"
definition PLUGIN_CRASH_REASON_CODE :: string where "PLUGIN_CRASH_REASON_CODE = ''plugin_crash''"

definition RESERVED_REASON_CODES :: "string list" where
  "RESERVED_REASON_CODES =
     [UNDECLARED_REASON_CODE, SPOOFED_PLUGIN_ID_REASON_CODE, MALFORMED_FINDING_REASON_CODE, PLUGIN_CRASH_REASON_CODE]"

section \<open>Findings and their ceiling\<close>

record finding =
  pf_plugin_id :: string
  pf_reason_code :: string
  pf_effect :: dispatch_effect
  pf_clamped_from :: "dispatch_effect option"

definition make_finding :: "finding \<Rightarrow> finding result" where
  "make_finding f = (if \<not> plugin_id_match (pf_plugin_id f) \<or> \<not> reason_code_match (pf_reason_code f)
     then Inl ValueError else Inr f)"

fun effect_order :: "dispatch_effect \<Rightarrow> nat" where
  "effect_order NO_EFFECT = 0"
| "effect_order NEEDS_CLARIFICATION = 1"
| "effect_order BLOCK = 2"
| "effect_order EMERGENCY_STOP = 3"

text \<open>The single-field variant stores \<open>plugin:reason\<close> and splits at the first colon.\<close>

definition full_code :: "finding \<Rightarrow> string" where
  "full_code f = pf_plugin_id f @ CHR '':'' # pf_reason_code f"

definition split_code :: "string \<Rightarrow> string \<times> string" where
  "split_code c = (takeWhile (\<lambda>x. x \<noteq> CHR '':'') c, tl (dropWhile (\<lambda>x. x \<noteq> CHR '':'') c))"

record plugin_policy =
  max_effect :: dispatch_effect
  emergency_allowed :: "string list"

definition make_plugin_policy :: "plugin_policy \<Rightarrow> plugin_policy result" where
  "make_plugin_policy p = (if max_effect p = EMERGENCY_STOP then Inl ValueError else Inr p)"

definition derive_from_base :: "string list \<Rightarrow> string list option \<Rightarrow> dispatch_effect \<Rightarrow> plugin_policy result" where
  "derive_from_base base requested cap =
     bindR (case requested of
              None \<Rightarrow> Inr base
            | Some r \<Rightarrow> if \<exists>x \<in> set r. x \<notin> set base then Inl ValueError else Inr r) (\<lambda>resolved.
     make_plugin_policy \<lparr>max_effect = cap, emergency_allowed = resolved\<rparr>)"

definition ceiling_for :: "plugin_policy \<Rightarrow> string \<Rightarrow> dispatch_effect" where
  "ceiling_for p plugin_id = (if plugin_id \<in> set (emergency_allowed p) then EMERGENCY_STOP else max_effect p)"

definition clamp_finding :: "plugin_policy \<Rightarrow> finding \<Rightarrow> finding" where
  "clamp_finding p f =
     (let cap = ceiling_for p (pf_plugin_id f) in
      if effect_order (pf_effect f) \<le> effect_order cap then f
      else f\<lparr>pf_effect := cap, pf_clamped_from := Some (pf_effect f)\<rparr>)"

section \<open>The registry of declared codes\<close>

type_synonym emits = "(string, string list) pydict"

definition emits_valid :: "emits \<Rightarrow> bool" where
  "emits_valid e \<longleftrightarrow> (\<forall>(plugin_id, codes) \<in> set e. plugin_id_match plugin_id \<and>
     (\<forall>c \<in> set codes. reason_code_match c \<and> c \<notin> set RESERVED_REASON_CODES))"

definition make_registry :: "emits \<Rightarrow> emits result" where
  "make_registry e = (if emits_valid e then Inr e else Inl ValueError)"

fun collect_emits :: "(string \<times> string list) list \<Rightarrow> emits \<Rightarrow> emits result" where
  "collect_emits [] acc = Inr acc"
| "collect_emits ((plugin_id, codes) # rest) acc =
     (if plugin_id \<in> fst ` set acc then Inl ValueError else collect_emits rest (acc @ [(plugin_id, codes)]))"

definition from_manifests :: "(string \<times> string list) list \<Rightarrow> emits result" where
  "from_manifests ms = bindR (collect_emits ms []) make_registry"

definition is_registered :: "emits \<Rightarrow> string \<Rightarrow> bool" where
  "is_registered e plugin_id \<longleftrightarrow> plugin_id \<in> fst ` set e"

definition is_declared :: "emits \<Rightarrow> string \<Rightarrow> string \<Rightarrow> bool" where
  "is_declared e plugin_id why \<longleftrightarrow> (case map_of e plugin_id of None \<Rightarrow> False | Some codes \<Rightarrow> why \<in> set codes)"

section \<open>Running the plugins\<close>

datatype failure_mode = REFUSE_RUN | ISOLATE_PLUGIN

record composition =
  co_registry :: emits
  co_policy :: plugin_policy
  co_failure_mode :: failure_mode
  co_registered :: "string list"

definition register :: "string \<Rightarrow> bool \<Rightarrow> composition \<Rightarrow> composition result" where
  "register plugin_id hook_ok c =
     (if \<not> is_registered (co_registry c) plugin_id then Inl ValueError
      else if plugin_id \<in> set (co_registered c) then Inl ValueError
      else if \<not> hook_ok then Inl ValueError
      else Inr (c\<lparr>co_registered := co_registered c @ [plugin_id]\<rparr>))"

definition preflight :: "bool \<Rightarrow> composition \<Rightarrow> unit result" where
  "preflight allow_unlisted c =
     (if \<exists>p \<in> fst ` set (co_registry c). p \<notin> set (co_registered c) then Inl ValueError
      else if (\<exists>p \<in> set (co_registered c). p \<notin> fst ` set (co_registry c)) \<and> \<not> allow_unlisted then Inl ValueError
      else Inr ())"

text \<open>
  What one implementation does: raise when called, return items, or return something whose iteration
  raises after some items (a generator, or a value that is not iterable). An item is a finding, a
  dictionary or anything else.
\<close>

datatype item = Given finding | Raw "(string \<times> pyval) list" | Other

datatype outcome = Raises | Items "item list" | IterRaises "item list"

datatype refusal = CompositionRefused | PluginEscaped

definition fail_closed :: "string \<Rightarrow> string \<Rightarrow> finding" where
  "fail_closed plugin_id why =
     \<lparr>pf_plugin_id = plugin_id, pf_reason_code = why, pf_effect = NEEDS_CLARIFICATION, pf_clamped_from = None\<rparr>"

definition crash_finding :: "string \<Rightarrow> finding" where
  "crash_finding plugin_id =
     \<lparr>pf_plugin_id = plugin_id, pf_reason_code = PLUGIN_CRASH_REASON_CODE, pf_effect = BLOCK, pf_clamped_from = None\<rparr>"

definition coerce_item :: "((string \<times> pyval) list \<Rightarrow> finding option) \<Rightarrow> item \<Rightarrow> finding option" where
  "coerce_item coerce x = (case x of Given f \<Rightarrow> Some f | Raw d \<Rightarrow> coerce d | Other \<Rightarrow> None)"

definition admit :: "((string \<times> pyval) list \<Rightarrow> finding option) \<Rightarrow> composition \<Rightarrow> string \<Rightarrow> item \<Rightarrow> finding" where
  "admit coerce c plugin_id x =
     (case coerce_item coerce x of
        None \<Rightarrow> fail_closed plugin_id MALFORMED_FINDING_REASON_CODE
      | Some f \<Rightarrow>
          if pf_plugin_id f \<noteq> plugin_id then fail_closed plugin_id SPOOFED_PLUGIN_ID_REASON_CODE
          else if \<not> is_declared (co_registry c) plugin_id (pf_reason_code f)
          then fail_closed plugin_id UNDECLARED_REASON_CODE
          else clamp_finding (co_policy c) f)"

fun run_validate_plan ::
    "((string \<times> pyval) list \<Rightarrow> finding option) \<Rightarrow> composition \<Rightarrow> (string \<times> outcome) list \<Rightarrow> refusal + finding list" where
  "run_validate_plan coerce c [] = Inr []"
| "run_validate_plan coerce c ((plugin_id, out) # rest) =
     (case out of
        Raises \<Rightarrow>
          if co_failure_mode c = REFUSE_RUN then Inl CompositionRefused
          else map_sum id (\<lambda>fs. crash_finding plugin_id # fs) (run_validate_plan coerce c rest)
      | Items xs \<Rightarrow> map_sum id (\<lambda>fs. map (admit coerce c plugin_id) xs @ fs) (run_validate_plan coerce c rest)
      | IterRaises _ \<Rightarrow> Inl PluginEscaped)"

section \<open>The composed report\<close>

record composed_report =
  cp_status :: validation_status
  cp_core :: validation_report
  cp_errors :: "finding list"
  cp_warnings :: "finding list"

definition raise_status :: "validation_status \<Rightarrow> finding \<Rightarrow> validation_status" where
  "raise_status st f =
     (case effect_to_status (pf_effect f) of
        None \<Rightarrow> st
      | Some forced \<Rightarrow> if status_priority forced > status_priority st then forced else st)"

definition compose_report :: "validation_report \<Rightarrow> finding list \<Rightarrow> composed_report" where
  "compose_report core fs =
     \<lparr>cp_status = foldl raise_status (status core) fs, cp_core = core,
      cp_errors = filter (\<lambda>f. pf_effect f \<noteq> NO_EFFECT) fs, cp_warnings = filter (\<lambda>f. pf_effect f = NO_EFFECT) fs\<rparr>"

definition composed_permits :: "composed_report \<Rightarrow> bool" where
  "composed_permits r \<longleftrightarrow> cp_status r = ACCEPTED"

definition composed_candidates :: "composed_report \<Rightarrow> task_node list" where
  "composed_candidates r = (if \<not> composed_permits r then [] else command_candidates (cp_core r))"

type_synonym plugin = "plan_draft \<Rightarrow> planning_context \<Rightarrow> outcome"

text \<open>
  Core first, then the plugins whatever the core said. An exception of the core is \<open>Inl (Inl e)\<close>, a
  refusal by the composition \<open>Inl (Inr r)\<close>.
\<close>

definition validate_with_plugins ::
    "((string \<times> pyval) list \<Rightarrow> finding option) \<Rightarrow> composition \<Rightarrow> (string \<times> plugin) list \<Rightarrow> plan_draft \<Rightarrow>
     planning_context \<Rightarrow> (exc + refusal) + composed_report" where
  "validate_with_plugins coerce c impls draft ctx =
     (case validate draft ctx of
        Inl e \<Rightarrow> Inl (Inl e)
      | Inr core \<Rightarrow>
          (case run_validate_plan coerce c (map (\<lambda>(i, f). (i, f draft ctx)) impls) of
             Inl r \<Rightarrow> Inl (Inr r)
           | Inr fs \<Rightarrow> Inr (compose_report core fs)))"

section \<open>The lattice\<close>

lemma status_priority_inj: "status_priority a = status_priority b \<Longrightarrow> a = b"
  by (cases a; cases b) simp_all

definition forced_priority :: "finding \<Rightarrow> nat" where
  "forced_priority f = effect_order (pf_effect f)"

lemma raise_status_priority: "status_priority (raise_status st f) = max (status_priority st) (forced_priority f)"
  by (cases "pf_effect f"; cases st) (simp_all add: raise_status_def forced_priority_def)

lemma fold_priority:
  "status_priority (foldl raise_status st fs) = foldr (\<lambda>f n. max (forced_priority f) n) fs (status_priority st)"
proof (induction fs arbitrary: st)
  case (Cons f fs)
  have "foldr (\<lambda>f n. max (forced_priority f) n) fs (max a b) = max b (foldr (\<lambda>f n. max (forced_priority f) n) fs a)" for a b
    by (induction fs) (simp_all add: max.left_commute max.commute)
  then show ?case by (simp add: Cons raise_status_priority)
qed simp

lemma fold_priority_Max: "status_priority (foldl raise_status st fs) = Max (insert (status_priority st) (forced_priority ` set fs))"
proof -
  have "foldr (\<lambda>f n. max (forced_priority f) n) fs n = Max (insert n (forced_priority ` set fs))" for n
  proof (induction fs)
    case (Cons f fs)
    have "insert n (forced_priority ` set (f # fs)) = insert (forced_priority f) (insert n (forced_priority ` set fs))" by auto
    then show ?case using Cons by simp
  qed simp
  then show ?thesis by (simp add: fold_priority)
qed

lemma compose_status_ge:
  "status_priority (status core) \<le> status_priority (cp_status (compose_report core fs))"
  "f \<in> set fs \<Longrightarrow> effect_order (pf_effect f) \<le> status_priority (cp_status (compose_report core fs))"
  by (simp_all add: compose_report_def fold_priority_Max forced_priority_def)

text \<open>The verdict does not depend on the order of the findings.\<close>

lemma compose_order_independent:
  assumes "mset fs = mset gs"
  shows "cp_status (compose_report core fs) = cp_status (compose_report core gs)"
proof -
  have "set fs = set gs" using assms by (rule mset_eq_setD)
  then show ?thesis
    using status_priority_inj [of "foldl raise_status (status core) fs" "foldl raise_status (status core) gs"]
    by (simp add: compose_report_def fold_priority_Max)
qed

lemma composed_permits_iff:
  "composed_permits (compose_report core fs) \<longleftrightarrow> permits_dispatch core \<and> (\<forall>f \<in> set fs. pf_effect f = NO_EFFECT)"
proof -
  have z: "status_priority st = 0 \<longleftrightarrow> st = ACCEPTED" for st by (cases st) simp_all
  have e: "effect_order x = 0 \<longleftrightarrow> x = NO_EFFECT" for x by (cases x) simp_all
  have m: "Max (insert (status_priority (status core)) (forced_priority ` set fs)) = 0 \<longleftrightarrow>
      status_priority (status core) = 0 \<and> (\<forall>f \<in> set fs. forced_priority f = 0)"
    by (subst Max_eq_iff) auto
  have "composed_permits (compose_report core fs) \<longleftrightarrow> status_priority (cp_status (compose_report core fs)) = 0"
    by (simp add: composed_permits_def z)
  also have "\<dots> \<longleftrightarrow> permits_dispatch core \<and> (\<forall>f \<in> set fs. pf_effect f = NO_EFFECT)"
    by (simp add: compose_report_def fold_priority_Max m) (simp add: z permits_dispatch_def forced_priority_def e)
  finally show ?thesis .
qed

section \<open>Admission\<close>

text \<open>A result is admitted as the plugin sent it.\<close>

definition genuine :: "((string \<times> pyval) list \<Rightarrow> finding option) \<Rightarrow> composition \<Rightarrow> string \<Rightarrow> item \<Rightarrow> finding \<Rightarrow> bool" where
  "genuine coerce c plugin_id x f \<longleftrightarrow> coerce_item coerce x = Some f \<and> pf_plugin_id f = plugin_id
     \<and> is_declared (co_registry c) plugin_id (pf_reason_code f)"

lemma admit_cases:
  "(\<exists>f. genuine coerce c plugin_id x f \<and> admit coerce c plugin_id x = clamp_finding (co_policy c) f)
   \<or> (\<exists>why. admit coerce c plugin_id x = fail_closed plugin_id why \<and> \<not> (\<exists>f. genuine coerce c plugin_id x f))"
  by (auto simp: admit_def genuine_def split: option.splits)

lemma clamp_effect: "effect_order (pf_effect (clamp_finding p f)) = min (effect_order (pf_effect f)) (effect_order (ceiling_for p (pf_plugin_id f)))"
  by (auto simp: clamp_finding_def Let_def)

lemma clamp_plugin [simp]: "pf_plugin_id (clamp_finding p f) = pf_plugin_id f"
  by (simp add: clamp_finding_def Let_def)

text \<open>What an implementation contributes when the run is not refused.\<close>

fun contribution :: "((string \<times> pyval) list \<Rightarrow> finding option) \<Rightarrow> composition \<Rightarrow> string \<times> outcome \<Rightarrow> finding list" where
  "contribution coerce c (plugin_id, Raises) = [crash_finding plugin_id]"
| "contribution coerce c (plugin_id, Items xs) = map (admit coerce c plugin_id) xs"
| "contribution coerce c (plugin_id, IterRaises xs) = []"

lemma run_Inr:
  "run_validate_plan coerce c outs = Inr fs \<Longrightarrow>
     fs = concat (map (contribution coerce c) outs)
     \<and> (\<forall>(p, out) \<in> set outs. (out = Raises \<longrightarrow> co_failure_mode c = ISOLATE_PLUGIN) \<and> (\<forall>xs. out \<noteq> IterRaises xs))"
proof (induction outs arbitrary: fs)
  case (Cons po outs)
  obtain p out where po: "po = (p, out)" by (cases po)
  have mode: "co_failure_mode c \<noteq> REFUSE_RUN \<Longrightarrow> co_failure_mode c = ISOLATE_PLUGIN" by (cases "co_failure_mode c") auto
  show ?case
  proof (cases out)
    case Raises
    then obtain gs where "run_validate_plan coerce c outs = Inr gs" "fs = crash_finding p # gs" "co_failure_mode c \<noteq> REFUSE_RUN"
      using Cons.prems by (cases "run_validate_plan coerce c outs") (auto simp: po split: if_splits)
    then show ?thesis using Cons.IH mode Raises by (auto simp: po)
  next
    case (Items xs)
    then obtain gs where "run_validate_plan coerce c outs = Inr gs" "fs = map (admit coerce c p) xs @ gs"
      using Cons.prems by (cases "run_validate_plan coerce c outs") (auto simp: po)
    then show ?thesis using Cons.IH Items by (auto simp: po)
  next
    case (IterRaises xs)
    then show ?thesis using Cons.prems by (simp add: po)
  qed
qed simp

end
