(* ===== verification/PluginGateProps.thy ===== *)
theory PluginGateProps
  imports PluginGate
begin

text \<open>
  What composing plugins can and cannot do: they only tighten the core verdict, every result that is not a
  declared finding of the plugin that sent it withholds the plan, and an emergency stop is reserved to the
  plugins the base policy lists.
\<close>

definition contributions ::
    "((string \<times> pyval) list \<Rightarrow> finding option) \<Rightarrow> composition \<Rightarrow> (string \<times> plugin) list \<Rightarrow> plan_draft \<Rightarrow>
     planning_context \<Rightarrow> finding list" where
  "contributions coerce c impls draft ctx =
     concat (map (contribution coerce c) (map (\<lambda>(i, f). (i, f draft ctx)) impls))"

lemma validated:
  assumes "validate_with_plugins coerce c impls draft ctx = Inr rep"
  obtains core where "validate draft ctx = Inr core" "rep = compose_report core (contributions coerce c impls draft ctx)"
    "\<And>p impl xs. (p, impl) \<in> set impls \<Longrightarrow> impl draft ctx \<noteq> IterRaises xs"
proof -
  let ?outs = "map (\<lambda>(i, f). (i, f draft ctx)) impls"
  obtain core fs where v: "validate draft ctx = Inr core" "rep = compose_report core fs" "run_validate_plan coerce c ?outs = Inr fs"
    using assms by (auto simp: validate_with_plugins_def split: sum.splits)
  note r = run_Inr [OF v(3)]
  have "impl draft ctx \<noteq> IterRaises xs" if "(p, impl) \<in> set impls" for p impl xs
  proof -
    have "(p, impl draft ctx) \<in> set ?outs" using that by force
    then show ?thesis using conjunct2 [OF r] by blast
  qed
  then show thesis using that v(1,2) conjunct1 [OF r] unfolding contributions_def by blast
qed

lemma cp_core_compose [simp]: "cp_core (compose_report core fs) = core"
  by (simp add: compose_report_def)

lemma fail_closed_blocks [simp]: "pf_effect (fail_closed p why) \<noteq> NO_EFFECT" "pf_effect (crash_finding p) \<noteq> NO_EFFECT"
  by (simp_all add: fail_closed_def crash_finding_def)

text \<open>A plugin of which the policy caps every effect away: its findings are warnings whatever they ask for.\<close>

definition muted :: "plugin_policy \<Rightarrow> string \<Rightarrow> bool" where
  "muted pol p \<longleftrightarrow> max_effect pol = NO_EFFECT \<and> p \<notin> set (emergency_allowed pol)"

lemma clamped_iff: "pf_effect (clamp_finding pol f) = NO_EFFECT \<longleftrightarrow> pf_effect f = NO_EFFECT \<or> muted pol (pf_plugin_id f)"
  by (cases "pf_effect f"; cases "max_effect pol") (auto simp: clamp_finding_def ceiling_for_def muted_def)

lemma admit_silent:
  "pf_effect (admit coerce c p x) = NO_EFFECT \<longleftrightarrow> (\<exists>f. genuine coerce c p x f \<and> (pf_effect f = NO_EFFECT \<or> muted (co_policy c) p))"
  using clamped_iff [of "co_policy c"] by (auto simp: admit_def genuine_def split: option.splits)

text \<open>
  C18. Plugins only tighten: a composed report permits dispatch exactly if the core permits it and every plugin
  returned nothing but well-formed findings under its own id with a declared code, each asking for no effect. The
  one exception is in the policy: with a maximum effect of none, what a plugin outside the emergency list asks for is
  capped to a warning.
\<close>

theorem plugins_only_tighten:
  assumes "validate_with_plugins coerce c impls draft ctx = Inr rep"
  shows "validate draft ctx = Inr (cp_core rep)
     \<and> (composed_permits rep \<longleftrightarrow> permits_dispatch (cp_core rep)
          \<and> (\<forall>(p, impl) \<in> set impls. \<exists>xs. impl draft ctx = Items xs \<and>
               (\<forall>x \<in> set xs. \<exists>f. genuine coerce c p x f \<and> (pf_effect f = NO_EFFECT \<or> muted (co_policy c) p))))"
proof -
  from validated [OF assms(1)] obtain core where v: "validate draft ctx = Inr core"
    "rep = compose_report core (contributions coerce c impls draft ctx)"
    "\<And>p impl xs. (p, impl) \<in> set impls \<Longrightarrow> impl draft ctx \<noteq> IterRaises xs" by blast
  let ?silent = "\<lambda>out p. \<exists>xs. out = Items xs \<and> (\<forall>x \<in> set xs. \<exists>f. genuine coerce c p x f \<and> (pf_effect f = NO_EFFECT \<or> muted (co_policy c) p))"
  have one: "(\<forall>f \<in> set (contribution coerce c (p, impl draft ctx)). pf_effect f = NO_EFFECT) \<longleftrightarrow> ?silent (impl draft ctx) p"
    if "(p, impl) \<in> set impls" for p impl
    using v(3) [OF that] by (cases "impl draft ctx") (auto simp: admit_silent)
  have "(\<forall>f \<in> set (contributions coerce c impls draft ctx). pf_effect f = NO_EFFECT)
      \<longleftrightarrow> (\<forall>(p, impl) \<in> set impls. \<forall>f \<in> set (contribution coerce c (p, impl draft ctx)). pf_effect f = NO_EFFECT)"
    by (auto simp: contributions_def)
  also have "\<dots> \<longleftrightarrow> (\<forall>(p, impl) \<in> set impls. ?silent (impl draft ctx) p)" using one by blast
  finally show ?thesis using v(1) by (simp add: v(2) composed_permits_iff)
qed

definition zone_composition :: composition where
  "zone_composition = \<lparr>co_registry = [(''l3.zone'', [''checked'', ''target_out_of_zone''])],
     co_policy = \<lparr>max_effect = BLOCK, emergency_allowed = []\<rparr>, co_failure_mode = ISOLATE_PLUGIN,
     co_registered = [''l3.zone'']\<rparr>"

definition zone_finding :: "dispatch_effect \<Rightarrow> finding" where
  "zone_finding e = \<lparr>pf_plugin_id = ''l3.zone'', pf_reason_code = ''checked'', pf_effect = e, pf_clamped_from = None\<rparr>"

definition zone_plugin :: "dispatch_effect \<Rightarrow> string \<times> plugin" where
  "zone_plugin e = (''l3.zone'', \<lambda>_ _. Items [Given (zone_finding e)])"

lemma zone_report:
  "validate_with_plugins (\<lambda>_. None) zone_composition [zone_plugin e] ex_draft ex_context =
     Inr (compose_report (from_rules [] ex_draft) [clamp_finding (co_policy zone_composition) (zone_finding e)])"
proof -
  have "validate ex_draft ex_context = Inr (from_rules [] ex_draft)" by code_simp
  then show ?thesis
    by (simp add: validate_with_plugins_def zone_plugin_def admit_def coerce_item_def zone_finding_def is_declared_def
        zone_composition_def)
qed

lemma zone_silent:
  "(\<forall>(p, impl) \<in> set [zone_plugin e]. \<exists>xs. impl ex_draft ex_context = Items xs \<and>
      (\<forall>x \<in> set xs. \<exists>f. genuine coerce zone_composition p x f \<and> (pf_effect f = NO_EFFECT \<or> muted (co_policy zone_composition) p)))
    \<longleftrightarrow> e = NO_EFFECT"
  by (auto simp: zone_plugin_def genuine_def coerce_item_def zone_finding_def zone_composition_def is_declared_def muted_def)

theorem plugins_only_tighten_witness:
  "let rep = (\<lambda>e. compose_report (from_rules [] ex_draft) [clamp_finding (co_policy zone_composition) (zone_finding e)]) in
     composed_permits (rep NO_EFFECT) \<and> \<not> composed_permits (rep BLOCK)"
  using plugins_only_tighten [OF zone_report [of NO_EFFECT]] plugins_only_tighten [OF zone_report [of BLOCK]]
  unfolding zone_silent Let_def by (simp add: permits_dispatch_def from_rules_def aggregate_status_def)

section \<open>Emergency stops\<close>

lemma derived_subset: "derive_from_base base requested cap = Inr p \<Longrightarrow>
   set (emergency_allowed p) \<subseteq> set base \<and> max_effect p \<noteq> EMERGENCY_STOP"
  by (auto simp: derive_from_base_def make_plugin_policy_def split: option.splits if_splits)

lemma status_cause:
  "foldl raise_status st fs = EMERGENCY_STATUS \<Longrightarrow> st = EMERGENCY_STATUS \<or> (\<exists>f \<in> set fs. pf_effect f = EMERGENCY_STOP)"
proof (induction fs arbitrary: st)
  case (Cons f fs)
  have "raise_status st f = EMERGENCY_STATUS \<Longrightarrow> st = EMERGENCY_STATUS \<or> pf_effect f = EMERGENCY_STOP"
    by (cases "pf_effect f"; cases st) (simp_all add: raise_status_def)
  then show ?case using Cons by fastforce
qed simp

lemma clamp_emergency:
  assumes "max_effect p \<noteq> EMERGENCY_STOP" and "pf_effect (clamp_finding p f) = EMERGENCY_STOP"
  shows "pf_effect f = EMERGENCY_STOP \<and> pf_plugin_id f \<in> set (emergency_allowed p)"
proof -
  have o: "3 \<le> effect_order e \<Longrightarrow> e = EMERGENCY_STOP" for e by (cases e) simp_all
  have "min (effect_order (pf_effect f)) (effect_order (ceiling_for p (pf_plugin_id f))) = 3"
    using clamp_effect [of p f] assms(2) by simp
  then have "pf_effect f = EMERGENCY_STOP" "ceiling_for p (pf_plugin_id f) = EMERGENCY_STOP" using o by (metis min.cobounded1, metis min.cobounded2)
  then show ?thesis using assms(1) by (auto simp: ceiling_for_def split: if_splits)
qed

text \<open>
  No plugin manufactures an emergency stop: under a policy derived from the base ceiling, a composed
  emergency verdict comes from the core, or from a finding in which a plugin that the base allowlist
  names asked for it under its own id with a declared code.
\<close>

theorem emergency_needs_allowlist:
  assumes "derive_from_base base requested cap = Inr (co_policy c)"
    and "validate_with_plugins coerce c impls draft ctx = Inr rep" and "cp_status rep = EMERGENCY_STATUS"
  shows "status (cp_core rep) = EMERGENCY_STATUS \<or>
     (\<exists>(p, impl) \<in> set impls. p \<in> set base \<and>
        (\<exists>xs x f. impl draft ctx = Items xs \<and> x \<in> set xs \<and> genuine coerce c p x f \<and> pf_effect f = EMERGENCY_STOP))"
proof (cases "status (cp_core rep) = EMERGENCY_STATUS")
  case False
  note pol = derived_subset [OF assms(1)]
  from validated [OF assms(2)] obtain core where v: "rep = compose_report core (contributions coerce c impls draft ctx)"
    by blast
  obtain f where f: "f \<in> set (contributions coerce c impls draft ctx)" "pf_effect f = EMERGENCY_STOP"
    using status_cause [of "status core"] assms(3) False unfolding v cp_core_compose compose_report_def
    by auto
  then obtain p impl where i: "(p, impl) \<in> set impls" "f \<in> set (contribution coerce c (p, impl draft ctx))"
    by (auto simp: contributions_def)
  then obtain xs x where x: "impl draft ctx = Items xs" "x \<in> set xs" "f = admit coerce c p x"
    using f(2) by (cases "impl draft ctx") (auto simp: crash_finding_def)
  have "\<not> (\<exists>why. f = fail_closed p why)" using f(2) by (auto simp: fail_closed_def)
  then obtain g where g: "genuine coerce c p x g" "f = clamp_finding (co_policy c) g"
    using admit_cases [of coerce c p x] x(3) by auto
  then have "pf_effect g = EMERGENCY_STOP" "p \<in> set base"
    using clamp_emergency [of "co_policy c" g] pol f(2) by (auto simp: genuine_def)
  then show ?thesis using i(1) x(1,2) g(1) by blast
qed simp

theorem emergency_needs_allowlist_witness:
  "\<exists>(p, impl) \<in> {zone_plugin EMERGENCY_STOP}. p = ''l3.zone'' \<and> impl ex_draft ex_context = Items [Given (zone_finding EMERGENCY_STOP)]"
proof -
  let ?c = "zone_composition\<lparr>co_policy := \<lparr>max_effect = BLOCK, emergency_allowed = [''l3.zone'']\<rparr>\<rparr>"
  have "validate ex_draft ex_context = Inr (from_rules [] ex_draft)" by code_simp
  then have rep: "validate_with_plugins (\<lambda>_. None) ?c [zone_plugin EMERGENCY_STOP] ex_draft ex_context =
     Inr (compose_report (from_rules [] ex_draft) [clamp_finding (co_policy ?c) (zone_finding EMERGENCY_STOP)])"
    by (simp add: validate_with_plugins_def zone_plugin_def admit_def coerce_item_def zone_finding_def is_declared_def
        zone_composition_def)
  have "derive_from_base [''l3.zone''] None BLOCK = Inr (co_policy ?c)"
    by (simp add: derive_from_base_def make_plugin_policy_def)
  from emergency_needs_allowlist [OF this rep] show ?thesis
    by (auto simp: compose_report_def clamp_finding_def ceiling_for_def zone_finding_def raise_status_def from_rules_def
        aggregate_status_def zone_plugin_def)
qed

section \<open>Two gaps\<close>

text \<open>
  A plugin that is a generator raises while its results are iterated, outside the code's \<open>try\<close>: even in
  the isolating mode the exception escapes and no other plugin is heard.
\<close>

lemma late_crash_escapes:
  "run_validate_plan coerce (c\<lparr>co_failure_mode := ISOLATE_PLUGIN\<rparr>) ((p, IterRaises xs) # rest) = Inl PluginEscaped"
  by simp

text \<open>A reserved code followed by a line feed passes both the pattern and the reserved-code check.\<close>

lemma reserved_code_declarable:
  "make_registry [(''l3.zone'', [PLUGIN_CRASH_REASON_CODE @ [LF]])] = Inr [(''l3.zone'', [PLUGIN_CRASH_REASON_CODE @ [LF]])]"
  unfolding make_registry_def LF_def PLUGIN_CRASH_REASON_CODE_def by code_simp

text \<open>The single-field variant gives back its two parts.\<close>

lemma split_full_code:
  assumes "make_finding f = Inr f"
  shows "split_code (full_code f) = (pf_plugin_id f, pf_reason_code f)"
proof -
  have seg: "CHR '':'' \<notin> set s" if "segment s" for s
    using that by (auto simp: segment_def list_all_iff word_char_def lower_letter_def split: list.splits)
  have keep: "x \<in> set w \<Longrightarrow> \<exists>y \<in> set (split_dots w s). x \<in> set y" for x w s
    by (induction w s rule: split_dots.induct) auto
  have dots: "x \<in> set s \<Longrightarrow> x \<noteq> CHR ''.'' \<Longrightarrow> \<exists>y \<in> set (split_dots w s). x \<in> set y" for x w s
  proof (induction w s rule: split_dots.induct)
    case (2 word c cs)
    then show ?case using keep [of x "word @ [c]" cs] by auto
  qed simp
  have ids: "CHR '':'' \<notin> set s" if "list_all segment (split_dots [] s)" for s
    using dots [of "CHR '':''" s "[]"] seg that by (auto simp: list_all_iff)
  have "CHR '':'' \<notin> set (pf_plugin_id f)"
  proof -
    let ?s = "pf_plugin_id f"
    have "plugin_id_match ?s" using assms by (auto simp: make_finding_def split: if_splits)
    then consider "list_all segment (split_dots [] ?s)"
      | "?s \<noteq> []" "last ?s = LF" "list_all segment (split_dots [] (butlast ?s))"
      by (auto simp: plugin_id_match_def dollar_def)
    then show ?thesis
    proof cases
      case 2
      then have "?s = butlast ?s @ [LF]" by (metis append_butlast_last_id)
      then have "set ?s = insert LF (set (butlast ?s))" by (metis Un_insert_right list.simps(15) set_append sup_bot.right_neutral list.set(1))
      then show ?thesis using ids [OF 2(3)] by (simp add: LF_def)
    qed (rule ids)
  qed
  then have "\<forall>x \<in> set (pf_plugin_id f). x \<noteq> CHR '':''" by auto
  then show ?thesis by (simp add: split_code_def full_code_def takeWhile_append2 dropWhile_append2)
qed

end
