(* ===== verification/Nav2Bridge.thy ===== *)
theory Nav2Bridge
  imports PyValue "HOL-Library.List_Lexorder" "HOL-Library.Char_ord"
begin

text \<open>
  \<open>Nav2BridgeCore\<close> of \<open>warehouse_nav2_bridge/core.py\<close>, its error model (\<open>errors.py\<close>), the endpoints of
  \<open>app.py\<close> and the backend seam of \<open>backend.py\<close>. The backend is Nav2: what it answers to \<open>ready\<close>,
  \<open>is_complete\<close>, \<open>result\<close> and \<open>feedback\<close> is the environment of a call, what it is told to do is
  recorded in \<open>backend_log\<close>, in order. The human-readable detail of an error is left out. The
  endpoints run on one event loop and the monitor takes the lock, so operations do not overlap.
\<close>

section \<open>The backend\<close>

type_synonym pose = "pyfloat \<times> pyfloat"

datatype backend_call =
    GoTo string "pose list"
  | CancelTask string
  | GetResult string

record backend =
  be_ready :: "string \<Rightarrow> bool"
  be_is_complete :: "string \<Rightarrow> bool"
  be_result :: "string \<Rightarrow> string"
  be_feedback :: "string \<Rightarrow> (string \<times> pyval) list option"
  be_clock :: pyfloat

section \<open>The core\<close>

datatype nav_failure = Refused string nat | Raised exc

record nav_record =
  nr_task_id :: string
  nr_status :: string
  nr_action :: string
  nr_destination :: "string option"
  nr_duration :: "pyfloat option"
  nr_expiry :: "pyfloat option"

record nav_core =
  nc_robots :: "string list"
  nc_locations :: "(string, pose) pydict"
  nc_start :: pyfloat
  nc_active :: "(string, nav_record) pydict"
  seq_nav :: nat
  seq_wait :: nat
  backend_log :: "backend_call list"

definition init_core :: "string list \<Rightarrow> (string, pose) pydict \<Rightarrow> pyfloat \<Rightarrow> nav_core" where
  "init_core robots locations start =
     \<lparr>nc_robots = robots, nc_locations = locations, nc_start = start, nc_active = [],
      seq_nav = 0, seq_wait = 0, backend_log = []\<rparr>"

definition DURATION_MAX_SEC :: pyfloat where
  "DURATION_MAX_SEC = Fin 30"

definition BUSY :: "string list" where
  "BUSY = [''navigating'', ''waiting'']"

text \<open>
  \<open>float(v)\<close> also reads strings; that parse is the argument \<open>ps\<close>.
\<close>

fun py_float :: "(string \<Rightarrow> pyfloat result) \<Rightarrow> pyval \<Rightarrow> pyfloat result" where
  "py_float ps (PStr s) = ps s"
| "py_float ps v = to_float v"

fun floats :: "(string \<Rightarrow> pyfloat result) \<Rightarrow> pyval list \<Rightarrow> pyfloat list result" where
  "floats ps [] = Inr []"
| "floats ps (v # vs) = bindR (py_float ps v) (\<lambda>x. bindR (floats ps vs) (\<lambda>xs. Inr (x # xs)))"

definition coord :: "nav_core \<Rightarrow> string \<Rightarrow> string \<Rightarrow> nav_failure + pose" where
  "coord c name code =
     (case map_of (nc_locations c) name of None \<Rightarrow> Inl (Refused code 400) | Some p \<Rightarrow> Inr p)"

definition coord_from_goal :: "(string \<Rightarrow> pyfloat result) \<Rightarrow> pyval \<Rightarrow> nav_failure + pose" where
  "coord_from_goal ps goal =
     (case goal of
        PList vs \<Rightarrow>
          if length vs \<noteq> 2 \<and> length vs \<noteq> 3 then Inl (Refused ''INVALID_GOAL'' 400)
          else (case floats ps vs of
                  Inl e \<Rightarrow> if e = TypeError \<or> e = ValueError then Inl (Refused ''INVALID_GOAL'' 400) else Inl (Raised e)
                | Inr xs \<Rightarrow>
                    if \<not> list_all isfinite xs then Inl (Refused ''INVALID_GOAL'' 400)
                    else Inr (xs ! 0, xs ! 1))
      | _ \<Rightarrow> Inl (Refused ''INVALID_GOAL'' 400))"

definition resolve_goal ::
    "(string \<Rightarrow> pyfloat result) \<Rightarrow> nav_core \<Rightarrow> string option \<Rightarrow> string option \<Rightarrow> pyval option \<Rightarrow>
     nav_failure + (pose list \<times> (string \<times> pyval) list)" where
  "resolve_goal ps c destination via goal =
     (if (destination = None) = (goal = None) then Inl (Refused ''INVALID_GOAL'' 400)
      else case (case via of None \<Rightarrow> Inr []
                 | Some v \<Rightarrow> (case coord c v ''INVALID_VIA'' of Inl e \<Rightarrow> Inl e | Inr p \<Rightarrow> Inr [p])) of
          Inl e \<Rightarrow> Inl e
        | Inr poses \<Rightarrow>
            (case goal of
               Some g \<Rightarrow>
                 (case coord_from_goal ps g of
                    Inl e \<Rightarrow> Inl e
                  | Inr (x, y) \<Rightarrow>
                      Inr (poses @ [(x, y)],
                           [(''destination'', PNone), (''goal'', PList [PFloat x, PFloat y])]))
             | None \<Rightarrow>
                 (case coord c (the destination) ''INVALID_LOCATION'' of
                    Inl e \<Rightarrow> Inl e
                  | Inr p \<Rightarrow> Inr (poses @ [p], [(''destination'', PStr (the destination))]))))"

definition is_busy :: "nav_core \<Rightarrow> string \<Rightarrow> bool" where
  "is_busy c robot =
     (case map_of (nc_active c) robot of None \<Rightarrow> False | Some r \<Rightarrow> nr_status r \<in> set BUSY)"

type_synonym reply = "nav_failure + (string \<times> pyval) list"

definition nav_navigate ::
    "(string \<Rightarrow> pyfloat result) \<Rightarrow> backend \<Rightarrow> nav_core \<Rightarrow> string \<Rightarrow> string option \<Rightarrow> string option \<Rightarrow>
     pyval option \<Rightarrow> reply \<times> nav_core" where
  "nav_navigate ps be c robot destination via goal =
     (if robot \<notin> set (nc_robots c) then (Inl (Refused ''INVALID_ROBOT'' 400), c)
      else case resolve_goal ps c destination via goal of
          Inl e \<Rightarrow> (Inl e, c)
        | Inr (poses, flds) \<Rightarrow>
            if \<not> be_ready be robot then (Inl (Refused ''NAV2_NOT_READY'' 503), c)
            else if is_busy c robot then (Inl (Refused ''ALREADY_NAVIGATING'' 409), c)
            else
              let c = c\<lparr>backend_log := backend_log c @ [GoTo robot poses], seq_nav := seq_nav c + 1\<rparr>;
                  task_id = ''nav_'' @ pad3 (seq_nav c)
              in (Inr ([(''task_id'', PStr task_id), (''status'', PStr ''accepted''), (''robot'', PStr robot)] @ flds),
                  c\<lparr>nc_active := AList.update robot
                      \<lparr>nr_task_id = task_id, nr_status = ''navigating'', nr_action = ''navigate'',
                       nr_destination = (case dget flds ''destination'' of PStr d \<Rightarrow> Some d | _ \<Rightarrow> None),
                       nr_duration = None, nr_expiry = None\<rparr> (nc_active c)\<rparr>))"

fun is_bool :: "pyval \<Rightarrow> bool" where
  "is_bool (PBool _) = True"
| "is_bool _ = False"

text \<open>
  \<open>wait\<close>: \<open>isinstance(duration, (int, float))\<close> holds of booleans too, and \<open>math.isfinite\<close> of a huge
  integer raises.
\<close>

definition nav_wait ::
    "backend \<Rightarrow> nav_core \<Rightarrow> string \<Rightarrow> pyval \<Rightarrow> reply \<times> nav_core" where
  "nav_wait be c robot duration =
     (if robot \<notin> set (nc_robots c) then (Inl (Refused ''INVALID_ROBOT'' 400), c)
      else if \<not> is_number duration \<and> \<not> is_bool duration
      then (Inl (Refused ''INVALID_DURATION'' 400), c)
      else case to_float duration of
          Inl e \<Rightarrow> (Inl (Raised e), c)
        | Inr d \<Rightarrow>
            if \<not> isfinite d then (Inl (Refused ''INVALID_DURATION'' 400), c)
            else if d \<le> Fin 0 \<or> DURATION_MAX_SEC < d then (Inl (Refused ''INVALID_DURATION'' 400), c)
            else if \<not> be_ready be robot then (Inl (Refused ''NAV2_NOT_READY'' 503), c)
            else
              let c = c\<lparr>backend_log := backend_log c @ [CancelTask robot], seq_wait := seq_wait c + 1\<rparr>;
                  task_id = ''wait_'' @ pad3 (seq_wait c)
              in (Inr [(''task_id'', PStr task_id), (''status'', PStr ''accepted''), (''robot'', PStr robot),
                       (''duration'', PFloat d)],
                  c\<lparr>nc_active := AList.update robot
                      \<lparr>nr_task_id = task_id, nr_status = ''waiting'', nr_action = ''wait'',
                       nr_destination = None, nr_duration = Some d, nr_expiry = Some (be_clock be + d)\<rparr>
                      (nc_active c)\<rparr>))"

definition nav_stop :: "nav_core \<Rightarrow> string \<Rightarrow> reply \<times> nav_core" where
  "nav_stop c robot =
     (if robot \<notin> set (nc_robots c) then (Inl (Refused ''INVALID_ROBOT'' 400), c)
      else
        let c = c\<lparr>backend_log := backend_log c @ [CancelTask robot]\<rparr>;
            r = map_of (nc_active c) robot
        in (Inr [(''status'', PStr ''stopped''),
                 (''cancelled_task_id'', case r of None \<Rightarrow> PNone | Some r \<Rightarrow> PStr (nr_task_id r)),
                 (''robot'', PStr robot)],
            c\<lparr>nc_active := AList.delete robot (nc_active c)\<rparr>))"

definition nav_status :: "backend \<Rightarrow> nav_core \<Rightarrow> string \<Rightarrow> reply" where
  "nav_status be c robot =
     (if robot \<notin> set (nc_robots c) then Inl (Refused ''INVALID_ROBOT'' 400)
      else case map_of (nc_active c) robot of
          None \<Rightarrow> Inr [(''robot'', PStr robot), (''nav_status'', PStr ''idle''), (''current_task_id'', PNone),
                       (''destination'', PNone), (''progress'', PNone), (''eta_seconds'', PNone)]
        | Some r \<Rightarrow>
            let fb = (case be_feedback be robot of None \<Rightarrow> [] | Some d \<Rightarrow> d) in
            Inr [(''robot'', PStr robot), (''nav_status'', PStr (nr_status r)),
                 (''current_task_id'', PStr (nr_task_id r)),
                 (''destination'', case nr_destination r of None \<Rightarrow> PNone | Some d \<Rightarrow> PStr d),
                 (''progress'', dget fb ''progress''), (''eta_seconds'', dget fb ''eta_seconds'')])"

text \<open>\<open>round(x, 1)\<close>: the nearest multiple of a tenth, ties to even, as a float; NaN and the infinities stay.\<close>

fun round_tenth :: "pyfloat \<Rightarrow> pyfloat" where
  "round_tenth (Fin x) = fround (of_int (rne (x * 10)) / 10)"
| "round_tenth a = a"

definition health :: "backend \<Rightarrow> nav_core \<Rightarrow> (string \<times> pyval) list" where
  "health be c =
     [(''status'', PStr ''ok''),
      (''navigators'', PDict (map (\<lambda>r. (r, PStr (if be_ready be r then ''ready'' else ''not_ready'')))
         (sorted_list_of_set (set (nc_robots c))))),
      (''uptime_seconds'', PFloat (round_tenth (be_clock be - nc_start c)))]"

section \<open>The completion monitor\<close>

definition completed :: "backend \<Rightarrow> string \<Rightarrow> nav_record \<Rightarrow> string option" where
  "completed be robot r =
     (if nr_status r = ''navigating'' \<and> be_is_complete be robot then Some (be_result be robot)
      else if nr_status r = ''waiting''
           \<and> (case nr_expiry r of None \<Rightarrow> be_clock be | Some t \<Rightarrow> t) \<le> be_clock be then Some ''succeeded''
      else None)"

type_synonym goal_result = "string \<times> string \<times> string"

text \<open>\<open>result\<close> is asked of the backend for a finished navigation only, which the log records.\<close>

fun poll_items ::
    "backend \<Rightarrow> (string, nav_record) pydict \<Rightarrow> goal_result list \<times> (string, nav_record) pydict \<times> backend_call list" where
  "poll_items be [] = ([], [], [])"
| "poll_items be ((robot, r) # rest) =
     (let (out, rest', calls) = poll_items be rest in
      case completed be robot r of
        None \<Rightarrow> (out, (robot, r) # rest', calls)
      | Some res \<Rightarrow>
          ((robot, nr_task_id r, res) # out, (robot, r\<lparr>nr_status := res\<rparr>) # rest',
           (if nr_status r = ''navigating'' then [GetResult robot] else []) @ calls))"

definition poll_results :: "backend \<Rightarrow> nav_core \<Rightarrow> goal_result list \<times> nav_core" where
  "poll_results be c =
     (let (out, active, calls) = poll_items be (nc_active c) in
      (out, c\<lparr>nc_active := active, backend_log := backend_log c @ calls\<rparr>))"

section \<open>The endpoints and the monitor timer\<close>

datatype nav_op =
    PostNavigate string "string option" "string option" "pyfloat list option"
  | PostWait string pyfloat
  | PostStop string
  | GetStatus string
  | GetHealth
  | Poll

text \<open>
  One request or one monitor tick: the reply of a request, the published goal results of a tick.
\<close>

fun nav_step ::
    "(string \<Rightarrow> pyfloat result) \<Rightarrow> backend \<Rightarrow> nav_core \<Rightarrow> nav_op \<Rightarrow> reply \<times> goal_result list \<times> nav_core" where
  "nav_step ps be c (PostNavigate robot destination via goal) =
     (let (r, c) = nav_navigate ps be c robot destination via (map_option (\<lambda>g. PList (map PFloat g)) goal) in (r, [], c))"
| "nav_step ps be c (PostWait robot duration) =
     (let (r, c) = nav_wait be c robot (PFloat duration) in (r, [], c))"
| "nav_step ps be c (PostStop robot) = (let (r, c) = nav_stop c robot in (r, [], c))"
| "nav_step ps be c (GetStatus robot) = (nav_status be c robot, [], c)"
| "nav_step ps be c GetHealth = (Inr (health be c), [], c)"
| "nav_step ps be c Poll = (let (out, c) = poll_results be c in (Inr [], out, c))"

fun nav_run ::
    "(string \<Rightarrow> pyfloat result) \<Rightarrow> nav_core \<Rightarrow> (backend \<times> nav_op) list \<Rightarrow> goal_result list \<times> nav_core" where
  "nav_run ps c [] = ([], c)"
| "nav_run ps c ((be, oper) # ops) =
     (let (_, out, c) = nav_step ps be c oper; (outs, c) = nav_run ps c ops in (out @ outs, c))"

end
