(* ===== verification/XErCycle.thy ===== *)
theory XErCycle
  imports PlanPipelineProps PluginGateProps EmergencySync Nav2Bridge
begin

text \<open>
  The Mode X-ER commander, \<open>x_er_cycle.py\<close> (one cycle: plugin gate, planning core, generation, dispatch,
  commit), \<open>x_er_completion.py\<close> (goal results become task transitions) and the loop of
  \<open>x_er_bridge.py\<close> that drains, cycles, folds and parks. The model's raw answer, the plugins and the tool
  backend are inputs; message texts and logging are left out. A cycle runs on one thread and goal
  results are only queued while it runs, so an iteration is one step and results arrive between steps.
\<close>

section \<open>Goal results\<close>

text \<open>\<open>parse_goal_result\<close>: robot, the bridge's own task id, result.\<close>

definition parse_goal_result :: "json_text \<Rightarrow> goal_result option" where
  "parse_goal_result data =
     (case data of
        Some (PDict d) \<Rightarrow>
          (case (dget d ''robot'', dget d ''result'') of
             (PStr robot, PStr res) \<Rightarrow>
               if robot = [] \<or> res = [] then None
               else Some (robot, (case dget d ''task_id'' of PStr t \<Rightarrow> t | _ \<Rightarrow> []), res)
           | _ \<Rightarrow> None)
      | _ \<Rightarrow> None)"

definition GOAL_RESULT_SUCCEEDED :: string where "GOAL_RESULT_SUCCEEDED = ''succeeded''"
definition GOAL_RESULT_FAILED :: string where "GOAL_RESULT_FAILED = ''failed''"

datatype goal_reason =
    NothingInFlight string | NotRunning string string task_status | TaskSucceeded string string
  | TaskFailed string string | UnknownResult string string

record goal_outcome =
  go_applied :: bool
  go_transition :: "string option"
  go_retrigger :: bool
  go_reason :: goal_reason

definition goal_ignored :: "goal_reason \<Rightarrow> goal_outcome" where
  "goal_ignored why = \<lparr>go_applied = False, go_transition = None, go_retrigger = False, go_reason = why\<rparr>"

text \<open>The in-flight map and the executor's store; a stored state that does not parse raises.\<close>

definition apply_goal_result ::
    "goal_result \<Rightarrow> string \<Rightarrow> (string, string) pydict \<Rightarrow> graph_store \<Rightarrow>
       (goal_outcome \<times> (string, string) pydict \<times> graph_store) result" where
  "apply_goal_result gr plan inflight st =
     (let (robot, _, res) = gr in
      case map_of inflight robot of
        None \<Rightarrow> Inr (goal_ignored (NothingInFlight robot), inflight, st)
      | Some node \<Rightarrow>
          bindR (load_state plan st) (\<lambda>s.
            if status_of (graph s) node \<noteq> RUNNING
            then Inr (goal_ignored (NotRunning robot node (status_of (graph s) node)), AList.delete robot inflight, st)
            else if res = GOAL_RESULT_SUCCEEDED
            then bindR (mark_succeeded plan node s) (\<lambda>s.
              Inr (\<lparr>go_applied = True, go_transition = Some GOAL_RESULT_SUCCEEDED, go_retrigger = True,
                    go_reason = TaskSucceeded robot node\<rparr>, AList.delete robot inflight, store s))
            else if res = GOAL_RESULT_FAILED
            then bindR (mark_failed plan node s) (\<lambda>s.
              Inr (\<lparr>go_applied = True, go_transition = Some GOAL_RESULT_FAILED, go_retrigger = False,
                    go_reason = TaskFailed robot node\<rparr>, AList.delete robot inflight, store s))
            else Inr (goal_ignored (UnknownResult robot node), inflight, st)))"

fun fold_inflight :: "(string, string) pydict \<Rightarrow> (string \<times> string) list \<Rightarrow> (string \<times> string) list \<times> (string, string) pydict" where
  "fold_inflight inflight [] = ([], inflight)"
| "fold_inflight inflight ((robot, node) # rest) =
     (if robot \<in> fst ` set inflight
      then let (refused, m) = fold_inflight inflight rest in ((robot, node) # refused, m)
      else fold_inflight (inflight @ [(robot, node)]) rest)"

fun apply_queue ::
    "goal_result list \<Rightarrow> string \<Rightarrow> (string, string) pydict \<Rightarrow> graph_store \<Rightarrow>
       (goal_outcome list \<times> (string, string) pydict \<times> graph_store) result" where
  "apply_queue [] plan inflight st = Inr ([], inflight, st)"
| "apply_queue (gr # grs) plan inflight st =
     bindR (apply_goal_result gr plan inflight st) (\<lambda>(o1, inflight, st).
     bindR (apply_queue grs plan inflight st) (\<lambda>(os, inflight, st). Inr (o1 # os, inflight, st)))"

definition apply_pending_completions ::
    "goal_result list \<Rightarrow> string option \<Rightarrow> (string, string) pydict \<Rightarrow> graph_store \<Rightarrow>
       (goal_outcome list \<times> (string, string) pydict \<times> graph_store) result" where
  "apply_pending_completions pending plan inflight st =
     (case plan of None \<Rightarrow> Inr ([], inflight, st) | Some p \<Rightarrow> apply_queue pending p inflight st)"

section \<open>One cycle\<close>

record 's xer_env =
  xv_exec :: "'s exec"
  xv_read_gen :: "'s \<Rightarrow> int result"
  xv_publish :: "int \<Rightarrow> 's \<Rightarrow> 's"
  xv_mint :: "nat \<Rightarrow> string"
  xv_lib :: libm
  xv_loads :: json_reader
  xv_parse :: plan_parser
  xv_coerce :: "(string \<times> pyval) list \<Rightarrow> finding option"
  xv_composition :: composition
  xv_plugins :: "(string \<times> plugin) list"
  xv_calibration :: calibration
  xv_visual_policy :: visual_policy

record xer_outcome =
  xo_command :: command
  xo_dispatched :: "payload list"
  xo_report :: "composed_report option"
  xo_skipped :: "string option"
  xo_committed :: "(string \<times> string) list"
  xo_plan_id :: "string option"

definition SKIPPED_ADAPTER_ERROR :: string where "SKIPPED_ADAPTER_ERROR = ''adapter_error''"
definition SKIPPED_PLUGIN_REJECTED :: string where "SKIPPED_PLUGIN_REJECTED = ''plugin_rejected''"
definition SKIPPED_EMPTY_COMMAND :: string where "SKIPPED_EMPTY_COMMAND = ''empty_command''"

definition skipped_outcome :: "command \<Rightarrow> string \<Rightarrow> composed_report option \<Rightarrow> string option \<Rightarrow> xer_outcome" where
  "skipped_outcome cmd why rep plan =
     \<lparr>xo_command = cmd, xo_dispatched = [], xo_report = rep, xo_skipped = Some why, xo_committed = [], xo_plan_id = plan\<rparr>"

text \<open>The audit compile always succeeds, its profile is the one the compiler supports.\<close>

definition align_task_ids :: "command \<Rightarrow> ready_task list \<Rightarrow> resolved_target list \<Rightarrow> string option list" where
  "align_task_ids cmd ready targets =
     (case compile_with_audit X_LITE ready targets of
        Inl _ \<Rightarrow> []
      | Inr audit \<Rightarrow>
          if cm_commands (cr_command audit) \<noteq> cm_commands cmd then replicate (length (cm_commands cmd)) None
          else map Some (cr_compiled audit))"

text \<open>
  The dispatch loop: the accepted results and the committed pairs, the executor's handle and the backend.
  Items, task ids and calls have the same length, so the strict \<open>zip\<close> of the code does not raise.
\<close>

fun xer_dispatch ::
    "'s exec \<Rightarrow> string \<Rightarrow> nat \<Rightarrow> (command_item \<times> string option \<times> tool_request) list \<Rightarrow> exec_state \<Rightarrow> 's \<Rightarrow>
       (payload list \<times> (string \<times> string) list) result \<times> exec_state \<times> 's" where
  "xer_dispatch exec plan n [] st s = (Inr ([], []), st, s)"
| "xer_dispatch exec plan n ((i, tid, r) # rest) st s =
     (case exec n s r of
        (Inl e, s) \<Rightarrow> (Inl e, st, s)
      | (Inr res, s) \<Rightarrow>
          if \<not> is_ok res then xer_dispatch exec plan (Suc n) rest st s
          else case tid of
              None \<Rightarrow>
                (case xer_dispatch exec plan (Suc n) rest st s of
                   (Inl e, st, s) \<Rightarrow> (Inl e, st, s)
                 | (Inr (ds, cs), st, s) \<Rightarrow> (Inr (res # ds, cs), st, s))
            | Some t \<Rightarrow>
                (case mark_running plan t st of
                   Inl e \<Rightarrow> (Inl e, st, s)
                 | Inr st \<Rightarrow>
                     (case xer_dispatch exec plan (Suc n) rest st s of
                        (Inl e, st, s) \<Rightarrow> (Inl e, st, s)
                      | (Inr (ds, cs), st, s) \<Rightarrow> (Inr (res # ds, (ci_bot i, t) # cs), st, s))))"

text \<open>\<open>EmergencyMirrorStateSource\<close>; \<open>None\<close> is a read that the other thread's update made raise.\<close>

definition emergency_of :: "mirror option \<Rightarrow> bool" where
  "emergency_of m = (case m of None \<Rightarrow> True | Some m \<Rightarrow> last_stop m \<noteq> [])"

definition cycle_context :: "mirror option \<Rightarrow> planning_context" where
  "cycle_context m = \<lparr>policy = warehouse_reference_policy, emergency_active = emergency_of m, state_age_s = None\<rparr>"

text \<open>
  The commit phase for a non-empty command: the generation is read, bumped and published before the first
  call; then the handle is loaded, the ready set and the resolution are recomputed for the alignment.
\<close>

definition xer_commit ::
    "'s xer_env \<Rightarrow> plan_draft \<Rightarrow> composed_report \<Rightarrow> command \<Rightarrow> graph_store \<Rightarrow> nat \<Rightarrow> 's \<Rightarrow>
       ((exc + refusal) + xer_outcome) \<times> graph_store \<times> nat \<times> 's" where
  "xer_commit v draft rep cmd st n s =
     (case xv_read_gen v s of
        Inl e \<Rightarrow> (Inl (Inl e), st, n, s)
      | Inr g \<Rightarrow>
          (let gen = g + 1; s = xv_publish v gen s in
           case load_state (plan_id draft) st of
             Inl e \<Rightarrow> (Inl (Inl e), st, n, s)
           | Inr h \<Rightarrow>
               (let (ready, h) = ready_tasks (plan_id draft) (task_graph draft) h in
                case resolve (xv_lib v) (xv_visual_policy v) draft (xv_calibration v) of
                  Inl e \<Rightarrow> (Inl (Inl e), store h, n, s)
                | Inr resolution \<Rightarrow>
                    (let tids = align_task_ids cmd ready resolution;
                         calls = command_to_tool_calls (xv_mint v) n (cm_commands cmd) gen;
                         n' = n + length calls
                     in case xer_dispatch (xv_exec v) (plan_id draft) n (zip (cm_commands cmd) (zip tids calls)) h s of
                          (Inl e, h, s) \<Rightarrow> (Inl (Inl e), store h, n', s)
                        | (Inr (ds, cs), h, s) \<Rightarrow>
                            (Inr \<lparr>xo_command = cmd, xo_dispatched = ds, xo_report = Some rep, xo_skipped = None,
                                  xo_committed = cs, xo_plan_id = Some (plan_id draft)\<rparr>, store h, n', s)))))"

definition run_x_er_cycle ::
    "'s xer_env \<Rightarrow> raw_output option \<Rightarrow> mirror option \<Rightarrow> graph_store \<Rightarrow> nat \<Rightarrow> 's \<Rightarrow>
       ((exc + refusal) + xer_outcome) \<times> graph_store \<times> nat \<times> 's" where
  "run_x_er_cycle v ans m st n s =
     (case ans of
        None \<Rightarrow> (Inr (skipped_outcome (empty_command ''Mode X-ER: cycle skipped (adapter error)'')
                   SKIPPED_ADAPTER_ERROR None None), st, n, s)
      | Some raw \<Rightarrow>
          (case to_robotics_plan_draft (xv_loads v) (xv_parse v) raw of
             Inl e \<Rightarrow> (Inl (Inl e), st, n, s)
           | Inr draft \<Rightarrow>
               (case validate_with_plugins (xv_coerce v) (xv_composition v) (xv_plugins v) draft (cycle_context m) of
                  Inl r \<Rightarrow> (Inl r, st, n, s)
                | Inr rep \<Rightarrow>
                    if \<not> composed_permits rep
                    then (Inr (skipped_outcome
                            (empty_command (''Mode X-ER: plan not dispatched (composed validation status=''
                               @ validation_status_value (cp_status rep) @ '')''))
                            SKIPPED_PLUGIN_REJECTED (Some rep) (Some (plan_id draft))), st, n, s)
                    else case compile_raw_output (xv_lib v) (xv_loads v) (xv_parse v) (xv_visual_policy v)
                                (xv_calibration v) (cycle_context m) X_LITE (ExecutorInjected st) raw of
                        (Inl e, st) \<Rightarrow> (Inl (Inl e), st, n, s)
                      | (Inr cmd, st) \<Rightarrow>
                          if cm_commands cmd = []
                          then (Inr (skipped_outcome cmd SKIPPED_EMPTY_COMMAND (Some rep) (Some (plan_id draft))), st, n, s)
                          else xer_commit v draft rep cmd st n s)))"

section \<open>The loop\<close>

record xer =
  xe_store :: graph_store
  xe_plan_id :: "string option"
  xe_inflight :: "(string, string) pydict"
  xe_pending :: "goal_result list"
  xe_minted :: nat
  xe_triggered :: bool
  xe_stopped :: bool

text \<open>The first iteration needs no trigger.\<close>

definition init_xer :: xer where
  "init_xer = \<lparr>xe_store = [], xe_plan_id = None, xe_inflight = [], xe_pending = [], xe_minted = 0,
     xe_triggered = True, xe_stopped = False\<rparr>"

definition on_goal_result_msg :: "json_text \<Rightarrow> xer \<Rightarrow> xer" where
  "on_goal_result_msg data x =
     (case parse_goal_result data of
        None \<Rightarrow> x
      | Some gr \<Rightarrow> x\<lparr>xe_pending := xe_pending x @ [gr], xe_triggered := True\<rparr>)"

text \<open>
  One turn of the loop, entered only with the trigger set: the plan the queue was applied to, what was
  applied, and the cycle's outcome. An exception ends the loop for good.
\<close>

record xer_entry =
  xl_plan :: "string option"
  xl_applied :: "goal_outcome list"
  xl_refused :: "(string \<times> string) list"
  xl_outcome :: xer_outcome

definition xer_iterate ::
    "'s xer_env \<Rightarrow> raw_output option \<Rightarrow> mirror option \<Rightarrow> xer \<Rightarrow> 's \<Rightarrow> xer_entry option \<times> xer \<times> 's" where
  "xer_iterate v ans m x s =
     (if xe_stopped x \<or> \<not> xe_triggered x then (None, x, s)
      else
        case apply_pending_completions (xe_pending x) (xe_plan_id x) (xe_inflight x) (xe_store x) of
          Inl e \<Rightarrow> (None, x\<lparr>xe_stopped := True, xe_pending := [], xe_triggered := False\<rparr>, s)
        | Inr (applied, inflight, st) \<Rightarrow>
            (case run_x_er_cycle v ans m st (xe_minted x) s of
               (Inl r, st, n, s) \<Rightarrow>
                 (None, x\<lparr>xe_store := st, xe_inflight := inflight, xe_pending := [], xe_minted := n,
                          xe_triggered := False, xe_stopped := True\<rparr>, s)
             | (Inr out, st, n, s) \<Rightarrow>
                 (let (refused, inflight') = (if xo_skipped out = None then fold_inflight inflight (xo_committed out)
                                              else ([], inflight)) in
                  (Some \<lparr>xl_plan = xe_plan_id x, xl_applied = applied, xl_refused = refused, xl_outcome = out\<rparr>,
                   x\<lparr>xe_store := st, xe_inflight := inflight', xe_pending := [], xe_minted := n, xe_triggered := False,
                     xe_plan_id := (case xo_plan_id out of None \<Rightarrow> xe_plan_id x | p \<Rightarrow> p)\<rparr>, s))))"

datatype xer_event = GoalMsg json_text | Iterate "raw_output option" "mirror option"

fun xer_run :: "'s xer_env \<Rightarrow> xer_event list \<Rightarrow> xer \<Rightarrow> 's \<Rightarrow> xer_entry list \<times> xer \<times> 's" where
  "xer_run v [] x s = ([], x, s)"
| "xer_run v (GoalMsg d # es) x s = xer_run v es (on_goal_result_msg d x) s"
| "xer_run v (Iterate ans m # es) x s =
     (let (entry, x, s) = xer_iterate v ans m x s; (rest, x, s) = xer_run v es x s
      in ((case entry of None \<Rightarrow> rest | Some en \<Rightarrow> en # rest), x, s))"

end
