(* ===== verification/XErCycleProps.thy ===== *)
theory XErCycleProps
  imports XErCycle
begin

text \<open>
  One cycle of Mode X-ER: the ready set that a cycle compiles is the one it commits, the store only moves
  tasks forward, and what a cycle commits was open, accepted by the composed report and released.
\<close>

section \<open>The ready set is stable\<close>

lemma ready_loop_effect:
  "ready_loop ns emitted r = (ready, r') \<Longrightarrow>
     map_of r' u = map_of r u \<or>
     (status_of r u \<notin> set NON_EMITTABLE \<and> u \<notin> set emitted \<and>
        (map_of r' u = Some READY \<or> map_of r' u = Some PENDING \<and> status_of r u \<noteq> READY))"
proof (induction ns emitted r arbitrary: ready r' rule: ready_loop.induct)
  case (2 n ns emitted r)
  let ?t = "node_id n" and ?st = "status_of r (node_id n)"
  have set_map: "map_of (set_status r ?t st) u = (if u = ?t then Some st else map_of r u)" for st
    by (simp add: set_status_def update_conv')
  consider (skip) "?st \<in> set NON_EMITTABLE \<or> ?t \<in> set emitted"
    | (emit) "?st \<notin> set NON_EMITTABLE" "?t \<notin> set emitted" "dependencies_met n r"
    | (wait) "?st \<notin> set NON_EMITTABLE" "?t \<notin> set emitted" "\<not> dependencies_met n r" "?st \<noteq> READY"
    | (keep) "?st \<notin> set NON_EMITTABLE" "?t \<notin> set emitted" "\<not> dependencies_met n r" "?st = READY"
    by blast
  then show ?case
  proof cases
    case skip
    then have "ready_loop ns emitted r = (ready, r')" using "2.prems" by (auto simp: Let_def split: if_splits)
    then show ?thesis using "2.IH"(1,2) skip by (cases "?st \<in> set NON_EMITTABLE") auto
  next
    case emit
    then obtain rest where l: "ready_loop ns (?t # emitted) (set_status r ?t READY) = (rest, r')"
      using "2.prems" by (auto simp: Let_def split: prod.splits)
    show ?thesis using "2.IH"(3) [OF refl emit(1,2,3) l] emit by (auto simp: set_map split: if_splits)
  next
    case wait
    then have l: "ready_loop ns emitted (set_status r ?t PENDING) = (ready, r')" using "2.prems" by simp
    show ?thesis using "2.IH"(4) [OF refl wait(1-4) l] wait by (auto simp: set_map split: if_splits)
  next
    case keep
    then have l: "ready_loop ns emitted r = (ready, r')" using "2.prems" by simp
    show ?thesis using "2.IH"(5) [OF refl keep(1-3) _ l] keep by simp
  qed
qed simp

lemma ready_loop_same_class:
  assumes "ready_loop ns emitted r = (ready, r')"
  shows "status_of r' u \<in> set NON_EMITTABLE \<longleftrightarrow> status_of r u \<in> set NON_EMITTABLE"
    and "status_of r u \<in> set NON_EMITTABLE \<Longrightarrow> status_of r' u = status_of r u"
    and "dependencies_met n r' = dependencies_met n r"
proof -
  have ne: "PENDING \<notin> set NON_EMITTABLE" "READY \<notin> set NON_EMITTABLE" "COMPLETED_STATUS \<in> set NON_EMITTABLE"
    by (simp_all add: NON_EMITTABLE_def TERMINAL_STATUSES_def COMPLETED_STATUS_def)
  show a: "status_of r' u \<in> set NON_EMITTABLE \<longleftrightarrow> status_of r u \<in> set NON_EMITTABLE" for u
    using ready_loop_effect [OF assms, of u] ne by (auto simp: status_of_def)
  show b: "status_of r u \<in> set NON_EMITTABLE \<Longrightarrow> status_of r' u = status_of r u" for u
    using ready_loop_effect [OF assms, of u] by (auto simp: status_of_def)
  have "status_of r' u = COMPLETED_STATUS \<longleftrightarrow> status_of r u = COMPLETED_STATUS" for u
    using a [of u] b [of u] ne(3) by metis
  then show "dependencies_met n r' = dependencies_met n r" by (simp add: dependencies_met_def split: option.splits)
qed

lemma set_status_same: "map_of r t = Some st \<Longrightarrow> set_status r t st = r"
  unfolding set_status_def by (induction r) auto

text \<open>Asking again before a task is committed offers the same tasks and changes nothing.\<close>

lemma ready_loop_again:
  "ready_loop ns emitted r = (ready, r') \<Longrightarrow> ready_loop ns emitted r' = (ready, r')"
proof (induction ns emitted r arbitrary: ready r' rule: ready_loop.induct)
  case (2 n ns emitted r)
  let ?t = "node_id n" and ?st = "status_of r (node_id n)"
  note same = ready_loop_same_class [OF "2.prems"]
  consider (skip) "?st \<in> set NON_EMITTABLE \<or> ?t \<in> set emitted"
    | (emit) "?st \<notin> set NON_EMITTABLE" "?t \<notin> set emitted" "dependencies_met n r"
    | (wait) "?st \<notin> set NON_EMITTABLE" "?t \<notin> set emitted" "\<not> dependencies_met n r" "?st \<noteq> READY"
    | (keep) "?st \<notin> set NON_EMITTABLE" "?t \<notin> set emitted" "\<not> dependencies_met n r" "?st = READY"
    by blast
  then show ?case
  proof cases
    case skip
    then have l: "ready_loop ns emitted r = (ready, r')" using "2.prems" by (auto simp: Let_def split: if_splits)
    have "ready_loop ns emitted r' = (ready, r')"
    proof (cases "?st \<in> set NON_EMITTABLE")
      case True
      show ?thesis by (rule "2.IH"(1) [OF refl True l])
    next
      case False
      then show ?thesis using "2.IH"(2) [OF refl False _ l] skip by blast
    qed
    then show ?thesis using skip same(1) [of ?t] by auto
  next
    case emit
    then obtain rest where l: "ready_loop ns (?t # emitted) (set_status r ?t READY) = (rest, r')" "ready = from_node n # rest"
      using "2.prems" by (auto simp: Let_def split: prod.splits)
    have "map_of r' ?t = Some READY"
      using ready_loop_effect [OF l(1), of ?t] by (simp add: set_status_def update_conv')
    then show ?thesis
      using "2.IH"(3) [OF refl emit(1,2,3) l(1)] emit same by (simp add: Let_def l(2) set_status_same)
  next
    case wait
    then have l: "ready_loop ns emitted (set_status r ?t PENDING) = (ready, r')" using "2.prems" by simp
    have "map_of r' ?t = Some READY \<or> map_of r' ?t = Some PENDING"
      using ready_loop_effect [OF l, of ?t] by (auto simp: set_status_def update_conv')
    then show ?thesis
    proof
      assume "map_of r' ?t = Some READY"
      then have "status_of r' ?t = READY" by (simp add: status_of_def)
      then show ?thesis
        using "2.IH"(4) [OF refl wait(1-4) l] wait(2,3) same(1) [of ?t] same(3) [of n] wait(1) by simp
    next
      assume m: "map_of r' ?t = Some PENDING"
      then have "status_of r' ?t = PENDING" by (simp add: status_of_def)
      then show ?thesis
        using "2.IH"(4) [OF refl wait(1-4) l] wait(2,3) same(1) [of ?t] same(3) [of n] wait(1)
        by (simp add: set_status_same [OF m])
    qed
  next
    case keep
    then have l: "ready_loop ns emitted r = (ready, r')" using "2.prems" by simp
    have "status_of r' ?t = READY" using ready_loop_effect [OF l, of ?t] keep(4) by (auto simp: status_of_def)
    then show ?thesis using "2.IH"(5) [OF refl keep(1-3) _ l] keep same by simp
  qed
qed simp

text \<open>An offered task is marked ready, and its node's dependency has succeeded.\<close>

lemma ready_loop_member:
  "ready_loop ns emitted r = (ready, r') \<Longrightarrow> x \<in> set ready \<Longrightarrow>
     status_of r' (rt_id x) = READY \<and> (\<exists>n \<in> set ns. x = from_node n \<and> dependencies_met n r)"
proof (induction ns emitted r arbitrary: ready r' rule: ready_loop.induct)
  case (2 n ns emitted r)
  let ?t = "node_id n" and ?st = "status_of r (node_id n)"
  consider (skip) "?st \<in> set NON_EMITTABLE \<or> ?t \<in> set emitted"
    | (emit) "?st \<notin> set NON_EMITTABLE" "?t \<notin> set emitted" "dependencies_met n r"
    | (wait) "?st \<notin> set NON_EMITTABLE" "?t \<notin> set emitted" "\<not> dependencies_met n r" "?st \<noteq> READY"
    | (keep) "?st \<notin> set NON_EMITTABLE" "?t \<notin> set emitted" "\<not> dependencies_met n r" "?st = READY"
    by blast
  then show ?case
  proof cases
    case skip
    then have l: "ready_loop ns emitted r = (ready, r')" using "2.prems"(1) by (auto simp: Let_def split: if_splits)
    show ?thesis
    proof (cases "?st \<in> set NON_EMITTABLE")
      case True
      from "2.IH"(1) [OF refl True l "2.prems"(2)] show ?thesis by auto
    next
      case False
      then have "?t \<in> set emitted" using skip by blast
      from "2.IH"(2) [OF refl False this l "2.prems"(2)] show ?thesis by auto
    qed
  next
    case emit
    then obtain rest where l: "ready_loop ns (?t # emitted) (set_status r ?t READY) = (rest, r')" "ready = from_node n # rest"
      using "2.prems"(1) by (auto simp: Let_def split: prod.splits)
    have t: "status_of r' ?t = READY" using ready_loop_effect [OF l(1), of ?t] by (auto simp: status_of_def set_status_def update_conv')
    have deps: "dependencies_met m (set_status r ?t READY) \<Longrightarrow> dependencies_met m r" for m
      using emit(1) by (auto simp: dependencies_met_def COMPLETED_STATUS_def split: option.splits if_splits)
    show ?thesis
    proof (cases "x = from_node n")
      case True
      then show ?thesis using t emit(3) by (auto simp: from_node_def)
    next
      case False
      then have "x \<in> set rest" using "2.prems"(2) l(2) by simp
      from "2.IH"(3) [OF refl emit(1,2,3) l(1) this] show ?thesis using deps by auto
    qed
  next
    case wait
    then have l: "ready_loop ns emitted (set_status r ?t PENDING) = (ready, r')" using "2.prems"(1) by simp
    have deps: "dependencies_met m (set_status r ?t PENDING) \<Longrightarrow> dependencies_met m r" for m
      using wait(1) by (auto simp: dependencies_met_def COMPLETED_STATUS_def split: option.splits if_splits)
    from "2.IH"(4) [OF refl wait(1-4) l "2.prems"(2)] show ?thesis using deps by auto
  next
    case keep
    then have l: "ready_loop ns emitted r = (ready, r')" using "2.prems"(1) by simp
    from "2.IH"(5) [OF refl keep(1-3) _ l "2.prems"(2)] show ?thesis using keep by auto
  qed
qed simp

section \<open>The store\<close>

definition view :: "graph_store \<Rightarrow> string \<Rightarrow> runtime" where
  "view st p = (case from_store_dict (dget st p) of Inr r \<Rightarrow> r | Inl _ \<Rightarrow> [])"

definition store_ok :: "graph_store \<Rightarrow> bool" where
  "store_ok st \<longleftrightarrow> (\<forall>p. from_store_dict (dget st p) = Inr (view st p) \<and> dict_ok (view st p))"

definition stat :: "graph_store \<Rightarrow> string \<Rightarrow> string \<Rightarrow> task_status" where
  "stat st p t = status_of (view st p) t"

definition evolves :: "graph_store \<Rightarrow> graph_store \<Rightarrow> bool" where
  "evolves st st' \<longleftrightarrow> store_ok st' \<and> (\<forall>p t. advances (stat st p t) (stat st' p t))"

lemma dget_update_other: "p \<noteq> q \<Longrightarrow> dget (AList.update p v st) q = dget st q"
  by (simp add: dget_def update_conv')

lemma view_persist: "dict_ok r \<Longrightarrow> view (persist p r st) q = (if q = p then r else view st q)"
  by (simp add: view_def persist_def store_roundtrip dget_update_other)

lemma stat_persist: "dict_ok r \<Longrightarrow> stat (persist p r st) q t = (if q = p then status_of r t else stat st q t)"
  by (simp add: stat_def view_persist)

lemma store_ok_persist: "store_ok st \<Longrightarrow> dict_ok r \<Longrightarrow> store_ok (persist p r st)"
  unfolding store_ok_def
  by (auto simp: view_persist) (simp add: persist_def store_roundtrip, simp add: persist_def dget_update_other)

lemma store_ok_empty: "store_ok []"
  by (simp add: store_ok_def view_def dget_def from_store_dict_def)

lemma stat_empty: "stat [] p t = PENDING"
  by (simp add: stat_def view_def dget_def from_store_dict_def status_of_def)

lemma evolves_refl: "store_ok st \<Longrightarrow> evolves st st"
  by (simp add: evolves_def)

lemma evolves_trans: "evolves a b \<Longrightarrow> evolves b c \<Longrightarrow> evolves a c"
  unfolding evolves_def using advances_trans by blast

lemma evolves_persist:
  "store_ok st \<Longrightarrow> dict_ok r \<Longrightarrow> (\<And>t. advances (stat st p t) (status_of r t)) \<Longrightarrow> evolves st (persist p r st)"
  by (simp add: evolves_def store_ok_persist stat_persist)

text \<open>A loaded handle is the store's view of the plan, and its operations keep it so.\<close>

definition handle :: "string \<Rightarrow> exec_state \<Rightarrow> bool" where
  "handle p h \<longleftrightarrow> store_ok (store h) \<and> graph h = view (store h) p"

lemma load_handle: "store_ok st \<Longrightarrow> load_state p st = Inr \<lparr>graph = view st p, store = st\<rparr>"
  by (simp add: load_state_def store_ok_def)

lemma loaded: "store_ok st \<Longrightarrow> load_state p st = Inr h \<Longrightarrow> handle p h \<and> store h = st"
  by (auto simp: load_handle handle_def)

lemma handle_status: "handle p h \<Longrightarrow> status_of (graph h) t = stat (store h) p t"
  by (simp add: handle_def stat_def)

lemma handle_dict: "handle p h \<Longrightarrow> dict_ok (graph h)"
  by (simp add: handle_def store_ok_def)

lemma commit_handle:
  assumes "handle p h" and "advances (stat (store h) p t) st"
  shows "handle p (commit p t st h) \<and> evolves (store h) (store (commit p t st h))
    \<and> (\<forall>q u. stat (store (commit p t st h)) q u = (if q = p \<and> u = t then st else stat (store h) q u))"
proof -
  let ?r = "set_status (graph h) t st"
  have r: "dict_ok ?r" using handle_dict [OF assms(1)] by simp
  have ok: "store_ok (store h)" using assms(1) by (simp add: handle_def)
  have s: "status_of ?r u = (if u = t then st else stat (store h) p u)" for u
    using handle_status [OF assms(1)] by simp
  have adv: "advances (stat (store h) p u) (status_of ?r u)" for u
    using assms(2) handle_status [OF assms(1)] by (auto simp: s)
  show ?thesis
    using evolves_persist [OF ok r adv] store_ok_persist [OF ok r] r s handle_status [OF assms(1)]
    by (simp add: commit_def handle_def Let_def view_persist stat_persist)
qed

lemma ready_handle:
  assumes "handle p h" and "ready_tasks p ns h = (ready, h')"
  shows "handle p h'" and "evolves (store h) (store h')"
    and "\<And>q u. stat (store h') q u \<in> set NON_EMITTABLE \<longleftrightarrow> stat (store h) q u \<in> set NON_EMITTABLE"
    and "\<And>q u. stat (store h) q u \<in> set NON_EMITTABLE \<Longrightarrow> stat (store h') q u = stat (store h) q u"
    and "ready_tasks p ns h' = (ready, h')"
    and "distinct (map rt_id ready)"
    and "\<And>x. x \<in> set ready \<Longrightarrow> stat (store h') p (rt_id x) = READY \<and> (\<exists>n \<in> set ns. x = from_node n \<and>
           (\<forall>a. node_after n = Some a \<longrightarrow> stat (store h) p (ref_id a) = SUCCEEDED))"
proof -
  obtain r where l: "ready_loop ns [] (graph h) = (ready, r)" and h': "h' = h\<lparr>graph := r, store := persist p r (store h)\<rparr>"
    using assms(2) by (auto simp: ready_tasks_def split: prod.splits)
  note all = ready_loop_all [OF l, of ns]
  have ok: "store_ok (store h)" using assms(1) by (simp add: handle_def)
  have r: "dict_ok r" using all handle_dict [OF assms(1)] by blast
  show hd: "handle p h'" using store_ok_persist [OF ok r] r by (simp add: h' handle_def view_persist)
  show "evolves (store h) (store h')"
    using all handle_status [OF assms(1)] evolves_persist [OF ok r, of p] by (simp add: h')
  show "stat (store h') q u \<in> set NON_EMITTABLE \<longleftrightarrow> stat (store h) q u \<in> set NON_EMITTABLE" for q u
    using ready_loop_same_class(1) [OF l] handle_status [OF assms(1)] by (simp add: h' stat_persist [OF r])
  show "stat (store h) q u \<in> set NON_EMITTABLE \<Longrightarrow> stat (store h') q u = stat (store h) q u" for q u
    using ready_loop_same_class(2) [OF l] handle_status [OF assms(1)] by (auto simp: h' stat_persist [OF r])
  have "persist p r (persist p r (store h)) = persist p r (store h)"
    unfolding persist_def by (induction "store h") auto
  then show "ready_tasks p ns h' = (ready, h')" using ready_loop_again [OF l] by (simp add: ready_tasks_def h')
  show "distinct (map rt_id ready)" using all by blast
  show "stat (store h') p (rt_id x) = READY \<and> (\<exists>n \<in> set ns. x = from_node n \<and>
           (\<forall>a. node_after n = Some a \<longrightarrow> stat (store h) p (ref_id a) = SUCCEEDED))" if "x \<in> set ready" for x
    using ready_loop_member [OF l that] handle_status [OF assms(1)]
    by (auto simp: h' stat_persist [OF r] dependencies_met_def COMPLETED_STATUS_def split: option.splits)
qed

section \<open>What a cycle does to the store\<close>

lemma compile_evolves:
  assumes "compile_raw_output lib loads parse vpol cal ctx profile injected raw = (res, st')"
    and ok: "store_ok (injected_store injected)"
  shows "evolves (injected_store injected) st'"
    and "stat (injected_store injected) q u \<in> set NON_EMITTABLE \<longleftrightarrow> stat st' q u \<in> set NON_EMITTABLE"
    and "stat (injected_store injected) q u \<in> set NON_EMITTABLE \<Longrightarrow> stat st' q u = stat (injected_store injected) q u"
proof -
  let ?st = "injected_store injected"
  have "st' = ?st \<or> (\<exists>(draft :: plan_draft) h ready h'. load_state (plan_id draft) ?st = Inr h
        \<and> ready_tasks (plan_id draft) (task_graph draft) h = (ready, h') \<and> st' = store h')"
    using assms(1) unfolding compile_raw_output_def Let_def
    by (auto split: if_splits sum.splits prod.splits)
  then have cases: "st' = ?st \<or> (\<exists>(draft :: plan_draft) h ready h'. handle (plan_id draft) h \<and> store h = ?st
      \<and> ready_tasks (plan_id draft) (task_graph draft) h = (ready, h') \<and> st' = store h')"
    using loaded [OF ok] by blast
  then show "evolves ?st st'" using evolves_refl [OF ok] ready_handle(2) by metis
  show "stat ?st q u \<in> set NON_EMITTABLE \<longleftrightarrow> stat st' q u \<in> set NON_EMITTABLE"
    using cases ready_handle(3) by metis
  show "stat ?st q u \<in> set NON_EMITTABLE \<Longrightarrow> stat st' q u = stat ?st q u"
    using cases ready_handle(4) by metis
qed

text \<open>The alignment finds every item's task: the audit compile is the compile.\<close>

lemma aligned:
  assumes "compile_with_audit X_LITE ready targets = Inr a"
  shows "align_task_ids (cr_command a) ready targets = map Some (cr_compiled a)"
    and "length (cr_compiled a) = length (cm_commands (cr_command a))"
    and "set (cr_compiled a) \<subseteq> rt_id ` set ready" and "distinct (map rt_id ready) \<Longrightarrow> distinct (cr_compiled a)"
proof -
  show "align_task_ids (cr_command a) ready targets = map Some (cr_compiled a)" by (simp add: align_task_ids_def assms)
  show "length (cr_compiled a) = length (cm_commands (cr_command a))"
    using audit_complete(1,3) [OF assms] list_all2_lengthD by fastforce
  show "set (cr_compiled a) \<subseteq> rt_id ` set ready" using audit_complete(1) [OF assms] by auto
  show "distinct (map rt_id ready) \<Longrightarrow> distinct (cr_compiled a)"
    using audit_complete(1) [OF assms] by (auto simp: distinct_map_filter)
qed

lemma ready_to_running: "advances READY RUNNING"
  by (simp add: advances_def TERMINAL_STATUSES_def NON_EMITTABLE_def)

lemma dispatch_effect_on_store:
  assumes "xer_dispatch exec p n xs h s = (res, h', s')" and "handle p h"
    and "\<forall>(i, tid, r) \<in> set xs. \<exists>t. tid = Some t \<and> stat (store h) p t = READY"
    and "distinct (map (fst \<circ> snd) xs)"
  shows "handle p h' \<and> evolves (store h) (store h')
     \<and> (\<forall>q u. stat (store h') q u = stat (store h) q u \<or> stat (store h') q u = RUNNING)
     \<and> (\<forall>ds cs. res = Inr (ds, cs) \<longrightarrow> length ds = length cs \<and> distinct (map snd cs)
          \<and> (\<forall>(b, t) \<in> set cs. stat (store h') p t = RUNNING \<and> (b, Some t) \<in> (\<lambda>(i, tid, r). (ci_bot i, tid)) ` set xs))"
  using assms
proof (induction xs arbitrary: n h s res h' s')
  case Nil
  then show ?case by (auto simp: handle_def evolves_refl)
next
  case (Cons x xs)
  obtain i tid r where x: "x = (i, tid, r)" by (metis prod_cases3)
  obtain t where t: "tid = Some t" "stat (store h) p t = READY" using Cons.prems(3) x by auto
  have rest: "\<forall>(i, tid, r) \<in> set xs. \<exists>t'. tid = Some t' \<and> t' \<noteq> t \<and> stat (store h) p t' = READY"
  proof clarify
    fix i' tid' r' assume m: "(i', tid', r') \<in> set xs"
    then obtain t' where t': "tid' = Some t'" "stat (store h) p t' = READY" using Cons.prems(3) by auto
    moreover have "tid' \<noteq> tid" using Cons.prems(4) m by (force simp: x)
    ultimately show "\<exists>t'. tid' = Some t' \<and> t' \<noteq> t \<and> stat (store h) p t' = READY" using t(1) by auto
  qed
  obtain res1 s1 where e: "exec n s r = (res1, s1)" by (metis surj_pair)
  show ?case
  proof (cases res1)
    case (Inl err)
    then show ?thesis using Cons.prems(1,2) by (auto simp: x e handle_def evolves_refl)
  next
    case (Inr out)
    show ?thesis
    proof (cases "is_ok out")
      case False
      have l: "xer_dispatch exec p (Suc n) xs h s1 = (res, h', s')" using Cons.prems(1) False by (simp add: x e Inr)
      have "\<forall>(i, tid, r) \<in> set xs. \<exists>t. tid = Some t \<and> stat (store h) p t = READY" using rest by fastforce
      moreover have "distinct (map (fst \<circ> snd) xs)" using Cons.prems(4) by (simp add: comp_def)
      ultimately have ih: "handle p h' \<and> evolves (store h) (store h')
         \<and> (\<forall>q u. stat (store h') q u = stat (store h) q u \<or> stat (store h') q u = RUNNING)"
        "\<And>ds cs. res = Inr (ds, cs) \<Longrightarrow> length ds = length cs \<and> distinct (map snd cs)
          \<and> (\<forall>(b, t) \<in> set cs. stat (store h') p t = RUNNING \<and> (b, Some t) \<in> (\<lambda>(i, tid, r). (ci_bot i, tid)) ` set xs)"
        using Cons.IH [OF l Cons.prems(2)] by blast+
      then show ?thesis by (fastforce simp: x)
    next
      case True
      let ?h = "commit p t RUNNING h"
      have m: "mark_running p t h = Inr ?h" using t(2) handle_status [OF Cons.prems(2)] by (simp add: mark_running_def)
      have c: "handle p ?h" "evolves (store h) (store ?h)"
        "\<And>q u. stat (store ?h) q u = (if q = p \<and> u = t then RUNNING else stat (store h) q u)"
        using commit_handle [OF Cons.prems(2), of t RUNNING] t(2) ready_to_running by auto
      obtain res2 h2 s2 where l: "xer_dispatch exec p (Suc n) xs ?h s1 = (res2, h2, s2)" by (metis prod_cases3)
      have "\<forall>(i, tid, r) \<in> set xs. \<exists>t. tid = Some t \<and> stat (store ?h) p t = READY" using rest c(3) by fastforce
      moreover have "distinct (map (fst \<circ> snd) xs)" using Cons.prems(4) by (simp add: comp_def)
      ultimately have ih: "handle p h2" "evolves (store ?h) (store h2)"
        "\<And>q u. stat (store h2) q u = stat (store ?h) q u \<or> stat (store h2) q u = RUNNING"
        "\<And>ds cs. res2 = Inr (ds, cs) \<Longrightarrow> length ds = length cs \<and> distinct (map snd cs)
          \<and> (\<forall>(b, t) \<in> set cs. stat (store h2) p t = RUNNING \<and> (b, Some t) \<in> (\<lambda>(i, tid, r). (ci_bot i, tid)) ` set xs)"
        using Cons.IH [OF l c(1)] by blast+
      have hs: "h' = h2" "s' = s2" using Cons.prems(1) by (auto simp: x e Inr True t(1) m l split: sum.splits prod.splits)
      have run: "stat (store h2) p t = RUNNING" using ih(3) [of p t] c(3) by auto
      have "evolves (store h) (store h2)" using evolves_trans [OF c(2) ih(2)] .
      moreover have "stat (store h2) q u = stat (store h) q u \<or> stat (store h2) q u = RUNNING" for q u
        using ih(3) [of q u] c(3) [of q u] by (auto split: if_splits)
      moreover have "length ds = length cs \<and> distinct (map snd cs)
          \<and> (\<forall>(b, t) \<in> set cs. stat (store h2) p t = RUNNING \<and> (b, Some t) \<in> (\<lambda>(i, tid, r). (ci_bot i, tid)) ` set (x # xs))"
        if res_eq: "res = Inr (ds, cs)" for ds cs
      proof -
        obtain ds2 cs2 where r2: "res2 = Inr (ds2, cs2)" "ds = out # ds2" "cs = (ci_bot i, t) # cs2"
          using Cons.prems(1) res_eq by (auto simp: x e Inr True t(1) m l split: sum.splits prod.splits)
        have "t \<notin> snd ` set cs2" using ih(4) [OF r2(1)] Cons.prems(4) by (fastforce simp: x t(1) image_iff)
        then show ?thesis using ih(4) [OF r2(1)] run by (fastforce simp: r2 x t(1))
      qed
      ultimately show ?thesis using ih(1) by (simp add: hs)
    qed
  qed
qed

text \<open>
  What one cycle guarantees of the tasks it commits: each was open before and is running now, its node
  belongs to the plan the report accepted, is for the robot the command names, and its dependency had
  succeeded before the cycle.
\<close>

definition committed_ok :: "graph_store \<Rightarrow> graph_store \<Rightarrow> xer_outcome \<Rightarrow> bool" where
  "committed_ok st st' out \<longleftrightarrow>
     length (xo_dispatched out) = length (xo_committed out) \<and> distinct (map snd (xo_committed out))
     \<and> (\<forall>(b, t) \<in> set (xo_committed out). \<exists>p rep draft n.
          xo_plan_id out = Some p \<and> xo_report out = Some rep \<and> normalized_plan (cp_core rep) = Some draft \<and> plan_id draft = p
          \<and> stat st p t \<notin> set NON_EMITTABLE \<and> stat st' p t = RUNNING
          \<and> n \<in> set (task_graph draft) \<and> node_id n = t \<and> node_robot n = b
          \<and> (\<forall>a. node_after n = Some a \<longrightarrow> stat st p (ref_id a) = SUCCEEDED))"

text \<open>A cycle finishes no task.\<close>

definition finishes_none :: "graph_store \<Rightarrow> graph_store \<Rightarrow> bool" where
  "finishes_none st st' \<longleftrightarrow> (\<forall>q u. stat st' q u = SUCCEEDED \<longrightarrow> stat st q u = SUCCEEDED)"

lemma skipped_ok: "committed_ok st st' (skipped_outcome cmd why rep plan)"
  by (simp add: committed_ok_def skipped_outcome_def)

lemma compile_finishes_none:
  assumes "compile_raw_output lib loads parse vpol cal ctx profile injected raw = (res, st')" and "store_ok (injected_store injected)"
  shows "finishes_none (injected_store injected) st'"
proof -
  have "SUCCEEDED \<in> set NON_EMITTABLE" by (simp add: NON_EMITTABLE_def TERMINAL_STATUSES_def)
  then show ?thesis using compile_evolves(2,3) [OF assms] by (metis finishes_none_def)
qed

lemma accepted_draft:
  "validate draft ctx = Inr core \<Longrightarrow> permits_dispatch core \<Longrightarrow> normalized_plan core = Some draft"
  by (auto simp: validate_def from_rules_def permits_dispatch_def bindR_Inr_iff Let_def)

lemma second_ready:
  assumes "handle p h" and "ready_tasks p ns h = (ready, h')" and "load_state p (store h') = Inr k"
  shows "ready_tasks p ns k = (ready, h') \<and> store k = store h' \<and> handle p k"
proof -
  have "handle p h'" by (rule ready_handle(1) [OF assms(1,2)])
  then have "k = h'" using assms(3) by (cases h') (auto simp: handle_def load_handle)
  then show ?thesis using ready_handle(5) [OF assms(1,2)] \<open>handle p h'\<close> by simp
qed

text \<open>An item and the task id aligned to it come from one ready task.\<close>

lemma aligned_item:
  assumes "compile_with_audit profile tasks targets = Inr a"
    and "(i, t) \<in> set (zip (cm_commands (cr_command a)) (cr_compiled a))"
  shows "\<exists>x \<in> set tasks. compile_one (by_target targets) x = Inr i \<and> rt_id x = t"
proof -
  let ?fs = "filter (compiles (by_target targets)) tasks"
  obtain k where k: "k < length (cm_commands (cr_command a))" "k < length ?fs"
      "i = cm_commands (cr_command a) ! k" "t = rt_id (?fs ! k)"
    using assms(2) audit_complete(1) [OF assms(1)] by (auto simp: in_set_zip)
  have "compile_one (by_target targets) (?fs ! k) = Inr i"
    using list_all2_nthD [OF audit_complete(3) [OF assms(1)] k(2)] k(3) by simp
  moreover have "?fs ! k \<in> set tasks" using nth_mem [OF k(2)] by auto
  ultimately show ?thesis using k(4) by blast
qed

lemma item_robot: "compile_one targets x = Inr i \<Longrightarrow> ci_bot i = rt_robot x"
  by (auto simp: compile_one_Inr navigate_item_def)

lemma zip3_member:
  assumes "(i, tid, q) \<in> set (zip xs (zip (map Some ts) qs))"
  shows "\<exists>t. tid = Some t \<and> (i, t) \<in> set (zip xs ts)"
  using assms by (force simp: in_set_zip)

lemma commit_spec:
  assumes c: "xer_commit v draft rep cmd st n s = (res, st', n', s')"
    and hd: "handle (plan_id draft) h" and r: "ready_tasks (plan_id draft) (task_graph draft) h = (ready, h')" and st: "st = store h'"
    and tg: "resolve (xv_lib v) (xv_visual_policy v) draft (xv_calibration v) = Inr targets"
    and a: "compile_with_audit X_LITE ready targets = Inr a" and cmd: "cmd = cr_command a"
    and core: "normalized_plan (cp_core rep) = Some draft"
  shows "evolves (store h) st' \<and> finishes_none (store h) st' \<and> (\<forall>out. res = Inr out \<longrightarrow> committed_ok (store h) st' out)"
proof -
  let ?p = "plan_id draft"
  note rh = ready_handle [OF hd r]
  have succ: "SUCCEEDED \<in> set NON_EMITTABLE" "READY \<notin> set NON_EMITTABLE" by (simp_all add: NON_EMITTABLE_def TERMINAL_STATUSES_def)
  have fin1: "finishes_none (store h) (store h')" unfolding finishes_none_def using rh(3,4) succ(1) by metis
  have ok: "store_ok (store h')" using rh(1) by (simp add: handle_def)
  show ?thesis
  proof (cases "xv_read_gen v s")
    case (Inl e)
    then show ?thesis using c rh(2) fin1 by (auto simp: xer_commit_def st)
  next
    case (Inr g)
    obtain k where k: "load_state ?p (store h') = Inr k" using load_handle [OF ok] by blast
    note k2 = second_ready [OF hd r k]
    let ?calls = "command_to_tool_calls (xv_mint v) n (cm_commands cmd) (g + 1)"
    let ?xs = "zip (cm_commands cmd) (zip (map Some (cr_compiled a)) ?calls)"
    obtain dres h2 s2 where d: "xer_dispatch (xv_exec v) ?p n ?xs h' (xv_publish v (g + 1) s) = (dres, h2, s2)" by (metis prod_cases3)
    have al: "align_task_ids cmd ready targets = map Some (cr_compiled a)" using aligned(1) [OF a] by (simp add: cmd)
    have st': "st' = store h2"
      and res: "\<And>out. res = Inr out \<Longrightarrow> \<exists>ds cs. dres = Inr (ds, cs) \<and> out = \<lparr>xo_command = cmd, xo_dispatched = ds, xo_report = Some rep,
          xo_skipped = None, xo_committed = cs, xo_plan_id = Some ?p\<rparr>"
      using c k k2 tg d by (auto simp: xer_commit_def st Inr Let_def al split: sum.splits prod.splits)
    have mem: "\<exists>t. tid = Some t \<and> t \<in> set (cr_compiled a) \<and> (i, t) \<in> set (zip (cm_commands cmd) (cr_compiled a))"
      if "(i, tid, q) \<in> set ?xs" for i tid q
      using zip3_member [OF that] set_zip_rightD by fastforce
    have ready_st: "stat (store h') ?p t = READY" if "t \<in> set (cr_compiled a)" for t
      using aligned(3) [OF a] rh(7) that by blast
    have pre: "\<forall>(i, tid, q) \<in> set ?xs. \<exists>t. tid = Some t \<and> stat (store h') ?p t = READY" using mem ready_st by blast
    have "length ?calls = length (cm_commands cmd)" "length (cr_compiled a) = length (cm_commands cmd)"
      using aligned(2) [OF a] by (simp_all add: cmd)
    then have "map (fst \<circ> snd) ?xs = map Some (cr_compiled a)" by (intro nth_equalityI) auto
    then have dist: "distinct (map (fst \<circ> snd) ?xs)" using aligned(4) [OF a rh(6)] by (simp add: distinct_map)
    note eff = dispatch_effect_on_store [OF d rh(1) pre dist]
    have ev: "evolves (store h) st'" using evolves_trans [OF rh(2)] eff by (simp add: st')
    have fin: "finishes_none (store h) st'"
      using fin1 eff by (auto simp: finishes_none_def st') (metis task_status.distinct)+
    have "committed_ok (store h) st' out" if out: "res = Inr out" for out
    proof -
      obtain ds cs where o: "dres = Inr (ds, cs)" "out = \<lparr>xo_command = cmd, xo_dispatched = ds, xo_report = Some rep,
          xo_skipped = None, xo_committed = cs, xo_plan_id = Some ?p\<rparr>" using res [OF out] by blast
      have cs: "length ds = length cs" "distinct (map snd cs)"
        "\<And>b t. (b, t) \<in> set cs \<Longrightarrow> stat st' ?p t = RUNNING \<and> (\<exists>i q. (i, Some t, q) \<in> set ?xs \<and> ci_bot i = b)"
        using eff o(1) by (auto simp: st' image_iff) (force simp: image_iff)+
      have "\<exists>x. x \<in> set (task_graph draft) \<and> node_id x = t \<and> node_robot x = b \<and> stat (store h) ?p t \<notin> set NON_EMITTABLE
          \<and> stat st' ?p t = RUNNING \<and> (\<forall>a. node_after x = Some a \<longrightarrow> stat (store h) ?p (ref_id a) = SUCCEEDED)"
        if bt: "(b, t) \<in> set cs" for b t
      proof -
        obtain i q where i: "(i, Some t, q) \<in> set ?xs" "ci_bot i = b" using cs(3) [OF bt] by blast
        then obtain x where x: "x \<in> set ready" "compile_one (by_target targets) x = Inr i" "rt_id x = t"
          using mem [OF i(1)] aligned_item [OF a] by (auto simp: cmd)
        obtain m where m: "m \<in> set (task_graph draft)" "x = from_node m"
            "\<forall>a. node_after m = Some a \<longrightarrow> stat (store h) ?p (ref_id a) = SUCCEEDED" "stat (store h') ?p t = READY"
          using rh(7) [OF x(1)] x(3) by auto
        have "stat (store h) ?p t \<notin> set NON_EMITTABLE" using rh(3) [of ?p t] m(4) succ(2) by auto
        then show ?thesis using m item_robot [OF x(2)] x(3) i(2) cs(3) [OF bt] by (auto simp: from_node_def)
      qed
      then show ?thesis using cs(1,2) core by (fastforce simp: committed_ok_def o(2))
    qed
    then show ?thesis using ev fin by blast
  qed
qed

text \<open>A cycle on any answer: the store advances, no task is finished, the commits are as specified.\<close>

lemma cycle_spec:
  assumes c: "run_x_er_cycle v ans m st n s = (res, st', n', s')" and ok: "store_ok st"
  shows "evolves st st' \<and> finishes_none st st' \<and> (\<forall>out. res = Inr out \<longrightarrow> committed_ok st st' out)"
proof -
  have same: "evolves st st" "finishes_none st st" using evolves_refl [OF ok] by (simp_all add: finishes_none_def)
  let ?compile = "\<lambda>raw. compile_raw_output (xv_lib v) (xv_loads v) (xv_parse v) (xv_visual_policy v) (xv_calibration v)
    (cycle_context m) X_LITE (ExecutorInjected st) raw"
  consider (quiet) "st' = st" "\<And>out. res = Inr out \<Longrightarrow> \<exists>cmd why rep plan. out = skipped_outcome cmd why rep plan"
    | (withheld) raw cr where "?compile raw = (cr, st')"
        "\<And>out. res = Inr out \<Longrightarrow> \<exists>cmd why rep plan. out = skipped_outcome cmd why rep plan"
    | (commits) raw draft rep cmd st1 where "to_robotics_plan_draft (xv_loads v) (xv_parse v) raw = Inr draft"
        "validate_with_plugins (xv_coerce v) (xv_composition v) (xv_plugins v) draft (cycle_context m) = Inr rep"
        "composed_permits rep" "?compile raw = (Inr cmd, st1)" "cm_commands cmd \<noteq> []"
        "xer_commit v draft rep cmd st1 n s = (res, st', n', s')"
    using c unfolding run_x_er_cycle_def
    by (fastforce split: option.splits sum.splits prod.splits if_splits)
  then show ?thesis
  proof cases
    case quiet
    then show ?thesis using same skipped_ok by blast
  next
    case withheld
    then show ?thesis using compile_evolves(1) [OF withheld(1)] compile_finishes_none [OF withheld(1)] skipped_ok ok by fastforce
  next
    case commits
    obtain core where v: "validate draft (cycle_context m) = Inr core"
        "rep = compose_report core (contributions (xv_coerce v) (xv_composition v) (xv_plugins v) draft (cycle_context m))"
      using validated [OF commits(2)] by blast
    have core: "normalized_plan (cp_core rep) = Some draft"
      using accepted_draft [OF v(1)] commits(3) by (simp add: v(2) composed_permits_iff)
    from commits(4) show ?thesis
    proof (cases rule: compile_raw_cases)
      case (withheld d r)
      then show ?thesis using commits(5) by simp
    next
      case (compiled d r targets h a)
      have d: "d = draft" using compiled(1) commits(1) by simp
      have h: "handle (plan_id draft) h" "store h = st" using loaded [OF ok] compiled(5) by (simp_all add: d)
      obtain ready h' where rt: "ready_tasks (plan_id draft) (task_graph draft) h = (ready, h')" by (metis surj_pair)
      show ?thesis
        using commit_spec [OF commits(6) h(1) rt _ _ _ compiled(7) core, of targets] compiled(4,6,8) rt h(2)
        by (simp add: d)
    qed
  qed
qed

end
