(* ===== verification/McpToolsProps.thy ===== *)
theory McpToolsProps
  imports McpTools
begin

text \<open>
  What the tool server guarantees: every wire call is audited, a refused generation has no effect,
  a motion request reaches the Nav2 bridge only after the generation check and the policy gate
  accepted it, an escalation is answered once, and a robot in emergency is never sent anywhere.
\<close>

section \<open>Frames\<close>

lemma record_row_frame [simp]:
  "chk (record_row s t r d rb g) = chk s" "pgate (record_row s t r d rb g) = pgate s"
  "escalations (record_row s t r d rb g) = escalations s"
  "negotiation_seq (record_row s t r d rb g) = negotiation_seq s"
  "has_forwarder (record_row s t r d rb g) = has_forwarder s"
  "has_starter (record_row s t r d rb g) = has_starter s"
  "forwarded (record_row s t r d rb g) = forwarded s"
  "published (record_row s t r d rb g) = published s"
  by (simp_all add: record_row_def)

lemma rejected_simps [simp]:
  "fst (rejected s t p rb) = Inr p" "snd (rejected s t p rb) = record_row s t ''rejected'' p rb None"
  by (simp_all add: rejected_def)

lemma executed_simps [simp]:
  "fst (executed s t p rb g) = Inr p" "snd (executed s t p rb g) = record_row s t ''executed'' p rb g"
  by (simp_all add: executed_def)

lemma publish_frame [simp]:
  "chk (publish_negotiation_start s g p) = chk s" "pgate (publish_negotiation_start s g p) = pgate s"
  "escalations (publish_negotiation_start s g p) = escalations s"
  "has_forwarder (publish_negotiation_start s g p) = has_forwarder s"
  "forwarded (publish_negotiation_start s g p) = forwarded s"
  "audit_log (publish_negotiation_start s g p) = audit_log s"
  by (simp_all add: publish_negotiation_start_def)

lemma maybe_forward_frame [simp]:
  "chk (maybe_forward s t p) = chk s" "pgate (maybe_forward s t p) = pgate s"
  "escalations (maybe_forward s t p) = escalations s"
  "has_forwarder (maybe_forward s t p) = has_forwarder s"
  "audit_log (maybe_forward s t p) = audit_log s"
  by (simp_all add: maybe_forward_def split: option.split)

lemmas tool_defs = dispatch_task_def cancel_task_def get_fleet_status_def get_task_queue_def
  send_to_charging_def escalation_response_def start_negotiation_def

lemma tool_body_frame [simp]:
  "forwarded (snd (tool_body parse_ts e g c s)) = forwarded s"
  "has_forwarder (snd (tool_body parse_ts e g c s)) = has_forwarder s"
  "chk (snd (tool_body parse_ts e g c s)) = chk s"
  by (cases c; simp add: tool_defs Let_def case_prod_beta split: sum.split option.split)+

lemma gen_guard_eq:
  "gen_guard s tool robot g key h =
     (let c = snd (check (chk s) g key) in
      if check_passed (fst (check (chk s) g key)) then h (s\<lparr>chk := c\<rparr>)
      else case fst (check (chk s) g key) of
          Inl x \<Rightarrow> (Inl x, s\<lparr>chk := c\<rparr>)
        | Inr res \<Rightarrow> rejected (s\<lparr>chk := c\<rparr>) tool (gen_reject res g key) robot)"
  by (auto simp: gen_guard_def check_passed_def Let_def split: prod.split sum.split)

lemma reject_payload_status [simp]:
  "map_of (reject_payload w) ''status'' = Some (PStr ''rejected'')"
  "dget (reject_payload w @ xs) ''status'' = PStr ''rejected''"
  "map_of (reject_payload w @ xs) ''status'' = Some (PStr ''rejected'')"
  by (simp_all add: reject_payload_def dget_def)

lemma gen_reject_status [simp]:
  "map_of (gen_reject r g k) ''status'' = Some (PStr ''rejected'')"
  "dget (gen_reject r g k) ''status'' = PStr ''rejected''"
  by (simp_all add: gen_reject_def dget_def)

text \<open>The robots a call moves are decided by the gate; the gate's flags are not a tool's to change.\<close>

lemma tool_body_emergency [simp]:
  "emergency (pgate (snd (tool_body parse_ts e g c s))) = emergency (pgate s)"
  using emergency_frame
  by (cases c; simp add: tool_defs Let_def case_prod_beta split: sum.split option.split)

lemma call_tool_frame [simp]:
  "forwarded (snd (call_tool parse_ts e s g k c)) = forwarded s"
  "has_forwarder (snd (call_tool parse_ts e s g k c)) = has_forwarder s"
  "emergency (pgate (snd (call_tool parse_ts e s g k c))) = emergency (pgate s)"
  by (simp_all add: call_tool_def gen_guard_eq Let_def split: sum.split)

lemma wire_dispatch_eq:
  "wire_dispatch parse_ts e s w gen key =
     (case (w, gen) of
        (Bound c, Some g) \<Rightarrow>
          (let (r, s') = call_tool parse_ts e s g key c in
           case r of
             Inr p \<Rightarrow> (Inr p, maybe_forward s' (tool_name c) p)
           | Inl x \<Rightarrow>
               if x = TypeError
               then (Inr (error_payload ''bad_arguments''),
                     record_row s' (tool_name c) ''error'' (error_payload ''bad_arguments'') None None)
               else (Inl x, s'))
      | _ \<Rightarrow>
          (let (p, r) =
             if wire_name w \<notin> set TOOL_NAMES then (error_payload (''unknown_tool:'' @ wire_name w), ''error'')
             else if gen = None then (reject_payload ''missing_gen_id'', ''rejected'')
             else (error_payload ''bad_arguments'', ''error'')
           in (Inr p, record_row s (wire_name w) r p None None)))"
  by (cases w; cases gen)
    (simp_all add: wire_dispatch_def Let_def case_prod_beta split: sum.split prod.split)

section \<open>The audit log\<close>

definition status_of_result :: "string \<Rightarrow> string" where
  "status_of_result r = (if r = ''executed'' then ''ok'' else r)"

lemma status_of_result_simps [simp]:
  "status_of_result ''executed'' = ''ok''" "status_of_result ''rejected'' = ''rejected''"
  "status_of_result ''error'' = ''error''"
  by (simp_all add: status_of_result_def)

text \<open>One row is appended, and it says what the caller was told.\<close>

definition audited :: "server \<Rightarrow> string \<Rightarrow> payload result \<times> server \<Rightarrow> bool" where
  "audited s tool out \<longleftrightarrow>
     (case fst out of
        Inl _ \<Rightarrow> audit_log (snd out) = audit_log s
      | Inr p \<Rightarrow> (\<exists>row. audit_log (snd out) = audit_log s @ [row] \<and> au_tool row = tool
                   \<and> map_of p ''status'' = Some (PStr (status_of_result (au_result row)))))"

lemma audited_rejected [simp]:
  "audit_log s' = audit_log s \<Longrightarrow> audited s t (rejected s' t p rb) \<longleftrightarrow>
    map_of p ''status'' = Some (PStr ''rejected'')"
  by (simp add: audited_def record_row_def)

lemma audited_executed [simp]:
  "audit_log s' = audit_log s \<Longrightarrow> audited s t (executed s' t p rb g) \<longleftrightarrow>
    map_of p ''status'' = Some (PStr ''ok'')"
  by (simp add: audited_def record_row_def)

lemma audited_Inl [simp]: "audited s t (Inl x, s') \<longleftrightarrow> audit_log s' = audit_log s"
  by (simp add: audited_def)

lemma audited_row [simp]:
  "audit_log s' = audit_log s \<Longrightarrow> audited s t (Inr p, record_row s' t r d rb g) \<longleftrightarrow>
    map_of p ''status'' = Some (PStr (status_of_result r))"
  by (simp add: audited_def record_row_def)

lemma audited_publish [simp]:
  "audited s t (r, publish_negotiation_start s' g p) = audited s t (r, s')"
  by (cases r) (simp_all add: audited_def)

lemma audited_forward [simp]: "audited s t (r, maybe_forward s' n p) = audited s t (r, s')"
  by (cases r) (simp_all add: audited_def)

lemma audited_chk [simp]: "audited (s\<lparr>chk := c\<rparr>) t out = audited s t out"
  by (cases "fst out") (simp_all add: audited_def)

lemma tool_body_audited: "audited s (tool_name c) (tool_body parse_ts e g c s)"
  by (cases c)
    (simp_all add: tool_defs fleet_payload_def Let_def case_prod_beta split: sum.split option.split)

lemma call_tool_audited: "audited s (tool_name c) (call_tool parse_ts e s g k c)"
proof (cases "check_passed (fst (check (chk s) g k))")
  case True
  let ?s = "s\<lparr>chk := snd (check (chk s) g k)\<rparr>"
  have "audited ?s (tool_name c) (tool_body parse_ts e g c ?s)" by (rule tool_body_audited)
  then show ?thesis using True by (simp add: call_tool_def gen_guard_eq Let_def)
next
  case False
  then show ?thesis by (simp add: call_tool_def gen_guard_eq Let_def split: sum.split)
qed

text \<open>
  Every wire call that returns leaves exactly one audit row, for the tool that was called, and
  the row's result agrees with the status the caller received; a call that lets an exception escape
  leaves no row, and a \<open>TypeError\<close> never escapes.
\<close>

theorem wire_call_audited:
  "audited s (wire_name w) (wire_dispatch parse_ts e s w gen key)
   \<and> fst (wire_dispatch parse_ts e s w gen key) \<noteq> Inl TypeError"
proof (cases "\<exists>c g. w = Bound c \<and> gen = Some g")
  case True
  then obtain c g where w: "w = Bound c" "gen = Some g" by blast
  obtain r s' where r: "call_tool parse_ts e s g key c = (r, s')" by force
  have "audited s (tool_name c) (r, s')" using call_tool_audited r by metis
  then show ?thesis
    by (auto simp: wire_dispatch_eq w r error_payload_def audited_def record_row_def split: sum.splits)
next
  case False
  then show ?thesis
    by (auto simp: wire_dispatch_eq error_payload_def Let_def split: wire_call.splits option.splits)
qed

section \<open>Forwarding\<close>

text \<open>The request a call may cause, and the decision of the policy gate it needs.\<close>

fun authorised ::
    "(string \<Rightarrow> iso_time) \<Rightarrow> env \<Rightarrow> gate \<Rightarrow> tool_call \<Rightarrow> nav2_request \<Rightarrow> bool" where
  "authorised parse_ts e g (DispatchTask rb p d pr v a du) rq =
     (\<exists>r. rb = Some r
        \<and> is_accept (fst (validate_and_register_dispatch parse_ts g (stored e) (Some r) p d a (clock e)))
        \<and> dget (body rq) ''robot'' = PStr r
        \<and> (if a = ''wait''
           then path rq = ''/api/v1/wait'' \<and> (\<exists>t. du = Some t \<and> dget (body rq) ''duration'' = PFloat t)
           else path rq = ''/api/v1/navigate''
             \<and> (\<exists>x. d = Some x \<and> dget (body rq) ''destination'' = PStr x)))"
| "authorised parse_ts e g (SendToCharging r) rq =
     (is_accept (fst (validate_and_register_charging parse_ts g (stored e) r (clock e)))
      \<and> rq = \<lparr>path = ''/api/v1/navigate'',
              body = [(''robot'', PStr r), (''destination'', PStr ''charging_station'')]\<rparr>)"
| "authorised parse_ts e g (CancelById t) rq =
     (\<exists>r. rq = \<lparr>path = ''/api/v1/stop'', body = [(''robot'', PStr r)]\<rparr>)"
| "authorised parse_ts e g _ rq = False"

lemma dget_simps [simp]:
  "dget [] k = PNone" "dget ((k', v) # d) k = (if k' = k then v else dget d k)"
  by (simp_all add: dget_def)

lemma body_authorised:
  assumes "tool_body parse_ts e g c s = (Inr p, s')" and "dget p ''status'' = PStr ''ok''"
    and "plan_nav2_request (tool_name c) p = Some rq"
  shows "authorised parse_ts e (pgate s) c rq"
proof (cases c)
  case (DispatchTask rb pu d pr v a du)
  obtain r0 g' where v: "validate_and_register_dispatch parse_ts (pgate s) (stored e) rb pu d a (clock e) = (r0, g')"
    by force
  from assms(1,2) v obtain res where res: "r0 = Inr res" "accepted res"
    by (auto simp: DispatchTask dispatch_task_def rejected_def Let_def split: sum.splits if_splits)
  have p: "p = [(''status'', PStr ''ok''), (''task_id'', opt_str (task_id res)), (''robot'', opt_str rb),
      (''action'', PStr a), (''dropoff'', opt_str d), (''via'', opt_str v),
      (''priority'', PStr pr), (''duration'', opt_float du)]"
    using assms(1) v res by (simp add: DispatchTask dispatch_task_def executed_def Let_def)
  have "is_accept (fst (validate_and_register_dispatch parse_ts (pgate s) (stored e) rb pu d a (clock e)))"
    using v res by (simp add: is_accept_def)
  then show ?thesis using assms(3)
    by (cases rb; cases d; cases du)
      (auto simp: DispatchTask p plan_nav2_request_def opt_str_def opt_float_def split: if_splits)
next
  case (SendToCharging r)
  obtain r0 g' where v: "validate_and_register_charging parse_ts (pgate s) (stored e) r (clock e) = (r0, g')"
    by force
  from assms(1,2) v obtain res where res: "r0 = Inr res" "accepted res"
    by (auto simp: SendToCharging send_to_charging_def rejected_def Let_def split: sum.splits if_splits)
  have "p = [(''status'', PStr ''ok''), (''task_id'', opt_str (task_id res)), (''robot'', PStr r),
      (''dropoff'', PStr ''charging_station'')]"
    using assms(1) v res by (simp add: SendToCharging send_to_charging_def executed_def Let_def)
  then show ?thesis using assms(3) v res
    by (auto simp: SendToCharging plan_nav2_request_def is_accept_def)
next
  case (CancelById t)
  then have "(\<exists>r. dget p ''robot'' = PStr r) \<or> dget p ''robot'' = PNone"
    using assms(1)
    by (auto simp: cancel_task_def rejected_def executed_def reject_payload_def Let_def case_prod_beta opt_str_def
        split: if_splits option.splits)
  then show ?thesis using assms(3) by (auto simp: CancelById plan_nav2_request_def)
qed (use assms(3) in \<open>simp_all add: plan_nav2_request_def\<close>)

lemma call_authorised:
  assumes "call_tool parse_ts e s g key c = (Inr p, s')" and "dget p ''status'' = PStr ''ok''"
  shows "check_passed (fst (check (chk s) g key))"
    and "plan_nav2_request (tool_name c) p = Some rq \<Longrightarrow> authorised parse_ts e (pgate s) c rq"
proof -
  let ?c = "snd (check (chk s) g key)"
  show ok: "check_passed (fst (check (chk s) g key))"
    using assms by (auto simp: call_tool_def gen_guard_eq Let_def rejected_def split: if_splits sum.splits)
  assume "plan_nav2_request (tool_name c) p = Some rq"
  moreover have "tool_body parse_ts e g c (s\<lparr>chk := ?c\<rparr>) = (Inr p, s')"
    using assms ok by (simp add: call_tool_def gen_guard_eq Let_def)
  ultimately show "authorised parse_ts e (pgate s) c rq"
    using body_authorised [of parse_ts e g c "s\<lparr>chk := ?c\<rparr>" p s' rq] assms(2) by simp
qed

lemma wire_forwarded_cases:
  "forwarded (snd (wire_dispatch parse_ts e s w gen key)) = forwarded s
   \<or> (\<exists>c g rq. w = Bound c \<and> gen = Some g \<and> has_forwarder s
        \<and> forwarded (snd (wire_dispatch parse_ts e s w gen key)) = forwarded s @ [rq]
        \<and> check_passed (fst (check (chk s) g key)) \<and> authorised parse_ts e (pgate s) c rq)"
proof (cases "\<exists>c g. w = Bound c \<and> gen = Some g")
  case True
  then obtain c g where w: "w = Bound c" "gen = Some g" by blast
  obtain r s' where r: "call_tool parse_ts e s g key c = (r, s')" by force
  then have f: "forwarded s' = forwarded s" "has_forwarder s' = has_forwarder s"
    using call_tool_frame by (metis snd_conv)+
  show ?thesis
  proof (cases r)
    case (Inl x)
    then show ?thesis by (auto simp: wire_dispatch_eq w r f)
  next
    case (Inr p)
    then have res: "snd (wire_dispatch parse_ts e s w gen key) = maybe_forward s' (tool_name c) p"
      by (simp add: wire_dispatch_eq w r)
    show ?thesis
    proof (cases "has_forwarder s \<and> dget p ''status'' = PStr ''ok'' \<and> plan_nav2_request (tool_name c) p \<noteq> None")
      case True
      then show ?thesis using call_authorised [OF r [unfolded Inr]] unfolding res
        by (auto simp: w maybe_forward_def f)
    next
      case False
      then show ?thesis unfolding res by (auto simp: maybe_forward_def f split: option.split)
    qed
  qed
next
  case False
  then show ?thesis
    by (auto simp: wire_dispatch_eq Let_def split: wire_call.splits option.splits)
qed

text \<open>
  A wire call sends at most one request to the Nav2 bridge, and only when a forwarder is wired,
  the call passed the generation and idempotency check and the policy gate accepted the command for
  exactly the robot and destination the request carries; a refused, malformed or read-only call
  sends nothing.
\<close>

theorem forwarded_is_authorised:
  assumes "forwarded (snd (wire_dispatch parse_ts e s w gen key)) \<noteq> forwarded s"
  shows "\<exists>c g rq. w = Bound c \<and> gen = Some g \<and> has_forwarder s
    \<and> forwarded (snd (wire_dispatch parse_ts e s w gen key)) = forwarded s @ [rq]
    \<and> check_passed (fst (check (chk s) g key)) \<and> authorised parse_ts e (pgate s) c rq"
  using wire_forwarded_cases [of parse_ts e s w gen key] assms by blast

definition sample_server :: server where
  "sample_server = \<lparr>chk = \<lparr>gen_store = GenText 3, idem_store = IdemMissing\<rparr>, pgate = sample_gate,
     escalations = [(''esc_1'', False)], negotiation_seq = 0, has_forwarder = True, has_starter = True,
     audit_log = [], forwarded = [], published = []\<rparr>"

definition sample_env :: env where
  "sample_env = \<lparr>clock = Fin 10, stored = Some sample_state\<rparr>"

definition sample_delivery :: wire_call where
  "sample_delivery = Bound (DispatchTask (Some ''bot1'') None (Some ''shelf_1'') ''normal'' None ''deliver'' None)"

lemma sample_check: "check (chk sample_server) 3 None = (Inr \<lparr>ok = True, reason = None, cur_gen = 3\<rparr>, chk sample_server)"
  by (simp add: sample_server_def check_def is_stale_def)

lemma sample_delivery_forwarded:
  "forwarded (snd (wire_dispatch (\<lambda>_. IsoInvalid) sample_env sample_server sample_delivery (Some 3) None)) =
     [\<lparr>path = ''/api/v1/navigate'', body = [(''robot'', PStr ''bot1''), (''destination'', PStr ''shelf_1'')]\<rparr>]"
proof -
  have v: "validate_and_register_dispatch (\<lambda>_. IsoInvalid) (pgate sample_server) (stored sample_env) (Some ''bot1'') None
     (Some ''shelf_1'') ''deliver'' (clock sample_env)
   = (Inr (accept (new_id sample_gate)),
      snd (register_task_inner sample_gate (Some ''bot1'') (Some ''shelf_1'') (Fin 10)))"
    using sample_dispatch by (simp add: sample_server_def sample_env_def)
  have f: "has_forwarder sample_server" "forwarded sample_server = []" by (simp_all add: sample_server_def)
  show ?thesis
    using v sample_check
    by (simp add: wire_dispatch_eq sample_delivery_def call_tool_def gen_guard_def dispatch_task_def f
        maybe_forward_def plan_nav2_request_def accept_def executed_def opt_str_def opt_float_def Let_def)
qed

theorem forwarded_is_authorised_witness:
  "authorised (\<lambda>_. IsoInvalid) sample_env (pgate sample_server)
      (DispatchTask (Some ''bot1'') None (Some ''shelf_1'') ''normal'' None ''deliver'' None)
      \<lparr>path = ''/api/v1/navigate'', body = [(''robot'', PStr ''bot1''), (''destination'', PStr ''shelf_1'')]\<rparr>"
proof -
  have "forwarded sample_server = []" by (simp add: sample_server_def)
  then show ?thesis
    using forwarded_is_authorised [of "\<lambda>_. IsoInvalid" sample_env sample_server sample_delivery "Some 3" None]
    by (auto simp: sample_delivery_forwarded sample_delivery_def [symmetric] simp del: authorised.simps)
      (auto simp: sample_delivery_def simp del: authorised.simps)
qed

section \<open>Superseded calls\<close>

text \<open>
  A call of a superseded generation is inert: whatever tool it names, the caller is told
  \<open>stale_generation\<close>, one audit row is written, and nothing else changes: no task, no cancel, no
  consumed key, no request, no negotiation, no escalation answer.
\<close>

theorem stale_call_inert:
  assumes "gen_get (gen_store (chk s)) = Inr cur" and "g < cur"
  shows "\<exists>p. wire_dispatch parse_ts e s (Bound c) (Some g) key =
      (Inr p, record_row s (tool_name c) ''rejected'' p (tool_robot c) None)
    \<and> dget p ''reason'' = PStr ''stale_generation'' \<and> dget p ''received_gen'' = PInt g"
proof -
  have "check (chk s) g key = (Inr \<lparr>ok = False, reason = Some ''stale_generation'', cur_gen = cur\<rparr>, chk s)"
    using assms by (simp add: check_def is_stale_def)
  then show ?thesis
    by (simp add: wire_dispatch_eq call_tool_def gen_guard_def gen_reject_def reject_payload_def
        rejected_def maybe_forward_def)
qed

theorem stale_call_inert_witness:
  "\<exists>p. wire_dispatch (\<lambda>_. IsoInvalid) sample_env sample_server (Bound (CancelById ''nav_001'')) (Some 2) None =
      (Inr p, record_row sample_server ''cancel_task'' ''rejected'' p None None)"
  using stale_call_inert [of sample_server 3 2 "\<lambda>_. IsoInvalid" sample_env "CancelById ''nav_001''" None]
  by (auto simp: sample_server_def)

section \<open>Histories of the server\<close>

text \<open>Wire calls interleaved with the mirror's flags and the bridge's generations.\<close>

datatype server_op =
    Wire env wire_call "int option" "string option"
  | Flag string bool
  | NewGeneration int

fun server_step :: "(string \<Rightarrow> iso_time) \<Rightarrow> server \<Rightarrow> server_op \<Rightarrow> server" where
  "server_step parse_ts s (Wire e w g k) = snd (wire_dispatch parse_ts e s w g k)"
| "server_step parse_ts s (Flag r b) = s\<lparr>pgate := set_emergency (pgate s) r b\<rparr>"
| "server_step parse_ts s (NewGeneration n) = s\<lparr>chk := (chk s)\<lparr>gen_store := gen_set (gen_store (chk s)) n\<rparr>\<rparr>"

definition server_run :: "(string \<Rightarrow> iso_time) \<Rightarrow> server \<Rightarrow> server_op list \<Rightarrow> server" where
  "server_run parse_ts = foldl (server_step parse_ts)"

lemma server_run_simps [simp]:
  "server_run parse_ts s [] = s"
  "server_run parse_ts s (x # xs) = server_run parse_ts (server_step parse_ts s x) xs"
  by (simp_all add: server_run_def)

lemma wire_emergency [simp]:
  "emergency (pgate (snd (wire_dispatch parse_ts e s w g k))) = emergency (pgate s)"
proof (cases "\<exists>c n. w = Bound c \<and> g = Some n")
  case True
  then obtain c n where w: "w = Bound c" "g = Some n" by blast
  obtain r s' where r: "call_tool parse_ts e s n k c = (r, s')" by force
  then have "emergency (pgate s') = emergency (pgate s)" using call_tool_frame(3) by (metis snd_conv)
  then show ?thesis by (simp add: wire_dispatch_eq w r split: sum.split)
next
  case False
  then show ?thesis by (auto simp: wire_dispatch_eq Let_def split: wire_call.splits option.splits)
qed

text \<open>A request that moves the robot: a navigation or a wait, not a stop.\<close>

definition moves :: "string \<Rightarrow> nav2_request \<Rightarrow> bool" where
  "moves r rq \<longleftrightarrow> dget (body rq) ''robot'' = PStr r \<and> path rq \<noteq> ''/api/v1/stop''"

lemma authorised_not_in_emergency:
  "authorised parse_ts e g c rq \<Longrightarrow> moves r rq \<Longrightarrow> r \<notin> emergency g"
  by (cases c)
    (auto simp: moves_def is_accept_dispatch is_accept_charge dispatch_none_emergency charging_None)

lemma step_no_motion:
  assumes "r \<in> emergency (pgate s)" and "op \<noteq> Flag r False"
  shows "r \<in> emergency (pgate (server_step parse_ts s op))
    \<and> filter (moves r) (forwarded (server_step parse_ts s op)) = filter (moves r) (forwarded s)"
proof (cases op)
  case (Wire e w g k)
  show ?thesis
    using wire_forwarded_cases [of parse_ts e s w g k] assms(1) authorised_not_in_emergency
    by (fastforce simp: Wire)
qed (use assms in \<open>auto simp: set_emergency_def\<close>)

text \<open>
  A robot in emergency is not moved: from the moment a robot is flagged, through any sequence
  of wire calls, new generations and flags of other robots, no navigation and no wait for that robot
  is sent to the Nav2 bridge, until the robot's own flag is cleared. (A stop may still be sent.)
\<close>

theorem emergency_never_moves:
  assumes "Flag r False \<notin> set ops"
  shows "filter (moves r) (forwarded (server_run parse_ts (server_step parse_ts s (Flag r True)) ops)) =
    filter (moves r) (forwarded s)"
proof -
  have "r \<in> emergency (pgate s') \<Longrightarrow>
      filter (moves r) (forwarded (server_run parse_ts s' ops)) = filter (moves r) (forwarded s')" for s'
    using assms
  proof (induction ops arbitrary: s')
    case (Cons x ops)
    then have "x \<noteq> Flag r False" "Flag r False \<notin> set ops" by auto
    with Cons show ?case using step_no_motion [of r s' x parse_ts] by simp
  qed simp
  from this [of "server_step parse_ts s (Flag r True)"] show ?thesis by (simp add: set_emergency_def)
qed

theorem emergency_never_moves_witness:
  "filter (moves ''bot1'') (forwarded (server_run (\<lambda>_. IsoInvalid)
     (server_step (\<lambda>_. IsoInvalid) sample_server (Flag ''bot1'' True))
     [Wire sample_env sample_delivery (Some 3) None, Flag ''bot2'' False])) = []"
  using emergency_never_moves [of "''bot1''" "[Wire sample_env sample_delivery (Some 3) None, Flag ''bot2'' False]"
      "\<lambda>_. IsoInvalid" sample_server]
  by (simp add: sample_server_def)

section \<open>Escalations\<close>

lemma escalations_frame:
  "map_of (escalations (snd (tool_body parse_ts e g c s))) i =
     (if (\<exists>a n w. c = EscalationResponse i a n w \<and> a \<in> set ESCALATION_ACTIONS)
         \<and> map_of (escalations s) i \<noteq> None then Some True else map_of (escalations s) i)"
  by (cases c) (simp_all add: tool_defs Let_def case_prod_beta split: sum.split option.split)

lemma resolved_call:
  "map_of (escalations s) i = Some True \<Longrightarrow>
    map_of (escalations (snd (call_tool parse_ts e s g k c))) i = Some True"
  by (simp add: call_tool_def gen_guard_eq Let_def escalations_frame split: sum.split)

lemma resolved_step:
  "map_of (escalations s) i = Some True \<Longrightarrow> map_of (escalations (server_step parse_ts s op)) i = Some True"
proof (cases op)
  case (Wire e w g k)
  assume a: "map_of (escalations s) i = Some True"
  show ?thesis
  proof (cases "\<exists>c n. w = Bound c \<and> g = Some n")
    case True
    then obtain c n where w: "w = Bound c" "g = Some n" by blast
    obtain r s' where r: "call_tool parse_ts e s n k c = (r, s')" by force
    then have "map_of (escalations s') i = Some True" using resolved_call [OF a] by (metis snd_conv)
    then show ?thesis by (simp add: Wire wire_dispatch_eq w r split: sum.split)
  next
    case False
    then show ?thesis using a
      by (auto simp: Wire wire_dispatch_eq Let_def split: wire_call.splits option.splits)
  qed
qed simp_all

lemma resolved_run:
  "map_of (escalations s) i = Some True \<Longrightarrow> map_of (escalations (server_run parse_ts s ops)) i = Some True"
  by (induction ops arbitrary: s) (simp_all add: resolved_step)

lemma escalation_ok:
  assumes "call_tool parse_ts e s g k (EscalationResponse i a n w) = (Inr p, s')"
    and "dget p ''status'' = PStr ''ok''"
  shows "map_of (escalations s) i = Some False \<and> map_of (escalations s') i = Some True"
proof -
  have "check_passed (fst (check (chk s) g k))" using call_authorised(1) [OF assms] .
  then show ?thesis using assms
    by (auto simp: call_tool_def gen_guard_eq Let_def escalation_response_def rejected_def executed_def
        reject_payload_def record_row_def split: if_splits option.splits)
qed

text \<open>
  An escalation is answered once: after a response that was accepted, no later response to the
  same escalation is accepted, whatever action it asks for, with whatever generation and
  idempotency key, and whatever happened in between.
\<close>

theorem escalation_answered_once:
  assumes "call_tool parse_ts e s g k (EscalationResponse i a n w) = (Inr p, s')"
    and "dget p ''status'' = PStr ''ok''"
    and "call_tool parse_ts e' (server_run parse_ts s' ops) g' k' (EscalationResponse i a' n' w') = (Inr p', s'')"
  shows "dget p' ''status'' \<noteq> PStr ''ok''"
proof
  assume "dget p' ''status'' = PStr ''ok''"
  then have "map_of (escalations (server_run parse_ts s' ops)) i = Some False"
    using escalation_ok [OF assms(3)] by simp
  moreover have "map_of (escalations s') i = Some True" using escalation_ok [OF assms(1,2)] by simp
  ultimately show False using resolved_run [of s' i parse_ts ops] by simp
qed

theorem escalation_answered_once_witness:
  "\<exists>p s' p' s''. call_tool (\<lambda>_. IsoInvalid) sample_env sample_server 3 None (EscalationResponse ''esc_1'' ''retry'' None []) = (Inr p, s')
     \<and> call_tool (\<lambda>_. IsoInvalid) sample_env s' 3 None (EscalationResponse ''esc_1'' ''cancel'' None []) = (Inr p', s'')
     \<and> dget p' ''status'' \<noteq> PStr ''ok''"
proof -
  let ?c1 = "EscalationResponse ''esc_1'' ''retry'' None []" and ?c2 = "EscalationResponse ''esc_1'' ''cancel'' None []"
  obtain p s' where 1: "call_tool (\<lambda>_. IsoInvalid) sample_env sample_server 3 None ?c1 = (Inr p, s')"
      "dget p ''status'' = PStr ''ok''" "chk s' = chk sample_server" "escalations s' = [(''esc_1'', True)]"
    using sample_check
    by (simp add: call_tool_def gen_guard_def escalation_response_def ESCALATION_ACTIONS_def executed_def)
      (simp add: sample_server_def executed_def)
  obtain p' s'' where 2: "call_tool (\<lambda>_. IsoInvalid) sample_env s' 3 None ?c2 = (Inr p', s'')"
    using sample_check 1
    by (simp add: call_tool_def gen_guard_def escalation_response_def ESCALATION_ACTIONS_def rejected_def)
  have "dget p' ''status'' \<noteq> PStr ''ok''"
    using escalation_answered_once [OF 1(1,2), of sample_env "[]" 3 None "''cancel''" None "[]" p' s'', unfolded server_run_simps] 2
    by simp
  with 1 2 show ?thesis by blast
qed

end
