(* ===== verification/SchedulerProps.thy ===== *)
theory SchedulerProps
  imports Scheduler McpToolsProps "HOL-Library.Multiset"
begin

text \<open>
  The commander cycle against the tool server: what every cycle preserves of the server is proved
  once for any backend (\<open>tool_executor\<close>, \<open>tool_backend\<close>) and used for the tool server with three
  relations. Then the generation discipline, the queue, and the outage counter.
\<close>

section \<open>What a backend preserves\<close>

locale tool_executor =
  fixes exec :: "nat \<Rightarrow> 's \<Rightarrow> tool_request \<Rightarrow> payload result \<times> 's"
    and rel :: "'s \<Rightarrow> 's \<Rightarrow> bool"
  assumes rel_refl: "rel s s"
    and rel_trans: "rel s t \<Longrightarrow> rel t u \<Longrightarrow> rel s u"
    and exec_rel: "rel s (snd (exec n s r))"
begin

lemma exec_relI: "exec n s r = (res, s') \<Longrightarrow> rel s s'"
  using exec_rel [of s n r] by simp

lemma items_rel: "dispatch_items exec gen n xs sc s = (res, sc', s') \<Longrightarrow> rel s s'"
proof (induction xs arbitrary: n sc s res sc' s')
  case Nil
  then show ?case by (simp add: rel_refl)
next
  case (Cons x xs)
  then show ?case
    by (cases x) (auto split: prod.splits sum.splits dest!: exec_relI intro: rel_trans)
qed

lemma negotiation_rel: "maybe_start_negotiation exec mint c gen results sc s = (res, sc', s') \<Longrightarrow> rel s s'"
  by (auto simp: maybe_start_negotiation_def Let_def rel_refl
      split: option.splits prod.splits sum.splits dest!: exec_relI)

lemma command_rel: "dispatch_command exec mint c gen sc s = (res, sc', s') \<Longrightarrow> rel s s'"
  by (auto simp: dispatch_command_def Let_def split: prod.splits sum.splits
      dest!: items_rel negotiation_rel intro: rel_trans)

lemma cycle_rel:
  "run_cycle exec publish uuid_ok mint lib b raw ans sc s = (res, sc', s') \<Longrightarrow> rel (publish (sc_gen sc + 1) s) s'"
  by (auto simp: run_cycle_def Let_def rel_refl
      split: prod.splits sum.splits option.splits answer.splits if_splits dest!: command_rel)

end

locale tool_backend = tool_executor +
  fixes publish :: "int \<Rightarrow> 'a \<Rightarrow> 'a"
  assumes publish_rel: "rel s (publish g s)"
begin

lemma published: "rel (publish g s) t \<Longrightarrow> rel s t"
  using publish_rel rel_trans by blast

lemma run_rel:
  "run_events exec publish uuid_ok mint lib b es sc s = (res, sc', s') \<Longrightarrow> rel s s'"
proof (induction es arbitrary: sc s res sc' s')
  case Nil
  then show ?case by (simp add: rel_refl)
next
  case (Cons e es)
  then show ?case
    by (cases e) (auto split: prod.splits sum.splits dest!: cycle_rel dest: Cons.IH
        intro: published published [OF rel_trans])
qed

end

section \<open>The tool server as the backend\<close>

text \<open>A held robot stays held and gets no motion request.\<close>

definition no_motion :: "string \<Rightarrow> server \<Rightarrow> server \<Rightarrow> bool" where
  "no_motion b s s' \<longleftrightarrow> (b \<in> emergency (pgate s) \<longrightarrow>
     b \<in> emergency (pgate s') \<and> filter (moves b) (forwarded s') = filter (moves b) (forwarded s))"

lemma execute_no_motion: "no_motion b s (snd (dispatch_execute parse_ts env n s r))"
  using step_no_motion [of b s "Wire (env n) (wire_call_of r) (gen_arg r) (key_arg r)" parse_ts]
  by (simp add: no_motion_def dispatch_execute_def)

interpretation held: tool_backend "dispatch_execute parse_ts env" "no_motion b" publish_gen for parse_ts env b
  by unfold_locales (auto simp: no_motion_def publish_gen_def execute_no_motion [unfolded no_motion_def])

lemma wire_chk:
  "chk (snd (wire_dispatch parse_ts e s w gen key)) = chk s
   \<or> (\<exists>c g. w = Bound c \<and> gen = Some g \<and> chk (snd (wire_dispatch parse_ts e s w gen key)) = snd (check (chk s) g key))"
  by (auto simp: wire_dispatch_def call_tool_def gen_guard_eq Let_def case_prod_beta
      split: wire_call.splits option.splits sum.splits if_splits)

definition same_gen :: "server \<Rightarrow> server \<Rightarrow> bool" where
  "same_gen s s' \<longleftrightarrow> gen_store (chk s') = gen_store (chk s)"

interpretation gen_kept: tool_executor "dispatch_execute parse_ts env" same_gen for parse_ts env
proof
  show "same_gen s (snd (dispatch_execute parse_ts env n s r))" for n s r
    using wire_chk [of parse_ts "env n" s "wire_call_of r" "gen_arg r" "key_arg r"]
    by (auto simp: same_gen_def dispatch_execute_def)
qed (simp_all add: same_gen_def)

section \<open>Generations\<close>

text \<open>The generation store holds the scheduler's generation.\<close>

definition gens_agree :: "scheduler \<Rightarrow> server \<Rightarrow> bool" where
  "gens_agree sc s \<longleftrightarrow> gen_store (chk s) = GenText (sc_gen sc)"

lemma after_result_frame [simp]:
  "sc_gen (after_result gen i res sc) = sc_gen sc"
  "sc_minted (after_result gen i res sc) = sc_minted sc"
  "sc_failures (after_result gen i res sc) = sc_failures sc"
  "sc_event_log (after_result gen i res sc) = sc_event_log sc"
  by (auto simp: after_result_def push_history_def record_task_lifecycle_def consume_pending_task_def
      track_current_task_def Let_def split: prod.splits option.splits command_action.splits)

text \<open>What each result preserves of the scheduler, the whole list of items preserves.\<close>

lemma items_induct:
  assumes "dispatch_items exec gen n xs sc s = (res, sc', s')"
    and "\<And>sc. R sc sc"
    and "\<And>i rq res sc t. (i, rq) \<in> set xs \<Longrightarrow> R (after_result gen i res sc) t \<Longrightarrow> R sc t"
  shows "R sc sc'"
  using assms(1,3)
proof (induction xs arbitrary: n sc s res)
  case Nil
  then show ?case using assms(2) by simp
next
  case (Cons x xs)
  obtain i rq where x: "x = (i, rq)" by (cases x)
  show ?case
  proof (cases "fst (exec n s rq)")
    case (Inl e)
    then show ?thesis using Cons.prems(1) assms(2) by (auto simp: x split: prod.splits)
  next
    case (Inr p)
    then obtain res' where "dispatch_items exec gen (Suc n) xs (after_result gen i p sc) (snd (exec n s rq)) = (res', sc', s')"
      using Cons.prems(1) by (fastforce simp: x split: prod.splits sum.splits)
    from Cons.IH [OF this] Cons.prems(2) have "R (after_result gen i p sc) sc'" by (metis list.set_intros(2))
    then show ?thesis using Cons.prems(2) by (metis x list.set_intros(1))
  qed
qed

lemma items_frame:
  assumes "dispatch_items exec gen n xs sc s = (res, sc', s')"
  shows "sc_gen sc' = sc_gen sc \<and> sc_minted sc' = sc_minted sc \<and> sc_event_log sc' = sc_event_log sc"
  by (rule items_induct [OF assms]) simp_all

lemma negotiation_frame:
  "maybe_start_negotiation exec mint c gen results sc s = (res, sc', s') \<Longrightarrow>
     sc_gen sc' = sc_gen sc \<and> sc_event_log sc' = sc_event_log sc \<and> sc_minted sc \<le> sc_minted sc'
     \<and> sc_pending sc' = sc_pending sc \<and> sc_rows sc' = sc_rows sc \<and> sc_current sc' = sc_current sc"
  by (auto simp: maybe_start_negotiation_def Let_def split: option.splits prod.splits sum.splits)

lemma command_frame:
  "dispatch_command exec mint c gen sc s = (res, sc', s') \<Longrightarrow>
     sc_gen sc' = sc_gen sc \<and> sc_event_log sc' = sc_event_log sc \<and> sc_minted sc \<le> sc_minted sc'"
  by (auto simp: dispatch_command_def Let_def split: prod.splits sum.splits
      dest!: items_frame negotiation_frame)

lemma attach_frame:
  "maybe_attach_proposal si gen sc = (si', sc') \<Longrightarrow> sc' = sc\<lparr>sc_proposal := None\<rparr> \<and> si' = si\<lparr>si_proposal := si_proposal si'\<rparr>
     \<or> sc' = sc \<and> si' = si"
  by (auto simp: maybe_attach_proposal_def Let_def split: option.splits if_splits)

lemmas cycle_splits = prod.splits sum.splits option.splits answer.splits if_splits
lemmas reaction_defs = on_llm_timeout_def on_outage_def on_invalid_response_def

lemma cycle_gen:
  assumes "run_cycle exec publish uuid_ok mint lib b raw ans sc s = (res, sc', s')"
  shows "sc_gen sc' = sc_gen sc + 1"
  using assms
  by (auto simp: run_cycle_def reaction_defs Let_def split: cycle_splits dest!: command_frame attach_frame)

lemma cycle_agree:
  assumes "run_cycle (dispatch_execute parse_ts env) publish_gen uuid_ok mint lib b raw ans sc s = (res, sc', s')"
  shows "gens_agree sc' s'"
  using gen_kept.cycle_rel [OF assms] cycle_gen [OF assms]
  by (simp add: same_gen_def gens_agree_def publish_gen_def gen_set_def)

lemma run_agree:
  assumes "run_events (dispatch_execute parse_ts env) publish_gen uuid_ok mint lib b es sc s = (res, sc', s')"
  shows "(gens_agree sc s \<or> (\<exists>raw ans. Cycle raw ans \<in> set es)) \<longrightarrow> gens_agree sc' s'" "sc_gen sc \<le> sc_gen sc'"
proof -
  have "((gens_agree sc s \<or> (\<exists>raw ans. Cycle raw ans \<in> set es)) \<longrightarrow> gens_agree sc' s') \<and> sc_gen sc \<le> sc_gen sc'"
    using assms
  proof (induction es arbitrary: sc s res sc' s')
    case (Cons e es)
    show ?case
    proof (cases e)
      case (Cycle raw ans)
      then show ?thesis using Cons.prems Cons.IH
        by (fastforce split: prod.splits sum.splits dest: cycle_agree cycle_gen)
    next
      case (Offer p)
      then have "gens_agree (set_negotiation_proposal p sc) s = gens_agree sc s"
        "sc_gen (set_negotiation_proposal p sc) = sc_gen sc"
        by (simp_all add: set_negotiation_proposal_def gens_agree_def)
      then show ?thesis using Offer Cons.prems Cons.IH [of "set_negotiation_proposal p sc" s] by auto
    qed
  qed simp
  then show "(gens_agree sc s \<or> (\<exists>raw ans. Cycle raw ans \<in> set es)) \<longrightarrow> gens_agree sc' s'" "sc_gen sc \<le> sc_gen sc'"
    by blast+
qed

text \<open>
  C19. Superseded calls are inert: once the commander has begun a cycle, however that cycle and later
  ones ended, a tool call still carrying the generation of an earlier cycle is answered
  \<open>stale_generation\<close> and changes nothing of the server but the audit log.
\<close>
theorem superseded_call_refused:
  assumes "run_events (dispatch_execute parse_ts env) publish_gen uuid_ok mint lib b es sc s = (res, sc', s')"
    and "Cycle raw ans \<in> set es" and "g < sc_gen sc'"
  shows "\<exists>p. wire_dispatch parse_ts e s' (Bound c) (Some g) key =
      (Inr p, record_row s' (tool_name c) ''rejected'' p (tool_robot c) None)
    \<and> dget p ''reason'' = PStr ''stale_generation''"
proof -
  have "gens_agree sc' s'" using run_agree(1) [OF assms(1)] assms(2) by blast
  then have "gen_get (gen_store (chk s')) = Inr (sc_gen sc')" by (simp add: gens_agree_def)
  from stale_call_inert [OF this assms(3)] show ?thesis by blast
qed

definition no_keys :: "nat \<Rightarrow> string" where
  "no_keys n = pad3 n"

definition flat_libm :: libm where
  "flat_libm = \<lparr>m_hypot = (\<lambda>a b. 0), m_sin = (\<lambda>a. a), m_cos = (\<lambda>a. Fin 1), m_atan2 = (\<lambda>a b. a)\<rparr>"

definition idle_scheduler :: scheduler where
  "idle_scheduler = \<lparr>sc_gen = 0, sc_turn = 0, sc_nav2_only = False, sc_last = None, sc_failures = 0, sc_history = [],
     sc_current = [], sc_pending = [\<lparr>pt_id = ''t1'', pt_from = ''shelf_2'', pt_to = ''shelf_1''\<rparr>], sc_proposal = None,
     sc_outage_after = 2, sc_minted = 0, sc_event_log = True, sc_rows = [], sc_reasoning = [], sc_commands = [],
     sc_asked = []\<rparr>"

lemma idle_scheduler_init:
  "init_scheduler (sc_pending idle_scheduler) True CYCLE_TIMEOUT_SEC OUTAGE_NO_RESPONSE_SEC = Inr idle_scheduler"
  by code_simp

theorem superseded_call_refused_witness:
  "\<exists>s' p. wire_dispatch (\<lambda>_. IsoInvalid) sample_env s' (Bound GetTaskQueue) (Some 0) None =
      (Inr p, record_row s' ''get_task_queue'' ''rejected'' p None None)
    \<and> dget p ''reason'' = PStr ''stale_generation''"
proof -
  let ?r = "run_events (dispatch_execute (\<lambda>_. IsoInvalid) (\<lambda>_. sample_env)) publish_gen (\<lambda>_. True) no_keys flat_libm
    undefined [Cycle None TimedOut] idle_scheduler sample_server"
  have g: "sc_gen (fst (snd ?r)) = 1" by (simp add: run_cycle_def build_situation_def idle_scheduler_def)
  have e: "?r = (fst ?r, fst (snd ?r), snd (snd ?r))" by simp
  show ?thesis
    using superseded_call_refused [OF e, where raw = None and ans = TimedOut and g = 0 and c = GetTaskQueue and key = None
        and e = sample_env] g
    by auto
qed

section \<open>Calls of the current cycle\<close>

lemma call_args [simp]:
  "gen_arg (command_item_to_tool_call i g k) = Some g" "key_arg (command_item_to_tool_call i g k) = Some k"
  "gen_arg (start_negotiation_tool_call r g k) = Some g" "key_arg (start_negotiation_tool_call r g k) = Some k"
  by (cases "ci_action i";
      simp add: gen_arg_def key_arg_def command_item_to_tool_call_def start_negotiation_tool_call_def Let_def)+

text \<open>The mapping produces calls that bind.\<close>

fun item_call :: "command_item \<Rightarrow> tool_call" where
  "item_call i =
     (case ci_action i of
        NAVIGATE \<Rightarrow> DispatchTask (Some (ci_bot i)) None (ci_destination i) ''normal'' (ci_via i) ''deliver'' None
      | WAIT \<Rightarrow> DispatchTask (Some (ci_bot i)) None None ''normal'' None ''wait'' (ci_duration i)
      | STOP \<Rightarrow> CancelById (CURRENT_PREFIX @ ci_bot i)
      | YIELD \<Rightarrow> DispatchTask (Some (ci_bot i)) None (ci_retreat_to i) ''normal'' None ''yield'' None
      | CHARGE \<Rightarrow> SendToCharging (ci_bot i))"

lemma str_arg_opt [simp]: "str_arg (opt_str s) = Some s"
  by (cases s) (simp_all add: opt_str_def)

lemma float_arg_opt [simp]: "float_arg (opt_float s) = Some s"
  by (cases s) (simp_all add: opt_float_def)

lemma item_binds: "wire_call_of (command_item_to_tool_call i g k) = Bound (item_call i)"
  by (cases "ci_action i"; cases "ci_via i";
      simp add: wire_call_of_def bind_keywords_def command_item_to_tool_call_def Let_def dget_def)

lemma negotiation_binds:
  "wire_call_of (start_negotiation_tool_call r g k) = Bound (StartNegotiation (sn_id r) (sn_starter r) (sn_context r))"
  by (simp add: wire_call_of_def bind_keywords_def start_negotiation_tool_call_def Let_def dget_def)

text \<open>The tool server, watched: for every call it notes whether the call bound and passed the guard.\<close>

definition passes :: "server \<Rightarrow> tool_request \<Rightarrow> bool" where
  "passes s r =
     (case (wire_call_of r, gen_arg r) of
        (Bound c, Some g) \<Rightarrow> check_passed (fst (check (chk s) g (key_arg r)))
      | _ \<Rightarrow> False)"

definition watched_execute ::
    "(string \<Rightarrow> iso_time) \<Rightarrow> (nat \<Rightarrow> env) \<Rightarrow> nat \<Rightarrow> server \<times> bool list \<Rightarrow> tool_request \<Rightarrow>
     payload result \<times> server \<times> bool list" where
  "watched_execute parse_ts env n w r =
     (let (res, s') = dispatch_execute parse_ts env n (fst w) r in (res, s', snd w @ [passes (fst w) r]))"

definition watched_publish :: "int \<Rightarrow> server \<times> bool list \<Rightarrow> server \<times> bool list" where
  "watched_publish g w = (publish_gen g (fst w), snd w)"

definition keys_fresh :: "(nat \<Rightarrow> string) \<Rightarrow> nat \<Rightarrow> server \<Rightarrow> bool" where
  "keys_fresh mint n s \<longleftrightarrow> idem_ok (idem_store (chk s)) \<and> (\<forall>k \<ge> n. idem_seen (idem_store (chk s)) (mint k) = None)"

lemma keys_fresh_later: "keys_fresh mint n s \<Longrightarrow> n \<le> m \<Longrightarrow> keys_fresh mint m s"
  by (simp add: keys_fresh_def)

lemma fresh_check:
  assumes "inj mint" "keys_fresh mint n s" "gen_store (chk s) = GenText g"
  shows "check_passed (fst (check (chk s) g (Some (mint n))))"
    and "keys_fresh mint (Suc n) (s'\<lparr>chk := snd (check (chk s) g (Some (mint n)))\<rparr>)"
proof -
  let ?st = "idem_store (chk s)"
  have none: "idem_seen ?st (mint n) = None" and ok: "idem_ok ?st" using assms(2) by (auto simp: keys_fresh_def)
  obtain b st' where c: "check_and_add IDEMPOTENCY_WINDOW_GENS ?st (mint n) g = (b, st')" by fastforce
  have b: "b" using idem_accept [of IDEMPOTENCY_WINDOW_GENS ?st "mint n" g] none c by simp
  have seen: "idem_seen st' (mint k) = None" if "Suc n \<le> k" for k
  proof -
    have "mint k \<noteq> mint n" using assms(1) that by (auto dest: injD)
    then show ?thesis
      using idem_seen_accept [OF ok none window_nonneg, of g "mint k"] c assms(2) that
      by (simp add: keys_fresh_def)
  qed
  have "idem_ok st'" using idem_ok_caa [OF ok, of IDEMPOTENCY_WINDOW_GENS "mint n" g] c by simp
  then show "check_passed (fst (check (chk s) g (Some (mint n))))"
    and "keys_fresh mint (Suc n) (s'\<lparr>chk := snd (check (chk s) g (Some (mint n)))\<rparr>)"
    using assms(3) c b seen by (simp_all add: check_def is_stale_def check_passed_def keys_fresh_def)
qed

lemma wire_chk_bound:
  "chk (snd (wire_dispatch parse_ts e s (Bound c) (Some g) key)) = snd (check (chk s) g key)"
  by (auto simp: wire_dispatch_def call_tool_def gen_guard_eq Let_def case_prod_beta split: sum.splits)

definition watch_ok :: "(nat \<Rightarrow> string) \<Rightarrow> int \<Rightarrow> nat \<Rightarrow> server \<times> bool list \<Rightarrow> bool" where
  "watch_ok mint g n w \<longleftrightarrow> False \<notin> set (snd w) \<and> keys_fresh mint n (fst w) \<and> gen_store (chk (fst w)) = GenText g"

lemma watch_call:
  assumes "inj mint" "watch_ok mint g n w" "watched_execute parse_ts env m w r = (res, w')"
    and "gen_arg r = Some g" "key_arg r = Some (mint n)" "wire_call_of r = Bound c"
  shows "watch_ok mint g (Suc n) w'"
proof -
  have f: "keys_fresh mint n (fst w)" "gen_store (chk (fst w)) = GenText g" "False \<notin> set (snd w)"
    using assms(2) by (simp_all add: watch_ok_def)
  let ?s' = "snd (wire_dispatch parse_ts (env m) (fst w) (Bound c) (Some g) (Some (mint n)))"
  have w': "w' = (?s', snd w @ [passes (fst w) r])"
    using assms(3-6) by (auto simp: watched_execute_def dispatch_execute_def split: prod.splits)
  have "keys_fresh mint (Suc n) (?s'\<lparr>chk := snd (check (chk (fst w)) g (Some (mint n)))\<rparr>)"
    by (rule fresh_check(2) [OF assms(1) f(1,2)])
  then have "keys_fresh mint (Suc n) ?s'" by (simp add: keys_fresh_def wire_chk_bound)
  then show ?thesis
    using fresh_check(1) [OF assms(1) f(1,2)] f assms(4-6)
    by (simp add: watch_ok_def w' passes_def wire_chk_bound)
qed

lemma watch_later: "watch_ok mint g n w \<Longrightarrow> n \<le> m \<Longrightarrow> watch_ok mint g m w"
  by (auto simp: watch_ok_def intro: keys_fresh_later)

lemma watch_items:
  assumes "inj mint"
  shows "dispatch_items (watched_execute parse_ts env) g n (zip cs (command_to_tool_calls mint n cs g)) sc w = (res, sc', w') \<Longrightarrow>
    watch_ok mint g n w \<Longrightarrow> watch_ok mint g (n + length cs) w'"
proof (induction cs arbitrary: n sc w res)
  case (Cons i cs)
  obtain r w1 where x: "watched_execute parse_ts env n w (command_item_to_tool_call i g (mint n)) = (r, w1)" by (meson surj_pair)
  have ok: "watch_ok mint g (Suc n) w1" by (rule watch_call [OF assms Cons.prems(2) x call_args(1,2) item_binds])
  show ?case
  proof (cases r)
    case (Inl e)
    then show ?thesis using Cons.prems(1) x watch_later [OF ok] by auto
  next
    case (Inr p)
    then obtain res' where "dispatch_items (watched_execute parse_ts env) g (Suc n) (zip cs (command_to_tool_calls mint (Suc n) cs g))
        (after_result g i p sc) w1 = (res', sc', w')"
      using Cons.prems(1) x by (auto split: prod.splits sum.splits)
    from Cons.IH [OF this ok] show ?thesis by simp
  qed
qed simp

lemma watch_negotiation:
  assumes "inj mint" "maybe_start_negotiation (watched_execute parse_ts env) mint c g results sc w = (res, sc', w')"
    and "watch_ok mint g (sc_minted sc) w"
  shows "watch_ok mint g (sc_minted sc') w'"
proof (cases "cm_start c")
  case None
  then show ?thesis using assms by (simp add: maybe_start_negotiation_def)
next
  case (Some rq)
  obtain r w1 where x: "watched_execute parse_ts env (sc_minted sc) w
      (start_negotiation_tool_call rq g (mint (sc_minted sc))) = (r, w1)" by (meson surj_pair)
  have "watch_ok mint g (Suc (sc_minted sc)) w1"
    by (rule watch_call [OF assms(1,3) x call_args(3,4) negotiation_binds])
  moreover have "w' = w1" "sc_minted sc' = Suc (sc_minted sc)"
    using assms(2) Some x by (auto simp: maybe_start_negotiation_def Let_def split: sum.splits)
  ultimately show ?thesis by simp
qed

lemma watch_command:
  assumes "inj mint" "dispatch_command (watched_execute parse_ts env) mint c g sc w = (res, sc', w')"
    and "watch_ok mint g (sc_minted sc) w"
  shows "watch_ok mint g (sc_minted sc') w'"
proof -
  let ?n = "sc_minted sc"
  let ?sc = "sc\<lparr>sc_reasoning := sc_reasoning sc @ [cm_reasoning c], sc_commands := sc_commands sc @ [c],
    sc_minted := ?n + length (cm_commands c)\<rparr>"
  obtain r sc1 w1 where i: "dispatch_items (watched_execute parse_ts env) g ?n
      (zip (cm_commands c) (command_to_tool_calls mint ?n (cm_commands c) g)) ?sc w = (r, sc1, w1)"
    by (metis prod_cases3)
  have ok: "watch_ok mint g (?n + length (cm_commands c)) w1" by (rule watch_items [OF assms(1) i assms(3)])
  have m: "sc_minted sc1 = ?n + length (cm_commands c)" using items_frame [OF i] by simp
  show ?thesis
  proof (cases r)
    case (Inl e)
    then show ?thesis using assms(2) i ok m by (simp add: dispatch_command_def Let_def)
  next
    case (Inr rs)
    then have "maybe_start_negotiation (watched_execute parse_ts env) mint c g rs sc1 w1 = (res, sc', w')"
      using assms(2) i by (simp add: dispatch_command_def Let_def)
    then show ?thesis using watch_negotiation [OF assms(1)] ok m by simp
  qed
qed

lemma watch_published:
  "False \<notin> set (snd w) \<Longrightarrow> keys_fresh mint n (fst w) \<Longrightarrow> watch_ok mint g n (watched_publish g w)"
  by (simp add: watch_ok_def watched_publish_def publish_gen_def keys_fresh_def gen_set_def)

lemma watch_cycle:
  assumes "inj mint" "run_cycle (watched_execute parse_ts env) watched_publish uuid_ok mint lib b raw ans sc w = (res, sc', w')"
    and "False \<notin> set (snd w)" "keys_fresh mint (sc_minted sc) (fst w)"
  shows "watch_ok mint (sc_gen sc + 1) (sc_minted sc') w'"
proof -
  note pub = watch_published [OF assms(3,4), of "sc_gen sc + 1"]
  show ?thesis using assms(2)
    by (auto simp: run_cycle_def reaction_defs Let_def pub split: cycle_splits
        dest!: watch_command [OF assms(1)] attach_frame)
qed

lemma watched_run:
  assumes "inj mint"
  shows "run_events (watched_execute parse_ts env) watched_publish uuid_ok mint lib b es sc w = (res, sc', w') \<Longrightarrow>
    False \<notin> set (snd w) \<Longrightarrow> keys_fresh mint (sc_minted sc) (fst w) \<Longrightarrow>
    False \<notin> set (snd w') \<and> keys_fresh mint (sc_minted sc') (fst w')"
proof (induction es arbitrary: sc w res)
  case (Cons e es)
  show ?case
  proof (cases e)
    case (Offer p)
    then show ?thesis using Cons by (simp add: set_negotiation_proposal_def)
  next
    case (Cycle raw ans)
    obtain r sc1 w1 where c: "run_cycle (watched_execute parse_ts env) watched_publish uuid_ok mint lib b raw ans sc w = (r, sc1, w1)"
      by (metis prod_cases3)
    have ok: "False \<notin> set (snd w1)" "keys_fresh mint (sc_minted sc1) (fst w1)"
      using watch_cycle [OF assms c Cons.prems(2,3)] by (simp_all add: watch_ok_def)
    then show ?thesis using Cons.prems(1) Cons.IH Cycle c by (auto split: sum.splits prod.splits)
  qed
qed simp

text \<open>
  C33. The commander never trips its own guard: with keys that do not repeat and a store that has seen
  none of them, every tool call the cycles send, whatever the model answers, binds to its tool and
  passes the generation and idempotency check.
\<close>
theorem own_calls_pass_guard:
  assumes "inj mint" and "keys_fresh mint (sc_minted sc) s"
    and "run_events (watched_execute parse_ts env) watched_publish uuid_ok mint lib b es sc (s, []) = (res, sc', s', flags)"
  shows "\<forall>f \<in> set flags. f"
  using watched_run [OF assms(1,3)] assms(2) by (metis (full_types) fst_conv snd_conv empty_iff list.set(1))

definition empty_snapshot :: raw_state where
  "empty_snapshot = \<lparr>raw_typed = Some (''t0'', []), raw_emergency = None\<rparr>"

definition plain_builder :: builder where
  "plain_builder = \<lparr>b_mode = ''none'', b_layout = ''two aisles'', b_min_distance = DEFAULT_EMERGENCY_MIN_DISTANCE,
     b_horizon = PREDICTION_HORIZON_S\<rparr>"

definition plain_item :: "string \<Rightarrow> command_action \<Rightarrow> command_item" where
  "plain_item b a = \<lparr>ci_bot = b, ci_action = a, ci_destination = None, ci_via = None, ci_duration = None,
     ci_retreat_to = None, ci_key = None\<rparr>"

definition delivery_command :: command where
  "delivery_command = \<lparr>cm_reasoning = ''go'',
     cm_commands = [(plain_item ''bot1'' NAVIGATE)\<lparr>ci_destination := Some ''shelf_1''\<rparr>, plain_item ''bot2'' STOP],
     cm_priority = None, cm_start = None\<rparr>"

definition delivery_run :: "bool list result \<times> scheduler \<times> server \<times> bool list" where
  "delivery_run = run_events (watched_execute (\<lambda>_. IsoInvalid) (\<lambda>_. sample_env)) watched_publish (\<lambda>_. True) no_keys
     flat_libm plain_builder [Cycle (Some empty_snapshot) (Answer delivery_command)] idle_scheduler (sample_server, [])"

lemma keys_inj: "inj no_keys"
  by (auto simp: inj_def no_keys_def)

lemma sample_keys_fresh: "keys_fresh no_keys n sample_server"
  by (simp add: keys_fresh_def sample_server_def idem_seen_def idem_ok_def)

theorem own_calls_pass_guard_witness:
  "length (snd (snd (snd delivery_run))) = 2 \<and> False \<notin> set (snd (snd (snd delivery_run)))"
proof
  show "length (snd (snd (snd delivery_run))) = 2" by code_simp
  show "False \<notin> set (snd (snd (snd delivery_run)))"
  proof -
    have "run_events (watched_execute (\<lambda>_. IsoInvalid) (\<lambda>_. sample_env)) watched_publish (\<lambda>_. True) no_keys
        flat_libm plain_builder [Cycle (Some empty_snapshot) (Answer delivery_command)] idle_scheduler (sample_server, [])
      = (fst delivery_run, fst (snd delivery_run), fst (snd (snd delivery_run)), snd (snd (snd delivery_run)))"
      by (simp add: delivery_run_def)
    from own_calls_pass_guard [OF keys_inj sample_keys_fresh this] show ?thesis by blast
  qed
qed

section \<open>Held robots\<close>

lemma run_no_motion:
  assumes "run_events (dispatch_execute parse_ts env) publish_gen uuid_ok mint lib b es sc s = (res, sc', s')"
    and "r \<in> emergency (pgate s)"
  shows "r \<in> emergency (pgate s') \<and> filter (moves r) (forwarded s') = filter (moves r) (forwarded s)"
  using held.run_rel [OF assms(1)] assms(2) by (auto simp: no_motion_def)

section \<open>The queue\<close>

text \<open>The tasks an event log says were handed out.\<close>

definition assigned_tasks :: "lifecycle_row list \<Rightarrow> pending_task list" where
  "assigned_tasks rows =
     concat (map (\<lambda>r. if lr_event r = ''task_assigned'' then (case lr_pending r of None \<Rightarrow> [] | Some t \<Rightarrow> [t]) else []) rows)"

lemma assigned_tasks_simps [simp]:
  "assigned_tasks [] = []"
  "assigned_tasks (r # xs) =
     (if lr_event r = ''task_assigned'' then (case lr_pending r of None \<Rightarrow> [] | Some t \<Rightarrow> [t]) else []) @ assigned_tasks xs"
  "assigned_tasks (xs @ ys) = assigned_tasks xs @ assigned_tasks ys"
  by (simp_all add: assigned_tasks_def)

definition task_books :: "scheduler \<Rightarrow> pending_task multiset" where
  "task_books sc = mset (sc_pending sc) + mset (assigned_tasks (sc_rows sc))"

lemma pop_task_mset:
  "pop_task d ts = (c, ts') \<Longrightarrow> mset ts = mset ts' + (case c of None \<Rightarrow> {#} | Some t \<Rightarrow> {#t#})"
  by (induction ts arbitrary: ts') (auto split: if_splits prod.splits option.splits)

lemma pop_task_first:
  "pop_task d ts = (Some t, ts') \<Longrightarrow> pt_to t = d"
  by (induction ts arbitrary: ts') (auto split: if_splits prod.splits)

lemma after_result_books:
  assumes "sc_event_log sc" shows "task_books (after_result gen i res sc) = task_books sc"
proof -
  have track: "sc_pending (track_current_task i res sc) = sc_pending sc" "sc_rows (track_current_task i res sc) = sc_rows sc"
    "sc_event_log (track_current_task i res sc) = sc_event_log sc"
    by (auto simp: track_current_task_def split: option.splits command_action.splits)
  show ?thesis
    using assms pop_task_mset
    by (auto simp: task_books_def after_result_def push_history_def record_task_lifecycle_def consume_pending_task_def
        Let_def track split: prod.splits option.splits)
qed

lemma items_books:
  assumes "dispatch_items exec gen n xs sc s = (res, sc', s')" and "sc_event_log sc"
  shows "task_books sc' = task_books sc"
proof -
  have "sc_event_log sc \<longrightarrow> task_books sc' = task_books sc"
    by (rule items_induct [OF assms(1)]) (simp_all add: after_result_books)
  with assms(2) show ?thesis by simp
qed

lemma command_books:
  assumes "dispatch_command exec mint c gen sc s = (res, sc', s')" and "sc_event_log sc"
  shows "task_books sc' = task_books sc"
proof -
  let ?sc = "sc\<lparr>sc_reasoning := sc_reasoning sc @ [cm_reasoning c], sc_commands := sc_commands sc @ [c],
    sc_minted := sc_minted sc + length (cm_commands c)\<rparr>"
  have "sc_event_log ?sc" "task_books ?sc = task_books sc" using assms(2) by (simp_all add: task_books_def)
  moreover have "task_books t = task_books u" if "maybe_start_negotiation exec mint c gen rs u v = (r, t, w)" for rs u v r t w
    using negotiation_frame [OF that] by (simp add: task_books_def)
  ultimately show ?thesis
    using assms(1) by (auto simp: dispatch_command_def Let_def split: prod.splits sum.splits dest!: items_books)
qed

lemma books_frame [simp]:
  "task_books (sc\<lparr>sc_asked := a\<rparr>) = task_books sc" "task_books (sc\<lparr>sc_proposal := p\<rparr>) = task_books sc"
  "task_books (sc\<lparr>sc_gen := g, sc_turn := u\<rparr>) = task_books sc" "task_books (sc\<lparr>sc_failures := f\<rparr>) = task_books sc"
  "task_books (sc\<lparr>sc_failures := f, sc_nav2_only := o1\<rparr>) = task_books sc"
  "task_books (sc\<lparr>sc_nav2_only := o1\<rparr>) = task_books sc" "task_books (sc\<lparr>sc_last := l\<rparr>) = task_books sc"
  by (simp_all add: task_books_def)

lemma cycle_books:
  assumes "run_cycle exec publish uuid_ok mint lib b raw ans sc s = (res, sc', s')" and "sc_event_log sc"
  shows "task_books sc' = task_books sc \<and> sc_event_log sc'"
proof -
  have "sc_event_log t \<and> task_books t = task_books u" if "dispatch_command exec mint c g u v = (r, t, w)" "sc_event_log u" for c g u v r t w
    using command_books [OF that] command_frame [OF that(1)] that(2) by simp
  note cmd = this
  show ?thesis
    using assms
    by (auto simp: run_cycle_def reaction_defs Let_def split: cycle_splits dest!: cmd attach_frame)
qed

text \<open>
  No task is lost or handed out twice: with the event log on, the tasks still queued and the tasks
  logged as assigned are together, as a multiset, what they were at the start, over any run of
  cycles, any answers and any outcome of the tool calls.
\<close>
theorem tasks_conserved:
  assumes "run_events exec publish uuid_ok mint lib b es sc s = (res, sc', s')" and "sc_event_log sc"
  shows "mset (sc_pending sc') + mset (assigned_tasks (sc_rows sc')) =
    mset (sc_pending sc) + mset (assigned_tasks (sc_rows sc))"
proof -
  have "task_books sc' = task_books sc" using assms
  proof (induction es arbitrary: sc s res)
    case (Cons e es)
    show ?case
    proof (cases e)
      case (Offer p)
      then show ?thesis using Cons.prems Cons.IH [of "set_negotiation_proposal p sc" s] by (simp add: set_negotiation_proposal_def)
    next
      case (Cycle raw ans)
      then show ?thesis using Cons.prems Cons.IH by (fastforce split: prod.splits sum.splits dest: cycle_books)
    qed
  qed simp
  then show ?thesis by (simp add: task_books_def)
qed

definition delivery_outcome :: "bool list result \<times> scheduler \<times> server" where
  "delivery_outcome = run_events (dispatch_execute (\<lambda>_. IsoInvalid) (\<lambda>_. sample_env)) publish_gen (\<lambda>_. True) no_keys
     flat_libm plain_builder [Cycle (Some empty_snapshot) (Answer delivery_command)] idle_scheduler sample_server"

theorem tasks_conserved_witness:
  "sc_pending (fst (snd delivery_outcome)) = []
   \<and> mset (assigned_tasks (sc_rows (fst (snd delivery_outcome)))) = {#\<lparr>pt_id = ''t1'', pt_from = ''shelf_2'', pt_to = ''shelf_1''\<rparr>#}"
proof -
  have empty: "sc_pending (fst (snd delivery_outcome)) = []" by code_simp
  have "run_events (dispatch_execute (\<lambda>_. IsoInvalid) (\<lambda>_. sample_env)) publish_gen (\<lambda>_. True) no_keys
      flat_libm plain_builder [Cycle (Some empty_snapshot) (Answer delivery_command)] idle_scheduler sample_server
    = (fst delivery_outcome, fst (snd delivery_outcome), snd (snd delivery_outcome))" by (simp add: delivery_outcome_def)
  from tasks_conserved [OF this] empty show ?thesis by (simp add: idle_scheduler_def)
qed

section \<open>Outages\<close>

lemma build_ready:
  "validate_snapshot raw = Inr (t, []) \<Longrightarrow>
     \<exists>si. build_situation lib b (Some raw) turn gen h p ts = Inr (Some si)"
  by (simp add: build_situation_def)

definition situation_ready :: "libm \<Rightarrow> builder \<Rightarrow> raw_state \<Rightarrow> bool" where
  "situation_ready lib b raw \<longleftrightarrow>
     (\<forall>turn gen h p ts. \<exists>si. build_situation lib b (Some raw) turn gen h p ts = Inr (Some si))"

lemma timeout_cycle:
  assumes "situation_ready lib b raw"
    and "run_cycle exec publish uuid_ok mint lib b (Some raw) TimedOut sc s = (res, sc', s')"
  shows "res = Inr False \<and> sc_failures sc' = Suc (sc_failures sc) \<and> sc_outage_after sc' = sc_outage_after sc
    \<and> sc_nav2_only sc' = (sc_nav2_only sc \<or> sc_outage_after sc \<le> int (Suc (sc_failures sc)))"
proof -
  obtain si where si: "build_situation lib b (Some raw) (sc_turn sc + 1) (sc_gen sc + 1) (sc_history sc) (sc_pending sc) (sc_current sc)
      = Inr (Some si)"
    using assms(1) unfolding situation_ready_def by blast
  show ?thesis using assms(2) si
    by (auto simp: run_cycle_def on_llm_timeout_def Let_def split: prod.splits dest!: attach_frame)
qed

text \<open>
  Sustained silence is flagged in time: from a scheduler without failures, after \<open>n\<close> cycles in a
  row in which the model did not answer in time, the Nav2-only flag is up exactly when \<open>n\<close> has
  reached the outage threshold, and no cycle counts as productive.
\<close>
theorem outage_flagged:
  assumes "situation_ready lib b raw" and "sc_failures sc = 0" and "\<not> sc_nav2_only sc" and "1 \<le> sc_outage_after sc"
    and "run_events exec publish uuid_ok mint lib b (replicate n (Cycle (Some raw) TimedOut)) sc s = (res, sc', s')"
  shows "res = Inr (replicate n False) \<and> (sc_nav2_only sc' \<longleftrightarrow> sc_outage_after sc \<le> int n)"
proof -
  have "res = Inr (replicate n False) \<and>
      (sc_nav2_only sc' \<longleftrightarrow> sc_nav2_only sc \<or> 0 < n \<and> sc_outage_after sc \<le> int (sc_failures sc + n))"
    using assms(5)
  proof (induction n arbitrary: sc s res)
    case (Suc n)
    obtain r1 sc1 s1 where c: "run_cycle exec publish uuid_ok mint lib b (Some raw) TimedOut sc s = (r1, sc1, s1)"
      by (metis prod_cases3)
    note t = timeout_cycle [OF assms(1) c]
    obtain r2 where r: "run_events exec publish uuid_ok mint lib b (replicate n (Cycle (Some raw) TimedOut)) sc1 s1 = (r2, sc', s')"
      using Suc.prems c t by (auto split: prod.splits sum.splits)
    have "res = map_sum id ((#) False) r2" using Suc.prems c t r by (auto split: sum.splits)
    then show ?case using Suc.IH [OF r] t by auto
  qed simp
  then show ?thesis using assms(2-4) by auto
qed

theorem outage_flagged_witness:
  "sc_nav2_only (fst (snd (run_events (dispatch_execute (\<lambda>_. IsoInvalid) (\<lambda>_. sample_env)) publish_gen (\<lambda>_. True) no_keys
     flat_libm plain_builder (replicate 2 (Cycle (Some empty_snapshot) TimedOut)) idle_scheduler sample_server)))"
proof -
  have "situation_ready flat_libm plain_builder empty_snapshot"
    by (simp add: situation_ready_def build_situation_def validate_snapshot_def empty_snapshot_def)
  moreover have "x = (fst x, fst (snd x), snd (snd x))" for x :: "bool list result \<times> scheduler \<times> server" by simp
  ultimately show ?thesis
    using outage_flagged [of flat_libm plain_builder empty_snapshot idle_scheduler] by (fastforce simp: idle_scheduler_def)
qed

section \<open>Exceptions\<close>

text \<open>
  A corrupt snapshot ends the commander: when a snapshot fails validation (a battery above 100, say)
  the exception is not caught within the cycle, so the loop stops there, whatever would have come
  after, with the new generation already published.
\<close>
theorem corrupt_snapshot_stops_commander:
  assumes "validate_snapshot raw = Inl e"
  shows "run_events exec publish uuid_ok mint lib b (Cycle (Some raw) ans # es) sc s =
    (Inl e, sc\<lparr>sc_gen := sc_gen sc + 1, sc_turn := sc_turn sc + 1\<rparr>, publish (sc_gen sc + 1) s)"
  using assms by (simp add: run_cycle_def build_invalid Let_def)

definition overfull_battery :: raw_state where
  "overfull_battery = \<lparr>raw_typed = Some (''t0'', [(''bot1'', \<lparr>rs_x = Fin 0, rs_y = Fin 0, rs_linear = Fin 0,
     rs_angular = Fin 0, rs_heading = Fin 0, rs_status = ''idle'', rs_battery = 101, rs_obstacle = None\<rparr>)]),
     raw_emergency = None\<rparr>"

theorem corrupt_snapshot_stops_commander_witness:
  "fst (run_events (dispatch_execute (\<lambda>_. IsoInvalid) (\<lambda>_. sample_env)) publish_gen (\<lambda>_. True) no_keys flat_libm plain_builder
     [Cycle (Some overfull_battery) TimedOut, Cycle (Some empty_snapshot) (Answer delivery_command)] idle_scheduler sample_server)
   = Inl ValueError"
proof -
  have "validate_snapshot overfull_battery = Inl ValueError"
    by (simp add: validate_snapshot_def overfull_battery_def snapshot_robot_ok_def)
  then show ?thesis by (simp only: corrupt_snapshot_stops_commander fst_conv)
qed

text \<open>
  The configured cycle span is checked before it is used, except that a huge integer overflows in
  the check itself.
\<close>

lemma resolve_cycle_wait_positive:
  assumes "resolve_cycle_wait cfg mode = Inr w" shows "Fin 0 \<le> w"
proof -
  have d: "Fin 0 \<le> (case map_of CYCLE_WAIT_SEC mode of None \<Rightarrow> DEFAULT_CYCLE_WAIT_SEC | Some w \<Rightarrow> w)"
    by (auto simp: CYCLE_WAIT_SEC_def DEFAULT_CYCLE_WAIT_SEC_def)
  have m: "Fin 0 \<le> py_max MIN_CYCLE_WAIT_SEC x" for x
    by (auto simp: py_max_def MIN_CYCLE_WAIT_SEC_def dest: flt_le)
  show ?thesis using assms d m
    by (auto simp: resolve_cycle_wait_def Let_def bindR_Inr_iff split: pyval.splits if_splits)
qed

lemma resolve_cycle_wait_overflow:
  "resolve_cycle_wait (PDict [(''cycle'', PDict [(''mode_a_seconds'', PInt (10 ^ 400))])]) ''none'' = Inl OverflowError"
  using float_of_int_huge
  by (simp add: resolve_cycle_wait_def MODE_A_TRAFFIC_MODES_def dget_def Let_def del: power_numeral)

lemma default_outage: "outage_threshold OUTAGE_NO_RESPONSE_SEC CYCLE_TIMEOUT_SEC = Inr 2"
  by code_simp

section \<open>The commander's memory\<close>

text \<open>Every tracked task is a known location, and the history stays short.\<close>

definition memory_ok :: "scheduler \<Rightarrow> bool" where
  "memory_ok sc \<longleftrightarrow> (\<forall>x \<in> set (sc_current sc). is_known_location (snd x)) \<and> length (sc_history sc) \<le> HISTORY_MAXLEN"

lemma update_values: "x \<in> set (AList.update k v d) \<Longrightarrow> x = (k, v) \<or> x \<in> set d"
  by (induction d) (auto split: if_splits)

lemma track_known:
  assumes "item_valid uuid_ok i" "\<forall>x \<in> set (sc_current sc). is_known_location (snd x)"
  shows "\<forall>x \<in> set (sc_current (track_current_task i res sc)). is_known_location (snd x)"
proof -
  have "is_known_location CHARGING_TASK" by code_simp
  then show ?thesis
    using assms by (auto simp: track_current_task_def item_valid_def AList.delete_eq dest!: update_values
        split: option.splits command_action.splits)
qed

lemma after_result_memory:
  assumes "item_valid uuid_ok i" "memory_ok sc" shows "memory_ok (after_result gen i res sc)"
proof -
  have "sc_current (after_result gen i res sc) = sc_current (track_current_task i res sc)"
    by (auto simp: after_result_def push_history_def record_task_lifecycle_def consume_pending_task_def Let_def
        split: prod.splits option.splits)
  moreover have "length (sc_history (after_result gen i res sc)) \<le> HISTORY_MAXLEN"
    by (auto simp: after_result_def push_history_def Let_def split: prod.splits)
  ultimately show ?thesis using track_known [OF assms(1), of sc res] assms(2) by (simp add: memory_ok_def)
qed

lemma items_memory:
  assumes "dispatch_items exec gen n xs sc s = (res, sc', s')" "list_all (item_valid uuid_ok) (map fst xs)" "memory_ok sc"
  shows "memory_ok sc'"
proof -
  have "memory_ok sc \<longrightarrow> memory_ok sc'"
  proof (rule items_induct [OF assms(1)])
    fix i rq res u t
    assume "(i, rq) \<in> set xs" and step: "memory_ok (after_result gen i res u) \<longrightarrow> memory_ok t"
    then have "item_valid uuid_ok i" using assms(2) by (force simp: list_all_iff)
    then show "memory_ok u \<longrightarrow> memory_ok t" using step by (blast intro: after_result_memory)
  qed simp
  with assms(3) show ?thesis by simp
qed

lemma command_memory:
  assumes "dispatch_command exec mint c gen sc s = (res, sc', s')" "command_valid uuid_ok c" "memory_ok sc"
  shows "memory_ok sc'"
proof -
  let ?sc = "sc\<lparr>sc_reasoning := sc_reasoning sc @ [cm_reasoning c], sc_commands := sc_commands sc @ [c],
    sc_minted := sc_minted sc + length (cm_commands c)\<rparr>"
  have "memory_ok ?sc" using assms(3) by (simp add: memory_ok_def)
  moreover have "memory_ok u \<Longrightarrow> maybe_start_negotiation exec mint c gen rs u v = (r, t, w) \<Longrightarrow> memory_ok t" for rs u v r t w
    by (auto simp: maybe_start_negotiation_def memory_ok_def Let_def split: option.splits prod.splits sum.splits)
  moreover have "list_all (item_valid uuid_ok) (map fst (zip (cm_commands c) (command_to_tool_calls mint n (cm_commands c) gen)))" for n
    using assms(2) by (simp add: command_valid_def)
  ultimately show ?thesis
    using assms(1) by (auto simp: dispatch_command_def Let_def split: prod.splits sum.splits dest: items_memory)
qed

lemma cycle_memory:
  assumes "run_cycle exec publish uuid_ok mint lib b raw ans sc s = (res, sc', s')" "memory_ok sc"
  shows "memory_ok sc'"
proof -
  have frame: "memory_ok (t\<lparr>sc_last := l\<rparr>) = memory_ok t" "memory_ok (t\<lparr>sc_failures := f\<rparr>) = memory_ok t"
    "memory_ok (t\<lparr>sc_nav2_only := o1\<rparr>) = memory_ok t" "memory_ok (t\<lparr>sc_gen := g\<rparr>) = memory_ok t"
    "memory_ok (t\<lparr>sc_turn := g\<rparr>) = memory_ok t" "memory_ok (t\<lparr>sc_asked := a\<rparr>) = memory_ok t"
    "memory_ok (t\<lparr>sc_proposal := p\<rparr>) = memory_ok t" for t l f o1 g a p
    by (simp_all add: memory_ok_def)
  have command: "memory_ok t" if "dispatch_command exec mint c g u v = (r, t, w)" "command_valid uuid_ok c" "memory_ok u"
    for c g u v r t w using command_memory [OF that] .
  show ?thesis
    using assms
    by (auto simp: run_cycle_def reaction_defs frame Let_def split: cycle_splits dest!: attach_frame dest: command)
qed

text \<open>What the commander remembers of a robot is always a known location, whatever it was answered.\<close>

lemma run_memory:
  "run_events exec publish uuid_ok mint lib b es sc s = (res, sc', s') \<Longrightarrow> memory_ok sc \<Longrightarrow> memory_ok sc'"
proof (induction es arbitrary: sc s res)
  case (Cons e es)
  show ?case
  proof (cases e)
    case (Offer p)
    then show ?thesis using Cons by (simp add: set_negotiation_proposal_def memory_ok_def)
  next
    case (Cycle raw ans)
    then show ?thesis using Cons.prems Cons.IH by (fastforce split: prod.splits sum.splits dest: cycle_memory)
  qed
qed simp

end
