(* ===== verification/XErRun.thy ===== *)
theory XErRun
  imports XErCycleProps SchedulerProps
begin

text \<open>
  The Mode X-ER loop over any history of answers and goal results: a
  dependent task waits for the goal result of its predecessor, a completion concerns a committed pair, and a
  backend's relations are kept.
\<close>

section \<open>Goal results\<close>

definition marked :: "string \<Rightarrow> goal_outcome list \<Rightarrow> (string \<times> string) set" where
  "marked p os = {(p, t) | t. \<exists>out \<in> set os. \<exists>b. go_reason out = TaskSucceeded b t}"

definition concerns :: "goal_outcome \<Rightarrow> (string \<times> string) option" where
  "concerns out = (case go_reason out of TaskSucceeded b t \<Rightarrow> Some (b, t) | TaskFailed b t \<Rightarrow> Some (b, t) | _ \<Rightarrow> None)"

definition drained :: "string \<Rightarrow> goal_outcome list \<Rightarrow> (string, string) pydict \<Rightarrow> graph_store \<Rightarrow>
    (string, string) pydict \<Rightarrow> graph_store \<Rightarrow> bool" where
  "drained p os inflight st inflight' st' \<longleftrightarrow>
     evolves st st' \<and> set inflight' \<subseteq> set inflight
     \<and> (\<forall>q u. stat st' q u = SUCCEEDED \<longrightarrow> stat st q u = SUCCEEDED \<or> (q, u) \<in> marked p os)
     \<and> (\<forall>out \<in> set os. go_applied out \<longleftrightarrow> concerns out \<noteq> None)
     \<and> (\<forall>out \<in> set os. \<forall>bt. concerns out = Some bt \<longrightarrow> bt \<in> set inflight)"

lemma running_to_terminal: "advances RUNNING SUCCEEDED" "advances RUNNING FAILED"
  by (simp_all add: advances_def TERMINAL_STATUSES_def NON_EMITTABLE_def)

lemma mark_terminal_handle:
  assumes "handle p h" and "stat (store h) p t = RUNNING" and "st = SUCCEEDED \<or> st = FAILED"
  shows "mark_terminal p t st h = Inr (commit p t st h)"
    and "evolves (store h) (store (commit p t st h))"
    and "stat (store (commit p t st h)) q u = (if q = p \<and> u = t then st else stat (store h) q u)"
  using commit_handle [OF assms(1), of t st] assms handle_status [OF assms(1)] running_to_terminal
  by (auto simp: mark_terminal_def)

lemma goal_result_drained:
  assumes "apply_goal_result gr p inflight st = Inr (out, inflight', st')" and ok: "store_ok st"
  shows "drained p [out] inflight st inflight' st'"
proof -
  obtain b tid res where gr: "gr = (b, tid, res)" by (metis prod_cases3)
  have base: "evolves st st" by (rule evolves_refl [OF ok])
  have del: "set (AList.delete b inflight) \<subseteq> set inflight" by (auto simp: AList.delete_eq)
  show ?thesis
  proof (cases "map_of inflight b")
    case None
    then show ?thesis using assms(1) base
      by (auto simp: apply_goal_result_def gr drained_def goal_ignored_def concerns_def)
  next
    case (Some t)
    have m: "(b, t) \<in> set inflight" by (rule map_of_SomeD [OF Some])
    let ?h = "\<lparr>graph = view st p, store = st\<rparr>"
    have h: "handle p ?h" using ok by (simp add: handle_def)
    show ?thesis
    proof (cases "stat st p t = RUNNING")
      case False
      then show ?thesis using assms(1) base del
        by (auto simp: apply_goal_result_def gr Some load_handle [OF ok] stat_def drained_def goal_ignored_def concerns_def)
    next
      case True
      note mk = mark_terminal_handle [OF h, of t] 
      show ?thesis using assms(1) base mk [of SUCCEEDED] mk [of FAILED] True m del
        by (auto simp: apply_goal_result_def gr Some load_handle [OF ok] stat_def mark_succeeded_def mark_failed_def
            drained_def goal_ignored_def concerns_def marked_def split: if_splits)
    qed
  qed
qed

lemma drained_append:
  assumes "drained p os i st i1 st1" and "drained p os' i1 st1 i2 st2"
  shows "drained p (os @ os') i st i2 st2"
proof -
  have m: "marked p (os @ os') = marked p os \<union> marked p os'" by (auto simp: marked_def)
  have ev: "evolves st st2" using assms evolves_trans unfolding drained_def by metis
  have i: "set i1 \<subseteq> set i" "set i2 \<subseteq> set i1" using assms by (simp_all add: drained_def)
  have su: "stat st q u = SUCCEEDED \<or> (q, u) \<in> marked p os \<union> marked p os'" if "stat st2 q u = SUCCEEDED" for q u
    using assms that unfolding drained_def by blast
  have ap: "go_applied out \<longleftrightarrow> concerns out \<noteq> None" if "out \<in> set os \<union> set os'" for out
    using assms that unfolding drained_def by blast
  have "\<forall>out \<in> set os. \<forall>bt. concerns out = Some bt \<longrightarrow> bt \<in> set i"
    "\<forall>out \<in> set os'. \<forall>bt. concerns out = Some bt \<longrightarrow> bt \<in> set i1"
    using assms unfolding drained_def by - (elim conjE, assumption)+
  then have co: "bt \<in> set i" if "out \<in> set os \<union> set os'" "concerns out = Some bt" for out bt
    using that i(1) by (metis UnE subsetD)
  show ?thesis unfolding drained_def m set_append
    by (intro conjI ballI allI impI) (rule ev, rule subset_trans [OF i(2,1)], erule su, erule ap, erule co, assumption)
qed

lemma queue_drained:
  "apply_queue grs p inflight st = Inr (os, inflight', st') \<Longrightarrow> store_ok st \<Longrightarrow> drained p os inflight st inflight' st'"
proof (induction grs arbitrary: inflight st os)
  case Nil
  then show ?case by (simp add: drained_def evolves_refl)
next
  case (Cons gr grs)
  then obtain o1 i1 st1 os' where r: "apply_goal_result gr p inflight st = Inr (o1, i1, st1)"
      "apply_queue grs p i1 st1 = Inr (os', inflight', st')" "os = [o1] @ os'"
    by (auto simp: bindR_Inr_iff)
  have d: "drained p [o1] inflight st i1 st1" by (rule goal_result_drained [OF r(1) Cons.prems(2)])
  then have "drained p os' i1 st1 inflight' st'" using Cons.IH [OF r(2)] by (simp add: drained_def evolves_def)
  from drained_append [OF d this] show ?case by (simp add: r(3))
qed

definition marks :: "xer_entry \<Rightarrow> (string \<times> string) set" where
  "marks en = (case xl_plan en of None \<Rightarrow> {} | Some p \<Rightarrow> marked p (xl_applied en))"

definition commits :: "xer_entry \<Rightarrow> (string \<times> string) list" where
  "commits en = xo_committed (xl_outcome en)"

lemma pending_drained:
  assumes "apply_pending_completions pending plan inflight st = Inr (os, inflight', st')" and "store_ok st"
  shows "evolves st st'" and "set inflight' \<subseteq> set inflight"
    and "stat st' q u = SUCCEEDED \<Longrightarrow> stat st q u = SUCCEEDED \<or> (q, u) \<in> (case plan of None \<Rightarrow> {} | Some p \<Rightarrow> marked p os)"
    and "out \<in> set os \<Longrightarrow> go_applied out \<longleftrightarrow> concerns out \<noteq> None"
    and "out \<in> set os \<Longrightarrow> concerns out = Some bt \<Longrightarrow> bt \<in> set inflight"
proof -
  let ?m = "case plan of None \<Rightarrow> {} | Some p \<Rightarrow> marked p os"
  have all: "evolves st st' \<and> set inflight' \<subseteq> set inflight
      \<and> (\<forall>q u. stat st' q u = SUCCEEDED \<longrightarrow> stat st q u = SUCCEEDED \<or> (q, u) \<in> ?m)
      \<and> (\<forall>out \<in> set os. go_applied out \<longleftrightarrow> concerns out \<noteq> None)
      \<and> (\<forall>out \<in> set os. \<forall>bt. concerns out = Some bt \<longrightarrow> bt \<in> set inflight)"
  proof (cases plan)
    case None
    then show ?thesis using assms(1) evolves_refl [OF assms(2)] by (simp add: apply_pending_completions_def)
  next
    case (Some p)
    then have "drained p os inflight st inflight' st'"
      using assms(1) queue_drained [OF _ assms(2)] by (simp add: apply_pending_completions_def)
    then show ?thesis unfolding drained_def Some by simp
  qed
  from all show "evolves st st'" "set inflight' \<subseteq> set inflight"
    "stat st' q u = SUCCEEDED \<Longrightarrow> stat st q u = SUCCEEDED \<or> (q, u) \<in> ?m"
    "out \<in> set os \<Longrightarrow> go_applied out \<longleftrightarrow> concerns out \<noteq> None"
    "out \<in> set os \<Longrightarrow> concerns out = Some bt \<Longrightarrow> bt \<in> set inflight" by blast+
qed

lemma fold_inflight_subset: "fold_inflight m xs = (refused, m') \<Longrightarrow> set m' \<subseteq> set m \<union> set xs"
  by (induction m xs arbitrary: refused rule: fold_inflight.induct) (fastforce split: if_splits prod.splits)+

section \<open>The loop\<close>

text \<open>What one turn that leaves an entry did: drain to \<open>mid\<close>, then the cycle.\<close>

definition turn :: "graph_store \<Rightarrow> (string, string) pydict \<Rightarrow> xer_entry \<Rightarrow> xer \<Rightarrow> bool" where
  "turn st inflight en x' \<longleftrightarrow>
     (\<exists>mid. evolves st mid \<and> evolves mid (xe_store x') \<and> finishes_none mid (xe_store x')
        \<and> committed_ok mid (xe_store x') (xl_outcome en)
        \<and> (\<forall>q u. stat mid q u = SUCCEEDED \<longrightarrow> stat st q u = SUCCEEDED \<or> (q, u) \<in> marks en))
     \<and> set (xe_inflight x') \<subseteq> set inflight \<union> set (commits en)
     \<and> (\<forall>out \<in> set (xl_applied en). go_applied out \<longleftrightarrow> concerns out \<noteq> None)
     \<and> (\<forall>out \<in> set (xl_applied en). \<forall>bt. concerns out = Some bt \<longrightarrow> bt \<in> set inflight)"

lemma iterate_turn:
  assumes it: "xer_iterate v ans m x s = (res, x', s')" and ok: "store_ok (xe_store x)"
  shows "evolves (xe_store x) (xe_store x')
    \<and> (case res of None \<Rightarrow> xe_stopped x' \<or> x' = x | Some en \<Rightarrow> turn (xe_store x) (xe_inflight x) en x')"
proof (cases "xe_stopped x \<or> \<not> xe_triggered x")
  case True
  then show ?thesis using it evolves_refl [OF ok] by (auto simp: xer_iterate_def)
next
  case run: False
  show ?thesis
  proof (cases "apply_pending_completions (xe_pending x) (xe_plan_id x) (xe_inflight x) (xe_store x)")
    case (Inl e)
    then show ?thesis using it run evolves_refl [OF ok] by (auto simp: xer_iterate_def)
  next
    case (Inr a)
    obtain os i mid where a: "a = (os, i, mid)" by (metis prod_cases3)
    note d = pending_drained [OF Inr [unfolded a] ok]
    have okm: "store_ok mid" using d(1) by (simp add: evolves_def)
    obtain cr st2 n2 s2 where c: "run_x_er_cycle v ans m mid (xe_minted x) s = (cr, st2, n2, s2)" by (metis prod_cases4)
    note cs = cycle_spec [OF c okm]
    show ?thesis
    proof (cases cr)
      case (Inl e)
      then show ?thesis using it run Inr a c cs d(1) evolves_trans by (auto simp: xer_iterate_def)
    next
      case cok: (Inr out)
      obtain refused i2 where f: "(if xo_skipped out = None then fold_inflight i (xo_committed out) else ([], i)) = (refused, i2)"
        by (metis surj_pair)
      have i2: "set i2 \<subseteq> set i \<union> set (xo_committed out)" using f fold_inflight_subset by (auto split: if_splits)
      let ?en = "\<lparr>xl_plan = xe_plan_id x, xl_applied = os, xl_refused = refused, xl_outcome = out\<rparr>"
      have r: "res = Some ?en" and x': "xe_store x' = st2" "xe_inflight x' = i2"
        using it run Inr a c cok f by (auto simp: xer_iterate_def)
      have en: "marks ?en = (case xe_plan_id x of None \<Rightarrow> {} | Some p \<Rightarrow> marked p os)" "commits ?en = xo_committed out"
        by (simp_all add: marks_def commits_def cong: option.case_cong)
      have cyc: "evolves mid st2" "finishes_none mid st2" "committed_ok mid st2 out" using cs cok by blast+
      have "turn (xe_store x) (xe_inflight x) ?en x'"
        unfolding turn_def x' en xer_entry.simps
      proof (intro conjI exI [of _ mid])
        show "set i2 \<subseteq> set (xe_inflight x) \<union> set (xo_committed out)" using i2 d(2) by blast
      qed (use d cyc in blast)+
      then show ?thesis using evolves_trans [OF d(1) cyc(1)] by (simp add: r x')
    qed
  qed
qed

lemma message_keeps [simp]:
  "xe_store (on_goal_result_msg g x) = xe_store x" "xe_inflight (on_goal_result_msg g x) = xe_inflight x"
  "xe_stopped (on_goal_result_msg g x) = xe_stopped x" "xe_plan_id (on_goal_result_msg g x) = xe_plan_id x"
  by (simp_all add: on_goal_result_msg_def split: option.split)

lemma stopped_iterate: "xe_stopped x \<Longrightarrow> xer_iterate v ans m x s = (None, x, s)"
  by (simp add: xer_iterate_def)

lemma stopped_run: "xe_stopped x \<Longrightarrow> xer_run v es x s = (ens, x', s') \<Longrightarrow> ens = [] \<and> xe_store x' = xe_store x"
proof (induction es arbitrary: x ens)
  case (Cons e es)
  show ?case
  proof (cases e)
    case (GoalMsg g)
    then show ?thesis using Cons.IH [of "on_goal_result_msg g x"] Cons.prems by simp
  next
    case (Iterate ans m)
    then show ?thesis using Cons by (auto simp: stopped_iterate split: prod.splits)
  qed
qed simp

text \<open>Induction over a run: messages change neither the store nor the in-flight map, a turn is as specified.\<close>

lemma run_induct [consumes 2, case_names Nil Step]:
  assumes "xer_run v es x s = (ens, x', s')" and "store_ok (xe_store x)"
    and "\<And>st i. store_ok st \<Longrightarrow> P st i []"
    and "\<And>st i en (y :: xer) ens. store_ok st \<Longrightarrow> evolves st (xe_store y) \<Longrightarrow> turn st i en y \<Longrightarrow>
           P (xe_store y) (xe_inflight y) ens \<Longrightarrow> P st i (en # ens)"
  shows "P (xe_store x) (xe_inflight x) ens"
  using assms(1,2)
proof (induction es arbitrary: x s ens)
  case Nil
  then show ?case using assms(3) by simp
next
  case (Cons e es)
  show ?case
  proof (cases e)
    case (GoalMsg g)
    then show ?thesis using Cons.IH [of "on_goal_result_msg g x"] Cons.prems by (simp add: GoalMsg)
  next
    case (Iterate ans m)
    obtain res y s1 where it: "xer_iterate v ans m x s = (res, y, s1)" by (metis prod_cases3)
    obtain rest z s2 where l: "xer_run v es y s1 = (rest, z, s2)" by (metis prod_cases3)
    have ens: "ens = (case res of None \<Rightarrow> rest | Some en \<Rightarrow> en # rest)"
      using Cons.prems(1) by (simp add: Iterate it l)
    note t = iterate_turn [OF it Cons.prems(2)]
    have ok: "store_ok (xe_store y)" using t by (simp add: evolves_def)
    note ih = Cons.IH [OF _ ok, of s1 rest]
    show ?thesis
    proof (cases res)
      case None
      then consider "xe_stopped y" | "y = x" using t by auto
      then show ?thesis
      proof cases
        case 1
        then have "ens = []" using stopped_run [OF 1 l] ens None by simp
        then show ?thesis using assms(3) Cons.prems(2) by simp
      next
        case 2
        then show ?thesis using Cons.IH [OF _ Cons.prems(2), of s1 rest] l ens None Cons.prems(1) 
          by (simp add: Iterate it)
      qed
    next
      case (Some en)
      then show ?thesis using assms(4) [OF Cons.prems(2), of y] t Cons.IH [OF _ ok] l ens Cons.prems(1)
        by (simp add: Iterate it)
    qed
  qed
qed

text \<open>A task committed in turn \<open>k\<close>: its node, of the plan the report accepted, and what its dependency needs.\<close>

definition released_by :: "(string \<times> string) set \<Rightarrow> xer_entry \<Rightarrow> string \<Rightarrow> string \<Rightarrow> bool" where
  "released_by done en b t \<longleftrightarrow>
     (\<exists>p rep draft n. xo_plan_id (xl_outcome en) = Some p \<and> xo_report (xl_outcome en) = Some rep
        \<and> normalized_plan (cp_core rep) = Some draft \<and> plan_id draft = p
        \<and> n \<in> set (task_graph draft) \<and> node_id n = t \<and> node_robot n = b
        \<and> (\<forall>a. node_after n = Some a \<longrightarrow> (p, ref_id a) \<in> done))"

lemma released_by_mono: "released_by A en b t \<Longrightarrow> A \<subseteq> B \<Longrightarrow> released_by B en b t"
  unfolding released_by_def by blast

lemma committed_released:
  assumes "committed_ok st st' (xl_outcome en)" and "\<And>q u. stat st q u = SUCCEEDED \<Longrightarrow> (q, u) \<in> A"
    and "(b, t) \<in> set (commits en)"
  shows "released_by A en b t"
proof -
  obtain p rep draft n where "xo_plan_id (xl_outcome en) = Some p" "xo_report (xl_outcome en) = Some rep"
      "normalized_plan (cp_core rep) = Some draft" "plan_id draft = p" "n \<in> set (task_graph draft)" "node_id n = t"
      "node_robot n = b" "\<forall>a. node_after n = Some a \<longrightarrow> stat st p (ref_id a) = SUCCEEDED"
    using assms(1,3) unfolding committed_ok_def commits_def by - (elim conjE, drule (1) bspec, simp, blast)
  then show ?thesis unfolding released_by_def using assms(2) by blast
qed

lemma run_releases:
  assumes "xer_run v es x s = (ens, x', s')" and "store_ok (xe_store x)"
  shows "\<forall>A. (\<forall>q u. stat (xe_store x) q u = SUCCEEDED \<longrightarrow> (q, u) \<in> A) \<longrightarrow>
     (\<forall>k b t. k < length ens \<longrightarrow> (b, t) \<in> set (commits (ens ! k)) \<longrightarrow>
        released_by (A \<union> (\<Union>j \<le> k. marks (ens ! j))) (ens ! k) b t)"
  using assms
proof (induction rule: run_induct)
  case (Nil st i)
  then show ?case by simp
next
  case (Step st i en y ens)
  obtain mid where mid: "finishes_none mid (xe_store y)" "committed_ok mid (xe_store y) (xl_outcome en)"
      "\<And>q u. stat mid q u = SUCCEEDED \<Longrightarrow> stat st q u = SUCCEEDED \<or> (q, u) \<in> marks en"
    using Step.hyps(3) by (auto simp: turn_def)
  show ?case
  proof (intro allI impI)
    fix A k b t
    assume A: "\<forall>q u. stat st q u = SUCCEEDED \<longrightarrow> (q, u) \<in> A" and k: "k < length (en # ens)"
      and bt: "(b, t) \<in> set (commits ((en # ens) ! k))"
    have m: "stat mid q u = SUCCEEDED \<Longrightarrow> (q, u) \<in> A \<union> marks en" for q u using A mid(3) by blast
    show "released_by (A \<union> (\<Union>j \<le> k. marks ((en # ens) ! j))) ((en # ens) ! k) b t"
    proof (cases k)
      case 0
      have "released_by (A \<union> marks en) en b t"
        using committed_released [OF mid(2) m] bt by (simp add: 0)
      then show ?thesis by (simp add: 0)
    next
      case (Suc l)
      have "\<forall>q u. stat (xe_store y) q u = SUCCEEDED \<longrightarrow> (q, u) \<in> A \<union> marks en"
        using m mid(1) by (simp add: finishes_none_def)
      then have "released_by (A \<union> marks en \<union> (\<Union>j \<le> l. marks (ens ! j))) (ens ! l) b t"
        using Step.IH k bt by (simp add: Suc)
      moreover have "A \<union> marks en \<union> (\<Union>j \<le> l. marks (ens ! j)) \<subseteq> A \<union> (\<Union>j \<le> k. marks ((en # ens) ! j))"
        unfolding Suc atMost_Suc_eq_insert_0 by auto
      ultimately show ?thesis using released_by_mono by (simp add: Suc)
    qed
  qed
qed

text \<open>
  C10. A dependent task waits for the goal result: a task is committed in turn \<open>k\<close> only as a node of the plan
  the composed report accepted, for that node's robot, and if the node comes after another task, then an
  earlier turn or this turn's drain applied a succeeded result to that task under the same plan.
\<close>

theorem dependents_wait_for_result:
  "let ens = fst (xer_run v es init_xer s) in
     list_all (\<lambda>(k, en). list_all (\<lambda>(b, t). released_by (\<Union>j \<le> k. marks (ens ! j)) en b t) (commits en))
       (enumerate 0 ens)"
proof -
  obtain ens x' s' where r: "xer_run v es init_xer s = (ens, x', s')" by (metis prod_cases3)
  have ok: "store_ok (xe_store init_xer)" by (simp add: init_xer_def store_ok_empty)
  have none: "\<forall>q u. stat (xe_store init_xer) q u = SUCCEEDED \<longrightarrow> (q, u) \<in> {}" by (simp add: init_xer_def stat_empty)
  have "released_by (\<Union>j \<le> k. marks (ens ! j)) (ens ! k) b t" if "k < length ens" "(b, t) \<in> set (commits (ens ! k))" for k b t
    using run_releases [OF r ok] none that by (metis Un_empty_left)
  then show ?thesis by (auto simp: r list_all_iff in_set_enumerate_eq)
qed

lemma run_applies:
  assumes "xer_run v es x s = (ens, x', s')" and "store_ok (xe_store x)"
  shows "\<forall>k out. k < length ens \<longrightarrow> out \<in> set (xl_applied (ens ! k)) \<longrightarrow> go_applied out \<longrightarrow>
     (\<exists>bt. concerns out = Some bt \<and> (bt \<in> set (xe_inflight x) \<or> (\<exists>j < k. bt \<in> set (commits (ens ! j)))))"
  using assms
proof (induction rule: run_induct)
  case (Nil st i)
  then show ?case by simp
next
  case (Step st i en y ens)
  have t: "set (xe_inflight y) \<subseteq> set i \<union> set (commits en)"
    "\<And>out. out \<in> set (xl_applied en) \<Longrightarrow> go_applied out \<Longrightarrow> \<exists>bt. concerns out = Some bt \<and> bt \<in> set i"
    using Step.hyps(3) unfolding turn_def by - (elim conjE, assumption, elim conjE, blast)
  show ?case
  proof (intro allI impI)
    fix k out
    assume k: "k < length (en # ens)" and o: "out \<in> set (xl_applied ((en # ens) ! k))" "go_applied out"
    show "\<exists>bt. concerns out = Some bt \<and> (bt \<in> set i \<or> (\<exists>j < k. bt \<in> set (commits ((en # ens) ! j))))"
    proof (cases k)
      case 0
      then show ?thesis using t(2) o by auto
    next
      case (Suc l)
      then have "l < length ens" "out \<in> set (xl_applied (ens ! l))" using k o(1) by simp_all
      then obtain bt where bt: "concerns out = Some bt" "bt \<in> set (xe_inflight y) \<or> (\<exists>j < l. bt \<in> set (commits (ens ! j)))"
        using Step.IH o(2) by blast
      have "bt \<in> set i \<or> (\<exists>j < Suc l. bt \<in> set (commits ((en # ens) ! j)))"
        unfolding Ex_less_Suc2 using bt(2) t(1) by auto
      then show ?thesis using bt(1) by (simp add: Suc)
    qed
  qed
qed

text \<open>
  A goal result only completes what was committed: whenever a drain applies a result, it concerns a robot
  and a task that an earlier turn committed together.
\<close>

theorem completion_was_committed:
  "let ens = fst (xer_run v es init_xer s) in
     list_all (\<lambda>(k, en). list_all (\<lambda>out. \<not> go_applied out \<or>
         (case concerns out of None \<Rightarrow> False | Some bt \<Rightarrow> list_ex (\<lambda>earlier. bt \<in> set (commits earlier)) (take k ens)))
       (xl_applied en)) (enumerate 0 ens)"
proof -
  obtain ens x' s' where r: "xer_run v es init_xer s = (ens, x', s')" by (metis prod_cases3)
  have ok: "store_ok (xe_store init_xer)" by (simp add: init_xer_def store_ok_empty)
  have "\<exists>bt. concerns out = Some bt \<and> list_ex (\<lambda>earlier. bt \<in> set (commits earlier)) (take k ens)"
    if k: "k < length ens" "out \<in> set (xl_applied (ens ! k))" "go_applied out" for k out
  proof -
    have "xe_inflight init_xer = []" by (simp add: init_xer_def)
    then obtain bt j where bt: "concerns out = Some bt" "j < k" "bt \<in> set (commits (ens ! j))"
      using run_applies [OF r ok] k by fastforce
    then have "take k ens ! j \<in> set (take k ens)" using k(1) by (intro nth_mem) simp
    then show ?thesis using bt by (auto simp: list_ex_iff intro!: bexI [of _ "ens ! j"])
  qed
  then show ?thesis by (fastforce simp: r list_all_iff in_set_enumerate_eq split: option.split)
qed

section \<open>The backend\<close>

text \<open>What the backend's calls keep, the loop keeps.\<close>

context tool_backend
begin

lemma xer_dispatch_rel: "xer_dispatch exec plan n xs h s = (res, h', s') \<Longrightarrow> rel s s'"
proof (induction xs arbitrary: n h s res)
  case Nil
  then show ?case by (simp add: rel_refl)
next
  case (Cons x xs)
  then show ?case
    by (cases x) (auto split: prod.splits sum.splits if_splits option.splits dest!: exec_relI intro: rel_trans)
qed

lemma xer_commit_rel:
  assumes "xer_commit v draft rep cmd st n s = (res, st', n', s')" and "xv_exec v = exec" and "xv_publish v = publish"
  shows "rel s s'"
  using assms(1) unfolding xer_commit_def assms(2,3)
  by (auto simp: Let_def rel_refl publish_rel split: prod.splits sum.splits
      dest!: xer_dispatch_rel intro: published)

lemma xer_run_rel:
  "xer_run v es x s = (ens, x', s') \<Longrightarrow> xv_exec v = exec \<Longrightarrow> xv_publish v = publish \<Longrightarrow> rel s s'"
proof (induction es arbitrary: x s ens)
  case Nil
  then show ?case by (simp add: rel_refl)
next
  case (Cons e es)
  have cycle: "run_x_er_cycle v ans m st n s = (res, st', n', s1) \<Longrightarrow> rel s s1" for ans m st n res st' n' s1
    by (auto simp: run_x_er_cycle_def rel_refl split: option.splits sum.splits prod.splits if_splits
        dest!: xer_commit_rel [OF _ Cons.prems(2,3)])
  have iterate: "xer_iterate v ans m x s = (res, y, s1) \<Longrightarrow> rel s s1" for ans m x res y s1
    by (auto simp: xer_iterate_def Let_def rel_refl split: if_splits sum.splits prod.splits dest!: cycle)
  show ?case
    using Cons.prems(1) Cons.IH [OF _ Cons.prems(2,3)] iterate rel_trans
    by (cases e) (fastforce split: prod.splits)+
qed

end

text \<open>
  C32. A robot held in emergency by the policy gate gets no motion request from Mode X-ER either: whatever the
  models answer and whatever results arrive, over the tool server the loop leaves the forwards of the robot as
  they were and the robot held.
\<close>

theorem held_robot_gets_nothing_from_x_er:
  assumes "xer_run v es x s = (ens, x', s')" and "xv_exec v = dispatch_execute parse_ts env" and "xv_publish v = publish_gen"
    and "r \<in> emergency (pgate s)"
  shows "r \<in> emergency (pgate s') \<and> filter (moves r) (forwarded s') = filter (moves r) (forwarded s)"
  using held.xer_run_rel [OF assms(1-3)] assms(4) by (auto simp: no_motion_def)

end
