(* ===== verification/Nav2BridgeProps.thy ===== *)
theory Nav2BridgeProps
  imports Nav2Bridge
begin

text \<open>
  What the bridge promises: it never gives a robot a second goal while one is in flight, and it
  reports every finished task once.
\<close>

section \<open>Goals in flight\<close>

text \<open>
  Read off the backend's log: a robot has a goal in flight from the call that sends one until it is
  cancelled or its result has been collected.
\<close>

fun after_call :: "string \<Rightarrow> backend_call \<Rightarrow> bool \<Rightarrow> bool" where
  "after_call b (GoTo r _) f = (r = b \<or> f)"
| "after_call b (CancelTask r) f = (r \<noteq> b \<and> f)"
| "after_call b (GetResult r) f = (r \<noteq> b \<and> f)"

definition in_flight :: "backend_call list \<Rightarrow> string \<Rightarrow> bool" where
  "in_flight lg b = fold (after_call b) lg False"

lemma in_flight_Nil [simp]: "\<not> in_flight [] b"
  by (simp add: in_flight_def)

lemma in_flight_snoc [simp]: "in_flight (lg @ [k]) b = after_call b k (in_flight lg b)"
  by (simp add: in_flight_def)

lemma fold_results_mono: "fold (after_call b) (map GetResult rs) f \<Longrightarrow> f \<and> b \<notin> set rs"
  by (induction rs arbitrary: f) force+

text \<open>A log in which every goal is sent to a robot that has none.\<close>

definition goals_serial :: "backend_call list \<Rightarrow> bool" where
  "goals_serial lg \<longleftrightarrow> (\<forall>xs b p ys. lg = xs @ GoTo b p # ys \<longrightarrow> \<not> in_flight xs b)"

lemma goals_serial_Nil [simp]: "goals_serial []"
  by (simp add: goals_serial_def)

lemma goals_serial_snoc [simp]:
  "goals_serial (lg @ [k]) \<longleftrightarrow> goals_serial lg \<and> (\<forall>b p. k = GoTo b p \<longrightarrow> \<not> in_flight lg b)"
  (is "?l \<longleftrightarrow> ?r")
proof
  assume l: ?l
  show ?r
  proof (intro conjI allI impI)
    show "goals_serial lg" unfolding goals_serial_def
    proof (intro allI impI)
      fix xs b p ys assume "lg = xs @ GoTo b p # ys"
      then have "lg @ [k] = xs @ GoTo b p # (ys @ [k])" by simp
      then show "\<not> in_flight xs b" using l unfolding goals_serial_def by blast
    qed
  next
    fix b p assume "k = GoTo b p"
    then show "\<not> in_flight lg b" using l unfolding goals_serial_def by blast
  qed
next
  assume r: ?r
  show ?l unfolding goals_serial_def
  proof (intro allI impI)
    fix xs b p ys assume eq: "lg @ [k] = xs @ GoTo b p # ys"
    show "\<not> in_flight xs b"
    proof (cases ys rule: rev_cases)
      case Nil
      then show ?thesis using eq r by simp
    next
      case (snoc zs z)
      then show ?thesis using eq r unfolding goals_serial_def by auto
    qed
  qed
qed

lemma goals_serial_results [simp]: "goals_serial (lg @ map GetResult rs) = goals_serial lg"
  by (induction rs rule: rev_induct) (simp_all flip: append_assoc)

section \<open>The monitor\<close>

definition poll_record :: "backend \<Rightarrow> string \<times> nav_record \<Rightarrow> string \<times> nav_record" where
  "poll_record be x =
     (case completed be (fst x) (snd x) of None \<Rightarrow> x | Some s \<Rightarrow> (fst x, (snd x)\<lparr>nr_status := s\<rparr>))"

definition poll_report :: "backend \<Rightarrow> string \<times> nav_record \<Rightarrow> goal_result option" where
  "poll_report be x = map_option (\<lambda>s. (fst x, nr_task_id (snd x), s)) (completed be (fst x) (snd x))"

definition finished_goals :: "backend \<Rightarrow> (string, nav_record) pydict \<Rightarrow> string list" where
  "finished_goals be d = map fst (filter (\<lambda>x. nr_status (snd x) = ''navigating'' \<and> be_is_complete be (fst x)) d)"

lemma poll_items_eq:
  "poll_items be d = (List.map_filter (poll_report be) d, map (poll_record be) d, map GetResult (finished_goals be d))"
  by (induction be d rule: poll_items.induct)
    (auto simp: poll_report_def poll_record_def finished_goals_def completed_def
      split: option.splits)

lemma poll_results_simps:
  "fst (poll_results be c) = List.map_filter (poll_report be) (nc_active c)"
  "snd (poll_results be c) =
     c\<lparr>nc_active := map (poll_record be) (nc_active c),
       backend_log := backend_log c @ map GetResult (finished_goals be (nc_active c))\<rparr>"
  by (simp_all add: poll_results_def poll_items_eq)

lemma fst_poll_record [simp]: "fst (poll_record be x) = fst x"
  by (simp add: poll_record_def split: option.splits)

lemma task_id_poll_record [simp]: "nr_task_id (snd (poll_record be x)) = nr_task_id (snd x)"
  by (simp add: poll_record_def split: option.splits)

lemma map_of_poll_record:
  "map_of (map (poll_record be) d) b = map_option (\<lambda>r. snd (poll_record be (b, r))) (map_of d b)"
  by (induction d) (auto simp: poll_record_def split: option.splits)

section \<open>The invariant\<close>

definition nav_inv :: "nav_core \<Rightarrow> bool" where
  "nav_inv c \<longleftrightarrow> dict_ok (nc_active c) \<and> goals_serial (backend_log c)
     \<and> (\<forall>b. in_flight (backend_log c) b \<longrightarrow>
          (\<exists>r. map_of (nc_active c) b = Some r \<and> nr_status r = ''navigating''))"

lemma init_inv [simp]: "nav_inv (init_core robots locations start)"
  by (simp add: nav_inv_def init_core_def)

lemma not_busy_not_in_flight: "nav_inv c \<Longrightarrow> \<not> is_busy c b \<Longrightarrow> \<not> in_flight (backend_log c) b"
  by (auto simp: nav_inv_def is_busy_def BUSY_def)

lemma navigate_inv: "nav_inv c \<Longrightarrow> nav_inv (snd (nav_navigate ps be c robot d v g))"
  using not_busy_not_in_flight [of c robot]
  by (auto simp: nav_navigate_def nav_inv_def Let_def split: sum.splits)

lemma nav_wait_inv: "nav_inv c \<Longrightarrow> nav_inv (snd (nav_wait be c robot d))"
  by (auto simp: nav_wait_def nav_inv_def Let_def split: sum.splits)

lemma nav_stop_inv: "nav_inv c \<Longrightarrow> nav_inv (snd (nav_stop c robot))"
  by (auto simp: nav_stop_def nav_inv_def Let_def)

lemma poll_inv:
  assumes "nav_inv c" shows "nav_inv (snd (poll_results be c))"
proof -
  have "in_flight (backend_log c) b \<and> b \<notin> set (finished_goals be (nc_active c))"
    if "in_flight (backend_log (snd (poll_results be c))) b" for b
    using that unfolding poll_results_simps in_flight_def by (auto dest: fold_results_mono)
  moreover have "nr_status (snd (poll_record be (b, r))) = ''navigating''"
    if "map_of (nc_active c) b = Some r" "nr_status r = ''navigating''" "b \<notin> set (finished_goals be (nc_active c))" for b r
    using that map_of_SomeD [OF that(1)]
    by (force simp: poll_record_def completed_def finished_goals_def)
  moreover have "dict_ok (map (poll_record be) (nc_active c))"
    using assms by (simp add: nav_inv_def dict_ok_def comp_def)
  ultimately show ?thesis
    using assms unfolding nav_inv_def by (fastforce simp: poll_results_simps map_of_poll_record)
qed

lemma nav_step_inv: "nav_inv c \<Longrightarrow> nav_inv (snd (snd (nav_step ps be c oper)))"
  by (cases oper) (simp_all add: case_prod_beta Let_def navigate_inv nav_wait_inv nav_stop_inv poll_inv)

lemma nav_run_Cons:
  "nav_run ps c (x # ops) =
     (let s = snd (nav_step ps (fst x) c (snd x)) in
      (fst s @ fst (nav_run ps (snd s) ops), snd (nav_run ps (snd s) ops)))"
  by (cases x) (simp add: case_prod_beta Let_def)

lemma nav_run_inv: "nav_inv c \<Longrightarrow> nav_inv (snd (nav_run ps c ops))"
proof (induction ops arbitrary: c)
  case (Cons x ops)
  then show ?case using nav_step_inv by (simp add: nav_run_Cons Let_def)
qed simp

text \<open>
  C14. Goals of one robot never overlap: whatever sequence of requests and monitor ticks the bridge
  serves and whatever Nav2 answers, a goal is sent to a robot only when that robot has no goal in
  flight, that is, when its previous goal has been cancelled or its result collected.
\<close>
theorem goals_never_overlap:
  assumes "backend_log (snd (nav_run ps (init_core robots locations start) ops)) = xs @ GoTo b poses # ys"
  shows "\<not> in_flight xs b"
  using nav_run_inv [OF init_inv, of ps robots locations start ops] assms
  unfolding nav_inv_def goals_serial_def by blast

definition quiet_backend :: backend where
  "quiet_backend = \<lparr>be_ready = (\<lambda>_. True), be_is_complete = (\<lambda>_. False), be_result = (\<lambda>_. ''succeeded''),
     be_feedback = (\<lambda>_. None), be_clock = Fin 10\<rparr>"

definition two_places :: "(string, pose) pydict" where
  "two_places = [(''shelf_1'', (Fin 1, Fin 2)), (''shelf_2'', (Fin 3, Fin 2))]"

definition redirect_ops :: "(backend \<times> nav_op) list" where
  "redirect_ops =
     [(quiet_backend, PostNavigate ''bot1'' (Some ''shelf_1'') None None),
      (quiet_backend, PostNavigate ''bot1'' (Some ''shelf_2'') None None),
      (quiet_backend, PostStop ''bot1''),
      (quiet_backend, PostNavigate ''bot1'' (Some ''shelf_2'') None None)]"

lemma redirect_log:
  "backend_log (snd (nav_run (\<lambda>_. Inl ValueError) (init_core [''bot1''] two_places (Fin 0)) redirect_ops)) =
     [GoTo ''bot1'' [(Fin 1, Fin 2)], CancelTask ''bot1''] @ GoTo ''bot1'' [(Fin 3, Fin 2)] # []"
  by (simp add: redirect_ops_def nav_navigate_def nav_stop_def resolve_goal_def coord_def is_busy_def BUSY_def
      quiet_backend_def two_places_def init_core_def dget_def Let_def)

theorem goals_never_overlap_witness:
  "\<not> in_flight [GoTo ''bot1'' [(Fin 1, Fin 2)], CancelTask ''bot1''] ''bot1''"
  by (rule goals_never_overlap [OF redirect_log])

section \<open>Reported results\<close>

text \<open>The task ids handed out so far.\<close>

definition issued :: "nav_core \<Rightarrow> string set" where
  "issued c = (\<lambda>k. ''nav_'' @ pad3 k) ` {1..seq_nav c} \<union> (\<lambda>k. ''wait_'' @ pad3 k) ` {1..seq_wait c}"

lemma fresh_ids:
  "''nav_'' @ pad3 (Suc (seq_nav c)) \<notin> issued c" "''wait_'' @ pad3 (Suc (seq_wait c)) \<notin> issued c"
  by (auto simp: issued_def)

lemma issued_grows:
  "seq_nav c \<le> seq_nav c' \<Longrightarrow> seq_wait c \<le> seq_wait c' \<Longrightarrow> issued c \<subseteq> issued c'"
  by (auto simp: issued_def)

definition record_ids :: "(string, nav_record) pydict \<Rightarrow> string list" where
  "record_ids d = map (\<lambda>x. nr_task_id (snd x)) d"

lemma record_ids_update:
  "set (record_ids (AList.update k v d)) \<subseteq> insert (nr_task_id v) (set (record_ids d))"
  "distinct (record_ids d) \<Longrightarrow> nr_task_id v \<notin> set (record_ids d) \<Longrightarrow> distinct (record_ids (AList.update k v d))"
proof -
  show s: "set (record_ids (AList.update k v d)) \<subseteq> insert (nr_task_id v) (set (record_ids d))" for d
    by (induction d) (auto simp: record_ids_def)
  show "distinct (record_ids d) \<Longrightarrow> nr_task_id v \<notin> set (record_ids d) \<Longrightarrow> distinct (record_ids (AList.update k v d))"
  proof (induction d)
    case (Cons x d)
    then show ?case using s [of d] by (cases x) (auto simp: record_ids_def)
  qed (simp add: record_ids_def)
qed

lemma record_ids_delete:
  "set (record_ids (AList.delete k d)) \<subseteq> set (record_ids d)"
  "distinct (record_ids d) \<Longrightarrow> distinct (record_ids (AList.delete k d))"
  by (auto simp: record_ids_def AList.delete_eq distinct_map intro: inj_on_subset)

text \<open>
  With the ids reported so far: every id in use was handed out, no two records share one, and a
  record whose task is still busy has not been reported.
\<close>

definition report_inv :: "string list \<Rightarrow> nav_core \<Rightarrow> bool" where
  "report_inv told c \<longleftrightarrow> distinct told \<and> set told \<subseteq> issued c
     \<and> distinct (record_ids (nc_active c)) \<and> set (record_ids (nc_active c)) \<subseteq> issued c
     \<and> (\<forall>x \<in> set (nc_active c). nr_status (snd x) \<in> set BUSY \<longrightarrow> nr_task_id (snd x) \<notin> set told)"

text \<open>What Nav2 answers for a finished goal.\<close>

definition proper_backend :: "backend \<Rightarrow> bool" where
  "proper_backend be \<longleftrightarrow> (\<forall>r. be_result be r = ''succeeded'' \<or> be_result be r = ''failed'')"

lemma update_set: "x \<in> set (AList.update k v d) \<Longrightarrow> x = (k, v) \<or> x \<in> set d"
  by (induction d) (auto split: if_splits)

lemma report_inv_new:
  assumes "report_inv told c" "seq_nav c \<le> seq_nav c'" "seq_wait c \<le> seq_wait c'"
    and "nc_active c' = AList.update k v (nc_active c)" "nr_task_id v \<notin> issued c" "nr_task_id v \<in> issued c'"
  shows "report_inv told c'"
  using assms record_ids_update(1) [of k v "nc_active c"] issued_grows [OF assms(2,3)]
  unfolding report_inv_def by (auto dest!: update_set intro!: record_ids_update(2))

lemma navigate_report:
  assumes "report_inv told c" shows "report_inv told (snd (nav_navigate ps be c robot d v g))"
proof -
  have "''nav_'' @ pad3 (Suc (seq_nav c)) \<in> issued (c\<lparr>seq_nav := Suc (seq_nav c)\<rparr>)" by (auto simp: issued_def)
  then show ?thesis
    using assms fresh_ids(1) [of c]
    by (auto simp: nav_navigate_def Let_def issued_def split: sum.splits intro!: report_inv_new [OF assms])
qed

lemma nav_wait_report:
  assumes "report_inv told c" shows "report_inv told (snd (nav_wait be c robot d))"
  using assms fresh_ids(2) [of c]
  by (auto simp: nav_wait_def Let_def issued_def split: sum.splits intro!: report_inv_new [OF assms])

lemma nav_stop_report:
  assumes "report_inv told c" shows "report_inv told (snd (nav_stop c robot))"
  using assms record_ids_delete [where k = robot and d = "nc_active c"]
  by (auto simp: nav_stop_def Let_def report_inv_def issued_def AList.delete_eq)

lemma completed_busy: "completed be b r = Some s \<Longrightarrow> nr_status r \<in> set BUSY"
  by (auto simp: completed_def BUSY_def split: if_splits)

lemma completed_not_busy:
  "proper_backend be \<Longrightarrow> completed be b r = Some s \<Longrightarrow> s \<notin> set BUSY"
  unfolding proper_backend_def by (drule spec [of _ b]) (auto simp: completed_def BUSY_def split: if_splits)

lemma reported_ids:
  "map (\<lambda>x. fst (snd x)) (List.map_filter (poll_report be) d) =
     record_ids (filter (\<lambda>x. completed be (fst x) (snd x) \<noteq> None) d)"
  by (induction d) (auto simp: poll_report_def record_ids_def)

lemma poll_report_inv:
  assumes inv: "report_inv told c" and be: "proper_backend be"
  shows "report_inv (told @ map (\<lambda>x. fst (snd x)) (fst (poll_results be c))) (snd (poll_results be c))"
proof -
  let ?d = "nc_active c" and ?done = "filter (\<lambda>x. completed be (fst x) (snd x) \<noteq> None) (nc_active c)"
  have ids: "record_ids (map (poll_record be) ?d) = record_ids ?d" by (simp add: record_ids_def)
  have new: "distinct (record_ids ?done)" "set (record_ids ?done) \<subseteq> set (record_ids ?d)"
    using inv by (auto simp: report_inv_def record_ids_def distinct_map_filter)
  have fresh: "set (record_ids ?done) \<inter> set told = {}"
  proof -
    have "nr_task_id (snd x) \<notin> set told" if "x \<in> set ?done" for x
      using that inv completed_busy [of be "fst x" "snd x"] by (auto simp: report_inv_def)
    then show ?thesis by (auto simp: record_ids_def)
  qed
  have open_task: "nr_task_id (snd x) \<notin> set told \<union> set (record_ids ?done)"
    if x: "x \<in> set (map (poll_record be) ?d)" and busy: "nr_status (snd x) \<in> set BUSY" for x
  proof -
    obtain y where y: "y \<in> set ?d" "x = poll_record be y" using x by auto
    have c: "completed be (fst y) (snd y) = None"
      using busy completed_not_busy [OF be] unfolding y(2) by (auto simp: poll_record_def split: option.splits)
    then have "x = y" using y(2) by (simp add: poll_record_def)
    moreover have "nr_task_id (snd y) \<notin> set (record_ids ?done)"
    proof
      assume "nr_task_id (snd y) \<in> set (record_ids ?done)"
      then obtain z where "z \<in> set ?d" "completed be (fst z) (snd z) \<noteq> None" "nr_task_id (snd z) = nr_task_id (snd y)"
        by (auto simp: record_ids_def)
      then show False
        using inv y(1) c unfolding report_inv_def record_ids_def distinct_map by (metis inj_onD)
    qed
    ultimately show ?thesis using inv y(1) busy by (auto simp: report_inv_def)
  qed
  show ?thesis
    unfolding report_inv_def poll_results_simps reported_ids
    using inv new fresh open_task by (auto simp: report_inv_def ids issued_def)
qed

lemma nav_step_report:
  assumes "report_inv told c" "proper_backend be"
  shows "report_inv (told @ map (\<lambda>x. fst (snd x)) (fst (snd (nav_step ps be c oper)))) (snd (snd (nav_step ps be c oper)))"
  using assms
  by (cases oper) (simp_all add: case_prod_beta Let_def navigate_report nav_wait_report nav_stop_report poll_report_inv)

lemma nav_run_report:
  "report_inv told c \<Longrightarrow> list_all (\<lambda>x. proper_backend (fst x)) ops \<Longrightarrow>
     report_inv (told @ map (\<lambda>x. fst (snd x)) (fst (nav_run ps c ops))) (snd (nav_run ps c ops))"
proof (induction ops arbitrary: told c)
  case (Cons x ops)
  from Cons.IH [OF nav_step_report [OF Cons.prems(1)]] Cons.prems(2)
  show ?case by (simp add: nav_run_Cons Let_def)
qed simp

text \<open>
  Every task is reported at most once: over any sequence of requests and monitor ticks, the goal
  results published carry pairwise different task ids, all of them ids the bridge handed out.
\<close>
theorem results_reported_once:
  assumes "list_all (\<lambda>x. proper_backend (fst x)) ops"
    and "nav_run ps (init_core robots locations start) ops = (outs, c)"
  shows "distinct (map (\<lambda>x. fst (snd x)) outs) \<and> (\<lambda>x. fst (snd x)) ` set outs \<subseteq> issued c"
proof -
  have "report_inv [] (init_core robots locations start)"
    by (simp add: report_inv_def init_core_def record_ids_def)
  from nav_run_report [OF this assms(1), of ps] show ?thesis by (simp add: assms(2) report_inv_def)
qed

definition done_backend :: backend where
  "done_backend = quiet_backend\<lparr>be_is_complete := (\<lambda>_. True)\<rparr>"

definition finishing_ops :: "(backend \<times> nav_op) list" where
  "finishing_ops = redirect_ops @ [(done_backend, Poll), (done_backend, Poll)]"

lemma finishing_run:
  "fst (nav_run (\<lambda>_. Inl ValueError) (init_core [''bot1''] two_places (Fin 0)) finishing_ops) =
     [(''bot1'', ''nav_002'', ''succeeded'')]"
  by (simp add: finishing_ops_def done_backend_def redirect_ops_def nav_navigate_def nav_stop_def resolve_goal_def coord_def
      is_busy_def BUSY_def quiet_backend_def two_places_def init_core_def dget_def Let_def poll_results_def completed_def) code_simp

theorem results_reported_once_witness:
  "distinct (map (\<lambda>x. fst (snd x))
     (fst (nav_run (\<lambda>_. Inl ValueError) (init_core [''bot1''] two_places (Fin 0)) finishing_ops)))"
proof -
  have "list_all (\<lambda>x. proper_backend (fst x)) finishing_ops"
    by (simp add: finishing_ops_def redirect_ops_def proper_backend_def done_backend_def quiet_backend_def)
  from results_reported_once [OF this prod.collapse [symmetric]] show ?thesis by blast
qed

end
