(* ===== verification/CommandPath.thy ===== *)
theory CommandPath
  imports SchedulerProps Nav2BridgeProps
begin

text \<open>
  From the model's answer to a Nav2 goal: the requests the tool server forwards are the bodies that
  arrive at the endpoints of the Nav2 bridge. A body whose fields have the declared types binds to
  its request model; what does not bind is answered by the web framework and reaches no handler.
\<close>

definition bind_request :: "nav2_request \<Rightarrow> nav_op option" where
  "bind_request rq =
     (if path rq = ''/api/v1/navigate'' then
        (case (dget (body rq) ''robot'', str_arg (dget (body rq) ''destination''), str_arg (dget (body rq) ''via'')) of
           (PStr r, Some d, Some v) \<Rightarrow> Some (PostNavigate r d v None)
         | _ \<Rightarrow> None)
      else if path rq = ''/api/v1/wait'' then
        (case (dget (body rq) ''robot'', dget (body rq) ''duration'') of
           (PStr r, PFloat d) \<Rightarrow> Some (PostWait r d)
         | _ \<Rightarrow> None)
      else if path rq = ''/api/v1/stop'' then
        (case dget (body rq) ''robot'' of PStr r \<Rightarrow> Some (PostStop r) | _ \<Rightarrow> None)
      else None)"

lemma bound_goal_moves:
  "bind_request rq = Some (PostNavigate r d v goal) \<Longrightarrow> moves r rq"
  by (auto simp: bind_request_def moves_def split: pyval.splits option.splits if_splits)

section \<open>The forwarded requests only grow\<close>

definition forwards_more :: "server \<Rightarrow> server \<Rightarrow> bool" where
  "forwards_more s s' \<longleftrightarrow> (\<exists>new. forwarded s' = forwarded s @ new)"

interpretation growing: tool_backend "dispatch_execute parse_ts env" forwards_more publish_gen for parse_ts env
proof
  show "forwards_more s (snd (dispatch_execute parse_ts env n s r))" for n s r
    using wire_forwarded_cases [of parse_ts "env n" s "wire_call_of r" "gen_arg r" "key_arg r"]
    by (auto simp: forwards_more_def dispatch_execute_def)
qed (auto simp: forwards_more_def publish_gen_def)

section \<open>Goals and requests\<close>

fun goal_for :: "string \<Rightarrow> backend_call \<Rightarrow> bool" where
  "goal_for b (GoTo r _) = (r = b)"
| "goal_for b _ = False"

fun asks_goal :: "string \<Rightarrow> nav_op \<Rightarrow> bool" where
  "asks_goal b (PostNavigate r _ _ _) = (r = b)"
| "asks_goal b _ = False"

lemma nav_step_goals:
  "\<not> asks_goal b oper \<Longrightarrow>
     filter (goal_for b) (backend_log (snd (snd (nav_step ps be c oper)))) = filter (goal_for b) (backend_log c)"
proof (cases oper)
  case Poll
  have "filter (goal_for b) (map GetResult rs) = []" for rs by (induction rs) simp_all
  then show ?thesis using Poll by (simp add: case_prod_beta Let_def poll_results_simps)
qed (auto simp: nav_navigate_def nav_wait_def nav_stop_def Let_def case_prod_beta split: sum.splits)

lemma nav_run_goals:
  "list_all (\<lambda>x. \<not> asks_goal b (snd x)) ops \<Longrightarrow>
     filter (goal_for b) (backend_log (snd (nav_run ps c ops))) = filter (goal_for b) (backend_log c)"
  by (induction ops arbitrary: c) (simp_all add: nav_run_Cons Let_def nav_step_goals)

text \<open>
  A history of the bridge that is fed by the requests \<open>rqs\<close>: monitor ticks, status reads, and posts
  that are bound requests, in any order, delayed, dropped or repeated.
\<close>

fun internal_op :: "nav_op \<Rightarrow> bool" where
  "internal_op Poll = True"
| "internal_op GetHealth = True"
| "internal_op (GetStatus _) = True"
| "internal_op _ = False"

definition fed_by :: "nav2_request list \<Rightarrow> (backend \<times> nav_op) list \<Rightarrow> bool" where
  "fed_by rqs ops \<longleftrightarrow>
     list_all (\<lambda>x. internal_op (snd x) \<or> list_ex (\<lambda>rq. bind_request rq = Some (snd x)) rqs) ops"

text \<open>
  C2. A held robot gets no goal from the commander: while the tool server holds robot \<open>b\<close> in emergency,
  whatever the model answers in any number of cycles, the requests forwarded in them never make the
  Nav2 bridge send \<open>b\<close> a goal, in whatever order, however late or often they arrive.
\<close>
theorem held_robot_gets_no_goal:
  assumes "run_events (dispatch_execute parse_ts env) publish_gen uuid_ok mint lib bd es sc s = (res, sc', s')"
    and "b \<in> emergency (pgate s)" and "forwarded s' = forwarded s @ new" and "fed_by new ops"
  shows "filter (goal_for b) (backend_log (snd (nav_run ps c ops))) = filter (goal_for b) (backend_log c)"
proof (rule nav_run_goals)
  have none: "filter (moves b) new = []" using run_no_motion [OF assms(1,2)] assms(3) by simp
  have "\<not> asks_goal b (snd x)" if mem: "x \<in> set ops" for x
  proof
    assume "asks_goal b (snd x)"
    then obtain d v g where x: "snd x = PostNavigate b d v g" by (cases "snd x") auto
    then obtain rq where "rq \<in> set new" "bind_request rq = Some (PostNavigate b d v g)"
      using assms(4) mem by (force simp: fed_by_def list_all_iff list_ex_iff)
    then show False using none bound_goal_moves by (auto simp: filter_empty_conv)
  qed
  then show "list_all (\<lambda>x. \<not> asks_goal b (snd x)) ops" by (simp add: list_all_iff)
qed

definition held_server :: server where
  "held_server = sample_server\<lparr>pgate := set_emergency (pgate sample_server) ''bot1'' True\<rparr>"

definition both_command :: command where
  "both_command = delivery_command\<lparr>cm_commands :=
     [(plain_item ''bot1'' NAVIGATE)\<lparr>ci_destination := Some ''shelf_1''\<rparr>,
      (plain_item ''bot2'' NAVIGATE)\<lparr>ci_destination := Some ''shelf_2''\<rparr>]\<rparr>"

definition full_env :: env where
  "full_env = sample_env\<lparr>stored := Some [(''robots'', PDict [(''bot1'', PDict [(''battery'', PInt 55)]),
     (''bot2'', PDict [(''battery'', PInt 60)])])]\<rparr>"

definition held_outcome :: "bool list result \<times> scheduler \<times> server" where
  "held_outcome = run_events (dispatch_execute (\<lambda>_. IsoInvalid) (\<lambda>_. full_env)) publish_gen (\<lambda>_. True) no_keys
     flat_libm plain_builder [Cycle (Some empty_snapshot) (Answer both_command)] idle_scheduler held_server"

definition held_ops :: "(backend \<times> nav_op) list" where
  "held_ops = [(quiet_backend, PostNavigate ''bot2'' (Some ''shelf_2'') None None), (quiet_backend, Poll)]"

text \<open>Of two deliveries, to the held robot and to the other one, the bridge gets the second.\<close>

theorem held_robot_gets_no_goal_witness:
  "filter (goal_for ''bot1'') (backend_log (snd (nav_run (\<lambda>_. Inl ValueError)
      (init_core [''bot1'', ''bot2''] two_places (Fin 0)) held_ops))) = []
   \<and> map bind_request (forwarded (snd (snd held_outcome))) = [Some (PostNavigate ''bot2'' (Some ''shelf_2'') None None)]"
proof
  have run: "run_events (dispatch_execute (\<lambda>_. IsoInvalid) (\<lambda>_. full_env)) publish_gen (\<lambda>_. True) no_keys
      flat_libm plain_builder [Cycle (Some empty_snapshot) (Answer both_command)] idle_scheduler held_server
    = (fst held_outcome, fst (snd held_outcome), snd (snd held_outcome))" by (simp add: held_outcome_def)
  have held: "''bot1'' \<in> emergency (pgate held_server)" by (simp add: held_server_def set_emergency_def)
  have new: "forwarded (snd (snd held_outcome)) = forwarded held_server @ forwarded (snd (snd held_outcome))"
    by (simp add: held_server_def sample_server_def)
  show sent: "map bind_request (forwarded (snd (snd held_outcome))) = [Some (PostNavigate ''bot2'' (Some ''shelf_2'') None None)]"
    by code_simp
  then have "fed_by (forwarded (snd (snd held_outcome))) held_ops"
    by (auto simp: fed_by_def held_ops_def map_eq_Cons_conv list_ex_iff)
  from held_robot_gets_no_goal [OF run held new this, of "\<lambda>_. Inl ValueError" "init_core [''bot1'', ''bot2''] two_places (Fin 0)"]
  show "filter (goal_for ''bot1'') (backend_log (snd (nav_run (\<lambda>_. Inl ValueError)
      (init_core [''bot1'', ''bot2''] two_places (Fin 0)) held_ops))) = []"
    by (simp add: init_core_def)
qed

end
