(* ===== verification/XErSamples.thy ===== *)
theory XErSamples
  imports XErRun CommandPath
begin

text \<open>
  A sample site for the Mode X-ER loop: a plan of two tasks, a backend that accepts everything, and histories of
  answers and goal results on it. One of them shows a completion that is applied to the wrong plan.
\<close>

section \<open>A sample site\<close>

text \<open>A plan of two tasks to the same shelf, the second for the second robot after the first.\<close>

definition relay_draft :: "string \<Rightarrow> string \<Rightarrow> plan_draft" where
  "relay_draft plan robot = ex_draft\<lparr>plan_id := plan, task_graph :=
     [\<lparr>node_id = ''pick'', node_robot = robot, node_action = ''navigate'', node_target = Some ''shelf_1'', node_after = None\<rparr>,
      \<lparr>node_id = ''place'', node_robot = ''bot2'', node_action = ''navigate'', node_target = Some ''shelf_1'',
       node_after = Some ''pick.completed''\<rparr>]\<rparr>"

definition relay_parse :: plan_parser where
  "relay_parse d = (case (dget d ''plan_id'', dget d ''robot'') of
     (PStr p, PStr r) \<Rightarrow> Inr (relay_draft p r) | _ \<Rightarrow> Inl ValueError)"

definition relay_answer :: "string \<Rightarrow> string \<Rightarrow> raw_output option" where
  "relay_answer plan robot = Some (sample_output [(''schema_version'', PStr ROBOTICS_PLAN_DRAFT_VERSION),
     (''plan_id'', PStr plan), (''robot'', PStr robot)])"

text \<open>A backend that accepts everything and records the calls.\<close>

definition relay_env :: "tool_request list xer_env" where
  "relay_env = \<lparr>xv_exec = (\<lambda>n s r. (Inr [(''status'', PStr ''ok'')], s @ [r])), xv_read_gen = (\<lambda>_. Inr 0),
     xv_publish = (\<lambda>_ s. s), xv_mint = (\<lambda>_. ''k''), xv_lib = unit_libm, xv_loads = (\<lambda>_. None),
     xv_parse = relay_parse, xv_coerce = (\<lambda>_. None),
     xv_composition = \<lparr>co_registry = [], co_policy = \<lparr>max_effect = BLOCK, emergency_allowed = []\<rparr>,
       co_failure_mode = ISOLATE_PLUGIN, co_registered = []\<rparr>,
     xv_plugins = [], xv_calibration = sample_calibration, xv_visual_policy = sample_visual_policy\<rparr>"

definition goal_msg :: "string \<Rightarrow> string \<Rightarrow> xer_event" where
  "goal_msg robot res = GoalMsg (Some (PDict [(''robot'', PStr robot), (''task_id'', PStr ''n1''), (''result'', PStr res)]))"

definition calm_mirror :: mirror where
  "calm_mirror = \<lparr>clear_after_s = Fin 1, last_stop = []\<rparr>"

definition relay_run :: "xer_event list \<Rightarrow> xer_entry list" where
  "relay_run es = fst (xer_run relay_env es init_xer [])"

definition plan_turn :: "string \<Rightarrow> string \<Rightarrow> xer_event" where
  "plan_turn plan robot = Iterate (relay_answer plan robot) (Some calm_mirror)"

lemma relay_resolution:
  obtains ts u where "\<forall>p r. resolve unit_libm sample_visual_policy (relay_draft p r) sample_calibration = Inr ts"
    "map_of (by_target ts) ''shelf_1'' = Some u" "rs_destination u = Some ''shelf_1''" "rs_kind u = KNOWN_LOCATION"
proof -
  have "fst pipeline_result = Inr pipeline_command"
    using pipeline_command_eq by (auto simp: pipeline_command_def empty_command_def split: sum.splits)
  then have "compile_raw_output unit_libm (\<lambda>_. None) (\<lambda>_. Inr ex_draft) sample_visual_policy sample_calibration
      ex_context X_LITE NothingInjected pipeline_raw = (Inr pipeline_command, snd pipeline_result)"
    by (simp add: prod_eq_iff pipeline_result_def)
  then show thesis
  proof (cases rule: compile_raw_cases)
    case (withheld draft rep)
    then show ?thesis by (simp add: pipeline_command_eq)
  next
    case (compiled draft rep ts s a)
    have d: "draft = ex_draft" using compiled(1) by (auto simp: to_robotics_plan_draft_def bindR_Inr_iff Let_def split: if_splits option.splits)
    have i: "navigate_item ''bot1'' ''shelf_1'' \<in> set (cm_commands (cr_command a))"
      using compiled(7) pipeline_command_eq by simp
    obtain x where x: "compile_one (by_target ts) x = Inr (navigate_item ''bot1'' ''shelf_1'')"
        "x \<in> set (fst (ready_tasks (plan_id draft) (task_graph draft) s))"
      using list_all2_right [OF audit_complete(3) [OF compiled(6)] i] by auto
    obtain k u where u: "rt_target x = Some k" "map_of (by_target ts) k = Some u" "rs_destination u = Some ''shelf_1''" "rs_kind u = KNOWN_LOCATION"
      using x(1) by (auto simp: compile_one_Inr navigate_item_def)
    have "rs_target u = k" "u \<in> set ts" using by_target_mem [OF u(2)] by simp_all
    then have "k = ''shelf_1''" 
      using resolve_spec(1) [OF compiled(4)] by (auto simp: d ex_draft_def)
    moreover have "resolve unit_libm sample_visual_policy (relay_draft p r) sample_calibration = Inr ts" for p r
      using compiled(4) by (simp add: resolve_def d relay_draft_def)
    ultimately show ?thesis using that u by blast
  qed
qed


lemma relay_parsed [simp]:
  "to_robotics_plan_draft (\<lambda>_. None) relay_parse (the (relay_answer ''p1'' ''bot1'')) = Inr (relay_draft ''p1'' ''bot1'')"
  "to_robotics_plan_draft (\<lambda>_. None) relay_parse (the (relay_answer ''p2'' ''bot2'')) = Inr (relay_draft ''p2'' ''bot2'')"
  by code_simp+

lemma relay_validated [simp]:
  "validate (relay_draft ''p1'' ''bot1'') (cycle_context (Some calm_mirror)) = Inr (from_rules [] (relay_draft ''p1'' ''bot1''))"
  "validate (relay_draft ''p2'' ''bot2'') (cycle_context (Some calm_mirror)) = Inr (from_rules [] (relay_draft ''p2'' ''bot2''))"
  by code_simp+

lemma relay_composed: "validate_with_plugins (xv_coerce relay_env) (xv_composition relay_env) (xv_plugins relay_env) d ctx
   = (case validate d ctx of Inl e \<Rightarrow> Inl (Inl e) | Inr core \<Rightarrow> Inr (compose_report core []))"
  by (simp add: validate_with_plugins_def relay_env_def split: sum.split)


lemma relay_compiled:
  assumes "map_of (by_target ts) ''shelf_1'' = Some u" "rs_destination u = Some ''shelf_1''" "rs_kind u = KNOWN_LOCATION"
    and "list_all (\<lambda>t. rt_action t = ''navigate'' \<and> rt_robot t \<noteq> [] \<and> rt_target t = Some ''shelf_1'') ready"
  shows "compile_loop (by_target ts) ready = (map (\<lambda>t. navigate_item (rt_robot t) ''shelf_1'') ready, map rt_id ready, [])"
  using assms(4)
proof (induction ready)
  case (Cons t ready)
  have "compile_one (by_target ts) t = Inr (navigate_item (rt_robot t) ''shelf_1'')"
    unfolding compile_one_Inr using assms(1-3) Cons.prems by (auto simp: is_known_location_def LOCATION_NAMES_def)
  then show ?case using Cons by simp
qed simp

text \<open>The loop over the sample backend, where everything is accepted.\<close>

fun relay_mark :: "string \<Rightarrow> ready_task list \<Rightarrow> exec_state \<Rightarrow> exec_state" where
  "relay_mark plan [] h = h"
| "relay_mark plan (t # ts) h = relay_mark plan ts (commit plan (rt_id t) RUNNING h)"

lemma relay_dispatched:
  assumes "handle p h" and "\<And>t. t \<in> set ready \<Longrightarrow> stat (store h) p (rt_id t) = READY" and "distinct (map rt_id ready)"
    and "length calls = length ready"
  shows "\<exists>s' ds. xer_dispatch (xv_exec relay_env) p n
      (zip (map (\<lambda>t. navigate_item (rt_robot t) loc) ready) (zip (map (Some \<circ> rt_id) ready) calls)) h s
    = (Inr (ds, map (\<lambda>t. (rt_robot t, rt_id t)) ready), relay_mark p ready h, s')"
  using assms
proof (induction ready arbitrary: n h s calls)
  case Nil
  then show ?case by simp
next
  case (Cons t ready)
  obtain c cs where calls: "calls = c # cs" using Cons.prems(4) by (cases calls) auto
  let ?h = "commit p (rt_id t) RUNNING h"
  have t: "stat (store h) p (rt_id t) = READY" using Cons.prems(2) by simp
  have m: "mark_running p (rt_id t) h = Inr ?h"
    using t handle_status [OF Cons.prems(1)] by (simp add: mark_running_def)
  note c = commit_handle [OF Cons.prems(1), of "rt_id t" RUNNING, unfolded t, OF ready_to_running]
  have "rt_id x \<noteq> rt_id t" if "x \<in> set ready" for x using Cons.prems(3) that by (metis distinct.simps(2) image_eqI list.simps(9) list.set_map)
  then have "handle p ?h" "\<And>x. x \<in> set ready \<Longrightarrow> stat (store ?h) p (rt_id x) = READY"
    using c Cons.prems(2) by simp_all
  from Cons.IH [OF this, of cs "Suc n" "s @ [c]"] Cons.prems(3,4)
  show ?case by (auto simp: calls m relay_env_def is_ok_def navigate_item_def)
qed


definition relay_turn :: "string \<Rightarrow> string \<Rightarrow> graph_store \<Rightarrow> (string \<times> string) list \<times> graph_store" where
  "relay_turn p r st = (let (ready, h) = ready_tasks p (task_graph (relay_draft p r)) \<lparr>graph = view st p, store = st\<rparr>
     in (map (\<lambda>t. (rt_robot t, rt_id t)) ready, store (relay_mark p ready h)))"

definition relay_pair :: "string \<Rightarrow> string \<Rightarrow> bool" where
  "relay_pair p r \<longleftrightarrow> p = ''p1'' \<and> r = ''bot1'' \<or> p = ''p2'' \<and> r = ''bot2''"

lemma relay_cycle:
  assumes pr: "relay_pair p r" and ok: "store_ok st" and t: "relay_turn p r st = (done, st')" "done \<noteq> []"
  shows "\<exists>out n' s'. run_x_er_cycle relay_env (relay_answer p r) (Some calm_mirror) st n s = (Inr out, st', n', s')
     \<and> xo_committed out = done \<and> xo_skipped out = None \<and> xo_plan_id out = Some p"
proof -
  let ?d = "relay_draft p r" and ?h = "\<lparr>graph = view st p, store = st\<rparr>"
  let ?rep = "compose_report (from_rules [] ?d) []"
  obtain ts u where ts: "\<forall>p r. resolve unit_libm sample_visual_policy (relay_draft p r) sample_calibration = Inr ts"
    "map_of (by_target ts) ''shelf_1'' = Some u" "rs_destination u = Some ''shelf_1''" "rs_kind u = KNOWN_LOCATION"
    using relay_resolution by blast
  obtain ready h' where r: "ready_tasks p (task_graph ?d) ?h = (ready, h')" by (metis surj_pair)
  have hd: "handle p ?h" using ok by (simp add: handle_def)
  note rh = ready_handle [OF hd r]
  have don: "done = map (\<lambda>t. (rt_robot t, rt_id t)) ready" "st' = store (relay_mark p ready h')"
    using t(1) r by (auto simp: relay_turn_def)
  have raw: "to_robotics_plan_draft (\<lambda>_. None) relay_parse (the (relay_answer p r)) = Inr ?d"
    and val: "validate ?d (cycle_context (Some calm_mirror)) = Inr (from_rules [] ?d)"
    using pr by (auto simp: relay_pair_def)
  have ans: "relay_answer p r = Some (the (relay_answer p r))" by (simp add: relay_answer_def)
  have pid: "plan_id ?d = p" by (simp add: relay_draft_def)
  have perm: "permits_dispatch (from_rules [] ?d)" "composed_permits ?rep"
    by (simp_all add: composed_permits_iff) (simp_all add: permits_dispatch_def from_rules_def aggregate_status_def)
  have "list_all (\<lambda>t. rt_action t = ''navigate'' \<and> rt_robot t \<noteq> [] \<and> rt_target t = Some ''shelf_1'') ready"
    using rh(7) pr by (fastforce simp: list_all_iff relay_draft_def from_node_def relay_pair_def)
  note comp = relay_compiled [OF ts(2-4) this]
  let ?items = "map (\<lambda>t. navigate_item (rt_robot t) ''shelf_1'') ready"
  obtain a where a: "compile_with_audit X_LITE ready ts = Inr a" "cm_commands (cr_command a) = ?items" "cr_compiled a = map rt_id ready"
    by (simp add: compile_with_audit_def comp)
  have al: "align_task_ids (cr_command a) ready ts = map (Some \<circ> rt_id) ready" using aligned(1) [OF a(1)] a(3) by simp
  have k: "load_state p (store h') = Inr k \<Longrightarrow> ready_tasks p (task_graph ?d) k = (ready, h')" for k
    using second_ready [OF hd r] by blast
  obtain k where k': "load_state p (store h') = Inr k" using load_handle rh(1) handle_def by blast
  let ?calls = "command_to_tool_calls (xv_mint relay_env) n ?items (0 + 1)"
  have st: "\<And>t. t \<in> set ready \<Longrightarrow> stat (store h') p (rt_id t) = READY" using rh(7) by blast
  have len: "length ?calls = length ready" by simp
  obtain s' ds where d: "xer_dispatch (xv_exec relay_env) p n (zip ?items (zip (map (Some \<circ> rt_id) ready) ?calls)) h' s
    = (Inr (ds, map (\<lambda>t. (rt_robot t, rt_id t)) ready), relay_mark p ready h', s')"
    using relay_dispatched [OF rh(1) st rh(6) len] by blast
  have env: "xv_read_gen relay_env s = Inr 0" "xv_publish relay_env g s = s" "xv_lib relay_env = unit_libm"
    "xv_visual_policy relay_env = sample_visual_policy" "xv_calibration relay_env = sample_calibration"
    "xv_loads relay_env = (\<lambda>_. None)" "xv_parse relay_env = relay_parse" for g s
    by (simp_all add: relay_env_def)
  have cr: "compile_raw_output unit_libm (\<lambda>_. None) relay_parse sample_visual_policy sample_calibration
      (cycle_context (Some calm_mirror)) X_LITE (ExecutorInjected st) (the (relay_answer p r)) = (Inr (cr_command a), store h')"
    using load_handle [OF ok, of p] by (simp add: compile_raw_output_def raw val perm ts(1) [rule_format] pid r a(1))
  have "ready \<noteq> []" using t(2) don(1) by simp
  then have ne: "cm_commands (cr_command a) \<noteq> []" by (simp add: a(2))
  have "\<exists>out n'. xer_commit relay_env ?d ?rep (cr_command a) (store h') n s = (Inr out, st', n', s')
     \<and> xo_committed out = done \<and> xo_skipped out = None \<and> xo_plan_id out = Some p"
    unfolding xer_commit_def env pid k' k [OF k'] ts(1) [rule_format] al a(2) Let_def sum.case prod.case d by (simp add: don)
  then show ?thesis
    by (subst ans) (auto simp: run_x_er_cycle_def env raw relay_composed val perm cr ne)
qed


lemma relay_iterate:
  assumes x: "\<not> xe_stopped x" "xe_triggered x"
    and q: "apply_pending_completions (xe_pending x) (xe_plan_id x) (xe_inflight x) (xe_store x) = Inr (applied, i, st)"
    and pr: "relay_pair p r" and ok: "store_ok st" and t: "relay_turn p r st = (done, st')" "done \<noteq> []"
  shows "\<exists>en n' s'. xer_iterate relay_env (relay_answer p r) (Some calm_mirror) x s =
      (Some en, x\<lparr>xe_store := st', xe_inflight := snd (fold_inflight i done), xe_pending := [], xe_minted := n',
         xe_triggered := False, xe_plan_id := Some p\<rparr>, s')
    \<and> commits en = done \<and> xl_applied en = applied \<and> xl_plan en = xe_plan_id x \<and> xl_refused en = fst (fold_inflight i done)"
proof -
  obtain out n' s' where c: "run_x_er_cycle relay_env (relay_answer p r) (Some calm_mirror) st (xe_minted x) s = (Inr out, st', n', s')"
    "xo_committed out = done" "xo_skipped out = None" "xo_plan_id out = Some p"
    using relay_cycle [OF pr ok t] by blast
  obtain refused i' where f: "fold_inflight i done = (refused, i')" by (metis surj_pair)
  show ?thesis using x by (auto simp: xer_iterate_def q c f Let_def commits_def)
qed

definition stale :: "xer_event list" where
  "stale = [plan_turn ''p1'' ''bot1'', goal_msg ''bot2'' ''succeeded'', plan_turn ''p2'' ''bot2'',
     goal_msg ''bot1'' ''succeeded'', plan_turn ''p2'' ''bot2'']"

definition stale_stores :: "graph_store \<times> graph_store \<times> graph_store \<times> graph_store" where
  "stale_stores = (let st1 = snd (relay_turn ''p1'' ''bot1'' []); st2 = snd (relay_turn ''p2'' ''bot2'' st1);
     st3 = (case apply_pending_completions [(''bot1'', ''n1'', ''succeeded'')] (Some ''p2'') [(''bot1'', ''pick''), (''bot2'', ''pick'')] st2
            of Inr (_, _, st) \<Rightarrow> st | Inl _ \<Rightarrow> [])
   in (st1, st2, st3, snd (relay_turn ''p2'' ''bot2'' st3)))"

lemma stale_values:
  "relay_turn ''p1'' ''bot1'' [] = ([(''bot1'', ''pick'')], fst stale_stores)"
  "relay_turn ''p2'' ''bot2'' (fst stale_stores) = ([(''bot2'', ''pick'')], fst (snd stale_stores))"
  "apply_pending_completions [(''bot1'', ''n1'', ''succeeded'')] (Some ''p2'') [(''bot1'', ''pick''), (''bot2'', ''pick'')] (fst (snd stale_stores))
     = Inr ([\<lparr>go_applied = True, go_transition = Some ''succeeded'', go_retrigger = True, go_reason = TaskSucceeded ''bot1'' ''pick''\<rparr>],
            [(''bot2'', ''pick'')], fst (snd (snd stale_stores)))"
  "relay_turn ''p2'' ''bot2'' (fst (snd (snd stale_stores))) = ([(''bot2'', ''place'')], snd (snd (snd stale_stores)))"
  by code_simp+


lemma relay_turn_ok: "store_ok st \<Longrightarrow> relay_turn p r st = (done, st') \<Longrightarrow> relay_pair p r \<Longrightarrow> done \<noteq> [] \<Longrightarrow> store_ok st'"
proof -
  assume a: "store_ok st" "relay_turn p r st = (done, st')" "relay_pair p r" "done \<noteq> []"
  obtain out n' s' where c: "run_x_er_cycle relay_env (relay_answer p r) (Some calm_mirror) st 0 [] = (Inr out, st', n', s')"
    using relay_cycle [OF a(3,1,2,4)] by blast
  show "store_ok st'" using cycle_spec [OF c a(1)] by (simp add: evolves_def)
qed

lemma goal_received: "on_goal_result_msg (Some (PDict [(''robot'', PStr b), (''task_id'', PStr ''n1''), (''result'', PStr ''succeeded'')])) x
   = (if b = [] then x else x\<lparr>xe_pending := xe_pending x @ [(b, ''n1'', ''succeeded'')], xe_triggered := True\<rparr>)"
  by (simp add: on_goal_result_msg_def parse_goal_result_def dget_def)

text \<open>
  A goal result is matched against the plan of the latest turn, not against the plan its task belongs to. Here
  the first robot's success for \<open>pick\<close> of the abandoned plan \<open>p1\<close> completes \<open>pick\<close> of \<open>p2\<close>, which is the second
  robot's and still under way, and the dependent \<open>place\<close> is sent out.
\<close>

lemma stale_history:
  "\<exists>e1 e2 e3. relay_run stale = [e1, e2, e3]
     \<and> commits e1 = [(''bot1'', ''pick'')] \<and> commits e2 = [(''bot2'', ''pick'')] \<and> commits e3 = [(''bot2'', ''place'')]
     \<and> xl_plan e3 = Some ''p2'' \<and> map go_reason (xl_applied e3) = [TaskSucceeded ''bot1'' ''pick'']"
proof -
  obtain st1 st2 st3 st4 where sts: "stale_stores = (st1, st2, st3, st4)" by (metis prod_cases4)
  note v = stale_values [unfolded sts, simplified]
  have ok: "store_ok []" "store_ok st1" "store_ok st2" "store_ok st3"
    using store_ok_empty relay_turn_ok [OF _ v(1)] relay_turn_ok [OF _ v(2)] pending_drained(1) [OF v(3)]
    by (auto simp: relay_pair_def evolves_def)
  define x0 where "x0 = init_xer"
  have q1: "apply_pending_completions (xe_pending x0) (xe_plan_id x0) (xe_inflight x0) (xe_store x0) = Inr ([], [], [])"
    by (simp add: x0_def init_xer_def apply_pending_completions_def)
  obtain e1 n1 s1 where i1: "xer_iterate relay_env (relay_answer ''p1'' ''bot1'') (Some calm_mirror) x0 [] = (Some e1,
      x0\<lparr>xe_store := st1, xe_inflight := [(''bot1'', ''pick'')], xe_pending := [], xe_minted := n1, xe_triggered := False,
         xe_plan_id := Some ''p1''\<rparr>, s1)" "commits e1 = [(''bot1'', ''pick'')]"
    using relay_iterate [OF _ _ q1 _ ok(1) v(1), of "[]"] by (auto simp: x0_def init_xer_def relay_pair_def)
  define x1 where "x1 = x0\<lparr>xe_store := st1, xe_inflight := [(''bot1'', ''pick'')], xe_pending := [(''bot2'', ''n1'', ''succeeded'')],
    xe_minted := n1, xe_triggered := True, xe_plan_id := Some ''p1''\<rparr>"
  have q2: "apply_pending_completions (xe_pending x1) (xe_plan_id x1) (xe_inflight x1) (xe_store x1) =
      Inr ([goal_ignored (NothingInFlight ''bot2'')], [(''bot1'', ''pick'')], st1)"
    by (simp add: x1_def apply_pending_completions_def apply_goal_result_def)
  obtain e2 n2 s2 where i2: "xer_iterate relay_env (relay_answer ''p2'' ''bot2'') (Some calm_mirror) x1 s1 = (Some e2,
      x1\<lparr>xe_store := st2, xe_inflight := [(''bot1'', ''pick''), (''bot2'', ''pick'')], xe_pending := [], xe_minted := n2,
         xe_triggered := False, xe_plan_id := Some ''p2''\<rparr>, s2)" "commits e2 = [(''bot2'', ''pick'')]"
    using relay_iterate [OF _ _ q2 _ ok(2) v(2), of s1] by (auto simp: x1_def x0_def init_xer_def relay_pair_def)
  define x2 where "x2 = x1\<lparr>xe_store := st2, xe_inflight := [(''bot1'', ''pick''), (''bot2'', ''pick'')],
    xe_pending := [(''bot1'', ''n1'', ''succeeded'')], xe_minted := n2, xe_triggered := True, xe_plan_id := Some ''p2''\<rparr>"
  have q3: "apply_pending_completions (xe_pending x2) (xe_plan_id x2) (xe_inflight x2) (xe_store x2) =
      Inr ([\<lparr>go_applied = True, go_transition = Some ''succeeded'', go_retrigger = True, go_reason = TaskSucceeded ''bot1'' ''pick''\<rparr>],
            [(''bot2'', ''pick'')], st3)"
    using v(3) by (simp add: x2_def)
  obtain e3 x3 s3 where i3: "xer_iterate relay_env (relay_answer ''p2'' ''bot2'') (Some calm_mirror) x2 s2 = (Some e3, x3, s3)"
      "commits e3 = [(''bot2'', ''place'')]" "xl_plan e3 = Some ''p2''" "map go_reason (xl_applied e3) = [TaskSucceeded ''bot1'' ''pick'']"
    using relay_iterate [OF _ _ q3 _ ok(4) v(4), of s2] by (auto simp: x2_def x1_def x0_def init_xer_def relay_pair_def)
  have "relay_run stale = [e1, e2, e3]"
    using i1(1) i2(1) i3(1)
    by (simp add: relay_run_def stale_def plan_turn_def goal_msg_def goal_received x0_def x1_def x2_def init_xer_def)
  then show ?thesis using i1(2) i2(2) i3(2-4) by (intro exI [of _ e1] exI [of _ e2] exI [of _ e3] conjI)
qed

section \<open>The tool server as the backend\<close>

definition served_env :: "server xer_env" where
  "served_env = \<lparr>xv_exec = dispatch_execute (\<lambda>_. IsoInvalid) (\<lambda>_. full_env), xv_read_gen = (\<lambda>_. Inr 0),
     xv_publish = publish_gen, xv_mint = no_keys, xv_lib = unit_libm, xv_loads = (\<lambda>_. None),
     xv_parse = relay_parse, xv_coerce = (\<lambda>_. None), xv_composition = xv_composition relay_env,
     xv_plugins = [], xv_calibration = sample_calibration, xv_visual_policy = sample_visual_policy\<rparr>"

theorem held_robot_gets_nothing_from_x_er_witness:
  "''bot1'' \<in> emergency (pgate (snd (snd (xer_run served_env stale init_xer held_server))))
   \<and> filter (moves ''bot1'') (forwarded (snd (snd (xer_run served_env stale init_xer held_server))))
     = filter (moves ''bot1'') (forwarded held_server)"
proof (rule held_robot_gets_nothing_from_x_er)
  show "xer_run served_env stale init_xer held_server =
      (fst (xer_run served_env stale init_xer held_server), fst (snd (xer_run served_env stale init_xer held_server)),
       snd (snd (xer_run served_env stale init_xer held_server)))" by simp
  show "xv_exec served_env = dispatch_execute (\<lambda>_. IsoInvalid) (\<lambda>_. full_env)" "xv_publish served_env = publish_gen"
    by (simp_all add: served_env_def)
  show "''bot1'' \<in> emergency (pgate held_server)" by (simp add: held_server_def set_emergency_def)
qed

end
