(* ===== verification/XErAccepts.thy ===== *)
theory XErAccepts
  imports XErRun
begin

text \<open>
  The calls a backend accepts over a Mode X-ER run, those of a turn that raises included: the log, what a backend
  that writes down what it accepts would show, and that no task of a plan is in it twice.
\<close>

section \<open>The log of accepted calls\<close>

text \<open>
  An accepted call with the plan and the task id the loop pairs it with. The functions follow the paths of
  the code up to the dispatch loop; an accepted call counts before its task is marked running, so it counts when
  the marking or a later call raises.
\<close>

type_synonym accepted_call = "(string \<times> string option) \<times> tool_request"

fun dispatch_accepts ::
    "'s exec \<Rightarrow> string \<Rightarrow> nat \<Rightarrow> (command_item \<times> string option \<times> tool_request) list \<Rightarrow> exec_state \<Rightarrow> 's \<Rightarrow> accepted_call list" where
  "dispatch_accepts exec plan n [] h s = []"
| "dispatch_accepts exec plan n ((i, tid, r) # rest) h s =
     (case exec n s r of
        (Inl e, s) \<Rightarrow> []
      | (Inr res, s) \<Rightarrow>
          if \<not> is_ok res then dispatch_accepts exec plan (Suc n) rest h s
          else ((plan, tid), r) #
            (case tid of
               None \<Rightarrow> dispatch_accepts exec plan (Suc n) rest h s
             | Some t \<Rightarrow>
                 (case mark_running plan t h of
                    Inl e \<Rightarrow> []
                  | Inr h \<Rightarrow> dispatch_accepts exec plan (Suc n) rest h s)))"

definition commit_accepts :: "'s xer_env \<Rightarrow> plan_draft \<Rightarrow> command \<Rightarrow> graph_store \<Rightarrow> nat \<Rightarrow> 's \<Rightarrow> accepted_call list" where
  "commit_accepts v draft cmd st n s =
     (case xv_read_gen v s of
        Inl e \<Rightarrow> []
      | Inr g \<Rightarrow>
          (case load_state (plan_id draft) st of
             Inl e \<Rightarrow> []
           | Inr h \<Rightarrow>
               (let (ready, h) = ready_tasks (plan_id draft) (task_graph draft) h in
                case resolve (xv_lib v) (xv_visual_policy v) draft (xv_calibration v) of
                  Inl e \<Rightarrow> []
                | Inr resolution \<Rightarrow>
                    dispatch_accepts (xv_exec v) (plan_id draft) n
                      (zip (cm_commands cmd) (zip (align_task_ids cmd ready resolution)
                         (command_to_tool_calls (xv_mint v) n (cm_commands cmd) (g + 1))))
                      h (xv_publish v (g + 1) s))))"

definition cycle_accepts ::
    "'s xer_env \<Rightarrow> raw_output option \<Rightarrow> mirror option \<Rightarrow> graph_store \<Rightarrow> nat \<Rightarrow> 's \<Rightarrow> accepted_call list" where
  "cycle_accepts v ans m st n s =
     (case ans of
        None \<Rightarrow> []
      | Some raw \<Rightarrow>
          (case to_robotics_plan_draft (xv_loads v) (xv_parse v) raw of
             Inl e \<Rightarrow> []
           | Inr draft \<Rightarrow>
               (case validate_with_plugins (xv_coerce v) (xv_composition v) (xv_plugins v) draft (cycle_context m) of
                  Inl r \<Rightarrow> []
                | Inr rep \<Rightarrow>
                    if \<not> composed_permits rep then []
                    else case compile_raw_output (xv_lib v) (xv_loads v) (xv_parse v) (xv_visual_policy v)
                                (xv_calibration v) (cycle_context m) X_LITE (ExecutorInjected st) raw of
                        (Inl e, st) \<Rightarrow> []
                      | (Inr cmd, st) \<Rightarrow> if cm_commands cmd = [] then [] else commit_accepts v draft cmd st n s)))"

definition iterate_accepts :: "'s xer_env \<Rightarrow> raw_output option \<Rightarrow> mirror option \<Rightarrow> xer \<Rightarrow> 's \<Rightarrow> accepted_call list" where
  "iterate_accepts v ans m x s =
     (if xe_stopped x \<or> \<not> xe_triggered x then []
      else case apply_pending_completions (xe_pending x) (xe_plan_id x) (xe_inflight x) (xe_store x) of
          Inl e \<Rightarrow> []
        | Inr (applied, inflight, st) \<Rightarrow> cycle_accepts v ans m st (xe_minted x) s)"

fun run_accepts :: "'s xer_env \<Rightarrow> xer_event list \<Rightarrow> xer \<Rightarrow> 's \<Rightarrow> accepted_call list" where
  "run_accepts v [] x s = []"
| "run_accepts v (GoalMsg d # es) x s = run_accepts v es (on_goal_result_msg d x) s"
| "run_accepts v (Iterate ans m # es) x s =
     iterate_accepts v ans m x s @
       (let (entry, x, s) = xer_iterate v ans m x s in run_accepts v es x s)"

section \<open>A backend that writes down what it accepts\<close>

definition record_exec :: "'s exec \<Rightarrow> ('s \<times> tool_request list) exec" where
  "record_exec exec n sl r =
     (case exec n (fst sl) r of
        (Inl e, s) \<Rightarrow> (Inl e, (s, snd sl))
      | (Inr res, s) \<Rightarrow> (Inr res, (s, if is_ok res then snd sl @ [r] else snd sl)))"

definition recording :: "'s xer_env \<Rightarrow> ('s \<times> tool_request list) xer_env" where
  "recording v =
     \<lparr>xv_exec = record_exec (xv_exec v), xv_read_gen = (\<lambda>sl. xv_read_gen v (fst sl)),
      xv_publish = (\<lambda>g sl. (xv_publish v g (fst sl), snd sl)), xv_mint = xv_mint v, xv_lib = xv_lib v,
      xv_loads = xv_loads v, xv_parse = xv_parse v, xv_coerce = xv_coerce v, xv_composition = xv_composition v,
      xv_plugins = xv_plugins v, xv_calibration = xv_calibration v, xv_visual_policy = xv_visual_policy v\<rparr>"

lemma recording_fields [simp]:
  "xv_exec (recording v) = record_exec (xv_exec v)" "xv_read_gen (recording v) sl = xv_read_gen v (fst sl)"
  "xv_publish (recording v) g sl = (xv_publish v g (fst sl), snd sl)" "xv_mint (recording v) = xv_mint v"
  "xv_lib (recording v) = xv_lib v" "xv_loads (recording v) = xv_loads v" "xv_parse (recording v) = xv_parse v"
  "xv_coerce (recording v) = xv_coerce v" "xv_composition (recording v) = xv_composition v"
  "xv_plugins (recording v) = xv_plugins v" "xv_calibration (recording v) = xv_calibration v"
  "xv_visual_policy (recording v) = xv_visual_policy v"
  by (simp_all add: recording_def)

lemma record_exec_pair:
  "record_exec exec n (s, l) r =
     (case exec n s r of
        (Inl e, s) \<Rightarrow> (Inl e, (s, l))
      | (Inr res, s) \<Rightarrow> (Inr res, (s, if is_ok res then l @ [r] else l)))"
  by (simp add: record_exec_def split: prod.split sum.split)

lemma dispatch_recorded:
  "xer_dispatch (record_exec exec) p n xs h (s, l) =
     (case xer_dispatch exec p n xs h s of (res, h', s') \<Rightarrow> (res, h', (s', l @ map snd (dispatch_accepts exec p n xs h s))))"
proof (induction xs arbitrary: n h s l)
  case (Cons x xs)
  obtain i tid r where x: "x = (i, tid, r)" by (metis prod_cases3)
  obtain res s1 where e: "exec n s r = (res, s1)" by (metis surj_pair)
  show ?case
    by (auto simp: x e record_exec_pair Cons.IH split: sum.split option.split prod.split)
qed simp

lemma commit_recorded:
  "xer_commit (recording v) draft rep cmd st n (s, l) =
     (case xer_commit v draft rep cmd st n s of (res, st', n', s') \<Rightarrow> (res, st', n', (s', l @ map snd (commit_accepts v draft cmd st n s))))"
  by (auto simp: xer_commit_def commit_accepts_def Let_def dispatch_recorded split: sum.split prod.split)

lemma cycle_recorded:
  "run_x_er_cycle (recording v) ans m st n (s, l) =
     (case run_x_er_cycle v ans m st n s of (res, st', n', s') \<Rightarrow> (res, st', n', (s', l @ map snd (cycle_accepts v ans m st n s))))"
  by (auto simp: run_x_er_cycle_def cycle_accepts_def commit_recorded split: option.split sum.split prod.split)

lemma iterate_recorded:
  "xer_iterate (recording v) ans m x (s, l) =
     (case xer_iterate v ans m x s of (res, x', s') \<Rightarrow> (res, x', (s', l @ map snd (iterate_accepts v ans m x s))))"
  by (auto simp: xer_iterate_def iterate_accepts_def cycle_recorded Let_def split: sum.split prod.split)

lemma run_recorded:
  "xer_run (recording v) es x (s, l) =
     (case xer_run v es x s of (ens, x', s') \<Rightarrow> (ens, x', (s', l @ map snd (run_accepts v es x s))))"
proof (induction es arbitrary: x s l)
  case (Cons e es)
  then show ?case
    by (cases e) (auto simp: iterate_recorded split: prod.split option.split)
qed simp

section \<open>No task twice\<close>

text \<open>Every call of the list is for an open task of the plan that is running afterwards, and none is there twice.\<close>

definition fresh_calls :: "graph_store \<Rightarrow> graph_store \<Rightarrow> accepted_call list \<Rightarrow> bool" where
  "fresh_calls st st' acc \<longleftrightarrow> distinct (map fst acc) \<and>
     (\<forall>pt \<in> fst ` set acc. \<exists>p t. pt = (p, Some t) \<and> stat st p t \<notin> set NON_EMITTABLE \<and> stat st' p t = RUNNING)"

lemma fresh_calls_Nil [simp]: "fresh_calls st st' []"
  by (simp add: fresh_calls_def)

lemma evolves_open: "evolves st st' \<Longrightarrow> stat st' p t \<notin> set NON_EMITTABLE \<Longrightarrow> stat st p t \<notin> set NON_EMITTABLE"
  unfolding evolves_def advances_def NON_EMITTABLE_def by auto

lemma fresh_calls_before: "fresh_calls st1 st' acc \<Longrightarrow> evolves st st1 \<Longrightarrow> fresh_calls st st' acc"
  unfolding fresh_calls_def using evolves_open by metis

lemma dispatch_fresh:
  assumes "xer_dispatch exec p n xs h s = (res, h', s')" and "handle p h"
    and "\<forall>(i, tid, r) \<in> set xs. \<exists>t. tid = Some t \<and> stat (store h) p t = READY"
    and "distinct (map (fst \<circ> snd) xs)"
  shows "distinct (map fst (dispatch_accepts exec p n xs h s))
     \<and> (\<forall>pt \<in> fst ` set (dispatch_accepts exec p n xs h s). \<exists>t. pt = (p, Some t) \<and> Some t \<in> (fst \<circ> snd) ` set xs
          \<and> stat (store h') p t = RUNNING)"
  using assms
proof (induction xs arbitrary: n h s res h' s')
  case Nil
  then show ?case by simp
next
  case (Cons x xs)
  obtain i tid r where x: "x = (i, tid, r)" by (metis prod_cases3)
  obtain t where t: "tid = Some t" "stat (store h) p t = READY" using Cons.prems(3) x by auto
  have other: "Some t \<notin> (fst \<circ> snd) ` set xs" and dist: "distinct (map (fst \<circ> snd) xs)" using Cons.prems(4) by (auto simp: x t comp_def)
  have more: "(fst \<circ> snd) ` set xs \<subseteq> (fst \<circ> snd) ` set (x # xs)" by auto
  have rest: "\<exists>t'. tid' = Some t' \<and> t' \<noteq> t \<and> stat (store h) p t' = READY" if m: "(i', tid', r') \<in> set xs" for i' tid' r'
  proof -
    have "tid' \<noteq> Some t" using m other by force
    then show ?thesis using Cons.prems(3) m by fastforce
  qed
  obtain res1 s1 where e: "exec n s r = (res1, s1)" by (metis surj_pair)
  consider (raise) err where "res1 = Inl err" | (refused) out where "res1 = Inr out" "\<not> is_ok out" | (ok) out where "res1 = Inr out" "is_ok out"
    by (cases res1) auto
  then show ?case
  proof cases
    case raise
    then show ?thesis by (simp add: x e)
  next
    case refused
    have l: "xer_dispatch exec p (Suc n) xs h s1 = (res, h', s')" using Cons.prems(1) refused by (simp add: x e)
    have pre: "\<forall>(i, tid, r) \<in> set xs. \<exists>t. tid = Some t \<and> stat (store h) p t = READY" using rest by fastforce
    have same: "dispatch_accepts exec p n (x # xs) h s = dispatch_accepts exec p (Suc n) xs h s1" using refused by (simp add: x e)
    show ?thesis unfolding same using Cons.IH [OF l Cons.prems(2) pre dist] more by blast
  next
    case ok
    let ?h = "commit p t RUNNING h"
    have m: "mark_running p t h = Inr ?h" using t(2) handle_status [OF Cons.prems(2)] by (simp add: mark_running_def)
    have c: "handle p ?h" "\<And>q u. stat (store ?h) q u = (if q = p \<and> u = t then RUNNING else stat (store h) q u)"
      using commit_handle [OF Cons.prems(2), of t RUNNING] t(2) ready_to_running by auto
    obtain res2 h2 s2 where l: "xer_dispatch exec p (Suc n) xs ?h s1 = (res2, h2, s2)" by (metis prod_cases3)
    have hs: "h' = h2" using Cons.prems(1) by (auto simp: x e ok t(1) m l split: sum.splits prod.splits)
    have pre: "\<forall>(i, tid, r) \<in> set xs. \<exists>t. tid = Some t \<and> stat (store ?h) p t = READY" using rest c(2) by fastforce
    note ih = Cons.IH [OF l c(1) pre dist]
    have run: "stat (store h2) p t = RUNNING" using dispatch_effect_on_store [OF l c(1) pre dist] c(2) by metis
    have new: "(p, Some t) \<notin> fst ` set (dispatch_accepts exec p (Suc n) xs ?h s1)" using ih other by blast
    have now: "dispatch_accepts exec p n (x # xs) h s = ((p, Some t), r) # dispatch_accepts exec p (Suc n) xs ?h s1"
      using ok m by (simp add: x e t(1))
    have here: "Some t \<in> (fst \<circ> snd) ` set (x # xs)" by (simp add: x t(1))
    let ?later = "dispatch_accepts exec p (Suc n) xs ?h s1"
    have "distinct (map fst (((p, Some t), r) # ?later))" using ih new by simp
    moreover have "\<exists>t'. pt = (p, Some t') \<and> Some t' \<in> (fst \<circ> snd) ` set (x # xs) \<and> stat (store h2) p t' = RUNNING"
      if pt: "pt \<in> fst ` set (((p, Some t), r) # ?later)" for pt
    proof (cases "pt = (p, Some t)")
      case True
      then show ?thesis using run here by blast
    next
      case False
      then have "pt \<in> fst ` set ?later" using pt by simp
      then show ?thesis using ih more by blast
    qed
    ultimately show ?thesis unfolding now hs by blast
  qed
qed

text \<open>One commit: the calls are over tasks the cycle found ready.\<close>

lemma commit_fresh:
  assumes c: "xer_commit v draft rep cmd st n s = (res, st', n', s')"
    and hd: "handle (plan_id draft) h" and r: "ready_tasks (plan_id draft) (task_graph draft) h = (ready, h')" and st: "st = store h'"
    and tg: "resolve (xv_lib v) (xv_visual_policy v) draft (xv_calibration v) = Inr targets"
    and a: "compile_with_audit X_LITE ready targets = Inr a" and cmd: "cmd = cr_command a"
  shows "fresh_calls (store h) st' (commit_accepts v draft cmd st n s)"
proof (cases "xv_read_gen v s")
  case (Inl e)
  then show ?thesis by (simp add: commit_accepts_def)
next
  case (Inr g)
  let ?p = "plan_id draft"
  note rh = ready_handle [OF hd r]
  have ok: "store_ok (store h')" using rh(1) by (simp add: handle_def)
  obtain k where k: "load_state ?p (store h') = Inr k" using load_handle [OF ok] by blast
  note k2 = second_ready [OF hd r k]
  let ?calls = "command_to_tool_calls (xv_mint v) n (cm_commands cmd) (g + 1)"
  let ?xs = "zip (cm_commands cmd) (zip (map Some (cr_compiled a)) ?calls)"
  let ?s = "xv_publish v (g + 1) s"
  obtain dres h2 s2 where d: "xer_dispatch (xv_exec v) ?p n ?xs h' ?s = (dres, h2, s2)" by (metis prod_cases3)
  have al: "align_task_ids cmd ready targets = map Some (cr_compiled a)" using aligned(1) [OF a] by (simp add: cmd)
  have st': "st' = store h2"
    using c k k2 tg d by (auto simp: xer_commit_def st Inr Let_def al split: sum.splits prod.splits)
  have acc: "commit_accepts v draft cmd st n s = dispatch_accepts (xv_exec v) ?p n ?xs h' ?s"
    using k k2 tg by (simp add: commit_accepts_def st Inr al)
  have mem: "\<exists>t. tid = Some t \<and> stat (store h') ?p t = READY" if q: "(i, tid, q) \<in> set ?xs" for i tid q
  proof -
    obtain t where t: "tid = Some t" "(i, t) \<in> set (zip (cm_commands cmd) (cr_compiled a))" using zip3_member [OF q] by blast
    have "t \<in> set (cr_compiled a)" using t(2) by (rule set_zip_rightD)
    then show ?thesis using t(1) aligned(3) [OF a] rh(7) by blast
  qed
  then have pre: "\<forall>(i, tid, q) \<in> set ?xs. \<exists>t. tid = Some t \<and> stat (store h') ?p t = READY" by blast
  have "length ?calls = length (cm_commands cmd)" "length (cr_compiled a) = length (cm_commands cmd)"
    using aligned(2) [OF a] by (simp_all add: cmd)
  then have "map (fst \<circ> snd) ?xs = map Some (cr_compiled a)" by (intro nth_equalityI) auto
  then have dist: "distinct (map (fst \<circ> snd) ?xs)" using aligned(4) [OF a rh(6)] by (simp add: distinct_map)
  have "READY \<notin> set NON_EMITTABLE" by (simp add: NON_EMITTABLE_def TERMINAL_STATUSES_def)
  then have "stat (store h) ?p t \<notin> set NON_EMITTABLE" if "Some t \<in> (fst \<circ> snd) ` set ?xs" for t
    using mem rh(3) [of ?p t] that by fastforce
  then show ?thesis using dispatch_fresh [OF d rh(1) pre dist] unfolding fresh_calls_def acc st' by blast
qed

lemma cycle_fresh:
  assumes c: "run_x_er_cycle v ans m st n s = (res, st', n', s')" and ok: "store_ok st"
  shows "fresh_calls st st' (cycle_accepts v ans m st n s)"
proof -
  let ?compile = "\<lambda>raw. compile_raw_output (xv_lib v) (xv_loads v) (xv_parse v) (xv_visual_policy v) (xv_calibration v)
    (cycle_context m) X_LITE (ExecutorInjected st) raw"
  consider (quiet) "cycle_accepts v ans m st n s = []"
    | (commits) raw draft rep cmd st1 where "to_robotics_plan_draft (xv_loads v) (xv_parse v) raw = Inr draft"
        "?compile raw = (Inr cmd, st1)" "cm_commands cmd \<noteq> []" "xer_commit v draft rep cmd st1 n s = (res, st', n', s')"
        "cycle_accepts v ans m st n s = commit_accepts v draft cmd st1 n s"
    using c unfolding run_x_er_cycle_def cycle_accepts_def
    by (fastforce split: option.splits sum.splits prod.splits if_splits)
  then show ?thesis
  proof cases
    case commits
    from commits(2) show ?thesis
    proof (cases rule: compile_raw_cases)
      case (withheld d r)
      then show ?thesis using commits(3) by simp
    next
      case (compiled d r targets h a)
      have d: "d = draft" using compiled(1) commits(1) by simp
      have h: "handle (plan_id draft) h" "store h = st" using loaded [OF ok] compiled(5) by (simp_all add: d)
      obtain ready h' where rt: "ready_tasks (plan_id draft) (task_graph draft) h = (ready, h')" by (metis surj_pair)
      show ?thesis
        using commit_fresh [OF commits(4) h(1) rt _ _ _ compiled(7), of targets] compiled(4,6,8) rt h(2)
        by (simp add: d commits(5))
    qed
  qed simp
qed

lemma iterate_fresh:
  assumes it: "xer_iterate v ans m x s = (res, x', s')" and ok: "store_ok (xe_store x)"
  shows "fresh_calls (xe_store x) (xe_store x') (iterate_accepts v ans m x s)"
proof (cases "xe_stopped x \<or> \<not> xe_triggered x")
  case True
  then show ?thesis by (simp add: iterate_accepts_def)
next
  case run: False
  show ?thesis
  proof (cases "apply_pending_completions (xe_pending x) (xe_plan_id x) (xe_inflight x) (xe_store x)")
    case (Inl e)
    then show ?thesis using run by (simp add: iterate_accepts_def)
  next
    case (Inr a)
    obtain os i mid where a: "a = (os, i, mid)" by (metis prod_cases3)
    have d: "evolves (xe_store x) mid" by (rule pending_drained(1) [OF Inr [unfolded a] ok])
    then have okm: "store_ok mid" by (simp add: evolves_def)
    obtain cr st2 n2 s2 where c: "run_x_er_cycle v ans m mid (xe_minted x) s = (cr, st2, n2, s2)" by (metis prod_cases4)
    have x': "xe_store x' = st2" using it run by (auto simp: xer_iterate_def Inr a c Let_def split: sum.splits prod.splits if_splits)
    show ?thesis using fresh_calls_before [OF cycle_fresh [OF c okm] d] run by (simp add: iterate_accepts_def Inr a x')
  qed
qed

lemma run_fresh:
  "store_ok (xe_store x) \<Longrightarrow> distinct (map fst (run_accepts v es x s)) \<and>
     (\<forall>pt \<in> fst ` set (run_accepts v es x s). \<exists>p t. pt = (p, Some t) \<and> stat (xe_store x) p t \<notin> set NON_EMITTABLE)"
proof (induction es arbitrary: x s)
  case (Cons e es)
  show ?case
  proof (cases e)
    case (GoalMsg d)
    then show ?thesis using Cons.IH [of "on_goal_result_msg d x" s] Cons.prems by simp
  next
    case (Iterate ans m)
    obtain res y s1 where it: "xer_iterate v ans m x s = (res, y, s1)" by (metis prod_cases3)
    have ev: "evolves (xe_store x) (xe_store y)" using iterate_turn [OF it Cons.prems] by blast
    then have ok: "store_ok (xe_store y)" by (simp add: evolves_def)
    have run: "RUNNING \<in> set NON_EMITTABLE" by (simp add: NON_EMITTABLE_def)
    let ?now = "iterate_accepts v ans m x s" and ?later = "run_accepts v es y s1"
    have now: "distinct (map fst ?now)" "\<And>pt. pt \<in> fst ` set ?now \<Longrightarrow>
        \<exists>p t. pt = (p, Some t) \<and> stat (xe_store x) p t \<notin> set NON_EMITTABLE \<and> stat (xe_store y) p t = RUNNING"
      using iterate_fresh [OF it Cons.prems] unfolding fresh_calls_def by blast+
    have later: "distinct (map fst ?later)" "\<And>pt. pt \<in> fst ` set ?later \<Longrightarrow>
        \<exists>p t. pt = (p, Some t) \<and> stat (xe_store y) p t \<notin> set NON_EMITTABLE"
      using Cons.IH [OF ok] by blast+
    have "fst ` set ?now \<inter> fst ` set ?later = {}" using now(2) later(2) run by fastforce
    moreover have "\<exists>p t. pt = (p, Some t) \<and> stat (xe_store x) p t \<notin> set NON_EMITTABLE" if "pt \<in> fst ` set ?now \<union> fst ` set ?later" for pt
      using that now(2) later(2) evolves_open [OF ev] by blast
    ultimately show ?thesis using now(1) later(1) by (simp add: Iterate it image_Un)
  qed
qed simp

text \<open>
  C4. Over any history of model answers, emergency states and goal results, the backend accepts at most one call for
  each task of a plan, and none for anything else. What it accepted is its own record: the run over a backend
  that writes down every request it accepts behaves the same and ends with this list, in which the calls
  of a turn that raises are included.
\<close>

theorem no_task_accepted_twice:
  "let acc = run_accepts v es init_xer s; (ens, x, s') = xer_run v es init_xer s in
     xer_run (recording v) es init_xer (s, []) = (ens, x, (s', map snd acc))
     \<and> distinct (map fst acc) \<and> list_all (\<lambda>((p, t), r). t \<noteq> None) acc"
proof -
  have "store_ok (xe_store init_xer)" by (simp add: init_xer_def store_ok_empty)
  note all = run_fresh [OF this, of v es s]
  then have "list_all (\<lambda>((p, t), r). t \<noteq> None) (run_accepts v es init_xer s)" by (fastforce simp: list_all_iff)
  then show ?thesis using all run_recorded [of v es init_xer s "[]"] by (simp add: Let_def split: prod.split)
qed

end
