(* ===== verification/PlanRun.thy ===== *)
theory PlanRun
  imports XErCycleProps
begin

text \<open>
  Whole runs of an accepted plan on the executor: in each round the ready tasks are offered, started and
  completed. An accepted plan is finished after at most as many rounds as it has tasks.
\<close>

section \<open>Rounds\<close>

fun finish_all :: "string \<Rightarrow> string list \<Rightarrow> exec_state \<Rightarrow> exec_state result" where
  "finish_all p [] s = Inr s"
| "finish_all p (t # ts) s = bindR (mark_running p t s) (\<lambda>s. bindR (mark_succeeded p t s) (finish_all p ts))"

definition plan_round :: "string \<Rightarrow> task_node list \<Rightarrow> exec_state \<Rightarrow> exec_state result" where
  "plan_round p nodes s = (let (ready, s) = ready_tasks p nodes s in finish_all p (map rt_id ready) s)"

fun plan_rounds :: "nat \<Rightarrow> string \<Rightarrow> task_node list \<Rightarrow> exec_state \<Rightarrow> exec_state result" where
  "plan_rounds 0 p nodes s = Inr s"
| "plan_rounds (Suc k) p nodes s = bindR (plan_round p nodes s) (plan_rounds k p nodes)"

lemma commit_status [simp]: "status_of (graph (commit p t st s)) u = (if u = t then st else status_of (graph s) u)"
  by (simp add: commit_def Let_def)

lemma finish_all_spec:
  assumes "distinct ts" and "\<forall>t \<in> set ts. status_of (graph s) t = READY"
  shows "\<exists>s'. finish_all p ts s = Inr s' \<and>
    (\<forall>u. status_of (graph s') u = (if u \<in> set ts then SUCCEEDED else status_of (graph s) u))"
  using assms
proof (induction ts arbitrary: s)
  case (Cons t ts)
  let ?s = "commit p t SUCCEEDED (commit p t RUNNING s)"
  have "finish_all p (t # ts) s = finish_all p ts ?s"
    using Cons.prems(2) by (simp add: mark_running_def mark_succeeded_def mark_terminal_def)
  moreover have "\<forall>u \<in> set ts. status_of (graph ?s) u = READY" "distinct ts" using Cons.prems by auto
  then obtain s' where s': "finish_all p ts ?s = Inr s'"
      "\<And>u. status_of (graph s') u = (if u \<in> set ts then SUCCEEDED else status_of (graph ?s) u)"
    using Cons.IH [of ?s] by blast
  moreover have "status_of (graph s') u = (if u \<in> set (t # ts) then SUCCEEDED else status_of (graph s) u)" for u
    by (simp add: s'(2))
  ultimately show ?case by metis
qed simp

section \<open>Progress\<close>

text \<open>Between rounds no task of the plan is running, failed or cancelled; the open ones are the measure.\<close>

definition quiet :: "task_node list \<Rightarrow> exec_state \<Rightarrow> bool" where
  "quiet nodes s \<longleftrightarrow> (\<forall>m \<in> set nodes. status_of (graph s) (node_id m) \<in> {PENDING, READY, SUCCEEDED})"

definition open_tasks :: "task_node list \<Rightarrow> exec_state \<Rightarrow> string set" where
  "open_tasks nodes s = {t \<in> node_id ` set nodes. status_of (graph s) t \<noteq> SUCCEEDED}"

lemma finite_open [simp]: "finite (open_tasks nodes s)"
  by (simp add: open_tasks_def)

lemma round_progress:
  assumes adm: "plan_admissible draft ctx" and q: "quiet (task_graph draft) s"
  shows "\<exists>s'. plan_round p (task_graph draft) s = Inr s' \<and> quiet (task_graph draft) s'
    \<and> (open_tasks (task_graph draft) s' \<subset> open_tasks (task_graph draft) s \<or>
       open_tasks (task_graph draft) s = {} \<and> open_tasks (task_graph draft) s' = {})"
proof -
  let ?ns = "task_graph draft"
  obtain ready r where l: "ready_loop ?ns [] (graph s) = (ready, r)" by (metis surj_pair)
  then obtain s1 where s1: "ready_tasks p ?ns s = (ready, s1)" "graph s1 = r" by (simp add: ready_tasks_def)
  have rd: "status_of r (rt_id x) = READY" "rt_id x \<in> node_id ` set ?ns" if "x \<in> set ready" for x
    using ready_loop_member [OF l that] by (auto simp: from_node_def)
  have dist: "distinct (map rt_id ready)" using ready_loop_all [OF l] by blast
  obtain s' where s': "finish_all p (map rt_id ready) s1 = Inr s'"
      "\<And>u. status_of (graph s') u = (if u \<in> rt_id ` set ready then SUCCEEDED else status_of r u)"
    using finish_all_spec [OF dist, of s1 p] rd(1) s1(2) by auto
  have keep: "status_of (graph s) u \<in> {PENDING, READY, SUCCEEDED} \<Longrightarrow> status_of r u \<in> {PENDING, READY, SUCCEEDED}" for u
    using ready_loop_effect [OF l, of u] by (auto simp: status_of_def)
  have "quiet ?ns s'" using q keep s'(2) by (auto simp: quiet_def)
  have ne: "SUCCEEDED \<in> set NON_EMITTABLE" "READY \<notin> set NON_EMITTABLE"
    by (simp_all add: NON_EMITTABLE_def TERMINAL_STATUSES_def)
  have fin: "status_of (graph s) u = SUCCEEDED \<Longrightarrow> status_of (graph s') u = SUCCEEDED" for u
    using ready_loop_same_class(2) [OF l, of u] s'(2) ne(1) by auto
  then have sub: "open_tasks ?ns s' \<subseteq> open_tasks ?ns s" by (auto simp: open_tasks_def)
  have strict: "open_tasks ?ns s' \<noteq> open_tasks ?ns s" if op: "open_tasks ?ns s \<noteq> {}"
  proof -
    obtain n where "n \<in> set ?ns" "status_of (graph s) (node_id n) \<noteq> SUCCEEDED" using op by (auto simp: open_tasks_def)
    moreover have "\<forall>m \<in> set ?ns. status_of (graph s) (node_id m) \<notin> {RUNNING, FAILED, CANCELLED}"
      using q unfolding quiet_def by fastforce
    ultimately have "fst (ready_tasks p ?ns s) \<noteq> []" by (rule admissible_progress [OF adm])
    then obtain x where x: "x \<in> set ready" using s1(1) by (cases ready) auto
    then have "status_of (graph s) (rt_id x) \<noteq> SUCCEEDED"
      using rd(1) [OF x] ready_loop_same_class(1) [OF l, of "rt_id x"] ne by auto
    then have "rt_id x \<in> open_tasks ?ns s" using rd(2) [OF x] by (simp add: open_tasks_def)
    moreover have "rt_id x \<notin> open_tasks ?ns s'" using x s'(2) by (simp add: open_tasks_def)
    ultimately show ?thesis by blast
  qed
  have "plan_round p ?ns s = Inr s'" using s1(1) s'(1) by (simp add: plan_round_def)
  then show ?thesis using \<open>quiet ?ns s'\<close> sub strict by blast
qed

lemma rounds_finish:
  assumes adm: "plan_admissible draft ctx" and "quiet (task_graph draft) s" and "card (open_tasks (task_graph draft) s) \<le> k"
  shows "\<exists>s'. plan_rounds k p (task_graph draft) s = Inr s' \<and> open_tasks (task_graph draft) s' = {}"
  using assms(2,3)
proof (induction k arbitrary: s)
  case 0
  then show ?case by simp
next
  case (Suc k)
  obtain s1 where s1: "plan_round p (task_graph draft) s = Inr s1" "quiet (task_graph draft) s1"
      "open_tasks (task_graph draft) s1 \<subset> open_tasks (task_graph draft) s \<or>
       open_tasks (task_graph draft) s = {} \<and> open_tasks (task_graph draft) s1 = {}"
    using round_progress [OF adm Suc.prems(1)] by blast
  then have "card (open_tasks (task_graph draft) s1) \<le> k"
    using Suc.prems(2) psubset_card_mono [of "open_tasks (task_graph draft) s" "open_tasks (task_graph draft) s1"] by fastforce
  from Suc.IH [OF s1(2) this] show ?case by (simp add: s1(1))
qed

text \<open>
  C29. An accepted plan terminates: if every offered task is started and succeeds, then after at most as many
  rounds as the plan has tasks nothing raised and every task of the plan has succeeded.
\<close>

theorem accepted_plan_terminates:
  assumes "make_policy (policy ctx) = Inr (policy ctx)" and "validate draft ctx = Inr rep" and "permits_dispatch rep"
  shows "\<exists>s. plan_rounds (length (task_graph draft)) p (task_graph draft) fresh_exec = Inr s
     \<and> (\<forall>n \<in> set (task_graph draft). status_of (graph s) (node_id n) = SUCCEEDED)"
proof -
  have adm: "plan_admissible draft ctx"
    using validate_spec [of ctx draft] assms by (auto simp: make_policy_def permits_dispatch_def split: if_splits)
  have q: "quiet (task_graph draft) fresh_exec" by (simp add: quiet_def fresh_exec_def status_of_def)
  have "open_tasks (task_graph draft) fresh_exec \<subseteq> node_id ` set (task_graph draft)" by (auto simp: open_tasks_def)
  then have "card (open_tasks (task_graph draft) fresh_exec) \<le> card (node_id ` set (task_graph draft))"
    by (intro card_mono) simp_all
  also have "\<dots> \<le> length (task_graph draft)" by (metis card_length length_map list.set_map)
  finally obtain s where "plan_rounds (length (task_graph draft)) p (task_graph draft) fresh_exec = Inr s"
      "open_tasks (task_graph draft) s = {}" using rounds_finish [OF adm q] by blast
  then show ?thesis by (auto simp: open_tasks_def)
qed

theorem accepted_plan_terminates_witness:
  "\<exists>s. plan_rounds (length (task_graph ex_draft)) ''p1'' (task_graph ex_draft) fresh_exec = Inr s
     \<and> (\<forall>n \<in> set (task_graph ex_draft). status_of (graph s) (node_id n) = SUCCEEDED)"
proof (rule accepted_plan_terminates [where ctx = ex_context and rep = "from_rules [] ex_draft"])
  show "make_policy (policy ex_context) = Inr (policy ex_context)"
    by (simp add: make_policy_def ex_context_def ex_policy_def)
  show "validate ex_draft ex_context = Inr (from_rules [] ex_draft)" by code_simp
  show "permits_dispatch (from_rules [] ex_draft)" by code_simp
qed

end
