(* ===== verification/StateCache.thy ===== *)
theory StateCache
  imports Situation
begin

text \<open>
  The state cache, \<open>warehouse_state/aggregator.py\<close> and the callbacks of \<open>state_cache.py\<close>: the latest good sample
  of every sensor per robot, the rings of emergency events, and the snapshot that the commander, the policy gate
  and the self-action gate read. What \<open>dict()\<close> makes of a list is the argument \<open>pairs\<close>; \<open>atan2\<close> is of \<open>lib\<close>.
\<close>

section \<open>Samples\<close>

record pose_sample =
  ps_x :: pyfloat
  ps_y :: pyfloat
  ps_qx :: pyfloat
  ps_qy :: pyfloat
  ps_qz :: pyfloat
  ps_qw :: pyfloat

record velocity_sample =
  vs_linear :: pyfloat
  vs_angular :: pyfloat

definition EMERGENCY_HISTORY_MAX :: nat where "EMERGENCY_HISTORY_MAX = 50"
definition EMERGENCY_ACTIVE_MAX :: nat where "EMERGENCY_ACTIVE_MAX = 50"

definition quaternion_to_yaw :: "libm \<Rightarrow> pyfloat \<Rightarrow> pyfloat \<Rightarrow> pyfloat \<Rightarrow> pyfloat \<Rightarrow> pyfloat" where
  "quaternion_to_yaw lib qx qy qz qw =
     (let siny_cosp = Fin 2 * (qw * qz + qx * qy); cosy_cosp = Fin 1 - Fin 2 * (qy * qy + qz * qz)
      in m_atan2 lib siny_cosp cosy_cosp)"

text \<open>\<open>min(valid)\<close> keeps the first of equal values.\<close>

definition min_valid_range :: "pyfloat list \<Rightarrow> pyfloat \<Rightarrow> pyfloat option \<Rightarrow> pyfloat option" where
  "min_valid_range ranges range_min range_max =
     (case filter (\<lambda>r. isfinite r \<and> range_min \<le> r \<and> (case range_max of None \<Rightarrow> True | Some m \<Rightarrow> r \<le> m)) ranges of
        [] \<Rightarrow> None
      | r # rs \<Rightarrow> Some (foldl (\<lambda>m x. if x < m then x else m) r rs))"

definition derive_status :: "pyfloat \<Rightarrow> string" where
  "derive_status speed = (if IDLE_SPEED_EPS < \<bar>speed\<bar> then ''moving'' else ''idle'')"

section \<open>The aggregator\<close>

record aggregator =
  ag_bots :: "string list"
  ag_scale :: string
  ag_pose :: "(string, pose_sample) pydict"
  ag_vel :: "(string, velocity_sample) pydict"
  ag_battery :: "(string, int) pydict"
  ag_obstacle :: "(string, pyfloat option) pydict"
  ag_active :: "pyval list"
  ag_history :: "pyval list"

definition make_aggregator :: "string list \<Rightarrow> string \<Rightarrow> aggregator result" where
  "make_aggregator bots scale =
     bindR (validate_battery_scale scale) (\<lambda>sc.
       Inr \<lparr>ag_bots = bots, ag_scale = sc, ag_pose = [], ag_vel = [], ag_battery = [], ag_obstacle = [],
            ag_active = [], ag_history = []\<rparr>)"

definition pose_finite :: "pose_sample \<Rightarrow> bool" where
  "pose_finite p \<longleftrightarrow> list_all isfinite [ps_x p, ps_y p, ps_qx p, ps_qy p, ps_qz p, ps_qw p]"

definition set_pose :: "string \<Rightarrow> pose_sample \<Rightarrow> aggregator \<Rightarrow> aggregator" where
  "set_pose b p a = (if pose_finite p then a\<lparr>ag_pose := AList.update b p (ag_pose a)\<rparr> else a)"

definition velocity_finite :: "velocity_sample \<Rightarrow> bool" where
  "velocity_finite v \<longleftrightarrow> isfinite (vs_linear v) \<and> isfinite (vs_angular v)"

definition set_velocity :: "string \<Rightarrow> velocity_sample \<Rightarrow> aggregator \<Rightarrow> aggregator" where
  "set_velocity b v a = (if velocity_finite v then a\<lparr>ag_vel := AList.update b v (ag_vel a)\<rparr> else a)"

definition set_battery :: "string \<Rightarrow> pyfloat \<Rightarrow> aggregator \<Rightarrow> aggregator result" where
  "set_battery b raw a =
     (case normalize_battery_percent raw (ag_scale a) of
        Inr n \<Rightarrow> Inr (a\<lparr>ag_battery := AList.update b n (ag_battery a)\<rparr>)
      | Inl e \<Rightarrow> if e = ValueError then Inr a else Inl e)"

definition set_scan :: "string \<Rightarrow> pyfloat list \<Rightarrow> pyfloat \<Rightarrow> pyfloat \<Rightarrow> aggregator \<Rightarrow> aggregator" where
  "set_scan b ranges lo hi a = a\<lparr>ag_obstacle := AList.update b (min_valid_range ranges lo (Some hi)) (ag_obstacle a)\<rparr>"

text \<open>\<open>xs[-n:]\<close> once the list is longer than \<open>n\<close>.\<close>

definition keep_last :: "nat \<Rightarrow> 'a list \<Rightarrow> 'a list" where
  "keep_last n xs = (if n < length xs then drop (length xs - n) xs else xs)"

text \<open>\<open>dict(raw)\<close> of parsed JSON.\<close>

definition event_dict :: "(pyval list \<Rightarrow> (string \<times> pyval) list result) \<Rightarrow> pyval \<Rightarrow> (string \<times> pyval) list result" where
  "event_dict pairs v =
     (case v of
        PDict d \<Rightarrow> Inr d
      | PList xs \<Rightarrow> if xs = [] then Inr [] else pairs xs
      | PStr s \<Rightarrow> if s = [] then Inr [] else Inl ValueError
      | _ \<Rightarrow> Inl TypeError)"

definition add_emergency :: "(pyval list \<Rightarrow> (string \<times> pyval) list result) \<Rightarrow> pyval \<Rightarrow> aggregator \<Rightarrow> aggregator result" where
  "add_emergency pairs raw a =
     bindR (event_dict pairs raw) (\<lambda>d.
       Inr (a\<lparr>ag_active := keep_last EMERGENCY_ACTIVE_MAX (ag_active a @ [PDict d]),
              ag_history := keep_last EMERGENCY_HISTORY_MAX (ag_history a @ [PDict d])\<rparr>))"

section \<open>The snapshot\<close>

definition is_complete :: "aggregator \<Rightarrow> string \<Rightarrow> bool" where
  "is_complete a b \<longleftrightarrow> map_of (ag_pose a) b \<noteq> None \<and> map_of (ag_vel a) b \<noteq> None \<and> map_of (ag_battery a) b \<noteq> None"

definition robot_dict :: "libm \<Rightarrow> aggregator \<Rightarrow> string \<Rightarrow> snapshot_robot option" where
  "robot_dict lib a b =
     (case (map_of (ag_pose a) b, map_of (ag_vel a) b, map_of (ag_battery a) b) of
        (Some p, Some v, Some n) \<Rightarrow>
          Some \<lparr>rs_x = ps_x p, rs_y = ps_y p, rs_linear = vs_linear v, rs_angular = vs_angular v,
                rs_heading = quaternion_to_yaw lib (ps_qx p) (ps_qy p) (ps_qz p) (ps_qw p),
                rs_status = derive_status (vs_linear v), rs_battery = n,
                rs_obstacle = (case map_of (ag_obstacle a) b of None \<Rightarrow> None | Some d \<Rightarrow> d)\<rparr>
      | _ \<Rightarrow> None)"

definition snapshot_robots :: "libm \<Rightarrow> aggregator \<Rightarrow> (string, snapshot_robot) pydict" where
  "snapshot_robots lib a = List.map_filter (\<lambda>b. map_option (Pair b) (robot_dict lib a b)) (ag_bots a)"

definition build_snapshot :: "libm \<Rightarrow> aggregator \<Rightarrow> string \<Rightarrow> raw_state result" where
  "build_snapshot lib a timestamp =
     bindR (validate_snapshot \<lparr>raw_typed = Some (timestamp, snapshot_robots lib a), raw_emergency = None\<rparr>) (\<lambda>s.
       Inr \<lparr>raw_typed = Some s,
            raw_emergency = Some (PDict [(''active'', PList (ag_active a)), (''history'', PList (ag_history a))])\<rparr>)"

text \<open>The file: \<open>model_dump\<close> with the emergency block.\<close>

definition dump_robot :: "snapshot_robot \<Rightarrow> pyval" where
  "dump_robot r = PDict
     [(''position'', PDict [(''x'', PFloat (rs_x r)), (''y'', PFloat (rs_y r))]),
      (''velocity'', PDict [(''linear'', PFloat (rs_linear r)), (''angular'', PFloat (rs_angular r))]),
      (''heading'', PFloat (rs_heading r)), (''status'', PStr (rs_status r)), (''battery'', PInt (rs_battery r)),
      (''obstacle_distance'', (case rs_obstacle r of None \<Rightarrow> PNone | Some d \<Rightarrow> PFloat d))]"

definition dump_snapshot :: "raw_state \<Rightarrow> (string \<times> pyval) list" where
  "dump_snapshot raw =
     (case raw_typed raw of
        None \<Rightarrow> []
      | Some (ts, robots) \<Rightarrow>
          [(''timestamp'', PStr ts), (''robots'', PDict (map (\<lambda>(b, r). (b, dump_robot r)) robots))]
          @ (case raw_emergency raw of None \<Rightarrow> [] | Some e \<Rightarrow> [(''emergency'', e)]))"

section \<open>The node's callbacks\<close>

datatype state_event =
    OnPose string pose_sample
  | OnOdom string velocity_sample
  | OnBattery string pyfloat
  | OnScan string "pyfloat list" pyfloat pyfloat
  | OnEmergency json_text

text \<open>A malformed document and a \<open>TypeError\<close> are dropped with a warning, other exceptions leave the callback.\<close>

fun state_step :: "(pyval list \<Rightarrow> (string \<times> pyval) list result) \<Rightarrow> state_event \<Rightarrow> aggregator \<Rightarrow> aggregator result" where
  "state_step pairs (OnPose b p) a = Inr (set_pose b p a)"
| "state_step pairs (OnOdom b v) a = Inr (set_velocity b v a)"
| "state_step pairs (OnBattery b x) a = set_battery b x a"
| "state_step pairs (OnScan b xs lo hi) a = Inr (set_scan b xs lo hi a)"
| "state_step pairs (OnEmergency doc) a =
     (case doc of
        None \<Rightarrow> Inr a
      | Some v \<Rightarrow> (case add_emergency pairs v a of Inr a' \<Rightarrow> Inr a' | Inl e \<Rightarrow> if e = TypeError then Inr a else Inl e))"

fun state_run :: "(pyval list \<Rightarrow> (string \<times> pyval) list result) \<Rightarrow> state_event list \<Rightarrow> aggregator \<Rightarrow> aggregator result" where
  "state_run pairs [] a = Inr a"
| "state_run pairs (e # es) a = bindR (state_step pairs e a) (state_run pairs es)"

end
