(* ===== verification/SelfAction.thy ===== *)
theory SelfAction
  imports Scheduler
begin

text \<open>
  Local agreements of Mode A: the structured conversation events of \<open>conversation_events.py\<close> and the gate that
  lets a robot act on itself, \<open>self_action_gate.py\<close>. Speech is never interpreted. \<open>str()\<close> of a value that is not
  a string and \<open>dict()\<close> of a list of pairs are the arguments \<open>conv\<close>; \<open>fromisoformat(text).timestamp()\<close> is
  \<open>ts_of\<close>. Metadata is checked and dropped; the log is recorded, its timestamps are left out.
\<close>

section \<open>Events\<close>

datatype local_action = WAIT_SELF | YIELD_TO_RETREAT_A | YIELD_TO_RETREAT_B | RELEASE_ROUTE_LOCK

fun local_action_value :: "local_action \<Rightarrow> string" where
  "local_action_value WAIT_SELF = ''wait_self''"
| "local_action_value YIELD_TO_RETREAT_A = ''yield_to_retreat_A''"
| "local_action_value YIELD_TO_RETREAT_B = ''yield_to_retreat_B''"
| "local_action_value RELEASE_ROUTE_LOCK = ''release_route_lock''"

datatype conversation_verdict = VERDICT_PENDING | VERDICT_ACCEPTED | VERDICT_REJECTED | VERDICT_UNKNOWN | VERDICT_VIOLATED

fun verdict_value :: "conversation_verdict \<Rightarrow> string" where
  "verdict_value VERDICT_PENDING = ''pending''"
| "verdict_value VERDICT_ACCEPTED = ''accepted''"
| "verdict_value VERDICT_REJECTED = ''rejected''"
| "verdict_value VERDICT_UNKNOWN = ''unknown''"
| "verdict_value VERDICT_VIOLATED = ''violated''"

definition FORBIDDEN_ACTION_FIELDS :: "string list" where
  "FORBIDDEN_ACTION_FIELDS = [''destination'', ''dropoff'', ''goal'', ''pose'', ''x'', ''y'', ''yaw'', ''coordinates'']"

record conv =
  cv_str :: "pyval \<Rightarrow> string"
  cv_pairs :: "pyval list \<Rightarrow> (string \<times> pyval) list result"

fun py_str :: "conv \<Rightarrow> pyval \<Rightarrow> string" where
  "py_str cv (PStr s) = s"
| "py_str cv v = cv_str cv v"

text \<open>\<open>dict(v or {})\<close>.\<close>

definition dict_or_empty :: "conv \<Rightarrow> pyval \<Rightarrow> (string \<times> pyval) list result" where
  "dict_or_empty cv v =
     (if \<not> truthy v then Inr []
      else case v of PDict d \<Rightarrow> Inr d | PList xs \<Rightarrow> cv_pairs cv xs | PStr _ \<Rightarrow> Inl ValueError | _ \<Rightarrow> Inl TypeError)"

text \<open>\<open>data[key]\<close>.\<close>

definition item_of :: "(string \<times> pyval) list \<Rightarrow> string \<Rightarrow> pyval result" where
  "item_of d k = (case map_of d k of None \<Rightarrow> Inl KeyError | Some v \<Rightarrow> Inr v)"

text \<open>An enumeration by its value.\<close>

definition by_value :: "('a \<Rightarrow> string) \<Rightarrow> 'a list \<Rightarrow> string \<Rightarrow> 'a result" where
  "by_value value xs s = (case find (\<lambda>x. value x = s) xs of None \<Rightarrow> Inl ValueError | Some x \<Rightarrow> Inr x)"

text \<open>An optional number: \<open>None\<close> stays, a number is converted, anything else is refused.\<close>

definition opt_number :: "pyval \<Rightarrow> pyfloat option result" where
  "opt_number v = (if v = PNone then Inr None else if \<not> is_number v then Inl ValueError
     else bindR (to_float v) (\<lambda>a. Inr (Some a)))"

record candidate_action =
  ca_action :: local_action
  ca_target :: string
  ca_duration :: "pyfloat option"
  ca_lock :: "string option"

definition candidate_from_dict :: "conv \<Rightarrow> (string \<times> pyval) list \<Rightarrow> candidate_action result" where
  "candidate_from_dict cv data =
     (if \<exists>k \<in> set FORBIDDEN_ACTION_FIELDS. k \<in> fst ` set data then Inl ValueError
      else bindR (item_of data ''action'') (\<lambda>a.
           bindR (by_value local_action_value [WAIT_SELF, YIELD_TO_RETREAT_A, YIELD_TO_RETREAT_B, RELEASE_ROUTE_LOCK] (py_str cv a)) (\<lambda>action.
             case dget data ''target'' of
               PStr target \<Rightarrow>
                 if target = [] then Inl ValueError
                 else bindR (opt_number (dget data ''duration'')) (\<lambda>duration.
                   (case dget data ''route_lock_id'' of
                      PNone \<Rightarrow> Inr \<lparr>ca_action = action, ca_target = target, ca_duration = duration, ca_lock = None\<rparr>
                    | PStr l \<Rightarrow> Inr \<lparr>ca_action = action, ca_target = target, ca_duration = duration, ca_lock = Some l\<rparr>
                    | _ \<Rightarrow> Inl ValueError))
             | _ \<Rightarrow> Inl ValueError)))"

record conversation_event =
  ce_event_id :: string
  ce_episode_id :: string
  ce_task_id :: "string option"
  ce_actor :: string
  ce_audience :: string
  ce_speech :: string
  ce_intent :: string
  ce_candidate :: "candidate_action option"
  ce_requires_ack :: bool
  ce_expires_at :: "pyfloat option"
  ce_state_ref :: "(string \<times> pyval) list"
  ce_verdict :: conversation_verdict

definition str_item :: "conv \<Rightarrow> (string \<times> pyval) list \<Rightarrow> string \<Rightarrow> string result" where
  "str_item cv d k = bindR (item_of d k) (\<lambda>v. Inr (py_str cv v))"

definition event_from_dict :: "conv \<Rightarrow> pyval \<Rightarrow> conversation_event result" where
  "event_from_dict cv v =
     (case v of
        PDict data \<Rightarrow>
          bindR (case dget data ''candidate_action'' of
                   PDict c \<Rightarrow> bindR (candidate_from_dict cv c) (\<lambda>c. Inr (Some c)) | _ \<Rightarrow> Inr None) (\<lambda>candidate.
          bindR (case map_of data ''verdict'' of
                   None \<Rightarrow> Inr VERDICT_PENDING
                 | Some x \<Rightarrow> by_value verdict_value
                     [VERDICT_PENDING, VERDICT_ACCEPTED, VERDICT_REJECTED, VERDICT_UNKNOWN, VERDICT_VIOLATED] (py_str cv x)) (\<lambda>verdict.
          bindR (opt_number (dget data ''expires_at'')) (\<lambda>expires.
          bindR (str_item cv data ''event_id'') (\<lambda>event_id.
          bindR (str_item cv data ''episode_id'') (\<lambda>episode_id.
          bindR (str_item cv data ''actor'') (\<lambda>actor.
          bindR (str_item cv data ''audience'') (\<lambda>audience.
          bindR (str_item cv data ''intent'') (\<lambda>intent.
          bindR (dict_or_empty cv (dget data ''state_ref'')) (\<lambda>state_ref.
          bindR (dict_or_empty cv (dget data ''metadata'')) (\<lambda>_.
            Inr \<lparr>ce_event_id = event_id, ce_episode_id = episode_id,
                 ce_task_id = (let t = dget data ''task_id'' in if t = PNone then None else Some (py_str cv t)),
                 ce_actor = actor, ce_audience = audience,
                 ce_speech = (case map_of data ''speech'' of None \<Rightarrow> [] | Some x \<Rightarrow> py_str cv x),
                 ce_intent = intent, ce_candidate = candidate, ce_requires_ack = truthy (dget data ''requires_ack''),
                 ce_expires_at = expires, ce_state_ref = state_ref, ce_verdict = verdict\<rparr>))))))))))
      | _ \<Rightarrow> Inl ValueError)"

definition DEFAULT_PERSONA_EVENT_TTL_SEC :: pyfloat where "DEFAULT_PERSONA_EVENT_TTL_SEC = Fin 5"

text \<open>
  A persona's payload gets its deadline and generation from the bridge: the stamped keys replace what it sent.
\<close>

definition event_from_persona ::
    "conv \<Rightarrow> pyval \<Rightarrow> pyval \<Rightarrow> pyfloat \<Rightarrow> pyval \<Rightarrow> (string \<times> pyval) list \<Rightarrow> conversation_event result" where
  "event_from_persona cv v gen_id now ttl_sec trusted =
     (case v of
        PDict data \<Rightarrow>
          (case gen_id of
             PInt g \<Rightarrow>
               if \<not> is_number ttl_sec then Inl ValueError
               else bindR (to_float ttl_sec) (\<lambda>ttl.
                 if \<not> isfinite ttl \<or> ttl \<le> Fin 0 then Inl ValueError
                 else event_from_dict cv (PDict (AList.update ''state_ref'' (PDict (AList.update ''gen_id'' (PInt g) trusted))
                        (AList.update ''expires_at'' (PFloat (now + ttl)) data))))
           | _ \<Rightarrow> Inl ValueError)
      | _ \<Rightarrow> Inl ValueError)"

section \<open>The gate\<close>

definition DEFAULT_MAX_WAIT_SECONDS :: pyfloat where "DEFAULT_MAX_WAIT_SECONDS = Fin 5"
definition DEFAULT_GEN_WINDOW :: int where "DEFAULT_GEN_WINDOW = 2"

fun retreat_of :: "local_action \<Rightarrow> string option" where
  "retreat_of YIELD_TO_RETREAT_A = Some ''retreat_A''"
| "retreat_of YIELD_TO_RETREAT_B = Some ''retreat_B''"
| "retreat_of _ = None"

record gate_decision =
  gd_accepted :: bool
  gd_reason :: "string option"
  gd_call :: "tool_request option"
  gd_result :: "payload option"

definition refuse :: "string \<Rightarrow> gate_decision" where
  "refuse why = \<lparr>gd_accepted = False, gd_reason = Some why, gd_call = None, gd_result = None\<rparr>"

definition permit :: "tool_request option \<Rightarrow> gate_decision" where
  "permit call = \<lparr>gd_accepted = True, gd_reason = None, gd_call = call, gd_result = None\<rparr>"

datatype log_row =
    ConversationRow conversation_event
  | LifecycleRow string conversation_event string int
  | ResultRow conversation_event bool "string option" payload

record self_gate =
  sg_locks :: "(string, string) pydict"
  sg_max_wait :: pyfloat
  sg_window :: int
  sg_fresh_after :: pyfloat
  sg_has_log :: bool
  sg_rows :: "log_row list"

text \<open>What one call of the gate reads: the state store, the clock and a fresh key.\<close>

record gate_view =
  gv_ts_of :: "string \<Rightarrow> pyfloat result"
  gv_state :: "snapshot option"
  gv_now :: pyfloat
  gv_key :: string

text \<open>\<open>state.get("robots") or {}\<close> with the actor in it; an active emergency that names the actor.\<close>

definition known_robot :: "pyval \<Rightarrow> string \<Rightarrow> bool" where
  "known_robot v actor = (case v of PDict d \<Rightarrow> actor \<in> fst ` set d | _ \<Rightarrow> False)"

definition names_robot :: "string \<Rightarrow> pyval \<Rightarrow> bool" where
  "names_robot actor item = (case item of PDict d \<Rightarrow> dget d ''robot'' = PStr actor | _ \<Rightarrow> False)"

definition listed_in_emergency :: "pyval \<Rightarrow> string \<Rightarrow> bool" where
  "listed_in_emergency v actor =
     (case v of
        PDict em \<Rightarrow> (case dget em ''active'' of PList items \<Rightarrow> list_ex (names_robot actor) items | _ \<Rightarrow> False)
      | _ \<Rightarrow> False)"

definition validate_live_state :: "gate_view \<Rightarrow> self_gate \<Rightarrow> string \<Rightarrow> string option result" where
  "validate_live_state w g actor =
     (case gv_state w of
        None \<Rightarrow> Inr (Some ''no_state_snapshot'')
      | Some state \<Rightarrow>
          (case dget state ''timestamp'' of
             PStr ts \<Rightarrow>
               if ts = [] then Inr (Some ''missing_state_timestamp'')
               else case gv_ts_of w ts of
                   Inl e \<Rightarrow> if e = ValueError then Inr (Some ''state_timestamp_corrupt'') else Inl e
                 | Inr t \<Rightarrow>
                     (let age = gv_now w - t in
                      if age < Fin 0 then Inr (Some ''state_timestamp_in_future'')
                      else if sg_fresh_after g < age then Inr (Some ''state_stale'')
                      else if \<not> known_robot (dget state ''robots'') actor then Inr (Some ''unknown_robot'')
                      else if listed_in_emergency (dget state ''emergency'') actor then Inr (Some ''robot_in_emergency'')
                      else Inr None)
           | _ \<Rightarrow> Inr (Some ''missing_state_timestamp'')))"

definition validate_common ::
    "gate_view \<Rightarrow> self_gate \<Rightarrow> conversation_event \<Rightarrow> candidate_action \<Rightarrow> int \<Rightarrow> string option result" where
  "validate_common w g ev c gen_id =
     (if ca_target c \<noteq> ce_actor ev then Inr (Some ''target_not_self'')
      else case ce_expires_at ev of
          None \<Rightarrow> Inr (Some ''missing_expires_at'')
        | Some deadline \<Rightarrow>
            if deadline < gv_now w then Inr (Some ''expired_event'')
            else case dget (ce_state_ref ev) ''gen_id'' of
                PInt ref_gen \<Rightarrow>
                  if sg_window g < \<bar>ref_gen - gen_id\<bar> then Inr (Some ''stale_state_ref'')
                  else validate_live_state w g (ce_actor ev)
              | _ \<Rightarrow> Inr (Some ''missing_state_ref_gen''))"

definition wait_decision :: "gate_view \<Rightarrow> self_gate \<Rightarrow> conversation_event \<Rightarrow> candidate_action \<Rightarrow> int \<Rightarrow> gate_decision" where
  "wait_decision w g ev c gen_id =
     (case ca_duration c of
        None \<Rightarrow> refuse ''missing_wait_duration''
      | Some duration \<Rightarrow>
          if \<not> isfinite duration \<or> duration \<le> Fin 0 then refuse ''invalid_wait_duration''
          else if sg_max_wait g < duration then refuse ''wait_duration_too_long''
          else permit (Some \<lparr>tr_tool = ''dispatch_task'', tr_args = [(''robot'', PStr (ce_actor ev)), (''action'', PStr ''wait''),
                 (''duration'', PFloat duration), (''gen_id'', PInt gen_id), (''idempotency_key'', PStr (gv_key w))]\<rparr>))"

definition yield_decision :: "gate_view \<Rightarrow> conversation_event \<Rightarrow> string \<Rightarrow> int \<Rightarrow> gate_decision" where
  "yield_decision w ev retreat gen_id =
     permit (Some \<lparr>tr_tool = ''dispatch_task'', tr_args = [(''robot'', PStr (ce_actor ev)), (''action'', PStr ''yield''),
       (''dropoff'', PStr retreat), (''gen_id'', PInt gen_id), (''idempotency_key'', PStr (gv_key w))]\<rparr>)"

definition release_lock_decision :: "self_gate \<Rightarrow> conversation_event \<Rightarrow> candidate_action \<Rightarrow> gate_decision" where
  "release_lock_decision g ev c =
     (case ca_lock c of
        None \<Rightarrow> refuse ''missing_route_lock_id''
      | Some lock_id \<Rightarrow>
          if lock_id = [] then refuse ''missing_route_lock_id''
          else if map_of (sg_locks g) lock_id \<noteq> Some (ce_actor ev) then refuse ''route_lock_not_owned''
          else permit None)"

definition self_validate :: "gate_view \<Rightarrow> self_gate \<Rightarrow> conversation_event \<Rightarrow> int \<Rightarrow> gate_decision result" where
  "self_validate w g ev gen_id =
     (case ce_candidate ev of
        None \<Rightarrow> Inr (refuse ''missing_candidate_action'')
      | Some c \<Rightarrow>
          bindR (validate_common w g ev c gen_id) (\<lambda>why.
            case why of
              Some r \<Rightarrow> Inr (refuse r)
            | None \<Rightarrow>
                Inr (case ca_action c of
                       WAIT_SELF \<Rightarrow> wait_decision w g ev c gen_id
                     | YIELD_TO_RETREAT_A \<Rightarrow> yield_decision w ev ''retreat_A'' gen_id
                     | YIELD_TO_RETREAT_B \<Rightarrow> yield_decision w ev ''retreat_B'' gen_id
                     | RELEASE_ROUTE_LOCK \<Rightarrow> release_lock_decision g ev c)))"

definition log_event :: "log_row \<Rightarrow> self_gate \<Rightarrow> self_gate" where
  "log_event row g = (if sg_has_log g then g\<lparr>sg_rows := sg_rows g @ [row]\<rparr> else g)"

definition execute_accepted ::
    "('s \<Rightarrow> tool_request \<Rightarrow> payload result \<times> 's) \<Rightarrow> candidate_action \<Rightarrow> gate_decision \<Rightarrow> self_gate \<Rightarrow> 's \<Rightarrow>
       payload result \<times> self_gate \<times> 's" where
  "execute_accepted exec c d g s =
     (if ca_action c = RELEASE_ROUTE_LOCK
      then (Inr [(''status'', PStr ''ok''), (''action'', PStr (local_action_value (ca_action c))),
                 (''route_lock_id'', opt_str (ca_lock c))],
            g\<lparr>sg_locks := AList.delete (case ca_lock c of None \<Rightarrow> [] | Some l \<Rightarrow> l) (sg_locks g)\<rparr>, s)
      else case gd_call d of
          None \<Rightarrow> (Inr [(''status'', PStr ''rejected''), (''reason'', PStr ''missing_tool_call'')], g, s)
        | Some call \<Rightarrow> (let (res, s) = exec s call in (res, g, s)))"

text \<open>\<open>result.get("reason", "rejected")\<close>; the tools give a string.\<close>

definition result_reason :: "payload \<Rightarrow> string" where
  "result_reason res = (case map_of res ''reason'' of Some (PStr r) \<Rightarrow> r | _ \<Rightarrow> ''rejected'')"

definition self_execute ::
    "('s \<Rightarrow> tool_request \<Rightarrow> payload result \<times> 's) \<Rightarrow> gate_view \<Rightarrow> conversation_event \<Rightarrow> int \<Rightarrow> self_gate \<Rightarrow> 's \<Rightarrow>
       gate_decision result \<times> self_gate \<times> 's" where
  "self_execute exec w ev gen_id g s =
     (let g = log_event (ConversationRow ev) g in
      case self_validate w g ev gen_id of
        Inl e \<Rightarrow> (Inl e, g, s)
      | Inr d \<Rightarrow>
          if \<not> gd_accepted d then (Inr d, log_event (ResultRow ev False (gd_reason d) []) g, s)
          else case ce_candidate ev of
              None \<Rightarrow> (Inr d, g, s)
            | Some c \<Rightarrow>
                (let act = local_action_value (ca_action c);
                     g = log_event (LifecycleRow ''local_agreement_created'' ev act gen_id) g
                 in case execute_accepted exec c d g s of
                      (Inl e, g, s) \<Rightarrow> (Inl e, g, s)
                    | (Inr res, g, s) \<Rightarrow>
                        (let good = is_ok res;
                             final = \<lparr>gd_accepted = good, gd_reason = (if good then None else Some (result_reason res)),
                                      gd_call = gd_call d, gd_result = Some res\<rparr>;
                             g = (if good then log_event (LifecycleRow ''local_agreement_executed'' ev act gen_id) g else g)
                         in (Inr final, log_event (ResultRow ev good (gd_reason final) res) g, s))))"

text \<open>A history: events with the generation at hand and what the gate sees; an exception leaves the gate usable.\<close>

fun self_run ::
    "(nat \<Rightarrow> 's \<Rightarrow> tool_request \<Rightarrow> payload result \<times> 's) \<Rightarrow> nat \<Rightarrow> (gate_view \<times> conversation_event \<times> int) list \<Rightarrow>
       self_gate \<Rightarrow> 's \<Rightarrow> gate_decision result list \<times> self_gate \<times> 's" where
  "self_run exec n [] g s = ([], g, s)"
| "self_run exec n ((w, ev, gen_id) # es) g s =
     (let (res, g, s) = self_execute (exec n) w ev gen_id g s;
          (rest, g, s) = self_run exec (Suc n) es g s
      in (res # rest, g, s))"

end
