(* ===== verification/SelfActionProps.thy ===== *)
theory SelfActionProps
  imports SelfAction SchedulerProps
begin

text \<open>
  What the self-action gate guarantees: exactly which events it lets through, that a persona cannot stretch its
  own deadline, that a route lock is only given up by its owner, and, over the tool server, that a robot only
  ever makes itself wait for a bounded time or retreat to one of two places.
\<close>

section \<open>What is let through\<close>

definition live_robot :: "gate_view \<Rightarrow> self_gate \<Rightarrow> string \<Rightarrow> bool" where
  "live_robot w g actor \<longleftrightarrow>
     (\<exists>state ts t. gv_state w = Some state \<and> dget state ''timestamp'' = PStr ts \<and> ts \<noteq> [] \<and> gv_ts_of w ts = Inr t
        \<and> \<not> gv_now w - t < Fin 0 \<and> \<not> sg_fresh_after g < gv_now w - t
        \<and> (\<exists>robots. dget state ''robots'' = PDict robots \<and> actor \<in> fst ` set robots)
        \<and> \<not> (\<exists>em items d. dget state ''emergency'' = PDict em \<and> dget em ''active'' = PList items
              \<and> PDict d \<in> set items \<and> dget d ''robot'' = PStr actor))"

definition own_action :: "self_gate \<Rightarrow> conversation_event \<Rightarrow> candidate_action \<Rightarrow> bool" where
  "own_action g ev c \<longleftrightarrow>
     (case ca_action c of
        WAIT_SELF \<Rightarrow> (\<exists>t. ca_duration c = Some t \<and> isfinite t \<and> \<not> t \<le> Fin 0 \<and> \<not> sg_max_wait g < t)
      | RELEASE_ROUTE_LOCK \<Rightarrow> (\<exists>l. ca_lock c = Some l \<and> l \<noteq> [] \<and> map_of (sg_locks g) l = Some (ce_actor ev))
      | _ \<Rightarrow> True)"

definition self_allowed :: "gate_view \<Rightarrow> self_gate \<Rightarrow> conversation_event \<Rightarrow> int \<Rightarrow> bool" where
  "self_allowed w g ev gen_id \<longleftrightarrow>
     (\<exists>c deadline r. ce_candidate ev = Some c \<and> ca_target c = ce_actor ev
        \<and> ce_expires_at ev = Some deadline \<and> \<not> deadline < gv_now w
        \<and> dget (ce_state_ref ev) ''gen_id'' = PInt r \<and> \<bar>r - gen_id\<bar> \<le> sg_window g
        \<and> live_robot w g (ce_actor ev) \<and> own_action g ev c)"

lemma decision_simps [simp]:
  "\<not> gd_accepted (refuse why)" "gd_accepted (permit call)" "gd_call (permit call) = call"
  by (simp_all add: refuse_def permit_def)

lemma known_robot_iff: "known_robot v a \<longleftrightarrow> (\<exists>d. v = PDict d \<and> a \<in> fst ` set d)"
  by (cases v) (auto simp: known_robot_def)

lemma names_robot_iff: "names_robot a item \<longleftrightarrow> (\<exists>d. item = PDict d \<and> dget d ''robot'' = PStr a)"
  by (cases item) (auto simp: names_robot_def)

lemma listed_iff:
  "listed_in_emergency v a \<longleftrightarrow>
     (\<exists>em items d. v = PDict em \<and> dget em ''active'' = PList items \<and> PDict d \<in> set items \<and> dget d ''robot'' = PStr a)"
  by (cases v) (auto simp: listed_in_emergency_def list_ex_iff names_robot_iff split: pyval.splits)

lemma live_state_iff: "validate_live_state w g a = Inr None \<longleftrightarrow> live_robot w g a"
proof (cases "gv_state w")
  case None
  then show ?thesis by (simp add: validate_live_state_def live_robot_def)
next
  case (Some state)
  show ?thesis
  proof (cases "dget state ''timestamp''")
    case (PStr ts)
    show ?thesis
    proof (cases "gv_ts_of w ts")
      case (Inl e)
      then show ?thesis by (simp add: validate_live_state_def live_robot_def Some PStr)
    next
      case (Inr t)
      show ?thesis
        unfolding validate_live_state_def live_robot_def
        unfolding known_robot_iff [symmetric] listed_iff [symmetric] by (simp add: Some PStr Inr Let_def)
    qed
  qed (simp_all add: validate_live_state_def live_robot_def Some)
qed

lemma common_iff:
  "validate_common w g ev c gen_id = Inr None \<longleftrightarrow>
     ca_target c = ce_actor ev \<and> (\<exists>deadline r. ce_expires_at ev = Some deadline \<and> \<not> deadline < gv_now w
        \<and> dget (ce_state_ref ev) ''gen_id'' = PInt r \<and> \<bar>r - gen_id\<bar> \<le> sg_window g \<and> live_robot w g (ce_actor ev))"
  by (auto simp: validate_common_def live_state_iff not_less split: option.splits pyval.splits)

lemma gate_accepts_iff:
  assumes "self_validate w g ev gen_id = Inr d"
  shows "gd_accepted d \<longleftrightarrow> self_allowed w g ev gen_id"
proof (cases "ce_candidate ev")
  case None
  then show ?thesis using assms by (auto simp: self_validate_def self_allowed_def)
next
  case (Some c)
  obtain why where why: "validate_common w g ev c gen_id = Inr why" using assms by (auto simp: self_validate_def Some bindR_Inr_iff)
  show ?thesis
  proof (cases why)
    case (Some r)
    then have "validate_common w g ev c gen_id \<noteq> Inr None" using why by simp
    then show ?thesis using assms why Some \<open>ce_candidate ev = Some c\<close> unfolding common_iff
      by (auto simp: self_validate_def self_allowed_def)
  next
    case None
    then have "gd_accepted d \<longleftrightarrow> own_action g ev c"
      using assms why Some
      by (auto simp: self_validate_def own_action_def wait_decision_def yield_decision_def release_lock_decision_def
          split: local_action.splits option.splits if_splits)
    then show ?thesis using why Some None common_iff [of w g ev c gen_id] by (auto simp: self_allowed_def)
  qed
qed

text \<open>
  C30. The gate lets an event through exactly when its candidate acts on the actor itself, its deadline has not
  passed, its generation is within the window, the actor is in a fresh snapshot and in no emergency, and the
  action is a finite positive wait up to the maximum, a retreat, or the release of a lock the actor owns.
\<close>

theorem self_action_allowed_iff:
  assumes "self_validate w g ev gen_id = Inr d"
  shows "gd_accepted d \<longleftrightarrow> self_allowed w g ev gen_id"
  by (rule gate_accepts_iff [OF assms])

lemma raising_not_allowed:
  assumes "self_validate w g ev gen_id = Inl e"
  shows "\<not> self_allowed w g ev gen_id"
proof
  assume "self_allowed w g ev gen_id"
  then obtain c where "ce_candidate ev = Some c" "validate_common w g ev c gen_id = Inr None"
    unfolding common_iff self_allowed_def by blast
  then show False using assms by (simp add: self_validate_def)
qed

definition sample_event :: conversation_event where
  "sample_event = \<lparr>ce_event_id = ''e1'', ce_episode_id = ''p1'', ce_task_id = None, ce_actor = ''bot1'', ce_audience = ''bot2'',
     ce_speech = [], ce_intent = ''yield'', ce_candidate = Some \<lparr>ca_action = WAIT_SELF, ca_target = ''bot1'',
       ca_duration = Some (Fin 2), ca_lock = None\<rparr>, ce_requires_ack = False, ce_expires_at = Some (Fin 105),
     ce_state_ref = [(''gen_id'', PInt 7)], ce_verdict = VERDICT_PENDING\<rparr>"

definition sample_view :: gate_view where
  "sample_view = \<lparr>gv_ts_of = (\<lambda>_. Inr (Fin 100)), gv_state = Some [(''timestamp'', PStr ''t''),
     (''robots'', PDict [(''bot1'', PDict [])])], gv_now = Fin 100, gv_key = ''k1''\<rparr>"

definition sample_self_gate :: self_gate where
  "sample_self_gate = \<lparr>sg_locks = [(''aisle'', ''bot1'')], sg_max_wait = DEFAULT_MAX_WAIT_SECONDS, sg_window = DEFAULT_GEN_WINDOW,
     sg_fresh_after = STALE_AFTER_S, sg_has_log = True, sg_rows = []\<rparr>"

definition sample_wait_call :: tool_request where
  "sample_wait_call = \<lparr>tr_tool = ''dispatch_task'', tr_args = [(''robot'', PStr ''bot1''), (''action'', PStr ''wait''),
     (''duration'', PFloat (Fin 2)), (''gen_id'', PInt 8), (''idempotency_key'', PStr ''k1'')]\<rparr>"

lemma sample_validated: "self_validate sample_view sample_self_gate sample_event 8 = Inr (permit (Some sample_wait_call))"
  by code_simp

theorem self_action_allowed_iff_witness:
  "gd_accepted (permit (Some sample_wait_call)) \<longleftrightarrow> self_allowed sample_view sample_self_gate sample_event 8"
  by (rule self_action_allowed_iff) (rule sample_validated)


section \<open>The envelope of a persona\<close>

text \<open>
  A persona cannot stretch its own deadline or vouch for its own state: whatever its payload says, the event
  carries the bridge's deadline and generation, and so the gate refuses it when the clock is past the stamped
  deadline or its generation is out of the window.
\<close>

theorem persona_envelope_holds:
  assumes "event_from_persona cv v (PInt g) now (PFloat ttl) trusted = Inr ev"
    and "self_validate w sg ev gen_id = Inr d" and "gd_accepted d"
  shows "isfinite ttl \<and> Fin 0 < ttl \<and> \<not> now + ttl < gv_now w \<and> \<bar>g - gen_id\<bar> \<le> sg_window sg"
proof -
  obtain data where data: "v = PDict data" using assms(1) by (cases v) (auto simp: event_from_persona_def)
  have ttl: "isfinite ttl" "\<not> ttl \<le> Fin 0" using assms(1) by (auto simp: event_from_persona_def data split: if_splits)
  have ev: "event_from_dict cv (PDict (AList.update ''state_ref'' (PDict (AList.update ''gen_id'' (PInt g) trusted))
      (AList.update ''expires_at'' (PFloat (now + ttl)) data))) = Inr ev"
    using assms(1) ttl by (simp add: event_from_persona_def data)
  have "ce_expires_at ev = Some (now + ttl)" "dget (ce_state_ref ev) ''gen_id'' = PInt g"
    using ev by (auto simp: event_from_dict_def bindR_Inr_iff opt_number_def dget_def update_conv' dict_or_empty_def
        update_nonempty split: if_splits)
  then have "\<not> now + ttl < gv_now w" "\<bar>g - gen_id\<bar> \<le> sg_window sg"
    using assms(3) gate_accepts_iff [OF assms(2)] by (auto simp: self_allowed_def)
  moreover have "Fin 0 < ttl" using ttl by (cases ttl) auto
  ultimately show ?thesis using ttl(1) by simp
qed

text \<open>
  C99. No event carries coordinates or a destination: a candidate with a key of the forbidden list, whatever else
  the payload says, raises and yields no event, from the trusted path and from a persona.
\<close>

theorem no_coordinate_authority:
  assumes "map_of data ''candidate_action'' = Some (PDict c)" and "k \<in> set FORBIDDEN_ACTION_FIELDS" and "k \<in> fst ` set c"
  shows "event_from_dict cv (PDict data) = Inl ValueError \<and> isl (event_from_persona cv (PDict data) g now ttl trusted)"
proof -
  have "candidate_from_dict cv c = Inl ValueError" using assms(2,3) by (auto simp: candidate_from_dict_def)
  then have raises: "map_of d ''candidate_action'' = Some (PDict c) \<Longrightarrow> event_from_dict cv (PDict d) = Inl ValueError" for d
    by (simp add: event_from_dict_def dget_def)
  moreover have "isl (event_from_persona cv (PDict data) g now ttl trusted)"
    by (cases g; cases "to_float ttl")
      (auto simp: event_from_persona_def update_conv' assms(1) intro!: raises [THEN arg_cong [where f = isl], simplified])
  ultimately show ?thesis using assms(1) by blast
qed

definition plain_conv :: conv where
  "plain_conv = \<lparr>cv_str = (\<lambda>_. []), cv_pairs = (\<lambda>_. Inl ValueError)\<rparr>"

definition sample_payload :: "(string \<times> pyval) list" where
  "sample_payload = [(''event_id'', PStr ''e1''), (''episode_id'', PStr ''p1''), (''actor'', PStr ''bot1''), (''audience'', PStr ''bot2''),
     (''intent'', PStr ''yield''), (''expires_at'', PInt 999), (''state_ref'', PDict [(''gen_id'', PInt 99)]),
     (''candidate_action'', PDict [(''action'', PStr ''wait_self''), (''target'', PStr ''bot1''), (''duration'', PInt 2)])]"

definition persona_event :: conversation_event where
  "persona_event = (case event_from_persona plain_conv (PDict sample_payload) (PInt 7) (Fin 100) (PFloat (Fin 5)) [] of
     Inr ev \<Rightarrow> ev | Inl _ \<Rightarrow> sample_event)"

theorem persona_envelope_holds_witness:
  "isfinite (Fin 5) \<and> Fin 0 < Fin 5 \<and> \<not> Fin 100 + Fin 5 < gv_now sample_view \<and> \<bar>7 - 8\<bar> \<le> sg_window sample_self_gate"
proof (rule persona_envelope_holds)
  show "event_from_persona plain_conv (PDict sample_payload) (PInt 7) (Fin 100) (PFloat (Fin 5)) [] = Inr persona_event"
    by code_simp
  show "self_validate sample_view sample_self_gate persona_event 8 = Inr (permit (Some sample_wait_call))" by code_simp
qed simp

theorem no_coordinate_authority_witness:
  "event_from_dict plain_conv (PDict [(''candidate_action'', PDict [(''action'', PStr ''wait_self''), (''pose'', PNone)])]) = Inl ValueError
   \<and> isl (event_from_persona plain_conv (PDict [(''candidate_action'', PDict [(''action'', PStr ''wait_self''), (''pose'', PNone)])])
        (PInt 7) (Fin 100) (PFloat (Fin 5)) [])"
  by (rule no_coordinate_authority [where k = "''pose''" and c = "[(''action'', PStr ''wait_self''), (''pose'', PNone)]"])
    (simp_all add: FORBIDDEN_ACTION_FIELDS_def)

section \<open>Route locks\<close>

lemma log_event_locks [simp]:
  "sg_locks (log_event row g) = sg_locks g" "sg_max_wait (log_event row g) = sg_max_wait g"
  "sg_window (log_event row g) = sg_window g" "sg_fresh_after (log_event row g) = sg_fresh_after g"
  by (simp_all add: log_event_def)

lemma log_event_allowed [simp]: "self_allowed w (log_event row g) ev k \<longleftrightarrow> self_allowed w g ev k"
proof -
  have "live_robot w (log_event row g) a \<longleftrightarrow> live_robot w g a" for a by (simp add: live_robot_def)
  moreover have "own_action (log_event row g) ev c \<longleftrightarrow> own_action g ev c" for c
    by (cases "ca_action c") (simp_all add: own_action_def)
  ultimately show ?thesis by (simp add: self_allowed_def)
qed

text \<open>The event releases the lock and the gate let it through.\<close>

definition releases :: "gate_view \<Rightarrow> self_gate \<Rightarrow> conversation_event \<Rightarrow> int \<Rightarrow> string \<Rightarrow> bool" where
  "releases w g ev gen_id l \<longleftrightarrow> self_allowed w g ev gen_id \<and> map_of (sg_locks g) l = Some (ce_actor ev)
     \<and> (\<exists>c. ce_candidate ev = Some c \<and> ca_action c = RELEASE_ROUTE_LOCK \<and> ca_lock c = Some l)"

lemma execute_locks:
  assumes "self_execute exec w ev gen_id g s = (res, g', s')"
  shows "map_of (sg_locks g') l = (if releases w g ev gen_id l then None else map_of (sg_locks g) l)
    \<and> sg_max_wait g' = sg_max_wait g"
proof -
  let ?g = "log_event (ConversationRow ev) g"
  consider (kept) "sg_locks g' = sg_locks g" "sg_max_wait g' = sg_max_wait g" "\<not> releases w g ev gen_id l"
    | (released) c l' where "ce_candidate ev = Some c" "ca_action c = RELEASE_ROUTE_LOCK" "ca_lock c = Some l'"
        "sg_locks g' = AList.delete l' (sg_locks g)" "self_allowed w g ev gen_id" "sg_max_wait g' = sg_max_wait g"
  proof (cases "self_validate w ?g ev gen_id")
    case (Inl e)
    then have "\<not> self_allowed w g ev gen_id" using raising_not_allowed [OF Inl] by simp
    then show ?thesis using kept assms Inl by (auto simp: self_execute_def releases_def Let_def)
  next
    case (Inr d)
    note iff = gate_accepts_iff [OF Inr, unfolded log_event_allowed]
    show ?thesis
    proof (cases "gd_accepted d")
      case False
      then show ?thesis using kept assms Inr iff by (auto simp: self_execute_def releases_def)
    next
      case True
      then obtain c where c: "ce_candidate ev = Some c" "own_action g ev c" using iff by (auto simp: self_allowed_def)
      show ?thesis
      proof (cases "ca_action c = RELEASE_ROUTE_LOCK")
        case rel: True
        then obtain l' where "ca_lock c = Some l'" using c(2) by (auto simp: own_action_def)
        then show ?thesis using released [of c l'] assms Inr True rel c iff
          by (auto simp: self_execute_def execute_accepted_def Let_def is_ok_def dget_def)
      next
        case other: False
        then show ?thesis using kept assms Inr True c(1)
          by (auto simp: self_execute_def execute_accepted_def Let_def releases_def split: option.splits prod.splits sum.splits)
      qed
    qed
  qed
  then show ?thesis
  proof cases
    case kept
    then show ?thesis by simp
  next
    case released
    then show ?thesis by (auto simp: releases_def map_of_delete self_allowed_def own_action_def)
  qed
qed

text \<open>
  A route lock is only given up by its owner: over any history of events, whatever the executor answers, a
  lock is still with its owner unless an event let through by the gate, from that owner, released exactly it;
  and no lock is ever handed to anybody else.
\<close>

theorem locks_released_by_owner:
  assumes "self_run exec n es g s = (rs, g', s')"
  shows "map_of (sg_locks g') l = map_of (sg_locks g) l \<or>
     map_of (sg_locks g') l = None \<and>
     list_ex (\<lambda>(w, ev, gen_id). map_of (sg_locks g) l = Some (ce_actor ev) \<and>
       (case ce_candidate ev of None \<Rightarrow> False
        | Some c \<Rightarrow> ca_action c = RELEASE_ROUTE_LOCK \<and> ca_lock c = Some l \<and> ca_target c = ce_actor ev)) es"
  using assms
proof (induction es arbitrary: n g s rs)
  case Nil
  then show ?case by simp
next
  case (Cons x es)
  obtain w ev gen_id where x: "x = (w, ev, gen_id)" by (metis prod_cases3)
  obtain r g1 s1 where e: "self_execute (exec n) w ev gen_id g s = (r, g1, s1)" by (metis prod_cases3)
  obtain rest where l: "self_run exec (Suc n) es g1 s1 = (rest, g', s')" using Cons.prems by (auto simp: x e split: prod.splits)
  note k = execute_locks [OF e, of l, THEN conjunct1]
  show ?case
  proof (cases "releases w g ev gen_id l")
    case True
    then have "map_of (sg_locks g1) l = None" using k by simp
    then have "map_of (sg_locks g') l = None" using Cons.IH [OF l] by (auto simp: list_ex_iff)
    then show ?thesis using True by (auto simp: x releases_def self_allowed_def)
  next
    case False
    then show ?thesis using Cons.IH [OF l] k by (auto simp: x)
  qed
qed

definition releasing_event :: conversation_event where
  "releasing_event = sample_event\<lparr>ce_candidate := Some \<lparr>ca_action = RELEASE_ROUTE_LOCK, ca_target = ''bot1'',
     ca_duration = None, ca_lock = Some ''aisle''\<rparr>\<rparr>"

definition silent_exec :: "nat \<Rightarrow> unit \<Rightarrow> tool_request \<Rightarrow> payload result \<times> unit" where
  "silent_exec n s r = (Inr [(''status'', PStr ''ok'')], s)"

definition lock_events :: "(gate_view \<times> conversation_event \<times> int) list" where
  "lock_events = [(sample_view, sample_event, 8), (sample_view, releasing_event, 8)]"

definition lock_history :: "gate_decision result list \<times> self_gate \<times> unit" where
  "lock_history = self_run silent_exec 0 lock_events sample_self_gate ()"

lemma lock_history_locks: "sg_locks (fst (snd lock_history)) = []"
  by code_simp

theorem locks_released_by_owner_witness:
  "sg_locks (fst (snd lock_history)) = [] \<and>
   (map_of (sg_locks (fst (snd lock_history))) ''aisle'' = map_of (sg_locks sample_self_gate) ''aisle'' \<or>
    map_of (sg_locks (fst (snd lock_history))) ''aisle'' = None \<and>
    list_ex (\<lambda>(w, ev, gen_id). map_of (sg_locks sample_self_gate) ''aisle'' = Some (ce_actor ev) \<and>
       (case ce_candidate ev of None \<Rightarrow> False
        | Some c \<Rightarrow> ca_action c = RELEASE_ROUTE_LOCK \<and> ca_lock c = Some ''aisle'' \<and> ca_target c = ce_actor ev))
      lock_events)"
proof
  have r: "self_run silent_exec 0 lock_events sample_self_gate ()
      = (fst lock_history, fst (snd lock_history), snd (snd lock_history))"
    unfolding lock_history_def by (simp only: prod.collapse)
  show "map_of (sg_locks (fst (snd lock_history))) ''aisle'' = map_of (sg_locks sample_self_gate) ''aisle'' \<or>
    map_of (sg_locks (fst (snd lock_history))) ''aisle'' = None \<and>
    list_ex (\<lambda>(w, ev, gen_id). map_of (sg_locks sample_self_gate) ''aisle'' = Some (ce_actor ev) \<and>
       (case ce_candidate ev of None \<Rightarrow> False
        | Some c \<Rightarrow> ca_action c = RELEASE_ROUTE_LOCK \<and> ca_lock c = Some ''aisle'' \<and> ca_target c = ce_actor ev))
      lock_events"
    by (rule locks_released_by_owner [OF r])
qed (rule lock_history_locks)

section \<open>Over the tool server\<close>

context tool_executor
begin

lemma self_execute_rel: "self_execute (exec n) w ev gen_id g s = (res, g', s') \<Longrightarrow> rel s s'"
  by (auto simp: self_execute_def execute_accepted_def Let_def rel_refl
      split: sum.splits prod.splits if_splits option.splits dest!: exec_relI)

lemma self_run_rel: "self_run exec n es g s = (rs, g', s') \<Longrightarrow> rel s s'"
proof (induction es arbitrary: n g s rs)
  case Nil
  then show ?case by (simp add: rel_refl)
next
  case (Cons x es)
  obtain w ev gen_id where x: "x = (w, ev, gen_id)" by (metis prod_cases3)
  obtain r g1 s1 where e: "self_execute (exec n) w ev gen_id g s = (r, g1, s1)" by (metis prod_cases3)
  obtain rest where l: "self_run exec (Suc n) es g1 s1 = (rest, g', s')" using Cons.prems by (auto simp: x e split: prod.splits)
  show ?case using rel_trans [OF self_execute_rel [OF e] Cons.IH [OF l]] .
qed

end

text \<open>What an accepted event may ask of the Nav2 bridge.\<close>

definition self_request :: "self_gate \<Rightarrow> conversation_event \<Rightarrow> nav2_request \<Rightarrow> bool" where
  "self_request g ev rq \<longleftrightarrow> dget (body rq) ''robot'' = PStr (ce_actor ev) \<and>
     (path rq = ''/api/v1/wait'' \<and> (\<exists>t. dget (body rq) ''duration'' = PFloat t \<and> \<not> sg_max_wait g < t \<and> isfinite t)
      \<or> path rq = ''/api/v1/navigate'' \<and> dget (body rq) ''destination'' \<in> {PStr ''retreat_A'', PStr ''retreat_B''})"

lemma wait_binds:
  "wire_call_of \<lparr>tr_tool = ''dispatch_task'', tr_args = [(''robot'', PStr a), (''action'', PStr ''wait''),
       (''duration'', PFloat t), (''gen_id'', PInt g), (''idempotency_key'', PStr k)]\<rparr>
   = Bound (DispatchTask (Some a) None None ''normal'' None ''wait'' (Some t))"
  by (simp add: wire_call_of_def bind_keywords_def dget_def)

lemma yield_binds:
  "wire_call_of \<lparr>tr_tool = ''dispatch_task'', tr_args = [(''robot'', PStr a), (''action'', PStr ''yield''),
       (''dropoff'', PStr r), (''gen_id'', PInt g), (''idempotency_key'', PStr k)]\<rparr>
   = Bound (DispatchTask (Some a) None (Some r) ''normal'' None ''yield'' None)"
  by (simp add: wire_call_of_def bind_keywords_def dget_def)

lemma wait_decision_call:
  "gd_call (wait_decision w g ev c gen_id) = Some call \<Longrightarrow>
     \<exists>t. wire_call_of call = Bound (DispatchTask (Some (ce_actor ev)) None None ''normal'' None ''wait'' (Some t))
       \<and> isfinite t \<and> \<not> sg_max_wait g < t"
  by (auto simp: wait_decision_def refuse_def permit_def wait_binds split: option.splits if_splits)

lemma self_call_cases:
  assumes "self_validate w g ev gen_id = Inr d" and "gd_accepted d" and "gd_call d = Some call"
  obtains t where "wire_call_of call = Bound (DispatchTask (Some (ce_actor ev)) None None ''normal'' None ''wait'' (Some t))"
      "isfinite t" "\<not> sg_max_wait g < t"
    | r where "wire_call_of call = Bound (DispatchTask (Some (ce_actor ev)) None (Some r) ''normal'' None ''yield'' None)"
      "r \<in> {''retreat_A'', ''retreat_B''}"
proof -
  obtain c where c: "ce_candidate ev = Some c" "own_action g ev c"
    using gate_accepts_iff [OF assms(1)] assms(2) by (auto simp: self_allowed_def)
  then obtain why where why: "validate_common w g ev c gen_id = Inr why" using assms(1) by (auto simp: self_validate_def bindR_Inr_iff)
  have "why = None" using assms(1,2) why c(1) by (cases why) (auto simp: self_validate_def)
  note d = assms(1) [unfolded self_validate_def c(1) option.case why bindR.simps this]
  show thesis
  proof (cases "ca_action c")
    case WAIT_SELF
    then show ?thesis using d assms(3) wait_decision_call that(1) by fastforce
  next
    case YIELD_TO_RETREAT_A
    then show ?thesis using d assms(3) that(2) by (auto simp: yield_decision_def permit_def yield_binds)
  next
    case YIELD_TO_RETREAT_B
    then show ?thesis using d assms(3) that(2) by (auto simp: yield_decision_def permit_def yield_binds)
  next
    case RELEASE_ROUTE_LOCK
    then show ?thesis using d assms(3)
      by (auto simp: release_lock_decision_def refuse_def permit_def split: option.splits if_splits)
  qed
qed

text \<open>
  C27. Over the tool server a robot only acts on itself: an executed event adds at most one request to what was
  forwarded, it names the actor, and it is a finite wait of at most the maximum or a retreat to A or B.
\<close>

theorem self_actions_only_self:
  assumes "self_execute (dispatch_execute parse_ts env n) w ev gen_id g s = (res, g', s')"
  shows "forwarded s' = forwarded s \<or> (\<exists>rq. forwarded s' = forwarded s @ [rq] \<and> self_request g ev rq)"
proof -
  let ?g = "log_event (ConversationRow ev) g"
  show ?thesis
  proof (cases "\<exists>d call c. self_validate w ?g ev gen_id = Inr d \<and> gd_accepted d \<and> gd_call d = Some call
      \<and> ce_candidate ev = Some c \<and> ca_action c \<noteq> RELEASE_ROUTE_LOCK")
    case False
    then have "s' = s" using assms
      by (auto simp: self_execute_def execute_accepted_def Let_def split: sum.splits prod.splits if_splits option.splits)
    then show ?thesis by simp
  next
    case True
    then obtain d call c where d: "self_validate w ?g ev gen_id = Inr d" "gd_accepted d" "gd_call d = Some call"
        "ce_candidate ev = Some c" "ca_action c \<noteq> RELEASE_ROUTE_LOCK" by blast
    have s': "s' = snd (dispatch_execute parse_ts env n s call)"
      using assms d by (auto simp: self_execute_def execute_accepted_def Let_def split: sum.splits prod.splits if_splits)
    have m: "sg_max_wait ?g = sg_max_wait g" by simp
    show ?thesis
      using d(1-3)
    proof (cases rule: self_call_cases)
      case (1 t)
      then show ?thesis
        using wire_forwarded_cases [of parse_ts "env n" s "wire_call_of call" "gen_arg call" "key_arg call"]
        by (auto simp: s' dispatch_execute_def self_request_def m)
    next
      case (2 r)
      then show ?thesis
        using wire_forwarded_cases [of parse_ts "env n" s "wire_call_of call" "gen_arg call" "key_arg call"]
        by (auto simp: s' dispatch_execute_def self_request_def)
    qed
  qed
qed


definition served_self :: "gate_decision result \<times> self_gate \<times> server" where
  "served_self = self_execute (dispatch_execute (\<lambda>_. IsoInvalid) (\<lambda>_. sample_env) 0) sample_view sample_event 8
     sample_self_gate sample_server"

theorem self_actions_only_self_witness:
  "forwarded (snd (snd served_self)) = forwarded sample_server \<or>
   (\<exists>rq. forwarded (snd (snd served_self)) = forwarded sample_server @ [rq] \<and> self_request sample_self_gate sample_event rq)"
proof (rule self_actions_only_self)
  show "self_execute (dispatch_execute (\<lambda>_. IsoInvalid) (\<lambda>_. sample_env) 0) sample_view sample_event 8
      sample_self_gate sample_server = (fst served_self, fst (snd served_self), snd (snd served_self))"
    unfolding served_self_def by (simp only: prod.collapse)
qed

section \<open>What the gate does not check\<close>

text \<open>
  The actor is part of the payload: a persona that names the other robot as actor and target makes that one wait.
  A deadline of NaN on the trusted path never passes, and a duration beyond the float range raises OverflowError
  out of the parser, which documents \<open>ValueError\<close>.
\<close>

lemma persona_acts_for_other:
  "event_from_persona plain_conv (PDict (AList.update ''actor'' (PStr other) (AList.update ''candidate_action''
      (PDict [(''action'', PStr ''yield_to_retreat_A''), (''target'', PStr other)]) sample_payload))) (PInt 7) (Fin 100) (PFloat (Fin 5)) []
   = Inr ev \<Longrightarrow> ce_actor ev = other \<and> (\<exists>c. ce_candidate ev = Some c \<and> ca_target c = other)"
  by (auto simp: event_from_persona_def sample_payload_def event_from_dict_def bindR_Inr_iff str_item_def item_of_def dget_def
      candidate_from_dict_def split: if_splits)

lemma nan_deadline_never_passes:
  "ce_expires_at ev = Some NaN \<Longrightarrow> ca_target c = ce_actor ev \<Longrightarrow> validate_common w g ev c gen_id \<noteq> Inr (Some ''expired_event'')"
proof -
  assume a: "ce_expires_at ev = Some NaN" "ca_target c = ce_actor ev"
  have "validate_live_state w g x \<noteq> Inr (Some ''expired_event'')" for x
    by (auto simp: validate_live_state_def Let_def split: option.splits pyval.splits sum.splits if_splits)
  then show ?thesis using a by (auto simp: validate_common_def split: pyval.splits)
qed

lemma huge_duration_overflows:
  "float_of_int n = Inl OverflowError \<Longrightarrow>
     candidate_from_dict plain_conv [(''action'', PStr ''wait_self''), (''target'', PStr ''bot1''), (''duration'', PInt n)] = Inl OverflowError"
  by (simp add: candidate_from_dict_def FORBIDDEN_ACTION_FIELDS_def item_of_def by_value_def opt_number_def dget_def)

end
