(* ===== verification/StateCacheProps.thy ===== *)
theory StateCacheProps
  imports StateCache SelfActionProps
begin

text \<open>
  What the state cache guarantees: its snapshot shows exactly the latest good samples, passes the validators of
  the commander, and carries the last fifty emergency events, so that the self-action gate refuses a robot that
  one of them names.
\<close>

section \<open>The latest good sample\<close>

text \<open>The specification: the last sample of a robot in the history that passes its check.\<close>

definition last_some :: "('a \<Rightarrow> 'b option) \<Rightarrow> 'a list \<Rightarrow> 'b option" where
  "last_some f xs = (case List.map_filter f (rev xs) of [] \<Rightarrow> None | y # _ \<Rightarrow> Some y)"

lemma last_some_simps [simp]:
  "last_some f [] = None" "last_some f (xs @ [x]) = (case f x of None \<Rightarrow> last_some f xs | Some y \<Rightarrow> Some y)"
  by (simp_all add: last_some_def List.map_filter_simps split: option.split)

fun good_pose :: "string \<Rightarrow> state_event \<Rightarrow> pose_sample option" where
  "good_pose b (OnPose b' p) = (if b' = b \<and> pose_finite p then Some p else None)"
| "good_pose b _ = None"

fun good_velocity :: "string \<Rightarrow> state_event \<Rightarrow> velocity_sample option" where
  "good_velocity b (OnOdom b' v) = (if b' = b \<and> velocity_finite v then Some v else None)"
| "good_velocity b _ = None"

fun good_battery :: "string \<Rightarrow> string \<Rightarrow> state_event \<Rightarrow> int option" where
  "good_battery sc b (OnBattery b' x) =
     (if b' = b then (case normalize_battery_percent x sc of Inr n \<Rightarrow> Some n | Inl _ \<Rightarrow> None) else None)"
| "good_battery sc b _ = None"

fun scan_distance :: "string \<Rightarrow> state_event \<Rightarrow> pyfloat option option" where
  "scan_distance b (OnScan b' xs lo hi) = (if b' = b then Some (min_valid_range xs lo (Some hi)) else None)"
| "scan_distance b _ = None"

fun recorded_event :: "(pyval list \<Rightarrow> (string \<times> pyval) list result) \<Rightarrow> state_event \<Rightarrow> pyval option" where
  "recorded_event pairs (OnEmergency (Some v)) = (case event_dict pairs v of Inr d \<Rightarrow> Some (PDict d) | Inl _ \<Rightarrow> None)"
| "recorded_event pairs _ = None"

lemma state_run_snoc: "state_run pairs (es @ [e]) a = bindR (state_run pairs es a) (state_step pairs e)"
proof (induction es arbitrary: a)
  case Nil
  show ?case by (cases "state_step pairs e a") simp_all
next
  case (Cons f es)
  then show ?case by (cases "state_step pairs f a") simp_all
qed

lemma keep_last_snoc: "keep_last n (keep_last n xs @ [x]) = keep_last n (xs @ [x])"
proof (cases "n < length xs")
  case True
  then show ?thesis by (simp add: keep_last_def Suc_diff_le)
next
  case False
  then show ?thesis by (cases "n = length xs") (simp_all add: keep_last_def)
qed

definition tracks :: "(pyval list \<Rightarrow> (string \<times> pyval) list result) \<Rightarrow> string list \<Rightarrow> string \<Rightarrow> state_event list \<Rightarrow> aggregator \<Rightarrow> bool" where
  "tracks pairs bots sc es a \<longleftrightarrow> ag_bots a = bots \<and> ag_scale a = sc
     \<and> (\<forall>b. map_of (ag_pose a) b = last_some (good_pose b) es \<and> map_of (ag_vel a) b = last_some (good_velocity b) es
          \<and> map_of (ag_battery a) b = last_some (good_battery sc b) es \<and> map_of (ag_obstacle a) b = last_some (scan_distance b) es)
     \<and> ag_active a = keep_last 50 (List.map_filter (recorded_event pairs) es)
     \<and> ag_history a = keep_last 50 (List.map_filter (recorded_event pairs) es)"

lemma map_filter_snoc: "List.map_filter f (xs @ [x]) = List.map_filter f xs @ (case f x of None \<Rightarrow> [] | Some y \<Rightarrow> [y])"
  by (induction xs) (auto simp: List.map_filter_simps split: option.split)

lemma step_tracks:
  assumes "tracks pairs bots sc es a" and "state_step pairs e a = Inr a'"
  shows "tracks pairs bots sc (es @ [e]) a'"
proof (cases e)
  case (OnPose b p)
  then show ?thesis using assms by (auto simp: tracks_def set_pose_def map_filter_snoc update_conv')
next
  case (OnOdom b v)
  then show ?thesis using assms by (auto simp: tracks_def set_velocity_def map_filter_snoc update_conv')
next
  case (OnBattery b x)
  then show ?thesis using assms
    by (auto simp: tracks_def set_battery_def map_filter_snoc update_conv' split: sum.splits if_splits)
next
  case (OnScan b xs lo hi)
  then show ?thesis using assms by (auto simp: tracks_def set_scan_def map_filter_snoc update_conv')
next
  case (OnEmergency doc)
  then show ?thesis using assms
    by (auto simp: tracks_def add_emergency_def map_filter_snoc bindR_Inr_iff bindR_Inl_iff keep_last_snoc
        EMERGENCY_ACTIVE_MAX_def EMERGENCY_HISTORY_MAX_def split: option.splits sum.splits if_splits)
qed

lemma run_tracks:
  assumes "make_aggregator bots sc = Inr a0" and "state_run pairs es a0 = Inr a"
  shows "tracks pairs bots sc es a"
  using assms(2)
proof (induction es arbitrary: a rule: rev_induct)
  case Nil
  then show ?case using assms(1)
    by (auto simp: make_aggregator_def bindR_Inr_iff tracks_def keep_last_def List.map_filter_simps validate_battery_scale_def
        split: if_splits)
next
  case (snoc e es)
  then show ?case using step_tracks by (auto simp: state_run_snoc bindR_Inr_iff)
qed

text \<open>What the specification says a snapshot shows of a robot.\<close>

definition latest_robot :: "libm \<Rightarrow> string \<Rightarrow> state_event list \<Rightarrow> string \<Rightarrow> snapshot_robot option" where
  "latest_robot lib sc es b =
     (case (last_some (good_pose b) es, last_some (good_velocity b) es, last_some (good_battery sc b) es) of
        (Some p, Some v, Some n) \<Rightarrow>
          Some \<lparr>rs_x = ps_x p, rs_y = ps_y p, rs_linear = vs_linear v, rs_angular = vs_angular v,
                rs_heading = quaternion_to_yaw lib (ps_qx p) (ps_qy p) (ps_qz p) (ps_qw p),
                rs_status = derive_status (vs_linear v), rs_battery = n,
                rs_obstacle = Option.bind (last_some (scan_distance b) es) id\<rparr>
      | _ \<Rightarrow> None)"

lemma tracked_robot: "tracks pairs bots sc es a \<Longrightarrow> robot_dict lib a b = latest_robot lib sc es b"
  by (simp add: robot_dict_def latest_robot_def tracks_def split: option.splits)

lemma snapshot_robots_map_of:
  "map_of (snapshot_robots lib a) b = (if b \<in> set (ag_bots a) then robot_dict lib a b else None)"
proof -
  have "map_of (List.map_filter (\<lambda>b. map_option (Pair b) (f b)) bs) b = (if b \<in> set bs then f b else None)" for f :: "string \<Rightarrow> snapshot_robot option" and bs
    by (induction bs) (auto simp: List.map_filter_simps split: option.splits)
  then show ?thesis by (simp add: snapshot_robots_def)
qed

lemma snapshot_shape:
  assumes "build_snapshot lib a ts = Inr raw"
  shows "raw_typed raw = Some (ts, snapshot_robots lib a)"
    and "raw_emergency raw = Some (PDict [(''active'', PList (ag_active a)), (''history'', PList (ag_history a))])"
  using assms by (auto simp: build_snapshot_def bindR_Inr_iff validate_snapshot_def split: if_splits)

text \<open>
  C15. The snapshot is the latest good picture: after any history of callbacks it shows a robot exactly when a
  finite pose, a finite velocity and a readable battery have arrived for it, each with its last good value and
  the distance of the last scan, and its emergency block lists the last fifty recorded events in order.
\<close>

theorem snapshot_is_latest_good:
  assumes "make_aggregator bots sc = Inr a0" and "state_run pairs es a0 = Inr a" and "build_snapshot lib a ts = Inr raw"
  shows "(case raw_typed raw of None \<Rightarrow> False | Some (t, robots) \<Rightarrow> t = ts \<and>
           map_of robots = (\<lambda>b. if b \<in> set bots then latest_robot lib sc es b else None))
     \<and> raw_emergency raw = Some (let log = keep_last 50 (List.map_filter (recorded_event pairs) es)
           in PDict [(''active'', PList log), (''history'', PList log)])"
proof -
  note t = run_tracks [OF assms(1,2)]
  have "map_of (snapshot_robots lib a) = (\<lambda>b. if b \<in> set bots then latest_robot lib sc es b else None)"
    using t tracked_robot [OF t] by (auto simp: snapshot_robots_map_of tracks_def)
  then show ?thesis using t snapshot_shape [OF assms(3)] by (simp add: tracks_def Let_def)
qed

section \<open>The commander can read it\<close>

lemma foldl_min_mem: "foldl (\<lambda>m x. if x < m then x else m) r xs \<in> set (r # xs)"
  by (induction xs arbitrary: r) auto

lemma min_valid_nonneg:
  assumes "min_valid_range xs lo hi = Some d" and "\<not> lo < Fin 0"
  shows "\<not> d < Fin 0"
proof -
  obtain r rs where f: "filter (\<lambda>r. isfinite r \<and> lo \<le> r \<and> (case hi of None \<Rightarrow> True | Some m \<Rightarrow> r \<le> m)) xs = r # rs"
      "d = foldl (\<lambda>m x. if x < m then x else m) r rs"
    using assms(1) by (auto simp: min_valid_range_def split: list.splits)
  have "d \<in> set (r # rs)" using foldl_min_mem [of r rs] f(2) by simp
  then have "lo \<le> d" unfolding f(1) [symmetric] by simp
  then show ?thesis using assms(2) fle_flt_trans by blast
qed

fun scan_sane :: "state_event \<Rightarrow> bool" where
  "scan_sane (OnScan b xs lo hi) = (\<not> lo < Fin 0)"
| "scan_sane _ = True"

lemma last_some_mem: "last_some f xs = Some y \<Longrightarrow> \<exists>x \<in> set xs. f x = Some y"
  by (induction xs rule: rev_induct) (auto split: option.splits)

text \<open>
  The callbacks an exception leaves: a battery fraction so large that its percentage overflows, a JSON string, and a
  JSON list that \<open>dict()\<close> refuses with anything but a \<open>TypeError\<close>.
\<close>

fun escapes :: "(pyval list \<Rightarrow> (string \<times> pyval) list result) \<Rightarrow> string \<Rightarrow> state_event \<Rightarrow> bool" where
  "escapes pairs sc (OnBattery b x) = (sc = BATTERY_SCALE_FRACTION \<and> isfinite x \<and> \<not> isfinite (x * Fin 100))"
| "escapes pairs sc (OnEmergency (Some (PStr s))) = (s \<noteq> [])"
| "escapes pairs sc (OnEmergency (Some (PList xs))) = (xs \<noteq> [] \<and> (case pairs xs of Inl e \<Rightarrow> e \<noteq> TypeError | Inr _ \<Rightarrow> False))"
| "escapes pairs sc _ = False"

lemma battery_escapes:
  assumes "sc \<in> set BATTERY_PERCENTAGE_SCALES"
  shows "(\<exists>e. normalize_battery_percent x sc = Inl e \<and> e \<noteq> ValueError) \<longleftrightarrow> sc = BATTERY_SCALE_FRACTION \<and> isfinite x \<and> \<not> isfinite (x * Fin 100)"
proof -
  have sc: "sc = BATTERY_SCALE_FRACTION \<or> sc = BATTERY_SCALE_PERCENT" using assms by (auto simp: BATTERY_PERCENTAGE_SCALES_def)
  show ?thesis
  proof (cases x)
    case (Fin q)
    have "fround (q * 100) \<noteq> NaN" by (simp add: fround_def Let_def)
    then show ?thesis using sc Fin
      by (cases "fround (q * 100)") (auto simp: normalize_battery_percent_def)
  qed (use sc in \<open>simp_all add: normalize_battery_percent_def\<close>)
qed

lemma step_escapes:
  assumes "sc \<in> set BATTERY_PERCENTAGE_SCALES" and "ag_scale a = sc"
  shows "(\<exists>x. state_step pairs e a = Inl x) \<longleftrightarrow> escapes pairs sc e"
proof (cases e)
  case (OnBattery b x)
  have "(\<exists>y. set_battery b x a = Inl y) \<longleftrightarrow> (\<exists>e. normalize_battery_percent x sc = Inl e \<and> e \<noteq> ValueError)"
    using assms(2) by (auto simp: set_battery_def split: sum.splits)
  then show ?thesis using battery_escapes [OF assms(1)] by (simp add: OnBattery)
next
  case (OnEmergency doc)
  show ?thesis
  proof (cases doc)
    case (Some v)
    then show ?thesis by (cases v) (auto simp: OnEmergency add_emergency_def event_dict_def split: sum.splits)
  qed (simp add: OnEmergency)
qed simp_all

lemma run_escapes:
  assumes "make_aggregator bots sc = Inr a0"
  shows "(\<exists>x. state_run pairs es a0 = Inl x) \<longleftrightarrow> list_ex (escapes pairs sc) es"
proof (induction es rule: rev_induct)
  case (snoc e es)
  have sc: "sc \<in> set BATTERY_PERCENTAGE_SCALES"
    using assms by (auto simp: make_aggregator_def validate_battery_scale_def bindR_Inr_iff split: if_splits)
  show ?case
  proof (cases "state_run pairs es a0")
    case (Inr a)
    have "ag_scale a = sc" using run_tracks [OF assms Inr] by (simp add: tracks_def)
    from step_escapes [OF sc this] show ?thesis using snoc Inr by (simp add: state_run_snoc)
  qed (use snoc in \<open>simp add: state_run_snoc\<close>)
qed simp

text \<open>A robot the snapshot would show with a negative obstacle distance, from its last scan.\<close>

definition negative_distance :: "string \<Rightarrow> state_event list \<Rightarrow> string \<Rightarrow> bool" where
  "negative_distance sc es b \<longleftrightarrow>
     last_some (good_pose b) es \<noteq> None \<and> last_some (good_velocity b) es \<noteq> None \<and> last_some (good_battery sc b) es \<noteq> None
     \<and> (case last_some (scan_distance b) es of Some (Some d) \<Rightarrow> d < Fin 0 | _ \<Rightarrow> False)"

lemma sane_scans_positive: "list_all scan_sane es \<Longrightarrow> \<not> negative_distance sc es b"
proof
  assume sane: "list_all scan_sane es" and "negative_distance sc es b"
  then obtain d where d: "last_some (scan_distance b) es = Some (Some d)" "d < Fin 0"
    by (auto simp: negative_distance_def split: option.splits)
  obtain e where e: "e \<in> set es" "scan_distance b e = Some (Some d)" using last_some_mem [OF d(1)] by blast
  have "scan_sane e" using sane e(1) by (simp add: list_all_iff)
  with e(2) d(2) show False by (cases e) (auto dest: min_valid_nonneg split: if_splits)
qed

definition finite_robot :: "snapshot_robot \<Rightarrow> bool" where
  "finite_robot r \<longleftrightarrow> isfinite (rs_x r) \<and> isfinite (rs_y r) \<and> isfinite (rs_linear r) \<and> isfinite (rs_angular r)"

lemma latest_robot_facts:
  assumes "latest_robot lib sc es b = Some r"
  shows "finite_robot r" and "snapshot_robot_ok r \<longleftrightarrow> \<not> negative_distance sc es b"
proof -
  from assms obtain p v n where l: "last_some (good_pose b) es = Some p" "last_some (good_velocity b) es = Some v"
      "last_some (good_battery sc b) es = Some n"
      "r = \<lparr>rs_x = ps_x p, rs_y = ps_y p, rs_linear = vs_linear v, rs_angular = vs_angular v,
              rs_heading = quaternion_to_yaw lib (ps_qx p) (ps_qy p) (ps_qz p) (ps_qw p),
              rs_status = derive_status (vs_linear v), rs_battery = n,
              rs_obstacle = Option.bind (last_some (scan_distance b) es) id\<rparr>"
    by (auto simp: latest_robot_def split: option.splits)
  obtain e1 e2 e3 where "good_pose b e1 = Some p" "good_velocity b e2 = Some v" "good_battery sc b e3 = Some n"
    using last_some_mem [OF l(1)] last_some_mem [OF l(2)] last_some_mem [OF l(3)] by blast
  then have ok: "pose_finite p" "velocity_finite v" "0 \<le> n \<and> n \<le> 100"
    using normalize_ok_range by (cases e1; cases e2; cases e3; auto split: if_splits sum.splits)+
  show "finite_robot r" using ok by (simp add: l(4) finite_robot_def pose_finite_def velocity_finite_def)
  show "snapshot_robot_ok r \<longleftrightarrow> \<not> negative_distance sc es b"
    using ok(3) l(1-3) by (auto simp: l(4) snapshot_robot_ok_def negative_distance_def split: option.splits)
qed

lemma shown_robots:
  assumes "tracks pairs bots sc es a"
  shows "(b, r) \<in> set (snapshot_robots lib a) \<longleftrightarrow> b \<in> set bots \<and> latest_robot lib sc es b = Some r"
proof -
  have "ag_bots a = bots" using assms by (simp add: tracks_def)
  then show ?thesis by (force simp: snapshot_robots_def map_filter_def tracked_robot [OF assms])
qed

lemma negative_shown: "negative_distance sc es b \<Longrightarrow> \<exists>r. latest_robot lib sc es b = Some r"
  by (auto simp: negative_distance_def latest_robot_def)

lemma robots_ok_iff:
  assumes "tracks pairs bots sc es a"
  shows "list_all (\<lambda>x. snapshot_robot_ok (snd x)) (snapshot_robots lib a) \<longleftrightarrow> \<not> list_ex (negative_distance sc es) bots"
proof
  assume ok: "list_all (\<lambda>x. snapshot_robot_ok (snd x)) (snapshot_robots lib a)"
  have "\<not> negative_distance sc es b" if b: "b \<in> set bots" for b
  proof
    assume n: "negative_distance sc es b"
    then obtain r where r: "latest_robot lib sc es b = Some r" using negative_shown by blast
    then have "(b, r) \<in> set (snapshot_robots lib a)" using shown_robots [OF assms] b by blast
    then have "snapshot_robot_ok r" using ok by (auto simp: list_all_iff)
    then show False using latest_robot_facts(2) [OF r] n by blast
  qed
  then show "\<not> list_ex (negative_distance sc es) bots" by (auto simp: list_ex_iff)
next
  assume none: "\<not> list_ex (negative_distance sc es) bots"
  have "snapshot_robot_ok r" if "(b, r) \<in> set (snapshot_robots lib a)" for b r
    using that none latest_robot_facts(2) unfolding shown_robots [OF assms] list_ex_iff by blast
  then show "list_all (\<lambda>x. snapshot_robot_ok (snd x)) (snapshot_robots lib a)" by (auto simp: list_all_iff)
qed

lemma robots_known:
  "tracks pairs bots sc es a \<Longrightarrow> list_all (\<lambda>(b, r). b \<in> set bots \<and> finite_robot r) (snapshot_robots lib a)"
  using latest_robot_facts(1) by (auto simp: list_all_iff shown_robots)

text \<open>
  C40. When the state cache writes a snapshot, over every history of callbacks. An exception leaves a callback exactly
  if the history has a battery fraction whose percentage overflows, a JSON string or a list that \<open>dict()\<close> refuses with
  something other than a \<open>TypeError\<close> as an emergency event. Otherwise the snapshot is built exactly if no robot it
  would show has a negative distance as its last scan, which no scan with a non-negative minimum range
  gives; and what is built passes the validators the situation builder applies, shows only known robots, and has
  finite positions and velocities.
\<close>

theorem snapshot_always_valid:
  assumes "make_aggregator bots sc = Inr a0"
  shows "(case state_run pairs es a0 of
       Inl e \<Rightarrow> list_ex (escapes pairs sc) es
     | Inr a \<Rightarrow> \<not> list_ex (escapes pairs sc) es \<and>
         (case build_snapshot lib a ts of
            Inl e \<Rightarrow> list_ex (negative_distance sc es) bots
          | Inr raw \<Rightarrow> \<not> list_ex (negative_distance sc es) bots \<and>
              (\<exists>s. validate_snapshot raw = Inr s \<and> list_all (\<lambda>(b, r). b \<in> set bots \<and> finite_robot r) (snd s))))
     \<and> (list_all scan_sane es \<longrightarrow> \<not> list_ex (negative_distance sc es) bots)"
proof
  show "list_all scan_sane es \<longrightarrow> \<not> list_ex (negative_distance sc es) bots"
    using sane_scans_positive by (auto simp: list_ex_iff)
next
  show "case state_run pairs es a0 of
       Inl e \<Rightarrow> list_ex (escapes pairs sc) es
     | Inr a \<Rightarrow> \<not> list_ex (escapes pairs sc) es \<and>
         (case build_snapshot lib a ts of
            Inl e \<Rightarrow> list_ex (negative_distance sc es) bots
          | Inr raw \<Rightarrow> \<not> list_ex (negative_distance sc es) bots \<and>
              (\<exists>s. validate_snapshot raw = Inr s \<and> list_all (\<lambda>(b, r). b \<in> set bots \<and> finite_robot r) (snd s)))"
  proof (cases "state_run pairs es a0")
    case (Inl e)
    then show ?thesis using run_escapes [OF assms, of pairs es] by simp
  next
    case (Inr a)
    note t = run_tracks [OF assms Inr]
    have quiet: "\<not> list_ex (escapes pairs sc) es" using run_escapes [OF assms, of pairs es] Inr by simp
    let ?robots = "snapshot_robots lib a"
    let ?raw = "\<lparr>raw_typed = Some (ts, ?robots),
      raw_emergency = Some (PDict [(''active'', PList (ag_active a)), (''history'', PList (ag_history a))])\<rparr>"
    note all = robots_ok_iff [OF t, of lib] and known = robots_known [OF t, of lib]
    show ?thesis
    proof (cases "list_all (\<lambda>x. snapshot_robot_ok (snd x)) ?robots")
      case True
      then have "build_snapshot lib a ts = Inr ?raw" "validate_snapshot ?raw = Inr (ts, ?robots)"
        by (simp_all add: build_snapshot_def validate_snapshot_def)
      then show ?thesis using quiet all True known by (simp add: Inr)
    next
      case False
      then have "build_snapshot lib a ts = Inl ValueError" by (simp add: build_snapshot_def validate_snapshot_def)
      then show ?thesis using quiet all False by (simp add: Inr)
    qed
  qed
qed

section \<open>Emergencies\<close>

text \<open>
  C24. An emergency event reaches the self-action gate: as long as fewer than fifty events have been recorded
  after one that names a robot, the gate that reads the cache's snapshot accepts nothing that robot asks for.
\<close>

theorem emergency_blocks_self_action:
  assumes "make_aggregator bots sc = Inr a0" and "state_run pairs (es @ OnEmergency (Some (PDict d)) # fs) a0 = Inr a"
    and "dget d ''robot'' = PStr (ce_actor ev)" and "length (List.map_filter (recorded_event pairs) fs) < 50"
    and "build_snapshot lib a ts = Inr raw" and "gv_state w = Some (dump_snapshot raw)"
    and "self_validate w g ev gen_id = Inr r"
  shows "\<not> gd_accepted r"
proof
  assume "gd_accepted r"
  then have ok: "live_robot w g (ce_actor ev)" by (auto simp: gate_accepts_iff [OF assms(7)] self_allowed_def)
  let ?rec = "List.map_filter (recorded_event pairs)"
  let ?log = "keep_last 50 (?rec (es @ OnEmergency (Some (PDict d)) # fs))"
  have "?rec (es @ OnEmergency (Some (PDict d)) # fs) = ?rec es @ PDict d # ?rec fs"
    by (simp add: List.map_filter_def event_dict_def)
  then have "PDict d \<in> set ?log" using assms(4) by (auto simp: keep_last_def)
  moreover have "dget (dump_snapshot raw) ''emergency'' = PDict [(''active'', PList ?log), (''history'', PList ?log)]"
    using snapshot_shape [OF assms(5)] run_tracks [OF assms(1,2)] by (simp add: dump_snapshot_def dget_def tracks_def)
  ultimately show False using ok assms(3,6) unfolding live_robot_def by (auto simp: dget_def)
qed

section \<open>A concrete history\<close>

definition no_pairs :: "pyval list \<Rightarrow> (string \<times> pyval) list result" where
  "no_pairs xs = Inl TypeError"

definition still_libm :: libm where
  "still_libm = \<lparr>m_hypot = (\<lambda>a b. 0), m_sin = (\<lambda>a. a), m_cos = (\<lambda>a. Fin 1), m_atan2 = (\<lambda>a b. a)\<rparr>"

definition upright :: pose_sample where
  "upright = \<lparr>ps_x = Fin 1, ps_y = Fin 2, ps_qx = 0, ps_qy = 0, ps_qz = 0, ps_qw = Fin 1\<rparr>"

definition sample_events :: "state_event list" where
  "sample_events =
     [OnPose ''bot1'' upright, OnOdom ''bot1'' \<lparr>vs_linear = 0, vs_angular = 0\<rparr>, OnBattery ''bot1'' (Fin 80),
      OnPose ''bot1'' (upright\<lparr>ps_x := NaN\<rparr>), OnScan ''bot1'' [PInf, Fin 3, Fin 2] (Fin (1/8)) (Fin 10)]"

definition sample_alarm :: "(string \<times> pyval) list" where
  "sample_alarm = [(''robot'', PStr ''bot1''), (''type'', PStr ''low_battery'')]"

definition alarmed :: aggregator where
  "alarmed = \<lparr>ag_bots = [''bot1'', ''bot2''], ag_scale = ''percent'', ag_pose = [(''bot1'', upright)],
     ag_vel = [(''bot1'', \<lparr>vs_linear = 0, vs_angular = 0\<rparr>)], ag_battery = [(''bot1'', 80)],
     ag_obstacle = [(''bot1'', Some (Fin 2))], ag_active = [PDict sample_alarm], ag_history = [PDict sample_alarm]\<rparr>"

definition fresh_aggregator :: aggregator where
  "fresh_aggregator = \<lparr>ag_bots = [''bot1'', ''bot2''], ag_scale = ''percent'', ag_pose = [], ag_vel = [],
     ag_battery = [], ag_obstacle = [], ag_active = [], ag_history = []\<rparr>"

definition alarmed_snapshot :: raw_state where
  "alarmed_snapshot = \<lparr>raw_typed = Some (''t'', snapshot_robots still_libm alarmed),
     raw_emergency = Some (PDict [(''active'', PList [PDict sample_alarm]), (''history'', PList [PDict sample_alarm])])\<rparr>"

lemma sample_made: "make_aggregator [''bot1'', ''bot2''] ''percent'' = Inr fresh_aggregator"
  by code_simp

lemma sample_state_run: "state_run no_pairs (sample_events @ OnEmergency (Some (PDict sample_alarm)) # []) fresh_aggregator = Inr alarmed"
  by code_simp

lemma sample_snapshot: "build_snapshot still_libm alarmed ''t'' = Inr alarmed_snapshot"
  by code_simp

theorem snapshot_is_latest_good_witness:
  "(case raw_typed alarmed_snapshot of None \<Rightarrow> False | Some (t, robots) \<Rightarrow> t = ''t'' \<and>
      map_of robots = (\<lambda>b. if b \<in> set [''bot1'', ''bot2'']
        then latest_robot still_libm ''percent'' (sample_events @ OnEmergency (Some (PDict sample_alarm)) # []) b else None))
   \<and> raw_emergency alarmed_snapshot = Some (let log = keep_last 50 (List.map_filter (recorded_event no_pairs)
          (sample_events @ OnEmergency (Some (PDict sample_alarm)) # []))
        in PDict [(''active'', PList log), (''history'', PList log)])"
  by (rule snapshot_is_latest_good [OF sample_made sample_state_run sample_snapshot])

theorem snapshot_always_valid_witness:
  "case build_snapshot still_libm alarmed ''t'' of
     Inl e \<Rightarrow> False
   | Inr raw \<Rightarrow> \<exists>s. validate_snapshot raw = Inr s \<and> list_all (\<lambda>(b, r). b \<in> set [''bot1'', ''bot2''] \<and> finite_robot r) (snd s)"
  using snapshot_always_valid [OF sample_made, of no_pairs "sample_events @ [OnEmergency (Some (PDict sample_alarm))]" still_libm "''t''"]
  by (simp add: sample_state_run sample_snapshot)

theorem emergency_blocks_self_action_witness:
  "\<not> gd_accepted (refuse ''robot_in_emergency'')"
proof (rule emergency_blocks_self_action [OF sample_made sample_state_run _ _ sample_snapshot,
      where ev = sample_event and w = "sample_view\<lparr>gv_state := Some (dump_snapshot alarmed_snapshot)\<rparr>" and g = sample_self_gate])
  show "self_validate (sample_view\<lparr>gv_state := Some (dump_snapshot alarmed_snapshot)\<rparr>) sample_self_gate sample_event 8
      = Inr (refuse ''robot_in_emergency'')" by code_simp
qed (simp_all add: sample_alarm_def sample_event_def dget_def List.map_filter_simps)

section \<open>Where the callbacks and their comments differ\<close>

text \<open>
  A JSON string on \<open>/emergency/event\<close> makes \<open>dict()\<close> raise \<open>ValueError\<close>, and the callback catches only a
  malformed document and \<open>TypeError\<close>.
\<close>

lemma text_event_escapes: "state_step pairs (OnEmergency (Some (PStr ''stop''))) a = Inl ValueError"
  by (simp add: add_emergency_def event_dict_def)

text \<open>A negative minimum range lets a negative distance through, which the snapshot refuses.\<close>

lemma negative_minimum_refused:
  "bindR (state_run no_pairs (sample_events @ [OnScan ''bot1'' [Fin (- 1)] (Fin (- 2)) (Fin 10)]) fresh_aggregator)
     (\<lambda>a. build_snapshot still_libm a ''t'') = Inl ValueError"
  by code_simp

text \<open>Finite quaternion components can overflow to a NaN heading, although the comment of \<open>set_pose\<close> says that a NaN never reaches the file.\<close>

lemma huge_quaternion_gives_nan:
  "quaternion_to_yaw lib (Fin (2 ^ 600)) (Fin (- (2 ^ 600))) (Fin (2 ^ 600)) (Fin (2 ^ 600)) = m_atan2 lib NaN NInf"
proof -
  have "overflow_bound \<le> 2 ^ 600 * 2 ^ 600" unfolding overflow_bound_def power_add [symmetric]
    by (rule power_increasing) simp_all
  then have big: "fround (2 ^ 600 * 2 ^ 600) = PInf" "fround (- (2 ^ 600 * 2 ^ 600)) = NInf"
    by (simp_all only: fround_big fround_minus uminus_pyfloat.simps)
  show ?thesis
    by (simp only: quaternion_to_yaw_def times_pyfloat.simps mult_minus_right mult_minus_left minus_minus big
        plus_pyfloat.simps Let_def minus_pyfloat_def) (simp add: minus_pyfloat_def)
qed

end
