(* ===== verification/TerrainProps.thy ===== *)
theory TerrainProps
  imports TerrainCore
begin

text \<open>
  What the terrain observer promises: a floor it confirms was seen, point by point, in every cell of the corridor
  up to the confirmed distance; a drop seen in the corridor is always reported; the virtual scan shows exactly the
  drop cells; the ground plane stays in the cone around the mounting prior; and a frame without a readable sample
  claims nothing.
\<close>

section \<open>Buckets\<close>

text \<open>The points that fall into a cell, in the order of the frame.\<close>

definition points_in :: "grid_params \<Rightarrow> pyfloat \<Rightarrow> int \<Rightarrow> int \<times> int \<Rightarrow> point3 list \<Rightarrow> point3 list" where
  "points_in g offset forward k pts = filter (\<lambda>p. cell_of g offset forward p = Inr (Some k)) pts"

definition or_none :: "'a list \<Rightarrow> 'a list option" where
  "or_none xs = (if xs = [] then None else Some xs)"

lemma bucket_add_map_of:
  "map_of (bucket_add k v d) k' = (if k' = k then Some ((case map_of d k of None \<Rightarrow> [] | Some vs \<Rightarrow> vs) @ [v]) else map_of d k')"
  by (simp add: bucket_add_def)

lemma fill_buckets_spec:
  assumes "fill_buckets g offset forward pl pts d = Inr b"
  shows "map_of b k = (case map_of d k of
      None \<Rightarrow> or_none (map (residual_of pl) (points_in g offset forward k pts))
    | Some vs \<Rightarrow> Some (vs @ map (residual_of pl) (points_in g offset forward k pts)))"
  using assms
proof (induction pts arbitrary: d)
  case Nil
  then show ?case by (simp add: points_in_def or_none_def split: option.split)
next
  case (Cons p pts)
  obtain key where key: "cell_of g offset forward p = Inr key"
      "fill_buckets g offset forward pl pts (case key of None \<Rightarrow> d | Some k \<Rightarrow> bucket_add k (residual_of pl p) d) = Inr b"
    using Cons.prems by (auto simp: bindR_Inr_iff)
  show ?case
    using Cons.IH [OF key(2)] key(1)
    by (cases key) (auto simp: points_in_def or_none_def bucket_add_map_of split: option.splits)
qed

lemma judge_lookup:
  "map_of (map (judge_cell g tol) d) k = map_option (\<lambda>rs. snd (judge_cell g tol (k, rs))) (map_of d k)"
  by (induction d) (auto simp: judge_cell_def Let_def)

definition residuals_in :: "terrain_params \<Rightarrow> ground_plane \<Rightarrow> int \<Rightarrow> point3 list \<Rightarrow> int \<times> int \<Rightarrow> pyfloat list" where
  "residuals_in tp pl forward pts k =
     map (residual_of pl) (points_in (tp_grid tp) (mg_offset (tp_mounting tp)) forward k pts)"

lemma classified:
  assumes "classify_cells tp pl pts = Inr g"
  shows "forward_cell_count (tp_grid tp) = Inr (tg_forward g)" and "corridor_lateral_indices (tp_grid tp) = Inr (tg_corridor g)"
    and "tg_cell_size g = gp_cell (tp_grid tp)"
    and "map_of (tg_cells g) k = map_option (\<lambda>rs. snd (judge_cell (tp_grid tp) (gf_tolerance (tp_fit tp)) (k, rs)))
           (or_none (residuals_in tp pl (tg_forward g) pts k))"
  using assms by (auto simp: classify_cells_def Let_def bindR_Inr_iff judge_lookup fill_buckets_spec residuals_in_def)

text \<open>What a cell may claim, stated on the points of the frame.\<close>

definition floor_seen :: "terrain_params \<Rightarrow> ground_plane \<Rightarrow> int \<Rightarrow> point3 list \<Rightarrow> int \<Rightarrow> int \<Rightarrow> bool" where
  "floor_seen tp pl forward pts ix iy \<longleftrightarrow>
     (let rs = residuals_in tp pl forward pts (ix, iy) in
      gp_min_points (tp_grid tp) \<le> int (length (filter (\<lambda>r. \<bar>r\<bar> \<le> gf_tolerance (tp_fit tp)) rs))
      \<and> filter (\<lambda>r. r \<le> - gp_drop (tp_grid tp)) rs = [])"

definition drop_seen :: "terrain_params \<Rightarrow> ground_plane \<Rightarrow> int \<Rightarrow> point3 list \<Rightarrow> int \<Rightarrow> int \<Rightarrow> bool" where
  "drop_seen tp pl forward pts ix iy \<longleftrightarrow>
     (let rs = residuals_in tp pl forward pts (ix, iy) in
      gp_min_points (tp_grid tp) \<le> int (length rs) \<and> filter (\<lambda>r. r \<le> - gp_drop (tp_grid tp)) rs \<noteq> [])"

lemma state_at_iff:
  assumes "classify_cells tp pl pts = Inr g" and "1 \<le> gp_min_points (tp_grid tp)"
  shows "state_at g ix iy = FLOOR_CONFIRMED \<longleftrightarrow> floor_seen tp pl (tg_forward g) pts ix iy"
    and "state_at g ix iy = DROP_DETECTED \<longleftrightarrow> drop_seen tp pl (tg_forward g) pts ix iy"
proof -
  let ?rs = "residuals_in tp pl (tg_forward g) pts (ix, iy)"
  have "\<not> (gp_min_points (tp_grid tp) \<le> int (length (filter (\<lambda>r. \<bar>r\<bar> \<le> gf_tolerance (tp_fit tp)) ?rs))
      \<and> int (length ?rs) < gp_min_points (tp_grid tp))"
    using length_filter_le [of "\<lambda>r. \<bar>r\<bar> \<le> gf_tolerance (tp_fit tp)" ?rs] by linarith
  then show "state_at g ix iy = FLOOR_CONFIRMED \<longleftrightarrow> floor_seen tp pl (tg_forward g) pts ix iy"
    and "state_at g ix iy = DROP_DETECTED \<longleftrightarrow> drop_seen tp pl (tg_forward g) pts ix iy"
    using assms(2) unfolding state_at_def classified(4) [OF assms(1)] floor_seen_def drop_seen_def
    by (auto simp: or_none_def judge_cell_def Let_def not_less)
qed

section \<open>Rows\<close>

lemma row_state_iff:
  "row_state g ix = FLOOR_CONFIRMED \<longleftrightarrow> tg_corridor g \<noteq> [] \<and> list_all (\<lambda>iy. state_at g ix iy = FLOOR_CONFIRMED) (tg_corridor g)"
  "row_state g ix = DROP_DETECTED \<longleftrightarrow> list_ex (\<lambda>iy. state_at g ix iy = DROP_DETECTED) (tg_corridor g)"
  by (cases "tg_corridor g"; auto simp: row_state_def Let_def list_all_iff list_ex_iff image_iff)+

lemma confirmed_run_nth: "i < confirmed_run ss \<Longrightarrow> i < length ss \<and> ss ! i = FLOOR_CONFIRMED"
  by (induction ss arbitrary: i) (auto simp: nth_Cons split: if_splits nat.splits)

lemma first_drop_le: "i < length ss \<Longrightarrow> ss ! i = DROP_DETECTED \<Longrightarrow> \<exists>j \<le> k + i. first_drop k ss = Some j"
proof (induction ss arbitrary: i k)
  case (Cons s ss)
  show ?case
  proof (cases i)
    case 0
    then show ?thesis using Cons.prems by simp
  next
    case (Suc n)
    then show ?thesis using Cons.IH [of n "Suc k"] Cons.prems by (cases "s = DROP_DETECTED") auto
  qed
qed simp

lemma row_states_nth:
  assumes "i < length (row_states g)"
  shows "row_states g ! i = row_state g (int i)" and "int i < tg_forward g"
  using assms by (auto simp: row_states_def)

lemma coverage_fields:
  assumes "terrain_coverage lib tp g pl fraction digest m = Inr cv"
  shows "cv_confirmed cv = (if gp_min_valid (tp_grid tp) \<le> fraction \<and> 0 < confirmed_run (row_states g)
           then Some (fint (int (confirmed_run (row_states g))) * tg_cell_size g) else None)"
    and "cv_nearest_drop cv = map_option (\<lambda>ix. fint (int ix) * tg_cell_size g) (first_drop 0 (row_states g))"
    and "cv_nearest_drop cv \<noteq> None \<Longrightarrow> cv_state cv = DROP_DETECTED"
  using assms by (auto simp: terrain_coverage_def Let_def split: if_splits)

lemma analyzed:
  assumes "analyze_depth_frame e tp s m rows = Inr ob"
  obtains pts where
    "back_project (fe_lib e) (tp_intrinsics tp) (tp_mounting tp) (dv_pixels (ob_validity ob)) = Inr pts"
    "ground_estimator (fe_lib e) (fe_draw e) (tp_fit tp) pts = Inr (ob_plane ob)"
    "classify_cells tp (ob_plane ob) pts = Inr (ob_grid ob)"
    "terrain_coverage (fe_lib e) tp (ob_grid ob) (ob_plane ob) (dv_fraction (ob_validity ob)) (dv_digest (ob_validity ob)) m
      = Inr (ob_coverage ob)"
    "cliff_ranges (fe_lib e) (ob_grid ob) s (fm_source_stamp_s m) = Inr (ob_cliff ob)"
    "depth_validity_of (fe_txt e) (fe_sha e) rows = Inr (ob_validity ob)"
  using assms by (auto simp: analyze_depth_frame_def bindR_Inr_iff)

text \<open>
  C7. A confirmed floor was seen: when the payload confirms a distance, it is a positive number of whole cells, the
  share of valid pixels reached its minimum, and in every cell of the corridor up to there at least the required
  number of points of the frame lies within the tolerance of the ground plane and none lies a drop below it.
\<close>

theorem floor_claim_is_backed:
  assumes "analyze_depth_frame e tp s m rows = Inr ob" and "1 \<le> gp_min_points (tp_grid tp)"
    and "back_project (fe_lib e) (tp_intrinsics tp) (tp_mounting tp) (dv_pixels (ob_validity ob)) = Inr pts"
    and "cv_confirmed (ob_coverage ob) = Some d"
  shows "gp_min_valid (tp_grid tp) \<le> dv_fraction (ob_validity ob) \<and> tg_corridor (ob_grid ob) \<noteq> []
     \<and> (\<exists>n > 0. d = fint n * gp_cell (tp_grid tp)
          \<and> list_all (\<lambda>ix. list_all (\<lambda>iy. floor_seen tp (ob_plane ob) (tg_forward (ob_grid ob)) pts ix iy)
               (tg_corridor (ob_grid ob))) [0..n - 1])"
proof (rule analyzed [OF assms(1)])
  fix pts' let ?g = "ob_grid ob" let ?n = "confirmed_run (row_states ?g)"
  assume "back_project (fe_lib e) (tp_intrinsics tp) (tp_mounting tp) (dv_pixels (ob_validity ob)) = Inr pts'"
  then have pts: "pts' = pts" using assms(3) by simp
  assume g: "classify_cells tp (ob_plane ob) pts' = Inr ?g"
    and cv: "terrain_coverage (fe_lib e) tp ?g (ob_plane ob) (dv_fraction (ob_validity ob)) (dv_digest (ob_validity ob)) m
      = Inr (ob_coverage ob)"
  have c: "gp_min_valid (tp_grid tp) \<le> dv_fraction (ob_validity ob)" "0 < ?n" "d = fint (int ?n) * gp_cell (tp_grid tp)"
    using assms(4) coverage_fields(1) [OF cv] classified(3) [OF g] by (auto split: if_splits)
  have row: "tg_corridor ?g \<noteq> [] \<and> list_all (\<lambda>iy. floor_seen tp (ob_plane ob) (tg_forward ?g) pts ix iy) (tg_corridor ?g)"
    if ix: "0 \<le> ix" "ix < int ?n" for ix
  proof -
    have i: "nat ix < ?n" using ix by linarith
    note r = confirmed_run_nth [OF i]
    have "row_state ?g ix = FLOOR_CONFIRMED" using r row_states_nth(1) [of "nat ix" ?g] ix(1) by simp
    then show ?thesis unfolding row_state_iff state_at_iff [OF g assms(2)] pts by simp
  qed
  have "tg_corridor ?g \<noteq> []" using row [of 0] c(2) by simp
  moreover have "list_all (\<lambda>ix. list_all (\<lambda>iy. floor_seen tp (ob_plane ob) (tg_forward ?g) pts ix iy) (tg_corridor ?g)) [0..int ?n - 1]"
    using row by (auto simp: list_all_iff)
  ultimately show ?thesis using c by (intro conjI exI [of _ "int ?n"]) simp_all
qed

text \<open>
  C8. A drop in the corridor is always reported: if enough points of the frame fall into a corridor cell and one
  lies a drop below the plane, the state is \<open>DROP_DETECTED\<close>, whatever the share of valid pixels, and the reported
  distance is the near edge of that row or of a nearer one.
\<close>

theorem corridor_drop_is_reported:
  assumes "analyze_depth_frame e tp s m rows = Inr ob" and "1 \<le> gp_min_points (tp_grid tp)"
    and "back_project (fe_lib e) (tp_intrinsics tp) (tp_mounting tp) (dv_pixels (ob_validity ob)) = Inr pts"
    and "iy \<in> set (tg_corridor (ob_grid ob))" and "drop_seen tp (ob_plane ob) (tg_forward (ob_grid ob)) pts ix iy"
  shows "cv_state (ob_coverage ob) = DROP_DETECTED
     \<and> (\<exists>j. 0 \<le> j \<and> j \<le> ix \<and> cv_nearest_drop (ob_coverage ob) = Some (fint j * gp_cell (tp_grid tp)))"
proof (rule analyzed [OF assms(1)])
  fix pts' let ?g = "ob_grid ob"
  assume "back_project (fe_lib e) (tp_intrinsics tp) (tp_mounting tp) (dv_pixels (ob_validity ob)) = Inr pts'"
  then have pts: "pts' = pts" using assms(3) by simp
  assume g: "classify_cells tp (ob_plane ob) pts' = Inr ?g"
    and cv: "terrain_coverage (fe_lib e) tp ?g (ob_plane ob) (dv_fraction (ob_validity ob)) (dv_digest (ob_validity ob)) m
      = Inr (ob_coverage ob)"
  have "residuals_in tp (ob_plane ob) (tg_forward ?g) pts (ix, iy) \<noteq> []"
    using assms(2,5) by (auto simp: drop_seen_def Let_def)
  then have ix: "0 \<le> ix" "ix < tg_forward ?g"
    by (auto simp: residuals_in_def points_in_def cell_of_def bindR_Inr_iff filter_empty_conv split: prod.splits if_splits)
  have "row_state ?g ix = DROP_DETECTED"
    unfolding row_state_iff(2) state_at_iff(2) [OF g assms(2)] pts using assms(4,5) by (auto simp: list_ex_iff)
  then have "nat ix < length (row_states ?g)" "row_states ?g ! nat ix = DROP_DETECTED"
    using ix by (simp_all add: row_states_def)
  from first_drop_le [OF this, of 0] obtain j where j: "j \<le> nat ix" "first_drop 0 (row_states ?g) = Some j" by auto
  then have "cv_nearest_drop (ob_coverage ob) = Some (fint (int j) * gp_cell (tp_grid tp))"
    using coverage_fields(2) [OF cv] classified(3) [OF g] by simp
  moreover have "int j \<le> ix" using j(1) ix by linarith
  ultimately show ?thesis using coverage_fields(3) [OF cv] by (intro conjI exI [of _ "int j"]) simp_all
qed

section \<open>The ground plane\<close>

text \<open>
  The specification, over the plane's three numbers: the cone of the mounting prior, the deviations of the
  points within the tolerance, their mean, and the planes that were drawn.
\<close>

definition in_cone :: "terrain_libm \<Rightarrow> fit_params \<Rightarrow> point3 \<Rightarrow> bool" where
  "in_cone lib gf m \<longleftrightarrow>
     (\<exists>a b c. m = (a, b, c) \<and> isfinite a \<and> isfinite b \<and> isfinite c
        \<and> \<not> gf_max_tilt gf < m_atan lib (m_hypot lib a b) \<and> \<bar>c\<bar> \<le> gf_max_offset gf)"

definition deviations :: "pyfloat \<Rightarrow> point3 list \<Rightarrow> point3 \<Rightarrow> pyfloat list" where
  "deviations tol pts m =
     filter (\<lambda>d. d \<le> tol) (map (\<lambda>(x, y, z). \<bar>z - (fst m * x + fst (snd m) * y + snd (snd m))\<bar>) pts)"

definition mean_of :: "pyfloat list \<Rightarrow> pyfloat" where
  "mean_of ds = (case fdiv (foldl (+) (Fin 0) ds) (fint (int (length ds))) of Inr q \<Rightarrow> q | Inl _ \<Rightarrow> NaN)"

definition fits_better :: "pyfloat \<Rightarrow> point3 list \<Rightarrow> point3 \<Rightarrow> point3 \<Rightarrow> bool" where
  "fits_better tol pts m k \<longleftrightarrow>
     (let dm = deviations tol pts m; dk = deviations tol pts k in
      length dk < length dm \<or> length dm = length dk \<and> dk \<noteq> [] \<and> mean_of dm < mean_of dk)"

definition drawn_planes :: "point3 list \<Rightarrow> (nat \<times> nat \<times> nat) list \<Rightarrow> point3 list" where
  "drawn_planes pts ts =
     List.map_filter (\<lambda>(i, j, k). case plane_from_triple (pts ! i) (pts ! j) (pts ! k) of Inr m \<Rightarrow> m | Inl _ \<Rightarrow> None) ts"

lemma in_cone_iff: "within_prior_cone lib gf m \<longleftrightarrow> in_cone lib gf m"
  by (cases m) (auto simp: within_prior_cone_def in_cone_def tilt_of_def)

lemma score_fold:
  "foldl (\<lambda>(n, t) p. let r = plane_residual m p in if r \<le> tol then (Suc n, t + r) else (n, t)) (n, t) pts
     = (n + length (deviations tol pts m), foldl (+) t (deviations tol pts m))"
proof (induction pts arbitrary: n t)
  case (Cons p pts)
  obtain a b c x y z where m: "m = (a, b, c)" "p = (x, y, z)" by (metis prod_cases3)
  show ?case using Cons by (simp add: m deviations_def plane_residual_def Let_def)
qed (simp add: deviations_def)

lemma score_deviations:
  "score_of tol pts m = (length (deviations tol pts m), if deviations tol pts m = [] then PInf else mean_of (deviations tol pts m))"
  by (simp add: score_of_def score_fold mean_of_def)

lemma better_score: "better (score_of tol pts m) (score_of tol pts k) \<longleftrightarrow> fits_better tol pts m k"
  by (auto simp: better_def score_deviations fits_better_def Let_def)

lemma fst_score [simp]: "fst (score_of tol pts m) = length (deviations tol pts m)"
  by (simp add: score_deviations)

lemma flt_trans: "a < b \<Longrightarrow> b < c \<Longrightarrow> a < (c :: pyfloat)"
  by (cases a; cases b; cases c) auto

lemma better_trans: "better a b \<Longrightarrow> better b c \<Longrightarrow> better a c"
  unfolding better_def using flt_trans by fastforce

lemma better_irrefl [simp]: "\<not> better a a"
  by (simp add: better_def)

lemma fit_loop_spec:
  assumes "fit_loop lib gf pts ts f = Inr f'" and "fs_score f = score_of (gf_tolerance gf) pts (fs_best f)" and "in_cone lib gf (fs_best f)"
  shows "fs_score f' = score_of (gf_tolerance gf) pts (fs_best f') \<and> in_cone lib gf (fs_best f')
     \<and> fs_best f' \<in> insert (fs_best f) (set (drawn_planes pts ts))
     \<and> (fs_score f' = fs_score f \<or> better (fs_score f') (fs_score f))
     \<and> list_all (\<lambda>m. \<not> better (score_of (gf_tolerance gf) pts m) (fs_score f')) (filter (in_cone lib gf) (drawn_planes pts ts))
     \<and> fs_rejected f' = fs_rejected f + length (filter (\<lambda>m. \<not> in_cone lib gf m) (drawn_planes pts ts))"
  using assms
proof (induction ts arbitrary: f)
  case Nil
  then show ?case by (auto simp: drawn_planes_def List.map_filter_simps)
next
  case (Cons t ts)
  obtain i j k where t: "t = (i, j, k)" by (cases t)
  obtain f1 where f1: "fit_step lib gf pts t f = Inr f1" "fit_loop lib gf pts ts f1 = Inr f'"
    using Cons.prems(1) by (auto simp: bindR_Inr_iff)
  obtain cand where c: "plane_from_triple (pts ! i) (pts ! j) (pts ! k) = Inr cand"
    using f1(1) by (auto simp: t fit_step_def bindR_Inr_iff)
  let ?score = "score_of (gf_tolerance gf) pts"
  have f1_eq: "f1 = (case cand of None \<Rightarrow> f
     | Some m \<Rightarrow> if \<not> in_cone lib gf m then f\<lparr>fs_rejected := Suc (fs_rejected f)\<rparr>
         else if better (?score m) (fs_score f) then f\<lparr>fs_best := m, fs_score := ?score m, fs_prior := False\<rparr> else f)"
    using f1(1) by (auto simp: t fit_step_def c in_cone_iff Let_def split: option.split)
  have step: "fs_score f1 = ?score (fs_best f1)" "in_cone lib gf (fs_best f1)"
      "fs_score f1 = fs_score f \<or> better (fs_score f1) (fs_score f)"
      "\<And>m. cand = Some m \<Longrightarrow> in_cone lib gf m \<Longrightarrow> \<not> better (?score m) (fs_score f1)"
      "fs_best f1 = fs_best f \<or> cand = Some (fs_best f1)"
      "fs_rejected f1 = fs_rejected f + (case cand of Some m \<Rightarrow> if in_cone lib gf m then 0 else 1 | None \<Rightarrow> 0)"
    using Cons.prems(2,3) by (auto simp: f1_eq better_def split: option.splits)
  note ih = Cons.IH [OF f1(2) step(1,2)]
  have up: "fs_score f' = fs_score f1 \<or> better (fs_score f') (fs_score f1)" using ih by auto
  have keep: "\<not> better x (fs_score f1) \<Longrightarrow> \<not> better x (fs_score f')" for x using up better_trans by metis
  have "fs_score f' = fs_score f \<or> better (fs_score f') (fs_score f)" using up step(3) better_trans by metis
  then show ?case using ih keep step(4-6) c
    by (cases cand) (auto simp: t drawn_planes_def List.map_filter_simps)
qed

text \<open>
  C16. The ground plane is the best one in the cone of the mounting prior. Its numbers are finite, its tilt and its
  offset are within their bounds, it is the prior or a plane drawn through three points, its inliers are the points
  that deviate from it by at most the tolerance, and neither the prior nor a drawn plane of the cone fits better:
  none has more points within the tolerance, and none with as many has a smaller mean deviation. The
  number of drawn planes outside the cone is reported.
\<close>

theorem plane_is_best_in_cone:
  assumes "ground_estimator lib draw gf pts = Inr g"
    and "\<not> gf_max_tilt gf < m_atan lib (m_hypot lib (Fin 0) (Fin 0))" and "Fin 0 \<le> gf_max_offset gf"
  shows "let m = (pl_a g, pl_b g, pl_c g); drawn = drawn_planes pts (draws_of draw gf (length pts)) in
     in_cone lib gf m \<and> m \<in> set (PRIOR # drawn)
     \<and> pl_inliers g = length (deviations (gf_tolerance gf) pts m)
     \<and> list_all (\<lambda>k. \<not> fits_better (gf_tolerance gf) pts k m) (filter (in_cone lib gf) (PRIOR # drawn))
     \<and> pl_rejected g = length (filter (\<lambda>k. \<not> in_cone lib gf k) drawn)"
proof -
  define m where "m = (pl_a g, pl_b g, pl_c g)"
  define drawn where "drawn = drawn_planes pts (draws_of draw gf (length pts))"
  let ?f = "\<lparr>fs_best = PRIOR, fs_score = score_of (gf_tolerance gf) pts PRIOR, fs_prior = True, fs_rejected = 0\<rparr>"
  obtain f where f: "fit_loop lib gf pts (draws_of draw gf (length pts)) ?f = Inr f"
      and g: "(case fs_best f of (a, b, c) \<Rightarrow> Inr \<lparr>pl_a = a, pl_b = b, pl_c = c, pl_inliers = fst (fs_score f),
        pl_points = length pts, pl_from_prior = fs_prior f, pl_rejected = fs_rejected f\<rparr>) = (Inr g :: ground_plane result)"
    using assms(1) by (auto simp only: ground_estimator_def bindR_Inr_iff)
  have r: "fs_best f = m" "pl_inliers g = fst (fs_score f)" "pl_rejected g = fs_rejected f"
    using g by (cases "fs_best f"; auto simp: m_def)+
  have prior: "in_cone lib gf PRIOR" using assms(2,3) by (simp add: in_cone_def PRIOR_def)
  note all = fit_loop_spec [OF f, simplified, OF prior, folded drawn_def, unfolded r(1)]
  have "\<not> better (score_of (gf_tolerance gf) pts PRIOR) (fs_score f)"
    using all better_trans better_irrefl by (metis (no_types))
  then show ?thesis using all r(2,3) prior unfolding Let_def m_def [symmetric] drawn_def [symmetric]
    by (auto simp: better_score list_all_iff)
qed

section \<open>The virtual scan\<close>

text \<open>
  The specification. A drop cell is shown at the distance of its near edge straight ahead and the middle of its
  width, on the ray into whose angular interval the bearing of its centre falls, if that distance is in the range window.
\<close>

definition drop_cells :: "terrain_grid \<Rightarrow> cell_obs list" where
  "drop_cells g = filter (\<lambda>c. tc_state c = DROP_DETECTED) (map snd (tg_cells g))"

definition edge_distance :: "terrain_libm \<Rightarrow> pyfloat \<Rightarrow> cell_obs \<Rightarrow> pyfloat" where
  "edge_distance lib sz c = m_hypot lib (fint (tc_ix c) * sz) ((fint (tc_iy c) + Fin (1/2)) * sz)"

definition on_ray :: "terrain_libm \<Rightarrow> pyfloat \<Rightarrow> scan_params \<Rightarrow> pyfloat \<Rightarrow> nat \<Rightarrow> cell_obs \<Rightarrow> bool" where
  "on_ray lib sz s inc i c \<longleftrightarrow>
     (\<exists>q. fdiv (m_atan2 lib ((fint (tc_iy c) + Fin (1/2)) * sz) ((fint (tc_ix c) + Fin (1/2)) * sz) - cs_angle_min s) inc = Inr q
        \<and> Fin (of_nat i) \<le> q + INDEX_EPS \<and> q + INDEX_EPS < Fin (of_nat i + 1))
     \<and> \<not> edge_distance lib sz c < cs_range_min s \<and> \<not> cs_range_max s < edge_distance lib sz c"

text \<open>What the loop computes.\<close>

definition seen_by :: "terrain_libm \<Rightarrow> pyfloat \<Rightarrow> scan_params \<Rightarrow> pyfloat \<Rightarrow> nat \<Rightarrow> cell_obs list \<Rightarrow> pyfloat list" where
  "seen_by lib sz s inc i cs = map (cell_distance lib sz) (filter (\<lambda>c. shown_at lib sz s inc c = Inr (Some i)) cs)"

lemma cliff_loop_spec:
  assumes "cliff_loop lib sz s inc cs st = Inr st'" and "length (ss_ranges st) = nat (cs_rays s)"
  shows "ss_ranges st' = map (\<lambda>i. least (ss_ranges st ! i) (seen_by lib sz s inc i (filter (\<lambda>c. tc_state c = DROP_DETECTED) cs)))
        [0..<nat (cs_rays s)]
     \<and> ss_drops st' = ss_drops st + length (filter (\<lambda>c. tc_state c = DROP_DETECTED) cs)
     \<and> ss_omitted st' = ss_omitted st
         + length (filter (\<lambda>c. shown_at lib sz s inc c = Inr None) (filter (\<lambda>c. tc_state c = DROP_DETECTED) cs))"
  using assms
proof (induction cs arbitrary: st)
  case Nil
  then show ?case by (auto simp: seen_by_def least_def intro: nth_equalityI)
next
  case (Cons c cs)
  obtain st1 where st1: "cliff_step lib sz s inc c st = Inr st1" "cliff_loop lib sz s inc cs st1 = Inr st'"
    using Cons.prems(1) by (auto simp: bindR_Inr_iff)
  have len: "length (ss_ranges st1) = nat (cs_rays s)"
    using st1(1) Cons.prems(2) by (auto simp: cliff_step_def bindR_Inr_iff Let_def split: if_splits option.splits)
  note ih = Cons.IH [OF st1(2) len]
  show ?case
  proof (cases "tc_state c = DROP_DETECTED")
    case False
    then show ?thesis using ih st1(1) by (simp add: cliff_step_def)
  next
    case True
    obtain slot where slot: "shown_at lib sz s inc c = Inr slot" using st1(1) True by (auto simp: cliff_step_def bindR_Inr_iff)
    show ?thesis
    proof (cases slot)
      case None
      then show ?thesis using ih st1(1) True slot by (auto simp: cliff_step_def seen_by_def)
    next
      case (Some i)
      have "i < nat (cs_rays s)" using slot Some by (auto simp: shown_at_def bindR_Inr_iff Let_def split: if_splits)
      then show ?thesis using ih st1(1) True slot Some Cons.prems(2)
        by (auto simp: cliff_step_def seen_by_def least_def Let_def nth_list_update)
    qed
  qed
qed

lemma floor_int_iff: "floor_int x = Inr (int i) \<longleftrightarrow> Fin (of_nat i) \<le> x \<and> x < Fin (of_nat i + 1)"
  by (cases x) (auto simp: floor_eq_iff)

lemma shown_iff: "shown_at lib sz s inc c = Inr (Some i) \<longleftrightarrow> i < nat (cs_rays s) \<and> on_ray lib sz s inc i c"
proof -
  have "shown_at lib sz s inc c = Inr (Some i) \<longleftrightarrow> ray_of lib sz s inc c = Inr (int i) \<and> i < nat (cs_rays s)
      \<and> \<not> edge_distance lib sz c < cs_range_min s \<and> \<not> cs_range_max s < edge_distance lib sz c"
    by (auto simp: shown_at_def bindR_Inr_iff Let_def cell_distance_def edge_distance_def split: if_splits
        intro!: exI [of _ "int i"])
  also have "ray_of lib sz s inc c = Inr (int i) \<longleftrightarrow>
     (\<exists>q. fdiv (m_atan2 lib ((fint (tc_iy c) + Fin (1/2)) * sz) ((fint (tc_ix c) + Fin (1/2)) * sz) - cs_angle_min s) inc = Inr q
        \<and> Fin (of_nat i) \<le> q + INDEX_EPS \<and> q + INDEX_EPS < Fin (of_nat i + 1))"
    by (simp add: ray_of_def bindR_Inr_iff floor_int_iff Let_def)
  finally show ?thesis by (auto simp: on_ray_def)
qed

lemma cliff_loop_returns:
  "cliff_loop lib sz s inc cs st = Inr st' \<Longrightarrow> c \<in> set cs \<Longrightarrow> tc_state c = DROP_DETECTED \<Longrightarrow> \<exists>slot. shown_at lib sz s inc c = Inr slot"
  by (induction cs arbitrary: st) (auto simp: bindR_Inr_iff cliff_step_def)

lemma least_facts: "least x ys \<in> insert x (set ys) \<and> (least x ys = x \<or> least x ys < x) \<and> (\<forall>y \<in> set ys. \<not> y < least x ys)"
proof (induction ys arbitrary: x)
  case (Cons y ys)
  let ?l = "least x (y # ys)"
  have l: "?l = least (if y < x then y else x) ys" by (simp add: least_def)
  show ?case
  proof (cases "y < x")
    case True
    then have ih: "?l \<in> insert y (set ys)" "?l = y \<or> ?l < y" "\<forall>z \<in> set ys. \<not> z < ?l" using Cons [of y] l by simp_all
    have "?l < x" using ih(2) True flt_trans by metis
    moreover have "\<not> y < ?l" using ih(2) flt_trans [of y ?l y] by auto
    ultimately show ?thesis using ih(1,3) by simp
  next
    case False
    then have ih: "?l \<in> insert x (set ys)" "?l = x \<or> ?l < x" "\<forall>z \<in> set ys. \<not> z < ?l" using Cons [of x] l by simp_all
    have "\<not> y < ?l" using ih(2) False flt_trans [of y ?l x] by auto
    then show ?thesis using ih by auto
  qed
qed (simp add: least_def)

text \<open>
  C23. The virtual scan is exact. A ray carries infinity or the distance of a drop cell on it, and no drop cell on it
  is nearer, so a cell that was not observed is never drawn and the nearest drop is never hidden. The
  distance is to the near edge ahead and the middle of the cell sideways. Every drop cell is counted, and those
  on no ray of the scan are counted apart.
\<close>

theorem cliff_scan_is_exact:
  assumes "cliff_ranges lib g s stamp = Inr sc"
  shows "let dist = edge_distance lib (tg_cell_size g); on = on_ray lib (tg_cell_size g) s (sc_increment sc) in
     length (sc_ranges sc) = nat (cs_rays s)
     \<and> (\<forall>i < nat (cs_rays s). (\<forall>c \<in> set (drop_cells g). on i c \<longrightarrow> \<not> dist c < sc_ranges sc ! i)
          \<and> (sc_ranges sc ! i = PInf \<or> (\<exists>c \<in> set (drop_cells g). on i c \<and> sc_ranges sc ! i = dist c)))
     \<and> sc_drops sc = length (drop_cells g)
     \<and> sc_omitted sc = length (filter (\<lambda>c. \<forall>i < nat (cs_rays s). \<not> on i c) (drop_cells g))"
proof -
  define dist where "dist = edge_distance lib (tg_cell_size g)"
  define on where "on = on_ray lib (tg_cell_size g) s (sc_increment sc)"
  let ?shown = "shown_at lib (tg_cell_size g) s (sc_increment sc)"
  obtain st where st: "cliff_loop lib (tg_cell_size g) s (sc_increment sc) (map snd (tg_cells g))
        \<lparr>ss_ranges = replicate (nat (cs_rays s)) PInf, ss_drops = 0, ss_omitted = 0\<rparr> = Inr st"
      "sc_ranges sc = ss_ranges st" "sc_drops sc = ss_drops st" "sc_omitted sc = ss_omitted st"
    using assms by (auto simp: cliff_ranges_def bindR_Inr_iff)
  have raw: "sc_ranges sc = map (\<lambda>i. least PInf (seen_by lib (tg_cell_size g) s (sc_increment sc) i (drop_cells g))) [0..<nat (cs_rays s)]"
      "sc_drops sc = length (drop_cells g)" "sc_omitted sc = length (filter (\<lambda>c. ?shown c = Inr None) (drop_cells g))"
    using cliff_loop_spec [OF st(1)] st(2-4) by (simp_all add: drop_cells_def cong: map_cong)
  have returns: "\<exists>slot. ?shown c = Inr slot" if "c \<in> set (drop_cells g)" for c
    using cliff_loop_returns [OF st(1)] that by (auto simp: drop_cells_def)
  have "?shown c = Inr None \<longleftrightarrow> (\<forall>i < nat (cs_rays s). \<not> on i c)" if "c \<in> set (drop_cells g)" for c
    using returns [OF that] shown_iff unfolding on_def by (metis option.exhaust option.distinct(1) sum.inject(2))
  then have "filter (\<lambda>c. ?shown c = Inr None) (drop_cells g) = filter (\<lambda>c. \<forall>i < nat (cs_rays s). \<not> on i c) (drop_cells g)"
    by (rule filter_cong [OF refl])
  moreover have "cell_distance lib (tg_cell_size g) = dist" by (simp add: fun_eq_iff cell_distance_def dist_def edge_distance_def)
  then have seen: "set (seen_by lib (tg_cell_size g) s (sc_increment sc) i (drop_cells g)) = dist ` {c \<in> set (drop_cells g). on i c}"
    if "i < nat (cs_rays s)" for i using that by (auto simp: seen_by_def shown_iff on_def)
  have "(\<forall>c \<in> set (drop_cells g). on i c \<longrightarrow> \<not> dist c < sc_ranges sc ! i)
      \<and> (sc_ranges sc ! i = PInf \<or> (\<exists>c \<in> set (drop_cells g). on i c \<and> sc_ranges sc ! i = dist c))" if i: "i < nat (cs_rays s)" for i
    using least_facts [of PInf "seen_by lib (tg_cell_size g) s (sc_increment sc) i (drop_cells g)"] i
    unfolding seen [OF i] by (auto simp: raw(1))
  ultimately show ?thesis using raw unfolding Let_def dist_def [symmetric] on_def [symmetric] by simp
qed

section \<open>A frame without a readable sample\<close>

lemma blank_row:
  "list_all (\<lambda>v. readable_depth v = Inr None) row \<Longrightarrow> \<exists>ts. depth_row txt v u row = Inr (ts, [])"
proof (induction row arbitrary: u)
  case (Cons s row)
  obtain ts where "depth_row txt v (Suc u) row = Inr (ts, [])" using Cons by auto
  moreover have "\<exists>t. payload_token txt s = Inr t"
    using Cons.prems by (cases s) (auto simp: readable_depth_def payload_token_def bindR_Inr_iff)
  ultimately show ?case using Cons.prems by auto
qed simp

lemma blank_rows:
  "list_all (list_all (\<lambda>v. readable_depth v = Inr None)) rows \<Longrightarrow> \<exists>ts. depth_rows txt v rows = Inr (ts, [])"
proof (induction rows arbitrary: v)
  case (Cons row rows)
  then obtain ts where "depth_rows txt (Suc v) rows = Inr (ts, [])" by auto
  moreover obtain ts' where "depth_row txt v 0 row = Inr (ts', [])" using blank_row Cons.prems by fastforce
  ultimately show ?case by simp
qed simp

lemma unknown_rows: "tg_cells g = [] \<Longrightarrow> confirmed_run (row_states g) = 0 \<and> first_drop k (row_states g) = None"
proof -
  assume "tg_cells g = []"
  then have s: "state_at g ix iy = TERRAIN_UNKNOWN" for ix iy by (simp add: state_at_def)
  have "row_state g ix = TERRAIN_UNKNOWN" for ix
    by (cases "tg_corridor g") (auto simp: row_state_def Let_def s)
  then have r: "row_states g = map (\<lambda>_. TERRAIN_UNKNOWN) [0..tg_forward g - 1]" by (simp add: row_states_def)
  have "confirmed_run (map (\<lambda>_. TERRAIN_UNKNOWN) xs) = 0 \<and> first_drop k (map (\<lambda>_. TERRAIN_UNKNOWN) xs) = None" for xs :: "int list" and k
    by (induction xs arbitrary: k) auto
  then show ?thesis unfolding r by blast
qed

text \<open>
  A frame without a readable sample claims nothing, and is reported as such: the call returns, the state is
  \<open>UNKNOWN\<close>, no floor is confirmed, no drop is reported and every ray is empty.
\<close>

theorem blank_frame_claims_nothing:
  assumes "list_all (list_all (\<lambda>v. readable_depth v = Inr None)) rows"
    and "forward_cell_count (tp_grid tp) = Inr forward" and "corridor_lateral_indices (tp_grid tp) = Inr corridor"
    and "angle_increment s = Inr inc" and "Fin 0 < gp_min_valid (tp_grid tp)"
    and "m_atan (fe_lib e) (m_hypot (fe_lib e) (Fin 0) (Fin 0)) = Fin 0"
    and "isfinite (fm_source_stamp_s m)" and "\<not> blank (fm_reference m)"
    and "fm_device_seq m = None" and "fm_latency m = None"
  shows "\<exists>ob. analyze_depth_frame e tp s m rows = Inr ob
     \<and> cv_state (ob_coverage ob) = TERRAIN_UNKNOWN \<and> cv_confirmed (ob_coverage ob) = None
     \<and> cv_nearest_drop (ob_coverage ob) = None \<and> dv_fraction (ob_validity ob) = Fin 0
     \<and> sc_ranges (ob_cliff ob) = replicate (nat (cs_rays s)) PInf"
proof -
  obtain ts where ts: "depth_rows (fe_txt e) 0 rows = Inr (ts, [])" using blank_rows [OF assms(1)] by blast
  have none: "ratio 0 n = Fin 0" for n by (simp add: ratio_def)
  let ?g = "\<lparr>tg_cells = [], tg_forward = forward, tg_corridor = corridor, tg_cell_size = gp_cell (tp_grid tp)\<rparr>"
  note rows = unknown_rows [of ?g]
  show ?thesis
    using assms rows by (auto simp: analyze_depth_frame_def depth_validity_of_def ts Let_def back_project_def none
      ground_estimator_def draws_of_def PRIOR_def score_of_def classify_cells_def terrain_coverage_def coverage_valid_def
      quality_valid_def quality.truncate_def tilt_of_def inlier_fraction_def cliff_ranges_def)
qed

section \<open>Evaluation\<close>

text \<open>The guard against inexact quotients never moves a value off its cell by itself.\<close>

lemma small_const:
  assumes "0 \<le> q" and "q \<le> 1/1024"
  obtains e where "fround q = Fin e" and "0 \<le> e" and "e \<le> 1/1024"
proof -
  have k: "round53 (1/1024) = 1/1024" using round53_exact [of 1 "- 10"] by (simp add: power_int_def power_divide)
  have "round53 q \<le> 1/1024" "0 \<le> round53 q" using round53_mono [OF assms(2)] round53_nonneg [OF assms(1)] k by simp_all
  moreover have "fround q = Fin (round53 q)" using calculation overflow_bound_gt by (simp add: fround_alt)
  ultimately show thesis using that by blast
qed

lemma round53_quarters:
  assumes "\<bar>n\<bar> \<le> 2 ^ 20" shows "round53 (of_int n / 4) = of_int n / 4"
  using round53_exact [of n "- 2"] assms by (simp add: power_int_def field_simps)

lemma near_integer:
  assumes "of_int n \<le> x" and "x \<le> of_int n + 1/2" and "\<bar>n\<bar> \<le> 2 ^ 10" and "0 \<le> e" and "e \<le> 1/1024"
  shows "\<exists>y. fround (x + e) = Fin y \<and> of_int n \<le> y \<and> y \<le> of_int n + 3/4"
proof -
  have "of_int n \<le> round53 (x + e)" using round53_mono [of "of_int n" "x + e"] round53_quarters [of "4 * n"] assms by simp
  moreover have "x + e \<le> of_int (4 * n + 3) / 4" using assms by (simp add: field_simps)
  then have "round53 (x + e) \<le> of_int (4 * n + 3) / 4"
    by (rule order.trans [OF round53_mono eq_refl [OF round53_quarters]]) (use assms(3) in simp)
  moreover have "fround (x + e) = Fin (round53 (x + e))"
  proof -
    have "\<bar>of_int n :: rat\<bar> \<le> 2 ^ 10" using assms(3) by (simp flip: of_int_abs add: of_int_le_pow2)
    then have "\<bar>round53 (x + e)\<bar> < overflow_bound" using calculation overflow_bound_gt by (simp add: field_simps)
    then show ?thesis by (auto simp: fround_alt)
  qed
  ultimately show ?thesis by (simp add: field_simps)
qed

lemma floor_eps:
  assumes "of_int n \<le> x" and "x \<le> of_int n + 1/2" and "\<bar>n\<bar> \<le> 2 ^ 10"
  shows "floor_int (Fin x + INDEX_EPS) = Inr n"
proof -
  obtain e where e: "INDEX_EPS = Fin e" "0 \<le> e" "e \<le> 1/1024"
    unfolding INDEX_EPS_def by (rule small_const [of "1/1000000000"]) auto
  obtain y where y: "fround (x + e) = Fin y" "of_int n \<le> y" "y \<le> of_int n + 3/4"
    using near_integer [OF assms e(2,3)] by blast
  then have "\<lfloor>y\<rfloor> = n" by (simp add: floor_eq_iff)
  then show ?thesis unfolding e(1) plus_pyfloat.simps y(1) floor_int.simps by simp
qed

lemma ceil_eps:
  assumes "of_int n - 1/2 \<le> x" and "x \<le> of_int n" and "\<bar>n\<bar> \<le> 2 ^ 10"
  shows "ceil_int (Fin x - INDEX_EPS) = Inr n"
proof -
  obtain e where e: "INDEX_EPS = Fin e" "0 \<le> e" "e \<le> 1/1024"
    unfolding INDEX_EPS_def by (rule small_const [of "1/1000000000"]) auto
  obtain y where y: "fround (- x + e) = Fin y" "of_int (- n) \<le> y" "y \<le> of_int (- n) + 3/4"
    using near_integer [of "- n" "- x" e] assms e(2,3) by auto
  have "fround (x - e) = - fround (- x + e)" using fround_minus [of "- x + e"] by simp
  then have "fround (x - e) = Fin (- y)" using y(1) by simp
  moreover have "\<lceil>- y\<rceil> = n" using y(2,3) by (simp add: ceiling_eq_iff)
  ultimately show ?thesis unfolding e(1) minus_Fin by simp
qed

end
