(* ===== verification/TerrainSamples.thy ===== *)
theory TerrainSamples
  imports TerrainProps
begin

text \<open>
  A small scene through the terrain observer: two rows of floor, a drop behind them and one sampled plane that is
  too steep; and the data on which the functions documented never to raise do raise.
\<close>

section \<open>The scene\<close>

definition square_libm :: terrain_libm where
  "square_libm = \<lparr>m_hypot = (\<lambda>a b. \<bar>a\<bar> + \<bar>b\<bar>), m_sin = (\<lambda>a. Fin 0), m_cos = (\<lambda>a. Fin 1), m_atan2 = (\<lambda>a b. a), m_atan = (\<lambda>a. a)\<rparr>"

definition sample_draw :: "int \<Rightarrow> nat \<Rightarrow> nat \<Rightarrow> nat \<times> nat \<times> nat" where
  "sample_draw seed n i = (0, 1, 2)"

definition terrain_env :: frame_env where
  "terrain_env = \<lparr>fe_lib = square_libm, fe_draw = sample_draw, fe_txt = \<lparr>st_hex = (\<lambda>_. []), st_repr = (\<lambda>_. [])\<rparr>, fe_sha = (\<lambda>_. ''d'')\<rparr>"

definition sample_terrain :: terrain_params where
  "sample_terrain = \<lparr>tp_intrinsics = \<lparr>ci_fx = Fin 1, ci_fy = Fin 1, ci_cx = Fin 0, ci_cy = Fin 0\<rparr>,
     tp_mounting = \<lparr>mg_height = Fin 1, mg_pitch = Fin (1/2), mg_offset = Fin 0\<rparr>,
     tp_grid = \<lparr>gp_cell = Fin (1/2), gp_half_width = Fin (1/2), gp_range = Fin 2, gp_min_points = 1, gp_drop = Fin (1/4),
       gp_min_valid = Fin (1/4)\<rparr>,
     tp_fit = \<lparr>gf_tolerance = Fin (1/8), gf_iterations = 1, gf_seed = 7, gf_max_tilt = Fin (1/2), gf_max_offset = Fin (1/4)\<rparr>\<rparr>"

definition sample_scan :: scan_params where
  "sample_scan = \<lparr>cs_angle_min = Fin (- 2), cs_angle_max = Fin 2, cs_rays = 4, cs_range_min = Fin (1/8), cs_range_max = Fin 10\<rparr>"

definition sample_meta :: frame_meta where
  "sample_meta = \<lparr>fm_source_stamp_s = Fin 5, fm_reference = ''axle'', fm_device_seq = None, fm_latency = None\<rparr>"

definition sample_depth :: "pyval list list" where
  "sample_depth = [[], [], [PFloat (Fin (1/2)), PFloat (Fin (1/2))], [PFloat (Fin 1), PFloat NaN, PStr ''x'', PFloat PInf],
     [PFloat (Fin (1/4)), PFloat (Fin (1/4))]]"

definition sample_validity :: depth_validity where
  "sample_validity = \<lparr>dv_pixels = [(0, 2, Fin (1/2)), (1, 2, Fin (1/2)), (0, 3, Fin 1), (0, 4, Fin (1/4)), (1, 4, Fin (1/4))],
     dv_total = 8, dv_count = 5, dv_fraction = Fin (5/8), dv_digest = ''d''\<rparr>"

definition sample_points :: "point3 list" where
  "sample_points = [(Fin (1/2), Fin 0, Fin 0), (Fin (1/2), Fin (- 1/2), Fin 0), (Fin 1, Fin 0, Fin (- 2)),
     (Fin (1/4), Fin 0, Fin 0), (Fin (1/4), Fin (- 1/4), Fin 0)]"

definition sample_plane :: ground_plane where
  "sample_plane = \<lparr>pl_a = Fin 0, pl_b = Fin 0, pl_c = Fin 0, pl_inliers = 4, pl_points = 5, pl_from_prior = True, pl_rejected = 1\<rparr>"

definition one_cell :: "int \<Rightarrow> int \<Rightarrow> pyfloat \<Rightarrow> (int \<times> int) \<times> cell_obs" where
  "one_cell ix iy r = ((ix, iy), \<lparr>tc_ix = ix, tc_iy = iy, tc_state = (if r = Fin 0 then FLOOR_CONFIRMED else DROP_DETECTED),
     tc_points = 1, tc_floor_points = (if r = Fin 0 then 1 else 0), tc_drop_points = (if r = Fin 0 then 0 else 1),
     tc_min_residual = r\<rparr>)"

definition sample_grid :: terrain_grid where
  "sample_grid = \<lparr>tg_cells = [one_cell 1 0 (Fin 0), one_cell 1 (- 1) (Fin 0), one_cell 2 0 (Fin (- 2)), one_cell 0 0 (Fin 0),
     one_cell 0 (- 1) (Fin 0)], tg_forward = 4, tg_corridor = [- 1, 0], tg_cell_size = Fin (1/2)\<rparr>"

definition sample_coverage :: coverage_payload where
  "sample_coverage = \<lparr>cv_source_stamp_s = Fin 5, cv_reference = ''axle'', cv_state = DROP_DETECTED, cv_confirmed = Some (Fin 1),
     cv_nearest_drop = Some (Fin 1), cv_step_height = Some (Fin (- 2)),
     cv_quality = \<lparr>valid_fraction = Fin (5/8), frame_digest = Some ''d'', device_frame_seq = None, processing_latency_s = None,
       cq_tilt = Fin 0, cq_offset = Fin 0, cq_inlier_fraction = fround (4/5), cq_from_prior = True, cq_rejected = 1\<rparr>\<rparr>"

definition sample_cliff :: cliff_scan where
  "sample_cliff = \<lparr>sc_ranges = [PInf, PInf, Fin (5/4), PInf], sc_params = sample_scan, sc_increment = Fin 1, sc_stamp = Fin 5,
     sc_drops = 1, sc_omitted = 0\<rparr>"

definition sample_seen :: terrain_observation where
  "sample_seen = \<lparr>ob_validity = sample_validity, ob_plane = sample_plane, ob_grid = sample_grid, ob_coverage = sample_coverage,
     ob_cliff = sample_cliff\<rparr>"

lemma sample_valid: "depth_validity_of (fe_txt terrain_env) (fe_sha terrain_env) sample_depth = Inr sample_validity"
  by (simp add: depth_validity_of_def terrain_env_def sample_depth_def sample_validity_def payload_token_def readable_depth_def
      ratio_def py_eval)

lemma sample_projected:
  "back_project square_libm (tp_intrinsics sample_terrain) (tp_mounting sample_terrain) (dv_pixels sample_validity) = Inr sample_points"
  by (simp add: back_project_def project_pixel_def sample_terrain_def sample_validity_def sample_points_def square_libm_def
      fint_def Let_def py_eval)

lemma not_degenerate: "\<not> Fin (1/4) < DEGENERATE_DET"
  unfolding DEGENERATE_DET_def by (rule small_const [of "1/1000000000000"]) auto

lemma sample_fitted: "ground_estimator square_libm sample_draw (tp_fit sample_terrain) sample_points = Inr sample_plane"
  by (simp add: ground_estimator_def draws_of_def sample_draw_def sample_terrain_def sample_points_def sample_plane_def PRIOR_def
      score_of_def plane_residual_def fit_step_def plane_from_triple_def within_prior_cone_def tilt_of_def square_libm_def
      fint_def not_degenerate Let_def py_eval)

lemma floor_at:
  "floor_int (Fin 0 + INDEX_EPS) = Inr 0" "floor_int (Fin (1/2) + INDEX_EPS) = Inr 0" "floor_int (Fin 1 + INDEX_EPS) = Inr 1"
  "floor_int (Fin 2 + INDEX_EPS) = Inr 2" "floor_int (Fin 4 + INDEX_EPS) = Inr 4" "floor_int (Fin (- 1) + INDEX_EPS) = Inr (- 1)"
  "floor_int (Fin (- (1/2)) + INDEX_EPS) = Inr (- 1)" "floor_int (Fin (9/4) + INDEX_EPS) = Inr 2"
  using floor_eps [of 0 0] floor_eps [of 0 "1/2"] floor_eps [of 1 1] floor_eps [of 2 2] floor_eps [of 4 4] floor_eps [of "- 1" "- 1"]
    floor_eps [of "- 1" "- 1/2"] floor_eps [of 2 "9/4"] by simp_all

lemma ceil_at: "ceil_int (Fin (- (3/2)) - INDEX_EPS) = Inr (- 1)"
  using ceil_eps [of "- 1" "- 3/2"] by simp

lemma sample_classified: "classify_cells sample_terrain sample_plane sample_points = Inr sample_grid"
  by (simp add: classify_cells_def forward_cell_count_def corridor_lateral_indices_def sample_terrain_def sample_plane_def
      sample_points_def sample_grid_def one_cell_def cell_of_def bucket_add_def residual_of_def height_at_def judge_cell_def
      least_def upto_rec1 floor_at ceil_at Let_def py_eval)

lemma four_fifths: "isfinite (fround (4/5)) \<and> Fin 0 \<le> fround (4/5) \<and> fround (4/5) \<le> Fin 1"
proof -
  have "fround 0 \<le> fround (4/5)" "fround (4/5) \<le> fround 1" by (rule fround_mono, simp)+
  then have "Fin 0 \<le> fround (4/5)" "fround (4/5) \<le> Fin 1" by (simp_all add: py_eval)
  then show ?thesis using finite_between by blast
qed

lemma sample_covered:
  "terrain_coverage square_libm sample_terrain sample_grid sample_plane (Fin (5/8)) ''d'' sample_meta = Inr sample_coverage"
  by (simp add: terrain_coverage_def sample_terrain_def sample_grid_def sample_plane_def sample_meta_def sample_coverage_def
      row_states_def row_state_def state_at_def one_cell_def upto_rec1 drop_residuals_def List.map_filter_simps coverage_valid_def
      quality_valid_def quality.truncate_def inlier_fraction_def ratio_def tilt_of_def square_libm_def fint_def least_def Let_def
      four_fifths blank_def is_space_def py_eval)

lemma sample_scanned: "cliff_ranges square_libm sample_grid sample_scan (Fin 5) = Inr sample_cliff"
  by (simp add: cliff_ranges_def sample_grid_def sample_scan_def sample_cliff_def angle_increment_def float_of_int_def cliff_step_def
      shown_at_def ray_of_def cell_distance_def one_cell_def fint_def square_libm_def floor_at Let_def py_eval numeral_eq_Suc)

lemma sample_analyzed:
  "analyze_depth_frame terrain_env sample_terrain sample_scan sample_meta sample_depth = Inr sample_seen"
proof -
  have "fe_lib terrain_env = square_libm" "fe_draw terrain_env = sample_draw" "fm_source_stamp_s sample_meta = Fin 5"
    "dv_fraction sample_validity = Fin (5/8)" "dv_digest sample_validity = ''d''"
    by (simp_all add: terrain_env_def sample_meta_def sample_validity_def)
  then show ?thesis
    by (simp only: analyze_depth_frame_def sample_valid sample_projected sample_fitted sample_classified sample_covered
        sample_scanned sample_seen_def bindR.simps)
qed

lemma seen_fields [simp]:
  "ob_validity sample_seen = sample_validity" "ob_plane sample_seen = sample_plane" "ob_grid sample_seen = sample_grid"
  "ob_coverage sample_seen = sample_coverage" "ob_cliff sample_seen = sample_cliff" "fe_lib terrain_env = square_libm"
  by (simp_all add: sample_seen_def terrain_env_def)

theorem floor_claim_is_backed_witness:
  "gp_min_valid (tp_grid sample_terrain) \<le> dv_fraction (ob_validity sample_seen) \<and> tg_corridor (ob_grid sample_seen) \<noteq> []
   \<and> (\<exists>n > 0. Fin 1 = fint n * gp_cell (tp_grid sample_terrain)
        \<and> list_all (\<lambda>ix. list_all (\<lambda>iy. floor_seen sample_terrain (ob_plane sample_seen) (tg_forward (ob_grid sample_seen)) sample_points ix iy)
             (tg_corridor (ob_grid sample_seen))) [0..n - 1])"
proof (rule floor_claim_is_backed [OF sample_analyzed])
  show "1 \<le> gp_min_points (tp_grid sample_terrain)" by (simp add: sample_terrain_def)
  show "cv_confirmed (ob_coverage sample_seen) = Some (Fin 1)" by (simp add: sample_coverage_def)
qed (simp add: sample_projected)

theorem corridor_drop_is_reported_witness:
  "cv_state (ob_coverage sample_seen) = DROP_DETECTED
   \<and> (\<exists>j. 0 \<le> j \<and> j \<le> 2 \<and> cv_nearest_drop (ob_coverage sample_seen) = Some (fint j * gp_cell (tp_grid sample_terrain)))"
proof (rule corridor_drop_is_reported [OF sample_analyzed])
  show "1 \<le> gp_min_points (tp_grid sample_terrain)" by (simp add: sample_terrain_def)
  then show "drop_seen sample_terrain (ob_plane sample_seen) (tg_forward (ob_grid sample_seen)) sample_points 2 0"
    using state_at_iff(2) [OF sample_classified, of 2 0] by (simp add: sample_grid_def state_at_def one_cell_def)
  show "0 \<in> set (tg_corridor (ob_grid sample_seen))" by (simp add: sample_grid_def)
qed (simp add: sample_projected)

theorem plane_is_best_in_cone_witness:
  "let gf = tp_fit sample_terrain; pts = sample_points; g = sample_plane; m = (pl_a g, pl_b g, pl_c g);
       drawn = drawn_planes pts (draws_of sample_draw gf (length pts)) in
     in_cone square_libm gf m \<and> m \<in> set (PRIOR # drawn)
     \<and> pl_inliers g = length (deviations (gf_tolerance gf) pts m)
     \<and> list_all (\<lambda>k. \<not> fits_better (gf_tolerance gf) pts k m) (filter (in_cone square_libm gf) (PRIOR # drawn))
     \<and> pl_rejected g = length (filter (\<lambda>k. \<not> in_cone square_libm gf k) drawn)"
proof -
  have tilt: "\<not> gf_max_tilt (tp_fit sample_terrain) < m_atan square_libm (m_hypot square_libm (Fin 0) (Fin 0))"
    by (simp add: square_libm_def sample_terrain_def py_eval)
  have offset: "Fin 0 \<le> gf_max_offset (tp_fit sample_terrain)" by (simp add: sample_terrain_def)
  show ?thesis using plane_is_best_in_cone [OF sample_fitted tilt offset] unfolding Let_def .
qed

definition sample_drop :: cell_obs where
  "sample_drop = snd (one_cell 2 0 (Fin (- 2)))"

lemma sample_drop_shown: "on_ray square_libm (tg_cell_size sample_grid) sample_scan (sc_increment sample_cliff) 2 sample_drop"
proof -
  have "shown_at square_libm (Fin (1/2)) sample_scan (Fin 1) sample_drop = Inr (Some 2)"
    by (simp add: shown_at_def ray_of_def cell_distance_def sample_drop_def one_cell_def sample_scan_def fint_def square_libm_def
        floor_at Let_def py_eval)
  then show ?thesis by (simp add: shown_iff sample_grid_def sample_cliff_def)
qed

theorem cliff_scan_is_exact_witness:
  "length (sc_ranges sample_cliff) = 4 \<and> sc_drops sample_cliff = 1
   \<and> on_ray square_libm (tg_cell_size sample_grid) sample_scan (sc_increment sample_cliff) 2 sample_drop
   \<and> sc_ranges sample_cliff ! 2 = edge_distance square_libm (tg_cell_size sample_grid) sample_drop"
proof -
  have drops: "drop_cells sample_grid = [sample_drop]" by (simp add: drop_cells_def sample_grid_def sample_drop_def one_cell_def)
  have rays: "nat (cs_rays sample_scan) = 4" by (simp add: sample_scan_def)
  note exact = cliff_scan_is_exact [OF sample_scanned, unfolded Let_def drops rays]
  have "sc_ranges sample_cliff ! i = PInf \<or> sc_ranges sample_cliff ! i = edge_distance square_libm (tg_cell_size sample_grid) sample_drop"
    if "i < 4" for i using exact that by (simp, blast)
  from this [of 2] have "sc_ranges sample_cliff ! 2 = edge_distance square_libm (tg_cell_size sample_grid) sample_drop"
    by (simp add: sample_cliff_def)
  then show ?thesis using exact sample_drop_shown by simp
qed

theorem blank_frame_claims_nothing_witness:
  "\<exists>ob. analyze_depth_frame terrain_env sample_terrain sample_scan sample_meta [[PFloat NaN, PFloat (Fin 0)], [PStr ''x'', PBool True]] = Inr ob
   \<and> cv_state (ob_coverage ob) = TERRAIN_UNKNOWN \<and> cv_confirmed (ob_coverage ob) = None
   \<and> cv_nearest_drop (ob_coverage ob) = None \<and> dv_fraction (ob_validity ob) = Fin 0
   \<and> sc_ranges (ob_cliff ob) = replicate (nat (cs_rays sample_scan)) PInf"
proof (rule blank_frame_claims_nothing)
  show "forward_cell_count (tp_grid sample_terrain) = Inr 4"
    by (simp add: forward_cell_count_def sample_terrain_def floor_at py_eval)
  show "corridor_lateral_indices (tp_grid sample_terrain) = Inr [- 1, 0]"
    by (simp add: corridor_lateral_indices_def sample_terrain_def floor_at ceil_at upto_rec1 py_eval)
  show "angle_increment sample_scan = Inr (Fin 1)"
    by (simp add: angle_increment_def sample_scan_def float_of_int_def py_eval)
  show "\<not> blank (fm_reference sample_meta)" by (simp add: sample_meta_def blank_def is_space_def)
qed (simp_all add: readable_depth_def sample_terrain_def square_libm_def sample_meta_def)

section \<open>Data that raises\<close>

text \<open>An integer beyond the float range, and a finite depth whose cell index overflows.\<close>

lemma huge_integer_raises: "depth_validity_of txt sha [[PInt (10 ^ 400)]] = Inl OverflowError"
proof -
  have "payload_token txt (PInt (10 ^ 400)) = Inl OverflowError"
    by (simp only: payload_token_def pyval.case is_number.simps if_True to_float.simps float_of_int_huge bindR.simps)
  then show ?thesis by (simp only: depth_validity_of_def depth_rows.simps depth_row.simps bindR.simps)
qed

lemma huge_cell_raises: "cell_of (tp_grid sample_terrain) (Fin 0) 4 (Fin (2 ^ 1023), y, z) = Inl OverflowError"
proof -
  have exact: "fround (2 ^ 1023) = Fin (2 ^ 1023)"
  proof (rule fround_exact)
    show "round53 (2 ^ 1023) = 2 ^ 1023" using round53_exact [of 1 1023] by (simp add: power_int_def)
    show "\<bar>2 ^ 1023\<bar> < overflow_bound" unfolding overflow_bound_def power_abs abs_numeral by (rule power_strict_increasing) simp_all
  qed
  have big: "fround (2 ^ 1023 / (1/2)) = PInf"
  proof (rule fround_big)
    have "(2::rat) ^ 1024 = 2 * 2 ^ 1023" using power_Suc [of "2::rat" 1023] by simp
    then show "overflow_bound \<le> 2 ^ 1023 / (1/2)" unfolding overflow_bound_def by simp
  qed
  obtain e where e: "INDEX_EPS = Fin e" unfolding INDEX_EPS_def by (rule small_const [of "1/1000000000"]) auto
  have "Fin (2 ^ 1023) - Fin 0 = Fin (2 ^ 1023)" unfolding minus_Fin diff_zero by (rule exact)
  moreover have "fdiv (Fin (2 ^ 1023)) (gp_cell (tp_grid sample_terrain)) = Inr PInf"
    using big by (simp only: sample_terrain_def terrain_params.simps grid_params.simps fdiv.simps pyfloat.case) simp
  moreover have "PInf + INDEX_EPS = PInf" unfolding e by simp
  ultimately show ?thesis by (simp only: cell_of_def prod.case bindR.simps floor_int.simps)
qed

text \<open>An integer and a float of the same value have the same token, so the digest does not tell them apart.\<close>

lemma tokens_not_distinct: "payload_token txt (PInt 1) = payload_token txt (PFloat (Fin 1))"
  by (simp add: payload_token_def float_of_int_def py_eval)

text \<open>
  The distance of a cell takes the near edge ahead but the centre to the side, so a drop beside the datum is shown
  farther away than it is, although the range is documented to err towards the robot.
\<close>

lemma lateral_drop_shown_beyond:
  assumes "tc_ix c = 0" and "tc_iy c = 4"
  shows "cell_of (tp_grid sample_terrain) (Fin 0) 4 (Fin 0, Fin 2, z) = Inr (Some (tc_ix c, tc_iy c))"
    and "m_hypot square_libm (Fin 0) (Fin 2) = Fin 2" and "cell_distance square_libm (gp_cell (tp_grid sample_terrain)) c = Fin (9/4)"
  using assms by (simp_all add: cell_of_def cell_distance_def sample_terrain_def square_libm_def fint_def floor_at py_eval)

end
