(* ===== verification/SpeedBand.thy ===== *)
theory SpeedBand
  imports GuardLogic
begin

text \<open>
  The runtime speed limiter, \<open>warehouse_perception/speed_band_core.py\<close> and the callbacks of
  \<open>speed_band_node.py\<close>: three bands with configured speeds, a hold that falls back to the stable band, and a
  publisher of absolute limits. \<open>BandConfigError\<close> is a \<open>ValueError\<close>; what \<open>float()\<close> makes of a text is \<open>fl\<close>.
\<close>

section \<open>The table\<close>

definition BAND_SLOWEST :: string where "BAND_SLOWEST = ''slowest''"
definition BAND_STABLE :: string where "BAND_STABLE = ''stable''"
definition BAND_FASTEST :: string where "BAND_FASTEST = ''fastest''"
definition BANDS :: "string list" where "BANDS = [BAND_SLOWEST, BAND_STABLE, BAND_FASTEST]"

text \<open>\<open>float(value)\<close>; only \<open>TypeError\<close> and \<open>ValueError\<close> are turned into the configuration error.\<close>

definition float_object :: "(string \<Rightarrow> pyfloat option) \<Rightarrow> pyval \<Rightarrow> pyfloat result" where
  "float_object fl v =
     (case v of
        PStr s \<Rightarrow> (case fl s of None \<Rightarrow> Inl ValueError | Some x \<Rightarrow> Inr x)
      | _ \<Rightarrow> to_float v)"

definition require_finite_positive :: "(string \<Rightarrow> pyfloat option) \<Rightarrow> pyval \<Rightarrow> pyfloat result" where
  "require_finite_positive fl v =
     (case float_object fl v of
        Inl e \<Rightarrow> Inl (if e = TypeError \<or> e = ValueError then ValueError else e)
      | Inr x \<Rightarrow> if \<not> isfinite x \<or> x \<le> Fin 0 then Inl ValueError else Inr x)"

record band_table =
  bt_slowest :: pyfloat
  bt_stable :: pyfloat
  bt_fastest :: pyfloat
  bt_vx_max :: pyfloat
  bt_floor :: pyfloat

definition value_for :: "band_table \<Rightarrow> string \<Rightarrow> pyfloat result" where
  "value_for t band =
     (if band = BAND_SLOWEST then Inr (bt_slowest t)
      else if band = BAND_STABLE then Inr (bt_stable t)
      else if band = BAND_FASTEST then Inr (bt_fastest t)
      else Inl ValueError)"

definition check_band :: "(string \<Rightarrow> pyfloat option) \<Rightarrow> pyfloat \<Rightarrow> pyfloat \<Rightarrow> pyval \<Rightarrow> pyfloat result" where
  "check_band fl lowest vx_max raw =
     bindR (require_finite_positive fl raw) (\<lambda>v.
       if v < lowest then Inl ValueError else if vx_max < v then Inl ValueError else Inr v)"

definition validate_band_table ::
    "(string \<Rightarrow> pyfloat option) \<Rightarrow> pyval \<Rightarrow> pyval \<Rightarrow> pyval \<Rightarrow> pyval \<Rightarrow> pyval \<Rightarrow> band_table result" where
  "validate_band_table fl slow steady fast operating_vx_max v_floor =
     bindR (require_finite_positive fl operating_vx_max) (\<lambda>vx_max.
     if MAX_LINEAR_VELOCITY < vx_max then Inl ValueError
     else bindR (require_finite_positive fl v_floor) (\<lambda>lowest.
     bindR (check_band fl lowest vx_max slow) (\<lambda>a.
     bindR (check_band fl lowest vx_max steady) (\<lambda>b.
     bindR (check_band fl lowest vx_max fast) (\<lambda>c.
       if \<not> (a \<le> b \<and> b \<le> c) then Inl ValueError
       else Inr \<lparr>bt_slowest = a, bt_stable = b, bt_fastest = c, bt_vx_max = vx_max, bt_floor = lowest\<rparr>)))))"

definition compute_speed_limit :: "band_table \<Rightarrow> string \<Rightarrow> pyfloat result" where
  "compute_speed_limit t band =
     bindR (value_for t band) (\<lambda>v.
       let value = py_min (py_min v (bt_vx_max t)) MAX_LINEAR_VELOCITY
       in if \<not> isfinite value \<or> value \<le> Fin 0 then Inl ValueError else Inr value)"

section \<open>Events and the hold\<close>

definition parse_band_event :: "json_text \<Rightarrow> string option" where
  "parse_band_event doc =
     (case doc of
        Some (PDict d) \<Rightarrow>
          if dget d ''event'' \<noteq> PStr ''speed_band'' then None
          else (case dget d ''band'' of PStr b \<Rightarrow> if b \<in> set BANDS then Some b else None | _ \<Rightarrow> None)
      | _ \<Rightarrow> None)"

record band_hold =
  bh_timeout :: pyfloat
  bh_band :: string
  bh_confirmed_at :: "pyfloat option"

definition make_hold :: "(string \<Rightarrow> pyfloat option) \<Rightarrow> pyval \<Rightarrow> band_hold result" where
  "make_hold fl timeout =
     bindR (require_finite_positive fl timeout) (\<lambda>t. Inr \<lparr>bh_timeout = t, bh_band = BAND_STABLE, bh_confirmed_at = None\<rparr>)"

definition current_band :: "band_hold \<Rightarrow> pyfloat \<Rightarrow> string" where
  "current_band h now =
     (case bh_confirmed_at h of
        None \<Rightarrow> BAND_STABLE
      | Some t \<Rightarrow> if bh_timeout h < now - t then BAND_STABLE else bh_band h)"

definition on_band :: "string \<Rightarrow> pyfloat \<Rightarrow> band_hold \<Rightarrow> bool \<times> band_hold" where
  "on_band band now h =
     (if band \<notin> set BANDS then (False, h)
      else (band \<noteq> current_band h now, h\<lparr>bh_band := band, bh_confirmed_at := Some now\<rparr>))"

section \<open>The node\<close>

record speed_band_node =
  sb_table :: band_table
  sb_hold :: band_hold
  sb_published :: "pyfloat list"

definition publish_current :: "pyfloat \<Rightarrow> speed_band_node \<Rightarrow> speed_band_node result" where
  "publish_current now n =
     bindR (compute_speed_limit (sb_table n) (current_band (sb_hold n) now)) (\<lambda>v. Inr (n\<lparr>sb_published := sb_published n @ [v]\<rparr>))"

text \<open>The clock is read once for the hold and once more for the publication.\<close>

definition on_gesture_event :: "json_text \<Rightarrow> pyfloat \<Rightarrow> pyfloat \<Rightarrow> speed_band_node \<Rightarrow> speed_band_node result" where
  "on_gesture_event doc now later n =
     (case parse_band_event doc of
        None \<Rightarrow> Inr n
      | Some band \<Rightarrow>
          (case on_band band now (sb_hold n) of (changed, h) \<Rightarrow>
             if changed then publish_current later (n\<lparr>sb_hold := h\<rparr>) else Inr (n\<lparr>sb_hold := h\<rparr>)))"

datatype band_event = Gesture json_text pyfloat pyfloat | BandTick pyfloat

fun band_step :: "band_event \<Rightarrow> speed_band_node \<Rightarrow> speed_band_node result" where
  "band_step (Gesture doc now later) n = on_gesture_event doc now later n"
| "band_step (BandTick now) n = publish_current now n"

fun band_run :: "band_event list \<Rightarrow> speed_band_node \<Rightarrow> speed_band_node result" where
  "band_run [] n = Inr n"
| "band_run (e # es) n = bindR (band_step e n) (band_run es)"

record band_config =
  bc_slowest :: pyval
  bc_stable :: pyval
  bc_fastest :: pyval
  bc_vx_max :: pyval
  bc_floor :: pyval
  bc_timeout :: pyval
  bc_rate :: pyval

definition start_speed_band :: "(string \<Rightarrow> pyfloat option) \<Rightarrow> band_config \<Rightarrow> pyfloat \<Rightarrow> speed_band_node result" where
  "start_speed_band fl c now =
     bindR (validate_band_table fl (bc_slowest c) (bc_stable c) (bc_fastest c) (bc_vx_max c) (bc_floor c)) (\<lambda>t.
     bindR (make_hold fl (bc_timeout c)) (\<lambda>h.
     bindR (require_finite_positive fl (bc_rate c)) (\<lambda>_.
       publish_current now \<lparr>sb_table = t, sb_hold = h, sb_published = []\<rparr>)))"

section \<open>The limit stays in the approved envelope\<close>

definition table_ok :: "band_table \<Rightarrow> bool" where
  "table_ok t \<longleftrightarrow> Fin 0 < bt_floor t \<and> bt_vx_max t \<le> MAX_LINEAR_VELOCITY
     \<and> list_all (\<lambda>v. isfinite v \<and> bt_floor t \<le> v \<and> v \<le> bt_vx_max t) [bt_slowest t, bt_stable t, bt_fastest t]"

lemma positive_param_ok: "require_finite_positive fl v = Inr x \<Longrightarrow> isfinite x \<and> Fin 0 < x"
  by (cases x) (auto simp: require_finite_positive_def split: sum.splits if_splits)

lemma check_band_ok:
  assumes "check_band fl lowest vx_max raw = Inr v" and "isfinite lowest" and "isfinite vx_max"
  shows "isfinite v \<and> lowest \<le> v \<and> v \<le> vx_max"
proof -
  have v: "isfinite v" "\<not> v < lowest" "\<not> vx_max < v"
    using assms(1) positive_param_ok [of fl raw] by (auto simp: check_band_def bindR_Inr_iff split: if_splits)
  then show ?thesis using assms(2,3) by (auto simp: not_flt)
qed

lemma validated_table_ok: "validate_band_table fl a b c d e = Inr t \<Longrightarrow> table_ok t"
  using positive_param_ok max_velocity_finite
  by (fastforce simp: validate_band_table_def table_ok_def bindR_Inr_iff not_flt dest!: check_band_ok split: if_splits)

text \<open>The three-way minimum never changes the value of a validated band.\<close>

lemma limit_is_band_value:
  assumes "table_ok t" and "band \<in> set BANDS"
  shows "\<exists>v. compute_speed_limit t band = Inr v \<and> value_for t band = Inr v
     \<and> isfinite v \<and> bt_floor t \<le> v \<and> v \<le> bt_vx_max t \<and> v \<le> MAX_LINEAR_VELOCITY"
proof -
  obtain v where v: "value_for t band = Inr v" "isfinite v" "bt_floor t \<le> v" "v \<le> bt_vx_max t"
    using assms by (auto simp: BANDS_def BAND_SLOWEST_def BAND_STABLE_def BAND_FASTEST_def value_for_def table_ok_def)
  have max: "v \<le> MAX_LINEAR_VELOCITY" using fle_trans [OF v(4)] assms(1) by (simp add: table_ok_def)
  have "py_min (py_min v (bt_vx_max t)) MAX_LINEAR_VELOCITY = v"
    using fle_not_flt [OF v(4)] fle_not_flt [OF max] by (simp add: py_min_def)
  moreover have "Fin 0 < v" using flt_fle_trans [OF _ v(3)] assms(1) by (simp add: table_ok_def)
  then have "\<not> v \<le> Fin 0" using fle_not_flt by blast
  ultimately show ?thesis using v max by (simp add: compute_speed_limit_def Let_def)
qed

definition hold_ok :: "band_hold \<Rightarrow> bool" where
  "hold_ok h \<longleftrightarrow> bh_band h \<in> set BANDS"

lemma current_in_bands: "hold_ok h \<Longrightarrow> current_band h now \<in> set BANDS"
  by (auto simp: current_band_def hold_ok_def BANDS_def split: option.split)

lemma on_band_ok: "hold_ok h \<Longrightarrow> hold_ok (snd (on_band band now h))"
  by (simp add: on_band_def hold_ok_def)

definition in_envelope :: "band_table \<Rightarrow> pyfloat \<Rightarrow> bool" where
  "in_envelope t v \<longleftrightarrow> isfinite v \<and> bt_floor t \<le> v \<and> v \<le> bt_vx_max t \<and> v \<le> MAX_LINEAR_VELOCITY"

definition node_ok :: "band_table \<Rightarrow> speed_band_node \<Rightarrow> bool" where
  "node_ok t n \<longleftrightarrow> table_ok t \<and> sb_table n = t \<and> hold_ok (sb_hold n) \<and> list_all (in_envelope t) (sb_published n)"

lemma publish_ok: "node_ok t n \<Longrightarrow> \<exists>n'. publish_current now n = Inr n' \<and> node_ok t n'"
  using limit_is_band_value [of t "current_band (sb_hold n) now"] current_in_bands
  by (fastforce simp: publish_current_def node_ok_def in_envelope_def)

lemma band_step_ok: "node_ok t n \<Longrightarrow> \<exists>n'. band_step e n = Inr n' \<and> node_ok t n'"
proof (cases e)
  case (Gesture doc now later)
  assume n: "node_ok t n"
  have "node_ok t (n\<lparr>sb_hold := h\<rparr>)" if "on_band band now (sb_hold n) = (changed, h)" for band changed h
    using n on_band_ok [of "sb_hold n" band now] that by (simp add: node_ok_def)
  then show ?thesis using n publish_ok Gesture
    by (auto simp: on_gesture_event_def split: option.split prod.split)
qed (simp add: publish_ok)

lemma band_run_ok: "node_ok t n \<Longrightarrow> \<exists>n'. band_run es n = Inr n' \<and> node_ok t n'"
proof (induction es arbitrary: n)
  case (Cons e es)
  then obtain n' where "band_step e n = Inr n'" "node_ok t n'" using band_step_ok by blast
  then show ?case using Cons.IH by simp
qed simp

text \<open>
  C21. The published speed limit stays in the approved envelope: once the node has started, no gesture message and
  no clock makes it raise, and every limit it ever publishes is finite, at least the floor and at most both the
  operating maximum and the frozen cap.
\<close>

theorem speed_limit_in_envelope:
  assumes "start_speed_band fl c now = Inr n0"
  shows "\<exists>n. band_run es n0 = Inr n \<and> sb_table n = sb_table n0
     \<and> list_all (\<lambda>v. isfinite v \<and> Fin 0 < v \<and> bt_floor (sb_table n0) \<le> v \<and> v \<le> bt_vx_max (sb_table n0)
          \<and> v \<le> MAX_LINEAR_VELOCITY) (sb_published n)"
proof -
  obtain t h where v: "validate_band_table fl (bc_slowest c) (bc_stable c) (bc_fastest c) (bc_vx_max c) (bc_floor c) = Inr t"
      and m: "make_hold fl (bc_timeout c) = Inr h"
      and p: "publish_current now \<lparr>sb_table = t, sb_hold = h, sb_published = []\<rparr> = Inr n0"
    using assms unfolding start_speed_band_def bindR_Inr_iff by blast
  have t: "table_ok t" by (rule validated_table_ok [OF v])
  have h: "hold_ok h" using m by (auto simp: make_hold_def bindR_Inr_iff hold_ok_def BANDS_def)
  have "node_ok t \<lparr>sb_table = t, sb_hold = h, sb_published = []\<rparr>" using t h by (simp add: node_ok_def)
  from publish_ok [OF this, of now] p have n0: "node_ok t n0" by simp
  obtain n where n: "band_run es n0 = Inr n" "node_ok t n" using band_run_ok [OF n0] by blast
  have "Fin 0 < v" if "bt_floor t \<le> v" for v using flt_fle_trans [OF _ that] t by (simp add: table_ok_def)
  then show ?thesis using n n0 by (auto simp: node_ok_def in_envelope_def list_all_iff)
qed

text \<open>The hold is bounded: past the timeout, and before the first confirmation, the band is the stable one.\<close>

lemma hold_falls_back: "bh_confirmed_at h = Some t \<Longrightarrow> bh_timeout h < now - t \<Longrightarrow> current_band h now = BAND_STABLE"
  by (simp add: current_band_def)

definition sample_band_config :: band_config where
  "sample_band_config = \<lparr>bc_slowest = PFloat (Fin (1/16)), bc_stable = PFloat (Fin (1/8)), bc_fastest = PFloat (Fin (1/4)),
     bc_vx_max = PFloat (Fin (1/4)), bc_floor = PFloat (Fin (1/32)), bc_timeout = PInt 2, bc_rate = PFloat (Fin 20)\<rparr>"

definition started_band_node :: speed_band_node where
  "started_band_node = \<lparr>sb_table = \<lparr>bt_slowest = Fin (1/16), bt_stable = Fin (1/8), bt_fastest = Fin (1/4), bt_vx_max = Fin (1/4),
       bt_floor = Fin (1/32)\<rparr>, sb_hold = \<lparr>bh_timeout = Fin 2, bh_band = BAND_STABLE, bh_confirmed_at = None\<rparr>,
     sb_published = [Fin (1/8)]\<rparr>"

lemma sample_band_started: "start_speed_band (\<lambda>_. None) sample_band_config (Fin 0) = Inr started_band_node"
  by code_simp

theorem speed_limit_in_envelope_witness:
  "\<exists>n. band_run [Gesture (Some (PDict [(''event'', PStr ''speed_band''), (''band'', PStr ''fastest'')])) (Fin 1) (Fin 1), BandTick (Fin 9)]
       started_band_node = Inr n \<and> sb_table n = sb_table started_band_node
     \<and> list_all (\<lambda>v. isfinite v \<and> Fin 0 < v \<and> bt_floor (sb_table started_band_node) \<le> v \<and> v \<le> bt_vx_max (sb_table started_band_node)
          \<and> v \<le> MAX_LINEAR_VELOCITY) (sb_published n)"
  by (rule speed_limit_in_envelope [OF sample_band_started])

end
