(* ===== verification/Odometry.thy ===== *)
theory Odometry
  imports Situation "HOL-Library.Word"
begin

text \<open>
  The wheel odometry \<open>warehouse_m1_driver/odom_core.py\<close>: four cumulative 32-bit encoder counters become a planar
  pose and velocities. The trigonometric functions are of \<open>lib\<close>; what \<open>int()\<close> makes of a text is \<open>itext\<close>.
\<close>

section \<open>Constants and covariance\<close>

definition FW_ENCODER_COUNTS_PER_WHEEL_REV :: pyfloat where "FW_ENCODER_COUNTS_PER_WHEEL_REV = Fin 2464"
definition FW_ASSUMED_WHEEL_DIAMETER_M :: pyfloat where "FW_ASSUMED_WHEEL_DIAMETER_M = fround (2/25)"
definition UNOBSERVED_AXIS_COV :: pyfloat where "UNOBSERVED_AXIS_COV = Fin 1000000"
definition INT32_SPAN :: int where "INT32_SPAN = 2 ^ 32"
definition INT32_HALF_SPAN :: int where "INT32_HALF_SPAN = 2 ^ 31"

definition PI_RAT :: rat where "PI_RAT = 884279719003555/281474976710656"
definition PI :: pyfloat where "PI = Fin PI_RAT"

definition diagonal_covariance :: "pyfloat \<Rightarrow> pyfloat \<Rightarrow> pyfloat \<Rightarrow> pyfloat list" where
  "diagonal_covariance in_plane yaw_like lateral =
     foldl (\<lambda>cov (i, v). cov[i * 7 := v]) (replicate 36 (Fin 0))
       (zip [0..<6] [in_plane, lateral, UNOBSERVED_AXIS_COV, UNOBSERVED_AXIS_COV, UNOBSERVED_AXIS_COV, yaw_like])"

section \<open>The state\<close>

record odom_sample =
  os_x :: pyfloat
  os_y :: pyfloat
  os_yaw :: pyfloat
  os_vx :: pyfloat
  os_wz :: pyfloat
  os_dt :: pyfloat
  os_ds :: pyfloat
  os_dyaw :: pyfloat

definition wrapped_delta :: "int \<Rightarrow> int \<Rightarrow> int" where
  "wrapped_delta cur prev =
     (let delta = (cur - prev) mod INT32_SPAN in if INT32_HALF_SPAN \<le> delta then delta - INT32_SPAN else delta)"

definition positive_geometry :: "pyfloat \<Rightarrow> pyfloat result" where
  "positive_geometry v = (if \<not> isfinite v \<or> v \<le> Fin 0 then Inl ValueError else Inr v)"

type_synonym quad = "int \<times> int \<times> int \<times> int"

record odom =
  od_track :: pyfloat
  od_signs :: quad
  od_m_per_count :: pyfloat
  od_x :: pyfloat
  od_y :: pyfloat
  od_yaw :: pyfloat
  od_prev :: "(quad \<times> pyfloat) option"

fun signs_of :: "int list \<Rightarrow> quad result" where
  "signs_of [a, b, c, d] = (if list_all (\<lambda>s. s = 1 \<or> s = - 1) [a, b, c, d] then Inr (a, b, c, d) else Inl ValueError)"
| "signs_of _ = Inl ValueError"

definition make_odom :: "pyfloat \<Rightarrow> pyfloat \<Rightarrow> pyfloat \<Rightarrow> int list \<Rightarrow> odom result" where
  "make_odom counts_per_rev diameter track signs =
     bindR (positive_geometry counts_per_rev) (\<lambda>n.
     bindR (positive_geometry diameter) (\<lambda>d.
     bindR (positive_geometry track) (\<lambda>t.
     bindR (signs_of signs) (\<lambda>s.
     bindR (fdiv (PI * d) n) (\<lambda>m.
       Inr \<lparr>od_track = t, od_signs = s, od_m_per_count = m, od_x = Fin 0, od_y = Fin 0, od_yaw = Fin 0, od_prev = None\<rparr>)))))"

section \<open>One report\<close>

text \<open>What can be unpacked, and \<open>int(c)\<close> of an item.\<close>

fun elements :: "pyval \<Rightarrow> pyval list option" where
  "elements (PList xs) = Some xs"
| "elements (PStr s) = Some (map (\<lambda>c. PStr [c]) s)"
| "elements (PDict d) = Some (map (\<lambda>(k, v). PStr k) d)"
| "elements _ = None"

fun int_value :: "(string \<Rightarrow> int option) \<Rightarrow> pyval \<Rightarrow> int result" where
  "int_value itext (PInt n) = Inr n"
| "int_value itext (PBool b) = Inr (if b then 1 else 0)"
| "int_value itext (PFloat (Fin x)) = Inr (if 0 \<le> x then \<lfloor>x\<rfloor> else \<lceil>x\<rceil>)"
| "int_value itext (PFloat NaN) = Inl ValueError"
| "int_value itext (PFloat _) = Inl OverflowError"
| "int_value itext (PStr s) = (case itext s of None \<Rightarrow> Inl ValueError | Some n \<Rightarrow> Inr n)"
| "int_value itext _ = Inl TypeError"

definition counts_of :: "(string \<Rightarrow> int option) \<Rightarrow> pyval \<Rightarrow> quad result" where
  "counts_of itext v =
     (case elements v of
        None \<Rightarrow> Inl TypeError
      | Some [a, b, c, d] \<Rightarrow>
          bindR (int_value itext a) (\<lambda>a. bindR (int_value itext b) (\<lambda>b. bindR (int_value itext c) (\<lambda>c. bindR (int_value itext d) (\<lambda>d.
            Inr (a, b, c, d)))))
      | Some _ \<Rightarrow> Inl ValueError)"

text \<open>A positive divisor: \<open>fmod\<close> is exact, a negative remainder is shifted with one rounding.\<close>

fun float_mod :: "pyfloat \<Rightarrow> rat \<Rightarrow> pyfloat" where
  "float_mod (Fin x) y =
     (let q = x / y; r = x - y * of_int (if 0 \<le> q then \<lfloor>q\<rfloor> else \<lceil>q\<rceil>) in if r < 0 then fround (r + y) else Fin r)"
| "float_mod _ y = NaN"

definition wrap_heading :: "pyfloat \<Rightarrow> pyfloat" where
  "wrap_heading yaw = (if PI < yaw \<or> yaw < - PI then float_mod (yaw + PI) (2 * PI_RAT) - PI else yaw)"

text \<open>The displacement that a pair of reports stands for; halving is a multiplication with the exact \<open>1/2\<close>.\<close>

definition wheel_step :: "odom \<Rightarrow> quad \<Rightarrow> quad \<Rightarrow> pyfloat \<times> pyfloat" where
  "wheel_step o' cur prev =
     (case (od_signs o', cur, prev) of ((s1, s2, s3, s4), (c1, c2, c3, c4), (p1, p2, p3, p4)) \<Rightarrow>
        let dist = (\<lambda>s c p. fround (of_int (s * wrapped_delta c p)) * od_m_per_count o');
            left = (dist s1 c1 p1 + dist s2 c2 p2) * Fin (1/2);
            right = (dist s3 c3 p3 + dist s4 c4 p4) * Fin (1/2)
        in (left, right))"

definition update :: "libm \<Rightarrow> (string \<Rightarrow> int option) \<Rightarrow> odom \<Rightarrow> pyval \<Rightarrow> pyval \<Rightarrow> odom_sample option result \<times> odom" where
  "update lib itext o' counts t =
     (if \<not> is_number t then (Inr None, o')
      else case to_float t of
        Inl e \<Rightarrow> (Inl e, o')
      | Inr now \<Rightarrow>
          if \<not> isfinite now then (Inr None, o')
          else case counts_of itext counts of
            Inl e \<Rightarrow> (if e = TypeError \<or> e = ValueError then Inr None else Inl e, o')
          | Inr cur \<Rightarrow>
              (case od_prev o' of
                 None \<Rightarrow> (Inr None, o'\<lparr>od_prev := Some (cur, now)\<rparr>)
               | Some (prev, prev_t) \<Rightarrow>
                   let dt = now - prev_t in
                   if dt \<le> Fin 0 then (Inr None, o')
                   else case wheel_step o' cur prev of (left, right) \<Rightarrow>
                     let ds = (left + right) * Fin (1/2) in
                     case fdiv (right - left) (od_track o') of
                       Inl e \<Rightarrow> (Inl e, o')
                     | Inr dyaw \<Rightarrow>
                         if \<not> (isfinite ds \<and> isfinite dyaw) then (Inr None, o')
                         else let mid = od_yaw o' + dyaw * Fin (1/2) in
                           case (trig (m_cos lib) mid, trig (m_sin lib) mid, fdiv ds dt, fdiv dyaw dt) of
                             (Inr c, Inr s, Inr vx, Inr wz) \<Rightarrow>
                               let x = od_x o' + ds * c; y = od_y o' + ds * s; yaw = wrap_heading (od_yaw o' + dyaw)
                               in (Inr (Some \<lparr>os_x = x, os_y = y, os_yaw = yaw, os_vx = vx, os_wz = wz, os_dt = dt,
                                     os_ds = ds, os_dyaw = dyaw\<rparr>),
                                   o'\<lparr>od_x := x, od_y := y, od_yaw := yaw, od_prev := Some (cur, now)\<rparr>)
                           | _ \<Rightarrow> (Inl ValueError, o')))"

section \<open>The wrap of the counters\<close>

text \<open>What the 32-bit counter shows of a true count.\<close>

definition int32 :: "int \<Rightarrow> int" where
  "int32 n = sint (word_of_int n :: 32 word)"

lemma wrapped_delta_exact:
  assumes "- (2 ^ 31) \<le> c - p" and "c - p < 2 ^ 31"
  shows "wrapped_delta (int32 c) (int32 p) = c - p"
proof -
  have "(int32 c - int32 p) mod 2 ^ 32 = (c - p) mod 2 ^ 32"
    by (simp add: int32_def int_word_sint mod_simps)
  moreover have "(c - p) mod 2 ^ 32 = (if c - p < 0 then c - p + 2 ^ 32 else c - p)"
    using assms mod_pos_pos_trivial [of "c - p + 2 ^ 32" "2 ^ 32"] mod_pos_pos_trivial [of "c - p" "2 ^ 32"] by auto
  ultimately show ?thesis using assms by (simp add: wrapped_delta_def Let_def INT32_SPAN_def INT32_HALF_SPAN_def)
qed

text \<open>The same with the true counts in place of the readings.\<close>

definition true_step :: "odom \<Rightarrow> quad \<Rightarrow> quad \<Rightarrow> pyfloat \<times> pyfloat" where
  "true_step o' cur prev =
     (case (od_signs o', cur, prev) of ((s1, s2, s3, s4), (c1, c2, c3, c4), (p1, p2, p3, p4)) \<Rightarrow>
        let dist = (\<lambda>s c p. fround (of_int (s * (c - p))) * od_m_per_count o');
            left = (dist s1 c1 p1 + dist s2 c2 p2) * Fin (1/2);
            right = (dist s3 c3 p3 + dist s4 c4 p4) * Fin (1/2)
        in (left, right))"

definition int32_quad :: "quad \<Rightarrow> quad" where
  "int32_quad = (\<lambda>(a, b, c, d). (int32 a, int32 b, int32 c, int32 d))"

definition quad_value :: "quad \<Rightarrow> pyval" where
  "quad_value = (\<lambda>(a, b, c, d). PList [PInt a, PInt b, PInt c, PInt d])"

definition within_half :: "quad \<Rightarrow> quad \<Rightarrow> bool" where
  "within_half c p =
     (case (c, p) of ((c1, c2, c3, c4), (p1, p2, p3, p4)) \<Rightarrow>
        list_all (\<lambda>d. - (2 ^ 31) \<le> d \<and> d < 2 ^ 31) [c1 - p1, c2 - p2, c3 - p3, c4 - p4])"

lemma wheel_step_true: "within_half c p \<Longrightarrow> wheel_step o' (int32_quad c) (int32_quad p) = true_step o' c p"
  by (cases c; cases p) (simp add: within_half_def wheel_step_def true_step_def int32_quad_def wrapped_delta_exact split: prod.split)

lemma counts_of_quad [simp]: "counts_of itext (quad_value q) = Inr q"
  by (cases q) (simp add: quad_value_def counts_of_def)

section \<open>A run of reports\<close>

text \<open>
  The reports that the odometry takes over, the first one and then each that yields a sample, with the samples. A
  report is a true count per wheel and a time; the counters show it modulo \<open>2 ^ 32\<close>.
\<close>

fun odom_run :: "libm \<Rightarrow> (string \<Rightarrow> int option) \<Rightarrow> (quad \<times> pyval) list \<Rightarrow> odom \<Rightarrow> (quad list \<times> odom_sample list \<times> odom) result" where
  "odom_run lib itext [] o' = Inr ([], [], o')"
| "odom_run lib itext ((q, t) # reports) o' =
     (case update lib itext o' (quad_value (int32_quad q)) t of
        (Inl e, _) \<Rightarrow> Inl e
      | (Inr r, o1) \<Rightarrow>
          bindR (odom_run lib itext reports o1) (\<lambda>(qs, ss, o2).
            Inr (if od_prev o1 = od_prev o' \<and> r = None then qs else q # qs, (case r of None \<Rightarrow> ss | Some s \<Rightarrow> s # ss), o2)))"

fun displacement :: "odom_sample \<Rightarrow> pyfloat \<times> pyfloat" where
  "displacement s = (os_ds s, os_dyaw s)"

definition step_displacement :: "odom \<Rightarrow> quad \<Rightarrow> quad \<Rightarrow> (pyfloat \<times> pyfloat) option" where
  "step_displacement o' p c =
     (case true_step o' c p of (left, right) \<Rightarrow>
        (case fdiv (right - left) (od_track o') of Inr w \<Rightarrow> Some ((left + right) * Fin (1/2), w) | Inl _ \<Rightarrow> None))"

fun adjacent :: "('a \<Rightarrow> 'a \<Rightarrow> 'b) \<Rightarrow> 'a list \<Rightarrow> 'b list" where
  "adjacent f (x # y # zs) = f x y # adjacent f (y # zs)"
| "adjacent f _ = []"

lemma update_cases:
  assumes "update lib itext o' (quad_value q) t = (Inr r, o1)"
  shows "od_track o1 = od_track o' \<and> od_signs o1 = od_signs o' \<and> od_m_per_count o1 = od_m_per_count o'
     \<and> (case r of
          None \<Rightarrow> o1 = o' \<or> od_prev o' = None \<and> (\<exists>now. od_prev o1 = Some (q, now))
        | Some s \<Rightarrow> (\<exists>prev prev_t now left right. od_prev o' = Some (prev, prev_t) \<and> od_prev o1 = Some (q, now)
            \<and> wheel_step o' q prev = (left, right) \<and> os_ds s = (left + right) * Fin (1/2)
            \<and> fdiv (right - left) (od_track o') = Inr (os_dyaw s)))"
  using assms by (auto simp: update_def Let_def split: if_splits sum.splits option.splits prod.splits)

lemma step_displacement_cong:
  "od_track o1 = od_track o' \<Longrightarrow> od_signs o1 = od_signs o' \<Longrightarrow> od_m_per_count o1 = od_m_per_count o' \<Longrightarrow>
     step_displacement o1 = step_displacement o'"
  by (simp add: step_displacement_def true_step_def fun_eq_iff)

lemma run_displacements:
  assumes "odom_run lib itext reports o' = Inr (qs, ss, o2)"
    and "case od_prev o' of None \<Rightarrow> start = [] | Some (p, _) \<Rightarrow> \<exists>q. start = [q] \<and> p = int32_quad q"
    and "list_all id (adjacent (\<lambda>p c. within_half c p) (start @ qs))"
  shows "map (Some \<circ> displacement) ss = adjacent (step_displacement o') (start @ qs)"
  using assms
proof (induction reports arbitrary: o' qs ss start)
  case Nil
  then show ?case by (cases "od_prev o'") auto
next
  case (Cons rt reports)
  obtain q t where rt: "rt = (q, t)" by (cases rt)
  obtain r o1 where u: "update lib itext o' (quad_value (int32_quad q)) t = (Inr r, o1)"
    using Cons.prems(1) by (auto simp: rt split: prod.splits sum.splits)
  obtain qs' ss' where run: "odom_run lib itext reports o1 = Inr (qs', ss', o2)"
      and qs: "qs = (if od_prev o1 = od_prev o' \<and> r = None then qs' else q # qs')"
      and ss: "ss = (case r of None \<Rightarrow> ss' | Some s \<Rightarrow> s # ss')"
    using Cons.prems(1) by (auto simp: rt u bindR_Inr_iff)
  note c = update_cases [OF u]
  have sd: "step_displacement o1 = step_displacement o'" using c by (intro step_displacement_cong) simp_all
  show ?case
  proof (cases r)
    case None
    then consider "o1 = o'" | now where "od_prev o' = None" "od_prev o1 = Some (int32_quad q, now)" using c by auto
    then show ?thesis
    proof cases
      case 1
      then show ?thesis using Cons.IH [OF run, of start] Cons.prems(2,3) qs ss None by simp
    next
      case 2
      then show ?thesis using Cons.IH [OF run, of "[q]"] Cons.prems(2,3) qs ss None sd by simp
    qed
  next
    case (Some s)
    then obtain prev prev_t now left right where s: "od_prev o' = Some (prev, prev_t)" "od_prev o1 = Some (int32_quad q, now)"
        "wheel_step o' (int32_quad q) prev = (left, right)" "os_ds s = (left + right) * Fin (1/2)"
        "fdiv (right - left) (od_track o') = Inr (os_dyaw s)"
      using c by auto
    obtain p where p: "start = [p]" "prev = int32_quad p" using Cons.prems(2) s(1) by auto
    have "within_half q p" using Cons.prems(3) p qs Some by simp
    then have "step_displacement o' p q = Some (displacement s)"
      using s p wheel_step_true [of q p o'] by (simp add: step_displacement_def)
    then show ?thesis using Cons.IH [OF run, of "[q]"] Cons.prems(3) s(2) qs ss Some sd p by simp
  qed
qed

text \<open>
  C22. The wheel odometry sees the true counts through the 32-bit wrap: over any run of reports, the samples are
  exactly the displacements between consecutive reports taken over, computed from the true counts, as long as
  no wheel turns by half the counter range in between; so a dropped report loses no distance.
\<close>

theorem odometry_sees_true_counts:
  assumes "make_odom counts_per_rev diameter track signs = Inr o0"
    and "odom_run lib itext reports o0 = Inr (qs, ss, o1)"
    and "list_all id (adjacent (\<lambda>p c. within_half c p) qs)"
  shows "map (Some \<circ> displacement) ss = adjacent (step_displacement o0) qs"
proof -
  have "od_prev o0 = None" using assms(1) by (auto simp: make_odom_def bindR_Inr_iff)
  then show ?thesis using run_displacements [OF assms(2), of "[]"] assms(3) by simp
qed

section \<open>A wrap of the counters\<close>

definition straight_libm :: libm where
  "straight_libm = \<lparr>m_hypot = (\<lambda>a b. 0), m_sin = (\<lambda>a. Fin 0), m_cos = (\<lambda>a. Fin 1), m_atan2 = (\<lambda>a b. a)\<rparr>"

definition sample_odom :: odom where
  "sample_odom = \<lparr>od_track = Fin (1/2), od_signs = (1, 1, - 1, - 1), od_m_per_count = PI, od_x = Fin 0, od_y = Fin 0,
     od_yaw = Fin 0, od_prev = None\<rparr>"

definition sample_reports :: "(quad \<times> pyval) list" where
  "sample_reports = [((2147483647, 5, 0, 0), PFloat (Fin 1)), ((2147483648, 6, - 1, - 1), PFloat (Fin 1)),
     ((2147483649, 7, - 2, - 2), PInt 2)]"

definition sample_move :: odom_sample where
  "sample_move = \<lparr>os_x = PI * Fin 2, os_y = Fin 0, os_yaw = Fin 0, os_vx = PI * Fin 2, os_wz = Fin 0, os_dt = Fin 1,
     os_ds = PI * Fin 2, os_dyaw = Fin 0\<rparr>"

lemma sample_odom_made: "make_odom (Fin 1) (Fin 1) (Fin (1/2)) [1, 1, - 1, - 1] = Inr sample_odom"
  by code_simp

lemma sample_odom_run: "odom_run straight_libm (\<lambda>_. None) sample_reports sample_odom =
    Inr ([(2147483647, 5, 0, 0), (2147483649, 7, - 2, - 2)], [sample_move],
      sample_odom\<lparr>od_x := PI * Fin 2, od_prev := Some ((- 2147483647, 7, - 2, - 2), Fin 2)\<rparr>)"
  by code_simp

theorem odometry_sees_true_counts_witness:
  "map (Some \<circ> displacement) [sample_move] =
     adjacent (step_displacement sample_odom) [(2147483647, 5, 0, 0), (2147483649, 7, - 2, - 2)]"
  by (rule odometry_sees_true_counts [OF sample_odom_made sample_odom_run]) (simp add: within_half_def)

section \<open>The heading\<close>

lemma PI_double: "round53 PI_RAT = PI_RAT" "round53 (2 * PI_RAT) = 2 * PI_RAT"
  using round53_exact [of 884279719003555 "- 48"] round53_exact [of 884279719003555 "- 47"]
  by (simp_all add: PI_RAT_def power_int_def power_divide)

lemma PI_small: "0 < PI_RAT" "PI_RAT < 4" "4 < overflow_bound"
  using overflow_bound_gt by (simp_all add: PI_RAT_def)

lemma float_mod_range:
  assumes "0 < y" and "round53 y = y" and "y < overflow_bound"
  shows "\<exists>m. float_mod (Fin x) y = Fin m \<and> 0 \<le> m \<and> m \<le> y"
proof -
  define r where "r = x - y * of_int (if 0 \<le> x / y then \<lfloor>x / y\<rfloor> else \<lceil>x / y\<rceil>)"
  have x: "x = y * (x / y)" using assms(1) by simp
  have r_eq: "r = y * (x / y - of_int (if 0 \<le> x / y then \<lfloor>x / y\<rfloor> else \<lceil>x / y\<rceil>))"
    unfolding r_def right_diff_distrib using x by simp
  define f where "f = x / y - of_int (if 0 \<le> x / y then \<lfloor>x / y\<rfloor> else \<lceil>x / y\<rceil>)"
  have f: "- 1 < f" "f < 1" unfolding f_def by (cases "0 \<le> x / y"; simp; linarith)+
  have r: "r = y * f" unfolding f_def by (rule r_eq)
  have "y * f < y * 1" "y * (- 1) < y * f" using f assms(1) by (simp_all only: mult_less_cancel_left_pos)
  then have b: "- y < r" "r < y" using r by simp_all
  show ?thesis
  proof (cases "r < 0")
    case False
    then show ?thesis using b by (auto simp: Let_def r_def)
  next
    case True
    have "0 \<le> round53 (r + y)" using b by (simp add: round53_nonneg)
    moreover have "round53 (r + y) \<le> y" using round53_mono [of "r + y" y] True assms(2) by simp
    ultimately have "fround (r + y) = Fin (round53 (r + y)) \<and> 0 \<le> round53 (r + y) \<and> round53 (r + y) \<le> y"
      using assms(3) overflow_bound_pos by (auto simp: fround_alt)
    then show ?thesis using True by (auto simp: Let_def r_def)
  qed
qed

text \<open>The wrapped heading lies in the half-open turn up to the rounding of its ends.\<close>

lemma heading_in_range:
  assumes "isfinite yaw" and "isfinite (yaw + PI)"
  shows "- PI \<le> wrap_heading yaw \<and> wrap_heading yaw \<le> PI"
proof (cases "PI < yaw \<or> yaw < - PI")
  case False
  then have "wrap_heading yaw = yaw" by (simp only: wrap_heading_def if_False)
  then show ?thesis using False assms(1) by (simp add: not_flt PI_def)
next
  case True
  obtain x where x: "yaw + PI = Fin x" using assms(2) by (auto simp: isfinite_iff)
  obtain m where m: "float_mod (Fin x) (2 * PI_RAT) = Fin m" "0 \<le> m" "m \<le> 2 * PI_RAT"
    using float_mod_range [of "2 * PI_RAT" x] PI_double PI_small overflow_bound_gt by auto
  have "round53 (- PI_RAT) \<le> round53 (m - PI_RAT)" "round53 (m - PI_RAT) \<le> round53 PI_RAT"
    using m(2,3) by (intro round53_mono; simp)+
  then have "- PI_RAT \<le> round53 (m - PI_RAT)" "round53 (m - PI_RAT) \<le> PI_RAT" using PI_double by (simp_all add: round53_minus)
  moreover from this have "fround (m - PI_RAT) = Fin (round53 (m - PI_RAT))" using PI_small by (auto simp: fround_alt)
  ultimately show ?thesis using True x m(1) by (simp add: wrap_heading_def PI_def)
qed

section \<open>Where a malformed report raises\<close>

text \<open>An infinite count is documented to be dropped like any malformed report, but \<open>int()\<close> raises \<open>OverflowError\<close>.\<close>

lemma infinite_count_raises:
  "update lib itext o' (PList [PFloat PInf, PInt 0, PInt 0, PInt 0]) (PFloat (Fin 1)) = (Inl OverflowError, o')"
  by (simp add: update_def counts_of_def)

end
