(* ===== verification/Negotiation.thy ===== *)
theory Negotiation
  imports Scheduler PyText
begin

text \<open>
  The negotiation between the two personas, \<open>warehouse_llm_bridge/negotiation.py\<close> and \<open>parse_turn\<close> of
  \<open>persona.py\<close>. What each turn meets (the abort flag, the clock, the winner of the race, the answer of the
  persona) is the input; the prompt only goes to the persona and is left out. The parser of JSON, \<open>str()\<close> of
  other values and the schema library's reading of an agreed action are in \<open>talk_env\<close>.
\<close>

definition MAX_TURNS_PER_BOT :: int where "MAX_TURNS_PER_BOT = 4"
definition MAX_TURNS_TOTAL :: nat where "MAX_TURNS_TOTAL = 8"
definition DEADLINE_SECONDS :: pyfloat where "DEADLINE_SECONDS = Fin 8"

datatype negotiation_status = AGREED | NO_AGREEMENT | TALK_TIMEOUT | TALK_ABORTED

section \<open>Turns\<close>

record transcript_line =
  tl_speaker :: string
  tl_text :: string

record agreed_action =
  aa_action :: command_action
  aa_by :: string
  aa_to :: "string option"
  aa_duration :: "pyfloat option"

record talk_proposal =
  np_negotiation_id :: string
  np_gen_id :: int
  np_agreed :: agreed_action
  np_transcript :: "transcript_line list"
  np_reached_at :: pyfloat

record negotiation_outcome =
  no_status :: negotiation_status
  no_transcript :: "transcript_line list"
  no_proposal :: "talk_proposal option"
  no_turns :: nat

record negotiation_context =
  nc_id :: string
  nc_gen_id :: int
  nc_starter :: string
  nc_bots :: "string list"

record talk_env =
  tk_loads :: "string \<Rightarrow> pyval option"
  tk_str :: "pyval \<Rightarrow> string"
  tk_agreed :: "(string \<times> pyval) list \<Rightarrow> agreed_action option"

record turn_result =
  tu_speech :: string
  tu_agreed :: "(string \<times> pyval) list option"

definition parse_turn :: "talk_env \<Rightarrow> string \<Rightarrow> turn_result" where
  "parse_turn e raw =
     (let text = py_strip raw in
      case tk_loads e text of
        Some (PDict d) \<Rightarrow>
          \<lparr>tu_speech = (case map_of d ''speech'' of None \<Rightarrow> [] | Some (PStr s) \<Rightarrow> s | Some v \<Rightarrow> tk_str e v),
           tu_agreed = (case dget d ''agreed_action'' of PDict a \<Rightarrow> Some a | _ \<Rightarrow> None)\<rparr>
      | _ \<Rightarrow> \<lparr>tu_speech = text, tu_agreed = None\<rparr>)"

text \<open>One turn as it happens: the flags before, during and after the call, the clock, and what the persona gave.\<close>

record turn_world =
  tw_abort :: bool
  tw_now :: pyfloat
  tw_abort_won :: bool
  tw_deadline_won :: bool
  tw_reply :: "string result"
  tw_abort_after :: bool
  tw_reached_at :: pyfloat

datatype spoken = Spoke string | TurnAborted | TurnTimedOut | SpeakRaised exc

definition speak_with_guards :: "turn_world \<Rightarrow> spoken" where
  "speak_with_guards w =
     (if tw_abort_won w then TurnAborted
      else if tw_deadline_won w then TurnTimedOut
      else case tw_reply w of Inr s \<Rightarrow> Spoke s | Inl e \<Rightarrow> SpeakRaised e)"

definition try_build_proposal ::
    "talk_env \<Rightarrow> negotiation_context \<Rightarrow> pyfloat \<Rightarrow> (string \<times> pyval) list \<Rightarrow> transcript_line list \<Rightarrow> talk_proposal option" where
  "try_build_proposal e ctx now raw transcript =
     map_option (\<lambda>a. \<lparr>np_negotiation_id = nc_id ctx, np_gen_id = nc_gen_id ctx, np_agreed = a, np_transcript = transcript,
       np_reached_at = now\<rparr>) (tk_agreed e raw)"

definition other_bot :: "string \<Rightarrow> string list \<Rightarrow> string result" where
  "other_bot starter bots = (case filter (\<lambda>b. b \<noteq> starter) bots of [b] \<Rightarrow> Inr b | _ \<Rightarrow> Inl ValueError)"

section \<open>The episode\<close>

record talk_limits =
  lim_per_bot :: int
  lim_total :: nat
  lim_deadline :: pyfloat

record talk =
  ta_transcript :: "transcript_line list"
  ta_per_bot :: "(string, int) pydict"
  ta_batons :: "(transcript_line \<times> nat \<times> string) list"

definition outcome_of :: "negotiation_status \<Rightarrow> talk \<Rightarrow> talk_proposal option \<Rightarrow> nat \<Rightarrow> negotiation_outcome" where
  "outcome_of st t p n = \<lparr>no_status = st, no_transcript = ta_transcript t, no_proposal = p, no_turns = n\<rparr>"

definition bot_turns :: "talk \<Rightarrow> string \<Rightarrow> int" where
  "bot_turns t b = (case map_of (ta_per_bot t) b of None \<Rightarrow> 0 | Some n \<Rightarrow> n)"

text \<open>\<open>todo\<close> turns are left, \<open>i\<close> is the index of the next; the second result is what \<open>on_turn\<close> was called with.\<close>

fun talk_loop ::
    "talk_env \<Rightarrow> negotiation_context \<Rightarrow> int \<Rightarrow> pyfloat \<Rightarrow> string \<Rightarrow> (nat \<Rightarrow> turn_world) \<Rightarrow> nat \<Rightarrow> nat \<Rightarrow> talk \<Rightarrow>
     (negotiation_outcome \<times> talk) result" where
  "talk_loop e ctx per_bot deadline_at other ws i 0 t = Inr (outcome_of NO_AGREEMENT t None (length (ta_transcript t)), t)"
| "talk_loop e ctx per_bot deadline_at other ws i (Suc todo) t =
     (let w = ws i in
      if tw_abort w then Inr (outcome_of TALK_ABORTED t None i, t)
      else if deadline_at \<le> tw_now w then Inr (outcome_of TALK_TIMEOUT t None i, t)
      else
        let speaker = (if even i then nc_starter ctx else other);
            listener = (if speaker = nc_starter ctx then other else nc_starter ctx)
        in if per_bot \<le> bot_turns t speaker then Inr (outcome_of NO_AGREEMENT t None (length (ta_transcript t)), t)
        else
          let t = t\<lparr>ta_per_bot := AList.update speaker (bot_turns t speaker + 1) (ta_per_bot t)\<rparr> in
          case speak_with_guards w of
            TurnAborted \<Rightarrow> Inr (outcome_of TALK_ABORTED t None i, t)
          | TurnTimedOut \<Rightarrow> Inr (outcome_of TALK_TIMEOUT t None i, t)
          | SpeakRaised ex \<Rightarrow> Inl ex
          | Spoke raw \<Rightarrow>
              if tw_abort_after w then Inr (outcome_of TALK_ABORTED t None i, t)
              else
                let turn = parse_turn e raw; line = \<lparr>tl_speaker = speaker, tl_text = tu_speech turn\<rparr>;
                    t = t\<lparr>ta_transcript := ta_transcript t @ [line], ta_batons := ta_batons t @ [(line, Suc i, listener)]\<rparr>
                in case Option.bind (tu_agreed turn) (\<lambda>a. try_build_proposal e ctx (tw_reached_at w) a (ta_transcript t)) of
                  Some p \<Rightarrow> Inr (outcome_of AGREED t (Some p) (Suc i), t)
                | None \<Rightarrow> talk_loop e ctx per_bot deadline_at other ws (Suc i) todo t)"

definition negotiate ::
    "talk_env \<Rightarrow> talk_limits \<Rightarrow> negotiation_context \<Rightarrow> pyfloat \<Rightarrow> (nat \<Rightarrow> turn_world) \<Rightarrow> (negotiation_outcome \<times> talk) result" where
  "negotiate e lm ctx start ws =
     bindR (other_bot (nc_starter ctx) (nc_bots ctx)) (\<lambda>other.
       talk_loop e ctx (lim_per_bot lm) (start + lim_deadline lm) other ws 0 (lim_total lm)
         \<lparr>ta_transcript = [], ta_per_bot = [(nc_starter ctx, 0), (other, 0)], ta_batons = []\<rparr>)"

section \<open>What an episode guarantees\<close>

text \<open>A turn that nobody aborted and that came in time.\<close>

definition clean_turn :: "pyfloat \<Rightarrow> turn_world \<Rightarrow> bool" where
  "clean_turn deadline_at w \<longleftrightarrow>
     \<not> tw_abort w \<and> \<not> deadline_at \<le> tw_now w \<and> \<not> tw_abort_won w \<and> \<not> tw_deadline_won w \<and> \<not> tw_abort_after w"

definition speaker_at :: "negotiation_context \<Rightarrow> string \<Rightarrow> nat \<Rightarrow> string" where
  "speaker_at ctx other i = (if even i then nc_starter ctx else other)"

definition lines_of :: "string \<Rightarrow> transcript_line list \<Rightarrow> int" where
  "lines_of b ls = int (length (filter (\<lambda>l. tl_speaker l = b) ls))"

definition batons_of :: "negotiation_context \<Rightarrow> string \<Rightarrow> transcript_line list \<Rightarrow> (transcript_line \<times> nat \<times> string) list" where
  "batons_of ctx other ls = map (\<lambda>j. (ls ! j, Suc j, speaker_at ctx other (Suc j))) [0..<length ls]"

definition talk_ok :: "negotiation_context \<Rightarrow> string \<Rightarrow> int \<Rightarrow> pyfloat \<Rightarrow> (nat \<Rightarrow> turn_world) \<Rightarrow> nat \<Rightarrow> talk \<Rightarrow> bool" where
  "talk_ok ctx other cap d ws i t \<longleftrightarrow>
     map tl_speaker (ta_transcript t) = map (speaker_at ctx other) [0..<i]
     \<and> list_all (\<lambda>j. clean_turn d (ws j)) [0..<i] \<and> ta_batons t = batons_of ctx other (ta_transcript t)
     \<and> (\<forall>b. bot_turns t b = lines_of b (ta_transcript t) \<and> lines_of b (ta_transcript t) \<le> max 0 cap)"

definition outcome_ok ::
    "negotiation_context \<Rightarrow> string \<Rightarrow> int \<Rightarrow> pyfloat \<Rightarrow> (nat \<Rightarrow> turn_world) \<Rightarrow> nat \<Rightarrow> negotiation_outcome \<times> talk \<Rightarrow> bool" where
  "outcome_ok ctx other cap d ws most r \<longleftrightarrow>
     (case r of (out, t) \<Rightarrow>
       no_transcript out = ta_transcript t \<and> ta_batons t = batons_of ctx other (ta_transcript t)
       \<and> map tl_speaker (no_transcript out) = map (speaker_at ctx other) [0..<no_turns out] \<and> no_turns out \<le> most
       \<and> (\<forall>b. lines_of b (no_transcript out) \<le> max 0 cap)
       \<and> list_all (\<lambda>j. clean_turn d (ws j)) [0..<no_turns out]
       \<and> (case no_proposal out of
            None \<Rightarrow> no_status out \<noteq> AGREED
          | Some p \<Rightarrow> no_status out = AGREED \<and> 0 < no_turns out \<and> np_transcript p = no_transcript out
              \<and> np_gen_id p = nc_gen_id ctx \<and> np_negotiation_id p = nc_id ctx))"

lemma talk_ok_length: "talk_ok ctx other cap d ws i t \<Longrightarrow> length (ta_transcript t) = i"
  unfolding talk_ok_def by (metis diff_zero length_map length_upt)

lemma lines_of_snoc: "lines_of b (ls @ [l]) = lines_of b ls + (if tl_speaker l = b then 1 else 0)"
  by (simp add: lines_of_def)

lemma batons_of_snoc:
  "batons_of ctx other (ls @ [l]) = batons_of ctx other ls @ [(l, Suc (length ls), speaker_at ctx other (Suc (length ls)))]"
  by (simp add: batons_of_def nth_append cong: map_cong)

lemma talk_step:
  assumes "talk_ok ctx other cap d ws i t" and "clean_turn d (ws i)" and "\<not> cap \<le> bot_turns t (speaker_at ctx other i)"
    and "line = \<lparr>tl_speaker = speaker_at ctx other i, tl_text = s\<rparr>"
    and "t' = t\<lparr>ta_per_bot := AList.update (speaker_at ctx other i) (bot_turns t (speaker_at ctx other i) + 1) (ta_per_bot t),
      ta_transcript := ta_transcript t @ [line], ta_batons := ta_batons t @ [(line, Suc i, speaker_at ctx other (Suc i))]\<rparr>"
  shows "talk_ok ctx other cap d ws (Suc i) t'"
proof -
  have "bot_turns t' b = bot_turns t b + (if speaker_at ctx other i = b then 1 else 0)" for b
    by (simp add: bot_turns_def assms(5))
  then show ?thesis using assms(1-4) talk_ok_length [OF assms(1)]
    by (auto simp: talk_ok_def lines_of_snoc batons_of_snoc assms(5))
qed

lemma stopped:
  assumes "talk_ok ctx other cap d ws i t" and "i \<le> most" and "st \<noteq> AGREED"
  shows "outcome_ok ctx other cap d ws most (outcome_of st (t\<lparr>ta_per_bot := b\<rparr>) None i, t\<lparr>ta_per_bot := b\<rparr>)"
    and "outcome_ok ctx other cap d ws most (outcome_of st t None i, t)"
  using assms by (auto simp: outcome_of_def outcome_ok_def talk_ok_def)

lemma agreed:
  assumes "talk_ok ctx other cap d ws (Suc i) t" and "Suc i \<le> most" and "try_build_proposal e ctx now a (ta_transcript t) = Some p"
  shows "outcome_ok ctx other cap d ws most (outcome_of AGREED t (Some p) (Suc i), t)"
  using assms by (auto simp: outcome_of_def outcome_ok_def talk_ok_def try_build_proposal_def)

lemma talk_loop_ok:
  assumes "talk_loop e ctx cap d other ws i todo t = Inr r" and "talk_ok ctx other cap d ws i t" and "other \<noteq> nc_starter ctx"
  shows "outcome_ok ctx other cap d ws (i + todo) r"
  using assms
proof (induction todo arbitrary: i t)
  case 0
  then show ?case using talk_ok_length [OF 0(2)] stopped(2) [OF 0(2)] by auto
next
  case (Suc todo)
  let ?w = "ws i" let ?sp = "speaker_at ctx other i"
  note len = talk_ok_length [OF Suc.prems(2)]
  note stop = stopped [OF Suc.prems(2), of "i + Suc todo"]
  have listener: "(if ?sp = nc_starter ctx then other else nc_starter ctx) = speaker_at ctx other (Suc i)"
    using Suc.prems(3) by (simp add: speaker_at_def)
  have sp: "(if even i then nc_starter ctx else other) = ?sp" by (simp only: speaker_at_def)
  define t1 where "t1 = t\<lparr>ta_per_bot := AList.update ?sp (bot_turns t ?sp + 1) (ta_per_bot t)\<rparr>"
  show ?case
  proof (cases "tw_abort ?w \<or> d \<le> tw_now ?w \<or> cap \<le> bot_turns t ?sp")
    case True
    then show ?thesis using Suc.prems(1) stop len by (auto simp: Let_def speaker_at_def split: if_splits)
  next
    case False
    then have r: "(case speak_with_guards ?w of
            TurnAborted \<Rightarrow> Inr (outcome_of TALK_ABORTED t1 None i, t1)
          | TurnTimedOut \<Rightarrow> Inr (outcome_of TALK_TIMEOUT t1 None i, t1)
          | SpeakRaised ex \<Rightarrow> Inl ex
          | Spoke raw \<Rightarrow>
              if tw_abort_after ?w then Inr (outcome_of TALK_ABORTED t1 None i, t1)
              else
                let turn = parse_turn e raw; line = \<lparr>tl_speaker = ?sp, tl_text = tu_speech turn\<rparr>;
                    u = t1\<lparr>ta_transcript := ta_transcript t1 @ [line], ta_batons := ta_batons t1 @ [(line, Suc i, speaker_at ctx other (Suc i))]\<rparr>
                in case Option.bind (tu_agreed turn) (\<lambda>a. try_build_proposal e ctx (tw_reached_at ?w) a (ta_transcript u)) of
                  Some p \<Rightarrow> Inr (outcome_of AGREED u (Some p) (Suc i), u)
                | None \<Rightarrow> talk_loop e ctx cap d other ws (Suc i) todo u) = Inr r"
      using Suc.prems(1) by (simp only: talk_loop.simps Let_def sp listener t1_def de_Morgan_disj if_False)
    show ?thesis
    proof (cases "speak_with_guards ?w")
      case (Spoke raw)
      show ?thesis
      proof (cases "tw_abort_after ?w")
        case True
        then show ?thesis using r Spoke stop(1) by (auto simp: t1_def)
      next
        case noabort: False
        define line where "line = \<lparr>tl_speaker = ?sp, tl_text = tu_speech (parse_turn e raw)\<rparr>"
        define u where "u = t1\<lparr>ta_transcript := ta_transcript t1 @ [line], ta_batons := ta_batons t1 @ [(line, Suc i, speaker_at ctx other (Suc i))]\<rparr>"
        have "clean_turn d ?w" using False noabort Spoke
          by (auto simp: clean_turn_def speak_with_guards_def split: if_splits)
        then have ok: "talk_ok ctx other cap d ws (Suc i) u"
          by (rule talk_step [OF Suc.prems(2)]) (use False in \<open>simp_all add: line_def u_def t1_def\<close>)
        have r': "(case Option.bind (tu_agreed (parse_turn e raw)) (\<lambda>a. try_build_proposal e ctx (tw_reached_at ?w) a (ta_transcript u)) of
                  Some p \<Rightarrow> Inr (outcome_of AGREED u (Some p) (Suc i), u)
                | None \<Rightarrow> talk_loop e ctx cap d other ws (Suc i) todo u) = Inr r"
          using r noabort unfolding Spoke by (simp only: spoken.case Let_def if_False u_def line_def)
        show ?thesis using r' Suc.IH [OF _ ok Suc.prems(3)] agreed [OF ok]
          by (auto simp: bind_eq_Some_conv split: option.splits)
      qed
    qed (use r stop(1) in \<open>auto simp: t1_def\<close>)
  qed
qed

text \<open>
  C25. A proposal only comes out of a clean conversation: in every episode the two bots speak in turn from the
  starter on, within the limits, and the batons passed say so; every line was spoken with no abort raised, the
  deadline not reached and the race not lost; and the episode ends as agreed exactly when it carries a
  proposal, which holds the transcript, the generation and the id of the episode.
\<close>

theorem proposal_from_clean_talk:
  assumes "negotiate e lm ctx start ws = Inr r"
  shows "\<exists>other. other_bot (nc_starter ctx) (nc_bots ctx) = Inr other
     \<and> outcome_ok ctx other (lim_per_bot lm) (start + lim_deadline lm) ws (lim_total lm) r"
proof -
  obtain other where o: "other_bot (nc_starter ctx) (nc_bots ctx) = Inr other"
      "talk_loop e ctx (lim_per_bot lm) (start + lim_deadline lm) other ws 0 (lim_total lm)
         \<lparr>ta_transcript = [], ta_per_bot = [(nc_starter ctx, 0), (other, 0)], ta_batons = []\<rparr> = Inr r"
    using assms by (auto simp: negotiate_def bindR_Inr_iff)
  have f: "filter (\<lambda>b. b \<noteq> nc_starter ctx) (nc_bots ctx) = [other]"
    using o(1) by (auto simp: other_bot_def split: list.splits)
  have "other \<in> set (filter (\<lambda>b. b \<noteq> nc_starter ctx) (nc_bots ctx))" unfolding f by simp
  then have "other \<noteq> nc_starter ctx" by simp
  moreover have "talk_ok ctx other (lim_per_bot lm) (start + lim_deadline lm) ws 0
      \<lparr>ta_transcript = [], ta_per_bot = [(nc_starter ctx, 0), (other, 0)], ta_batons = []\<rparr>"
    by (simp add: talk_ok_def bot_turns_def lines_of_def batons_of_def)
  ultimately show ?thesis using talk_loop_ok [OF o(2)] o(1) by simp
qed

section \<open>A short conversation\<close>

definition sample_talk_env :: talk_env where
  "sample_talk_env = \<lparr>tk_loads = (\<lambda>s. if s = ''ok'' then Some (PDict [(''speech'', PStr ''fine''), (''agreed_action'', PDict [])]) else None),
     tk_str = (\<lambda>_. []), tk_agreed = (\<lambda>_. Some \<lparr>aa_action = YIELD, aa_by = ''bot2'', aa_to = None, aa_duration = None\<rparr>)\<rparr>"

definition talk_sample_limits :: talk_limits where
  "talk_sample_limits = \<lparr>lim_per_bot = MAX_TURNS_PER_BOT, lim_total = MAX_TURNS_TOTAL, lim_deadline = DEADLINE_SECONDS\<rparr>"

definition sample_talk_context :: negotiation_context where
  "sample_talk_context = \<lparr>nc_id = ''n1'', nc_gen_id = 5, nc_starter = ''bot1'', nc_bots = [''bot1'', ''bot2'']\<rparr>"

definition sample_turns :: "nat \<Rightarrow> turn_world" where
  "sample_turns i = \<lparr>tw_abort = False, tw_now = Fin 1, tw_abort_won = False, tw_deadline_won = False,
     tw_reply = Inr (if i = 0 then ''hello'' else ''ok''), tw_abort_after = False, tw_reached_at = Fin 2\<rparr>"

definition sample_outcome :: "negotiation_outcome \<times> talk" where
  "sample_outcome =
     (let ls = [\<lparr>tl_speaker = ''bot1'', tl_text = ''hello''\<rparr>, \<lparr>tl_speaker = ''bot2'', tl_text = ''fine''\<rparr>]
      in (\<lparr>no_status = AGREED, no_transcript = ls,
           no_proposal = Some \<lparr>np_negotiation_id = ''n1'', np_gen_id = 5, np_agreed = \<lparr>aa_action = YIELD, aa_by = ''bot2'', aa_to = None,
             aa_duration = None\<rparr>, np_transcript = ls, np_reached_at = Fin 2\<rparr>, no_turns = 2\<rparr>,
          \<lparr>ta_transcript = ls, ta_per_bot = [(''bot1'', 1), (''bot2'', 1)],
           ta_batons = [(ls ! 0, 1, ''bot2''), (ls ! 1, 2, ''bot1'')]\<rparr>))"

lemma sample_negotiation: "negotiate sample_talk_env talk_sample_limits sample_talk_context (Fin 0) sample_turns = Inr sample_outcome"
  by code_simp

theorem proposal_from_clean_talk_witness:
  "\<exists>other. other_bot (nc_starter sample_talk_context) (nc_bots sample_talk_context) = Inr other
     \<and> outcome_ok sample_talk_context other (lim_per_bot talk_sample_limits) (Fin 0 + lim_deadline talk_sample_limits) sample_turns
         (lim_total talk_sample_limits) sample_outcome"
  by (rule proposal_from_clean_talk [OF sample_negotiation])

end
