(* ===== verification/SignalTemporalProps.thy ===== *)
theory SignalTemporalProps
  imports SignalTemporal "HOL-Library.Multiset"
begin

text \<open>
  The judgement never raises on readable data, GREEN rests on a lamp that was lit throughout the
  window, and the order in which samples arrive does not matter.
\<close>

section \<open>Sorting\<close>

lemma mset_insert_by [simp]: "mset (insert_by key x ys) = add_mset x (mset ys)"
  by (induction ys) auto

lemma py_sorted_simps [simp]: "py_sorted key [] = []" "py_sorted key (x # xs) = insert_by key x (py_sorted key xs)"
  by (simp_all add: py_sorted_def)

lemma mset_py_sorted [simp]: "mset (py_sorted key xs) = mset xs"
  by (induction xs) simp_all

lemma set_py_sorted [simp]: "set (py_sorted key xs) = set xs"
  by (metis mset_py_sorted set_mset_mset)

lemma length_py_sorted [simp]: "length (py_sorted key xs) = length xs"
  by (metis mset_py_sorted size_mset)

lemma py_sorted_Nil_iff [simp]: "py_sorted key xs = [] \<longleftrightarrow> xs = []"
  by (metis length_0_conv length_py_sorted)

definition in_order :: "('a \<Rightarrow> pyfloat) \<Rightarrow> 'a list \<Rightarrow> bool" where
  "in_order key = sorted_wrt (\<lambda>x y. key x \<le> key y)"

lemma insert_by_in_order:
  assumes "\<not> isnan (key x)" "\<forall>y \<in> set ys. \<not> isnan (key y)" "in_order key ys"
  shows "in_order key (insert_by key x ys)"
  using assms(2,3)
proof (induction ys)
  case (Cons y ys)
  have set_ins: "set (insert_by key x ys) = insert x (set ys)"
    by (metis mset_insert_by set_mset_add_mset_insert set_mset_mset)
  show ?case
  proof (cases "key y < key x")
    case True
    then show ?thesis using Cons by (auto simp: in_order_def set_ins intro: flt_le)
  next
    case False
    then have "key x \<le> key y" using Cons.prems assms(1) by (simp add: not_flt)
    then show ?thesis using Cons.prems False by (auto simp: in_order_def intro: fle_trans)
  qed
qed (simp add: in_order_def)

lemma py_sorted_in_order: "\<forall>x \<in> set xs. \<not> isnan (key x) \<Longrightarrow> in_order key (py_sorted key xs)"
proof (induction xs)
  case (Cons x xs)
  then show ?case by (simp add: insert_by_in_order)
qed (simp add: in_order_def)

lemma in_order_last: "in_order key xs \<Longrightarrow> x \<in> set xs \<Longrightarrow> \<forall>y \<in> set xs. \<not> isnan (key y) \<Longrightarrow> key x \<le> key (last xs)"
  by (induction xs) (auto simp: in_order_def fle_refl)

section \<open>Parameters\<close>

definition params_ok :: "signal_params \<Rightarrow> bool" where
  "params_ok p \<longleftrightarrow> isfinite (window_span_s p) \<and> Fin 0 < window_span_s p \<and> 1 \<le> min_samples p
     \<and> 2 \<le> min_rising_edges p \<and> 2 \<le> min_luminance_samples p
     \<and> isfinite (majority_fraction p) \<and> Fin (1/2) < majority_fraction p \<and> majority_fraction p \<le> Fin 1
     \<and> isfinite (on_threshold p) \<and> isfinite (off_threshold p) \<and> off_threshold p < on_threshold p
     \<and> isfinite (max_sample_gap_s p) \<and> Fin 0 < max_sample_gap_s p"

lemma require_bound_finite: "require_bound v = Inr x \<Longrightarrow> isfinite x"
  by (auto simp: require_bound_def bindR_Inr_iff split: if_splits)

lemma require_count_ge: "require_count v m = Inr n \<Longrightarrow> m \<le> n"
  by (cases v) (auto split: if_splits)

lemma guardR_Inr: "guardR c r = Inr x \<longleftrightarrow> \<not> c \<and> r = Inr x"
  by (simp add: guardR_def)

lemma make_signal_params_ok:
  assumes "make_signal_params r = Inr p" shows "params_ok p"
proof -
  have pos: "Fin 0 < x" if "require_bound v = Inr x" "\<not> x \<le> Fin 0" for v x
    using require_bound_finite [OF that(1)] that(2) by (cases x) auto
  show ?thesis
    using assms unfolding make_signal_params_def bindR_Inr_iff guardR_Inr
    by (auto simp: params_ok_def dest!: require_count_ge dest: require_bound_finite intro: pos)
qed

section \<open>The judgement is total\<close>

lemma ratio_of_unit: "a \<le> b \<Longrightarrow> 0 < b \<Longrightarrow> isfinite (ratio_of a b) \<and> Fin 0 \<le> ratio_of a b \<and> ratio_of a b \<le> Fin 1"
proof -
  assume ab: "a \<le> b" "0 < b"
  have one: "fround 1 = Fin 1" using fround_exact [of 1] round53_of_int_small [of 1] overflow_bound_gt by simp
  have "fround 0 \<le> ratio_of a b" "ratio_of a b \<le> fround 1"
    unfolding ratio_of_def using ab by (intro fround_mono; simp)+
  then show ?thesis using finite_between [of 0 "ratio_of a b" 1] by (simp add: one)
qed

lemma valid_share_unit:
  "isfinite (valid_share win) \<and> Fin 0 \<le> valid_share win \<and> valid_share win \<le> Fin 1"
  using ratio_of_unit [of "length (filter (\<lambda>s. e_evidence s \<noteq> LampNotVisible) win)" "length win"]
  by (cases "win = []") (auto simp: valid_share_def)

lemma mean_total: "xs \<noteq> [] \<Longrightarrow> \<exists>m. mean xs = Inr m"
  by (simp add: mean_def)

lemma red_total: "\<exists>b. red_rises_with_green p phases = Inr b"
proof -
  have "\<exists>b. bindR (mean lit) (\<lambda>a. bindR (mean dark) (\<lambda>b. Inr (f a b))) = Inr b" if "lit \<noteq> []" "dark \<noteq> []"
    for lit dark and f :: "pyfloat \<Rightarrow> pyfloat \<Rightarrow> bool"
    using mean_total [OF that(1)] mean_total [OF that(2)] by auto
  then show ?thesis by (auto simp: red_rises_with_green_def Let_def)
qed

lemma median_total: "xs \<noteq> [] \<Longrightarrow> \<exists>m. median xs = Inr m"
  by (auto simp: median_def Let_def)

lemma pairwise_nonempty: "2 \<le> length xs \<Longrightarrow> pairwise xs \<noteq> []"
  by (cases xs rule: pairwise.cases) auto

definition verdict_ok :: "flash_verdict \<Rightarrow> bool" where
  "verdict_ok v \<longleftrightarrow> (case measured_period_s v of None \<Rightarrow> True | Some x \<Rightarrow> isfinite x \<and> \<not> x \<le> Fin 0)"

lemma verdict_total:
  assumes "params_ok p" shows "\<exists>v. flash_judgement p samples start end_s = Inr v \<and> verdict_ok v"
proof -
  let ?edges = "rising_edges (binarise p None (py_sorted l_stamp samples))"
  have med: "\<exists>m. median (map (\<lambda>(start, stop). stop - start) (pairwise ?edges)) = Inr m"
    if "\<not> int (length ?edges) < min_rising_edges p"
  proof -
    have "2 \<le> length ?edges" using that assms by (simp add: params_ok_def)
    then show ?thesis by (intro median_total) (simp add: pairwise_nonempty)
  qed
  obtain red where red: "red_rises_with_green p (binarise p None (py_sorted l_stamp samples)) = Inr red"
    using red_total by blast
  show ?thesis
  proof (cases "int (length ?edges) < min_rising_edges p")
    case True
    then show ?thesis by (auto simp: flash_judgement_def verdict_ok_def undetermined_def Let_def)
  next
    case False
    then obtain m where "median (map (\<lambda>(start, stop). stop - start) (pairwise ?edges)) = Inr m" using med by blast
    then show ?thesis using red by (auto simp: flash_judgement_def verdict_ok_def undetermined_def Let_def)
  qed
qed

lemma py_max_list_in: "xs \<noteq> [] \<Longrightarrow> py_max_list xs \<in> set xs"
proof (cases xs)
  case (Cons x ys)
  have "foldl (\<lambda>m y. if m < y then y else m) x ys \<in> insert x (set ys)" by (induction ys arbitrary: x) auto
  then show ?thesis by (simp add: Cons)
qed simp

lemma sanitised_latency_ok:
  "readable_num v = Inr l \<Longrightarrow>
    \<exists>lat. sanitised_latency v = Inr lat \<and> (case lat of None \<Rightarrow> True | Some x \<Rightarrow> isfinite x \<and> \<not> x < Fin 0)"
  by (auto simp: sanitised_latency_def split: option.splits)

lemma sanitised_seq_ok: "case sanitised_seq v of None \<Rightarrow> True | Some n \<Rightarrow> 0 \<le> n"
  by (cases v) auto

lemma make_window_inv: "make_window p c = Inr w \<Longrightarrow> sw_params w = p \<and> \<not> blank (sw_crossing_id w)"
  by (auto simp: make_window_def split: pyval.splits if_splits)

text \<open>
  The judgement never raises on data: once the parameters and the window are built, and unless a
  number is an integer too large for a float, every call returns, and the observation it returns
  passes every validator of the payload.
\<close>
theorem judgement_never_raises:
  assumes "make_signal_params r = Inr p" and "make_window p c = Inr w"
    and "readable_num window_end = Inr e" and "readable_num latency = Inr l"
  shows "\<exists>ob. evaluate_window w window_end luminance evidence digest seq latency = Inr ob
    \<and> (case ob of None \<Rightarrow> True | Some ob \<Rightarrow> observation_valid ob)"
proof -
  have p: "params_ok (sw_params w)" and id: "\<not> blank (sw_crossing_id w)"
    using make_signal_params_ok [OF assms(1)] make_window_inv [OF assms(2)] by simp_all
  let ?start = "e - window_span_s (sw_params w)"
  let ?lit = "filter (\<lambda>s. in_span ?start e (l_stamp s)) luminance"
  let ?ev = "py_sorted e_stamp (filter (\<lambda>s. in_span ?start e (e_stamp s)) evidence)"
  let ?rd = "list_all (\<lambda>s. isfinite (l_stamp s)) luminance"
  obtain v where v: "(if ?rd then flash_judgement (sw_params w) ?lit ?start e else Inr undetermined) = Inr v" "verdict_ok v"
  proof (cases ?rd)
    case True
    then show ?thesis using that verdict_total [OF p, of ?lit ?start e] by auto
  next
    case False
    then show ?thesis using that [of undetermined] by (auto simp: verdict_ok_def undetermined_def)
  qed
  obtain lat where lat: "sanitised_latency latency = Inr lat"
      "case lat of None \<Rightarrow> True | Some x \<Rightarrow> isfinite x \<and> \<not> x < Fin 0"
    using sanitised_latency_ok [OF assms(4)] by blast
  have stamp: "isfinite (if ?ev \<noteq> [] then e_stamp (last ?ev) else py_max_list (map l_stamp ?lit))"
    if "\<not> (?ev = [] \<and> ?lit = [])"
  proof (cases "?ev = []")
    case True
    then have "py_max_list (map l_stamp ?lit) \<in> set (map l_stamp ?lit)" using that by (intro py_max_list_in) simp
    then show ?thesis using True by (auto simp: in_span_def)
  next
    case False
    then have "last ?ev \<in> set ?ev" by (rule last_in_set)
    then show ?thesis using False by (auto simp: in_span_def)
  qed
  have span: "isfinite (window_span_s (sw_params w))" "\<not> window_span_s (sw_params w) \<le> Fin 0"
    using p by (auto simp: params_ok_def dest: fle_not_flt)
  show ?thesis
  proof (cases "\<not> isfinite e \<or> ?ev = [] \<and> ?lit = []")
    case True
    then show ?thesis by (auto simp: evaluate_window_def assms(3) Let_def)
  next
    case False
    then show ?thesis
      using v lat stamp id span valid_share_unit sanitised_seq_ok
      by (simp add: evaluate_window_def assms(3) Let_def observation_valid_def quality_valid_def verdict_ok_def)
  qed
qed

text \<open>An integer beyond the float range overflows where it is read, although data are said never to raise.\<close>

lemma huge_window_end:
  "evaluate_window w (PInt (10 ^ 400)) luminance evidence digest seq latency = Inl OverflowError"
  using float_of_int_huge by (simp add: evaluate_window_def readable_num_def del: power_numeral)

section \<open>A window without holes\<close>

lemma flt_flt_apart: "x < a \<Longrightarrow> b < x \<Longrightarrow> \<not> a \<le> b" for x a b :: pyfloat
  by (cases x; cases a; cases b; simp)

lemma crossing_pair:
  "xs \<noteq> [] \<Longrightarrow> \<forall>x \<in> set xs. x < a \<or> b < x \<Longrightarrow> hd xs < a \<Longrightarrow> b < last xs \<Longrightarrow> a \<le> b \<Longrightarrow>
     \<exists>(x, y) \<in> set (pairwise xs). x < a \<and> b < y" for xs :: "pyfloat list"
proof (induction xs)
  case (Cons x xs)
  show ?case
  proof (cases xs)
    case Nil
    then have "x < a" "b < x" using Cons.prems by simp_all
    then show ?thesis using flt_flt_apart Cons.prems(5) by blast
  next
    case (Cons y ys)
    show ?thesis
    proof (cases "y < a")
      case True
      then show ?thesis using Cons Cons.IH Cons.prems by fastforce
    next
      case False
      then show ?thesis using Cons Cons.prems by auto
    qed
  qed
qed simp

lemma diff_mono:
  "isfinite x \<Longrightarrow> isfinite x' \<Longrightarrow> isfinite y \<Longrightarrow> isfinite y' \<Longrightarrow> x \<le> x' \<Longrightarrow> y' \<le> y \<Longrightarrow> x - y \<le> x' - y'"
  by (cases x; cases x'; cases y; cases y'; simp add: fround_mono)

declare fle_trans [trans]

lemma mid_finite: "isfinite s \<Longrightarrow> isfinite e \<Longrightarrow> s \<le> a \<Longrightarrow> a \<le> b \<Longrightarrow> b \<le> e \<Longrightarrow> isfinite a \<and> isfinite b"
  by (cases s; cases e; cases a; cases b; simp)

text \<open>Between two instants with no sample in between, a covered window leaves no more than the gap.\<close>

lemma gap_bounded:
  assumes cov: "covers_window p phases start end_s" and ne: "phases \<noteq> []"
    and fin: "\<forall>x \<in> set phases. isfinite (fst x)" and gap: "isfinite (max_sample_gap_s p)"
    and ab: "start \<le> a" "a \<le> b" "b \<le> end_s" and none: "\<forall>x \<in> set phases. fst x < a \<or> b < fst x"
  shows "b - a \<le> max_sample_gap_s p"
proof -
  let ?ts = "map fst phases" and ?g = "max_sample_gap_s p"
  have se: "isfinite start" "isfinite end_s" and holes: "\<not> ?g < hd ?ts - start" "\<not> ?g < end_s - last ?ts"
    and pairs: "\<forall>(x, y) \<in> set (pairwise ?ts). y - x \<le> ?g"
    using cov by (auto simp: covers_window_def Let_def list_all_iff split: if_splits)
  have mids: "isfinite a" "isfinite b"
    using mid_finite [OF se ab] by simp_all
  have le: "\<not> ?g < d \<Longrightarrow> \<not> isnan d \<Longrightarrow> d \<le> ?g" for d using gap by (simp add: not_flt)
  have diff: "isfinite u \<Longrightarrow> isfinite v \<Longrightarrow> \<not> isnan (u - v)" for u v by (cases u; cases v; simp)
  have h: "hd ?ts \<in> set ?ts" "last ?ts \<in> set ?ts" using ne by (simp_all del: set_map)
  then have f: "isfinite (hd ?ts)" "isfinite (last ?ts)" using fin by auto
  have side: "x < a \<or> b < x" if "x \<in> set ?ts" for x using that none by auto
  consider "b < hd ?ts" | "last ?ts < a" | "hd ?ts < a" "b < last ?ts" using side [OF h(1)] side [OF h(2)] by blast
  then show ?thesis
  proof cases
    case 1
    have "b - a \<le> hd ?ts - start" using f se mids ab 1 by (intro diff_mono) (auto intro: flt_le)
    also have "\<dots> \<le> ?g" using holes(1) f se by (intro le diff)
    finally show ?thesis .
  next
    case 2
    have "b - a \<le> end_s - last ?ts" using f se mids ab 2 by (intro diff_mono) (auto intro: flt_le)
    also have "\<dots> \<le> ?g" using holes(2) f se by (intro le diff)
    finally show ?thesis .
  next
    case 3
    then obtain x y where xy: "(x, y) \<in> set (pairwise ?ts)" "x < a" "b < y"
      using crossing_pair [of ?ts a b] ne none ab by auto
    have mem: "(x, y) \<in> set (pairwise zs) \<Longrightarrow> x \<in> set zs \<and> y \<in> set zs" for zs :: "pyfloat list"
      by (induction zs rule: pairwise.induct) auto
    have "isfinite x" "isfinite y" using mem [OF xy(1)] fin by auto
    then have "b - a \<le> y - x" using mids xy by (intro diff_mono) (auto intro: flt_le)
    also have "\<dots> \<le> ?g" using pairs xy(1) by auto
    finally show ?thesis .
  qed
qed

section \<open>What GREEN rests on\<close>

lemma binarise_stamps: "x \<in> set (binarise p ph ss) \<Longrightarrow> fst x \<in> l_stamp ` set ss"
  by (induction p ph ss rule: binarise.induct) (auto simp: Let_def split: option.splits if_splits)

lemma binarise_dark:
  assumes "s \<in> set ss" "l_green s \<le> off_threshold p" "off_threshold p < on_threshold p"
  shows "(l_stamp s, Off, l_red s) \<in> set (binarise p ph ss)"
proof -
  have "\<not> on_threshold p \<le> l_green s" using assms(2,3) by (meson fle_flt_trans fle_not_flt)
  then show ?thesis using assms(1,2) by (induction p ph ss rule: binarise.induct) (auto simp: Let_def)
qed

lemma verdict_steady:
  assumes "flash_judgement p samples start end_s = Inr v" "is_flashing v = Some False"
  shows "let phases = binarise p None (py_sorted l_stamp samples) in
      phases \<noteq> [] \<and> (\<forall>x \<in> set phases. fst (snd x) = On) \<and> covers_window p phases start end_s
      \<and> (\<forall>s \<in> set samples. sample_finite s)"
proof -
  have "is_flashing v = Some False \<Longrightarrow> bindR (red_rises_with_green p ph) (\<lambda>red.
      if red then Inr \<lparr>is_flashing = None, measured_period_s = Some m\<rparr>
      else Inr \<lparr>is_flashing = Some True, measured_period_s = Some m\<rparr>) \<noteq> Inr v" for ph m
    by (auto simp: bindR_Inr_iff)
  then show ?thesis
    using assms
    by (auto simp: flash_judgement_def undetermined_def bindR_Inr_iff list_all_iff Let_def split: if_splits)
qed

text \<open>The facts behind a GREEN observation.\<close>

definition green_window :: "signal_params \<Rightarrow> pyfloat \<Rightarrow> pyfloat \<Rightarrow> luminance_sample list \<Rightarrow> evidence_sample list \<Rightarrow> bool" where
  "green_window p start end_s lit win \<longleftrightarrow>
     (\<exists>v. flash_judgement p lit start end_s = Inr v \<and> is_flashing v = Some False)
     \<and> holds_majority p win LampGreen \<and> \<not> holds_majority p win LampRed
     \<and> (\<forall>s \<in> set win. e_evidence s \<noteq> LampOffOrUnlit)
     \<and> win \<noteq> [] \<and> min_samples p \<le> int (length win) \<and> e_evidence (last win) = LampGreen \<and> e_roi (last win)"

lemma green_facts:
  assumes "evaluate_window w window_end luminance evidence digest seq latency = Inr (Some ob)"
    and "o_state ob = SignalGreen" and "readable_num window_end = Inr e"
  defines "start \<equiv> e - window_span_s (sw_params w)"
  shows "green_window (sw_params w) start e (filter (\<lambda>s. in_span start e (l_stamp s)) luminance)
      (py_sorted e_stamp (filter (\<lambda>s. in_span start e (e_stamp s)) evidence))
    \<and> isfinite e \<and> (\<forall>s \<in> set luminance. isfinite (l_stamp s)) \<and> (\<forall>s \<in> set evidence. isfinite (e_stamp s))"
proof -
  have sig: "signal_of p v rd win = SignalGreen \<Longrightarrow> is_flashing v = Some False \<and> rd \<and> holds_majority p win LampGreen
      \<and> \<not> holds_majority p win LampRed \<and> (\<forall>s \<in> set win. e_evidence s \<noteq> LampOffOrUnlit)
      \<and> win \<noteq> [] \<and> min_samples p \<le> int (length win) \<and> e_evidence (last win) = LampGreen \<and> e_roi (last win)" for p v rd win
    by (auto simp: signal_of_def Let_def filter_empty_conv split: if_splits)
  show ?thesis
    using assms(1-3) unfolding start_def
    by (auto simp: evaluate_window_def bindR_Inr_iff undetermined_def green_window_def list_all_iff Let_def
        split: if_splits dest!: sig)
qed

text \<open>
  C6. A blink is never reported as GREEN: if the lamp read dark in every luminance sample between two
  instants \<open>a\<close> and \<open>b\<close> inside the window, or there was no sample between them, then a GREEN observation
  means that \<open>b - a\<close> is at most the tolerated gap between samples.
\<close>
theorem dark_phase_never_green:
  assumes "make_signal_params r = Inr (sw_params w)" and "readable_num window_end = Inr e"
    and "evaluate_window w window_end luminance evidence digest seq latency = Inr (Some ob)"
    and "o_state ob = SignalGreen"
    and "\<forall>s \<in> set luminance. a \<le> l_stamp s \<and> l_stamp s \<le> b \<longrightarrow> l_green s \<le> off_threshold (sw_params w)"
    and "e - window_span_s (sw_params w) < a" and "a \<le> b" and "b \<le> e"
  shows "b - a \<le> max_sample_gap_s (sw_params w)"
proof -
  let ?p = "sw_params w" and ?start = "e - window_span_s (sw_params w)"
  let ?lit = "filter (\<lambda>s. in_span ?start e (l_stamp s)) luminance"
  let ?phases = "binarise ?p None (py_sorted l_stamp ?lit)"
  have p: "params_ok ?p" by (rule make_signal_params_ok [OF assms(1)])
  from green_facts [OF assms(3,4,2)] obtain v where "flash_judgement ?p ?lit ?start e = Inr v" "is_flashing v = Some False"
    by (auto simp: green_window_def)
  note s = verdict_steady [OF this, unfolded Let_def]
  have none: "fst x < a \<or> b < fst x" if x: "x \<in> set ?phases" for x
  proof (rule ccontr)
    obtain y where y: "y \<in> set luminance" "in_span ?start e (l_stamp y)" "fst x = l_stamp y"
      using binarise_stamps [OF x] by auto
    assume "\<not> (fst x < a \<or> b < fst x)"
    moreover have "isfinite a" "isfinite b" "isfinite (l_stamp y)"
      using mid_finite [OF _ _ flt_le [OF assms(6)] assms(7,8)] s y(2) by (auto simp: in_span_def covers_window_def split: if_splits)
    ultimately have "a \<le> l_stamp y" "l_stamp y \<le> b" using y(3) by (auto simp: not_flt)
    then have "l_green y \<le> off_threshold ?p" using assms(5) y(1) by blast
    then have "(l_stamp y, Off, l_red y) \<in> set ?phases"
      using y p by (intro binarise_dark) (auto simp: params_ok_def)
    then show False using s by fastforce
  qed
  show ?thesis
  proof (rule gap_bounded)
    show "covers_window ?p ?phases ?start e" "?phases \<noteq> []" using s by auto
    show "\<forall>x \<in> set ?phases. isfinite (fst x)"
    proof
      fix x assume "x \<in> set ?phases"
      from binarise_stamps [OF this] show "isfinite (fst x)" by (auto simp: in_span_def)
    qed
    show "isfinite (max_sample_gap_s ?p)" using p by (simp add: params_ok_def)
    show "?start \<le> a" by (rule flt_le [OF assms(6)])
    show "\<forall>x \<in> set ?phases. fst x < a \<or> b < fst x" using none by blast
  qed (fact assms)+
qed

lemma ratio_above_half:
  assumes "Fin (1/2) < f" "f \<le> ratio_of a b" "0 < b" shows "b < 2 * a"
proof (rule ccontr)
  assume "\<not> b < 2 * a"
  then have "(of_nat a :: rat) / of_nat b \<le> 1 / 2" using assms(3) by (simp add: divide_le_eq flip: of_nat_mult)
  moreover have "fround (1/2) = Fin (1/2)" using fround_exact [of "1/2"] round53_exact [of 1 "-1"] overflow_bound_gt by simp
  ultimately have "ratio_of a b \<le> Fin (1/2)" unfolding ratio_of_def by (metis fround_mono)
  then show False using assms(1,2) by (meson flt_fle_trans fle_not_flt)
qed

lemma holds_majority_strict:
  "params_ok p \<Longrightarrow> holds_majority p win x \<Longrightarrow> length win < 2 * length (filter (\<lambda>s. e_evidence s = x) win)"
  by (rule ratio_above_half [of "majority_fraction p"]) (auto simp: holds_majority_def params_ok_def split: if_splits)

text \<open>Two classes never both hold the majority, so the order of the RED and GREEN tests is immaterial.\<close>

lemma majority_unique:
  assumes "params_ok p" "holds_majority p win x" "holds_majority p win y" shows "x = y"
proof (rule ccontr)
  assume "x \<noteq> y"
  then have "length (filter (\<lambda>s. e_evidence s = x) win) + length (filter (\<lambda>s. e_evidence s = y) win) \<le> length win"
    by (induction win) auto
  then show False using holds_majority_strict [OF assms(1,2)] holds_majority_strict [OF assms(1,3)] by simp
qed

text \<open>
  GREEN needs current and consistent evidence: the newest classified frame of the window says GREEN
  inside the registered region, no frame of the window says the lamp is off, at least the required
  number of frames was classified, and more than half of them say GREEN. A single newer frame of
  another class is therefore enough to leave GREEN.
\<close>
theorem green_evidence:
  assumes "make_signal_params r = Inr (sw_params w)" and "readable_num window_end = Inr e"
    and "evaluate_window w window_end luminance evidence digest seq latency = Inr (Some ob)"
    and "o_state ob = SignalGreen"
  defines "win \<equiv> filter (\<lambda>s. in_span (e - window_span_s (sw_params w)) e (e_stamp s)) evidence"
  shows "(\<exists>s \<in> set win. e_evidence s = LampGreen \<and> e_roi s \<and> (\<forall>t \<in> set win. e_stamp t \<le> e_stamp s))
    \<and> (\<forall>s \<in> set win. e_evidence s \<noteq> LampOffOrUnlit)
    \<and> min_samples (sw_params w) \<le> int (length win)
    \<and> length win < 2 * length (filter (\<lambda>s. e_evidence s = LampGreen) win)"
proof -
  let ?p = "sw_params w" and ?sorted = "py_sorted e_stamp win"
  have g: "holds_majority ?p ?sorted LampGreen" "\<forall>s \<in> set win. e_evidence s \<noteq> LampOffOrUnlit" "?sorted \<noteq> []"
    "min_samples ?p \<le> int (length win)" "e_evidence (last ?sorted) = LampGreen" "e_roi (last ?sorted)"
    using green_facts [OF assms(3,4,2)] by (auto simp: green_window_def win_def)
  have fin: "\<forall>s \<in> set win. \<not> isnan (e_stamp s)" by (auto simp: win_def in_span_def)
  then have ord: "in_order e_stamp ?sorted" by (rule py_sorted_in_order)
  have last: "last ?sorted \<in> set win" using last_in_set [OF g(3)] by simp
  have newest: "e_stamp t \<le> e_stamp (last ?sorted)" if "t \<in> set win" for t
    using in_order_last [OF ord] that fin by simp
  have "size (mset (filter P ?sorted)) = size (mset (filter P win))" for P
    by (simp only: mset_filter mset_py_sorted)
  then have "length (filter P ?sorted) = length (filter P win)" for P by (simp only: size_mset)
  with holds_majority_strict [OF make_signal_params_ok [OF assms(1)] g(1)]
  have "length win < 2 * length (filter (\<lambda>s. e_evidence s = LampGreen) win)" by (simp only: length_py_sorted)
  then show ?thesis using g(2,4-6) last newest by blast
qed

definition sample_raw :: raw_params where
  "sample_raw = \<lparr>w_window_span_s = PInt 2, w_min_samples = PInt 2, w_majority_fraction = PFloat (Fin (3/4)),
     w_classifier_rate_hz = PInt 9, w_period_tolerance_s = PFloat (Fin (1/8)), w_on_threshold = PFloat (Fin (1/2)),
     w_off_threshold = PFloat (Fin (1/4)), w_exposure_tolerance = PInt 0, w_red_sync_delta = PInt 0,
     w_min_rising_edges = PInt 2, w_min_luminance_samples = PInt 2, w_max_sample_gap_s = PFloat (Fin (1/2))\<rparr>"

definition sample_params :: signal_params where
  "sample_params = \<lparr>window_span_s = Fin 2, min_samples = 2, majority_fraction = Fin (3/4), classifier_rate_hz = Fin 9,
     period_tolerance_s = Fin (1/8), on_threshold = Fin (1/2), off_threshold = Fin (1/4), exposure_tolerance = Fin 0,
     red_sync_delta = Fin 0, min_rising_edges = 2, min_luminance_samples = 2, max_sample_gap_s = Fin (1/2)\<rparr>"

definition sample_window :: signal_window where
  "sample_window = \<lparr>sw_params = sample_params, sw_crossing_id = ''north''\<rparr>"

definition lit_at :: "rat \<Rightarrow> luminance_sample" where
  "lit_at t = \<lparr>l_stamp = Fin t, l_green = Fin (3/4), l_red = Fin 0, l_exposure = Fin 1\<rparr>"

definition steady_lamp :: "luminance_sample list" where
  "steady_lamp = map lit_at [1/2, 1, 3/2, 2]"

definition green_at :: "rat \<Rightarrow> evidence_sample" where
  "green_at t = \<lparr>e_stamp = Fin t, e_evidence = LampGreen, e_roi = True\<rparr>"

definition steady_view :: "evidence_sample list" where
  "steady_view = map green_at [1, 2]"

definition green_observation :: signal_observation where
  "green_observation = \<lparr>o_crossing_id = ''north'', o_source_stamp_s = Fin 2, o_window_span_s = Fin 2, o_sample_count = 2,
     o_state = SignalGreen, o_is_flashing = Some False, o_measured_period_s = None, o_off_phase_count = 0,
     o_roi_consistent = True, o_quality = \<lparr>valid_fraction = Fin 1, frame_digest = None, device_frame_seq = None,
     processing_latency_s = None\<rparr>\<rparr>"

lemma sample_built: "make_signal_params sample_raw = Inr sample_params" "make_window sample_params (PStr ''north'') = Inr sample_window"
  by code_simp+

lemma sample_green:
  "evaluate_window sample_window (PInt 2) steady_lamp steady_view PNone PNone PNone = Inr (Some green_observation)"
  by code_simp

lemma sample_reads: "readable_num (PInt 2) = Inr (Fin 2)" "readable_num PNone = Inr NaN"
  by code_simp+

theorem judgement_never_raises_witness:
  "observation_valid green_observation
   \<and> evaluate_window sample_window (PInt 2) steady_lamp steady_view PNone PNone PNone = Inr (Some green_observation)"
  using judgement_never_raises [OF sample_built sample_reads, of steady_lamp steady_view PNone PNone]
  by (simp add: sample_green)

theorem dark_phase_never_green_witness:
  "Fin (11/8) - Fin (9/8) \<le> max_sample_gap_s sample_params"
proof -
  have w: "sw_params sample_window = sample_params" by (simp add: sample_window_def)
  show ?thesis
    by (rule dark_phase_never_green [of sample_raw sample_window, unfolded w, OF sample_built(1) sample_reads(1) sample_green])
      code_simp+
qed

theorem green_evidence_witness:
  "length (filter (\<lambda>s. in_span (Fin 2 - window_span_s sample_params) (Fin 2) (e_stamp s)) steady_view)
     < 2 * length (filter (\<lambda>s. e_evidence s = LampGreen)
        (filter (\<lambda>s. in_span (Fin 2 - window_span_s sample_params) (Fin 2) (e_stamp s)) steady_view))"
proof -
  have w: "sw_params sample_window = sample_params" by (simp add: sample_window_def)
  have g: "o_state green_observation = SignalGreen" by (simp add: green_observation_def)
  from green_evidence [of sample_raw sample_window, unfolded w, OF sample_built(1) sample_reads(1) sample_green g]
  show ?thesis by blast
qed

section \<open>Arrival order\<close>

lemma in_order_unique:
  "in_order key xs \<Longrightarrow> in_order key ys \<Longrightarrow> mset xs = mset ys \<Longrightarrow> distinct (map key xs) \<Longrightarrow> xs = ys"
proof (induction xs arbitrary: ys)
  case (Cons x xs)
  obtain y ys' where ys: "ys = y # ys'" using Cons.prems(3) by (cases ys) auto
  have "x = y"
  proof (rule ccontr)
    assume "x \<noteq> y"
    then have m: "y \<in> set xs" "x \<in> set ys'"
      using Cons.prems(3) ys by (metis add_eq_conv_ex in_multiset_in_set insert_noteq_member mset.simps(2) set_mset_mset)+
    then have "key x \<le> key y" "key y \<le> key x" using Cons.prems(1,2) ys by (auto simp: in_order_def)
    then have "key x = key y" by (rule fle_antisym)
    then show False using Cons.prems(4) m(1) by auto
  qed
  then show ?case using Cons ys by (simp add: in_order_def)
qed simp

lemma py_sorted_perm:
  assumes "mset xs = mset ys" "\<forall>x \<in> set xs. \<not> isnan (key x)" "distinct (map key xs)"
  shows "py_sorted key xs = py_sorted key ys"
proof (rule in_order_unique [where key = key])
  have "set xs = set ys" using assms(1) by (rule mset_eq_setD)
  then show "in_order key (py_sorted key xs)" "in_order key (py_sorted key ys)"
    using assms(2) by (auto intro!: py_sorted_in_order)
  show "mset (py_sorted key xs) = mset (py_sorted key ys)" using assms(1) by simp
  have "mset (map key (py_sorted key xs)) = mset (map key xs)" by (simp only: mset_map mset_py_sorted)
  then show "distinct (map key (py_sorted key xs))" using assms(3) by (metis mset_eq_imp_distinct_iff)
qed

lemma py_max_list_ge: "\<forall>x \<in> set xs. \<not> isnan x \<Longrightarrow> y \<in> set xs \<Longrightarrow> y \<le> py_max_list xs"
proof (cases xs)
  case (Cons x ys)
  have "\<not> isnan x \<Longrightarrow> \<forall>z \<in> set ys. \<not> isnan z \<Longrightarrow> \<not> isnan (foldl (\<lambda>m y. if m < y then y else m) x ys)
      \<and> x \<le> foldl (\<lambda>m y. if m < y then y else m) x ys
      \<and> (\<forall>z \<in> set ys. z \<le> foldl (\<lambda>m y. if m < y then y else m) x ys)"
  proof (induction ys arbitrary: x)
    case (Cons z ys)
    let ?m = "if x < z then z else x"
    have m: "\<not> isnan ?m" "x \<le> ?m" "z \<le> ?m" using Cons.prems by (auto simp: fle_refl not_flt intro: flt_le)
    then show ?case using Cons.IH [OF m(1)] Cons.prems by (auto intro: fle_trans)
  qed (simp add: fle_refl)
  then show "\<forall>x \<in> set xs. \<not> isnan x \<Longrightarrow> y \<in> set xs \<Longrightarrow> ?thesis" by (auto simp: Cons)
qed simp

lemma py_max_list_perm:
  assumes "set xs = set ys" "\<forall>x \<in> set xs. \<not> isnan x" shows "py_max_list xs = py_max_list ys"
proof (cases "xs = []")
  case False
  then have "py_max_list xs \<in> set ys" "py_max_list ys \<in> set xs" using assms(1) py_max_list_in by (metis list.set_sel(1) empty_set set_empty)+
  then show ?thesis using assms py_max_list_ge fle_antisym by metis
qed (use assms in simp)

lemma verdict_perm: "py_sorted l_stamp xs = py_sorted l_stamp ys \<Longrightarrow> flash_judgement p xs s e = flash_judgement p ys s e"
  by (simp add: flash_judgement_def)

text \<open>
  Arrival order is irrelevant: with pairwise different stamps on each rate, the observation is the
  same for every order in which the samples of the two rates are handed over.
\<close>
theorem arrival_order_irrelevant:
  assumes "mset luminance = mset luminance'" and "mset evidence = mset evidence'"
    and "distinct (map l_stamp luminance)" and "distinct (map e_stamp evidence)"
  shows "evaluate_window w window_end luminance evidence digest seq latency =
    evaluate_window w window_end luminance' evidence' digest seq latency"
proof -
  have perm: "py_sorted key (filter (\<lambda>s. in_span a e (key s)) xs) = py_sorted key (filter (\<lambda>s. in_span a e (key s)) ys)"
    if "mset xs = mset ys" "distinct (map key xs)" for key :: "'x \<Rightarrow> pyfloat" and xs ys a e
  proof (rule py_sorted_perm)
    show "mset (filter (\<lambda>s. in_span a e (key s)) xs) = mset (filter (\<lambda>s. in_span a e (key s)) ys)"
      using that(1) by (simp only: mset_filter)
  qed (use that(2) in \<open>auto simp: in_span_def distinct_map_filter\<close>)
  have sets: "set luminance = set luminance'" "set evidence = set evidence'"
    using assms(1,2) by (auto dest: mset_eq_setD)
  have maxi: "py_max_list (map l_stamp (filter (\<lambda>s. in_span a e (l_stamp s)) luminance)) =
      py_max_list (map l_stamp (filter (\<lambda>s. in_span a e (l_stamp s)) luminance'))" for a e
    using sets(1) by (intro py_max_list_perm) (auto simp: in_span_def)
  have empty: "filter P luminance = [] \<longleftrightarrow> filter P luminance' = []" for P
    using sets(1) by (simp add: filter_empty_conv)
  note v = verdict_perm [OF perm [OF assms(1,3)]]
  have all: "list_all P luminance = list_all P luminance'" "list_all Q evidence = list_all Q evidence'" for P Q
    using sets by (simp_all add: list_all_iff)
  show ?thesis
    unfolding evaluate_window_def Let_def by (simp only: perm [OF assms(2,4)] v maxi empty all)
qed

theorem arrival_order_irrelevant_witness:
  "evaluate_window sample_window (PInt 2) (rev steady_lamp) (rev steady_view) PNone PNone PNone = Inr (Some green_observation)"
proof -
  have d: "distinct (map l_stamp (rev steady_lamp))" "distinct (map e_stamp (rev steady_view))"
    by (simp_all add: steady_lamp_def steady_view_def lit_at_def green_at_def)
  from arrival_order_irrelevant [OF mset_rev mset_rev d] show ?thesis by (simp only: sample_green)
qed

end
