(* ===== verification/Guardian.thy ===== *)
theory Guardian
  imports GuardLogicProps
begin

text \<open>
  The node \<open>warehouse_safety/emergency_guardian.py\<close>: its per-robot state, the message callbacks and
  the 50 ms reflex \<open>_check_safety\<close> with everything it publishes. Every callback is one step; the
  monotonic clock reading it takes is an argument. The publishing, the action client and the
  formatting of the wall clock are the environment of a tick.
\<close>

section \<open>State\<close>

definition BOTS :: "string list" where
  "BOTS = [''bot1'', ''bot2'']"

definition TERRAIN_SOURCE :: string where
  "TERRAIN_SOURCE = ''cliff_scan''"

definition DEFAULT_STOP_STATE_VALID_WINDOW_S :: pyfloat where
  "DEFAULT_STOP_STATE_VALID_WINDOW_S = Fin (1/2)"

record guardian =
  gcfg :: guard_config
  odom_freshness_timeout :: pyfloat
  battery_scale :: string
  event_seq :: nat
  tracker :: block_tracker
  g_gate :: pose_gate
  latched :: "(string \<times> string) set"
  g_pose :: "string \<Rightarrow> (pyfloat \<times> pyfloat) option"
  g_battery :: "string \<Rightarrow> int option"
  g_blocked :: "string \<Rightarrow> pyfloat"
  last_pose_t :: "string \<Rightarrow> pyfloat option"
  last_scan_t :: "string \<Rightarrow> pyfloat option"
  g_odom_seen :: "string \<Rightarrow> bool"
  op_engaged :: bool
  terrain :: "string \<Rightarrow> health_monitor option"

definition init_guardian ::
    "guard_config \<Rightarrow> pyfloat \<Rightarrow> string \<Rightarrow> (string \<Rightarrow> health_monitor option) \<Rightarrow> guardian" where
  "init_guardian cfg odom_timeout scale mons =
     \<lparr>gcfg = cfg, odom_freshness_timeout = odom_timeout, battery_scale = scale, event_seq = 0,
      tracker = \<lparr>bt_epsilon = fround (2/100), last_xy = (\<lambda>_. None), last_moved_t = (\<lambda>_. None)\<rparr>,
      g_gate = empty_pose_gate, latched = {}, g_pose = (\<lambda>_. None), g_battery = (\<lambda>_. None),
      g_blocked = (\<lambda>_. Fin 0), last_pose_t = (\<lambda>_. None), last_scan_t = (\<lambda>_. None),
      g_odom_seen = (\<lambda>_. False), op_engaged = False, terrain = mons\<rparr>"

section \<open>Callbacks\<close>

definition cb_pose :: "libm \<Rightarrow> guardian \<Rightarrow> string \<Rightarrow> pyfloat \<Rightarrow> pyfloat \<Rightarrow> pyfloat \<Rightarrow> guardian" where
  "cb_pose lib g b x y now =
     (let (blocked, t) = block_update lib (tracker g) b x y now in
      g\<lparr>g_pose := (g_pose g)(b \<mapsto> (x, y)), last_pose_t := (last_pose_t g)(b \<mapsto> now),
        tracker := t, g_blocked := (g_blocked g)(b := blocked), g_gate := on_pose (g_gate g) b\<rparr>)"

definition cb_odom ::
    "libm \<Rightarrow> guardian \<Rightarrow> string \<Rightarrow> pyfloat \<Rightarrow> pyfloat \<Rightarrow> pyfloat \<times> pyfloat \<times> pyfloat \<times> pyfloat \<Rightarrow> pyfloat \<Rightarrow>
     unit result \<times> guardian" where
  "cb_odom lib g b x y q now =
     (let g = g\<lparr>g_odom_seen := (g_odom_seen g)(b := True)\<rparr>;
          (qx, qy, qz, qw) = q;
          (r, pg) = on_odom lib (g_gate g) b x y (yaw_from_quaternion lib qx qy qz qw) now
      in (r, g\<lparr>g_gate := pg\<rparr>))"

definition cb_scan :: "guardian \<Rightarrow> string \<Rightarrow> pyfloat \<Rightarrow> guardian" where
  "cb_scan g b now = g\<lparr>last_scan_t := (last_scan_t g)(b \<mapsto> now)\<rparr>"

text \<open>The subscription exists only for a robot with a monitor.\<close>

definition cb_coverage :: "guardian \<Rightarrow> string \<Rightarrow> coverage option \<Rightarrow> pyfloat \<Rightarrow> unit result \<times> guardian" where
  "cb_coverage g b payload now =
     (case terrain g b of
        None \<Rightarrow> (Inl KeyError, g)
      | Some m \<Rightarrow>
          (case bindR (coverage_observation payload (PFloat now)) (health_observe m TERRAIN_SOURCE) of
             Inl e \<Rightarrow> (Inl e, g)
           | Inr m' \<Rightarrow> (Inr (), g\<lparr>terrain := (terrain g)(b \<mapsto> m')\<rparr>)))"

definition cb_battery :: "guardian \<Rightarrow> string \<Rightarrow> pyfloat \<Rightarrow> unit result \<times> guardian" where
  "cb_battery g b percentage =
     (case marshal_battery (g_battery g b) percentage (battery_scale g) of
        Inl e \<Rightarrow> (Inl e, g)
      | Inr v \<Rightarrow> (Inr (), g\<lparr>g_battery := (g_battery g)(b := v)\<rparr>))"

definition cb_operator_stop :: "guardian \<Rightarrow> json_text \<Rightarrow> guardian" where
  "cb_operator_stop g raw = g\<lparr>op_engaged := snd (op_feed (op_engaged g) raw)\<rparr>"

section \<open>The reflex\<close>

fun verdict_name :: "source_verdict \<Rightarrow> string" where
  "verdict_name OK = ''OK''"
| "verdict_name INVALID = ''INVALID''"
| "verdict_name FROZEN = ''FROZEN''"
| "verdict_name STALE = ''STALE''"
| "verdict_name ABSENT = ''ABSENT''"

definition make_bot_state :: "guardian \<Rightarrow> string \<Rightarrow> pyfloat \<Rightarrow> bot_state \<times> guardian" where
  "make_bot_state g b now =
     (let page = map_option (\<lambda>t. now - t) (last_pose_t g b);
          (disp, dyaw) = gate_snapshot (g_gate g) b now (odom_freshness_timeout g);
          sage = map_option (\<lambda>t. now - t) (last_scan_t g b);
          (report, g') = (case terrain g b of
              None \<Rightarrow> (None, g)
            | Some m \<Rightarrow> let (r, m') = health_evaluate m now in (Some r, g\<lparr>terrain := (terrain g)(b \<mapsto> m')\<rparr>))
      in (\<lparr>bot = b, pos_x = map_option fst (g_pose g b), pos_y = map_option snd (g_pose g b),
           battery_pct = map_option (\<lambda>n. Fin (of_int n)) (g_battery g b), blocked_duration = g_blocked g b,
           pose_age = page, odom_disp_since_pose = disp, odom_dyaw_since_pose = dyaw,
           operator_stop_requested = op_engaged g, scan_age = sage, odom_seen = g_odom_seen g b,
           terrain_source = map_option (\<lambda>_. TERRAIN_SOURCE) report,
           terrain_verdict = Option.bind report (\<lambda>r. map_option verdict_name (map_of (verdicts r) TERRAIN_SOURCE)),
           terrain_health_epoch = map_option health_epoch report\<rparr>, g'))"

text \<open>What the environment gives a tick, and what a tick publishes.\<close>

record tick_env =
  wall_clock :: pyfloat
  wall_stamp :: string
  cancel_ready :: "string \<Rightarrow> bool"

record tick_out =
  zero_twists :: "string list"
  goal_cancels :: "string list"
  out_events :: "(string \<times> pyval) list list"
  out_aborts :: "(string \<times> pyval) list list"
  stop_states :: "(string \<times> bool \<times> pyfloat) list"

definition pad4 :: "nat \<Rightarrow> string" where
  "pad4 n = replicate (4 - length (decimal n)) (digit_char 0) @ decimal n"

definition publish_event ::
    "tick_env \<Rightarrow> decision \<Rightarrow> string list \<Rightarrow> bool \<Rightarrow> nat \<times> tick_out \<Rightarrow> nat \<times> tick_out" where
  "publish_event e dec action is_estop s =
     (let (seq, out) = s; seq = seq + 1;
          event_id = ''emg-'' @ wall_stamp e @ ''-'' @ pad4 seq;
          event = build_event event_id (d_bot dec) (d_reason dec) (wall_clock e) (Some action) (d_detail dec);
          out = out\<lparr>out_events := out_events out @ [event]\<rparr>
      in (seq, if is_estop then out\<lparr>out_aborts := out_aborts out @ [build_abort (d_reason dec) (d_bot dec) event_id]\<rparr>
               else out))"

definition emergency_stop :: "tick_env \<Rightarrow> decision \<Rightarrow> bool \<Rightarrow> nat \<times> tick_out \<Rightarrow> nat \<times> tick_out" where
  "emergency_stop e dec emit_event s =
     (let (seq, out) = s;
          out = (if cancel_ready e (d_bot dec) then out\<lparr>goal_cancels := goal_cancels out @ [d_bot dec]\<rparr> else out);
          out = out\<lparr>zero_twists := zero_twists out @ [d_bot dec]\<rparr>
      in if emit_event then publish_event e dec [''nav2_goal_cancel'', ''cmd_vel_stop''] True (seq, out)
         else (seq, out))"

definition trigger_recovery :: "tick_env \<Rightarrow> decision \<Rightarrow> bool \<Rightarrow> nat \<times> tick_out \<Rightarrow> nat \<times> tick_out" where
  "trigger_recovery e dec emit_event s =
     (if emit_event then publish_event e dec [''nav2_recovery''] False s else s)"

definition act_on :: "tick_env \<Rightarrow> (string \<times> string) set \<Rightarrow> decision \<Rightarrow> nat \<times> tick_out \<Rightarrow> nat \<times> tick_out" where
  "act_on e new dec s =
     (let emit_event = (d_bot dec, d_reason dec) \<in> new in
      if d_action dec = ''estop'' then emergency_stop e dec emit_event s
      else trigger_recovery e dec emit_event s)"

definition publish_stop_state :: "decision list \<Rightarrow> pyfloat \<Rightarrow> tick_out \<Rightarrow> tick_out" where
  "publish_stop_state decisions now out =
     (let valid_until = now + DEFAULT_STOP_STATE_VALID_WINDOW_S in
      out\<lparr>stop_states := map (\<lambda>b. (b, stop_requested_for decisions b, valid_until)) BOTS\<rparr>)"

definition empty_out :: tick_out where
  "empty_out = \<lparr>zero_twists = [], goal_cancels = [], out_events = [], out_aborts = [], stop_states = []\<rparr>"

definition check_safety :: "libm \<Rightarrow> tick_env \<Rightarrow> guardian \<Rightarrow> pyfloat \<Rightarrow> tick_out \<times> guardian" where
  "check_safety lib e g now =
     (let (a, g1) = make_bot_state g ''bot1'' now;
          (b, g2) = make_bot_state g1 ''bot2'' now;
          decisions = evaluate lib (gcfg g) a b;
          (new, active) = rising (latched g) decisions;
          (seq, out) = fold (act_on e new) decisions (event_seq g, empty_out)
      in (publish_stop_state decisions now out, g2\<lparr>latched := active, event_seq := seq\<rparr>))"

section \<open>Histories\<close>

datatype guardian_msg =
    PoseMsg string pyfloat pyfloat pyfloat
  | OdomMsg string pyfloat pyfloat "pyfloat \<times> pyfloat \<times> pyfloat \<times> pyfloat" pyfloat
  | ScanMsg string pyfloat
  | CoverageMsg string "coverage option" pyfloat
  | BatteryMsg string pyfloat
  | OperatorMsg json_text
  | Tick tick_env pyfloat

text \<open>
  A message is handled, publishing something only in a tick. A callback that raises ends the node,
  so it has no successor.
\<close>

inductive guardian_step :: "libm \<Rightarrow> guardian \<Rightarrow> guardian_msg \<Rightarrow> tick_out option \<Rightarrow> guardian \<Rightarrow> bool" for lib where
  pose: "guardian_step lib g (PoseMsg b x y t) None (cb_pose lib g b x y t)"
| odom: "cb_odom lib g b x y q t = (Inr (), g') \<Longrightarrow> guardian_step lib g (OdomMsg b x y q t) None g'"
| scan: "guardian_step lib g (ScanMsg b t) None (cb_scan g b t)"
| coverage: "cb_coverage g b c t = (Inr (), g') \<Longrightarrow> guardian_step lib g (CoverageMsg b c t) None g'"
| battery: "cb_battery g b p = (Inr (), g') \<Longrightarrow> guardian_step lib g (BatteryMsg b p) None g'"
| operator: "guardian_step lib g (OperatorMsg raw) None (cb_operator_stop g raw)"
| tick: "check_safety lib e g t = (out, g') \<Longrightarrow> guardian_step lib g (Tick e t) (Some out) g'"

inductive guardian_run :: "libm \<Rightarrow> guardian \<Rightarrow> guardian_msg list \<Rightarrow> tick_out list \<Rightarrow> guardian \<Rightarrow> bool" for lib where
  finish: "guardian_run lib g [] [] g"
| more: "guardian_step lib g m out g' \<Longrightarrow> guardian_run lib g' ms outs g'' \<Longrightarrow>
    guardian_run lib g (m # ms) ((case out of None \<Rightarrow> [] | Some x \<Rightarrow> [x]) @ outs) g''"

code_pred guardian_step .

inductive_cases guardian_stepE: "guardian_step lib g m out g'"
inductive_cases guardian_tickE: "guardian_step lib g (Tick e t) out g'"
inductive_cases guardian_run_NilE [elim!]: "guardian_run lib g [] outs g'"
inductive_cases guardian_run_ConsE [elim!]: "guardian_run lib g (m # ms) outs g'"

end
