(* ===== verification/GuardianProps.thy ===== *)
theory GuardianProps
  imports Guardian
begin

text \<open>
  What the guardian node guarantees over its message histories: the stop feed and the zero commands
  agree in every tick, a silent lidar and a held operator stop keep a robot stopped, and an alarm
  publishes one event per rising edge.
\<close>

section \<open>One tick\<close>

lemma publish_event_simps [simp]:
  "zero_twists (snd (publish_event e d ac es s)) = zero_twists (snd s)"
  "out_events (snd (publish_event e d ac es s)) = out_events (snd s) @
     [build_event (''emg-'' @ wall_stamp e @ ''-'' @ pad4 (fst s + 1)) (d_bot d) (d_reason d) (wall_clock e) (Some ac) (d_detail d)]"
  by (simp_all add: publish_event_def case_prod_beta Let_def)

lemma act_on_twists:
  "zero_twists (snd (act_on e new d s)) = zero_twists (snd s) @ (if d_action d = ''estop'' then [d_bot d] else [])"
  by (simp add: act_on_def emergency_stop_def trigger_recovery_def case_prod_beta Let_def)

lemma fold_twists:
  "zero_twists (snd (fold (act_on e new) ds s)) =
     zero_twists (snd s) @ map d_bot (filter (\<lambda>d. d_action d = ''estop'') ds)"
  by (induction ds arbitrary: s) (simp_all add: act_on_twists)

definition event_key :: "(string \<times> pyval) list \<Rightarrow> pyval \<times> pyval" where
  "event_key ev = (dget ev ''robot'', dget ev ''type'')"

lemma build_event_key [simp]: "event_key (build_event i b w t ac d) = (PStr b, PStr w)"
  by (simp add: event_key_def build_event_def dget_def)

lemma act_on_events:
  "map event_key (out_events (snd (act_on e new d s))) = map event_key (out_events (snd s)) @
     (if (d_bot d, d_reason d) \<in> new then [(PStr (d_bot d), PStr (d_reason d))] else [])"
  by (simp add: act_on_def emergency_stop_def trigger_recovery_def case_prod_beta Let_def)

lemma fold_events:
  "map event_key (out_events (snd (fold (act_on e new) ds s))) = map event_key (out_events (snd s)) @
     map (\<lambda>d. (PStr (d_bot d), PStr (d_reason d))) (filter (\<lambda>d. (d_bot d, d_reason d) \<in> new) ds)"
  by (induction ds arbitrary: s) (simp_all add: act_on_events)

lemma empty_out_simps [simp]: "zero_twists empty_out = []" "out_events empty_out = []"
  by (simp_all add: empty_out_def)

text \<open>The decisions of a tick.\<close>

definition tick_bots :: "guardian \<Rightarrow> pyfloat \<Rightarrow> bot_state \<times> bot_state" where
  "tick_bots g now =
     (let (a, g1) = make_bot_state g ''bot1'' now in (a, fst (make_bot_state g1 ''bot2'' now)))"

definition tick_decisions :: "libm \<Rightarrow> guardian \<Rightarrow> pyfloat \<Rightarrow> decision list" where
  "tick_decisions lib g now = (let (a, b) = tick_bots g now in evaluate lib (gcfg g) a b)"

lemma tick_simps:
  assumes "check_safety lib e g now = (out, g')"
  shows "zero_twists out = map d_bot (filter (\<lambda>d. d_action d = ''estop'') (tick_decisions lib g now))"
    and "stop_states out = map (\<lambda>b. (b, stop_requested_for (tick_decisions lib g now) b,
           now + DEFAULT_STOP_STATE_VALID_WINDOW_S)) BOTS"
    and "latched g' = alarm_keys (tick_decisions lib g now)"
    and "map event_key (out_events out) = map (\<lambda>d. (PStr (d_bot d), PStr (d_reason d)))
           (filter (\<lambda>d. (d_bot d, d_reason d) \<in> alarm_keys (tick_decisions lib g now) - latched g)
             (tick_decisions lib g now))"
proof -
  let ?ds = "tick_decisions lib g now"
  have "out = publish_stop_state ?ds now
      (snd (fold (act_on e (alarm_keys ?ds - latched g)) ?ds (event_seq g, empty_out)))
    \<and> latched g' = alarm_keys ?ds"
    using assms
    by (auto simp: check_safety_def tick_decisions_def tick_bots_def rising_def case_prod_beta Let_def)
  then show "zero_twists out = map d_bot (filter (\<lambda>d. d_action d = ''estop'') ?ds)"
    and "stop_states out = map (\<lambda>b. (b, stop_requested_for ?ds b, now + DEFAULT_STOP_STATE_VALID_WINDOW_S)) BOTS"
    and "latched g' = alarm_keys ?ds"
    and "map event_key (out_events out) = map (\<lambda>d. (PStr (d_bot d), PStr (d_reason d)))
           (filter (\<lambda>d. (d_bot d, d_reason d) \<in> alarm_keys ?ds - latched g) ?ds)"
    by (simp_all add: publish_stop_state_def fold_twists fold_events Let_def)
qed

lemma make_bot_state_simps [simp]:
  "bot (fst (make_bot_state g b now)) = b"
  "operator_stop_requested (fst (make_bot_state g b now)) = op_engaged g"
  "scan_age (fst (make_bot_state g b now)) = map_option (\<lambda>t. now - t) (last_scan_t g b)"
  "odom_seen (fst (make_bot_state g b now)) = g_odom_seen g b"
  "op_engaged (snd (make_bot_state g b now)) = op_engaged g"
  "last_scan_t (snd (make_bot_state g b now)) = last_scan_t g"
  "gcfg (snd (make_bot_state g b now)) = gcfg g"
  "battery_scale (snd (make_bot_state g b now)) = battery_scale g"
  "latched (snd (make_bot_state g b now)) = latched g"
  by (simp_all add: make_bot_state_def case_prod_beta Let_def split: option.split)

lemma tick_bots_simps [simp]:
  "bot (fst (tick_bots g now)) = ''bot1''" "bot (snd (tick_bots g now)) = ''bot2''"
  "operator_stop_requested (fst (tick_bots g now)) = op_engaged g"
  "operator_stop_requested (snd (tick_bots g now)) = op_engaged g"
  "scan_age (fst (tick_bots g now)) = map_option (\<lambda>t. now - t) (last_scan_t g ''bot1'')"
  "scan_age (snd (tick_bots g now)) = map_option (\<lambda>t. now - t) (last_scan_t g ''bot2'')"
  by (simp_all add: tick_bots_def case_prod_beta)

lemma decision_bots: "d \<in> set (evaluate lib cfg a b) \<Longrightarrow> d_bot d = bot a \<or> d_bot d = bot b"
  by (auto simp: evaluate_def proximity_rule_def battery_rule_def blocked_rule_def pose_rule_def
      operator_rule_def scan_rule_def terrain_rule_def Let_def split: option.splits if_splits)

lemma tick_twists_bots:
  assumes "check_safety lib e g now = (out, g')"
  shows "set (zero_twists out) \<subseteq> set BOTS"
proof -
  have "d_bot d \<in> set BOTS" if "d \<in> set (tick_decisions lib g now)" for d
    using that decision_bots [of d lib "gcfg g" "fst (tick_bots g now)" "snd (tick_bots g now)"]
    by (auto simp: tick_decisions_def case_prod_beta BOTS_def)
  then show ?thesis by (auto simp: tick_simps [OF assms])
qed

lemma tick_flags:
  assumes "check_safety lib e g now = (out, g')"
  shows "(b, flag, until) \<in> set (stop_states out) \<longleftrightarrow>
    b \<in> set BOTS \<and> until = now + DEFAULT_STOP_STATE_VALID_WINDOW_S \<and> (flag \<longleftrightarrow> b \<in> set (zero_twists out))"
  by (auto simp: tick_simps [OF assms] stop_requested_for_def)

text \<open>
  The stop feed is synchronised with the stop: in every tick each robot gets exactly one
  \<open>stop_state\<close>, its deadline is half a second after the tick, and \<open>stop_requested\<close> is set exactly
  for the robots that are sent a zero command in the same tick.
\<close>

theorem stop_feed_synchronised:
  assumes "check_safety lib e g now = (out, g')"
  shows "map fst (stop_states out) = BOTS
    \<and> (\<forall>b flag until. (b, flag, until) \<in> set (stop_states out) \<longrightarrow>
          until = now + Fin (1/2) \<and> (flag \<longleftrightarrow> b \<in> set (zero_twists out)))
    \<and> set (zero_twists out) \<subseteq> set BOTS"
  using tick_twists_bots [OF assms]
  by (simp add: tick_flags [OF assms] DEFAULT_STOP_STATE_VALID_WINDOW_S_def)
    (simp add: tick_simps [OF assms] comp_def)

section \<open>Histories\<close>

lemma step_frame:
  assumes "guardian_step lib g m out g'"
  shows "gcfg g' = gcfg g"
    and "(\<And>t. m \<noteq> ScanMsg b t) \<Longrightarrow> last_scan_t g' b = last_scan_t g b"
    and "(\<And>raw. m \<noteq> OperatorMsg raw) \<Longrightarrow> op_engaged g' = op_engaged g"
    and "(\<And>e t. m \<noteq> Tick e t) \<Longrightarrow> latched g' = latched g \<and> out = None"
  using assms
  by (cases; force simp: cb_pose_def cb_odom_def cb_scan_def cb_coverage_def cb_battery_def cb_operator_stop_def
      check_safety_def case_prod_beta Let_def split: option.splits sum.splits)+

lemma run_frame:
  assumes "guardian_run lib g ms outs g'"
  shows "gcfg g' = gcfg g \<and> ((\<forall>t. ScanMsg b t \<notin> set ms) \<longrightarrow> last_scan_t g' b = last_scan_t g b)"
  using assms
proof induction
  case (more g m out g' ms outs g'')
  have "(\<forall>t. ScanMsg b t \<notin> set (m # ms)) \<longrightarrow> last_scan_t g' b = last_scan_t g b"
    using step_frame(2) [OF more.hyps(1)] by (metis list.set_intros(1))
  then show ?case using step_frame(1) [OF more.hyps(1)] more.IH by simp
qed simp

lemma step_tick: "guardian_step lib g m (Some x) g' \<Longrightarrow> \<exists>e t. m = Tick e t \<and> check_safety lib e g t = (x, g')"
  by (auto elim: guardian_stepE)

lemma tick_stops:
  assumes "check_safety lib e g now = (out, g')" and "cfg_ok (gcfg g)" and "b \<in> set BOTS"
    and "\<And>x. x \<in> {fst (tick_bots g now), snd (tick_bots g now)} \<Longrightarrow> bot x = b \<Longrightarrow>
      hazard lib (gcfg g) (fst (tick_bots g now)) (snd (tick_bots g now)) x"
  shows "(b, True, now + DEFAULT_STOP_STATE_VALID_WINDOW_S) \<in> set (stop_states out) \<and> b \<in> set (zero_twists out)"
proof -
  have "stop_requested_for (tick_decisions lib g now) b"
    using assms(3,4) stop_hazard_iff [OF assms(2)]
    by (auto simp: tick_decisions_def case_prod_beta BOTS_def)
  then show ?thesis using assms(3)
    by (auto simp: tick_simps [OF assms(1)] stop_requested_for_def image_iff)
qed

lemma silent_lidar:
  assumes "guardian_run lib (cb_scan g b t) ms outs g'" and "\<forall>u. ScanMsg b u \<notin> set ms"
    and "guardian_step lib g' (Tick e now) (Some out) g''"
    and "cfg_ok (gcfg g)" and "b \<in> set BOTS" and "scan_freshness_timeout (gcfg g) < now - t"
  shows "(b, True, now + DEFAULT_STOP_STATE_VALID_WINDOW_S) \<in> set (stop_states out) \<and> b \<in> set (zero_twists out)"
proof -
  have c: "check_safety lib e g' now = (out, g'')" using assms(3) by (auto elim: guardian_tickE)
  have f: "gcfg g' = gcfg g" "last_scan_t g' b = Some t"
    using run_frame [OF assms(1), of b] assms(2) by (simp_all add: cb_scan_def)
  have "\<not> now - t \<le> scan_freshness_timeout (gcfg g)" using assms(6) fle_not_flt by blast
  then have "scan_hazard (gcfg g') x" if "scan_age x = Some (now - t)" for x
    using that assms(6) by (simp add: scan_hazard_def fresh_def f)
  then have "hazard lib (gcfg g') (fst (tick_bots g' now)) (snd (tick_bots g' now)) x"
    if "x \<in> {fst (tick_bots g' now), snd (tick_bots g' now)}" "bot x = b" for x
    using that f(2) by (auto simp: hazard_def)
  then show ?thesis using tick_stops [OF c] assms(4,5) f(1) by metis
qed

text \<open>
  A silent lidar stops the robot: if the last scan of a robot arrived at \<open>t\<close>, then in every
  tick more than the scan window later, whatever other messages were handled in between, the robot
  is sent a zero command and its stop feed says stop.
\<close>

theorem silent_lidar_stops:
  assumes "guardian_run lib (cb_scan g b t) ms outs g'" and "\<forall>u. ScanMsg b u \<notin> set ms"
    and "guardian_step lib g' (Tick e now) (Some out) g''"
    and "cfg_ok (gcfg g)" and "b \<in> set BOTS" and "scan_freshness_timeout (gcfg g) < now - t"
  shows "(b, True, now + DEFAULT_STOP_STATE_VALID_WINDOW_S) \<in> set (stop_states out) \<and> b \<in> set (zero_twists out)"
  using assms by (rule silent_lidar)

text \<open>The operator stop.\<close>

fun no_clear :: "guardian_msg \<Rightarrow> bool" where
  "no_clear (OperatorMsg raw) = (parse_operator_stop_action raw \<noteq> Some ''clear'')"
| "no_clear _ = True"

lemma step_keeps_engaged:
  assumes "guardian_step lib g m out g'" and "op_engaged g" and "no_clear m"
  shows "op_engaged g'"
proof (cases m)
  case (OperatorMsg raw)
  then show ?thesis using assms by (auto simp: cb_operator_stop_def op_feed_def Let_def elim: guardian_stepE)
qed (use assms step_frame(3) [OF assms(1)] in auto)

lemma engaged_tick_stops:
  assumes "check_safety lib e g now = (out, g')" and "op_engaged g" and "cfg_ok (gcfg g)"
  shows "set (zero_twists out) = set BOTS \<and> (\<forall>x \<in> set (stop_states out). fst (snd x))"
proof -
  have "hazard lib (gcfg g) (fst (tick_bots g now)) (snd (tick_bots g now)) x"
    if "x \<in> {fst (tick_bots g now), snd (tick_bots g now)}" for x
    using that assms(2) by (auto simp: hazard_def)
  then have "b \<in> set (zero_twists out)" if "b \<in> set BOTS" for b
    using tick_stops [OF assms(1,3) that] by blast
  then show ?thesis using tick_twists_bots [OF assms(1)] tick_flags [OF assms(1)] by auto
qed

lemma engaged_held:
  assumes "guardian_run lib g ms outs g'" and "op_engaged g" and "list_all no_clear ms" and "cfg_ok (gcfg g)"
  shows "op_engaged g' \<and> (\<forall>out \<in> set outs. set (zero_twists out) = set BOTS \<and> (\<forall>x \<in> set (stop_states out). fst (snd x)))"
  using assms
proof induction
  case (more g m out g' ms outs g'')
  have "op_engaged g'" using step_keeps_engaged [OF more.hyps(1)] more.prems by simp
  moreover have "gcfg g' = gcfg g" using step_frame(1) [OF more.hyps(1)] .
  moreover have "set (zero_twists x) = set BOTS \<and> (\<forall>x \<in> set (stop_states x). fst (snd x))" if "out = Some x" for x
    using more.prems step_tick [OF more.hyps(1) [unfolded that]] engaged_tick_stops by blast
  ultimately show ?case using more by (auto split: option.splits)
qed simp

text \<open>
  The operator stop is held: after an accepted \<open>engage\<close> every tick stops both robots and says so
  on both stop feeds, whatever messages arrive (repeated engages, malformed or unknown operator
  payloads, fresh poses and scans), as long as none of them is an explicit \<open>clear\<close>; time alone
  never releases it.
\<close>

theorem operator_stop_held:
  assumes "guardian_run lib g ms outs g'" and "op_engaged g" and "list_all no_clear ms" and "cfg_ok (gcfg g)"
  shows "op_engaged g' \<and> (\<forall>out \<in> set outs. set (zero_twists out) = set BOTS \<and> (\<forall>x \<in> set (stop_states out). fst (snd x)))"
  by (rule engaged_held [OF assms])

lemma image_keys: "(\<And>d. f d = h (k d)) \<Longrightarrow> f ` {d \<in> A. k d \<in> k ` A - L} = h ` (k ` A - L)"
  by (simp add: image_def) blast

text \<open>
  One event per alarm edge: the events a tick publishes are exactly those of the alarms that
  are active now and were not active in the previous tick, so a condition that holds does not
  publish again, and one that cleared and came back does; nothing but a tick changes what counts as
  active.
\<close>

theorem events_on_rising_edges:
  assumes "check_safety lib e1 g1 t1 = (out1, g2)" and "guardian_run lib g2 ms [] g3"
    and "check_safety lib e2 g3 t2 = (out2, g4)"
  shows "set (map event_key (out_events out2)) = (\<lambda>(b, w). (PStr b, PStr w)) `
    (alarm_keys (tick_decisions lib g3 t2) - alarm_keys (tick_decisions lib g1 t1))"
proof -
  have "guardian_run lib g ms outs g' \<Longrightarrow> outs = [] \<Longrightarrow> latched g' = latched g" for g ms outs g'
  proof (induction rule: guardian_run.induct)
    case (more g m out g' ms outs g'')
    have "m \<noteq> Tick e t" for e t using more by (auto elim: guardian_tickE)
    then show ?case using step_frame(4) [OF more.hyps(1)] more by (auto split: option.splits)
  qed simp
  then have "latched g3 = alarm_keys (tick_decisions lib g1 t1)"
    using assms(2) tick_simps(3) [OF assms(1)] by simp
  then have "set (map event_key (out_events out2)) = (\<lambda>d. (PStr (d_bot d), PStr (d_reason d))) `
      {d \<in> set (tick_decisions lib g3 t2). (d_bot d, d_reason d) \<in>
        alarm_keys (tick_decisions lib g3 t2) - alarm_keys (tick_decisions lib g1 t1)}"
    by (simp only: tick_simps(4) [OF assms(3)] set_map set_filter)
  also have "\<dots> = (\<lambda>(b, w). (PStr b, PStr w)) `
      (alarm_keys (tick_decisions lib g3 t2) - alarm_keys (tick_decisions lib g1 t1))"
    unfolding alarm_keys_def by (rule image_keys) simp
  finally show ?thesis .
qed

section \<open>Concrete runs\<close>

definition sample_guardian :: guardian where
  "sample_guardian = init_guardian sample_config (Fin 1) BATTERY_SCALE_PERCENT (\<lambda>_. None)"

definition sample_tick :: tick_env where
  "sample_tick = \<lparr>wall_clock = Fin 1000, wall_stamp = ''20260101000000'', cancel_ready = (\<lambda>_. True)\<rparr>"

definition engage_payload :: json_text where
  "engage_payload = Some (PDict [(''action'', PStr ''engage'')])"

lemma sample_cfg: "gcfg sample_guardian = sample_config" "cfg_ok sample_config"
  by (simp_all add: sample_guardian_def init_guardian_def cfg_ok_def sample_config_def)

theorem stop_feed_synchronised_witness:
  "map fst (stop_states (fst (check_safety plain_libm sample_tick sample_guardian (Fin 5)))) = BOTS"
  using stop_feed_synchronised [of plain_libm sample_tick sample_guardian "Fin 5", OF surjective_pairing] by simp

theorem silent_lidar_stops_witness:
  "''bot1'' \<in> set (zero_twists (fst (check_safety plain_libm sample_tick
      (cb_scan sample_guardian ''bot1'' (Fin 5)) (Fin 10))))"
proof -
  let ?g = "cb_scan sample_guardian ''bot1'' (Fin 5)"
  have "guardian_step plain_libm ?g (Tick sample_tick (Fin 10))
      (Some (fst (check_safety plain_libm sample_tick ?g (Fin 10)))) (snd (check_safety plain_libm sample_tick ?g (Fin 10)))"
    by (rule guardian_step.tick) simp
  then show ?thesis
    using silent_lidar_stops [OF guardian_run.finish [of plain_libm ?g], of sample_tick "Fin 10"]
    by (simp add: sample_cfg BOTS_def) (simp add: sample_config_def py_eval)
qed

theorem operator_stop_held_witness:
  "set (zero_twists (fst (check_safety plain_libm sample_tick
      (cb_operator_stop sample_guardian engage_payload) (Fin 10)))) = set BOTS"
proof -
  let ?g = "cb_operator_stop sample_guardian engage_payload"
  have "guardian_step plain_libm ?g (Tick sample_tick (Fin 10))
      (Some (fst (check_safety plain_libm sample_tick ?g (Fin 10)))) (snd (check_safety plain_libm sample_tick ?g (Fin 10)))"
    by (rule guardian_step.tick) simp
  from guardian_run.more [OF this guardian_run.finish]
  have run: "guardian_run plain_libm ?g [Tick sample_tick (Fin 10)]
      [fst (check_safety plain_libm sample_tick ?g (Fin 10))] (snd (check_safety plain_libm sample_tick ?g (Fin 10)))"
    by simp
  have "op_engaged ?g" "gcfg ?g = sample_config"
    by (simp_all add: cb_operator_stop_def op_feed_def parse_operator_stop_action_def engage_payload_def
        OPERATOR_STOP_ACTIONS_def dget_def sample_cfg)
  then show ?thesis using operator_stop_held [OF run] by (simp add: sample_cfg)
qed

theorem events_on_rising_edges_witness:
  "let g2 = snd (check_safety plain_libm sample_tick sample_guardian (Fin 5));
       out = fst (check_safety plain_libm sample_tick g2 (Fin 6)) in
   set (map event_key (out_events out)) = (\<lambda>(b, w). (PStr b, PStr w)) `
    (alarm_keys (tick_decisions plain_libm g2 (Fin 6)) - alarm_keys (tick_decisions plain_libm sample_guardian (Fin 5)))"
  using events_on_rising_edges [OF surjective_pairing guardian_run.finish surjective_pairing,
      where lib = plain_libm and ?e1.0 = sample_tick and ?g1.0 = sample_guardian and ?t1.0 = "Fin 5"
        and ?e2.0 = sample_tick and ?t2.0 = "Fin 6"]
  by (simp add: Let_def)

end
