(* ===== verification/M1Driver.thy ===== *)
theory M1Driver
  imports GuardLogicProps
begin

text \<open>
  The host-side driver of the ROSMASTER M1: the velocity clamp \<open>clamp.py\<close>, the decoder of the
  stop-overlay feed \<open>stop_state.py\<close> and the driver core \<open>driver_core.py\<close> with its command
  watchdog, stop overlay, wheel scaling and shutdown. What the core sends to the serial backend is
  recorded as a list of frames.
\<close>

section \<open>The clamp\<close>

definition scale_to_magnitude ::
    "libm \<Rightarrow> pyfloat \<Rightarrow> pyfloat \<Rightarrow> pyfloat \<Rightarrow> (pyfloat \<times> pyfloat) result" where
  "scale_to_magnitude lib vx vy max_magnitude =
     (if \<not> isfinite vx \<or> \<not> isfinite vy then Inr (Fin 0, Fin 0)
      else if \<not> isfinite max_magnitude \<or> max_magnitude \<le> Fin 0 then Inr (Fin 0, Fin 0)
      else
        let magnitude = m_hypot lib vx vy in
        if \<not> isfinite magnitude then Inr (Fin 0, Fin 0)
        else if magnitude \<le> max_magnitude then Inr (vx, vy)
        else bindR (fdiv max_magnitude magnitude) (\<lambda>scale.
          let sx = vx * scale; sy = vy * scale; scaled_magnitude = m_hypot lib sx sy in
          if max_magnitude < scaled_magnitude then
            bindR (fdiv max_magnitude scaled_magnitude) (\<lambda>repair.
              let sx = sx * repair; sy = sy * repair in
              if max_magnitude < m_hypot lib sx sy then Inr (Fin 0, Fin 0) else Inr (sx, sy))
          else Inr (sx, sy)))"

definition clamp_body_velocity ::
    "libm \<Rightarrow> pyfloat \<Rightarrow> pyfloat \<Rightarrow> pyfloat \<Rightarrow> (pyfloat \<times> pyfloat \<times> pyfloat) result" where
  "clamp_body_velocity lib vx vy wz =
     (if \<not> (isfinite vx \<and> isfinite vy \<and> isfinite wz) then Inr (Fin 0, Fin 0, Fin 0)
      else bindR (scale_to_magnitude lib vx vy MAX_LINEAR_VELOCITY) (\<lambda>(cx, cy). Inr (cx, cy, wz)))"

section \<open>Driver configuration\<close>

definition DEFAULT_CMD_TIMEOUT_S :: pyfloat where
  "DEFAULT_CMD_TIMEOUT_S = Fin (1/2)"

definition WHEEL_SCALE_MIN :: pyfloat where "WHEEL_SCALE_MIN = Fin 1"
definition WHEEL_SCALE_MAX :: pyfloat where "WHEEL_SCALE_MAX = Fin (5/2)"
definition YAW_SCALE_MIN :: pyfloat where "YAW_SCALE_MIN = fround (2/10)"
definition YAW_SCALE_MAX :: pyfloat where "YAW_SCALE_MAX = Fin 5"

text \<open>
  The node passes \<open>float(...)\<close> of the parameter. The result is the scale, or NaN with the reason.
\<close>

datatype scale_error = NotFinite | OutOfRange

definition validated_scale :: "pyfloat \<Rightarrow> pyfloat \<Rightarrow> pyfloat \<Rightarrow> pyfloat \<times> scale_error option" where
  "validated_scale scale lo hi =
     (if \<not> isfinite scale then (NaN, Some NotFinite)
      else if \<not> (lo \<le> scale \<and> scale \<le> hi) then (NaN, Some OutOfRange)
      else (scale, None))"

definition positive_or_default :: "pyfloat \<Rightarrow> pyfloat \<Rightarrow> pyfloat" where
  "positive_or_default value dfl = (if \<not> isfinite value \<or> value \<le> Fin 0 then dfl else value)"

datatype frame = Brake | SetVelocity pyfloat pyfloat pyfloat | ResetState

record driver =
  cmd_timeout_s :: pyfloat
  last_cmd_time :: "pyfloat option"
  stale :: bool
  shutdown_done :: bool
  stop_overlay_enabled :: bool
  permit_until :: "pyfloat option"
  deadline_watermark :: "pyfloat option"
  wheel_scale :: pyfloat
  yaw_scale :: pyfloat
  lateral_enabled :: bool
  config_error :: "scale_error list"
  frames :: "frame list"

definition make_driver :: "pyfloat \<Rightarrow> bool \<Rightarrow> pyfloat \<Rightarrow> pyfloat \<Rightarrow> bool \<Rightarrow> driver" where
  "make_driver timeout overlay wheel_s yaw_s lateral =
     (let (wheel, wheel_error) = validated_scale wheel_s WHEEL_SCALE_MIN WHEEL_SCALE_MAX;
          (yaw, yaw_error) = validated_scale yaw_s YAW_SCALE_MIN YAW_SCALE_MAX
      in \<lparr>cmd_timeout_s = positive_or_default timeout DEFAULT_CMD_TIMEOUT_S, last_cmd_time = None, stale = True,
          shutdown_done = False, stop_overlay_enabled = overlay, permit_until = None, deadline_watermark = None,
          wheel_scale = wheel, yaw_scale = yaw, lateral_enabled = lateral,
          config_error = (case wheel_error of None \<Rightarrow> [] | Some e \<Rightarrow> [e]) @ (case yaw_error of None \<Rightarrow> [] | Some e \<Rightarrow> [e]),
          frames = []\<rparr>)"

definition send :: "frame \<Rightarrow> driver \<Rightarrow> driver" where
  "send f d = d\<lparr>frames := frames d @ [f]\<rparr>"

definition to_wire :: "driver \<Rightarrow> pyfloat \<Rightarrow> pyfloat \<Rightarrow> pyfloat \<Rightarrow> (pyfloat \<times> pyfloat \<times> pyfloat) result" where
  "to_wire d vx vy wz =
     bindR (fdiv vx (wheel_scale d)) (\<lambda>wx. bindR (fdiv vy (wheel_scale d)) (\<lambda>wy.
       bindR (fdiv wz (wheel_scale d * yaw_scale d)) (\<lambda>ww. Inr (wx, wy, ww))))"

section \<open>The stop overlay\<close>

definition on_stop_state :: "driver \<Rightarrow> bool \<Rightarrow> pyfloat \<Rightarrow> driver" where
  "on_stop_state d stop_requested valid_until =
     (if \<not> stop_overlay_enabled d then d
      else
        let regressed = (case deadline_watermark d of None \<Rightarrow> False | Some w \<Rightarrow> valid_until < w) in
        if \<not> isfinite valid_until \<or> valid_until \<le> Fin 0 \<or> regressed then d\<lparr>permit_until := None\<rparr>
        else d\<lparr>deadline_watermark := Some valid_until,
               permit_until := (if stop_requested then None else Some valid_until)\<rparr>)"

definition overlay_blocks :: "driver \<Rightarrow> pyfloat \<Rightarrow> bool" where
  "overlay_blocks d now \<longleftrightarrow>
     (if \<not> stop_overlay_enabled d then False
      else case permit_until d of None \<Rightarrow> True | Some u \<Rightarrow> u < now)"

definition on_cmd_vel ::
    "libm \<Rightarrow> driver \<Rightarrow> pyfloat \<Rightarrow> pyfloat \<Rightarrow> pyfloat \<Rightarrow> pyfloat \<Rightarrow> unit result \<times> driver" where
  "on_cmd_vel lib d vx vy wz now =
     (let d = d\<lparr>last_cmd_time := Some now, stale := False\<rparr> in
      if config_error d \<noteq> [] then (Inr (), send Brake d)
      else
        let vy = (if \<not> lateral_enabled d \<and> isfinite vy then Fin 0 else vy) in
        if overlay_blocks d now then (Inr (), send Brake d)
        else
          case bindR (clamp_body_velocity lib vx vy wz) (\<lambda>(cx, cy, cw). to_wire d cx cy cw) of
            Inl e \<Rightarrow> (Inl e, d)
          | Inr (wx, wy, ww) \<Rightarrow> (Inr (), send (SetVelocity wx wy ww) d))"

definition cmd_fresh :: "driver \<Rightarrow> pyfloat \<Rightarrow> bool" where
  "cmd_fresh d now \<longleftrightarrow> (case last_cmd_time d of None \<Rightarrow> False | Some t \<Rightarrow> now - t \<le> cmd_timeout_s d)"

definition on_watchdog_tick :: "driver \<Rightarrow> pyfloat \<Rightarrow> bool \<times> driver" where
  "on_watchdog_tick d now =
     (let d' = (if cmd_fresh d now then d else d\<lparr>stale := True\<rparr>) in
      if config_error d = [] \<and> cmd_fresh d now \<and> \<not> overlay_blocks d now then (False, d')
      else (True, send Brake d'))"

definition shutdown_sequence :: "driver \<Rightarrow> driver" where
  "shutdown_sequence d =
     (if shutdown_done d then d else send ResetState (send Brake (d\<lparr>shutdown_done := True\<rparr>)))"

section \<open>Decoding the feed\<close>

definition DEFAULT_STOP_STATE_MAX_VALIDITY_S :: pyfloat where
  "DEFAULT_STOP_STATE_MAX_VALIDITY_S = Fin (1/2)"

text \<open>
  The payload is the parsed JSON document with the key-value pairs of every object as written,
  or \<open>None\<close> when the parser raises. The object hook refuses a repeated key in any object.
\<close>

fun hook_accepts :: "pyval \<Rightarrow> bool" where
  "hook_accepts (PList xs) = list_all hook_accepts xs"
| "hook_accepts (PDict d) = (distinct (map fst d) \<and> list_all (\<lambda>(_, v). hook_accepts v) d)"
| "hook_accepts _ = True"

definition revoke :: "bool \<times> pyfloat" where
  "revoke = (True, NaN)"

definition decode_stop_state :: "json_text \<Rightarrow> pyfloat \<Rightarrow> pyfloat \<Rightarrow> bool \<times> pyfloat" where
  "decode_stop_state payload now max_validity_s =
     (case payload of
        Some (PDict decoded) \<Rightarrow>
          if \<not> hook_accepts (PDict decoded) then revoke
          else (case dget decoded ''stop_requested'' of
              PBool stop_requested \<Rightarrow>
                let v = dget decoded ''valid_until'' in
                if \<not> is_number v then revoke
                else (case to_float v of
                    Inl _ \<Rightarrow> revoke
                  | Inr valid_until \<Rightarrow>
                      if \<not> isfinite valid_until \<or> valid_until \<le> Fin 0 then revoke
                      else
                        let ceil = now + positive_or_default max_validity_s DEFAULT_STOP_STATE_MAX_VALIDITY_S
                        in (stop_requested, py_min valid_until ceil))
            | _ \<Rightarrow> revoke)
      | _ \<Rightarrow> revoke)"

section \<open>Histories\<close>

text \<open>The callbacks of the driver node; \<open>max_validity\<close> is its validated parameter.\<close>

datatype driver_msg =
    StopState json_text pyfloat
  | CmdVel pyfloat pyfloat pyfloat pyfloat
  | Watchdog pyfloat
  | Shutdown

fun driver_step :: "libm \<Rightarrow> pyfloat \<Rightarrow> driver \<Rightarrow> driver_msg \<Rightarrow> driver" where
  "driver_step lib mv d (StopState raw now) =
     (let (stop, until) = decode_stop_state raw now mv in on_stop_state d stop until)"
| "driver_step lib mv d (CmdVel vx vy wz now) = snd (on_cmd_vel lib d vx vy wz now)"
| "driver_step lib mv d (Watchdog now) = snd (on_watchdog_tick d now)"
| "driver_step lib mv d Shutdown = shutdown_sequence d"

definition driver_run :: "libm \<Rightarrow> pyfloat \<Rightarrow> driver \<Rightarrow> driver_msg list \<Rightarrow> driver" where
  "driver_run lib mv = foldl (driver_step lib mv)"

end
