(* ===== verification/M1DriverProps.thy ===== *)
theory M1DriverProps
  imports M1Driver
begin

text \<open>
  What the driver guarantees: the clamp bounds the speed and never amplifies, every velocity frame
  is a clamped command divided by a validated wheel scale, motion needs a recent permission, and a
  silent command stream or an unusable configuration brakes.
\<close>

section \<open>Scaling\<close>

lemma flt_le_false: "a < b \<Longrightarrow> b \<le> a \<Longrightarrow> False" for a b :: pyfloat
  by (cases a; cases b) auto

lemma times_unit:
  assumes "is_double a" and "isfinite a" and "0 \<le> s" and "s \<le> 1"
  shows "\<bar>a * s\<bar> \<le> \<bar>a\<bar> \<and> isfinite (a * s)"
proof -
  obtain x where a: "a = Fin x" using assms(2) by (auto simp: isfinite_iff)
  obtain y where s: "s = Fin y" "0 \<le> y" "y \<le> 1"
    using assms(3,4) by (cases s) (auto simp: zero_pyfloat_def one_pyfloat_def)
  have x: "fround x = Fin x" "fround (- x) = Fin (- x)"
    using assms(1) by (simp_all add: a fround_minus)
  have "\<bar>x * y\<bar> \<le> \<bar>x\<bar>" using s by (simp add: abs_mult mult_left_le)
  then have "- \<bar>x\<bar> \<le> x * y" "x * y \<le> \<bar>x\<bar>" by linarith+
  then have "fround (- \<bar>x\<bar>) \<le> fround (x * y)" "fround (x * y) \<le> fround \<bar>x\<bar>"
    by (simp_all add: fround_mono)
  moreover have "fround \<bar>x\<bar> = Fin \<bar>x\<bar>" "fround (- \<bar>x\<bar>) = Fin (- \<bar>x\<bar>)"
    using x by (cases "0 \<le> x"; simp)+
  ultimately show ?thesis by (cases "fround (x * y)") (auto simp: a s)
qed

lemma div_unit:
  assumes "m < b" and "0 < m" and "isfinite m"
  shows "\<exists>s. fdiv m b = Inr s \<and> 0 \<le> s \<and> s \<le> 1"
proof (cases b)
  case (Fin y)
  obtain x where m: "m = Fin x" using assms(3) by (auto simp: isfinite_iff)
  then have xy: "0 < x" "x < y" using assms by (auto simp: Fin zero_pyfloat_def)
  have "Fin 0 \<le> fround (x / y)" using fround_mono [of 0 "x / y"] xy by simp
  moreover have "fround (x / y) \<le> Fin 1" using fround_mono [of "x / y" 1] xy by (simp add: py_eval)
  ultimately show ?thesis using xy by (simp add: Fin m zero_pyfloat_def one_pyfloat_def)
qed (use assms in \<open>auto simp: isfinite_iff zero_pyfloat_def one_pyfloat_def\<close>)

text \<open>\<open>hypot\<close> of no motion is zero.\<close>

definition hypot_zero :: "libm \<Rightarrow> bool" where
  "hypot_zero lib \<longleftrightarrow> m_hypot lib (Fin 0) (Fin 0) = Fin 0"

definition no_larger :: "pyfloat \<Rightarrow> pyfloat \<Rightarrow> bool" where
  "no_larger a b \<longleftrightarrow> isfinite a \<and> isfinite b \<and> \<bar>a\<bar> \<le> \<bar>b\<bar>"

lemma no_larger_refl [simp]: "no_larger a a \<longleftrightarrow> isfinite a"
  by (cases a) (auto simp: no_larger_def)

lemma no_larger_zero [simp]: "no_larger (Fin 0) a \<longleftrightarrow> isfinite a"
  by (cases a) (auto simp: no_larger_def)

lemma no_larger_trans: "no_larger a b \<Longrightarrow> no_larger b c \<Longrightarrow> no_larger a c"
  unfolding no_larger_def using fle_trans by blast

lemma times_no_larger: "is_double a \<Longrightarrow> isfinite a \<Longrightarrow> 0 \<le> s \<Longrightarrow> s \<le> 1 \<Longrightarrow> no_larger (a * s) a"
  using times_unit by (simp add: no_larger_def)

lemma hypot_le:
  assumes "hypot_law lib" and "isfinite a" and "isfinite b" and "\<not> m < m_hypot lib a b" and "isfinite m"
  shows "m_hypot lib a b \<le> m"
proof -
  have "\<not> isnan a" "\<not> isnan b" using assms(2,3) isfinite_not_nan by blast+
  then have "0 \<le> m_hypot lib a b" using assms(1) by (auto simp: hypot_law_def)
  then show ?thesis using assms(4,5)
    by (cases m; cases "m_hypot lib a b") (auto simp: zero_pyfloat_def)
qed

lemma scale_spec:
  assumes "hypot_law lib" and "hypot_zero lib" and "is_double vx" and "is_double vy"
    and "isfinite vx" and "isfinite vy" and "isfinite m" and "0 < m"
  shows "\<exists>x y. scale_to_magnitude lib vx vy m = Inr (x, y) \<and> m_hypot lib x y \<le> m
    \<and> no_larger x vx \<and> no_larger y vy \<and> (m_hypot lib vx vy \<le> m \<longrightarrow> x = vx \<and> y = vy)"
proof -
  let ?h = "m_hypot lib vx vy"
  have m: "\<not> m \<le> Fin 0" using assms(8) flt_le_false by (auto simp: zero_pyfloat_def)
  have z: "m_hypot lib (Fin 0) (Fin 0) \<le> m"
    using assms(2,8) by (cases m) (auto simp: hypot_zero_def zero_pyfloat_def)
  have "isfinite ?h \<Longrightarrow> ?h \<le> m \<or> m < ?h" using assms(7) by (cases ?h; cases m) auto
  then consider "\<not> isfinite ?h" | "isfinite ?h" "?h \<le> m" | "isfinite ?h" "m < ?h" by blast
  then show ?thesis
  proof cases
    case 1
    then have "\<not> ?h \<le> m" using assms(1,5,6,7) hypot_law_def isfinite_not_nan
      by (cases ?h; cases m) (auto simp: hypot_law_def zero_pyfloat_def dest!: isfinite_not_nan, fastforce)
    then show ?thesis using 1 assms m z by (simp add: scale_to_magnitude_def)
  next
    case 2
    then show ?thesis using assms m by (simp add: scale_to_magnitude_def)
  next
    case 3
    obtain s where s: "fdiv m ?h = Inr s" "0 \<le> s" "s \<le> 1" using div_unit [OF 3(2) assms(8,7)] by blast
    let ?sx = "vx * s" and ?sy = "vy * s"
    have n: "no_larger ?sx vx" "no_larger ?sy vy" using assms s by (simp_all add: times_no_larger)
    then have f: "isfinite ?sx" "isfinite ?sy" by (simp_all add: no_larger_def)
    have gt: "\<not> ?h \<le> m" using 3(2) flt_le_false by blast
    show ?thesis
    proof (cases "m < m_hypot lib ?sx ?sy")
      case False
      then show ?thesis using assms m 3 s n gt f hypot_le [OF assms(1) f False assms(7)]
        by (simp add: scale_to_magnitude_def)
    next
      case True
      obtain r where r: "fdiv m (m_hypot lib ?sx ?sy) = Inr r" "0 \<le> r" "r \<le> 1"
        using div_unit [OF True assms(8,7)] by blast
      have n2: "no_larger (?sx * r) ?sx" "no_larger (?sy * r) ?sy" using f r by (simp_all add: times_no_larger)
      then have f2: "isfinite (?sx * r)" "isfinite (?sy * r)" by (simp_all add: no_larger_def)
      show ?thesis
        using assms m 3 s r n n2 gt f True z no_larger_trans [OF n2(1) n(1)] no_larger_trans [OF n2(2) n(2)]
          hypot_le [OF assms(1) f2 _ assms(7)]
        by (simp add: scale_to_magnitude_def Let_def)
    qed
  qed
qed

text \<open>
  The clamp is the last host defence: for any requested velocity it returns without an error a
  command whose planar speed is at most the safety cap; a command with a non-finite component
  becomes a full stop; a finite one is never amplified in any component, keeps its yaw rate, and is
  passed unchanged when it is already within the cap.
\<close>

theorem clamp_bounds_speed:
  assumes "hypot_law lib" and "hypot_zero lib" and "is_double vx" and "is_double vy"
  shows "\<exists>x y w. clamp_body_velocity lib vx vy wz = Inr (x, y, w)
    \<and> m_hypot lib x y \<le> MAX_LINEAR_VELOCITY
    \<and> (if isfinite vx \<and> isfinite vy \<and> isfinite wz
       then no_larger x vx \<and> no_larger y vy \<and> w = wz
          \<and> (m_hypot lib vx vy \<le> MAX_LINEAR_VELOCITY \<longrightarrow> x = vx \<and> y = vy)
       else x = Fin 0 \<and> y = Fin 0 \<and> w = Fin 0)"
proof (cases "isfinite vx \<and> isfinite vy \<and> isfinite wz")
  case True
  then show ?thesis
    using scale_spec [OF assms _ _ max_velocity_finite(1) max_velocity_pos(1)]
    by (auto simp: clamp_body_velocity_def)
next
  case False
  then show ?thesis using assms(2) max_velocity_pos(2)
    by (auto simp: clamp_body_velocity_def hypot_zero_def zero_pyfloat_def)
qed

lemma unit_hypot_zero: "hypot_zero unit_libm"
  by (simp add: hypot_zero_def unit_libm_def zero_pyfloat_def)

theorem clamp_bounds_speed_witness:
  "clamp_body_velocity unit_libm (Fin (1/8)) (Fin 0) (Fin 2) = Inr (Fin (1/8), Fin 0, Fin 2)"
  using clamp_bounds_speed [OF unit_hypot unit_hypot_zero, of "Fin (1/8)" "Fin 0" "Fin 2"]
  by (auto simp: py_eval unit_libm_def)

section \<open>Frames\<close>

text \<open>A frame is safe for a driver when it stops, or carries a bounded vector divided by the wheel scale.\<close>

definition safe_frame :: "libm \<Rightarrow> pyfloat \<Rightarrow> frame \<Rightarrow> bool" where
  "safe_frame lib k f \<longleftrightarrow>
     (case f of
        SetVelocity wx wy ww \<Rightarrow>
          (\<exists>cx cy. m_hypot lib cx cy \<le> MAX_LINEAR_VELOCITY \<and> fdiv cx k = Inr wx \<and> fdiv cy k = Inr wy
             \<and> no_larger wx cx \<and> no_larger wy cy)
      | _ \<Rightarrow> True)"

definition scale_ok :: "driver \<Rightarrow> bool" where
  "scale_ok d \<longleftrightarrow> config_error d = [] \<longrightarrow>
     (Fin 1 \<le> wheel_scale d \<and> isfinite (wheel_scale d) \<and> YAW_SCALE_MIN \<le> yaw_scale d \<and> isfinite (yaw_scale d))"

lemma make_driver_scale_ok [py_inv]: "scale_ok (make_driver t ov wheel yaw lat)"
  by (auto simp: scale_ok_def make_driver_def validated_scale_def Let_def WHEEL_SCALE_MIN_def split: if_splits)

lemma yaw_min_eq: "YAW_SCALE_MIN = Fin (3602879701896397 / 18014398509481984)"
  unfolding YAW_SCALE_MIN_def by code_simp

lemma wire_divisor:
  assumes "Fin 1 \<le> k" and "isfinite k" and "YAW_SCALE_MIN \<le> y" and "isfinite y"
  shows "\<exists>w. fdiv a (k * y) = Inr w"
proof -
  obtain q where q: "YAW_SCALE_MIN = Fin q" "0 < q" using yaw_min_eq by simp
  have dq: "fround q = Fin q"
    using is_double_fround [of "2/10"] unfolding YAW_SCALE_MIN_def [symmetric] q(1) is_double_simps .
  obtain x z where x: "k = Fin x" "y = Fin z" "1 \<le> x" "q \<le> z"
    using assms by (auto simp: isfinite_iff q(1))
  have "1 * q \<le> x * z" using x q(2) by (intro mult_mono) simp_all
  then have "fround q \<le> fround (x * z)" by (intro fround_mono) simp
  then show ?thesis using q(2) by (cases "fround (x * z)") (auto simp: x dq)
qed

lemma double_zero: "is_double (Fin 0)"
  by simp

lemma div_no_larger:
  assumes "is_double a" and "isfinite a" and "Fin 1 \<le> k" and "isfinite k"
  shows "\<exists>w. fdiv a k = Inr w \<and> no_larger w a"
proof -
  obtain x y where x: "a = Fin x" "k = Fin y" "1 \<le> y" using assms by (auto simp: isfinite_iff)
  have "\<bar>x / y\<bar> \<le> \<bar>x\<bar>" using x(3) by (simp add: abs_divide divide_le_eq mult_le_cancel_left1)
  then have "- \<bar>x\<bar> \<le> x / y" "x / y \<le> \<bar>x\<bar>" by linarith+
  then have "fround (- \<bar>x\<bar>) \<le> fround (x / y)" "fround (x / y) \<le> fround \<bar>x\<bar>"
    by (simp_all add: fround_mono)
  moreover have "fround \<bar>x\<bar> = Fin \<bar>x\<bar>" "fround (- \<bar>x\<bar>) = Fin (- \<bar>x\<bar>)"
    using assms(1) by (cases "0 \<le> x"; simp add: x fround_minus)+
  ultimately show ?thesis using x by (cases "fround (x / y)") (auto simp: no_larger_def)
qed

lemma scale_double:
  assumes "scale_to_magnitude lib vx vy m = Inr (x, y)" and "is_double vx" and "is_double vy"
  shows "is_double x \<and> is_double y"
  using assms by (auto simp: scale_to_magnitude_def Let_def bindR_Inr_iff double_zero simp del: is_double_simps(4) split: if_splits)

lemma cmd_frame:
  assumes "hypot_law lib" and "hypot_zero lib" and "is_double vx" and "is_double vy" and "scale_ok d"
  shows "\<exists>f. frames (snd (on_cmd_vel lib d vx vy wz now)) = frames d @ [f] \<and> safe_frame lib (wheel_scale d) f
    \<and> (f \<noteq> Brake \<longrightarrow> config_error d = [] \<and> \<not> overlay_blocks d now)
    \<and> fst (on_cmd_vel lib d vx vy wz now) = Inr ()"
proof -
  let ?d = "d\<lparr>last_cmd_time := Some now, stale := False\<rparr>"
  let ?vy = "if \<not> lateral_enabled d \<and> isfinite vy then Fin 0 else vy"
  have ob: "overlay_blocks ?d now = overlay_blocks d now" by (simp add: overlay_blocks_def)
  show ?thesis
  proof (cases "config_error d = [] \<and> \<not> overlay_blocks d now")
    case False
    then show ?thesis by (auto simp: on_cmd_vel_def ob send_def safe_frame_def Let_def)
  next
    case True
    have vy: "is_double ?vy" using assms(4) double_zero by (simp del: is_double_simps(4))
    obtain x y w where c: "clamp_body_velocity lib vx ?vy wz = Inr (x, y, w)"
        "m_hypot lib x y \<le> MAX_LINEAR_VELOCITY" "isfinite x" "isfinite y" "isfinite w"
      using scale_spec [OF assms(1-3) vy _ _ max_velocity_finite(1) max_velocity_pos(1)] assms(2) max_velocity_pos(2)
      by (cases "isfinite vx \<and> isfinite ?vy \<and> isfinite wz")
        (auto simp: clamp_body_velocity_def no_larger_def hypot_zero_def zero_pyfloat_def)
    have xy: "is_double x" "is_double y"
      using c(1) scale_double assms(3) vy
      by (auto simp: clamp_body_velocity_def bindR_Inr_iff double_zero simp del: is_double_simps(4) split: if_splits prod.splits)
    have k: "Fin 1 \<le> wheel_scale d" "isfinite (wheel_scale d)" "YAW_SCALE_MIN \<le> yaw_scale d" "isfinite (yaw_scale d)"
      using assms(5) True by (simp_all add: scale_ok_def)
    obtain wx where wx: "fdiv x (wheel_scale d) = Inr wx" "no_larger wx x" using div_no_larger [OF xy(1) c(3) k(1,2)] by blast
    obtain wy where wy: "fdiv y (wheel_scale d) = Inr wy" "no_larger wy y" using div_no_larger [OF xy(2) c(4) k(1,2)] by blast
    obtain ww where ww: "fdiv w (wheel_scale d * yaw_scale d) = Inr ww" using wire_divisor [OF k] by blast
    show ?thesis using True c wx wy ww
      by (auto simp: on_cmd_vel_def ob send_def safe_frame_def to_wire_def Let_def)
  qed
qed

section \<open>Histories of the driver\<close>

fun typed_msg :: "driver_msg \<Rightarrow> bool" where
  "typed_msg (CmdVel vx vy wz t) = (is_double vx \<and> is_double vy)"
| "typed_msg _ = True"

lemma config_frame [simp]:
  "wheel_scale (driver_step lib mv d m) = wheel_scale d"
  "yaw_scale (driver_step lib mv d m) = yaw_scale d"
  "config_error (driver_step lib mv d m) = config_error d"
  "stop_overlay_enabled (driver_step lib mv d m) = stop_overlay_enabled d"
  "cmd_timeout_s (driver_step lib mv d m) = cmd_timeout_s d"
  by (cases m; simp add: on_stop_state_def on_cmd_vel_def on_watchdog_tick_def shutdown_sequence_def send_def
      case_prod_beta Let_def split: sum.split)+

lemma scale_ok_step [py_inv]: "scale_ok d \<Longrightarrow> scale_ok (driver_step lib mv d m)"
  by (simp add: scale_ok_def)

lemma frames_other:
  "frames (driver_step lib mv d (StopState raw t)) = frames d"
  "frames (driver_step lib mv d (Watchdog t)) = frames d \<or> frames (driver_step lib mv d (Watchdog t)) = frames d @ [Brake]"
  "frames (driver_step lib mv d Shutdown) = frames d \<or> frames (driver_step lib mv d Shutdown) = frames d @ [Brake, ResetState]"
  by (simp_all add: on_stop_state_def on_watchdog_tick_def shutdown_sequence_def send_def case_prod_beta Let_def)

lemma driver_run_simps [simp]:
  "driver_run lib mv d [] = d"
  "driver_run lib mv d (m # ms) = driver_run lib mv (driver_step lib mv d m) ms"
  by (simp_all add: driver_run_def)

lemma driver_run_snoc: "driver_run lib mv d (ms @ [m]) = driver_step lib mv (driver_run lib mv d ms) m"
  by (simp add: driver_run_def)

lemma run_config [simp]:
  "wheel_scale (driver_run lib mv d ms) = wheel_scale d"
  "config_error (driver_run lib mv d ms) = config_error d"
  "stop_overlay_enabled (driver_run lib mv d ms) = stop_overlay_enabled d"
  "cmd_timeout_s (driver_run lib mv d ms) = cmd_timeout_s d"
  by (induction ms arbitrary: d) simp_all

lemma scale_ok_run: "scale_ok d \<Longrightarrow> scale_ok (driver_run lib mv d ms)"
  by (induction ms arbitrary: d) (simp_all add: scale_ok_step)

lemma step_frames:
  assumes "hypot_law lib" and "hypot_zero lib" and "typed_msg m" and "scale_ok d"
    and "f \<in> set (frames (driver_step lib mv d m))"
  shows "f \<in> set (frames d) \<or> safe_frame lib (wheel_scale d) f \<and> (config_error d \<noteq> [] \<longrightarrow> f \<in> {Brake, ResetState})"
proof (cases m)
  case (CmdVel vx vy wz t)
  then show ?thesis using assms cmd_frame [OF assms(1,2) _ _ assms(4), of vx vy wz t] by auto
next
  case (Watchdog t)
  then show ?thesis using assms(5) frames_other(2) [of lib mv d t] by (auto simp: safe_frame_def)
next
  case Shutdown
  then show ?thesis using assms(5) frames_other(3) [of lib mv d] by (auto simp: safe_frame_def)
qed (use assms(5) in \<open>simp add: frames_other del: driver_step.simps\<close>)

lemma run_frames:
  assumes "hypot_law lib" and "hypot_zero lib" and "list_all typed_msg ms" and "scale_ok d"
    and "f \<in> set (frames (driver_run lib mv d ms))"
  shows "f \<in> set (frames d) \<or> safe_frame lib (wheel_scale d) f \<and> (config_error d \<noteq> [] \<longrightarrow> f \<in> {Brake, ResetState})"
  using assms
proof (induction ms arbitrary: d)
  case (Cons m ms)
  then show ?case
    using step_frames [OF assms(1,2), of m d f mv] scale_ok_step [of d lib mv m]
      Cons.IH [of "driver_step lib mv d m"] by simp blast
qed simp

text \<open>
  Everything a freshly built driver ever sends is safe: after any history of stop states,
  commands, watchdog ticks and shutdowns each frame is a stop or a vector of speed at most the cap
  divided by the validated wheel scale, never larger than that vector in either component; and a
  driver whose wheel or yaw scale is unusable sends stops only.
\<close>

theorem driver_frames_safe:
  assumes "hypot_law lib" and "hypot_zero lib" and "list_all typed_msg ms"
    and "f \<in> set (frames (driver_run lib mv (make_driver timeout ov wheel yaw lat) ms))"
  shows "safe_frame lib (wheel_scale (make_driver timeout ov wheel yaw lat)) f
    \<and> (\<not> (Fin 1 \<le> wheel \<and> wheel \<le> Fin (5/2) \<and> YAW_SCALE_MIN \<le> yaw \<and> yaw \<le> Fin 5) \<longrightarrow> f \<in> {Brake, ResetState})"
proof -
  let ?d = "make_driver timeout ov wheel yaw lat"
  have "frames ?d = []" by (simp add: make_driver_def case_prod_beta Let_def)
  moreover have "config_error ?d \<noteq> []" if "\<not> (Fin 1 \<le> wheel \<and> wheel \<le> Fin (5/2) \<and> YAW_SCALE_MIN \<le> yaw \<and> yaw \<le> Fin 5)"
    using that by (auto simp: make_driver_def validated_scale_def WHEEL_SCALE_MIN_def WHEEL_SCALE_MAX_def
        YAW_SCALE_MAX_def Let_def)
  ultimately show ?thesis
    using run_frames [OF assms(1-3) make_driver_scale_ok, of f mv timeout ov wheel yaw lat] assms(4) by auto
qed

theorem driver_frames_safe_witness:
  "safe_frame unit_libm (Fin 1) Brake \<and> Brake \<in> set (frames (driver_run unit_libm (Fin 1)
     (make_driver (Fin 1) True (Fin 7) (Fin 1) True) [CmdVel (Fin (1/8)) (Fin 0) (Fin 0) (Fin 5)]))"
proof -
  let ?d = "make_driver (Fin 1) True (Fin 7) (Fin 1) True"
  have b: "Brake \<in> set (frames (driver_run unit_libm (Fin 1) ?d [CmdVel (Fin (1/8)) (Fin 0) (Fin 0) (Fin 5)]))"
    by (simp add: on_cmd_vel_def make_driver_def validated_scale_def WHEEL_SCALE_MAX_def send_def Let_def case_prod_beta)
  then show ?thesis
    using driver_frames_safe [OF unit_hypot unit_hypot_zero _ b] by (simp add: py_eval safe_frame_def)
qed

section \<open>Permission and freshness\<close>

fun is_stop_state :: "driver_msg \<Rightarrow> bool" where
  "is_stop_state (StopState _ _) = True"
| "is_stop_state _ = False"

fun is_cmd :: "driver_msg \<Rightarrow> bool" where
  "is_cmd (CmdVel _ _ _ _) = True"
| "is_cmd _ = False"

lemma permit_frame [simp]:
  "permit_until (send f d) = permit_until d" "last_cmd_time (send f d) = last_cmd_time d"
  by (simp_all add: send_def)

lemma permit_other: "\<not> is_stop_state m \<Longrightarrow> permit_until (driver_step lib mv d m) = permit_until d"
  by (cases m) (auto simp: on_cmd_vel_def on_watchdog_tick_def shutdown_sequence_def case_prod_beta Let_def
      split: sum.split)

lemma permit_stop_state:
  "permit_until (driver_step lib mv d (StopState raw t)) = Some u \<Longrightarrow> stop_overlay_enabled d \<Longrightarrow>
    decode_stop_state raw t mv = (False, u)"
  by (auto simp: on_stop_state_def case_prod_beta Let_def prod_eq_iff split: if_splits)

text \<open>A permission always stems from the latest stop-state message.\<close>

lemma permit_from_latest:
  assumes "permit_until d = None" and "stop_overlay_enabled d" and "permit_until (driver_run lib mv d ms) = Some u"
  shows "\<exists>xs raw t ys. ms = xs @ StopState raw t # ys \<and> filter is_stop_state ys = []
    \<and> decode_stop_state raw t mv = (False, u)"
  using assms(3)
proof (induction ms rule: rev_induct)
  case (snoc m ms)
  show ?case
  proof (cases "is_stop_state m")
    case True
    then obtain raw t where m: "m = StopState raw t" by (cases m) auto
    have "decode_stop_state raw t mv = (False, u)"
      using snoc.prems assms(2) permit_stop_state unfolding driver_run_snoc m by force
    then show ?thesis by (intro exI [of _ ms] exI [of _ raw] exI [of _ t] exI [of _ "[]"]) (simp add: m)
  next
    case False
    then obtain xs raw t ys where "ms = xs @ StopState raw t # ys" "filter is_stop_state ys = []"
        "decode_stop_state raw t mv = (False, u)"
      using snoc by (auto simp: driver_run_snoc permit_other)
    then show ?thesis using False
      by (intro exI [of _ xs] exI [of _ raw] exI [of _ t] exI [of _ "ys @ [m]"]) simp
  qed
qed (use assms(1) in simp)

lemma py_min_le: "\<not> isnan a \<Longrightarrow> \<not> isnan b \<Longrightarrow> py_min a b \<le> b" for a b :: pyfloat
  by (cases a; cases b) (auto simp: py_min_def)

definition window :: "pyfloat \<Rightarrow> pyfloat" where
  "window mv = positive_or_default mv DEFAULT_STOP_STATE_MAX_VALIDITY_S"

lemma window_finite: "isfinite (window mv)"
  by (simp add: window_def positive_or_default_def DEFAULT_STOP_STATE_MAX_VALIDITY_S_def)

lemma decode_grant:
  assumes "decode_stop_state raw t mv = (False, u)" and "isfinite t"
  shows "u \<le> t + window mv"
proof -
  obtain v where v: "isfinite v" "u = py_min v (t + window mv)"
    using assms(1)
    by (auto simp: decode_stop_state_def revoke_def Let_def window_def split: option.splits pyval.splits if_splits sum.splits)
  have "\<not> isnan (t + window mv)"
    using assms(2) window_finite [of mv] minus_not_nan [of t "- window mv"]
    by (cases t; cases "window mv") (auto simp: fround_def Let_def)
  then show ?thesis using v py_min_le isfinite_not_nan by blast
qed

text \<open>
  C20. Motion needs a recent permission: with the stop overlay enabled, a driver that starts without
  permission sends a velocity in answer to a command at \<open>now\<close> only if the latest stop-state message
  it received was a well-formed one that does not request a stop, whose deadline is not past, and,
  as the deadline is capped on receipt, that was received at most one validity window ago. A later
  stop request or unreadable message revokes the permission at once.
\<close>

theorem motion_needs_recent_permit:
  assumes "permit_until d = None" and "stop_overlay_enabled d"
    and "SetVelocity wx wy ww \<in> set (drop (length (frames (driver_run lib mv d ms)))
           (frames (driver_step lib mv (driver_run lib mv d ms) (CmdVel vx vy wz now))))"
    and "\<forall>raw t. StopState raw t \<in> set ms \<longrightarrow> isfinite t"
  shows "\<exists>xs raw t ys u. ms = xs @ StopState raw t # ys \<and> filter is_stop_state ys = []
    \<and> decode_stop_state raw t mv = (False, u) \<and> \<not> u < now \<and> u \<le> t + window mv"
proof -
  let ?d = "driver_run lib mv d ms"
  have "\<not> overlay_blocks ?d now"
    using assms(3) by (auto simp: on_cmd_vel_def send_def overlay_blocks_def Let_def split: if_splits)
  then obtain u where u: "permit_until ?d = Some u" "\<not> u < now"
    using assms(2) by (auto simp: overlay_blocks_def split: option.splits)
  then obtain xs raw t ys where x: "ms = xs @ StopState raw t # ys" "filter is_stop_state ys = []"
      "decode_stop_state raw t mv = (False, u)"
    using permit_from_latest [OF assms(1,2)] by blast
  moreover have "u \<le> t + window mv" using decode_grant [OF x(3)] assms(4) x(1) by simp
  ultimately show ?thesis using u(2) by blast
qed

definition grant_payload :: json_text where
  "grant_payload = Some (PDict [(''stop_requested'', PBool False), (''valid_until'', PFloat (Fin 6))])"

definition sample_driver :: driver where
  "sample_driver = make_driver (Fin 1) True (Fin 1) (Fin 1) True"

theorem motion_needs_recent_permit_witness:
  "\<exists>xs raw t ys u. [StopState grant_payload (Fin 6)] = xs @ StopState raw t # ys \<and> filter is_stop_state ys = []
    \<and> decode_stop_state raw t (Fin 1) = (False, u) \<and> \<not> u < Fin 6 \<and> u \<le> t + window (Fin 1)"
proof -
  have d: "permit_until sample_driver = None" "stop_overlay_enabled sample_driver" "frames sample_driver = []"
    "deadline_watermark sample_driver = None" "config_error sample_driver = []" "lateral_enabled sample_driver"
    "wheel_scale sample_driver = Fin 1" "yaw_scale sample_driver = Fin 1"
    by (simp_all add: sample_driver_def make_driver_def validated_scale_def WHEEL_SCALE_MIN_def WHEEL_SCALE_MAX_def
        YAW_SCALE_MAX_def yaw_min_eq Let_def)
  have dec: "decode_stop_state grant_payload (Fin 6) (Fin 1) = (False, Fin 6)"
    by (simp add: decode_stop_state_def grant_payload_def dget_def positive_or_default_def py_min_def py_eval)
  have f: "SetVelocity (Fin (1/8)) (Fin 0) (Fin 0) \<in> set (drop (length (frames (driver_run unit_libm (Fin 1) sample_driver [StopState grant_payload (Fin 6)])))
           (frames (driver_step unit_libm (Fin 1) (driver_run unit_libm (Fin 1) sample_driver [StopState grant_payload (Fin 6)]) (CmdVel (Fin (1/8)) (Fin 0) (Fin 0) (Fin 6)))))"
    by (simp add: dec on_stop_state_def d on_cmd_vel_def overlay_blocks_def clamp_body_velocity_def
        scale_to_magnitude_def unit_libm_def to_wire_def send_def py_eval zero_pyfloat_def max_velocity_eq Let_def)
  show ?thesis using motion_needs_recent_permit [OF d(1,2) f] by simp
qed

lemma cmd_time_other: "\<not> is_cmd m \<Longrightarrow> last_cmd_time (driver_step lib mv d m) = last_cmd_time d"
  by (cases m) (auto simp: on_stop_state_def on_watchdog_tick_def shutdown_sequence_def case_prod_beta Let_def)

lemma cmd_time_run: "filter is_cmd ms = [] \<Longrightarrow> last_cmd_time (driver_run lib mv d ms) = last_cmd_time d"
  by (induction ms arbitrary: d) (auto simp: cmd_time_other split: if_splits)

text \<open>
  A silent command stream brakes: if the last command arrived at \<open>t\<close>, every watchdog tick
  more than the command timeout later sends a brake and reports it, whatever stop states, ticks or
  permissions came in between, and also with the stop overlay disabled.
\<close>

theorem silent_commands_brake:
  assumes "filter is_cmd ms = []" and "cmd_timeout_s d < now - t"
  shows "let d' = driver_run lib mv (driver_step lib mv d (CmdVel vx vy wz t)) ms in
    fst (on_watchdog_tick d' now) \<and> frames (snd (on_watchdog_tick d' now)) = frames d' @ [Brake]"
proof -
  let ?d = "driver_run lib mv (driver_step lib mv d (CmdVel vx vy wz t)) ms"
  have "last_cmd_time (driver_step lib mv d (CmdVel vx vy wz t)) = Some t"
    by (simp add: on_cmd_vel_def Let_def split: sum.split prod.split)
  then have "last_cmd_time ?d = Some t" using cmd_time_run [OF assms(1)] by simp
  moreover have "cmd_timeout_s ?d = cmd_timeout_s d" by (simp del: driver_step.simps)
  then have "\<not> now - t \<le> cmd_timeout_s ?d" using assms(2) flt_le_false by metis
  ultimately have "\<not> cmd_fresh ?d now" by (simp add: cmd_fresh_def)
  then show ?thesis by (simp add: on_watchdog_tick_def send_def Let_def)
qed

theorem silent_commands_brake_witness:
  "fst (on_watchdog_tick (driver_run unit_libm (Fin 1) (driver_step unit_libm (Fin 1) sample_driver
      (CmdVel (Fin 0) (Fin 0) (Fin 0) (Fin 5))) [StopState grant_payload (Fin 6)]) (Fin 8))"
proof -
  have "cmd_timeout_s sample_driver < Fin 8 - Fin 5"
    by (simp add: sample_driver_def make_driver_def positive_or_default_def Let_def case_prod_beta py_eval)
  then show ?thesis
    using silent_commands_brake [of "[StopState grant_payload (Fin 6)]" sample_driver "Fin 8" "Fin 5" unit_libm "Fin 1"
        "Fin 0" "Fin 0" "Fin 0"]
    by (simp add: Let_def del: driver_step.simps)
qed

end
