(* ===== verification/Joymap.thy ===== *)
theory Joymap
  imports GuardLogic
begin

text \<open>
  The joystick teleoperation, \<open>warehouse_teleop/joymap.py\<close> and the callbacks of \<open>teleop_joy.py\<close>:
  the mapping of a Joy sample to a velocity, the freshness check, the operator e-stop latch with its
  re-arm gesture, and the node that publishes the conjunction of the three. Axes and button indices
  are integers, so an index can be negative; what the node publishes is recorded.
\<close>

section \<open>Mapping a sample to a velocity\<close>

definition DEFAULT_JOY_TIMEOUT_S :: pyfloat where
  "DEFAULT_JOY_TIMEOUT_S = fround (6/10)"

type_synonym twist = "pyfloat \<times> pyfloat \<times> pyfloat"

definition no_twist :: twist where
  "no_twist = (Fin 0, Fin 0, Fin 0)"

record joy_params =
  p_axis_linear_x :: int
  p_axis_linear_y :: int
  p_axis_angular :: int
  p_deadman_button :: int
  p_deadzone :: pyfloat
  p_max_linear :: pyfloat
  p_max_angular :: pyfloat
  p_invert_x :: bool
  p_invert_y :: bool
  p_invert_wz :: bool

definition DEFAULT_JOY_PARAMS :: joy_params where
  "DEFAULT_JOY_PARAMS = \<lparr>p_axis_linear_x = 1, p_axis_linear_y = 0, p_axis_angular = 2, p_deadman_button = 6,
     p_deadzone = fround (1/10), p_max_linear = MAX_LINEAR_VELOCITY, p_max_angular = Fin (3/2),
     p_invert_x = False, p_invert_y = False, p_invert_wz = False\<rparr>"

definition nonneg :: "pyfloat \<Rightarrow> pyfloat" where
  "nonneg v = (if \<not> isfinite v \<or> v < Fin 0 then Fin 0 else v)"

definition index_ok :: "'a list \<Rightarrow> int \<Rightarrow> bool" where
  "index_ok xs i \<longleftrightarrow> 0 \<le> i \<and> i < int (length xs)"

definition axis_value :: "pyfloat list \<Rightarrow> int \<Rightarrow> pyfloat" where
  "axis_value axes i =
     (if \<not> index_ok axes i then Fin 0
      else let v = axes ! nat i in if \<not> isfinite v then Fin 0 else v)"

definition apply_deadzone :: "pyfloat \<Rightarrow> pyfloat \<Rightarrow> pyfloat" where
  "apply_deadzone v deadzone = (if \<bar>v\<bar> < deadzone then Fin 0 else v)"

definition joy_to_twist :: "libm \<Rightarrow> joy_params \<Rightarrow> pyfloat list \<Rightarrow> int list \<Rightarrow> twist result" where
  "joy_to_twist lib p axes buttons =
     (if \<not> index_ok buttons (p_deadman_button p) then Inr no_twist
      else if buttons ! nat (p_deadman_button p) = 0 then Inr no_twist
      else
        let linear_cap = py_min (nonneg (p_max_linear p)) MAX_LINEAR_VELOCITY;
            angular_cap = nonneg (p_max_angular p);
            dz = nonneg (p_deadzone p);
            ax = apply_deadzone (axis_value axes (p_axis_linear_x p)) dz;
            ay = apply_deadzone (axis_value axes (p_axis_linear_y p)) dz;
            aw = apply_deadzone (axis_value axes (p_axis_angular p)) dz;
            vx = (if p_invert_x p then - ax else ax) * linear_cap;
            vy = (if p_invert_y p then - ay else ay) * linear_cap;
            magnitude = m_hypot lib vx vy;
            wz = clamp_velocity ((if p_invert_wz p then - aw else aw) * angular_cap) angular_cap
        in if linear_cap < magnitude \<and> Fin 0 < magnitude
           then bindR (fdiv linear_cap magnitude) (\<lambda>scale. Inr (vx * scale, vy * scale, wz))
           else Inr (vx, vy, wz))"

section \<open>Freshness\<close>

definition joy_positive_or_default :: "pyfloat \<Rightarrow> pyfloat \<Rightarrow> pyfloat" where
  "joy_positive_or_default v dfl = (if \<not> isfinite v \<or> v \<le> Fin 0 then dfl else v)"

definition joy_is_stale :: "pyfloat \<Rightarrow> pyfloat \<Rightarrow> bool" where
  "joy_is_stale elapsed_s timeout_s \<longleftrightarrow>
     (let timeout = joy_positive_or_default timeout_s DEFAULT_JOY_TIMEOUT_S in
      \<not> isfinite elapsed_s \<or> timeout < elapsed_s)"

definition apply_joy_freshness :: "twist \<Rightarrow> pyfloat \<Rightarrow> pyfloat \<Rightarrow> twist" where
  "apply_joy_freshness newest elapsed_s timeout_s = (if joy_is_stale elapsed_s timeout_s then no_twist else newest)"

section \<open>The operator e-stop latch\<close>

datatype estop_action = ESTOP_NONE | ESTOP_ENGAGE | ESTOP_CLEAR

text \<open>The parsed form of the wire text \<open>OPERATOR_STOP_PAYLOAD\<close>.\<close>

fun operator_stop_payload :: "estop_action \<Rightarrow> json_text" where
  "operator_stop_payload ESTOP_ENGAGE = Some (PDict [(''action'', PStr ''engage'')])"
| "operator_stop_payload ESTOP_CLEAR = Some (PDict [(''action'', PStr ''clear'')])"
| "operator_stop_payload ESTOP_NONE = None"

record estop_config =
  deadman_button :: int
  estop_button :: int
  estop_button_alt :: int
  clear_buttons :: "int list"
  axis_linear_x :: int
  axis_linear_y :: int
  axis_angular :: int
  deadzone :: pyfloat

definition DEFAULT_ESTOP_CONFIG :: estop_config where
  "DEFAULT_ESTOP_CONFIG = \<lparr>deadman_button = 6, estop_button = 1, estop_button_alt = 7, clear_buttons = [10, 11],
     axis_linear_x = 1, axis_linear_y = 0, axis_angular = 2, deadzone = fround (1/10)\<rparr>"

definition estop_enabled :: "estop_config \<Rightarrow> bool" where
  "estop_enabled cfg \<longleftrightarrow> estop_button cfg \<noteq> - 1"

record estop_state =
  es_latched :: bool
  neutral_seen :: bool
  armed :: bool
  prev_buttons :: "int list option"

definition init_estop :: estop_state where
  "init_estop = \<lparr>es_latched = False, neutral_seen = False, armed = False, prev_buttons = None\<rparr>"

definition pressed :: "int list \<Rightarrow> int \<Rightarrow> bool" where
  "pressed buttons i \<longleftrightarrow> (if \<not> index_ok buttons i then False else buttons ! nat i \<noteq> 0)"

definition axis_neutral :: "pyfloat list \<Rightarrow> pyfloat \<Rightarrow> int \<Rightarrow> bool" where
  "axis_neutral axes dz i \<longleftrightarrow> index_ok axes i \<and> isfinite (axes ! nat i) \<and> \<not> dz \<le> \<bar>axes ! nat i\<bar>"

definition is_neutral :: "pyfloat list \<Rightarrow> estop_config \<Rightarrow> bool" where
  "is_neutral axes cfg \<longleftrightarrow>
     list_all (axis_neutral axes (nonneg (deadzone cfg))) [axis_linear_x cfg, axis_linear_y cfg, axis_angular cfg]"

datatype estop_problem =
    EstopNotAnIndex | AltNotAnIndex | NoClearButtons | NegativeClearButton | EstopIsDeadman | AltIsDeadman
  | AltDuplicatesEstop | DeadmanInChord | EstopInChord | AltInChord
  | DeadmanOutOfRange | EstopOutOfRange | AltOutOfRange | ClearOutOfRange int

definition estop_range_error :: "estop_config \<Rightarrow> int list \<Rightarrow> estop_problem option" where
  "estop_range_error cfg buttons =
     (if \<not> index_ok buttons (deadman_button cfg) then Some DeadmanOutOfRange
      else if \<not> index_ok buttons (estop_button cfg) then Some EstopOutOfRange
      else if 0 \<le> estop_button_alt cfg \<and> \<not> index_ok buttons (estop_button_alt cfg) then Some AltOutOfRange
      else map_option ClearOutOfRange (find (\<lambda>i. \<not> index_ok buttons i) (clear_buttons cfg)))"

definition operator_estop_config_error :: "estop_config \<Rightarrow> int list option \<Rightarrow> estop_problem option" where
  "operator_estop_config_error cfg buttons =
     (if \<not> estop_enabled cfg then None
      else if estop_button cfg < - 1 then Some EstopNotAnIndex
      else if estop_button_alt cfg < - 1 then Some AltNotAnIndex
      else if clear_buttons cfg = [] then Some NoClearButtons
      else if list_ex (\<lambda>b. b < 0) (clear_buttons cfg) then Some NegativeClearButton
      else if estop_button cfg = deadman_button cfg then Some EstopIsDeadman
      else if 0 \<le> estop_button_alt cfg \<and> estop_button_alt cfg = deadman_button cfg then Some AltIsDeadman
      else if 0 \<le> estop_button_alt cfg \<and> estop_button_alt cfg = estop_button cfg then Some AltDuplicatesEstop
      else if deadman_button cfg \<in> set (clear_buttons cfg) then Some DeadmanInChord
      else if estop_button cfg \<in> set (clear_buttons cfg) then Some EstopInChord
      else if 0 \<le> estop_button_alt cfg \<and> estop_button_alt cfg \<in> set (clear_buttons cfg) then Some AltInChord
      else case buttons of None \<Rightarrow> None | Some bs \<Rightarrow> estop_range_error cfg bs)"

definition rising_edge :: "int list option \<Rightarrow> int list \<Rightarrow> int \<Rightarrow> bool" where
  "rising_edge prev now i \<longleftrightarrow> (case prev of None \<Rightarrow> False | Some pr \<Rightarrow> pressed now i \<and> \<not> pressed pr i)"

definition estop_rising :: "int list option \<Rightarrow> int list \<Rightarrow> int \<Rightarrow> bool" where
  "estop_rising prev now i \<longleftrightarrow>
     (if \<not> pressed now i then False else case prev of None \<Rightarrow> True | Some pr \<Rightarrow> \<not> pressed pr i)"

definition chord_rising :: "int list option \<Rightarrow> int list \<Rightarrow> int list \<Rightarrow> bool" where
  "chord_rising prev now indices \<longleftrightarrow>
     (case prev of
        None \<Rightarrow> False
      | Some pr \<Rightarrow>
          if indices = [] then False
          else if \<not> list_all (pressed now) indices then False
          else \<not> list_all (pressed pr) indices)"

definition operator_estop_step ::
  "estop_config \<Rightarrow> estop_state \<Rightarrow> int list \<Rightarrow> pyfloat list \<Rightarrow> estop_state \<times> estop_action \<times> bool" where
  "operator_estop_step cfg s buttons axes =
     (if operator_estop_config_error cfg (Some buttons) \<noteq> None then
        (s\<lparr>armed := False, neutral_seen := False, prev_buttons := Some buttons\<rparr>, ESTOP_NONE, False)
      else
        let prev = prev_buttons s in
        if estop_enabled cfg
           \<and> (estop_rising prev buttons (estop_button cfg) \<or> estop_rising prev buttons (estop_button_alt cfg)) then
          (\<lparr>es_latched = True, neutral_seen = False, armed = False, prev_buttons = Some buttons\<rparr>, ESTOP_ENGAGE, False)
        else if estop_enabled cfg \<and> es_latched s \<and> chord_rising prev buttons (clear_buttons cfg)
           \<and> \<not> pressed buttons (deadman_button cfg) \<and> \<not> pressed buttons (estop_button cfg)
           \<and> \<not> pressed buttons (estop_button_alt cfg) then
          (\<lparr>es_latched = False, neutral_seen = False, armed = False, prev_buttons = Some buttons\<rparr>, ESTOP_CLEAR, False)
        else
          let neutral = (if es_latched s then neutral_seen s else neutral_seen s \<or> is_neutral axes cfg);
              arm = (if es_latched s then armed s
                     else if neutral \<and> rising_edge prev buttons (deadman_button cfg) then True else armed s)
          in (\<lparr>es_latched = es_latched s, neutral_seen = neutral, armed = arm, prev_buttons = Some buttons\<rparr>,
              ESTOP_NONE, \<not> es_latched s \<and> arm))"

definition operator_estop_disarm :: "estop_state \<Rightarrow> estop_state" where
  "operator_estop_disarm s = s\<lparr>armed := False, neutral_seen := False\<rparr>"

section \<open>The node\<close>

text \<open>
  Clock reads are integer nanoseconds. \<open>sent_stops\<close> and \<open>sent_twists\<close> record what was published, the
  stop requests only when that publisher exists.
\<close>

record joy_node =
  estop :: estop_state
  motion_allowed :: bool
  latest_twist :: twist
  last_joy_time :: "int option"
  publish_stops :: bool
  sent_stops :: "estop_action list"
  sent_twists :: "twist list"

definition init_joy_node :: "bool \<Rightarrow> joy_node" where
  "init_joy_node publish = \<lparr>estop = init_estop, motion_allowed = False, latest_twist = no_twist,
     last_joy_time = None, publish_stops = publish, sent_stops = [], sent_twists = []\<rparr>"

definition on_joy ::
  "libm \<Rightarrow> joy_params \<Rightarrow> estop_config \<Rightarrow> joy_node \<Rightarrow> int \<Rightarrow> pyfloat list \<Rightarrow> int list \<Rightarrow> joy_node result" where
  "on_joy lib p cfg n now axes buttons =
     bindR (joy_to_twist lib p axes buttons) (\<lambda>tw.
       let (st, action, allowed) = operator_estop_step cfg (estop n) buttons axes in
       Inr (n\<lparr>last_joy_time := Some now, latest_twist := tw, estop := st, motion_allowed := allowed,
              sent_stops := sent_stops n @ (if action \<noteq> ESTOP_NONE \<and> publish_stops n then [action] else [])\<rparr>))"

definition joy_elapsed :: "joy_node \<Rightarrow> int \<Rightarrow> pyfloat" where
  "joy_elapsed n now =
     (case last_joy_time n of None \<Rightarrow> PInf | Some t \<Rightarrow> fround (of_int (now - t)) * fround (1 / 10 ^ 9))"

definition on_joy_timer :: "pyfloat \<Rightarrow> joy_node \<Rightarrow> int \<Rightarrow> joy_node" where
  "on_joy_timer timeout n now =
     (let elapsed = joy_elapsed n now;
          n = (if joy_is_stale elapsed timeout
               then n\<lparr>estop := operator_estop_disarm (estop n), motion_allowed := False\<rparr> else n);
          tw = apply_joy_freshness (latest_twist n) elapsed timeout;
          tw = (if \<not> motion_allowed n then no_twist else tw)
      in n\<lparr>sent_twists := sent_twists n @ [tw]\<rparr>)"

end
