(* ===== verification/OperatorLink.thy ===== *)
theory OperatorLink
  imports Joymap
begin

text \<open>
  The control link of a remote operator, \<open>warehouse_teleop/operator_link_logic.py\<close>: the strict parser
  of control frames, the session guard that admits them, the replay of an admitted drive command,
  the heartbeat watchdog, the video freshness check and the one-shot crossing approvals. A frame is
  the parsed JSON document, or \<open>None\<close> where decoding or parsing it failed; clock reads are floats.
\<close>

section \<open>Control messages\<close>

definition MAX_JOY_ARRAY_LEN :: nat where
  "MAX_JOY_ARRAY_LEN = 64"

datatype control_kind = HEARTBEAT | TELEOP | STOP_REQUEST | CROSSING_APPROVAL | AUTHORITY

fun kind_value :: "control_kind \<Rightarrow> string" where
  "kind_value HEARTBEAT = ''heartbeat''"
| "kind_value TELEOP = ''teleop''"
| "kind_value STOP_REQUEST = ''stop_request''"
| "kind_value CROSSING_APPROVAL = ''crossing_approval''"
| "kind_value AUTHORITY = ''authority''"

definition all_kinds :: "control_kind list" where
  "all_kinds = [HEARTBEAT, TELEOP, STOP_REQUEST, CROSSING_APPROVAL, AUTHORITY]"

definition STOP_ACTIONS :: "string list" where
  "STOP_ACTIONS = [''engage'', ''clear'']"

record approval_token =
  token_id :: string
  crossing_id :: string
  route_version :: string
  datum_version :: string
  entry_heading :: pyfloat
  expires_at_s :: pyfloat

datatype control_payload =
    HeartbeatPayload
  | TeleopPayload (tp_axes: "pyfloat list") (tp_buttons: "int list")
  | StopRequestPayload string
  | CrossingApprovalToken approval_token
  | AuthorityPayload bool

record control_message =
  kind :: control_kind
  session_epoch :: int
  sequence :: int
  sent_at_s :: pyfloat
  payload :: control_payload

definition ENVELOPE_KEYS :: "string list" where
  "ENVELOPE_KEYS = [''kind'', ''session_epoch'', ''sequence'', ''sent_at_s'']"

fun PAYLOAD_KEYS :: "control_kind \<Rightarrow> string list" where
  "PAYLOAD_KEYS HEARTBEAT = []"
| "PAYLOAD_KEYS TELEOP = [''axes'', ''buttons'']"
| "PAYLOAD_KEYS STOP_REQUEST = [''action'']"
| "PAYLOAD_KEYS CROSSING_APPROVAL =
     [''token_id'', ''crossing_id'', ''route_version'', ''datum_version'', ''entry_heading'', ''expires_at_s'']"
| "PAYLOAD_KEYS AUTHORITY = [''claim'']"

text \<open>\<open>float(value)\<close> of an integer beyond the float range raises.\<close>

definition is_finite_number :: "pyval \<Rightarrow> bool result" where
  "is_finite_number v = (if \<not> is_number v then Inr False else isfinite_val v)"

fun is_counter :: "pyval \<Rightarrow> bool" where
  "is_counter (PInt n) = (0 \<le> n)"
| "is_counter _ = False"

fun is_nonempty_str :: "pyval \<Rightarrow> bool" where
  "is_nonempty_str (PStr s) = (s \<noteq> [])"
| "is_nonempty_str _ = False"

fun is_int :: "pyval \<Rightarrow> bool" where
  "is_int (PInt _) = True"
| "is_int _ = False"

text \<open>\<open>all(_is_finite_number(a) for a in xs)\<close> stops at the first failing element.\<close>

fun all_finite :: "pyval list \<Rightarrow> bool result" where
  "all_finite [] = Inr True"
| "all_finite (a # xs) = bindR (is_finite_number a) (\<lambda>ok. if ok then all_finite xs else Inr False)"

fun all_floats :: "pyval list \<Rightarrow> pyfloat list result" where
  "all_floats [] = Inr []"
| "all_floats (a # xs) = bindR (to_float a) (\<lambda>x. bindR (all_floats xs) (\<lambda>ys. Inr (x # ys)))"

fun int_of :: "pyval \<Rightarrow> int" where
  "int_of (PInt n) = n"
| "int_of _ = 0"

fun str_of :: "pyval \<Rightarrow> string" where
  "str_of (PStr s) = s"
| "str_of _ = []"

type_synonym body = "(string \<times> pyval) list"

definition parse_teleop :: "body \<Rightarrow> control_payload option result" where
  "parse_teleop d =
     (case (dget d ''axes'', dget d ''buttons'') of
        (PList axes, PList buttons) \<Rightarrow>
          if MAX_JOY_ARRAY_LEN < length axes \<or> MAX_JOY_ARRAY_LEN < length buttons then Inr None
          else bindR (all_finite axes) (\<lambda>ok.
            if \<not> ok then Inr None
            else if \<not> list_all is_int buttons then Inr None
            else bindR (all_floats axes) (\<lambda>xs. Inr (Some (TeleopPayload xs (map int_of buttons)))))
      | _ \<Rightarrow> Inr None)"

definition parse_stop_request :: "body \<Rightarrow> control_payload option result" where
  "parse_stop_request d =
     (case dget d ''action'' of
        PStr a \<Rightarrow> Inr (if a \<notin> set STOP_ACTIONS then None else Some (StopRequestPayload a))
      | _ \<Rightarrow> Inr None)"

definition parse_crossing_approval :: "body \<Rightarrow> control_payload option result" where
  "parse_crossing_approval d =
     (if \<not> list_all (\<lambda>k. is_nonempty_str (dget d k)) [''token_id'', ''crossing_id'', ''route_version'', ''datum_version'']
      then Inr None
      else bindR (is_finite_number (dget d ''entry_heading'')) (\<lambda>ok1.
        if \<not> ok1 then Inr None
        else bindR (is_finite_number (dget d ''expires_at_s'')) (\<lambda>ok2.
          if \<not> ok2 then Inr None
          else bindR (to_float (dget d ''entry_heading'')) (\<lambda>h. bindR (to_float (dget d ''expires_at_s'')) (\<lambda>e.
            Inr (Some (CrossingApprovalToken \<lparr>token_id = str_of (dget d ''token_id''), crossing_id = str_of (dget d ''crossing_id''),
              route_version = str_of (dget d ''route_version''), datum_version = str_of (dget d ''datum_version''),
              entry_heading = h, expires_at_s = e\<rparr>)))))))"

definition parse_authority :: "body \<Rightarrow> control_payload option result" where
  "parse_authority d = (case dget d ''claim'' of PBool b \<Rightarrow> Inr (Some (AuthorityPayload b)) | _ \<Rightarrow> Inr None)"

definition parse_payload :: "control_kind \<Rightarrow> body \<Rightarrow> control_payload option result" where
  "parse_payload k d =
     (case k of
        HEARTBEAT \<Rightarrow> Inr (Some HeartbeatPayload)
      | TELEOP \<Rightarrow> parse_teleop d
      | STOP_REQUEST \<Rightarrow> parse_stop_request d
      | CROSSING_APPROVAL \<Rightarrow> parse_crossing_approval d
      | AUTHORITY \<Rightarrow> parse_authority d)"

definition parse_kind :: "pyval \<Rightarrow> control_kind option" where
  "parse_kind v = (case v of PStr s \<Rightarrow> find (\<lambda>k. kind_value k = s) all_kinds | _ \<Rightarrow> None)"

definition parse_control_message :: "json_text \<Rightarrow> control_message option result" where
  "parse_control_message raw =
     (case raw of
        Some (PDict d) \<Rightarrow>
          (case parse_kind (dget d ''kind'') of
             None \<Rightarrow> Inr None
           | Some k \<Rightarrow>
               if fst ` set d \<noteq> set (ENVELOPE_KEYS @ PAYLOAD_KEYS k) then Inr None
               else if \<not> is_counter (dget d ''session_epoch'') \<or> \<not> is_counter (dget d ''sequence'') then Inr None
               else bindR (is_finite_number (dget d ''sent_at_s'')) (\<lambda>ok.
                 if \<not> ok then Inr None
                 else bindR (parse_payload k d) (\<lambda>p.
                   case p of
                     None \<Rightarrow> Inr None
                   | Some pl \<Rightarrow> bindR (to_float (dget d ''sent_at_s'')) (\<lambda>t.
                       Inr (Some \<lparr>kind = k, session_epoch = int_of (dget d ''session_epoch''),
                         sequence = int_of (dget d ''sequence''), sent_at_s = t, payload = pl\<rparr>)))))
      | _ \<Rightarrow> Inr None)"

section \<open>The session guard\<close>

definition require_finite :: "pyval \<Rightarrow> pyfloat \<Rightarrow> pyfloat result" where
  "require_finite value minimum =
     (if \<not> is_number value then Inl ValueError
      else bindR (to_float value) (\<lambda>v. if \<not> isfinite v \<or> v < minimum then Inl ValueError else Inr v))"

definition require_positive :: "pyval \<Rightarrow> pyfloat result" where
  "require_positive value = bindR (require_finite value (Fin 0)) (\<lambda>v. if v \<le> Fin 0 then Inl ValueError else Inr v)"

record session_guard =
  guard_epoch :: int
  max_clock_skew_s :: pyfloat
  valid_for_s :: pyfloat
  last_sequence :: "int option"
  pending_teleop :: "control_message option"
  pending_received_mono_s :: "pyfloat option"
  discarded_teleop_count :: nat

definition make_guard :: "int \<Rightarrow> pyval \<Rightarrow> pyval \<Rightarrow> session_guard result" where
  "make_guard epoch skew valid_for =
     (if epoch < 0 then Inl ValueError
      else bindR (require_finite skew (Fin 0)) (\<lambda>sk. bindR (require_positive valid_for) (\<lambda>v.
        Inr \<lparr>guard_epoch = epoch, max_clock_skew_s = sk, valid_for_s = v, last_sequence = None,
          pending_teleop = None, pending_received_mono_s = None, discarded_teleop_count = 0\<rparr>)))"

definition in_window :: "session_guard \<Rightarrow> pyfloat \<Rightarrow> pyfloat \<Rightarrow> bool" where
  "in_window g now_wall sent \<longleftrightarrow>
     (let oldest = now_wall - valid_for_s g - max_clock_skew_s g; newest = now_wall + max_clock_skew_s g
      in \<not> (sent < oldest \<or> newest < sent))"

definition guard_accept :: "session_guard \<Rightarrow> control_message option \<Rightarrow> pyfloat \<Rightarrow> pyfloat \<Rightarrow> bool \<times> session_guard" where
  "guard_accept g msg now_wall now_mono =
     (case msg of
        None \<Rightarrow> (False, g)
      | Some m \<Rightarrow>
          if \<not> isfinite now_wall \<or> \<not> isfinite now_mono then (False, g)
          else if session_epoch m \<noteq> guard_epoch g then (False, g)
          else if (case last_sequence g of None \<Rightarrow> False | Some l \<Rightarrow> sequence m \<le> l) then (False, g)
          else if \<not> in_window g now_wall (sent_at_s m) then (False, g)
          else let g = g\<lparr>last_sequence := Some (sequence m)\<rparr> in
            (True, if kind m = TELEOP
                   then g\<lparr>pending_teleop := Some m, pending_received_mono_s := Some now_mono\<rparr> else g))"

definition take_pending_teleop :: "session_guard \<Rightarrow> (control_message \<times> pyfloat) option \<times> session_guard" where
  "take_pending_teleop g =
     (case (pending_teleop g, pending_received_mono_s g) of
        (Some m, Some t) \<Rightarrow> (Some (m, t), g\<lparr>pending_teleop := None, pending_received_mono_s := None\<rparr>)
      | _ \<Rightarrow> (None, g))"

definition reconnect :: "session_guard \<Rightarrow> int \<Rightarrow> (nat \<times> session_guard) result" where
  "reconnect g new_epoch =
     (if new_epoch < 0 then Inl ValueError
      else if new_epoch \<le> guard_epoch g then Inl ValueError
      else let discarded = (if pending_teleop g \<noteq> None then 1 else 0) in
        Inr (discarded, g\<lparr>discarded_teleop_count := discarded_teleop_count g + discarded, guard_epoch := new_epoch,
               last_sequence := None, pending_teleop := None, pending_received_mono_s := None\<rparr>))"

text \<open>An expected array length is given or not.\<close>

definition replay_teleop ::
  "control_message option \<Rightarrow> pyfloat \<Rightarrow> pyfloat \<Rightarrow> pyfloat \<Rightarrow> int \<Rightarrow> nat option \<Rightarrow> nat option
     \<Rightarrow> (pyfloat list \<times> int list) option" where
  "replay_teleop msg now_mono received_mono joy_timeout current_epoch expected_axes expected_buttons =
     (case msg of
        None \<Rightarrow> None
      | Some m \<Rightarrow>
          if kind m \<noteq> TELEOP then None
          else if current_epoch < 0 \<or> session_epoch m \<noteq> current_epoch then None
          else case payload m of
            TeleopPayload axes buttons \<Rightarrow>
              if \<not> isfinite now_mono \<or> \<not> isfinite received_mono then None
              else if \<not> isfinite joy_timeout \<or> joy_timeout \<le> Fin 0 then None
              else let elapsed = now_mono - received_mono in
                if elapsed < Fin 0 \<or> joy_is_stale elapsed joy_timeout then None
                else if \<not> list_all isfinite axes then None
                else if (case expected_axes of None \<Rightarrow> False | Some n \<Rightarrow> length axes \<noteq> n) then None
                else if (case expected_buttons of None \<Rightarrow> False | Some n \<Rightarrow> length buttons \<noteq> n) then None
                else Some (axes, buttons)
          | _ \<Rightarrow> None)"

section \<open>The heartbeat watchdog\<close>

record link_verdict =
  lv_engaged :: bool
  lv_reason :: "string option"
  lv_age :: "pyfloat option"

definition REASON_LINK_LOSS :: string where
  "REASON_LINK_LOSS = ''link_loss''"

record link_watchdog =
  lw_timeout_s :: pyfloat
  last_heartbeat :: "pyfloat option"
  lw_engaged :: bool

definition make_watchdog :: "pyval \<Rightarrow> link_watchdog result" where
  "make_watchdog timeout = bindR (require_positive timeout) (\<lambda>t. Inr \<lparr>lw_timeout_s = t, last_heartbeat = None, lw_engaged = True\<rparr>)"

definition observe_heartbeat :: "link_watchdog \<Rightarrow> pyfloat \<Rightarrow> bool \<times> link_watchdog" where
  "observe_heartbeat w now = (if \<not> isfinite now then (False, w) else (True, w\<lparr>last_heartbeat := Some now\<rparr>))"

definition link_age :: "link_watchdog \<Rightarrow> pyfloat \<Rightarrow> pyfloat option" where
  "link_age w now =
     (case last_heartbeat w of None \<Rightarrow> None | Some t \<Rightarrow> if \<not> isfinite now then None else Some (now - t))"

definition link_is_fresh :: "link_watchdog \<Rightarrow> pyfloat \<Rightarrow> bool" where
  "link_is_fresh w now = (case link_age w now of None \<Rightarrow> False | Some age \<Rightarrow> Fin 0 \<le> age \<and> age \<le> lw_timeout_s w)"

definition link_evaluate :: "link_watchdog \<Rightarrow> pyfloat \<Rightarrow> link_verdict \<times> link_watchdog" where
  "link_evaluate w now =
     (let age = link_age w now;
          w = (if (case age of None \<Rightarrow> True | Some a \<Rightarrow> lw_timeout_s w < a \<or> a < Fin 0) then w\<lparr>lw_engaged := True\<rparr> else w)
      in (\<lparr>lv_engaged = lw_engaged w, lv_reason = (if lw_engaged w then Some REASON_LINK_LOSS else None), lv_age = age\<rparr>, w))"

definition rearm :: "link_watchdog \<Rightarrow> pyfloat \<Rightarrow> bool \<times> link_watchdog" where
  "rearm w now = (if \<not> link_is_fresh w now then (False, w) else (True, w\<lparr>lw_engaged := False\<rparr>))"

definition stop_request_payload :: "link_verdict option \<Rightarrow> json_text" where
  "stop_request_payload v =
     (case v of None \<Rightarrow> None | Some lv \<Rightarrow> if \<not> lv_engaged lv then None else operator_stop_payload ESTOP_ENGAGE)"

section \<open>Video freshness\<close>

datatype video_state = FRESH | STALE | ABSENT

record video_freshness =
  stale_after_s :: pyfloat
  max_stamp_skew_s :: pyfloat
  last_stamp_s :: "pyfloat option"
  last_arrival_mono_s :: "pyfloat option"

definition make_video :: "pyval \<Rightarrow> pyval \<Rightarrow> video_freshness result" where
  "make_video stale_after skew =
     bindR (require_positive stale_after) (\<lambda>a. bindR (require_finite skew (Fin 0)) (\<lambda>k.
       Inr \<lparr>stale_after_s = a, max_stamp_skew_s = k, last_stamp_s = None, last_arrival_mono_s = None\<rparr>))"

definition video_reset :: "video_freshness \<Rightarrow> video_freshness" where
  "video_reset v = v\<lparr>last_stamp_s := None, last_arrival_mono_s := None\<rparr>"

definition observe_frame :: "video_freshness \<Rightarrow> pyfloat \<Rightarrow> pyfloat \<Rightarrow> pyfloat \<Rightarrow> bool \<times> video_freshness" where
  "observe_frame v stamp now_wall now_mono =
     (if \<not> isfinite stamp \<or> \<not> isfinite now_wall then (False, v)
      else if \<not> isfinite now_mono then (False, v)
      else if max_stamp_skew_s v < \<bar>stamp - now_wall\<bar> then (False, v)
      else if (case last_stamp_s v of None \<Rightarrow> False | Some l \<Rightarrow> stamp \<le> l) then (False, v)
      else (True, v\<lparr>last_stamp_s := Some stamp, last_arrival_mono_s := Some now_mono\<rparr>))"

definition video_verdict :: "video_freshness \<Rightarrow> pyfloat \<Rightarrow> video_state" where
  "video_verdict v now_mono =
     (case last_arrival_mono_s v of
        None \<Rightarrow> ABSENT
      | Some t \<Rightarrow>
          if \<not> isfinite now_mono then STALE
          else let age = now_mono - t in if age < Fin 0 \<or> stale_after_s v < age then STALE else FRESH)"

section \<open>Crossing approvals\<close>

text \<open>The registry remembers the deadline a token was burned with.\<close>

type_synonym registry = "(string, pyfloat) pydict"

definition evict_expired :: "registry \<Rightarrow> pyfloat \<Rightarrow> registry" where
  "evict_expired used now_wall = filter (\<lambda>(tid, deadline). \<not> deadline < now_wall) used"

definition consume ::
  "registry \<Rightarrow> approval_token option \<Rightarrow> pyfloat \<Rightarrow> string \<Rightarrow> string \<Rightarrow> string \<Rightarrow> bool \<times> registry" where
  "consume used token now_wall crossing route datum =
     (case token of
        None \<Rightarrow> (False, used)
      | Some t \<Rightarrow>
          if \<not> isfinite now_wall \<or> \<not> isfinite (expires_at_s t) then (False, used)
          else if token_id t = [] then (False, used)
          else let used = evict_expired used now_wall in
            if token_id t \<in> fst ` set used then (False, used)
            else if crossing_id t \<noteq> crossing then (False, used)
            else if route_version t \<noteq> route then (False, used)
            else if datum_version t \<noteq> datum then (False, used)
            else if expires_at_s t < now_wall then (False, used)
            else (True, AList.update (token_id t) (expires_at_s t) used))"

end
