(* ===== verification/JoymapProps.thy ===== *)
theory JoymapProps
  imports Joymap M1DriverProps
begin

text \<open>
  What the joystick teleoperation guarantees over histories of samples and timer ticks: the latch
  holds until the clear chord, motion needs the re-arm gesture, and a published motion needs a fresh
  sample with the deadman pressed. Two behaviours differ from the documentation and are stated too.
\<close>

section \<open>Histories\<close>

datatype joy_event = Sample int "pyfloat list" "int list" | Tick int

fun joy_step :: "libm \<Rightarrow> joy_params \<Rightarrow> estop_config \<Rightarrow> pyfloat \<Rightarrow> joy_node \<Rightarrow> joy_event \<Rightarrow> joy_node result" where
  "joy_step lib p cfg timeout n (Sample now axes buttons) = on_joy lib p cfg n now axes buttons"
| "joy_step lib p cfg timeout n (Tick now) = Inr (on_joy_timer timeout n now)"

fun joy_run :: "libm \<Rightarrow> joy_params \<Rightarrow> estop_config \<Rightarrow> pyfloat \<Rightarrow> joy_node \<Rightarrow> joy_event list \<Rightarrow> joy_node result" where
  "joy_run lib p cfg timeout n [] = Inr n"
| "joy_run lib p cfg timeout n (e # es) = bindR (joy_step lib p cfg timeout n e) (\<lambda>n'. joy_run lib p cfg timeout n' es)"

lemma joy_run_snoc:
  "joy_run lib p cfg timeout n (es @ [e]) = bindR (joy_run lib p cfg timeout n es) (\<lambda>n'. joy_step lib p cfg timeout n' e)"
proof (induction es arbitrary: n)
  case Nil
  then show ?case by (cases "joy_step lib p cfg timeout n e") simp_all
next
  case (Cons a es)
  then show ?case by (cases "joy_step lib p cfg timeout n a") simp_all
qed

text \<open>The mapping never raises: a magnitude it divides by is positive.\<close>

lemma bind_fdiv_total: "Fin 0 < b \<Longrightarrow> bindR (fdiv a b) (\<lambda>s. Inr (f s)) \<noteq> Inl e"
  by (cases b) auto

lemma joy_to_twist_total: "\<exists>tw. joy_to_twist lib p axes buttons = Inr tw"
proof (cases "joy_to_twist lib p axes buttons")
  case (Inl e)
  have "joy_to_twist lib p axes buttons \<noteq> Inl e"
    by (auto simp: joy_to_twist_def Let_def bind_fdiv_total split: if_splits)
  with Inl show ?thesis by simp
next
  case (Inr tw)
  then show ?thesis by blast
qed

lemma on_joy_total: "\<exists>n'. on_joy lib p cfg n now axes buttons = Inr n'"
  using joy_to_twist_total [of lib p axes buttons] by (auto simp: on_joy_def split: prod.splits)

lemma joy_run_total: "\<exists>n'. joy_run lib p cfg timeout n es = Inr n'"
proof (induction es arbitrary: n)
  case (Cons e es)
  obtain n1 where "joy_step lib p cfg timeout n e = Inr n1" using on_joy_total by (cases e) (simp, blast, simp)
  then show ?case using Cons by simp
qed simp

lemma joy_to_twist_deadman:
  "joy_to_twist lib p axes buttons = Inr tw \<Longrightarrow> tw \<noteq> no_twist \<Longrightarrow> pressed buttons (p_deadman_button p)"
  by (auto simp: joy_to_twist_def pressed_def split: if_splits)

section \<open>The latch\<close>

definition chord_pressed :: "estop_config \<Rightarrow> joy_event \<Rightarrow> bool" where
  "chord_pressed cfg e = (case e of Sample _ _ buttons \<Rightarrow> list_all (pressed buttons) (clear_buttons cfg) | Tick _ \<Rightarrow> False)"

definition holding :: "joy_node \<Rightarrow> bool" where
  "holding n \<longleftrightarrow> es_latched (estop n) \<and> \<not> motion_allowed n"

lemma estop_step_keeps_latch:
  assumes "es_latched s" and "\<not> list_all (pressed buttons) (clear_buttons cfg)"
    and "operator_estop_step cfg s buttons axes = (s', action, allowed)"
  shows "es_latched s' \<and> \<not> allowed"
  using assms by (auto simp: operator_estop_step_def Let_def chord_rising_def split: if_splits option.splits)

lemma joy_step_holding:
  assumes "holding n" and "\<not> chord_pressed cfg e" and "joy_step lib p cfg timeout n e = Inr n'"
  shows "holding n' \<and> (\<exists>xs. sent_twists n' = sent_twists n @ xs \<and> set xs \<subseteq> {no_twist})"
proof (cases e)
  case (Sample now axes buttons)
  obtain s' action allowed where st: "operator_estop_step cfg (estop n) buttons axes = (s', action, allowed)"
    by (cases "operator_estop_step cfg (estop n) buttons axes") auto
  have "es_latched s' \<and> \<not> allowed"
    using estop_step_keeps_latch [OF _ _ st] assms(1,2) by (simp add: holding_def chord_pressed_def Sample)
  then show ?thesis using assms(3) by (auto simp: Sample on_joy_def bindR_Inr_iff st holding_def)
next
  case (Tick now)
  have n': "n' = on_joy_timer timeout n now" using assms(3) by (simp add: Tick)
  then show ?thesis using assms(1)
    by (cases "joy_is_stale (joy_elapsed n now) timeout")
      (simp_all add: on_joy_timer_def Let_def holding_def operator_estop_disarm_def)
qed

lemma joy_run_holding:
  "holding n \<Longrightarrow> \<forall>e \<in> set es. \<not> chord_pressed cfg e \<Longrightarrow> joy_run lib p cfg timeout n es = Inr n' \<Longrightarrow>
     holding n' \<and> (\<exists>xs. sent_twists n' = sent_twists n @ xs \<and> set xs \<subseteq> {no_twist})"
proof (induction es arbitrary: n)
  case (Cons e es)
  from Cons.prems obtain m where m: "joy_step lib p cfg timeout n e = Inr m" "joy_run lib p cfg timeout m es = Inr n'"
    by (auto simp: bindR_Inr_iff)
  have "holding m" "\<exists>xs. sent_twists m = sent_twists n @ xs \<and> set xs \<subseteq> {no_twist}"
    using joy_step_holding [OF Cons.prems(1) _ m(1)] Cons.prems(2) by auto
  with Cons.IH [OF _ _ m(2)] Cons.prems(2) show ?case by fastforce
qed auto

section \<open>The re-arm gesture\<close>

definition sample_of :: "joy_event \<Rightarrow> (int \<times> int list) option" where
  "sample_of e = (case e of Sample now _ buttons \<Rightarrow> Some (now, buttons) | Tick _ \<Rightarrow> None)"

definition last_sample :: "joy_event list \<Rightarrow> (int \<times> int list) option" where
  "last_sample es = foldl (\<lambda>acc e. case sample_of e of None \<Rightarrow> acc | Some x \<Rightarrow> Some x) None es"

lemma last_sample_snoc [simp]:
  "last_sample (es @ [e]) = (case sample_of e of None \<Rightarrow> last_sample es | Some x \<Rightarrow> Some x)"
  "last_sample [] = None"
  by (cases "sample_of e") (simp_all add: last_sample_def)

definition neutral_sample :: "estop_config \<Rightarrow> joy_event \<Rightarrow> bool" where
  "neutral_sample cfg e = (case e of Sample _ axes _ \<Rightarrow> is_neutral axes cfg | Tick _ \<Rightarrow> False)"

text \<open>The buttons of the sample before: of the history, or what the latch remembered at its start.\<close>

definition buttons_before :: "joy_node \<Rightarrow> joy_event list \<Rightarrow> int list option" where
  "buttons_before n es = (case last_sample es of None \<Rightarrow> prev_buttons (estop n) | Some (_, buttons) \<Rightarrow> Some buttons)"

text \<open>The sticks were seen centred and the deadman went from released to pressed, then or later.\<close>

definition rearm_gesture :: "estop_config \<Rightarrow> joy_node \<Rightarrow> joy_event list \<Rightarrow> bool" where
  "rearm_gesture cfg n es \<longleftrightarrow>
     (\<exists>es1 now axes buttons es2. es = es1 @ Sample now axes buttons # es2
        \<and> (\<exists>e \<in> set (es1 @ [Sample now axes buttons]). neutral_sample cfg e)
        \<and> rising_edge (buttons_before n es1) buttons (deadman_button cfg))"

lemma rearm_gesture_snoc: "rearm_gesture cfg n es \<Longrightarrow> rearm_gesture cfg n (es @ [e])"
  unfolding rearm_gesture_def by (metis append.assoc append_Cons)

definition disarmed :: "joy_node \<Rightarrow> bool" where
  "disarmed n \<longleftrightarrow> \<not> armed (estop n) \<and> \<not> neutral_seen (estop n) \<and> \<not> motion_allowed n"

definition rearm_inv :: "joy_params \<Rightarrow> estop_config \<Rightarrow> joy_node \<Rightarrow> joy_event list \<Rightarrow> joy_node \<Rightarrow> bool" where
  "rearm_inv p cfg n0 es n \<longleftrightarrow>
     (neutral_seen (estop n) \<longrightarrow> (\<exists>e \<in> set es. neutral_sample cfg e))
     \<and> (armed (estop n) \<longrightarrow> rearm_gesture cfg n0 es)
     \<and> (motion_allowed n \<longrightarrow> armed (estop n) \<and> \<not> es_latched (estop n))
     \<and> prev_buttons (estop n) = buttons_before n0 es
     \<and> (case last_sample es of None \<Rightarrow> True
        | Some (t, buttons) \<Rightarrow> last_joy_time n = Some t
            \<and> (latest_twist n \<noteq> no_twist \<longrightarrow> pressed buttons (p_deadman_button p)))"

lemma estop_step_rearm:
  assumes "operator_estop_step cfg s buttons axes = (s', action, allowed)"
  shows "(neutral_seen s' \<longrightarrow> neutral_seen s \<or> is_neutral axes cfg)
    \<and> (armed s' \<longrightarrow> armed s \<or> neutral_seen s' \<and> rising_edge (prev_buttons s) buttons (deadman_button cfg))
    \<and> (allowed \<longrightarrow> armed s' \<and> \<not> es_latched s') \<and> prev_buttons s' = Some buttons"
  using assms by (auto simp: operator_estop_step_def Let_def split: if_splits)

lemma joy_step_rearm:
  assumes inv: "rearm_inv p cfg n0 es n" and st: "joy_step lib p cfg timeout n e = Inr n'"
  shows "rearm_inv p cfg n0 (es @ [e]) n'"
proof (cases e)
  case (Tick now)
  have "buttons_before n0 (es @ [Tick now]) = buttons_before n0 es" by (simp add: buttons_before_def sample_of_def)
  moreover have "last_sample (es @ [Tick now]) = last_sample es" by (simp add: sample_of_def)
  moreover have n': "n' = on_joy_timer timeout n now" using st by (simp add: Tick)
  ultimately show ?thesis using inv rearm_gesture_snoc [of cfg n0 es "Tick now"]
    by (cases "joy_is_stale (joy_elapsed n now) timeout")
      (auto simp: Tick rearm_inv_def on_joy_timer_def Let_def operator_estop_disarm_def split: option.splits)
next
  case (Sample now axes buttons)
  obtain s' action allowed where es: "operator_estop_step cfg (estop n) buttons axes = (s', action, allowed)"
    by (cases "operator_estop_step cfg (estop n) buttons axes") auto
  obtain tw where tw: "joy_to_twist lib p axes buttons = Inr tw" using joy_to_twist_total by blast
  have n': "n' = n\<lparr>last_joy_time := Some now, latest_twist := tw, estop := s', motion_allowed := allowed,
      sent_stops := sent_stops n @ (if action \<noteq> ESTOP_NONE \<and> publish_stops n then [action] else [])\<rparr>"
    using st by (simp add: Sample on_joy_def es tw)
  note e = estop_step_rearm [OF es]
  have so: "sample_of e = Some (now, buttons)" by (simp add: sample_of_def Sample)
  have neutral: "\<exists>x \<in> set (es @ [e]). neutral_sample cfg x" if "neutral_seen s'"
    using e that inv by (auto simp: rearm_inv_def neutral_sample_def Sample)
  have gesture: "rearm_gesture cfg n0 (es @ [e])" if "armed s'"
  proof (cases "armed (estop n)")
    case True
    then show ?thesis using inv rearm_gesture_snoc by (simp add: rearm_inv_def)
  next
    case False
    then have "neutral_seen s'" "rising_edge (buttons_before n0 es) buttons (deadman_button cfg)"
      using e that inv by (auto simp: rearm_inv_def)
    then show ?thesis using neutral unfolding rearm_gesture_def Sample by blast
  qed
  show ?thesis
    using e neutral gesture joy_to_twist_deadman [OF tw] so
    by (simp add: rearm_inv_def n' buttons_before_def)
qed

lemma joy_run_rearm:
  assumes "rearm_inv p cfg n0 [] n0"
  shows "joy_run lib p cfg timeout n0 es = Inr n \<Longrightarrow> rearm_inv p cfg n0 es n"
proof (induction es arbitrary: n rule: rev_induct)
  case (snoc e es)
  then obtain m where "joy_run lib p cfg timeout n0 es = Inr m" "joy_step lib p cfg timeout m e = Inr n"
    by (auto simp: joy_run_snoc bindR_Inr_iff)
  then show ?case using snoc.IH joy_step_rearm by blast
qed (use assms in simp)

lemma disarmed_inv: "disarmed n \<Longrightarrow> rearm_inv p cfg n [] n"
  by (simp add: disarmed_def rearm_inv_def buttons_before_def)

text \<open>What the timer publishes is zero unless the latch allows motion and the newest sample is fresh.\<close>

lemma on_joy_timer_twist:
  assumes "last (sent_twists (on_joy_timer timeout n now)) \<noteq> no_twist"
  shows "motion_allowed n \<and> \<not> joy_is_stale (joy_elapsed n now) timeout \<and> latest_twist n \<noteq> no_twist"
  using assms by (cases "joy_is_stale (joy_elapsed n now) timeout")
    (auto simp: on_joy_timer_def Let_def apply_joy_freshness_def split: if_splits)

section \<open>Properties\<close>

lemma engage_holds:
  assumes "operator_estop_config_error cfg (Some buttons) = None" and "estop_enabled cfg"
    and "estop_rising (prev_buttons (estop n)) buttons (estop_button cfg)
       \<or> estop_rising (prev_buttons (estop n)) buttons (estop_button_alt cfg)"
    and "on_joy lib p cfg n now axes buttons = Inr n1"
  shows "holding n1 \<and> sent_stops n1 = sent_stops n @ (if publish_stops n then [ESTOP_ENGAGE] else [])
     \<and> sent_twists n1 = sent_twists n"
  using assms by (auto simp: on_joy_def bindR_Inr_iff operator_estop_step_def Let_def holding_def)

text \<open>Pressing either e-stop button, with a usable wiring, latches: the node asks the guardian to stop and
  publishes nothing but zero velocities from then on, whatever samples and ticks follow (releasing
  the button included), until a sample has every button of the clear chord pressed.\<close>
theorem estop_latch_holds:
  assumes "operator_estop_config_error cfg (Some buttons) = None" and "estop_enabled cfg"
    and "estop_rising (prev_buttons (estop n)) buttons (estop_button cfg)
       \<or> estop_rising (prev_buttons (estop n)) buttons (estop_button_alt cfg)"
    and "on_joy lib p cfg n now axes buttons = Inr n1"
    and "\<forall>e \<in> set es. \<not> chord_pressed cfg e" and "joy_run lib p cfg timeout n1 es = Inr n2"
  shows "(publish_stops n \<longrightarrow> sent_stops n1 = sent_stops n @ [ESTOP_ENGAGE])
    \<and> es_latched (estop n2) \<and> (\<exists>xs. sent_twists n2 = sent_twists n @ xs \<and> set xs \<subseteq> {no_twist})"
  using engage_holds [OF assms(1-4)] joy_run_holding [OF _ assms(5,6)] by (auto simp: holding_def)

definition idle_buttons :: "int list" where
  "idle_buttons = replicate 15 0"

definition stop_pressed :: "int list" where
  "stop_pressed = idle_buttons[1 := 1]"

theorem estop_latch_holds_witness:
  "\<exists>n1 n2. on_joy unit_libm DEFAULT_JOY_PARAMS DEFAULT_ESTOP_CONFIG (init_joy_node True) 0 [Fin 0, Fin 1, Fin 0] stop_pressed = Inr n1
    \<and> joy_run unit_libm DEFAULT_JOY_PARAMS DEFAULT_ESTOP_CONFIG DEFAULT_JOY_TIMEOUT_S n1 [Tick 1, Sample 2 [Fin 0, Fin 1, Fin 0] idle_buttons, Tick 3] = Inr n2
    \<and> es_latched (estop n2)"
proof -
  let ?n = "init_joy_node True"
  obtain n1 where n1: "on_joy unit_libm DEFAULT_JOY_PARAMS DEFAULT_ESTOP_CONFIG ?n 0 [Fin 0, Fin 1, Fin 0] stop_pressed = Inr n1"
    using on_joy_total by blast
  obtain n2 where n2: "joy_run unit_libm DEFAULT_JOY_PARAMS DEFAULT_ESTOP_CONFIG DEFAULT_JOY_TIMEOUT_S n1
      [Tick 1, Sample 2 [Fin 0, Fin 1, Fin 0] idle_buttons, Tick 3] = Inr n2"
    using joy_run_total by blast
  have cfg: "operator_estop_config_error DEFAULT_ESTOP_CONFIG (Some stop_pressed) = None" "estop_enabled DEFAULT_ESTOP_CONFIG"
    by code_simp+
  have edge: "estop_rising (prev_buttons (estop ?n)) stop_pressed (estop_button DEFAULT_ESTOP_CONFIG)
      \<or> estop_rising (prev_buttons (estop ?n)) stop_pressed (estop_button_alt DEFAULT_ESTOP_CONFIG)"
    by code_simp
  have quiet: "\<forall>e \<in> set [Tick 1, Sample 2 [Fin 0, Fin 1, Fin 0] idle_buttons, Tick 3]. \<not> chord_pressed DEFAULT_ESTOP_CONFIG e"
    by code_simp
  have "es_latched (estop n2)" using estop_latch_holds [OF cfg edge n1 quiet n2] by blast
  then show ?thesis using n1 n2 by blast
qed

text \<open>
  The events after which the operator has to re-arm, in terms of the event and what the node remembers of the samples
  before: a timer tick that finds no sample or a stale one, a button array the wiring does not fit, a stop button that
  goes down, and the clear chord completed while latched with the deadman and the stop buttons up.
\<close>

definition goes_down :: "int list option \<Rightarrow> int list \<Rightarrow> int \<Rightarrow> bool" where
  "goes_down before buttons i \<longleftrightarrow> pressed buttons i \<and> (case before of None \<Rightarrow> True | Some old \<Rightarrow> \<not> pressed old i)"

definition chord_completed :: "int list option \<Rightarrow> int list \<Rightarrow> int list \<Rightarrow> bool" where
  "chord_completed before buttons chord \<longleftrightarrow>
     (\<forall>i \<in> set chord. pressed buttons i) \<and> (case before of None \<Rightarrow> False | Some old \<Rightarrow> \<exists>i \<in> set chord. \<not> pressed old i)"

definition must_rearm :: "estop_config \<Rightarrow> pyfloat \<Rightarrow> joy_node \<Rightarrow> joy_event \<Rightarrow> bool" where
  "must_rearm cfg timeout n e =
     (case e of
        Tick now \<Rightarrow>
          (case last_joy_time n of
             None \<Rightarrow> joy_is_stale PInf timeout
           | Some t \<Rightarrow> joy_is_stale (fround (of_int (now - t)) * fround (1 / 10 ^ 9)) timeout)
      | Sample _ _ buttons \<Rightarrow>
          operator_estop_config_error cfg (Some buttons) \<noteq> None
          \<or> estop_enabled cfg \<and>
             (goes_down (prev_buttons (estop n)) buttons (estop_button cfg)
              \<or> goes_down (prev_buttons (estop n)) buttons (estop_button_alt cfg)
              \<or> es_latched (estop n) \<and> chord_completed (prev_buttons (estop n)) buttons (clear_buttons cfg)
                 \<and> \<not> (\<exists>i \<in> {deadman_button cfg, estop_button cfg, estop_button_alt cfg}. pressed buttons i)))"

lemma goes_down_iff: "estop_rising before buttons i \<longleftrightarrow> goes_down before buttons i"
  by (auto simp: estop_rising_def goes_down_def split: option.split)

lemma chord_completed_iff: "chord_rising before buttons chord \<longleftrightarrow> chord_completed before buttons chord"
  by (auto simp: chord_rising_def chord_completed_def list_all_iff split: option.split)

lemma must_rearm_disarms:
  assumes "must_rearm cfg timeout m e" and "joy_step lib p cfg timeout m e = Inr n"
  shows "disarmed n"
proof (cases e)
  case (Tick now)
  then have "joy_is_stale (joy_elapsed m now) timeout" using assms(1) by (simp add: must_rearm_def joy_elapsed_def split: option.splits)
  then show ?thesis using assms(2) by (auto simp: Tick on_joy_timer_def Let_def operator_estop_disarm_def disarmed_def)
next
  case (Sample now axes buttons)
  obtain tw where tw: "joy_to_twist lib p axes buttons = Inr tw" using joy_to_twist_total by blast
  have "\<exists>s' action. operator_estop_step cfg (estop m) buttons axes = (s', action, False) \<and> \<not> armed s' \<and> \<not> neutral_seen s'"
    using assms(1) by (auto simp: Sample must_rearm_def operator_estop_step_def Let_def goes_down_iff chord_completed_iff)
  then show ?thesis using assms(2) by (auto simp: Sample on_joy_def tw disarmed_def)
qed

lemma init_disarmed: "disarmed (init_joy_node publish)"
  by (simp add: disarmed_def init_joy_node_def init_estop_def)

text \<open>
  C34. At start-up, and again after any stop, clear, dropout or unusable button array, a non-zero velocity is published
  only if the latch is released, the newest sample is fresh and has the deadman pressed, and since then the sticks
  were seen centred and the deadman went from released to pressed, in that order or together.
\<close>

theorem teleop_motion_gated:
  assumes "n0 = init_joy_node publish \<or> (\<exists>m e. must_rearm cfg timeout m e \<and> joy_step lib p cfg timeout m e = Inr n0)"
    and "joy_run lib p cfg timeout n0 es = Inr n" and "last (sent_twists (on_joy_timer timeout n now)) \<noteq> no_twist"
  shows "\<not> es_latched (estop n) \<and> rearm_gesture cfg n0 es
    \<and> (\<exists>t buttons. last_sample es = Some (t, buttons) \<and> pressed buttons (p_deadman_button p)
        \<and> \<not> joy_is_stale (fround (of_int (now - t)) * fround (1 / 10 ^ 9)) timeout)"
proof -
  have inv: "rearm_inv p cfg n0 es n" by (rule joy_run_rearm [OF disarmed_inv assms(2)])
      (use assms(1) must_rearm_disarms init_disarmed in blast)
  note t = on_joy_timer_twist [OF assms(3)]
  have g: "rearm_gesture cfg n0 es" using inv t by (simp add: rearm_inv_def)
  have "last_sample (es1 @ Sample a b c # es2) \<noteq> None" for es1 a b c es2
  proof (induction es2 rule: rev_induct)
    case Nil
    show ?case by (simp add: sample_of_def)
  next
    case (snoc e es2)
    have "last_sample ((es1 @ Sample a b c # es2) @ [e]) \<noteq> None"
      using snoc unfolding last_sample_snoc by (simp split: option.splits)
    then show ?case by simp
  qed
  then obtain x buttons where "last_sample es = Some (x, buttons)" using g by (fastforce simp: rearm_gesture_def)
  then show ?thesis using inv t g by (auto simp: rearm_inv_def joy_elapsed_def)
qed

definition drive_buttons :: "int list" where
  "drive_buttons = idle_buttons[6 := 1]"

text \<open>Centre the sticks, press the deadman with the stick forward, let the timer fire.\<close>

definition drive_events :: "joy_event list" where
  "drive_events = [Sample 0 [Fin 0, Fin 0, Fin 0] idle_buttons, Sample 1000 [Fin 0, Fin 1, Fin 0] drive_buttons]"

definition driving :: joy_node where
  "driving = (case joy_run unit_libm DEFAULT_JOY_PARAMS DEFAULT_ESTOP_CONFIG DEFAULT_JOY_TIMEOUT_S (init_joy_node True) drive_events of
     Inl _ \<Rightarrow> init_joy_node True | Inr n \<Rightarrow> n)"

lemma driving_run:
  "joy_run unit_libm DEFAULT_JOY_PARAMS DEFAULT_ESTOP_CONFIG DEFAULT_JOY_TIMEOUT_S (init_joy_node True) drive_events = Inr driving"
  using joy_run_total [of unit_libm DEFAULT_JOY_PARAMS DEFAULT_ESTOP_CONFIG DEFAULT_JOY_TIMEOUT_S "init_joy_node True" drive_events]
  by (auto simp: driving_def)

text \<open>Then the samples stop for two seconds; the operator does it all again.\<close>

definition dropped :: joy_node where
  "dropped = on_joy_timer DEFAULT_JOY_TIMEOUT_S driving 2000000000"

definition again_events :: "joy_event list" where
  "again_events = [Sample 2000000000 [Fin 0, Fin 0, Fin 0] idle_buttons, Sample 2000001000 [Fin 0, Fin 1, Fin 0] drive_buttons]"

theorem teleop_motion_gated_witness:
  "rearm_gesture DEFAULT_ESTOP_CONFIG (init_joy_node True) drive_events \<and> rearm_gesture DEFAULT_ESTOP_CONFIG dropped again_events"
proof
  have moving: "last (sent_twists (on_joy_timer DEFAULT_JOY_TIMEOUT_S driving 2000)) \<noteq> no_twist" by code_simp
  show "rearm_gesture DEFAULT_ESTOP_CONFIG (init_joy_node True) drive_events"
    using teleop_motion_gated [OF disjI1 [OF refl] driving_run moving] by blast
  obtain n where n: "joy_run unit_libm DEFAULT_JOY_PARAMS DEFAULT_ESTOP_CONFIG DEFAULT_JOY_TIMEOUT_S dropped again_events = Inr n"
    using joy_run_total by blast
  have "must_rearm DEFAULT_ESTOP_CONFIG DEFAULT_JOY_TIMEOUT_S driving (Tick 2000000000)" by code_simp
  moreover have "joy_step unit_libm DEFAULT_JOY_PARAMS DEFAULT_ESTOP_CONFIG DEFAULT_JOY_TIMEOUT_S driving (Tick 2000000000) = Inr dropped"
    by (simp add: dropped_def)
  moreover have "case joy_run unit_libm DEFAULT_JOY_PARAMS DEFAULT_ESTOP_CONFIG DEFAULT_JOY_TIMEOUT_S dropped again_events of
      Inl _ \<Rightarrow> False | Inr n \<Rightarrow> last (sent_twists (on_joy_timer DEFAULT_JOY_TIMEOUT_S n 2000002000)) \<noteq> no_twist" by code_simp
  then have "last (sent_twists (on_joy_timer DEFAULT_JOY_TIMEOUT_S n 2000002000)) \<noteq> no_twist" by (simp add: n)
  ultimately show "rearm_gesture DEFAULT_ESTOP_CONFIG dropped again_events" using teleop_motion_gated [OF _ n] by blast
qed

text \<open>A held e-stop is missed across a sample whose button array is too short for the wiring: the press
  is recorded as the previous state, so no edge is seen on the next full sample, nothing latches, and
  centring the sticks and pressing the deadman allows motion while the e-stop button is still down.\<close>
theorem held_estop_missed:
  "let (s1, a1, m1) = operator_estop_step DEFAULT_ESTOP_CONFIG init_estop (take 8 stop_pressed) [Fin 0, Fin 0, Fin 0];
       (s2, a2, m2) = operator_estop_step DEFAULT_ESTOP_CONFIG s1 stop_pressed [Fin 0, Fin 0, Fin 0];
       (s3, a3, m3) = operator_estop_step DEFAULT_ESTOP_CONFIG s2 (stop_pressed[6 := 1]) [Fin 0, Fin 1, Fin 0]
   in pressed (stop_pressed[6 := 1]) (estop_button DEFAULT_ESTOP_CONFIG) \<and> m3 \<and> \<not> es_latched s3
      \<and> [a1, a2, a3] = [ESTOP_NONE, ESTOP_NONE, ESTOP_NONE]"
  by code_simp

text \<open>The vector cap of the mapping is not exact: a deflection of 123/64 on one axis, with a hypot that is
  exact on an axis, is scaled back to a speed above MAX_LINEAR_VELOCITY (by one unit in the last
  place), although the documented postcondition bounds it by the cap.\<close>
theorem vector_cap_overshoots:
  assumes "\<And>x. m_hypot lib (Fin x) (Fin 0) = Fin \<bar>x\<bar>"
  shows "\<exists>vx wz. joy_to_twist lib DEFAULT_JOY_PARAMS [Fin 0, Fin (123/64), Fin 0] drive_buttons = Inr (vx, Fin 0, wz)
    \<and> MAX_LINEAR_VELOCITY < m_hypot lib vx (Fin 0)"
proof -
  let ?v = "Fin (5193213320311603 / 9007199254740992)" and ?s = "Fin (4686672782954663 / 9007199254740992)"
    and ?r = "Fin (1351079888211149 / 4503599627370496)" and ?axes = "[Fin 0, Fin (123/64), Fin 0]"
  have cap: "py_min (nonneg (p_max_linear DEFAULT_JOY_PARAMS)) MAX_LINEAR_VELOCITY = MAX_LINEAR_VELOCITY"
    by code_simp
  have ax: "apply_deadzone (axis_value ?axes (p_axis_linear_x DEFAULT_JOY_PARAMS)) (nonneg (p_deadzone DEFAULT_JOY_PARAMS)) = Fin (123/64)"
    "apply_deadzone (axis_value ?axes (p_axis_linear_y DEFAULT_JOY_PARAMS)) (nonneg (p_deadzone DEFAULT_JOY_PARAMS)) = Fin 0"
    by code_simp+
  have mul: "Fin (123/64) * MAX_LINEAR_VELOCITY = ?v" "Fin 0 * MAX_LINEAR_VELOCITY = Fin 0"
      "?v * ?s = ?r" "Fin 0 * ?s = Fin 0" and div: "fdiv MAX_LINEAR_VELOCITY ?v = Inr ?s"
    by code_simp+
  have less: "MAX_LINEAR_VELOCITY < ?v" "MAX_LINEAR_VELOCITY < ?r" by code_simp+
  have idx: "index_ok drive_buttons (p_deadman_button DEFAULT_JOY_PARAMS)"
      "drive_buttons ! nat (p_deadman_button DEFAULT_JOY_PARAMS) \<noteq> 0"
      "\<not> p_invert_x DEFAULT_JOY_PARAMS" "\<not> p_invert_y DEFAULT_JOY_PARAMS"
    by code_simp+
  have hyp: "m_hypot lib ?v (Fin 0) = ?v" "m_hypot lib ?r (Fin 0) = ?r" using assms by simp_all
  show ?thesis
    by (simp only: joy_to_twist_def Let_def cap ax mul div less idx hyp if_True if_False not_True_eq_False not_False_eq_True)
      (simp add: less mul hyp del: times_pyfloat.simps)
qed

theorem vector_cap_overshoots_witness:
  "\<exists>vx wz. joy_to_twist (unit_libm\<lparr>m_hypot := \<lambda>a b. \<bar>a\<bar>\<rparr>) DEFAULT_JOY_PARAMS [Fin 0, Fin (123/64), Fin 0] drive_buttons = Inr (vx, Fin 0, wz)
    \<and> MAX_LINEAR_VELOCITY < m_hypot (unit_libm\<lparr>m_hypot := \<lambda>a b. \<bar>a\<bar>\<rparr>) vx (Fin 0)"
  by (rule vector_cap_overshoots) simp

lemma unit_times:
  assumes "is_double c" and "isfinite c" and "0 \<le> c" and "isfinite x" and "\<bar>x\<bar> \<le> 1"
  shows "isfinite (x * c) \<and> \<bar>x * c\<bar> \<le> c"
proof -
  obtain k u where k: "c = Fin k" "x = Fin u" using assms(2,4) by (auto simp: isfinite_iff)
  then have b: "0 \<le> k" "\<bar>u\<bar> \<le> 1" using assms(3,5) by (simp_all add: zero_pyfloat_def one_pyfloat_def)
  have r: "fround k = Fin k" "fround (- k) = Fin (- k)" using assms(1) by (simp_all add: k fround_minus)
  have "\<bar>u * k\<bar> \<le> k" using b by (simp add: abs_mult mult_left_le_one_le)
  then have "fround (- k) \<le> fround (u * k)" "fround (u * k) \<le> fround k"
    by (intro fround_mono; linarith)+
  then show ?thesis using r by (cases "fround (u * k)") (auto simp: k)
qed

lemma axis_in_range:
  assumes "list_all (\<lambda>a. is_double a \<and> isfinite a \<and> \<bar>a\<bar> \<le> 1) axes"
  shows "isfinite (apply_deadzone (axis_value axes i) dz) \<and> \<bar>apply_deadzone (axis_value axes i) dz\<bar> \<le> 1"
proof (cases "index_ok axes i")
  case True
  then have "nat i < length axes" by (auto simp: index_ok_def)
  then have "isfinite (axes ! nat i) \<and> \<bar>axes ! nat i\<bar> \<le> 1" using assms by (simp add: list_all_length)
  then show ?thesis by (auto simp: apply_deadzone_def axis_value_def Let_def one_pyfloat_def)
qed (simp add: apply_deadzone_def axis_value_def one_pyfloat_def)

lemma nonneg_props: "isfinite (nonneg v) \<and> 0 \<le> nonneg v" "is_double v \<Longrightarrow> is_double (nonneg v)"
  by (cases v; auto simp: nonneg_def zero_pyfloat_def)+

lemma linear_cap_props:
  assumes "is_double v"
  shows "isfinite (py_min (nonneg v) MAX_LINEAR_VELOCITY) \<and> is_double (py_min (nonneg v) MAX_LINEAR_VELOCITY)
    \<and> 0 \<le> py_min (nonneg v) MAX_LINEAR_VELOCITY \<and> py_min (nonneg v) MAX_LINEAR_VELOCITY \<le> MAX_LINEAR_VELOCITY"
  using nonneg_props [of v] assms max_velocity_pos not_flt [of MAX_LINEAR_VELOCITY "nonneg v"]
    max_velocity_finite
  by (auto simp: py_min_def fle_refl is_double_fround [of "3/10", folded MAX_LINEAR_VELOCITY_def])

text \<open>For readable axes within [-1, 1] the mapping never raises, publishes zero without the deadman, keeps
  each planar component within the speed cap, and bounds the yaw rate by the configured cap.\<close>
theorem joy_twist_bounds:
  assumes "is_double (p_max_linear p)" and "list_all (\<lambda>a. is_double a \<and> isfinite a \<and> \<bar>a\<bar> \<le> 1) axes"
  shows "\<exists>vx vy wz. joy_to_twist lib p axes buttons = Inr (vx, vy, wz)
    \<and> \<bar>vx\<bar> \<le> MAX_LINEAR_VELOCITY \<and> \<bar>vy\<bar> \<le> MAX_LINEAR_VELOCITY \<and> \<bar>wz\<bar> \<le> nonneg (p_max_angular p)
    \<and> (\<not> pressed buttons (p_deadman_button p) \<longrightarrow> (vx, vy, wz) = no_twist)"
proof (cases "pressed buttons (p_deadman_button p)")
  case False
  then have "joy_to_twist lib p axes buttons = Inr no_twist" by (simp add: joy_to_twist_def pressed_def split: if_splits)
  then show ?thesis using nonneg_props(1) [of "p_max_angular p"] by (simp add: no_twist_def zero_pyfloat_def max_velocity_eq)
next
  case True
  define c where "c = py_min (nonneg (p_max_linear p)) MAX_LINEAR_VELOCITY"
  define dz where "dz = nonneg (p_deadzone p)"
  define ax where "ax = apply_deadzone (axis_value axes (p_axis_linear_x p)) dz"
  define ay where "ay = apply_deadzone (axis_value axes (p_axis_linear_y p)) dz"
  define vx where "vx = (if p_invert_x p then - ax else ax) * c"
  define vy where "vy = (if p_invert_y p then - ay else ay) * c"
  define aw where "aw = apply_deadzone (axis_value axes (p_axis_angular p)) dz"
  define wz where "wz = clamp_velocity ((if p_invert_wz p then - aw else aw) * nonneg (p_max_angular p)) (nonneg (p_max_angular p))"
  have c: "isfinite c" "is_double c" "0 \<le> c" "c \<le> MAX_LINEAR_VELOCITY" using linear_cap_props [OF assms(1)] by (simp_all add: c_def)
  have m: "isfinite (if b then - a else a) \<and> \<bar>if b then - a else a\<bar> \<le> 1" if "isfinite a \<and> \<bar>a\<bar> \<le> 1" for a and b :: bool
    using that by (cases a) auto
  have v: "isfinite vx \<and> \<bar>vx\<bar> \<le> c" "isfinite vy \<and> \<bar>vy\<bar> \<le> c" "is_double vx" "is_double vy"
    using unit_times [OF c(2,1,3)] m axis_in_range [OF assms(2)] by (simp_all only: vx_def vy_def ax_def ay_def is_double_times)
  have w: "\<bar>wz\<bar> \<le> nonneg (p_max_angular p)" using clamp_velocity_spec nonneg_props(1) by (simp add: wz_def)
  have run: "joy_to_twist lib p axes buttons =
      (let magnitude = m_hypot lib vx vy in if c < magnitude \<and> Fin 0 < magnitude
        then bindR (fdiv c magnitude) (\<lambda>scale. Inr (vx * scale, vy * scale, wz)) else Inr (vx, vy, wz))"
  proof -
    have "index_ok buttons (p_deadman_button p)" "buttons ! nat (p_deadman_button p) \<noteq> 0"
      using True by (auto simp: pressed_def split: if_splits)
    then show ?thesis unfolding joy_to_twist_def Let_def c_def dz_def ax_def ay_def vx_def vy_def aw_def wz_def
      by (simp only: not_True_eq_False if_False)
  qed
  show ?thesis
  proof (cases "c < m_hypot lib vx vy \<and> Fin 0 < m_hypot lib vx vy")
    case False
    then show ?thesis using run v w c True fle_trans [OF _ c(4)] by (auto simp: Let_def)
  next
    case True
    have "\<exists>s. fdiv c (m_hypot lib vx vy) = Inr s \<and> 0 \<le> s \<and> s \<le> 1"
    proof (cases "0 < c")
      case pos: True
      then show ?thesis using div_unit [OF _ pos c(1)] True by blast
    next
      case False
      then have "c = Fin 0" using c(1,3) by (cases c) (auto simp: zero_pyfloat_def)
      then show ?thesis using True by (cases "m_hypot lib vx vy") (auto simp: zero_pyfloat_def one_pyfloat_def)
    qed
    then obtain s where s: "fdiv c (m_hypot lib vx vy) = Inr s" "0 \<le> s" "s \<le> 1" by blast
    then have "\<bar>vx * s\<bar> \<le> \<bar>vx\<bar>" "\<bar>vy * s\<bar> \<le> \<bar>vy\<bar>" using times_unit v by blast+
    then have "\<bar>vx * s\<bar> \<le> MAX_LINEAR_VELOCITY" "\<bar>vy * s\<bar> \<le> MAX_LINEAR_VELOCITY"
      using v c(4) fle_trans by blast+
    then show ?thesis using run True s w \<open>pressed buttons (p_deadman_button p)\<close> by (simp add: Let_def)
  qed
qed

theorem joy_twist_bounds_witness:
  "\<exists>vx vy wz. joy_to_twist unit_libm DEFAULT_JOY_PARAMS [Fin 1, Fin 1, Fin (-1)] drive_buttons = Inr (vx, vy, wz)
    \<and> \<bar>vx\<bar> \<le> MAX_LINEAR_VELOCITY \<and> \<bar>vy\<bar> \<le> MAX_LINEAR_VELOCITY \<and> \<bar>wz\<bar> \<le> nonneg (p_max_angular DEFAULT_JOY_PARAMS)"
proof -
  have "is_double (p_max_linear DEFAULT_JOY_PARAMS)"
      "list_all (\<lambda>a. is_double a \<and> isfinite a \<and> \<bar>a\<bar> \<le> 1) [Fin 1, Fin 1, Fin (-1)]"
    by code_simp+
  from joy_twist_bounds [OF this, of unit_libm drive_buttons] show ?thesis by blast
qed

end
