(* ===== verification/OperatorLinkProps.thy ===== *)
theory OperatorLinkProps
  imports OperatorLink JoymapProps
begin

text \<open>
  What the remote operator's link guarantees: the type of every parsed message, replay and ordering
  of drive commands over histories of receiving, taking, reconnecting and replaying, the latch of
  the heartbeat watchdog, the freshness of the picture, and the one-shot use of crossing approvals.
\<close>

section \<open>Parsed messages\<close>

lemma is_finite_number_true: "is_finite_number v = Inr True \<Longrightarrow> \<exists>x. to_float v = Inr x \<and> isfinite x"
  by (auto simp: is_finite_number_def isfinite_val_def bindR_Inr_iff split: if_splits)

lemma all_finite_floats:
  "all_finite axes = Inr True \<Longrightarrow> \<exists>xs. all_floats axes = Inr xs \<and> list_all isfinite xs \<and> length xs = length axes"
proof (induction axes)
  case (Cons a axes)
  then have "is_finite_number a = Inr True" "all_finite axes = Inr True"
    by (auto simp: bindR_Inr_iff split: if_splits)
  with Cons.IH is_finite_number_true [of a] show ?case by auto
qed simp

definition token_ok :: "approval_token \<Rightarrow> bool" where
  "token_ok t \<longleftrightarrow> token_id t \<noteq> [] \<and> crossing_id t \<noteq> [] \<and> route_version t \<noteq> [] \<and> datum_version t \<noteq> []
     \<and> isfinite (entry_heading t) \<and> isfinite (expires_at_s t)"

text \<open>A payload is the one its kind announces, within its bounds.\<close>

definition payload_ok :: "control_kind \<Rightarrow> control_payload \<Rightarrow> bool" where
  "payload_ok k p \<longleftrightarrow>
     (case p of
        HeartbeatPayload \<Rightarrow> k = HEARTBEAT
      | TeleopPayload axes buttons \<Rightarrow> k = TELEOP \<and> list_all isfinite axes \<and> length axes \<le> 64 \<and> length buttons \<le> 64
      | StopRequestPayload a \<Rightarrow> k = STOP_REQUEST \<and> a \<in> {''engage'', ''clear''}
      | CrossingApprovalToken t \<Rightarrow> k = CROSSING_APPROVAL \<and> token_ok t
      | AuthorityPayload _ \<Rightarrow> k = AUTHORITY)"

lemma parse_teleop_ok: "parse_teleop d = Inr (Some p) \<Longrightarrow> payload_ok TELEOP p"
proof -
  assume a: "parse_teleop d = Inr (Some p)"
  then obtain axes buttons where p: "dget d ''axes'' = PList axes" "dget d ''buttons'' = PList buttons"
    by (auto simp: parse_teleop_def split: pyval.splits)
  with a have len: "length axes \<le> 64" "length buttons \<le> 64" and fin: "all_finite axes = Inr True"
    by (auto simp: parse_teleop_def MAX_JOY_ARRAY_LEN_def bindR_Inr_iff split: if_splits)
  obtain xs where "all_floats axes = Inr xs" "list_all isfinite xs" "length xs = length axes"
    using all_finite_floats [OF fin] by blast
  with a p len fin show ?thesis by (auto simp: parse_teleop_def payload_ok_def split: if_splits)
qed

lemma nonempty_str_of: "is_nonempty_str v \<Longrightarrow> str_of v \<noteq> []"
  by (cases v) auto

lemma parse_crossing_ok: "parse_crossing_approval d = Inr (Some p) \<Longrightarrow> payload_ok CROSSING_APPROVAL p"
  by (auto simp: parse_crossing_approval_def payload_ok_def token_ok_def bindR_Inr_iff nonempty_str_of
      dest!: is_finite_number_true split: if_splits)

lemma parse_payload_ok:
  assumes "parse_payload k d = Inr (Some p)"
  shows "payload_ok k p"
proof (cases k)
  case TELEOP
  then show ?thesis using assms parse_teleop_ok by (simp add: parse_payload_def)
next
  case CROSSING_APPROVAL
  then show ?thesis using assms parse_crossing_ok by (simp add: parse_payload_def)
qed (use assms in \<open>auto simp: parse_payload_def payload_ok_def parse_stop_request_def STOP_ACTIONS_def parse_authority_def
    split: pyval.splits if_splits\<close>)

definition message_ok :: "control_message \<Rightarrow> bool" where
  "message_ok m \<longleftrightarrow> 0 \<le> session_epoch m \<and> 0 \<le> sequence m \<and> isfinite (sent_at_s m) \<and> payload_ok (kind m) (payload m)"

lemma counter_nonneg: "is_counter v \<Longrightarrow> 0 \<le> int_of v"
  by (cases v) auto

text \<open>Every control message that leaves the parser is well typed: its counters are not negative, its times and
  axes are finite, its payload is the one its kind announces, an action is engage or clear, the
  fields of an approval are not empty, and no array is longer than the bound.\<close>
theorem parsed_message_ok:
  assumes "parse_control_message raw = Inr (Some m)"
  shows "message_ok m"
proof -
  obtain d where raw: "raw = Some (PDict d)"
    using assms by (auto simp: parse_control_message_def split: option.splits pyval.splits)
  obtain k p t where "is_counter (dget d ''session_epoch'')" "is_counter (dget d ''sequence'')"
      "is_finite_number (dget d ''sent_at_s'') = Inr True" "parse_payload k d = Inr (Some p)" "to_float (dget d ''sent_at_s'') = Inr t"
      "m = \<lparr>kind = k, session_epoch = int_of (dget d ''session_epoch''), sequence = int_of (dget d ''sequence''),
        sent_at_s = t, payload = p\<rparr>"
    using assms by (auto simp: parse_control_message_def raw bindR_Inr_iff split: option.splits if_splits)
  then show ?thesis using parse_payload_ok counter_nonneg is_finite_number_true by (fastforce simp: message_ok_def)
qed

definition teleop_frame :: body where
  "teleop_frame = [(''kind'', PStr ''teleop''), (''session_epoch'', PInt 3), (''sequence'', PInt 7),
     (''sent_at_s'', PFloat (Fin 100)), (''axes'', PList [PInt 0, PFloat (Fin (1/2))]), (''buttons'', PList [PInt 1])]"

definition teleop_message :: control_message where
  "teleop_message = \<lparr>kind = TELEOP, session_epoch = 3, sequence = 7, sent_at_s = Fin 100,
     payload = TeleopPayload [Fin 0, Fin (1/2)] [1]\<rparr>"

lemma teleop_frame_parsed: "parse_control_message (Some (PDict teleop_frame)) = Inr (Some teleop_message)"
  by code_simp

theorem parsed_message_ok_witness: "message_ok teleop_message"
  by (rule parsed_message_ok [OF teleop_frame_parsed])

definition huge_int :: int where
  "huge_int = 10 ^ 400"

lemma huge_int_overflows: "is_finite_number (PInt huge_int) = Inl OverflowError"
  using float_of_int_huge by (simp only: huge_int_def is_finite_number_def isfinite_val_def is_number.simps to_float.simps) simp

text \<open>A frame can make the parser raise: a heartbeat whose send time is an integer beyond the range of a
  float (401 digits of JSON) ends in an OverflowError, not in None.\<close>
theorem parse_overflow_escapes:
  "parse_control_message (Some (PDict [(''kind'', PStr ''heartbeat''), (''session_epoch'', PInt 0), (''sequence'', PInt 0),
     (''sent_at_s'', PInt huge_int)])) = Inl OverflowError"
proof -
  have "parse_kind (PStr ''heartbeat'') = Some HEARTBEAT" by code_simp
  then show ?thesis by (auto simp: parse_control_message_def dget_def ENVELOPE_KEYS_def huge_int_overflows)
qed

section \<open>Drive commands over a session's history\<close>

text \<open>
  The caller holds at most one taken sample; \<open>Replay\<close> uses it up. The trace lists the messages
  whose replay produced a sample, in order.
\<close>

datatype link_event =
    Receive "control_message option" pyfloat pyfloat
  | Take
  | Reconnect int
  | Replay pyfloat pyfloat "nat option" "nat option"

record link_state =
  guard :: session_guard
  taken :: "(control_message \<times> pyfloat) option"
  replayed :: "control_message list"

fun link_step :: "link_state \<Rightarrow> link_event \<Rightarrow> link_state" where
  "link_step s (Receive m wall arrival) = s\<lparr>guard := snd (guard_accept (guard s) m wall arrival)\<rparr>"
| "link_step s Take =
     (case take_pending_teleop (guard s) of
        (None, g) \<Rightarrow> s\<lparr>guard := g\<rparr>
      | (Some x, g) \<Rightarrow> s\<lparr>guard := g, taken := Some x\<rparr>)"
| "link_step s (Reconnect e) = (case reconnect (guard s) e of Inl _ \<Rightarrow> s | Inr (_, g) \<Rightarrow> s\<lparr>guard := g\<rparr>)"
| "link_step s (Replay arrival timeout na nb) =
     (case taken s of
        None \<Rightarrow> s
      | Some (m, received) \<Rightarrow>
          (case replay_teleop (Some m) arrival received timeout (guard_epoch (guard s)) na nb of
             None \<Rightarrow> s\<lparr>taken := None\<rparr>
           | Some _ \<Rightarrow> s\<lparr>taken := None, replayed := replayed s @ [m]\<rparr>))"

definition link_run :: "link_state \<Rightarrow> link_event list \<Rightarrow> link_state" where
  "link_run = foldl link_step"

definition start_link :: "session_guard \<Rightarrow> link_state" where
  "start_link g = \<lparr>guard = g, taken = None, replayed = []\<rparr>"

text \<open>Commands are ordered by session, then by sequence number.\<close>

definition before :: "control_message \<Rightarrow> control_message \<Rightarrow> bool" where
  "before a b \<longleftrightarrow> session_epoch a < session_epoch b \<or> session_epoch a = session_epoch b \<and> sequence a < sequence b"

definition seen :: "session_guard \<Rightarrow> control_message \<Rightarrow> bool" where
  "seen g m \<longleftrightarrow> session_epoch m < guard_epoch g
     \<or> session_epoch m = guard_epoch g \<and> (\<exists>l. last_sequence g = Some l \<and> sequence m \<le> l)"

definition pending_cmd :: "session_guard \<Rightarrow> control_message option" where
  "pending_cmd g = (case (pending_teleop g, pending_received_mono_s g) of (Some m, Some _) \<Rightarrow> Some m | _ \<Rightarrow> None)"

text \<open>
  What was replayed is in order and was seen; the taken sample is newer than everything replayed,
  the queued one newer than the taken and the replayed, and it belongs to the current session.
\<close>

definition link_inv :: "link_state \<Rightarrow> bool" where
  "link_inv s \<longleftrightarrow>
     sorted_wrt before (replayed s) \<and> (\<forall>m \<in> set (replayed s). seen (guard s) m)
     \<and> (\<forall>t r. taken s = Some (t, r) \<longrightarrow> seen (guard s) t \<and> (\<forall>m \<in> set (replayed s). before m t))
     \<and> (\<forall>q. pending_cmd (guard s) = Some q \<longrightarrow> session_epoch q = guard_epoch (guard s) \<and> seen (guard s) q
          \<and> (\<forall>m \<in> set (replayed s). before m q) \<and> (\<forall>t r. taken s = Some (t, r) \<longrightarrow> before t q))"

lemma seen_before: "seen g a \<Longrightarrow> \<not> seen g b \<Longrightarrow> session_epoch b = guard_epoch g \<Longrightarrow> before a b"
  by (cases "last_sequence g") (auto simp: seen_def before_def)

lemma before_trans: "before a b \<Longrightarrow> before b c \<Longrightarrow> before a c"
  by (auto simp: before_def)

lemma pending_cmd_sequence [simp]: "pending_cmd (g\<lparr>last_sequence := x\<rparr>) = pending_cmd g"
  by (simp add: pending_cmd_def split: option.splits)

text \<open>A message the guard accepts is of the current session, within the window and not seen before.\<close>

lemma accept_cases:
  "guard_accept g m wall arrival = (ok, g') \<Longrightarrow>
     (\<not> ok \<and> g' = g)
     \<or> (\<exists>c. ok \<and> m = Some c \<and> session_epoch c = guard_epoch g \<and> \<not> seen g c \<and> in_window g wall (sent_at_s c)
          \<and> guard_epoch g' = guard_epoch g \<and> last_sequence g' = Some (sequence c)
          \<and> pending_cmd g' = (if kind c = TELEOP then Some c else pending_cmd g))"
proof (cases m)
  case (Some c)
  assume acc: "guard_accept g m wall arrival = (ok, g')"
  let ?replay = "case last_sequence g of None \<Rightarrow> False | Some l \<Rightarrow> sequence c \<le> l"
  show ?thesis
  proof (cases "isfinite wall \<and> isfinite arrival \<and> session_epoch c = guard_epoch g \<and> \<not> ?replay \<and> in_window g wall (sent_at_s c)")
    case True
    then have "\<not> seen g c" by (auto simp: seen_def)
    moreover have "ok" "g' = (let g = g\<lparr>last_sequence := Some (sequence c)\<rparr> in
        if kind c = TELEOP then g\<lparr>pending_teleop := Some c, pending_received_mono_s := Some arrival\<rparr> else g)"
      using acc True by (simp_all add: guard_accept_def Some Let_def)
    moreover have "pending_cmd (g\<lparr>last_sequence := q, pending_teleop := Some c, pending_received_mono_s := Some arrival\<rparr>) = Some c" for q
      by (simp add: pending_cmd_def)
    ultimately show ?thesis using True Some by (simp add: Let_def)
  next
    case False
    then show ?thesis using acc by (auto simp: guard_accept_def Some split: if_splits)
  qed
qed (simp add: guard_accept_def)

lemma link_step_inv:
  assumes inv: "link_inv s"
  shows "link_inv (link_step s e)"
proof (cases e)
  case (Receive m wall arrival)
  obtain ok g' where acc: "guard_accept (guard s) m wall arrival = (ok, g')" by fastforce
  from accept_cases [OF acc] consider "g' = guard s"
    | c where "session_epoch c = guard_epoch (guard s)" "\<not> seen (guard s) c" "guard_epoch g' = guard_epoch (guard s)"
        "last_sequence g' = Some (sequence c)" "pending_cmd g' = (if kind c = TELEOP then Some c else pending_cmd (guard s))"
    by blast
  then show ?thesis
  proof cases
    case 1
    then show ?thesis using inv by (simp add: Receive acc)
  next
    case 2
    have keep: "seen g' x" if "seen (guard s) x" for x
      using that 2(1-4) by (cases "last_sequence (guard s)") (auto simp: seen_def)
    have new: "seen g' c" using 2(1,3,4) by (simp add: seen_def)
    have less: "before x c" if "seen (guard s) x" for x using seen_before [OF that 2(2,1)] .
    show ?thesis using inv keep new less 2(1,3,5)
      by (cases "kind c = TELEOP") (simp_all add: Receive acc link_inv_def)
  qed
next
  case Take
  obtain x g' where t: "take_pending_teleop (guard s) = (x, g')" by fastforce
  then have g': "guard_epoch g' = guard_epoch (guard s)" "last_sequence g' = last_sequence (guard s)"
      "x \<noteq> None \<Longrightarrow> pending_cmd g' = None" "x = None \<Longrightarrow> g' = guard s"
      "map_option fst x = pending_cmd (guard s)"
    by (auto simp: take_pending_teleop_def pending_cmd_def split: option.splits)
  have sn: "seen g' = seen (guard s)" using g'(1,2) by (auto simp: seen_def)
  show ?thesis
  proof (cases x)
    case None
    then show ?thesis using inv g' by (simp add: Take t)
  next
    case (Some y)
    then have "pending_cmd (guard s) = Some (fst y)" using g'(5) by simp
    then show ?thesis using inv g'(1,3) sn Some by (auto simp: Take t link_inv_def)
  qed
next
  case (Reconnect ep)
  show ?thesis
  proof (cases "reconnect (guard s) ep")
    case (Inr r)
    then obtain k g' where r: "r = (k, g')" "guard_epoch g' = ep" "guard_epoch (guard s) < ep" "pending_cmd g' = None"
      by (auto simp: reconnect_def pending_cmd_def Let_def split: if_splits)
    then have "seen (guard s) x \<Longrightarrow> seen g' x" for x by (auto simp: seen_def)
    then show ?thesis using inv Inr r by (simp add: Reconnect link_inv_def)
  qed (use inv in \<open>simp add: Reconnect\<close>)
next
  case (Replay arrival timeout na nb)
  show ?thesis
  proof (cases "taken s")
    case (Some y)
    obtain t r where y: "y = (t, r)" by (cases y)
    show ?thesis
      using inv by (cases "replay_teleop (Some t) arrival r timeout (guard_epoch (guard s)) na nb")
        (auto simp: Replay Some y link_inv_def sorted_wrt_append)
  qed (use inv in \<open>simp add: Replay\<close>)
qed

lemma link_run_inv: "link_inv s \<Longrightarrow> link_inv (link_run s es)"
  unfolding link_run_def by (induction es arbitrary: s) (simp_all add: link_step_inv)

lemma start_link_inv: "make_guard ep0 skew valid = Inr g \<Longrightarrow> link_inv (start_link g)"
  by (auto simp: make_guard_def bindR_Inr_iff start_link_def link_inv_def pending_cmd_def split: if_splits)

text \<open>Over any interleaving of received messages, takes, reconnects and replays, the drive commands that are
  replayed are strictly increasing in (session, sequence), so none is replayed twice or out of order;
  and a replayed command belongs to the session that is current at its replay and arrived at most the
  joystick timeout before.\<close>
theorem drive_commands_in_order:
  assumes "make_guard ep0 skew valid = Inr g" and "s = link_run (start_link g) es"
    and "s' = link_step s (Replay now timeout na nb)"
  shows "sorted_wrt before (replayed s') \<and>
    (replayed s' = replayed s \<or>
     (\<exists>m received. taken s = Some (m, received) \<and> replayed s' = replayed s @ [m] \<and> kind m = TELEOP
        \<and> session_epoch m = guard_epoch (guard s) \<and> \<not> joy_is_stale (now - received) timeout))"
proof -
  have inv: "link_inv s'" using start_link_inv [OF assms(1)] link_run_inv link_step_inv assms(2,3) by blast
  have "replayed s' = replayed s \<or>
     (\<exists>m received. taken s = Some (m, received) \<and> replayed s' = replayed s @ [m] \<and> kind m = TELEOP
        \<and> session_epoch m = guard_epoch (guard s) \<and> \<not> joy_is_stale (now - received) timeout)"
  proof (cases "taken s")
    case (Some y)
    obtain m r where y: "y = (m, r)" by (cases y)
    show ?thesis
    proof (cases "replay_teleop (Some m) now r timeout (guard_epoch (guard s)) na nb")
      case (Some out)
      then have "kind m = TELEOP \<and> session_epoch m = guard_epoch (guard s) \<and> \<not> joy_is_stale (now - r) timeout"
        by (auto simp: replay_teleop_def Let_def split: if_splits control_payload.splits)
      then show ?thesis using \<open>taken s = Some y\<close> Some y assms(3) by simp
    qed (use assms(3) Some y in simp)
  qed (use assms(3) in simp)
  then show ?thesis using inv by (simp add: link_inv_def)
qed

definition ex_guard :: session_guard where
  "ex_guard = \<lparr>guard_epoch = 3, max_clock_skew_s = Fin (1/4), valid_for_s = Fin 1, last_sequence = None,
     pending_teleop = None, pending_received_mono_s = None, discarded_teleop_count = 0\<rparr>"

definition ex_link :: link_state where
  "ex_link = link_run (start_link ex_guard) [Receive (Some teleop_message) (Fin 100) (Fin 5), Take]"

theorem drive_commands_in_order_witness:
  "replayed (link_step ex_link (Replay (Fin 5) (Fin 1) None None)) = [teleop_message] \<and>
   sorted_wrt before (replayed (link_step ex_link (Replay (Fin 5) (Fin 1) None None)))"
proof -
  have "make_guard 3 (PFloat (Fin (1/4))) (PInt 1) = Inr ex_guard" by code_simp
  moreover have "replayed (link_step ex_link (Replay (Fin 5) (Fin 1) None None)) = [teleop_message]" by code_simp
  ultimately show ?thesis using drive_commands_in_order [OF _ ex_link_def refl] by blast
qed

section \<open>The heartbeat watchdog\<close>

datatype watch_event = Beat pyfloat | Evaluate pyfloat | Rearm pyfloat

fun watch_step :: "link_watchdog \<Rightarrow> watch_event \<Rightarrow> link_watchdog" where
  "watch_step w (Beat now) = snd (observe_heartbeat w now)"
| "watch_step w (Evaluate now) = snd (link_evaluate w now)"
| "watch_step w (Rearm now) = snd (rearm w now)"

definition watch_run :: "link_watchdog \<Rightarrow> watch_event list \<Rightarrow> link_watchdog" where
  "watch_run = foldl watch_step"

definition watch_inv :: "link_watchdog \<Rightarrow> bool" where
  "watch_inv w \<longleftrightarrow> isfinite (lw_timeout_s w) \<and> (\<forall>t. last_heartbeat w = Some t \<longrightarrow> isfinite t)"

lemma make_watchdog_inv: "make_watchdog t = Inr w \<Longrightarrow> watch_inv w \<and> lw_engaged w"
  by (auto simp: make_watchdog_def require_positive_def require_finite_def bindR_Inr_iff watch_inv_def split: if_splits)

lemma watch_step_inv: "watch_inv w \<Longrightarrow> watch_inv (watch_step w e)"
  by (cases e) (auto simp: watch_inv_def observe_heartbeat_def link_evaluate_def rearm_def Let_def split: option.splits)

lemma watch_run_inv: "watch_inv w \<Longrightarrow> watch_inv (watch_run w es)"
  unfolding watch_run_def by (induction es arbitrary: w) (simp_all add: watch_step_inv)

text \<open>For a well-formed watchdog, being lost is the negation of being fresh.\<close>

lemma evaluate_lost:
  assumes "watch_inv w" and "\<not> link_is_fresh w now"
  shows "lw_engaged (snd (link_evaluate w now)) \<and> lv_engaged (fst (link_evaluate w now))"
proof (cases "link_age w now")
  case (Some age)
  then obtain t where t: "last_heartbeat w = Some t" "isfinite now" "age = now - t"
    by (auto simp: link_age_def split: option.splits if_splits)
  then have "isfinite t" using assms(1) by (simp add: watch_inv_def)
  then have "\<not> isnan age" using t(2,3) by (auto simp: isfinite_iff)
  then have "lw_timeout_s w < age \<or> age < Fin 0"
    using assms Some not_fle [of age "lw_timeout_s w"] not_fle [of "Fin 0" age]
    by (auto simp: link_is_fresh_def watch_inv_def)
  then show ?thesis by (auto simp: link_evaluate_def Let_def Some)
qed (simp add: link_evaluate_def Let_def)

lemma watch_stays_engaged:
  "lw_engaged w \<Longrightarrow> \<forall>e \<in> set es. \<forall>t. e \<noteq> Rearm t \<Longrightarrow> lw_engaged (watch_run w es)"
  unfolding watch_run_def
proof (induction es arbitrary: w)
  case (Cons e es)
  have "lw_engaged (watch_step w e)" using Cons.prems
    by (cases e) (auto simp: observe_heartbeat_def link_evaluate_def Let_def split: option.splits)
  then show ?case using Cons by simp
qed simp

lemma evaluate_engaged: "lw_engaged w \<Longrightarrow> lv_engaged (fst (link_evaluate w now))"
  by (auto simp: link_evaluate_def Let_def split: option.splits)

lemma engage_payload_feeds: "lv_engaged v \<Longrightarrow> op_feed b (stop_request_payload (Some v)) = (Some ''engage'', True)"
  by (simp add: stop_request_payload_def op_feed_def parse_operator_stop_action_def dget_def OPERATOR_STOP_ACTIONS_def)

text \<open>A lost link stops the fleet and stays lost: whatever happened before, an evaluation that finds no
  fresh heartbeat (none ever, too old, or from the future) engages, its payload is read by the guardian
  as an engage of the operator stop, and every later evaluation still engages, heartbeats resuming
  included, until an explicit re-arm.\<close>
theorem link_loss_latched:
  assumes "make_watchdog timeout = Inr w0" and "w = watch_run w0 es" and "\<not> link_is_fresh w now"
    and "\<forall>e \<in> set es2. \<forall>t. e \<noteq> Rearm t" and "w2 = watch_run (snd (link_evaluate w now)) es2"
    and "v = fst (link_evaluate w2 later)"
  shows "op_feed b (stop_request_payload (Some (fst (link_evaluate w now)))) = (Some ''engage'', True)
    \<and> lv_engaged v \<and> op_feed b (stop_request_payload (Some v)) = (Some ''engage'', True)"
proof -
  have "watch_inv w" using make_watchdog_inv [OF assms(1)] watch_run_inv assms(2) by blast
  note lost = evaluate_lost [OF this assms(3)]
  have "lw_engaged w2" using watch_stays_engaged lost assms(4,5) by blast
  then show ?thesis using lost evaluate_engaged engage_payload_feeds assms(6) by blast
qed

theorem link_loss_latched_witness:
  "\<exists>w0. make_watchdog (PInt 1) = Inr w0 \<and>
     lv_engaged (fst (link_evaluate (watch_run (snd (link_evaluate (watch_run w0 [Beat (Fin 1), Rearm (Fin 1)]) (Fin 3))) [Beat (Fin 3), Evaluate (Fin 3)]) (Fin (7/2))))"
proof -
  let ?w = "\<lparr>lw_timeout_s = Fin 1, last_heartbeat = None, lw_engaged = True\<rparr>"
  have m: "make_watchdog (PInt 1) = Inr ?w" by code_simp
  have f: "\<not> link_is_fresh (watch_run ?w [Beat (Fin 1), Rearm (Fin 1)]) (Fin 3)" by code_simp
  have "lv_engaged (fst (link_evaluate (watch_run (snd (link_evaluate (watch_run ?w [Beat (Fin 1), Rearm (Fin 1)]) (Fin 3))) [Beat (Fin 3), Evaluate (Fin 3)]) (Fin (7/2))))"
    using link_loss_latched [OF m refl f _ refl refl, where ?es2.0 = "[Beat (Fin 3), Evaluate (Fin 3)]" and later = "Fin (7/2)"] by simp
  then show ?thesis using m by blast
qed

section \<open>Crossing approvals\<close>

record presentation =
  pr_token :: approval_token
  pr_now :: pyfloat
  pr_crossing :: string
  pr_route :: string
  pr_datum :: string

definition present :: "registry \<Rightarrow> presentation \<Rightarrow> bool \<times> registry" where
  "present used p = consume used (Some (pr_token p)) (pr_now p) (pr_crossing p) (pr_route p) (pr_datum p)"

text \<open>The ids consumed by a sequence of presentations.\<close>

fun consumed_ids :: "registry \<Rightarrow> presentation list \<Rightarrow> string list" where
  "consumed_ids used [] = []"
| "consumed_ids used (p # ps) =
     (let (ok, used') = present used p in
      (if ok then [token_id (pr_token p)] else []) @ consumed_ids used' ps)"

definition burned_inv :: "(string \<Rightarrow> pyfloat) \<Rightarrow> string set \<Rightarrow> pyfloat \<Rightarrow> registry \<Rightarrow> bool" where
  "burned_inv deadline S now used \<longleftrightarrow>
     dict_ok used \<and> (\<forall>i d. map_of used i = Some d \<longrightarrow> d = deadline i)
     \<and> (\<forall>i \<in> S. map_of used i \<noteq> None \<or> deadline i < now)"

lemma map_of_evict:
  "dict_ok used \<Longrightarrow> map_of (evict_expired used now) i =
     (case map_of used i of None \<Rightarrow> None | Some d \<Rightarrow> if d < now then None else Some d)"
  using map_of_filter_value [of used "\<lambda>d. \<not> d < now" i]
  by (auto simp: evict_expired_def split: option.splits)

lemma present_step:
  assumes inv: "burned_inv deadline S now used" and le: "now \<le> pr_now p"
    and dl: "expires_at_s (pr_token p) = deadline (token_id (pr_token p))" and st: "present used p = (ok, used')"
  shows "burned_inv deadline (if ok then insert (token_id (pr_token p)) S else S) (pr_now p) used'
    \<and> (ok \<longrightarrow> token_id (pr_token p) \<notin> S)"
proof -
  let ?i = "token_id (pr_token p)" and ?ev = "evict_expired used (pr_now p)"
  have d: "dict_ok used" using inv by (simp add: burned_inv_def)
  have stay: "burned_inv deadline S (pr_now p) used"
    using inv flt_fle_trans [OF _ le] by (auto simp: burned_inv_def)
  have "dict_ok ?ev" using d by (simp add: evict_expired_def)
  then have ev: "burned_inv deadline S (pr_now p) ?ev"
    using inv flt_fle_trans [OF _ le] by (fastforce simp: burned_inv_def map_of_evict [OF d] split: option.splits)
  have keys: "i \<in> fst ` set ?ev \<longleftrightarrow> map_of ?ev i \<noteq> None" for i by (simp add: map_of_eq_None_iff)
  show ?thesis
  proof (cases ok)
    case True
    then have c: "map_of ?ev ?i = None" "\<not> deadline ?i < pr_now p" "used' = AList.update ?i (deadline ?i) ?ev"
      using st dl by (auto simp: present_def consume_def Let_def keys split: if_splits)
    then have "?i \<notin> S" using ev by (auto simp: burned_inv_def)
    then show ?thesis using ev c True by (auto simp: burned_inv_def)
  next
    case False
    then have "used' = used \<or> used' = ?ev" using st by (auto simp: present_def consume_def Let_def split: if_splits)
    then show ?thesis using False stay ev by auto
  qed
qed

lemma consumed_distinct:
  "burned_inv deadline S now used \<Longrightarrow> sorted_wrt (\<le>) (now # map pr_now ps) \<Longrightarrow>
   \<forall>p \<in> set ps. expires_at_s (pr_token p) = deadline (token_id (pr_token p)) \<Longrightarrow>
   distinct (consumed_ids used ps) \<and> set (consumed_ids used ps) \<inter> S = {}"
proof (induction ps arbitrary: S now used)
  case (Cons p ps)
  obtain ok used' where st: "present used p = (ok, used')" by fastforce
  let ?S = "if ok then insert (token_id (pr_token p)) S else S"
  have step: "burned_inv deadline ?S (pr_now p) used'" "ok \<longrightarrow> token_id (pr_token p) \<notin> S"
    using present_step [OF Cons.prems(1) _ _ st] Cons.prems(2,3) by simp_all
  then have "distinct (consumed_ids used' ps) \<and> set (consumed_ids used' ps) \<inter> ?S = {}"
    using Cons.IH [OF step(1)] Cons.prems(2,3) by simp
  then show ?case using step(2) by (cases ok) (auto simp: st)
qed simp

text \<open>On a wall clock that does not run backwards, and when presentations of one token id carry one
  deadline, a crossing approval is consumed at most once over any sequence of presentations, although
  the registry forgets expired tokens.\<close>
theorem approval_once:
  assumes "sorted_wrt (\<le>) (map pr_now ps)"
    and "\<forall>p \<in> set ps. \<forall>q \<in> set ps. token_id (pr_token p) = token_id (pr_token q)
           \<longrightarrow> expires_at_s (pr_token p) = expires_at_s (pr_token q)"
  shows "distinct (consumed_ids [] ps)"
proof (cases "\<exists>p q qs. ps = p # q # qs")
  case False
  then have "ps = [] \<or> (\<exists>p. ps = [p])" by (metis neq_Nil_conv)
  then show ?thesis by (auto split: prod.splits)
next
  case True
  then have nan: "\<not> isnan (pr_now (hd ps))" "ps \<noteq> []" using assms(1) fle_not_nan by auto
  define deadline where "deadline i = expires_at_s (pr_token (SOME p. p \<in> set ps \<and> token_id (pr_token p) = i))" for i
  have "expires_at_s (pr_token p) = deadline (token_id (pr_token p))" if "p \<in> set ps" for p
  proof -
    define r where "r = (SOME q. q \<in> set ps \<and> token_id (pr_token q) = token_id (pr_token p))"
    have "r \<in> set ps \<and> token_id (pr_token r) = token_id (pr_token p)"
      unfolding r_def by (rule someI [of _ p]) (simp add: that)
    then show ?thesis using assms(2) that unfolding deadline_def r_def [symmetric] by metis
  qed
  moreover have "sorted_wrt (\<le>) (pr_now (hd ps) # map pr_now ps)"
    using assms(1) nan by (cases ps) (auto simp: fle_refl)
  moreover have "burned_inv deadline {} (pr_now (hd ps)) []" by (simp add: burned_inv_def)
  ultimately show ?thesis using consumed_distinct by blast
qed

definition ex_token :: "pyfloat \<Rightarrow> approval_token" where
  "ex_token e = \<lparr>token_id = ''t1'', crossing_id = ''c1'', route_version = ''r1'', datum_version = ''d1'',
     entry_heading = Fin 0, expires_at_s = e\<rparr>"

definition ex_present :: "pyfloat \<Rightarrow> pyfloat \<Rightarrow> presentation" where
  "ex_present e now = \<lparr>pr_token = ex_token e, pr_now = now, pr_crossing = ''c1'', pr_route = ''r1'', pr_datum = ''d1''\<rparr>"

theorem approval_once_witness:
  "consumed_ids [] [ex_present (Fin 10) (Fin 5), ex_present (Fin 10) (Fin 6), ex_present (Fin 10) (Fin 11)] = [''t1'']
   \<and> distinct (consumed_ids [] [ex_present (Fin 10) (Fin 5), ex_present (Fin 10) (Fin 6), ex_present (Fin 10) (Fin 11)])"
proof
  show "consumed_ids [] [ex_present (Fin 10) (Fin 5), ex_present (Fin 10) (Fin 6), ex_present (Fin 10) (Fin 11)] = [''t1'']"
    by code_simp
  show "distinct (consumed_ids [] [ex_present (Fin 10) (Fin 5), ex_present (Fin 10) (Fin 6), ex_present (Fin 10) (Fin 11)])"
    by (rule approval_once) (simp_all add: ex_present_def ex_token_def)
qed

text \<open>One token id can be consumed twice on a clock that only moves forward: once its first deadline has
  passed the registry forgets it, and a token with the same id and a later deadline is accepted.\<close>
theorem approval_id_reused:
  "consumed_ids [] [ex_present (Fin 10) (Fin 5), ex_present (Fin 20) (Fin 11)] = [''t1'', ''t1'']"
  by code_simp

end
