(* ===== verification/Traffic.thy ===== *)
theory Traffic
  imports PyValue
begin

text \<open>
  Aisle exclusion, \<open>warehouse_traffic/traffic_logic.py\<close>, and the yield demo of
  \<open>traffic_manager.py\<close> that holds and resubmits waiting robots. The route planner is a parameter of
  the manager, as in the code; the goals sent to the navigation bridge are recorded.
\<close>

section \<open>The manager\<close>

type_synonym planner = "string \<Rightarrow> string \<Rightarrow> string list"

definition AISLE_LOCK_TIMEOUT_S :: pyfloat where
  "AISLE_LOCK_TIMEOUT_S = Fin 30"

definition no_route :: planner where
  "no_route pickup dropoff = []"

definition table_route_planner :: "((string \<times> string), string list) pydict \<Rightarrow> planner" where
  "table_route_planner routes pickup dropoff =
     (case map_of routes (pickup, dropoff) of None \<Rightarrow> [] | Some aisles \<Rightarrow> aisles)"

datatype submit_result = Sent | Waiting (wait_for: string) (occupied_by: string)

record traffic =
  aisle_locks :: "(string, string option) pydict"
  acquired_at :: "(string, pyfloat) pydict"
  lock_timeout_s :: pyfloat
  has_bridge :: bool
  navigated :: "(string \<times> string) list"

definition make_simple :: "bool \<Rightarrow> pyfloat \<Rightarrow> traffic" where
  "make_simple bridge timeout =
     \<lparr>aisle_locks = [], acquired_at = [], lock_timeout_s = timeout, has_bridge = bridge, navigated = []\<rparr>"

text \<open>\<open>aisle_locks.get(aisle)\<close>.\<close>

definition occupant :: "traffic \<Rightarrow> string \<Rightarrow> string option" where
  "occupant m aisle = (case map_of (aisle_locks m) aisle of None \<Rightarrow> None | Some x \<Rightarrow> x)"

text \<open>An empty name is falsy: it does not block.\<close>

definition blocks :: "traffic \<Rightarrow> string \<Rightarrow> string \<Rightarrow> bool" where
  "blocks m robot aisle \<longleftrightarrow> (case occupant m aisle of None \<Rightarrow> False | Some r \<Rightarrow> r \<noteq> [] \<and> r \<noteq> robot)"

fun lock_aisles :: "string \<Rightarrow> pyfloat option \<Rightarrow> string list \<Rightarrow> traffic \<Rightarrow> traffic" where
  "lock_aisles robot now [] m = m"
| "lock_aisles robot now (aisle # route) m =
     lock_aisles robot now route
       (m\<lparr>aisle_locks := AList.update aisle (Some robot) (aisle_locks m),
          acquired_at := (case now of None \<Rightarrow> acquired_at m | Some t \<Rightarrow> AList.update aisle t (acquired_at m))\<rparr>)"

definition navigate :: "string \<Rightarrow> string \<Rightarrow> traffic \<Rightarrow> traffic" where
  "navigate robot dropoff m = (if has_bridge m then m\<lparr>navigated := navigated m @ [(robot, dropoff)]\<rparr> else m)"

definition submit_task ::
  "planner \<Rightarrow> string \<Rightarrow> string \<Rightarrow> string \<Rightarrow> pyfloat option \<Rightarrow> traffic \<Rightarrow> submit_result \<times> traffic" where
  "submit_task plan robot pickup dropoff now m =
     (let route = plan pickup dropoff in
      case find (blocks m robot) route of
        Some aisle \<Rightarrow> (Waiting aisle (the (occupant m aisle)), m)
      | None \<Rightarrow> (Sent, navigate robot dropoff (lock_aisles robot now route m)))"

definition release_aisle :: "string \<Rightarrow> string \<Rightarrow> traffic \<Rightarrow> traffic" where
  "release_aisle robot aisle m =
     (if occupant m aisle = Some robot
      then m\<lparr>aisle_locks := AList.update aisle None (aisle_locks m), acquired_at := AList.delete aisle (acquired_at m)\<rparr>
      else m)"

definition lock_expired :: "traffic \<Rightarrow> pyfloat \<Rightarrow> string \<Rightarrow> bool" where
  "lock_expired m now aisle \<longleftrightarrow>
     (case map_of (acquired_at m) aisle of None \<Rightarrow> False | Some t \<Rightarrow> lock_timeout_s m \<le> now - t)"

fun expired_in :: "traffic \<Rightarrow> pyfloat \<Rightarrow> (string, string option) pydict \<Rightarrow> (string \<times> string) list" where
  "expired_in m now [] = []"
| "expired_in m now ((aisle, r) # rest) =
     (case r of
        None \<Rightarrow> expired_in m now rest
      | Some robot \<Rightarrow> (if lock_expired m now aisle then [(robot, aisle)] else []) @ expired_in m now rest)"

definition expired_locks :: "traffic \<Rightarrow> pyfloat \<Rightarrow> (string \<times> string) list" where
  "expired_locks m now = expired_in m now (aisle_locks m)"

datatype aisle_status = Occupied string | Free

definition aisle_states :: "traffic \<Rightarrow> (string \<times> aisle_status) list" where
  "aisle_states m =
     map (\<lambda>(aisle, r). (aisle, case r of None \<Rightarrow> Free | Some robot \<Rightarrow> if robot = [] then Free else Occupied robot)) (aisle_locks m)"

datatype traffic_manager = NoTraffic traffic | SimpleTraffic traffic planner

text \<open>Mode A sends every task at once.\<close>

definition manager_submit ::
  "traffic_manager \<Rightarrow> string \<Rightarrow> string \<Rightarrow> string \<Rightarrow> pyfloat option \<Rightarrow> submit_result \<times> traffic_manager" where
  "manager_submit tm robot pickup dropoff now =
     (case tm of
        NoTraffic m \<Rightarrow> (Sent, NoTraffic (navigate robot dropoff m))
      | SimpleTraffic m plan \<Rightarrow>
          (let (res, m') = submit_task plan robot pickup dropoff now m in (res, SimpleTraffic m' plan)))"

definition make_traffic_manager :: "string \<Rightarrow> bool \<Rightarrow> planner option \<Rightarrow> traffic_manager result" where
  "make_traffic_manager mode bridge plan =
     (if mode = ''none'' then Inr (NoTraffic (make_simple bridge AISLE_LOCK_TIMEOUT_S))
      else if mode = ''simple'' then
        Inr (SimpleTraffic (make_simple bridge AISLE_LOCK_TIMEOUT_S) (case plan of None \<Rightarrow> no_route | Some f \<Rightarrow> f))
      else if mode = ''open-rmf'' then Inl NotImplementedError
      else Inl ValueError)"

section \<open>The yield demo\<close>

record demo =
  mgr :: traffic
  held :: "(string, string \<times> string) pydict"

definition demo_submit :: "planner \<Rightarrow> pyfloat \<Rightarrow> string \<Rightarrow> string \<Rightarrow> string \<Rightarrow> demo \<Rightarrow> demo" where
  "demo_submit plan now robot pickup dropoff d =
     (case submit_task plan robot pickup dropoff (Some now) (mgr d) of
        (Waiting _ _, m) \<Rightarrow> d\<lparr>mgr := m, held := AList.update robot (pickup, dropoff) (held d)\<rparr>
      | (Sent, m) \<Rightarrow> d\<lparr>mgr := m, held := AList.delete robot (held d)\<rparr>)"

text \<open>The loop runs over a copy of the keys; an entry that is gone would raise.\<close>

fun resubmit_loop :: "planner \<Rightarrow> pyfloat \<Rightarrow> string list \<Rightarrow> demo \<Rightarrow> demo result" where
  "resubmit_loop plan now [] d = Inr d"
| "resubmit_loop plan now (r # rs) d =
     (case map_of (held d) r of
        None \<Rightarrow> Inl KeyError
      | Some (pickup, dropoff) \<Rightarrow> resubmit_loop plan now rs (demo_submit plan now r pickup dropoff d))"

definition resubmit_waiting :: "planner \<Rightarrow> pyfloat \<Rightarrow> demo \<Rightarrow> demo result" where
  "resubmit_waiting plan now d = resubmit_loop plan now (map fst (held d)) d"

definition release_all :: "(string \<times> string) list \<Rightarrow> traffic \<Rightarrow> traffic" where
  "release_all locks m = foldl (\<lambda>m (robot, aisle). release_aisle robot aisle m) m locks"

definition locks_of :: "string \<Rightarrow> traffic \<Rightarrow> (string \<times> string) list" where
  "locks_of robot m = map (\<lambda>(aisle, _). (robot, aisle)) (filter (\<lambda>(_, r). r = Some robot) (aisle_locks m))"

definition on_goal_done :: "planner \<Rightarrow> pyfloat \<Rightarrow> string \<Rightarrow> bool \<Rightarrow> demo \<Rightarrow> demo result" where
  "on_goal_done plan now robot succeeded d =
     (if \<not> succeeded then Inr d
      else resubmit_waiting plan now (d\<lparr>mgr := release_all (locks_of robot (mgr d)) (mgr d)\<rparr>))"

definition check_timeouts :: "planner \<Rightarrow> pyfloat \<Rightarrow> demo \<Rightarrow> demo result" where
  "check_timeouts plan now d =
     resubmit_waiting plan now (d\<lparr>mgr := release_all (expired_locks (mgr d) now) (mgr d)\<rparr>)"

datatype traffic_event =
    Submit pyfloat string string string
  | GoalDone pyfloat string bool
  | CheckTimeouts pyfloat

fun demo_step :: "planner \<Rightarrow> demo \<Rightarrow> traffic_event \<Rightarrow> demo result" where
  "demo_step plan d (Submit now robot pickup dropoff) = Inr (demo_submit plan now robot pickup dropoff d)"
| "demo_step plan d (GoalDone now robot ok) = on_goal_done plan now robot ok d"
| "demo_step plan d (CheckTimeouts now) = check_timeouts plan now d"

fun demo_run :: "planner \<Rightarrow> demo \<Rightarrow> traffic_event list \<Rightarrow> demo result" where
  "demo_run plan d [] = Inr d"
| "demo_run plan d (e # es) = bindR (demo_step plan d e) (\<lambda>d'. demo_run plan d' es)"

definition start_demo :: "pyfloat \<Rightarrow> demo" where
  "start_demo timeout = \<lparr>mgr = make_simple True timeout, held = []\<rparr>"

end
