(* ===== verification/TrafficProps.thy ===== *)
theory TrafficProps
  imports Traffic
begin

text \<open>
  Over any history of submissions, finished goals and timeout checks: a held robot is always blocked
  by a lock of another robot, and an aisle stays with its occupant until the goal succeeds or the lock
  times out.
\<close>

section \<open>One operation\<close>

lemma occupant_lock_aisles:
  "occupant (lock_aisles robot now route m) a = (if a \<in> set route then Some robot else occupant m a)"
  by (induction route arbitrary: m) (auto simp: occupant_def)

lemma lock_aisles_acquired:
  "map_of (acquired_at (lock_aisles robot (Some t) route m)) a =
     (if a \<in> set route then Some t else map_of (acquired_at m) a)"
  by (induction route arbitrary: m) auto

lemma lock_aisles_keeps [simp]:
  "lock_timeout_s (lock_aisles robot now route m) = lock_timeout_s m"
  "navigated (lock_aisles robot now route m) = navigated m"
  "has_bridge (lock_aisles robot now route m) = has_bridge m"
  by (induction route arbitrary: m) auto

lemma navigate_keeps [simp]:
  "aisle_locks (navigate r q m) = aisle_locks m" "acquired_at (navigate r q m) = acquired_at m"
  "lock_timeout_s (navigate r q m) = lock_timeout_s m" "occupant (navigate r q m) = occupant m"
  by (auto simp: navigate_def occupant_def)

lemma submit_cases:
  assumes "submit_task plan robot p q now m = (res, m')"
  obtains (waiting) a where "a \<in> set (plan p q)" "blocks m robot a" "res = Waiting a (the (occupant m a))" "m' = m"
  | (sent) "\<forall>a \<in> set (plan p q). \<not> blocks m robot a" "res = Sent"
      "m' = navigate robot q (lock_aisles robot now (plan p q) m)"
proof (cases "find (blocks m robot) (plan p q)")
  case None
  then have "\<forall>a \<in> set (plan p q). \<not> blocks m robot a" by (simp add: find_None_iff)
  moreover have "res = Sent" "m' = navigate robot q (lock_aisles robot now (plan p q) m)"
    using assms unfolding submit_task_def Let_def None by simp_all
  ultimately show thesis by (rule sent)
next
  case (Some a)
  then have "a \<in> set (plan p q) \<and> blocks m robot a" by (rule find_SomeD)
  moreover have "res = Waiting a (the (occupant m a))" "m' = m"
    using assms unfolding submit_task_def Let_def Some by auto
  ultimately show thesis using waiting by blast
qed

text \<open>A granted submission does not unblock anyone else.\<close>

lemma blocks_after_lock:
  assumes "blocks m h a" and "\<forall>a \<in> set route. \<not> blocks m robot a" and "robot \<noteq> []" and "h \<noteq> robot"
  shows "blocks (navigate robot q (lock_aisles robot now route m)) h a"
  using assms by (auto simp: blocks_def occupant_lock_aisles split: option.splits)

section \<open>Held robots are blocked\<close>

definition blocked :: "planner \<Rightarrow> demo \<Rightarrow> string \<Rightarrow> bool" where
  "blocked plan d h \<longleftrightarrow>
     (\<forall>p q. map_of (held d) h = Some (p, q) \<longrightarrow> (\<exists>a \<in> set (plan p q). blocks (mgr d) h a))"

definition held_inv :: "planner \<Rightarrow> demo \<Rightarrow> bool" where
  "held_inv plan d \<longleftrightarrow> dict_ok (held d) \<and> (\<forall>h. map_of (held d) h \<noteq> None \<longrightarrow> h \<noteq> []) \<and> (\<forall>h. blocked plan d h)"

lemma demo_submit_blocked:
  assumes "r \<noteq> []"
  shows "blocked plan (demo_submit plan now r p q d) r"
    and "h \<noteq> r \<Longrightarrow> blocked plan d h \<Longrightarrow> blocked plan (demo_submit plan now r p q d) h"
    and "dict_ok (held d) \<Longrightarrow> dict_ok (held (demo_submit plan now r p q d))"
    and "h \<noteq> r \<Longrightarrow> map_of (held (demo_submit plan now r p q d)) h = map_of (held d) h"
proof -
  obtain res m' where s: "submit_task plan r p q (Some now) (mgr d) = (res, m')" by fastforce
  have "blocked plan (demo_submit plan now r p q d) r
    \<and> (h \<noteq> r \<longrightarrow> blocked plan d h \<longrightarrow> blocked plan (demo_submit plan now r p q d) h)
    \<and> (dict_ok (held d) \<longrightarrow> dict_ok (held (demo_submit plan now r p q d)))
    \<and> (h \<noteq> r \<longrightarrow> map_of (held (demo_submit plan now r p q d)) h = map_of (held d) h)" for h
    using s
  proof (cases rule: submit_cases)
    case (waiting a)
    then show ?thesis using s by (auto simp: demo_submit_def blocked_def)
  next
    case sent
    have "blocks m' h a" if "blocks (mgr d) h a" "h \<noteq> r" for a
      using blocks_after_lock [OF that(1) sent(1) assms that(2)] sent(3) by simp
    then show ?thesis using s sent(2) by (auto simp: demo_submit_def blocked_def) blast
  qed
  then show "blocked plan (demo_submit plan now r p q d) r"
    and "h \<noteq> r \<Longrightarrow> blocked plan d h \<Longrightarrow> blocked plan (demo_submit plan now r p q d) h"
    and "dict_ok (held d) \<Longrightarrow> dict_ok (held (demo_submit plan now r p q d))"
    and "h \<noteq> r \<Longrightarrow> map_of (held (demo_submit plan now r p q d)) h = map_of (held d) h"
    by blast+
qed

text \<open>The resubmission loop finds every entry and leaves every robot it has passed blocked or sent.\<close>

lemma resubmit_loop_inv:
  "distinct rs \<Longrightarrow> set rs \<subseteq> dom (map_of (held d)) \<Longrightarrow> dict_ok (held d) \<Longrightarrow>
   (\<forall>h. map_of (held d) h \<noteq> None \<longrightarrow> h \<noteq> []) \<Longrightarrow> (\<forall>h. h \<notin> set rs \<longrightarrow> blocked plan d h) \<Longrightarrow>
   \<exists>d'. resubmit_loop plan now rs d = Inr d' \<and> held_inv plan d'"
proof (induction rs arbitrary: d)
  case Nil
  then show ?case by (simp add: held_inv_def)
next
  case (Cons r rs)
  then obtain p q where r: "map_of (held d) r = Some (p, q)" "r \<noteq> []" by auto
  let ?d = "demo_submit plan now r p q d"
  note s = demo_submit_blocked [OF r(2), where plan = plan and now = now and p = p and q = q and d = d]
  have keys: "map_of (held ?d) h \<noteq> None \<Longrightarrow> h \<noteq> []" for h using s(4) [of h] r(2) Cons.prems(4) by (cases "h = r") auto
  have "set rs \<subseteq> dom (map_of (held ?d))"
  proof
    fix h
    assume "h \<in> set rs"
    then have "h \<noteq> r" "map_of (held d) h \<noteq> None" using Cons.prems(1,2) by auto
    then show "h \<in> dom (map_of (held ?d))" using s(4) by (simp add: domIff)
  qed
  moreover have "blocked plan ?d h" if "h \<notin> set rs" for h
    using that s(1) s(2) [of h] Cons.prems(5) by (cases "h = r") auto
  ultimately show ?case using Cons.IH [of ?d] Cons.prems s(3) keys r by simp
qed

lemma resubmit_waiting_inv:
  assumes "dict_ok (held d)" and "\<forall>h. map_of (held d) h \<noteq> None \<longrightarrow> h \<noteq> []"
  shows "\<exists>d'. resubmit_waiting plan now d = Inr d' \<and> held_inv plan d'"
proof -
  have "blocked plan d h" if "h \<notin> set (map fst (held d))" for h
  proof -
    have "map_of (held d) h = None" using that by (simp add: map_of_eq_None_iff)
    then show ?thesis by (simp add: blocked_def)
  qed
  then show ?thesis using assms unfolding resubmit_waiting_def
    by (intro resubmit_loop_inv) (auto simp: dict_ok_def dom_map_of_conv_image_fst)
qed

definition named :: "traffic_event \<Rightarrow> bool" where
  "named e = (case e of Submit _ robot _ _ \<Rightarrow> robot \<noteq> [] | _ \<Rightarrow> True)"

lemma demo_step_inv:
  assumes "held_inv plan d" and "named e"
  shows "\<exists>d'. demo_step plan d e = Inr d' \<and> held_inv plan d'"
proof (cases e)
  case (Submit now r p q)
  then have "r \<noteq> []" using assms(2) by (simp add: named_def)
  note s = demo_submit_blocked [OF this, where plan = plan and now = now and p = p and q = q and d = d]
  have "held_inv plan (demo_submit plan now r p q d)"
    unfolding held_inv_def
  proof (intro conjI allI)
    fix h
    show "blocked plan (demo_submit plan now r p q d) h"
      using s(1) s(2) [of h] assms(1) by (cases "h = r") (auto simp: held_inv_def)
    show "map_of (held (demo_submit plan now r p q d)) h \<noteq> None \<longrightarrow> h \<noteq> []"
      using s(4) [of h] \<open>r \<noteq> []\<close> assms(1) by (cases "h = r") (auto simp: held_inv_def)
  qed (use s(3) assms(1) in \<open>simp add: held_inv_def\<close>)
  then show ?thesis by (simp add: Submit)
next
  case (GoalDone now robot ok)
  have "\<exists>d'. resubmit_waiting plan now (d\<lparr>mgr := m\<rparr>) = Inr d' \<and> held_inv plan d'" for m
    using resubmit_waiting_inv [of "d\<lparr>mgr := m\<rparr>"] assms(1) by (simp add: held_inv_def)
  then show ?thesis using assms(1) by (simp add: GoalDone on_goal_done_def)
next
  case (CheckTimeouts now)
  have "\<exists>d'. resubmit_waiting plan now (d\<lparr>mgr := m\<rparr>) = Inr d' \<and> held_inv plan d'" for m
    using resubmit_waiting_inv [of "d\<lparr>mgr := m\<rparr>"] assms(1) by (simp add: held_inv_def)
  then show ?thesis by (simp add: CheckTimeouts check_timeouts_def)
qed

lemma demo_run_inv:
  "held_inv plan d \<Longrightarrow> \<forall>e \<in> set es. named e \<Longrightarrow> \<exists>d'. demo_run plan d es = Inr d' \<and> held_inv plan d'"
proof (induction es arbitrary: d)
  case (Cons e es)
  then obtain d1 where "demo_step plan d e = Inr d1" "held_inv plan d1" using demo_step_inv by fastforce
  then show ?case using Cons.IH Cons.prems(2) by simp
qed simp

section \<open>An aisle stays with its occupant\<close>

lemma release_other:
  "occupant m a = Some r \<Longrightarrow> (r', a') \<noteq> (r, a) \<Longrightarrow>
   occupant (release_aisle r' a' m) a = Some r
   \<and> map_of (acquired_at (release_aisle r' a' m)) a = map_of (acquired_at m) a
   \<and> lock_timeout_s (release_aisle r' a' m) = lock_timeout_s m"
  by (auto simp: release_aisle_def occupant_def)

lemma release_all_other:
  "occupant m a = Some r \<Longrightarrow> (r, a) \<notin> set locks \<Longrightarrow>
   occupant (release_all locks m) a = Some r
   \<and> map_of (acquired_at (release_all locks m)) a = map_of (acquired_at m) a
   \<and> lock_timeout_s (release_all locks m) = lock_timeout_s m"
proof (induction locks arbitrary: m)
  case (Cons x locks)
  obtain r' a' where x: "x = (r', a')" by (cases x)
  have "(r', a') \<noteq> (r, a)" using Cons.prems(2) x by auto
  note o = release_other [OF Cons.prems(1) this]
  then show ?case using Cons.IH [of "release_aisle r' a' m"] Cons.prems(2) by (simp add: release_all_def x)
qed (simp add: release_all_def)

lemma expired_in_mem: "(r, a) \<in> set (expired_in m now locks) \<Longrightarrow> lock_expired m now a"
  by (induction m now locks rule: expired_in.induct) (auto split: option.splits if_splits)

text \<open>The lock is held since a moment in the window and cannot have timed out within it.\<close>

definition keeps :: "string \<Rightarrow> string \<Rightarrow> rat \<Rightarrow> rat \<Rightarrow> demo \<Rightarrow> bool" where
  "keeps a r t0 t1 d \<longleftrightarrow> occupant (mgr d) a = Some r
     \<and> (\<exists>t. map_of (acquired_at (mgr d)) a = Some (Fin t) \<and> t0 \<le> t) \<and> Fin t1 - Fin t0 < lock_timeout_s (mgr d)"

definition timed_in :: "rat \<Rightarrow> rat \<Rightarrow> traffic_event \<Rightarrow> bool" where
  "timed_in t0 t1 e = (\<exists>t. t0 \<le> t \<and> t \<le> t1 \<and>
     (case e of Submit now _ _ _ \<Rightarrow> now = Fin t | GoalDone now _ _ \<Rightarrow> now = Fin t | CheckTimeouts now \<Rightarrow> now = Fin t))"

lemma demo_submit_keeps:
  assumes k: "keeps a r t0 t1 d" and "r \<noteq> []" and now: "now = Fin t" "t0 \<le> t"
  shows "keeps a r t0 t1 (demo_submit plan now r' p q d)"
proof -
  obtain res m' where s: "submit_task plan r' p q (Some now) (mgr d) = (res, m')" by fastforce
  then show ?thesis
  proof (cases rule: submit_cases)
    case (waiting b)
    then show ?thesis using s k by (simp add: demo_submit_def keeps_def)
  next
    case sent
    have "r' = r" if "a \<in> set (plan p q)"
      using sent(1) that k assms(2) by (auto simp: keeps_def blocks_def)
    then show ?thesis using s sent(2,3) k now
      by (auto simp: demo_submit_def keeps_def occupant_lock_aisles lock_aisles_acquired)
  qed
qed

lemma resubmit_keeps:
  assumes "r \<noteq> []" and now: "now = Fin t" "t0 \<le> t"
  shows "keeps a r t0 t1 d \<Longrightarrow> resubmit_loop plan now rs d = Inr d' \<Longrightarrow> keeps a r t0 t1 d'"
proof (induction rs arbitrary: d)
  case (Cons x rs)
  then obtain p q where "map_of (held d) x = Some (p, q)"
      "resubmit_loop plan now rs (demo_submit plan now x p q d) = Inr d'"
    by (auto split: option.splits)
  then show ?case using Cons.IH demo_submit_keeps [OF Cons.prems(1) assms] by blast
qed simp

lemma demo_step_keeps:
  assumes k: "keeps a r t0 t1 d" and "r \<noteq> []" and w: "timed_in t0 t1 e" and "\<forall>now. e \<noteq> GoalDone now r True"
    and st: "demo_step plan d e = Inr d'"
  shows "keeps a r t0 t1 d'"
proof -
  obtain t where t: "t0 \<le> t" "t \<le> t1"
      "case e of Submit now _ _ _ \<Rightarrow> now = Fin t | GoalDone now _ _ \<Rightarrow> now = Fin t | CheckTimeouts now \<Rightarrow> now = Fin t"
    using w by (auto simp: timed_in_def)
  have rel: "keeps a r t0 t1 (d\<lparr>mgr := release_all locks (mgr d)\<rparr>)" if "(r, a) \<notin> set locks" for locks
    using release_all_other [OF _ that] k by (auto simp: keeps_def)
  show ?thesis
  proof (cases e)
    case (Submit now r' p q)
    then show ?thesis using demo_submit_keeps [OF k assms(2) _ t(1)] t(3) st by auto
  next
    case (GoalDone now r' ok)
    show ?thesis
    proof (cases ok)
      case True
      then have "r' \<noteq> r" using assms(4) GoalDone by blast
      then have "(r, a) \<notin> set (locks_of r' (mgr d))" by (auto simp: locks_of_def)
      from resubmit_keeps [OF assms(2) _ t(1) rel [OF this]] show ?thesis
        using t(3) st True by (auto simp: GoalDone on_goal_done_def resubmit_waiting_def)
    qed (use st k in \<open>simp add: GoalDone on_goal_done_def\<close>)
  next
    case (CheckTimeouts now)
    obtain u where u: "map_of (acquired_at (mgr d)) a = Some (Fin u)" "t0 \<le> u"
        "Fin t1 - Fin t0 < lock_timeout_s (mgr d)"
      using k by (auto simp: keeps_def)
    have "Fin t - Fin u \<le> Fin t1 - Fin t0" using t(2) u(2) by (simp add: fround_mono)
    then have "\<not> lock_timeout_s (mgr d) \<le> Fin t - Fin u"
      using flt_fle_trans [OF u(3)] fle_trans flt_irrefl by blast
    then have "\<not> lock_expired (mgr d) now a"
      using u(1) t(3) by (simp add: CheckTimeouts lock_expired_def)
    then have "(r, a) \<notin> set (expired_locks (mgr d) now)" using expired_in_mem by (auto simp: expired_locks_def)
    from resubmit_keeps [OF assms(2) _ t(1) rel [OF this]] show ?thesis
      using t(3) st by (auto simp: CheckTimeouts check_timeouts_def resubmit_waiting_def)
  qed
qed

lemma demo_run_keeps:
  "keeps a r t0 t1 d \<Longrightarrow> r \<noteq> [] \<Longrightarrow> \<forall>e \<in> set es. timed_in t0 t1 e \<and> (\<forall>now. e \<noteq> GoalDone now r True) \<Longrightarrow>
   demo_run plan d es = Inr d' \<Longrightarrow> keeps a r t0 t1 d'"
proof (induction es arbitrary: d)
  case (Cons e es)
  then obtain d1 where d1: "demo_step plan d e = Inr d1" "demo_run plan d1 es = Inr d'" by (auto simp: bindR_Inr_iff)
  then have "keeps a r t0 t1 d1" using demo_step_keeps Cons.prems by auto
  then show ?case using Cons.IH Cons.prems d1(2) by simp
qed simp

section \<open>Properties\<close>

text \<open>C37. Once a robot's task through an aisle has been granted at time t0, no other robot gets through: whatever is
  submitted, finishes or is checked within the lock timeout, unless the occupant's own goal succeeds,
  the aisle stays locked by it, and a task of any other robot whose route uses the aisle is answered
  with waiting and changes nothing.\<close>
theorem aisle_exclusive:
  assumes "submit_task plan r p q (Some (Fin t0)) (mgr d) = (Sent, m)" and "a \<in> set (plan p q)" and "r \<noteq> []"
    and "Fin t1 - Fin t0 < lock_timeout_s (mgr d)"
    and "\<forall>e \<in> set es. timed_in t0 t1 e \<and> (\<forall>now. e \<noteq> GoalDone now r True)"
    and "demo_run plan (demo_submit plan (Fin t0) r p q d) es = Inr d'"
  shows "occupant (mgr d') a = Some r \<and>
    (\<forall>r2 p2 q2 now. r2 \<noteq> r \<longrightarrow> a \<in> set (plan p2 q2) \<longrightarrow>
       (\<exists>b x. submit_task plan r2 p2 q2 now (mgr d') = (Waiting b x, mgr d')))"
proof -
  have "keeps a r t0 t1 (demo_submit plan (Fin t0) r p q d)"
    using assms(1)
  proof (cases rule: submit_cases)
    case sent
    then show ?thesis using assms(1,2,4)
      by (auto simp: keeps_def demo_submit_def occupant_lock_aisles lock_aisles_acquired)
  qed simp
  then have "keeps a r t0 t1 d'" using demo_run_keeps assms(3,5,6) by blast
  then have o: "occupant (mgr d') a = Some r" by (simp add: keeps_def)
  have "\<exists>b x. submit_task plan r2 p2 q2 now (mgr d') = (Waiting b x, mgr d')"
    if "r2 \<noteq> r" "a \<in> set (plan p2 q2)" for r2 p2 q2 now
  proof -
    obtain res m' where s: "submit_task plan r2 p2 q2 now (mgr d') = (res, m')" by fastforce
    then show ?thesis
    proof (cases rule: submit_cases)
      case (waiting b)
      then show ?thesis using s by blast
    next
      case sent
      then have False using that o assms(3) by (auto simp: blocks_def)
      then show ?thesis ..
    qed
  qed
  then show ?thesis using o by blast
qed

definition demo_plan :: planner where
  "demo_plan = table_route_planner [((''berth_A'', ''aisle_a_south_1''), [''route_A'']), ((''berth_B'', ''aisle_a_south_2''), [''route_A''])]"

definition after_timeouts :: demo where
  "after_timeouts = \<lparr>mgr = \<lparr>aisle_locks = [(''route_A'', Some ''bot1'')], acquired_at = [(''route_A'', Fin 0)],
     lock_timeout_s = Fin 30, has_bridge = True, navigated = [(''bot1'', ''aisle_a_south_1'')]\<rparr>,
     held = [(''bot2'', (''berth_B'', ''aisle_a_south_2''))]\<rparr>"

theorem aisle_exclusive_witness:
  "occupant (mgr after_timeouts) ''route_A'' = Some ''bot1'' \<and>
    (\<exists>b x. submit_task demo_plan ''bot2'' ''berth_B'' ''aisle_a_south_2'' None (mgr after_timeouts) = (Waiting b x, mgr after_timeouts))"
proof -
  have "occupant (mgr after_timeouts) ''route_A'' = Some ''bot1'' \<and>
    (\<forall>r2 p2 q2 now. r2 \<noteq> ''bot1'' \<longrightarrow> ''route_A'' \<in> set (demo_plan p2 q2) \<longrightarrow>
       (\<exists>b x. submit_task demo_plan r2 p2 q2 now (mgr after_timeouts) = (Waiting b x, mgr after_timeouts)))"
  proof (rule aisle_exclusive [where ?t0.0 = 0 and ?t1.0 = 20 and d = "start_demo (Fin 30)" and p = "''berth_A''" and q = "''aisle_a_south_1''"
        and es = "[Submit (Fin 1) ''bot2'' ''berth_B'' ''aisle_a_south_2'', GoalDone (Fin 2) ''bot1'' False, CheckTimeouts (Fin 20)]"])
    show "submit_task demo_plan ''bot1'' ''berth_A'' ''aisle_a_south_1'' (Some (Fin 0)) (mgr (start_demo (Fin 30)))
        = (Sent, mgr after_timeouts)"
      by code_simp
    show "demo_run demo_plan (demo_submit demo_plan (Fin 0) ''bot1'' ''berth_A'' ''aisle_a_south_1'' (start_demo (Fin 30)))
        [Submit (Fin 1) ''bot2'' ''berth_B'' ''aisle_a_south_2'', GoalDone (Fin 2) ''bot1'' False, CheckTimeouts (Fin 20)] = Inr after_timeouts"
      by code_simp
    show "''route_A'' \<in> set (demo_plan ''berth_A'' ''aisle_a_south_1'')" by code_simp
    show "Fin 20 - Fin 0 < lock_timeout_s (mgr (start_demo (Fin 30)))" by code_simp
    show "\<forall>e \<in> set [Submit (Fin 1) ''bot2'' ''berth_B'' ''aisle_a_south_2'', GoalDone (Fin 2) ''bot1'' False, CheckTimeouts (Fin 20)].
        timed_in 0 20 e \<and> (\<forall>now. e \<noteq> GoalDone now ''bot1'' True)"
      by (simp add: timed_in_def)
  qed simp
  moreover have "''route_A'' \<in> set (demo_plan ''berth_B'' ''aisle_a_south_2'')" by code_simp
  ultimately show ?thesis by simp
qed

text \<open>C38. No wake-up is lost: over any history of submissions, finished or failed goals and timeout checks of named
  robots the demo never raises, and a robot that is still held is blocked right now by an aisle on its
  route that another robot has locked.\<close>
theorem no_lost_wakeup:
  assumes "\<forall>e \<in> set es. named e"
  shows "\<exists>d. demo_run plan (start_demo timeout) es = Inr d \<and>
    (\<forall>h p q. map_of (held d) h = Some (p, q) \<longrightarrow>
       (\<exists>a \<in> set (plan p q). \<exists>r. occupant (mgr d) a = Some r \<and> r \<noteq> h))"
proof -
  have "held_inv plan (start_demo timeout)" by (simp add: held_inv_def start_demo_def blocked_def)
  from demo_run_inv [OF this assms] obtain d where "demo_run plan (start_demo timeout) es = Inr d" "held_inv plan d"
    by blast
  then show ?thesis by (fastforce simp: held_inv_def blocked_def blocks_def split: option.splits)
qed

theorem no_lost_wakeup_witness:
  "\<exists>d. demo_run demo_plan (start_demo (Fin 30))
      [Submit (Fin 0) ''bot1'' ''berth_A'' ''aisle_a_south_1'', Submit (Fin 1) ''bot2'' ''berth_B'' ''aisle_a_south_2''] = Inr d"
  using no_lost_wakeup [of "[Submit (Fin 0) ''bot1'' ''berth_A'' ''aisle_a_south_1'', Submit (Fin 1) ''bot2'' ''berth_B'' ''aisle_a_south_2'']" demo_plan "Fin 30"]
  by (force simp: named_def)

end
