(* ===== verification/Spec2Isabelle.thy ===== *)
theory Spec2Isabelle
  imports CalibrationGate RunManifest TerrainNode XErSamples XErAccepts PlanRun StateCacheProps TerrainSamples SpeedBand Odometry Negotiation SignalTemporalProps GuardianProps
    M1DriverProps OperatorLinkProps TrafficProps
begin

text \<open>
  The miniature warehouse robots (\<open>src/ws/src\<close>): two robots driven by language models under a stack of safety
  layers. This development models the Python code that decides what a robot may do and proves that the layers
  hold, alone and composed.

  The program and how its parts interact. A commander turns a model's answer into a command: in the plain mode
  \<open>BridgeScheduler\<close> (\<open>warehouse_llm_bridge/scheduler.py\<close>), in Mode X-ER the planning core: handoff, plan
  validator with plugins, visual resolver, task-graph executor, compiler, and the loop of \<open>x_er_bridge.py\<close>.
  Either sends tool calls to the tool server (\<open>warehouse_mcp_server\<close>), which checks the generation and the
  idempotency key, asks the policy gate, and forwards a motion request to the Nav2 bridge
  (\<open>warehouse_nav2_bridge\<close>), which reports goal results back to Mode X-ER. Beside this path the Emergency
  Guardian (\<open>warehouse_safety\<close>) evaluates the reflex rules every 50 ms; its stop feed brakes the M1 driver
  (\<open>warehouse_m1_driver\<close>) and its zero commands flag the robot in the policy gate through a level mirror. The
  teleoperation (\<open>warehouse_teleop\<close>) drives a robot by joystick or over a remote link and can stop the fleet.
  The traffic manager (\<open>warehouse_traffic\<close>) keeps aisles exclusive. Perception (\<open>warehouse_perception\<close>) decides
  whether a pedestrian light may be taken as green, which floor was seen and where it drops, and caps the speed
  by a gesture. The state cache (\<open>warehouse_state\<close>) writes the snapshot that commander and gates read, and the
  odometry of the M1 turns wheel counts into motion.

  Theories, in the order of the code's layers (each opens with what it holds; a theory with the suffix Props
  has the properties of the theory of that name):
  \<^item> Prelude, PyFloat, PyValue, PyText: exceptions as values, dictionaries as association lists in insertion
    order, binary64 floats with rounding, dynamic values, the string methods used.
  \<^item> Safety (\<open>warehouse_interfaces\<close>: safety.py, locations.py, config.py), Stores (stores.py), GenCheck (gen_check.py),
    PolicyGate (policy_gate.py), EmergencySync (emergency_sync.py), McpTools (tools.py, nav2_client.py, audit.py).
  \<^item> GuardLogic (guard_logic.py), SensorHealth (sensor_health.py, terrain_health.py), Guardian
    (emergency_guardian.py), M1Driver (clamp.py, stop_state.py, driver_core.py, driver_node.py).
  \<^item> Situation (situation.py), Scheduler (scheduler.py, action_map.py, executor.py, schemas.py), Nav2Bridge (core.py,
    app.py), CommandPath (the composition commander, tool server, Nav2 bridge).
  \<^item> TaskGraph (task_graph_executor), PlanValidator (validator), PlanRun (whole runs of an accepted plan), Handoff
    (handoff.py, boundary.py), VisualResolver (visual_resolver), PlanPipeline (policy.py, command_compiler,
    pipeline.py), PluginGate (composition/plugin_results.py, plugins.py), XErCycle, XErRun, XErAccepts and XErSamples
    (x_er_cycle.py, x_er_completion.py, the loop of x_er_bridge.py; XErAccepts logs what the backend accepts).
  \<^item> The composition of a run: SiteProfile (composition/profile.py), CalibrationGate (calibration_gate.py,
    calibration_source.py), RunManifest (manifest.py, preflight.py, record.py).
  \<^item> SelfAction (self_action_gate.py, conversation_events.py): local agreements of the robots among themselves, over
    the same tool server. Negotiation (negotiation.py, persona.py): the episode that produces a proposal.
  \<^item> StateCache (aggregator.py, the callbacks of state_cache.py), Odometry (odom_core.py), TerrainCore and
    TerrainSamples (terrain_core.py), TerrainNode (terrain_node_core.py, terrain_node.py), SpeedBand (speed_band_core.py, speed_band_node.py).
  \<^item> Joymap (joymap.py, teleop_joy.py), OperatorLink (operator_link_logic.py), Traffic (traffic_logic.py, the yield
    demo), SignalTemporal (signal_temporal_core.py).

  What the groups of lemmas show. Functional behaviour: each check and each endpoint on every branch, the exact
  condition of acceptance (\<open>dispatch_refines_admissible\<close>, \<open>stop_iff_hazard\<close>, \<open>plan_accepted_iff_admissible\<close>,
  \<open>draft_iff_clean\<close>). Invariants over histories: each stateful component has its operations as a step or a fold
  over events, an invariant and its preservation; what a backend keeps is proved once in the locales
  \<open>tool_executor\<close> and \<open>tool_backend\<close> and used for both commanders. Compositions: from a guardian tick to the
  driver and to the gate (this theory), from a model's answer to a Nav2 goal (CommandPath), from a raw answer to
  a grounded command (PlanPipelineProps), from a reviewed site profile to a snapped destination (CalibrationGate),
  from a goal result to the next task (XErRun). Where the code does not
  do what its documentation says, a lemma exhibits the case.

  Bounds and fuel. Floats are rationals with rounding to 53 bits, infinities and NaN; integers are unbounded,
  and the conversion to a float raises OverflowError where Python does. Loops are structural or have a measure:
  Kahn's loop of the validator and the merge of configurations by the size of what is left; no fuel is used.
  A thread interleaving is a list of events in any order, at the granularity of one callback.

  Parameters, for code and services outside the repository: \<open>math\<close> functions (\<open>libm\<close>), SHA-256, the parsers of JSON,
  YAML, ISO timestamps and UUIDs, the schema library's coercions, the plugins, the minted keys, the models' answers. What
  is needed of them is a named hypothesis of the lemma that needs it.

  Not modelled: ROS node set-up and launch files, HTTP and file I/O, logging and tracing, prompts and the adapters
  of model providers, the read models and dashboards, the evaluation SDK, deployment and one-off scripts,
  simulation worlds, the firmware and web parts (other languages), and the parts of perception, orchestration,
  operator feedback and Mode X-ER start-up that are listed as such in the manifest of components.
\<close>

section \<open>From a guardian tick to the driver and to the command gate\<close>

text \<open>
  The stop feed on the wire: \<open>_publish_stop_state\<close> dumps one JSON object per robot, the driver's
  \<open>decode_stop_state\<close> reads it. Reading back gives what was sent, with the deadline capped.
\<close>

definition encode_stop_state :: "bool \<Rightarrow> pyfloat \<Rightarrow> json_text" where
  "encode_stop_state stop_requested valid_until =
     Some (PDict [(''stop_requested'', PBool stop_requested), (''valid_until'', PFloat valid_until)])"

lemma decode_encode:
  "decode_stop_state (encode_stop_state f u) now mv =
     (if isfinite u \<and> \<not> u \<le> Fin 0 then (f, py_min u (now + window mv)) else revoke)"
  by (simp add: decode_stop_state_def encode_stop_state_def window_def)

text \<open>
  The zero commands of a tick arrive at the bridge's subscription to \<open>cmd_vel/emergency\<close>, which
  calls \<open>on_stop_signal\<close> of the mirror for each.
\<close>

definition relay :: "tick_out \<Rightarrow> pyfloat \<Rightarrow> mirror \<times> gate \<Rightarrow> mirror \<times> gate" where
  "relay out now s = fold (\<lambda>b s. on_stop_signal set_emergency s b now) (zero_twists out) s"

lemma relay_emergency: "emergency (snd (relay out now s)) = emergency (snd s) \<union> set (zero_twists out)"
proof -
  have "emergency (snd (fold (\<lambda>b s. on_stop_signal set_emergency s b now) bs s)) = emergency (snd s) \<union> set bs" for bs s
    by (induction bs arbitrary: s) (auto simp: on_stop_signal_def set_emergency_def case_prod_beta)
  then show ?thesis by (simp add: relay_def)
qed

lemma stop_state_blocks:
  assumes "stop_overlay_enabled d" and "filter is_stop_state ms = []"
  shows "permit_until (driver_run lib mv (driver_step lib mv d (StopState (encode_stop_state True u) t)) ms) = None"
proof -
  have "permit_until (driver_step lib mv d (StopState (encode_stop_state True u) t)) = None"
    using assms(1) by (simp add: decode_encode on_stop_state_def revoke_def Let_def)
  moreover have "permit_until (driver_run lib mv d' ms) = permit_until d'" for d'
    using assms(2) by (induction ms arbitrary: d') (auto simp: permit_other split: if_splits)
  ultimately show ?thesis by simp
qed

text \<open>
  C1. One guardian tick that stops a robot stops it everywhere: when the tick decides to stop robot
  \<open>b\<close>, then (1) a driver with the stop overlay that receives the published stop state answers every
  command with a brake until another stop state arrives, and (2) once the bridge has relayed the
  tick's zero commands, no wire call of any kind makes the tool server send a motion request for
  \<open>b\<close> to the Nav2 bridge.
\<close>

theorem guardian_stop_reaches_all:
  assumes "check_safety lib e g now = (out, g')"
    and "b \<in> set BOTS" and "stop_requested_for (tick_decisions lib g now) b"
    and "(b, flag, until) \<in> set (stop_states out)"
    and "stop_overlay_enabled d" and "filter is_stop_state ms = []"
    and "pgate s = snd (relay out t (m, g0))"
  shows "(let d' = driver_run lib mv (driver_step lib mv d (StopState (encode_stop_state flag until) t')) ms in
        frames (snd (on_cmd_vel lib d' vx vy wz t'')) = frames d' @ [Brake])
    \<and> filter (moves b) (forwarded (snd (wire_dispatch parse_ts env s w gen key))) = filter (moves b) (forwarded s)"
proof -
  have flag: "flag" and zero: "b \<in> set (zero_twists out)"
    using assms(3,4) by (auto simp: tick_simps [OF assms(1)] stop_requested_for_def)
  have "b \<in> emergency (pgate s)" using zero by (simp add: assms(7) relay_emergency)
  then have "filter (moves b) (forwarded (snd (wire_dispatch parse_ts env s w gen key))) = filter (moves b) (forwarded s)"
    using step_no_motion [of b s "Wire env w gen key" parse_ts] by simp
  then show ?thesis
    using stop_state_blocks [OF assms(5,6), of lib mv until t'] assms(5) flag
    by (simp add: on_cmd_vel_def overlay_blocks_def send_def Let_def del: driver_step.simps)
qed

theorem guardian_stop_reaches_all_witness:
  "frames (snd (on_cmd_vel unit_libm (driver_step unit_libm (Fin 1) sample_driver
      (StopState (encode_stop_state True (Fin 10 + Fin (1/2))) (Fin 10))) (Fin 1) (Fin 0) (Fin 0) (Fin 11))) = [Brake]"
proof -
  let ?g = "cb_operator_stop sample_guardian engage_payload"
  let ?tick = "check_safety unit_libm sample_tick ?g (Fin 10)"
  let ?s = "sample_server\<lparr>pgate := snd (relay (fst ?tick) (Fin 10) (sample_mirror, sample_gate))\<rparr>"
  have t: "check_safety unit_libm sample_tick ?g (Fin 10) = (fst ?tick, snd ?tick)" by simp
  have "op_engaged ?g" "cfg_ok (gcfg ?g)"
    by (simp_all add: cb_operator_stop_def op_feed_def parse_operator_stop_action_def engage_payload_def
        OPERATOR_STOP_ACTIONS_def dget_def sample_cfg)
  then have z: "''bot1'' \<in> set (zero_twists (fst ?tick))"
    using engaged_tick_stops [OF t] by (simp add: BOTS_def)
  then have r: "stop_requested_for (tick_decisions unit_libm ?g (Fin 10)) ''bot1''"
    by (auto simp: tick_simps [OF t] stop_requested_for_def)
  have f: "(''bot1'', True, Fin 10 + Fin (1/2)) \<in> set (stop_states (fst ?tick))"
    using z by (simp add: tick_flags [OF t] BOTS_def DEFAULT_STOP_STATE_VALID_WINDOW_S_def)
  have d: "stop_overlay_enabled sample_driver" "frames sample_driver = []"
    by (simp_all add: sample_driver_def make_driver_def case_prod_beta Let_def)
  show ?thesis
    using guardian_stop_reaches_all [OF t _ r f d(1), where ms = "[]" and s = ?s and t = "Fin 10"
        and m = sample_mirror and ?g0.0 = sample_gate and mv = "Fin 1" and t' = "Fin 10" and vx = "Fin 1"
        and vy = "Fin 0" and wz = "Fin 0" and t'' = "Fin 11" and env = sample_env and w = "Bound GetTaskQueue"]
    by (simp add: BOTS_def frames_other d del: driver_step.simps)
qed

section \<open>From the operator to the guardian\<close>

text \<open>
  The stop requests an operator's side puts on the guardian's topic: the e-stop button of the
  joystick node, and the link watchdog of a remote session that finds no fresh heartbeat.
\<close>

inductive operator_stop_sent :: "json_text \<Rightarrow> bool" where
  press: "operator_estop_config_error cfg (Some buttons) = None \<Longrightarrow> estop_enabled cfg \<Longrightarrow>
    estop_rising (prev_buttons (estop n)) buttons (estop_button cfg)
      \<or> estop_rising (prev_buttons (estop n)) buttons (estop_button_alt cfg) \<Longrightarrow>
    publish_stops n \<Longrightarrow> on_joy lib p cfg n now axes buttons = Inr n1 \<Longrightarrow>
    operator_stop_sent (operator_stop_payload (last (sent_stops n1)))"
| lost: "make_watchdog timeout = Inr w0 \<Longrightarrow> w = watch_run w0 es \<Longrightarrow> \<not> link_is_fresh w now \<Longrightarrow>
    operator_stop_sent (stop_request_payload (Some (fst (link_evaluate w now))))"

lemma operator_stop_feeds:
  assumes "operator_stop_sent raw" shows "op_feed b raw = (Some ''engage'', True)"
  using assms
proof cases
  case (press cfg buttons n lib p now axes n1)
  then show ?thesis using engage_holds [OF press(2-4,6)]
    by (simp add: op_feed_def parse_operator_stop_action_def dget_def OPERATOR_STOP_ACTIONS_def)
next
  case (lost timeout w0 w es now)
  have "watch_inv w" using make_watchdog_inv [OF lost(2)] watch_run_inv lost(3) by blast
  then show ?thesis using evaluate_lost [OF _ lost(4)] engage_payload_feeds lost(1) by simp
qed

text \<open>C5. An operator can always stop the fleet: once the guardian receives the stop request sent by a press of
  an e-stop button or by a lost remote link, every tick stops both robots and says so on both stop
  feeds, whatever other messages arrive, until an explicit clear.\<close>
theorem operator_stops_fleet:
  assumes "operator_stop_sent raw" and "guardian_run lib (cb_operator_stop g raw) ms outs g'"
    and "list_all no_clear ms" and "cfg_ok (gcfg g)"
  shows "\<forall>out \<in> set outs. set (zero_twists out) = set BOTS \<and> (\<forall>x \<in> set (stop_states out). fst (snd x))"
proof -
  have "op_engaged (cb_operator_stop g raw)" "gcfg (cb_operator_stop g raw) = gcfg g"
    using operator_stop_feeds [OF assms(1)] by (simp_all add: cb_operator_stop_def case_prod_beta)
  then show ?thesis using engaged_held [OF assms(2) _ assms(3)] assms(4) by simp
qed

definition lost_link :: link_watchdog where
  "lost_link = \<lparr>lw_timeout_s = Fin 1, last_heartbeat = None, lw_engaged = True\<rparr>"

definition lost_payload :: json_text where
  "lost_payload = stop_request_payload (Some (fst (link_evaluate lost_link (Fin 3))))"

lemma lost_payload_sent: "operator_stop_sent lost_payload"
proof -
  have "make_watchdog (PInt 1) = Inr lost_link" "lost_link = watch_run lost_link []" "\<not> link_is_fresh lost_link (Fin 3)"
    by code_simp+
  then show ?thesis unfolding lost_payload_def by (rule operator_stop_sent.lost)
qed

theorem operator_stops_fleet_witness:
  "set (zero_twists (fst (check_safety plain_libm sample_tick (cb_operator_stop sample_guardian lost_payload) (Fin 10)))) = set BOTS"
proof -
  let ?g = "cb_operator_stop sample_guardian lost_payload"
  have "guardian_step plain_libm ?g (guardian_msg.Tick sample_tick (Fin 10))
      (Some (fst (check_safety plain_libm sample_tick ?g (Fin 10)))) (snd (check_safety plain_libm sample_tick ?g (Fin 10)))"
    by (rule guardian_step.tick) simp
  from guardian_run.more [OF this guardian_run.finish]
  have "guardian_run plain_libm ?g [guardian_msg.Tick sample_tick (Fin 10)]
      [fst (check_safety plain_libm sample_tick ?g (Fin 10))] (snd (check_safety plain_libm sample_tick ?g (Fin 10)))"
    by simp
  from operator_stops_fleet [OF lost_payload_sent this] show ?thesis by (simp add: sample_cfg)
qed

end
